(* ===== verification/Prelude.thy ===== *)
theory Prelude
  imports Main "HOL-Library.Word" "HOL-Library.List_Lexorder"
begin

text \<open>
  Shared types and lemmas: Python strings as lists of code points, bytes as 8-bit
  words, the sum type used for functions that may raise, and loops that stop at the
  first exception.
\<close>

section \<open>Fact collections\<close>

named_theorems raise_simps \<open>unfolding rules for functions that may raise\<close>
named_theorems raises_intros \<open>which exceptions a function may raise\<close>
named_theorems key_simps \<open>evaluation of the string constants of the source\<close>

section \<open>Strings and bytes\<close>

text \<open>
  A Python \<open>str\<close> is a sequence of code points (surrogates included), so its
  \<open>len\<close>, slices and comparisons are those of a list of numbers. A literal of the
  source is written \<open>lit ''abc''\<close>. A Python \<open>bytes\<close> object is a list of 8-bit
  words.
\<close>

type_synonym pystr = "nat list"
type_synonym byte = "8 word"
type_synonym pybytes = "byte list"

definition lit :: "string \<Rightarrow> pystr" where
  "lit s = map of_char s"

lemma lit_eq_iff [simp]: "lit s = lit t \<longleftrightarrow> s = t"
  by (simp add: lit_def inj_map_eq_map [OF inj_of_char])

lemma length_lit [simp]: "length (lit s) = length s"
  by (simp add: lit_def)

lemma lit_Nil [simp]: "lit [] = []"
  by (simp add: lit_def)

lemma lit_eq_Nil [simp]: "lit s = [] \<longleftrightarrow> s = []" "[] = lit s \<longleftrightarrow> s = []"
  by (auto simp: lit_def)

lemma lit_append: "lit (s @ t) = lit s @ lit t"
  by (simp add: lit_def)

text \<open>ASCII tests of \<open>str\<close>: \<open>isascii\<close>, and the decimal and hexadecimal digits.\<close>

definition is_ascii :: "pystr \<Rightarrow> bool" where
  "is_ascii s \<longleftrightarrow> list_all (\<lambda>c. c < 128) s"

definition is_dec_digit :: "nat \<Rightarrow> bool" where
  "is_dec_digit c \<longleftrightarrow> 48 \<le> c \<and> c \<le> 57"

definition is_lower_hex :: "nat \<Rightarrow> bool" where
  "is_lower_hex c \<longleftrightarrow> is_dec_digit c \<or> 97 \<le> c \<and> c \<le> 102"

lemma is_ascii_simps [simp]:
  "is_ascii []" "is_ascii (c # s) \<longleftrightarrow> c < 128 \<and> is_ascii s"
  "is_ascii (s @ t) \<longleftrightarrow> is_ascii s \<and> is_ascii t"
  by (auto simp: is_ascii_def)

lemma is_ascii_lit: "list_all (\<lambda>c. of_char c < (128::nat)) s \<Longrightarrow> is_ascii (lit s)"
  by (simp add: is_ascii_def lit_def list_all_iff)

text \<open>A prefix test, \<open>str.startswith\<close>, and the matching suffix test.\<close>

fun starts_with :: "'a list \<Rightarrow> 'a list \<Rightarrow> bool" where
  "starts_with s [] = True"
| "starts_with [] (p # ps) = False"
| "starts_with (c # s) (p # ps) = (c = p \<and> starts_with s ps)"

lemma starts_with_iff: "starts_with s p \<longleftrightarrow> (\<exists>t. s = p @ t)"
  by (induction s p rule: starts_with.induct) auto

lemma starts_with_append [simp]: "starts_with (p @ s) p"
  by (auto simp: starts_with_iff)

lemma starts_with_trans: "starts_with a b \<Longrightarrow> starts_with b c \<Longrightarrow> starts_with a c"
  by (auto simp: starts_with_iff)

definition ends_with :: "'a list \<Rightarrow> 'a list \<Rightarrow> bool" where
  "ends_with s p \<longleftrightarrow> starts_with (rev s) (rev p)"

lemma ends_with_iff: "ends_with s p \<longleftrightarrow> (\<exists>t. s = t @ p)"
proof
  assume "ends_with s p"
  then obtain t where "rev s = rev p @ t"
    by (auto simp: ends_with_def starts_with_iff)
  then have "s = rev t @ p"
    by (simp add: rev_swap)
  then show "\<exists>t. s = t @ p" ..
qed (auto simp: ends_with_def starts_with_iff)

text \<open>
  \<open>str.strip\<close> removes the leading and trailing white space of Python's Unicode
  table; \<open>bytes.strip\<close> removes ASCII white space only.
\<close>

definition py_space :: "nat \<Rightarrow> bool" where
  "py_space c \<longleftrightarrow> c \<in> {9, 10, 11, 12, 13, 28, 29, 30, 31, 32, 133, 160, 5760,
     8192, 8193, 8194, 8195, 8196, 8197, 8198, 8199, 8200, 8201, 8202,
     8232, 8233, 8239, 8287, 12288}"

definition strip_by :: "('a \<Rightarrow> bool) \<Rightarrow> 'a list \<Rightarrow> 'a list" where
  "strip_by P s = rev (dropWhile P (rev (dropWhile P s)))"

definition strip :: "pystr \<Rightarrow> pystr" where
  "strip s = strip_by py_space s"

lemma dropWhile_hd_id: "s = [] \<or> \<not> P (hd s) \<Longrightarrow> dropWhile P s = s"
  by (cases s) auto

lemma strip_by_idem [simp]: "strip_by P (strip_by P s) = strip_by P s"
proof -
  define t where "t = dropWhile P s"
  define u where "u = dropWhile P (rev t)"
  have "t = [] \<or> \<not> P (hd t)"
    using hd_dropWhile [of P s] by (auto simp: t_def)
  moreover have "\<exists>v. t = rev u @ v"
    by (metis dropWhile_eq_drop rev_append rev_rev_ident takeWhile_dropWhile_id u_def)
  ultimately have hd: "rev u = [] \<or> \<not> P (hd (rev u))"
    by (cases "rev u") auto
  have "u = [] \<or> \<not> P (hd u)"
    using hd_dropWhile [of P "rev t"] by (auto simp: u_def)
  with hd show ?thesis
    by (simp add: strip_by_def flip: t_def u_def) (simp add: dropWhile_hd_id)
qed

lemma strip_idem [simp]: "strip (strip s) = strip s"
  by (simp add: strip_def)

section \<open>Functions that may raise\<close>

text \<open>The exception classes of the source that a caller may see or catch.\<close>

datatype exc = ValueError | TypeError | KeyError | OverflowError | AttributeError

text \<open>
  A function that may raise returns \<open>Inl\<close> the exception or \<open>Inr\<close> its result;
  \<open>bnd\<close> is the sequencing of two statements, \<open>ensure\<close> the \<open>if not ...: raise\<close>
  of the source, \<open>each\<close> the list built by a loop that may raise.
\<close>

definition bnd :: "'e + 'a \<Rightarrow> ('a \<Rightarrow> 'e + 'b) \<Rightarrow> 'e + 'b" where
  "bnd r f = (case r of Inl e \<Rightarrow> Inl e | Inr x \<Rightarrow> f x)"

definition ensure :: "bool \<Rightarrow> 'e \<Rightarrow> ('e + 'a) \<Rightarrow> 'e + 'a" where
  "ensure b e k = (if b then k else Inl e)"

fun each :: "('a \<Rightarrow> 'e + 'b) \<Rightarrow> 'a list \<Rightarrow> 'e + 'b list" where
  "each f [] = Inr []"
| "each f (x # xs) = bnd (f x) (\<lambda>y. bnd (each f xs) (\<lambda>ys. Inr (y # ys)))"

lemma bnd_simps [simp]: "bnd (Inl e) f = Inl e" "bnd (Inr x) f = f x"
  by (simp_all add: bnd_def)

lemma bnd_Inr_iff [raise_simps]: "bnd r f = Inr y \<longleftrightarrow> (\<exists>x. r = Inr x \<and> f x = Inr y)"
  by (cases r) auto

lemma bnd_Inl_iff:
  "bnd r f = Inl e \<longleftrightarrow> r = Inl e \<or> (\<exists>x. r = Inr x \<and> f x = Inl e)"
  by (cases r) auto

lemma ensure_simps [simp]: "ensure True e k = k" "ensure False e k = Inl e"
  by (simp_all add: ensure_def)

lemma ensure_Inr_iff [raise_simps]: "ensure b e k = Inr y \<longleftrightarrow> b \<and> k = Inr y"
  by (simp add: ensure_def)

lemma ensure_Inl_iff:
  "ensure b e k = Inl e' \<longleftrightarrow> (if b then k = Inl e' else e = e')"
  by (simp add: ensure_def)

text \<open>\<open>expect\<close> raises where a value does not have the shape the next statement needs.\<close>

definition expect :: "'e \<Rightarrow> 'a option \<Rightarrow> 'e + 'a" where
  "expect e v = (case v of None \<Rightarrow> Inl e | Some x \<Rightarrow> Inr x)"

lemma expect_simps [simp]: "expect e None = Inl e" "expect e (Some x) = Inr x"
  by (simp_all add: expect_def)

lemma expect_Inr_iff [raise_simps]: "expect e v = Inr x \<longleftrightarrow> v = Some x"
  by (cases v) auto

lemma expect_Inl_iff: "expect e v = Inl e' \<longleftrightarrow> v = None \<and> e = e'"
  by (cases v) auto

text \<open>A step after a check that may have refused.\<close>

lemma bnd_sum:
  "bnd r (\<lambda>x. case x of Inl f \<Rightarrow> g f | Inr a \<Rightarrow> k a) = Inr y \<longleftrightarrow>
    (\<exists>f. r = Inr (Inl f) \<and> g f = Inr y) \<or> (\<exists>a. r = Inr (Inr a) \<and> k a = Inr y)"
  by (cases r) (auto split: sum.splits)

lemma bnd_option:
  "bnd r (\<lambda>x. case x of None \<Rightarrow> g | Some a \<Rightarrow> k a) = Inr y \<longleftrightarrow>
    r = Inr None \<and> g = Inr y \<or> (\<exists>a. r = Inr (Some a) \<and> k a = Inr y)"
  by (cases r) (auto split: option.splits)

lemma bnd_cong [fundef_cong]:
  "r = r' \<Longrightarrow> (\<And>x. r' = Inr x \<Longrightarrow> f x = f' x) \<Longrightarrow> bnd r f = bnd r' f'"
  by (cases r') auto

lemma ensure_cong [fundef_cong]:
  "b = b' \<Longrightarrow> e = e' \<Longrightarrow> (b' \<Longrightarrow> k = k') \<Longrightarrow> ensure b e k = ensure b' e' k'"
  by (simp add: ensure_def)

lemma each_cong [fundef_cong]:
  "xs = ys \<Longrightarrow> (\<And>x. x \<in> set ys \<Longrightarrow> f x = g x) \<Longrightarrow> each f xs = each g ys"
  by (induction ys arbitrary: xs) auto

lemma each_Inr_iff: "each f xs = Inr ys \<longleftrightarrow> list_all2 (\<lambda>x y. f x = Inr y) xs ys"
  by (induction xs arbitrary: ys) (auto simp: raise_simps list_all2_Cons1)

lemma each_Inr_length: "each f xs = Inr ys \<Longrightarrow> length ys = length xs"
  by (auto simp: each_Inr_iff dest: list_all2_lengthD)

lemma each_Inr_set: "each f xs = Inr ys \<Longrightarrow> y \<in> set ys \<Longrightarrow> \<exists>x \<in> set xs. f x = Inr y"
  by (induction xs arbitrary: ys) (auto simp: raise_simps)

text \<open>A loop that updates a state at each element and may raise.\<close>

fun thread :: "('a \<Rightarrow> 's \<Rightarrow> 'e + 's) \<Rightarrow> 'a list \<Rightarrow> 's \<Rightarrow> 'e + 's" where
  "thread f [] s = Inr s"
| "thread f (x # xs) s = bnd (f x s) (thread f xs)"

lemma thread_append: "thread f (xs @ ys) s = bnd (thread f xs s) (thread f ys)"
  by (induction xs arbitrary: s) (simp_all add: bnd_def split: sum.splits)

text \<open>\<open>raises_only E r\<close>: if \<open>r\<close> raises at all, it raises one of \<open>E\<close>.\<close>

definition raises_only :: "'e set \<Rightarrow> 'e + 'a \<Rightarrow> bool" where
  "raises_only E r \<longleftrightarrow> (\<forall>e. r = Inl e \<longrightarrow> e \<in> E)"

lemma raises_only_Inr [raises_intros]: "raises_only E (Inr x)"
  by (simp add: raises_only_def)

lemma raises_only_Inl [raises_intros]: "e \<in> E \<Longrightarrow> raises_only E (Inl e)"
  by (simp add: raises_only_def)

lemma raises_only_bnd [raises_intros]:
  "raises_only E r \<Longrightarrow> (\<And>x. r = Inr x \<Longrightarrow> raises_only E (f x)) \<Longrightarrow> raises_only E (bnd r f)"
  by (cases r) (auto simp: raises_only_def)

lemma raises_only_ensure [raises_intros]: "e \<in> E \<Longrightarrow> (b \<Longrightarrow> raises_only E k) \<Longrightarrow> raises_only E (ensure b e k)"
  by (simp add: raises_only_def ensure_def)

lemma raises_only_expect [raises_intros]: "e \<in> E \<Longrightarrow> raises_only E (expect e v)"
  by (simp add: raises_only_def expect_def split: option.splits)

lemma raises_only_if [raises_intros]:
  "(b \<Longrightarrow> raises_only E r) \<Longrightarrow> (\<not> b \<Longrightarrow> raises_only E r') \<Longrightarrow> raises_only E (if b then r else r')"
  by simp

lemma raises_only_each [raises_intros]: "(\<And>x. raises_only E (f x)) \<Longrightarrow> raises_only E (each f xs)"
  by (induction xs) (auto intro!: raises_intros)

lemma raises_only_thread [raises_intros]:
  "(\<And>x s. raises_only E (f x s)) \<Longrightarrow> raises_only E (thread f xs s)"
  by (induction xs arbitrary: s) (auto intro!: raises_intros)

lemma raises_onlyD: "raises_only E r \<Longrightarrow> r = Inl e \<Longrightarrow> e \<in> E"
  by (simp add: raises_only_def)

section \<open>Dictionaries\<close>

text \<open>
  A Python \<open>dict\<close> keeps insertion order: an association list with distinct keys.
  \<open>dict_set\<close> is \<open>d[k] = v\<close>: it overwrites in place or appends.
\<close>

type_synonym ('k, 'v) dict = "('k \<times> 'v) list"

definition keys :: "('k, 'v) dict \<Rightarrow> 'k list" where
  "keys d = map fst d"

definition dict_ok :: "('k, 'v) dict \<Rightarrow> bool" where
  "dict_ok d \<longleftrightarrow> distinct (keys d)"

fun dict_set :: "'k \<Rightarrow> 'v \<Rightarrow> ('k, 'v) dict \<Rightarrow> ('k, 'v) dict" where
  "dict_set k v [] = [(k, v)]"
| "dict_set k v ((k', v') # d) = (if k' = k then (k, v) # d else (k', v') # dict_set k v d)"

definition dict_del :: "'k \<Rightarrow> ('k, 'v) dict \<Rightarrow> ('k, 'v) dict" where
  "dict_del k d = filter (\<lambda>p. fst p \<noteq> k) d"

lemma keys_simps [simp]: "keys [] = []" "keys ((k, v) # d) = k # keys d"
  "keys (d @ d') = keys d @ keys d'"
  by (simp_all add: keys_def)

lemma map_of_dict_set [simp]: "map_of (dict_set k v d) = (map_of d)(k \<mapsto> v)"
  by (induction k v d rule: dict_set.induct) (auto simp: fun_eq_iff)

lemma set_keys: "set (keys d) = dom (map_of d)"
  by (simp add: keys_def dom_map_of_conv_image_fst)

lemma keys_dict_set:
  "keys (dict_set k v d) = (if k \<in> set (keys d) then keys d else keys d @ [k])"
  by (induction k v d rule: dict_set.induct) auto

lemma dict_ok_set [simp]: "dict_ok d \<Longrightarrow> dict_ok (dict_set k v d)"
  by (simp add: dict_ok_def keys_dict_set)

lemma dict_ok_Nil [simp]: "dict_ok []"
  by (simp add: dict_ok_def)

lemma dict_set_fresh: "k \<notin> set (keys d) \<Longrightarrow> dict_set k v d = d @ [(k, v)]"
  by (induction k v d rule: dict_set.induct) auto

lemma map_of_dict_del [simp]: "map_of (dict_del k d) = (map_of d)(k := None)"
  by (induction d) (auto simp: dict_del_def fun_eq_iff)

lemma dict_ok_del [simp]: "dict_ok d \<Longrightarrow> dict_ok (dict_del k d)"
  by (simp add: dict_ok_def dict_del_def keys_def distinct_map_filter)

lemma keys_dict_del: "keys (dict_del k d) = filter (\<lambda>x. x \<noteq> k) (keys d)"
  by (simp add: dict_del_def keys_def filter_map o_def)

lemma dict_ok_map_of: "dict_ok d \<Longrightarrow> (k, v) \<in> set d \<Longrightarrow> map_of d k = Some v"
  by (simp add: dict_ok_def keys_def)

lemma dict_ok_in_set: "dict_ok d \<Longrightarrow> (k, v) \<in> set d \<longleftrightarrow> map_of d k = Some v"
  by (auto simp: dict_ok_def keys_def map_of_eq_Some_iff)

section \<open>Lists\<close>

lemma set_map_filter: "set (List.map_filter f xs) = {y. \<exists>x \<in> set xs. f x = Some y}"
  by (induction xs) (auto simp: List.map_filter_simps split: option.splits)

lemma map_filter_append [simp]:
  "List.map_filter f (xs @ ys) = List.map_filter f xs @ List.map_filter f ys"
  by (induction xs) (auto simp: List.map_filter_simps split: option.splits)

text \<open>The first element that satisfies a predicate.\<close>

lemma find_first:
  "List.find P xs = Some x \<longleftrightarrow> (\<exists>before after. xs = before @ x # after \<and> P x \<and> list_all (\<lambda>y. \<not> P y) before)"
proof
  show "List.find P xs = Some x \<Longrightarrow> \<exists>before after. xs = before @ x # after \<and> P x \<and> list_all (\<lambda>y. \<not> P y) before"
  proof (induction xs)
    case (Cons y xs)
    show ?case
    proof (cases "P y")
      case True
      then show ?thesis using Cons.prems by (intro exI [of _ "[]"] exI [of _ xs]) simp
    next
      case False
      then obtain before after where "xs = before @ x # after" "P x" "list_all (\<lambda>y. \<not> P y) before"
        using Cons by auto
      then show ?thesis using False by (intro exI [of _ "y # before"] exI [of _ after]) simp
    qed
  qed simp
next
  have "P x \<Longrightarrow> list_all (\<lambda>y. \<not> P y) before \<Longrightarrow> List.find P (before @ x # after) = Some x" for before after
    by (induction before) simp_all
  then show "\<exists>before after. xs = before @ x # after \<and> P x \<and> list_all (\<lambda>y. \<not> P y) before \<Longrightarrow> List.find P xs = Some x"
    by blast
qed

end
