(* ===== verification/Py_Value.thy ===== *)
theory Py_Value
  imports Prelude
begin

text \<open>
  The values the program handles: what \<open>json.loads\<close> builds, with Python's equality
  and dictionary access on them, and the type tests (\<open>isinstance\<close>) of the source.
\<close>

section \<open>Floats\<close>

text \<open>
  A \<open>float\<close> is a signed dyadic number \<open>(-1)^s * m * 2^e\<close>, an infinity or NaN. The
  program only tests floats for finiteness, compares them and prints them.
\<close>

datatype pyfloat = Fin bool nat int | Inf bool | NaN

fun is_finite :: "pyfloat \<Rightarrow> bool" where
  "is_finite (Fin s m e) = True"
| "is_finite (Inf s) = False"
| "is_finite NaN = False"

text \<open>A number as \<open>n * 2 ^ e\<close>; two of them are equal if they agree at the lower exponent.\<close>

definition dyadic_eq :: "int \<times> int \<Rightarrow> int \<times> int \<Rightarrow> bool" where
  "dyadic_eq a b = (let e = min (snd a) (snd b)
     in fst a * 2 ^ nat (snd a - e) = fst b * 2 ^ nat (snd b - e))"

lemma dyadic_eq_refl [simp]: "dyadic_eq a a"
  by (simp add: dyadic_eq_def)

lemma dyadic_eq_int [simp]: "dyadic_eq (m, 0) (n, 0) \<longleftrightarrow> m = n"
  by (simp add: dyadic_eq_def)

lemma dyadic_eq_sym: "dyadic_eq a b = dyadic_eq b a"
  by (auto simp: dyadic_eq_def Let_def min.commute)

section \<open>JSON values\<close>

datatype json =
    JNull
  | JBool bool
  | JInt int
  | JFloat pyfloat
  | JStr pystr
  | JList "json list"
  | JObj "(pystr \<times> json) list"

lemma size_snd_json [termination_simp]:
  "p \<in> set kvs \<Longrightarrow> size (snd p) < Suc (size_list (size_prod (\<lambda>_. 0) size) kvs)"
  by (induction kvs) auto

lemma size_pair_json [termination_simp]:
  "(k, v) \<in> set kvs \<Longrightarrow> size v < Suc (size_list (size_prod (\<lambda>_. 0) size) kvs)"
  using size_snd_json [of "(k, v)" kvs] by simp

lemma size_zip_json [termination_simp]:
  "(a, b) \<in> set (zip vs ws) \<Longrightarrow> size a < Suc (size_list size vs)"
  by (auto dest: set_zip_leftD intro: le_imp_less_Suc size_list_estimation')

lemma json_induct [case_names Null Bool Int Float Str List Obj]:
  assumes "P JNull" "\<And>b. P (JBool b)" "\<And>n. P (JInt n)" "\<And>x. P (JFloat x)" "\<And>s. P (JStr s)"
    and lst: "\<And>vs. (\<And>v. v \<in> set vs \<Longrightarrow> P v) \<Longrightarrow> P (JList vs)"
    and obj: "\<And>kvs. (\<And>k v. (k, v) \<in> set kvs \<Longrightarrow> P v) \<Longrightarrow> P (JObj kvs)"
  shows "P v"
proof (induction v)
  case (JObj kvs)
  show ?case
    by (rule obj) (use JObj in \<open>force\<close>)
qed (use assms in auto)

text \<open>
  The numeric value of a Python number: \<open>bool\<close> is a subclass of \<open>int\<close>, so
  \<open>True == 1 == 1.0\<close>.
\<close>

fun as_number :: "json \<Rightarrow> (int \<times> int) option" where
  "as_number (JBool b) = Some (if b then 1 else 0, 0)"
| "as_number (JInt n) = Some (n, 0)"
| "as_number (JFloat (Fin s m e)) = Some (if s then - int m else int m, e)"
| "as_number _ = None"

text \<open>
  \<open>a == b\<close> of Python: numbers by value, strings by code points, lists elementwise,
  dictionaries by key whatever their order. (Two references to one NaN inside a
  container would compare equal in CPython by identity; no value the program parses
  holds a NaN.)
\<close>

fun py_eq :: "json \<Rightarrow> json \<Rightarrow> bool" where
  "py_eq JNull w = (w = JNull)"
| "py_eq (JStr s) w = (w = JStr s)"
| "py_eq (JList vs) w =
     (case w of JList ws \<Rightarrow>
        length vs = length ws \<and> list_all (\<lambda>(x, y). py_eq x y) (zip vs ws)
      | _ \<Rightarrow> False)"
| "py_eq (JObj kvs) w =
     (case w of JObj lws \<Rightarrow>
        length kvs = length lws \<and>
        list_all (\<lambda>(k, x). case map_of lws k of None \<Rightarrow> False | Some y \<Rightarrow> py_eq x y) kvs
      | _ \<Rightarrow> False)"
| "py_eq (JFloat (Inf s)) w = (w = JFloat (Inf s))"
| "py_eq v w =
     (case (as_number v, as_number w) of (Some a, Some b) \<Rightarrow> dyadic_eq a b | _ \<Rightarrow> False)"

section \<open>Well-formed values\<close>

text \<open>
  What the strict parser guarantees: objects have distinct keys at every level, every
  string is a sequence of Unicode scalar values, every float is finite.
\<close>

definition is_surrogate :: "nat \<Rightarrow> bool" where
  "is_surrogate c \<longleftrightarrow> 0xD800 \<le> c \<and> c \<le> 0xDFFF"

definition scalar_text :: "pystr \<Rightarrow> bool" where
  "scalar_text s \<longleftrightarrow> list_all (\<lambda>c. c < 0x110000 \<and> \<not> is_surrogate c) s"

fun json_ok :: "json \<Rightarrow> bool" where
  "json_ok (JFloat x) = is_finite x"
| "json_ok (JStr s) = scalar_text s"
| "json_ok (JList vs) = list_all json_ok vs"
| "json_ok (JObj kvs) =
     (dict_ok kvs \<and> list_all (\<lambda>(k, v). scalar_text k \<and> json_ok v) kvs)"
| "json_ok _ = True"

lemma py_eq_refl: "json_ok v \<Longrightarrow> py_eq v v"
proof (induction v rule: json_induct)
  case (List vs)
  then show ?case
    by (auto simp: list_all_iff zip_same_conv_map)
next
  case (Obj kvs)
  then have "map_of kvs k = Some v" if "(k, v) \<in> set kvs" for k v
    using that by (simp add: dict_ok_map_of)
  with Obj show ?case
    by (fastforce simp: list_all_iff)
next
  case (Float x)
  then show ?case by (cases x) auto
qed auto

lemma py_eq_str [simp]: "py_eq v (JStr s) \<longleftrightarrow> v = JStr s"
proof (cases v)
  case (JFloat x)
  then show ?thesis by (cases x) auto
qed auto

lemma py_eq_str_left: "py_eq (JStr s) v \<longleftrightarrow> v = JStr s"
  by simp

lemma scalar_text_simps [simp]: "scalar_text []"
  "scalar_text (c # s) \<longleftrightarrow> c < 0x110000 \<and> \<not> is_surrogate c \<and> scalar_text s"
  "scalar_text (s @ t) \<longleftrightarrow> scalar_text s \<and> scalar_text t"
  by (auto simp: scalar_text_def)

lemma ascii_scalar_text: "is_ascii s \<Longrightarrow> scalar_text s"
  by (induction s) (auto simp: is_surrogate_def)

section \<open>Dictionary access and type tests\<close>

text \<open>\<open>d.get(k)\<close> is \<open>None\<close> for a missing key; \<open>k in d\<close> is \<open>has_key\<close>.\<close>

definition get :: "(pystr, json) dict \<Rightarrow> pystr \<Rightarrow> json" where
  "get d k = (case map_of d k of None \<Rightarrow> JNull | Some v \<Rightarrow> v)"

definition has_key :: "(pystr, json) dict \<Rightarrow> pystr \<Rightarrow> bool" where
  "has_key d k \<longleftrightarrow> k \<in> set (keys d)"

lemma get_simps [simp]: "get [] k = JNull"
  "get ((k', v) # d) k = (if k' = k then v else get d k)"
  by (simp_all add: get_def)

lemma has_key_simps [simp]: "\<not> has_key [] k"
  "has_key ((k', v) # d) k \<longleftrightarrow> k = k' \<or> has_key d k"
  by (auto simp: has_key_def)

lemma get_dict_set [simp]: "get (dict_set k v d) k' = (if k' = k then v else get d k')"
  by (simp add: get_def)

lemma get_dict_del [simp]: "get (dict_del k d) k' = (if k' = k then JNull else get d k')"
  by (simp add: get_def)

lemma get_not_null: "get d k \<noteq> JNull \<Longrightarrow> has_key d k"
  by (auto simp: get_def has_key_def set_keys split: option.splits)

lemma json_ok_get: "json_ok (JObj d) \<Longrightarrow> json_ok (get d k)"
  by (auto simp: get_def list_all_iff dest!: map_of_SomeD split: option.splits)

text \<open>
  \<open>set(d) - allowed\<close> and \<open>required - set(d)\<close>: unsupported and missing keys.
\<close>

definition keys_within :: "(pystr, json) dict \<Rightarrow> pystr list \<Rightarrow> bool" where
  "keys_within d allowed \<longleftrightarrow> list_all (\<lambda>k. k \<in> set allowed) (keys d)"

definition has_keys :: "(pystr, json) dict \<Rightarrow> pystr list \<Rightarrow> bool" where
  "has_keys d required \<longleftrightarrow> list_all (has_key d) required"

text \<open>\<open>set(d) == fields\<close>.\<close>

definition keys_exact :: "(pystr, json) dict \<Rightarrow> pystr list \<Rightarrow> bool" where
  "keys_exact d fields \<longleftrightarrow> keys_within d fields \<and> has_keys d fields"

lemma keys_exact_iff: "keys_exact d fields \<longleftrightarrow> set (keys d) = set fields"
  by (auto simp: keys_exact_def keys_within_def has_keys_def has_key_def list_all_iff)

fun as_obj :: "json \<Rightarrow> (pystr, json) dict option" where
  "as_obj (JObj d) = Some d"
| "as_obj _ = None"

fun as_list :: "json \<Rightarrow> json list option" where
  "as_list (JList vs) = Some vs"
| "as_list _ = None"

fun as_str :: "json \<Rightarrow> pystr option" where
  "as_str (JStr s) = Some s"
| "as_str _ = None"

text \<open>\<open>isinstance(v, int) and not isinstance(v, bool)\<close>.\<close>

fun as_int :: "json \<Rightarrow> int option" where
  "as_int (JInt n) = Some n"
| "as_int _ = None"

fun as_bool :: "json \<Rightarrow> bool option" where
  "as_bool (JBool b) = Some b"
| "as_bool _ = None"

lemma as_Some_iff [simp]:
  "as_obj v = Some d \<longleftrightarrow> v = JObj d" "as_list v = Some vs \<longleftrightarrow> v = JList vs"
  "as_str v = Some s \<longleftrightarrow> v = JStr s" "as_int v = Some n \<longleftrightarrow> v = JInt n"
  "as_bool v = Some b \<longleftrightarrow> v = JBool b"
  by (cases v; simp)+

text \<open>\<open>isinstance(v, str) and bool(v)\<close>, and 64 lower-case hexadecimal characters.\<close>

definition nonempty_str :: "json \<Rightarrow> bool" where
  "nonempty_str v = (case v of JStr s \<Rightarrow> s \<noteq> [] | _ \<Rightarrow> False)"

definition hex64 :: "pystr \<Rightarrow> bool" where
  "hex64 s \<longleftrightarrow> length s = 64 \<and> list_all is_lower_hex s"

lemma nonempty_str_iff: "nonempty_str v \<longleftrightarrow> (\<exists>s. v = JStr s \<and> s \<noteq> [])"
  by (cases v) (auto simp: nonempty_str_def)

end
