(* ===== verification/Py_Bytes.thy ===== *)
theory Py_Bytes
  imports Prelude Py_Value
begin

text \<open>
  Byte-level operations of the standard library: strict UTF-8, \<open>readline\<close> with a
  limit, \<open>bytes.strip\<close>, and \<open>os.path.splitext\<close> on a file name.
\<close>

section \<open>UTF-8\<close>

definition is_cont :: "nat \<Rightarrow> bool" where
  "is_cont b \<longleftrightarrow> 0x80 \<le> b \<and> b \<le> 0xBF"

text \<open>
  The strict decoder, with its four tightened second-byte ranges: no overlong form, no
  surrogate, nothing above \<open>U+10FFFF\<close>.
\<close>

fun utf8_codes :: "nat list \<Rightarrow> pystr option" where
  "utf8_codes [] = Some []"
| "utf8_codes (a # r) =
     (if a < 0x80 then map_option ((#) a) (utf8_codes r)
      else if 0xC2 \<le> a \<and> a \<le> 0xDF then
        (case r of b # r' \<Rightarrow>
           if is_cont b then map_option ((#) ((a - 0xC0) * 64 + (b - 0x80))) (utf8_codes r') else None
         | [] \<Rightarrow> None)
      else if 0xE0 \<le> a \<and> a \<le> 0xEF then
        (case r of b # c # r' \<Rightarrow>
           if is_cont b \<and> is_cont c \<and> (a = 0xE0 \<longrightarrow> 0xA0 \<le> b) \<and> (a = 0xED \<longrightarrow> b \<le> 0x9F)
           then map_option ((#) ((a - 0xE0) * 4096 + (b - 0x80) * 64 + (c - 0x80))) (utf8_codes r')
           else None
         | _ \<Rightarrow> None)
      else if 0xF0 \<le> a \<and> a \<le> 0xF4 then
        (case r of b # c # d # r' \<Rightarrow>
           if is_cont b \<and> is_cont c \<and> is_cont d \<and> (a = 0xF0 \<longrightarrow> 0x90 \<le> b) \<and> (a = 0xF4 \<longrightarrow> b \<le> 0x8F)
           then map_option ((#) ((a - 0xF0) * 262144 + (b - 0x80) * 4096 + (c - 0x80) * 64 + (d - 0x80)))
             (utf8_codes r')
           else None
         | _ \<Rightarrow> None)
      else None)"

definition utf8_decode :: "pybytes \<Rightarrow> pystr option" where
  "utf8_decode bs = utf8_codes (map unat bs)"

text \<open>The encoder raises on a surrogate.\<close>

definition utf8_char :: "nat \<Rightarrow> nat list" where
  "utf8_char c =
     (if c < 0x80 then [c]
      else if c < 0x800 then [0xC0 + c div 64, 0x80 + c mod 64]
      else if c < 0x10000 then [0xE0 + c div 4096, 0x80 + c div 64 mod 64, 0x80 + c mod 64]
      else [0xF0 + c div 262144, 0x80 + c div 4096 mod 64, 0x80 + c div 64 mod 64, 0x80 + c mod 64])"

definition utf8_encode :: "pystr \<Rightarrow> pybytes option" where
  "utf8_encode s =
     (if scalar_text s then Some (map of_nat (concat (map utf8_char s))) else None)"

text \<open>Each of the four forms decodes to a scalar value.\<close>

lemma utf8_scalar_2:
  "0xC2 \<le> a \<Longrightarrow> a \<le> 0xDF \<Longrightarrow> is_cont b \<Longrightarrow> (a - 0xC0) * 64 + (b - 0x80) < 0x800"
  unfolding is_cont_def by linarith

lemma utf8_scalar_3:
  assumes "0xE0 \<le> a" "a \<le> 0xEF" "is_cont b" "is_cont c" "a = 0xED \<longrightarrow> b \<le> 0x9F"
  shows "(a - 0xE0) * 4096 + (b - 0x80) * 64 + (c - 0x80) < 0x10000"
    and "\<not> is_surrogate ((a - 0xE0) * 4096 + (b - 0x80) * 64 + (c - 0x80))"
proof -
  have b: "b - 0x80 \<le> 63" "c - 0x80 \<le> 63" and a: "a - 0xE0 \<le> 15"
    using assms(1-4) unfolding is_cont_def by linarith+
  then show "(a - 0xE0) * 4096 + (b - 0x80) * 64 + (c - 0x80) < 0x10000"
    by linarith
  consider "a - 0xE0 < 13" | "a - 0xE0 = 13" "b - 0x80 < 32" | "a - 0xE0 > 13"
    using assms(1,2,5) by linarith
  then show "\<not> is_surrogate ((a - 0xE0) * 4096 + (b - 0x80) * 64 + (c - 0x80))"
    unfolding is_surrogate_def by cases (use a b in linarith)+
qed

lemma utf8_scalar_4:
  assumes "0xF0 \<le> a" "a \<le> 0xF4" "is_cont b" "is_cont c" "is_cont d"
    "a = 0xF0 \<longrightarrow> 0x90 \<le> b" "a = 0xF4 \<longrightarrow> b \<le> 0x8F"
  shows "(a - 0xF0) * 262144 + (b - 0x80) * 4096 + (c - 0x80) * 64 + (d - 0x80) < 0x110000"
    and "\<not> is_surrogate ((a - 0xF0) * 262144 + (b - 0x80) * 4096 + (c - 0x80) * 64 + (d - 0x80))"
proof -
  have b: "b - 0x80 \<le> 63" "c - 0x80 \<le> 63" "d - 0x80 \<le> 63" and a: "a - 0xF0 \<le> 4"
    using assms(1-5) unfolding is_cont_def by linarith+
  consider "a - 0xF0 = 0" "b - 0x80 \<ge> 16" | "0 < a - 0xF0" "a - 0xF0 < 4"
    | "a - 0xF0 = 4" "b - 0x80 \<le> 15"
    using assms(1,2,6,7) by linarith
  note c = this
  from c show "(a - 0xF0) * 262144 + (b - 0x80) * 4096 + (c - 0x80) * 64 + (d - 0x80) < 0x110000"
    by cases (use a b in linarith)+
  from c show "\<not> is_surrogate ((a - 0xF0) * 262144 + (b - 0x80) * 4096 + (c - 0x80) * 64 + (d - 0x80))"
    unfolding is_surrogate_def by cases (use a b in linarith)+
qed

lemma utf8_codes_scalar: "utf8_codes bs = Some s \<Longrightarrow> scalar_text s"
proof (induction bs arbitrary: s rule: utf8_codes.induct)
  case 1
  then show ?case by (simp add: scalar_text_def)
next
  case (2 a r)
  consider "a < 0x80" | "0xC2 \<le> a" "a \<le> 0xDF" | "0xE0 \<le> a" "a \<le> 0xEF" | "0xF0 \<le> a" "a \<le> 0xF4"
    using "2.prems" by (auto split: if_splits)
  then show ?case
  proof cases
    case 1
    with "2.prems" "2.IH"(1) show ?thesis by (auto simp: is_surrogate_def)
  next
    case 2
    then show ?thesis
      using "2.prems" "2.IH"(2) utf8_scalar_2
      by (cases r) (fastforce split: if_splits simp: is_surrogate_def)+
  next
    case 3
    obtain b c r' where r: "r = b # c # r'"
      using "2.prems" 3 by (cases r; cases "tl r") auto
    show ?thesis
      using "2.prems" "2.IH"(3) [OF _ _ _ r] 3 utf8_scalar_3 [of a b c]
      by (auto simp: r split: if_splits)
  next
    case 4
    obtain b c d r' where r: "r = b # c # d # r'"
      using "2.prems" 4 by (cases r; cases "tl r"; cases "tl (tl r)") auto
    show ?thesis
      using "2.prems" "2.IH"(4) [OF _ _ _ _ r] 4 utf8_scalar_4 [of a b c d]
      by (auto simp: r split: if_splits)
  qed
qed

lemma utf8_decode_scalar: "utf8_decode bs = Some s \<Longrightarrow> scalar_text s"
  by (simp add: utf8_decode_def utf8_codes_scalar)

text \<open>The encoder's units are decoded to the character they came from.\<close>

lemma utf8_two:
  "2 \<le> x \<Longrightarrow> x < 32 \<Longrightarrow> y < 64 \<Longrightarrow>
    utf8_codes ([0xC0 + x, 0x80 + y] @ r) = map_option ((#) (x * 64 + y)) (utf8_codes r)"
  by (simp add: is_cont_def)

lemma utf8_three:
  "x < 16 \<Longrightarrow> y < 64 \<Longrightarrow> z < 64 \<Longrightarrow> (x = 0 \<longrightarrow> 32 \<le> y) \<Longrightarrow> (x = 13 \<longrightarrow> y < 32) \<Longrightarrow>
    utf8_codes ([0xE0 + x, 0x80 + y, 0x80 + z] @ r) = map_option ((#) (x * 4096 + y * 64 + z)) (utf8_codes r)"
  by (auto simp: is_cont_def)

lemma utf8_four:
  "w < 5 \<Longrightarrow> x < 64 \<Longrightarrow> y < 64 \<Longrightarrow> z < 64 \<Longrightarrow> (w = 0 \<longrightarrow> 16 \<le> x) \<Longrightarrow> (w = 4 \<longrightarrow> x < 16) \<Longrightarrow>
    utf8_codes ([0xF0 + w, 0x80 + x, 0x80 + y, 0x80 + z] @ r)
      = map_option ((#) (w * 262144 + x * 4096 + y * 64 + z)) (utf8_codes r)"
  by (auto simp: is_cont_def)

lemma base_64_digits:
  fixes c :: nat
  shows "c div 64 * 64 + c mod 64 = c" "c div 4096 * 4096 + c div 64 mod 64 * 64 + c mod 64 = c"
    "c div 262144 * 262144 + c div 4096 mod 64 * 4096 + c div 64 mod 64 * 64 + c mod 64 = c"
proof -
  define q p where "q = c div 64" and "p = c div 64 div 64"
  have d: "c div 4096 = p" "c div 262144 = p div 64"
    by (simp_all add: p_def div_mult2_eq [symmetric])
  show "c div 64 * 64 + c mod 64 = c" by simp
  have "p * 4096 + q mod 64 * 64 + c mod 64 = (p * 64 + q mod 64) * 64 + c mod 64" by (simp add: algebra_simps)
  also have "p * 64 + q mod 64 = q" by (simp add: p_def q_def)
  finally show 2: "c div 4096 * 4096 + c div 64 mod 64 * 64 + c mod 64 = c" by (simp add: d q_def)
  have "(p div 64 * 64 + p mod 64) * 4096 = p * 4096" by (simp only: div_mult_mod_eq)
  then have "p div 64 * 262144 + p mod 64 * 4096 = p * 4096" by (simp only: algebra_simps)
  then show "c div 262144 * 262144 + c div 4096 mod 64 * 4096 + c div 64 mod 64 * 64 + c mod 64 = c"
    using 2 by (simp add: d)
qed

lemma utf8_three_char:
  assumes "0x800 \<le> c" "c < 0x10000" "\<not> is_surrogate c"
  shows "utf8_codes ([0xE0 + c div 4096, 0x80 + c div 64 mod 64, 0x80 + c mod 64] @ r)
    = map_option ((#) c) (utf8_codes r)"
proof -
  have "c div 4096 < 16" using assms(2) by (simp add: less_mult_imp_div_less)
  moreover have m: "c div 64 mod 64 < 64" "c mod 64 < 64" by simp_all
  moreover have "c div 4096 = 0 \<longrightarrow> 32 \<le> c div 64 mod 64" "c div 4096 = 13 \<longrightarrow> c div 64 mod 64 < 32"
    using assms base_64_digits(2) [of c] m unfolding is_surrogate_def by linarith+
  ultimately show ?thesis using utf8_three base_64_digits(2) by metis
qed

lemma utf8_four_char:
  assumes "0x10000 \<le> c" "c < 0x110000"
  shows "utf8_codes ([0xF0 + c div 262144, 0x80 + c div 4096 mod 64, 0x80 + c div 64 mod 64, 0x80 + c mod 64] @ r)
    = map_option ((#) c) (utf8_codes r)"
proof -
  have "c div 262144 < 5" using assms(2) by (simp add: less_mult_imp_div_less)
  moreover have m: "c div 4096 mod 64 < 64" "c div 64 mod 64 < 64" "c mod 64 < 64" by simp_all
  moreover have "c div 262144 = 0 \<longrightarrow> 16 \<le> c div 4096 mod 64" "c div 262144 = 4 \<longrightarrow> c div 4096 mod 64 < 16"
    using assms base_64_digits(3) [of c] m by linarith+
  ultimately show ?thesis using utf8_four base_64_digits(3) by metis
qed

lemma utf8_two_char:
  assumes "0x80 \<le> c" "c < 0x800"
  shows "utf8_codes ([0xC0 + c div 64, 0x80 + c mod 64] @ r) = map_option ((#) c) (utf8_codes r)"
proof -
  have "2 \<le> c div 64" "c div 64 < 32" "c mod 64 < 64" using assms by linarith+
  then show ?thesis using utf8_two base_64_digits(1) by metis
qed

lemma utf8_char_codes:
  assumes "c < 0x110000" "\<not> is_surrogate c"
  shows "utf8_codes (utf8_char c @ r) = map_option ((#) c) (utf8_codes r)"
proof -
  consider "c < 0x80" | "0x80 \<le> c" "c < 0x800" | "0x800 \<le> c" "c < 0x10000" | "0x10000 \<le> c" by linarith
  then show ?thesis
    by cases (use assms utf8_two_char utf8_three_char utf8_four_char in \<open>simp_all add: utf8_char_def\<close>)
qed

lemma utf8_codes_chars: "scalar_text s \<Longrightarrow> utf8_codes (concat (map utf8_char s)) = Some s"
  by (induction s) (simp_all add: utf8_char_codes)

lemma utf8_char_byte: "c < 0x110000 \<Longrightarrow> list_all (\<lambda>u. u < 256) (utf8_char c)"
  by (auto simp: utf8_char_def)

lemma utf8_decode_encode: "utf8_encode s = Some bs \<Longrightarrow> utf8_decode bs = Some s"
proof -
  assume "utf8_encode s = Some bs"
  then have s: "scalar_text s" and bs: "bs = map of_nat (concat (map utf8_char s))"
    by (auto simp: utf8_encode_def split: if_splits)
  have "\<forall>u \<in> set (concat (map utf8_char s)). u < 256"
    using s utf8_char_byte by (fastforce simp: scalar_text_def list_all_iff)
  then have "map unat bs = concat (map utf8_char s)"
    unfolding bs by (auto simp: o_def unat_of_nat intro!: map_idI)
  then show "utf8_decode bs = Some s"
    using s by (simp add: utf8_decode_def utf8_codes_chars)
qed

lemma utf8_encode_inj: "utf8_encode s = Some bs \<Longrightarrow> utf8_encode t = Some bs \<Longrightarrow> s = t"
  using utf8_decode_encode by (metis option.inject)

lemma utf8_decode_ascii: "is_ascii s \<Longrightarrow> utf8_decode (map of_nat s) = Some s"
  by (induction s) (auto simp: utf8_decode_def unat_of_nat)

section \<open>Lines\<close>

text \<open>
  \<open>readline(limit)\<close> on a binary file, given the bytes not yet read: the bytes up to and
  including the next line feed, at most \<open>limit\<close> of them; empty at the end of the file.
\<close>

fun readline :: "nat \<Rightarrow> pybytes \<Rightarrow> pybytes \<times> pybytes" where
  "readline n [] = ([], [])"
| "readline n (b # bs) =
     (if n = 0 then ([], b # bs)
      else if b = 10 then ([b], bs)
      else (case readline (n - 1) bs of (l, r) \<Rightarrow> (b # l, r)))"

lemma readline_append: "fst (readline n bs) @ snd (readline n bs) = bs"
  by (induction n bs rule: readline.induct) (auto split: prod.splits)

lemma readline_length: "length (fst (readline n bs)) \<le> n"
  by (induction n bs rule: readline.induct) (auto split: prod.splits)

lemma readline_eq_Nil [simp]: "0 < n \<Longrightarrow> fst (readline n bs) = [] \<longleftrightarrow> bs = []"
  by (cases bs) (auto split: prod.splits)

lemma readline_progress:
  assumes "fst (readline n bs) \<noteq> []"
  shows "length (snd (readline n bs)) < length bs"
proof -
  have "length bs = length (fst (readline n bs)) + length (snd (readline n bs))"
    by (metis length_append readline_append)
  with assms show ?thesis by (cases "fst (readline n bs)") auto
qed

lemma readline_shorter: "readline n bs = (raw, rest) \<Longrightarrow> raw \<noteq> [] \<Longrightarrow> length rest < length bs"
  using readline_progress [of n bs] by simp

lemma readline_line:
  "10 \<notin> set l \<Longrightarrow> length l < n \<Longrightarrow> readline n (l @ 10 # r) = (l @ [10], r)"
  by (induction l arbitrary: n) auto

text \<open>\<open>bytes.strip\<close> and the white space it removes.\<close>

definition ascii_space :: "byte \<Rightarrow> bool" where
  "ascii_space b \<longleftrightarrow> b \<in> {9, 10, 11, 12, 13, 32}"

definition bytes_strip :: "pybytes \<Rightarrow> pybytes" where
  "bytes_strip bs = strip_by ascii_space bs"

section \<open>File names\<close>

text \<open>
  \<open>os.path.splitext\<close> on a name without a slash: the suffix starts at the last dot,
  unless only dots precede it.
\<close>

definition splitext :: "pystr \<Rightarrow> pystr \<times> pystr" where
  "splitext name =
     (let suffix = rev (takeWhile (\<lambda>c. c \<noteq> 46) (rev name));
          rest = rev (drop 1 (dropWhile (\<lambda>c. c \<noteq> 46) (rev name)))
      in if 46 \<notin> set name \<or> list_all (\<lambda>c. c = 46) rest then (name, [])
         else (rest, 46 # suffix))"

end
