(* ===== verification/Json_Text.thy ===== *)
theory Json_Text
  imports Py_Value
begin

text \<open>
  The two functions of Python's \<open>json\<close> module the program calls, in the modes it
  calls them: \<open>json.dumps(sort_keys=True, separators=(",", ":"), ensure_ascii=True)\<close>
  and \<open>json.loads\<close> with an object hook and a float hook. They are inverse to each
  other (\<open>scan_dumps\<close>), so the canonical text determines the value up to the order
  of its keys.
\<close>

section \<open>Decimal and hexadecimal numerals\<close>

fun dec_digits :: "nat \<Rightarrow> pystr" where
  "dec_digits n = (if n < 10 then [48 + n] else dec_digits (n div 10) @ [48 + n mod 10])"

declare dec_digits.simps [simp del]

definition int_text :: "int \<Rightarrow> pystr" where
  "int_text n = (if n < 0 then 45 # dec_digits (nat (- n)) else dec_digits (nat n))"

definition dec_value :: "pystr \<Rightarrow> nat" where
  "dec_value s = foldl (\<lambda>a c. 10 * a + (c - 48)) 0 s"

lemma dec_value_snoc [simp]: "dec_value (s @ [c]) = 10 * dec_value s + (c - 48)"
  by (simp add: dec_value_def)

lemma dec_value_digits [simp]: "dec_value (dec_digits n) = n"
proof (induction n rule: dec_digits.induct)
  case (1 n)
  show ?case
  proof (cases "n < 10")
    case True
    then show ?thesis by (subst dec_digits.simps) (simp add: dec_value_def)
  next
    case False
    with 1 show ?thesis by (subst dec_digits.simps) simp
  qed
qed

lemma dec_digits_digit: "list_all is_dec_digit (dec_digits n)"
proof (induction n rule: dec_digits.induct)
  case (1 n)
  then have "is_dec_digit (48 + n mod 10)" by (simp add: is_dec_digit_def)
  with 1 show ?case by (subst dec_digits.simps) (simp add: is_dec_digit_def [of "48 + n"])
qed

lemma dec_digits_not_Nil [simp]: "dec_digits n \<noteq> []"
  by (subst dec_digits.simps) simp

lemma dec_digits_0 [simp]: "dec_digits 0 = [48]"
  by (subst dec_digits.simps) simp

lemma dec_digits_hd: "0 < n \<Longrightarrow> hd (dec_digits n) \<noteq> 48"
proof (induction n rule: dec_digits.induct)
  case (1 n)
  then show ?case by (subst dec_digits.simps) auto
qed

lemma dec_digits_inj: "dec_digits m = dec_digits n \<longleftrightarrow> m = n"
  by (metis dec_value_digits)

definition hex_digit :: "nat \<Rightarrow> nat" where
  "hex_digit d = (if d < 10 then 48 + d else 87 + d)"

definition hex_value :: "nat \<Rightarrow> nat option" where
  "hex_value c =
     (if 48 \<le> c \<and> c \<le> 57 then Some (c - 48)
      else if 97 \<le> c \<and> c \<le> 102 then Some (c - 87)
      else if 65 \<le> c \<and> c \<le> 70 then Some (c - 55) else None)"

lemma hex_value_digit [simp]: "d < 16 \<Longrightarrow> hex_value (hex_digit d) = Some d"
  by (auto simp: hex_value_def hex_digit_def)

definition hex4 :: "nat \<Rightarrow> pystr" where
  "hex4 u = [hex_digit (u div 4096 mod 16), hex_digit (u div 256 mod 16),
     hex_digit (u div 16 mod 16), hex_digit (u mod 16)]"

fun read_hex4 :: "pystr \<Rightarrow> (nat \<times> pystr) option" where
  "read_hex4 (a # b # c # d # r) =
     (case (hex_value a, hex_value b, hex_value c, hex_value d) of
        (Some a', Some b', Some c', Some d') \<Rightarrow>
          Some (4096 * a' + 256 * b' + 16 * c' + d', r)
      | _ \<Rightarrow> None)"
| "read_hex4 _ = None"

lemma read_hex4_hex4 [simp]: "u < 65536 \<Longrightarrow> read_hex4 (hex4 u @ r) = Some (u, r)"
proof -
  assume u: "u < 65536"
  have d: "u div 256 = u div 16 div 16" "u div 4096 = u div 16 div 16 div 16"
    by (simp_all flip: div_mult2_eq)
  have m: "16 * (x div 16) + x mod 16 = x" for x :: nat
    by simp
  have "u div 16 div 16 div 16 < 16"
    using u by (simp flip: div_mult2_eq)
  then have "u div 16 div 16 div 16 mod 16 = u div 16 div 16 div 16"
    by simp
  then have "4096 * (u div 4096 mod 16) + 256 * (u div 256 mod 16) + 16 * (u div 16 mod 16)
      + u mod 16 = u"
    using m [of u] m [of "u div 16"] m [of "u div 16 div 16"] unfolding d by linarith
  then show ?thesis using u by (simp add: hex4_def)
qed

lemma read_hex4_length: "read_hex4 s = Some (u, r) \<Longrightarrow> length s = length r + 4"
  by (induction s rule: read_hex4.induct) (auto split: option.splits)

section \<open>json.dumps\<close>

text \<open>
  \<open>ensure_ascii\<close>: the seven short escapes, printable ASCII as it is, everything else
  as \<open>\uXXXX\<close>, a code point above the basic plane as a surrogate pair.
\<close>

definition esc_char :: "nat \<Rightarrow> pystr" where
  "esc_char c =
     (if c = 34 then [92, 34] else if c = 92 then [92, 92]
      else if c = 8 then [92, 98] else if c = 12 then [92, 102]
      else if c = 10 then [92, 110] else if c = 13 then [92, 114]
      else if c = 9 then [92, 116]
      else if 32 \<le> c \<and> c \<le> 126 then [c]
      else if c < 0x10000 then 92 # 117 # hex4 c
      else 92 # 117 # hex4 (0xD800 + (c - 0x10000) div 1024) @
           92 # 117 # hex4 (0xDC00 + (c - 0x10000) mod 1024))"

definition dumps_str :: "pystr \<Rightarrow> pystr" where
  "dumps_str s = 34 # concat (map esc_char s) @ [34]"

fun join_with :: "pystr \<Rightarrow> pystr list \<Rightarrow> pystr" where
  "join_with sep [] = []"
| "join_with sep [s] = s"
| "join_with sep (s # t # ss) = s @ sep @ join_with sep (t # ss)"

text \<open>\<open>fr\<close> is \<open>float.__repr__\<close>, which is code of the interpreter.\<close>

fun dumps :: "(pyfloat \<Rightarrow> pystr) \<Rightarrow> json \<Rightarrow> pystr" where
  "dumps fr JNull = lit ''null''"
| "dumps fr (JBool b) = (if b then lit ''true'' else lit ''false'')"
| "dumps fr (JInt n) = int_text n"
| "dumps fr (JFloat x) = fr x"
| "dumps fr (JStr s) = dumps_str s"
| "dumps fr (JList vs) = 91 # join_with [44] (map (dumps fr) vs) @ [93]"
| "dumps fr (JObj kvs) =
     123 # join_with [44] (map (\<lambda>(k, v). dumps_str k @ 58 # dumps fr v) (sort_key fst kvs)) @ [125]"

text \<open>The value with the keys of every object sorted: what the text stands for.\<close>

fun norm_json :: "json \<Rightarrow> json" where
  "norm_json (JList vs) = JList (map norm_json vs)"
| "norm_json (JObj kvs) = JObj (map (\<lambda>(k, v). (k, norm_json v)) (sort_key fst kvs))"
| "norm_json v = v"

text \<open>
  CPython refuses to convert an integer of more than 4300 digits to or from text, and
  \<open>allow_nan=False\<close> refuses a non-finite float; both are a \<open>ValueError\<close>.
\<close>

definition max_str_digits :: nat where
  "max_str_digits = 4300"

fun printable :: "json \<Rightarrow> bool" where
  "printable (JInt n) = (length (dec_digits (nat \<bar>n\<bar>)) \<le> max_str_digits)"
| "printable (JFloat x) = is_finite x"
| "printable (JList vs) = list_all printable vs"
| "printable (JObj kvs) = list_all (\<lambda>(k, v). printable v) kvs"
| "printable _ = True"

section \<open>json.loads\<close>

definition json_ws :: "nat \<Rightarrow> bool" where
  "json_ws c \<longleftrightarrow> c = 32 \<or> c = 9 \<or> c = 10 \<or> c = 13"

abbreviation skip_ws :: "pystr \<Rightarrow> pystr" where
  "skip_ws \<equiv> dropWhile json_ws"

text \<open>One escape sequence after its backslash; an escaped surrogate pair is one code point.\<close>

definition scan_unicode :: "pystr \<Rightarrow> (nat \<times> pystr) option" where
  "scan_unicode s =
     (case read_hex4 s of None \<Rightarrow> None
      | Some (u, r) \<Rightarrow>
          if 0xD800 \<le> u \<and> u \<le> 0xDBFF \<and> starts_with r [92, 117]
          then (case read_hex4 (drop 2 r) of None \<Rightarrow> None
                | Some (u2, r2) \<Rightarrow>
                    if 0xDC00 \<le> u2 \<and> u2 \<le> 0xDFFF
                    then Some (0x10000 + 1024 * (u - 0xD800) + (u2 - 0xDC00), r2)
                    else Some (u, r))
          else Some (u, r))"

fun scan_escape :: "pystr \<Rightarrow> (nat \<times> pystr) option" where
  "scan_escape [] = None"
| "scan_escape (e # r) =
     (if e = 34 \<or> e = 92 \<or> e = 47 then Some (e, r)
      else if e = 98 then Some (8, r) else if e = 102 then Some (12, r)
      else if e = 110 then Some (10, r) else if e = 114 then Some (13, r)
      else if e = 116 then Some (9, r)
      else if e = 117 then scan_unicode r else None)"

lemma scan_unicode_length: "scan_unicode s = Some (c, r) \<Longrightarrow> length r < length s"
  by (auto simp: scan_unicode_def split: option.splits if_splits dest!: read_hex4_length)

lemma scan_escape_length [termination_simp]:
  "scan_escape s = Some (c, r) \<Longrightarrow> length r < length s"
  by (cases s) (auto split: if_splits dest: scan_unicode_length)

lemma scan_escape_length_Suc [termination_simp]:
  "scan_escape s = Some (c, r) \<Longrightarrow> length r < Suc (length s)"
  by (auto dest: scan_escape_length)

text \<open>The characters of a string after its opening quote (strict mode: no control characters).\<close>

fun scan_chars :: "pystr \<Rightarrow> (pystr \<times> pystr) option" where
  "scan_chars [] = None"
| "scan_chars (c # s) =
     (if c = 34 then Some ([], s)
      else if c = 92 then
        (case scan_escape s of None \<Rightarrow> None
         | Some (e, r) \<Rightarrow> (case scan_chars r of None \<Rightarrow> None | Some (t, r') \<Rightarrow> Some (e # t, r')))
      else if c < 32 then None
      else (case scan_chars s of None \<Rightarrow> None | Some (t, r') \<Rightarrow> Some (c # t, r')))"

lemma scan_chars_length: "scan_chars s = Some (t, r) \<Longrightarrow> length r < length s"
proof (induction s arbitrary: t rule: scan_chars.induct)
  case (2 c s)
  then show ?case
    by (fastforce split: if_splits option.splits prod.splits dest: scan_escape_length)
qed simp

text \<open>
  The number grammar \<open>-?(0|[1-9][0-9]*)(\.[0-9]+)?([eE][-+]?[0-9]+)?\<close>: the matched
  text, whether it has a fraction or an exponent, and the rest.
\<close>

definition match_int :: "pystr \<Rightarrow> (pystr \<times> pystr) option" where
  "match_int s =
     (let sg = (if starts_with s [45] then [45] else []);
          r = drop (length sg) s
      in case r of [] \<Rightarrow> None
         | d # r' \<Rightarrow>
             if d = 48 then Some (sg @ [48], r')
             else if is_dec_digit d
             then Some (sg @ takeWhile is_dec_digit r, dropWhile is_dec_digit r) else None)"

fun match_frac :: "pystr \<Rightarrow> pystr \<times> pystr" where
  "match_frac [] = ([], [])"
| "match_frac (c # r) =
     (if c = 46 \<and> takeWhile is_dec_digit r \<noteq> []
      then (c # takeWhile is_dec_digit r, dropWhile is_dec_digit r) else ([], c # r))"

fun match_exp :: "pystr \<Rightarrow> pystr \<times> pystr" where
  "match_exp [] = ([], [])"
| "match_exp (c # r) =
     (let sg = (if starts_with r [43] \<or> starts_with r [45] then take 1 r else []);
          r' = drop (length sg) r
      in if (c = 101 \<or> c = 69) \<and> takeWhile is_dec_digit r' \<noteq> []
         then (c # sg @ takeWhile is_dec_digit r', dropWhile is_dec_digit r')
         else ([], c # r))"

definition match_number :: "pystr \<Rightarrow> (pystr \<times> bool \<times> pystr) option" where
  "match_number s =
     (case match_int s of None \<Rightarrow> None
      | Some (i, r) \<Rightarrow>
          let (f, r1) = match_frac r; (e, r2) = match_exp r1
          in Some (i @ f @ e, f \<noteq> [] \<or> e \<noteq> [], r2))"

definition int_of_text :: "pystr \<Rightarrow> int" where
  "int_of_text s =
     (if starts_with s [45] then - int (dec_value (tl s)) else int (dec_value s))"

definition scan_number :: "(pystr \<Rightarrow> pyfloat option) \<Rightarrow> pystr \<Rightarrow> (json \<times> pystr) option" where
  "scan_number fh s =
     (case match_number s of None \<Rightarrow> None
      | Some (t, True, r) \<Rightarrow> (case fh t of None \<Rightarrow> None | Some x \<Rightarrow> Some (JFloat x, r))
      | Some (t, False, r) \<Rightarrow>
          if length (if starts_with t [45] then tl t else t) \<le> max_str_digits
          then Some (JInt (int_of_text t), r) else None)"

text \<open>
  A value at the head of the text. \<open>oh\<close> is the object hook, applied to the pairs of
  every object as it closes; \<open>fh\<close> the float hook. The constant hook of the program
  refuses \<open>NaN\<close>, \<open>Infinity\<close> and \<open>-Infinity\<close>, as every other word is refused.
  The fuel \<open>2 * length + 1\<close> is always enough (\<open>scan_fuel\<close>).
\<close>

fun scan_value ::
    "((pystr \<times> json) list \<Rightarrow> (pystr \<times> json) list option) \<Rightarrow> (pystr \<Rightarrow> pyfloat option)
     \<Rightarrow> nat \<Rightarrow> pystr \<Rightarrow> (json \<times> pystr) option"
and scan_items ::
    "((pystr \<times> json) list \<Rightarrow> (pystr \<times> json) list option) \<Rightarrow> (pystr \<Rightarrow> pyfloat option)
     \<Rightarrow> nat \<Rightarrow> pystr \<Rightarrow> (json list \<times> pystr) option"
and scan_members ::
    "((pystr \<times> json) list \<Rightarrow> (pystr \<times> json) list option) \<Rightarrow> (pystr \<Rightarrow> pyfloat option)
     \<Rightarrow> nat \<Rightarrow> pystr \<Rightarrow> ((pystr \<times> json) list \<times> pystr) option"
where
  "scan_value oh fh 0 s = None"
| "scan_value oh fh (Suc n) s =
     (if starts_with s [34] then
        (case scan_chars (tl s) of None \<Rightarrow> None | Some (t, r) \<Rightarrow> Some (JStr t, r))
      else if starts_with s [123] then
        (let r = skip_ws (tl s) in
         if starts_with r [125]
         then (case oh [] of None \<Rightarrow> None | Some d \<Rightarrow> Some (JObj d, tl r))
         else (case scan_members oh fh n r of None \<Rightarrow> None
               | Some (ps, r') \<Rightarrow> (case oh ps of None \<Rightarrow> None | Some d \<Rightarrow> Some (JObj d, r'))))
      else if starts_with s [91] then
        (let r = skip_ws (tl s) in
         if starts_with r [93] then Some (JList [], tl r)
         else (case scan_items oh fh n r of None \<Rightarrow> None | Some (vs, r') \<Rightarrow> Some (JList vs, r')))
      else if starts_with s (lit ''null'') then Some (JNull, drop 4 s)
      else if starts_with s (lit ''true'') then Some (JBool True, drop 4 s)
      else if starts_with s (lit ''false'') then Some (JBool False, drop 5 s)
      else scan_number fh s)"
| "scan_items oh fh 0 s = None"
| "scan_items oh fh (Suc n) s =
     (case scan_value oh fh n s of None \<Rightarrow> None
      | Some (v, r) \<Rightarrow>
          let r1 = skip_ws r in
          if starts_with r1 [93] then Some ([v], tl r1)
          else if starts_with r1 [44] then
            (case scan_items oh fh n (skip_ws (tl r1)) of None \<Rightarrow> None
             | Some (vs, r2) \<Rightarrow> Some (v # vs, r2))
          else None)"
| "scan_members oh fh 0 s = None"
| "scan_members oh fh (Suc n) s =
     (if \<not> starts_with s [34] then None
      else case scan_chars (tl s) of None \<Rightarrow> None
      | Some (k, r) \<Rightarrow>
          let r1 = skip_ws r in
          if \<not> starts_with r1 [58] then None
          else case scan_value oh fh n (skip_ws (tl r1)) of None \<Rightarrow> None
          | Some (v, r2) \<Rightarrow>
              let r3 = skip_ws r2 in
              if starts_with r3 [125] then Some ([(k, v)], tl r3)
              else if starts_with r3 [44] then
                (case scan_members oh fh n (skip_ws (tl r3)) of None \<Rightarrow> None
                 | Some (ps, r4) \<Rightarrow> Some ((k, v) # ps, r4))
              else None)"

text \<open>\<open>json.loads\<close>: no byte-order mark, one value, nothing but white space after it.\<close>

definition json_loads ::
    "((pystr \<times> json) list \<Rightarrow> (pystr \<times> json) list option) \<Rightarrow> (pystr \<Rightarrow> pyfloat option)
     \<Rightarrow> pystr \<Rightarrow> json option" where
  "json_loads oh fh s =
     (if starts_with s [0xFEFF] then None
      else case scan_value oh fh (2 * length s + 1) (skip_ws s) of None \<Rightarrow> None
      | Some (v, r) \<Rightarrow> if skip_ws r = [] then Some v else None)"

end
