(* ===== verification/Json_Roundtrip.thy ===== *)
theory Json_Roundtrip
  imports Json_Text
begin

text \<open>
  Reading back what \<open>dumps\<close> wrote: the scanner needs no more fuel than the text is
  long, and it returns the value with its keys sorted. The canonical text therefore
  determines the value up to key order.
\<close>

section \<open>Fuel\<close>

lemma skip_ws_length: "length (skip_ws s) \<le> length s"
  by (rule length_dropWhile_le)

lemma starts_with_Cons: "starts_with s (c # p) \<longleftrightarrow> (\<exists>t. s = c # t \<and> starts_with t p)"
  by (cases s) auto

lemma match_int_length: "match_int s = Some (t, r) \<Longrightarrow> length r < length s"
  by (cases s)
    (auto simp: match_int_def Let_def split: if_splits list.splits
      intro: le_imp_less_Suc length_dropWhile_le less_SucI)

lemma match_frac_length: "length (snd (match_frac s)) \<le> length s"
  by (cases s) (auto intro: le_SucI length_dropWhile_le)

lemma match_exp_length: "length (snd (match_exp s)) \<le> length s"
proof (cases s)
  case (Cons c r)
  have "length (dropWhile is_dec_digit (drop k r)) \<le> length r" for k
    by (rule order_trans [OF length_dropWhile_le]) simp
  from this [of 0] this [of 1] this [of "min (length r) (Suc 0)"] Cons show ?thesis by (auto simp: Let_def intro: le_SucI)
qed simp

lemma match_number_length: "match_number s = Some (t, b, r) \<Longrightarrow> length r < length s"
proof -
  assume a: "match_number s = Some (t, b, r)"
  then obtain i r0 where i: "match_int s = Some (i, r0)"
    by (auto simp: match_number_def split: option.splits)
  with a have "r = snd (match_exp (snd (match_frac r0)))"
    by (auto simp: match_number_def split: prod.splits)
  then have "length r \<le> length r0"
    using match_frac_length [of r0] match_exp_length [of "snd (match_frac r0)"] by simp
  with match_int_length [OF i] show ?thesis by simp
qed

lemma scan_number_length: "scan_number fh s = Some (v, r) \<Longrightarrow> length r < length s"
  by (auto simp: scan_number_def split: option.splits bool.splits if_splits
      dest: match_number_length)

lemma tl_length_less: "starts_with s (c # p) \<Longrightarrow> length (tl s) < length s"
  by (auto simp: starts_with_Cons)

lemma starts_with_length: "starts_with s p \<Longrightarrow> length p \<le> length s"
  by (auto simp: starts_with_iff)

text \<open>Every success consumes at least one character.\<close>

lemma tl_skip_length: "length (tl (skip_ws s)) \<le> length s"
  using skip_ws_length [of s] by simp

lemma skip_tl_length: "length (skip_ws (tl s)) \<le> length s"
  using skip_ws_length [of "tl s"] by simp

lemmas skip_lengths = skip_ws_length tl_skip_length skip_tl_length

lemma scan_length_aux:
  "(\<forall>s v r. scan_value oh fh n s = Some (v, r) \<longrightarrow> length r < length s) \<and>
   (\<forall>s vs r. scan_items oh fh n s = Some (vs, r) \<longrightarrow> length r < length s) \<and>
   (\<forall>s ps r. scan_members oh fh n s = Some (ps, r) \<longrightarrow> length r < length s)"
proof (induction n)
  case (Suc n)
  then have v: "scan_value oh fh n s = Some (v, r) \<Longrightarrow> length r < length s"
    and i: "scan_items oh fh n s = Some (vs, r) \<Longrightarrow> length r < length s"
    and m: "scan_members oh fh n s = Some (ps, r) \<Longrightarrow> length r < length s" for s v r vs ps
    by blast+
  have "length r < length s" if "scan_value oh fh (Suc n) s = Some (v, r)" for s v r
  proof (cases s)
    case (Cons c t)
    have "length (tl (skip_ws t)) \<le> length t" "length (skip_ws t) \<le> length t"
      by (rule skip_lengths)+
    with that Cons show ?thesis
      by (auto simp: Let_def lit_def split: if_splits option.splits
          dest!: scan_chars_length scan_number_length i m)
  qed (use that in \<open>auto simp: lit_def dest: scan_number_length\<close>)
  moreover have "length r < length s" if "scan_items oh fh (Suc n) s = Some (vs, r)" for s vs r
  proof -
    from that obtain w t where w: "scan_value oh fh n s = Some (w, t)"
      by (auto split: option.splits)
    have "length (tl (skip_ws t)) \<le> length t" "length (skip_ws (tl (skip_ws t))) \<le> length t"
      using skip_ws_length [of t] skip_ws_length [of "tl (skip_ws t)"] by simp_all
    with that w v [OF w] show ?thesis
      by (auto simp: Let_def split: if_splits option.splits dest!: i)
  qed
  moreover have "length r < length s" if "scan_members oh fh (Suc n) s = Some (ps, r)" for s ps r
  proof -
    from that obtain k t where k: "scan_chars (tl s) = Some (k, t)"
      by (auto split: option.splits if_splits)
    from that k obtain w u where w: "scan_value oh fh n (skip_ws (tl (skip_ws t))) = Some (w, u)"
      by (auto simp: Let_def split: option.splits if_splits)
    have "length (skip_ws (tl (skip_ws t))) \<le> length t"
      "length (tl (skip_ws u)) \<le> length u" "length (skip_ws (tl (skip_ws u))) \<le> length u"
      using skip_ws_length [of t] skip_ws_length [of "tl (skip_ws t)"]
        skip_ws_length [of u] skip_ws_length [of "tl (skip_ws u)"] by simp_all
    moreover have "length t < length s"
      using scan_chars_length [OF k] by simp
    ultimately show ?thesis using that k w v [OF w]
      by (auto simp: Let_def split: if_splits option.splits dest!: m)
  qed
  ultimately show ?case by blast
qed simp

lemmas scan_value_length = scan_length_aux [THEN conjunct1, rule_format]
lemmas scan_items_length = scan_length_aux [THEN conjunct2, THEN conjunct1, rule_format]
lemmas scan_members_length = scan_length_aux [THEN conjunct2, THEN conjunct2, rule_format]

text \<open>
  Fuel: \<open>2 * length s + 1\<close> for a value, one more for a list of items or members.
  More fuel never changes the result.
\<close>

lemma scan_fuel_aux:
  "(\<forall>m s. 2 * length s + 1 \<le> n \<longrightarrow> n \<le> m \<longrightarrow> scan_value oh fh n s = scan_value oh fh m s) \<and>
   (\<forall>m s. 2 * length s + 2 \<le> n \<longrightarrow> n \<le> m \<longrightarrow> scan_items oh fh n s = scan_items oh fh m s) \<and>
   (\<forall>m s. 2 * length s + 2 \<le> n \<longrightarrow> n \<le> m \<longrightarrow> scan_members oh fh n s = scan_members oh fh m s)"
proof (induction n)
  case (Suc n)
  then have v: "2 * length s + 1 \<le> n \<Longrightarrow> n \<le> m \<Longrightarrow> scan_value oh fh m s = scan_value oh fh n s"
    and i: "2 * length s + 2 \<le> n \<Longrightarrow> n \<le> m \<Longrightarrow> scan_items oh fh m s = scan_items oh fh n s"
    and p: "2 * length s + 2 \<le> n \<Longrightarrow> n \<le> m \<Longrightarrow> scan_members oh fh m s = scan_members oh fh n s"
    for m s
    by simp_all
  have a: "scan_value oh fh (Suc n) s = scan_value oh fh (Suc m) s"
    if "2 * length s + 1 \<le> Suc n" "n \<le> m" for m s
  proof (cases s)
    case (Cons c t)
    with that skip_ws_length [of t] i [of "skip_ws t" m] p [of "skip_ws t" m] show ?thesis
      by (simp add: Let_def)
  qed (simp add: lit_def)
  have b: "scan_items oh fh (Suc n) s = scan_items oh fh (Suc m) s"
    if "2 * length s + 2 \<le> Suc n" "n \<le> m" for m s
  proof (cases "scan_value oh fh n s")
    case (Some vr)
    obtain w t where w: "scan_value oh fh n s = Some (w, t)"
      using Some by (cases vr) simp
    have "length (skip_ws (tl (skip_ws t))) < length s"
      using scan_value_length [OF w] skip_ws_length [of t] skip_ws_length [of "tl (skip_ws t)"]
      by simp
    with that w v [of s m] i [of "skip_ws (tl (skip_ws t))" m] show ?thesis
      by (simp add: Let_def)
  qed (use that v [of s m] in simp)
  have c: "scan_members oh fh (Suc n) s = scan_members oh fh (Suc m) s"
    if "2 * length s + 2 \<le> Suc n" "n \<le> m" for m s
  proof (cases "scan_chars (tl s)")
    case (Some kr)
    obtain k t where k: "scan_chars (tl s) = Some (k, t)"
      using Some by (cases kr) simp
    let ?u = "skip_ws (tl (skip_ws t))"
    have u: "length ?u < length s"
      using scan_chars_length [OF k] skip_ws_length [of t] skip_ws_length [of "tl (skip_ws t)"]
      by simp
    show ?thesis
    proof (cases "scan_value oh fh n ?u")
      case None
      with that k u v [of ?u m] show ?thesis by (simp add: Let_def)
    next
      case (Some vr)
      obtain w y where w: "scan_value oh fh n ?u = Some (w, y)"
        using Some by (cases vr) simp
      have "length (skip_ws (tl (skip_ws y))) < length s"
        using u scan_value_length [OF w] skip_ws_length [of y] skip_ws_length [of "tl (skip_ws y)"]
        by simp
      with that k u w v [of ?u m] p [of "skip_ws (tl (skip_ws y))" m] show ?thesis
        by (simp add: Let_def)
    qed
  qed simp
  have m: "\<exists>k. m = Suc k \<and> n \<le> k" if "Suc n \<le> m" for m
    using that by (cases m) auto
  show ?case
    by (intro conjI allI impI; drule m; elim exE conjE; hypsubst; rule a b c; assumption)
qed simp

lemma scan_fuel:
  "2 * length s + 1 \<le> n \<Longrightarrow> scan_value oh fh n s = scan_value oh fh (2 * length s + 1) s"
  using scan_fuel_aux [of "2 * length s + 1" oh fh, THEN conjunct1, rule_format, of s n] by simp

section \<open>Strings\<close>

lemma scan_escape_u [simp]: "scan_escape (117 # r) = scan_unicode r"
  by simp

lemma scan_unicode_plain:
  "u < 65536 \<Longrightarrow> \<not> is_surrogate u \<Longrightarrow> scan_unicode (hex4 u @ r) = Some (u, r)"
  by (auto simp: scan_unicode_def is_surrogate_def)

lemma scan_unicode_pair:
  assumes "0x10000 \<le> c" "c < 0x110000"
  shows "scan_unicode (hex4 (0xD800 + (c - 0x10000) div 1024) @ 92 # 117 #
      hex4 (0xDC00 + (c - 0x10000) mod 1024) @ r) = Some (c, r)"
proof -
  define v where "v = c - 0x10000"
  have v: "v < 0x100000" and c: "c = 0x10000 + v"
    using assms by (simp_all add: v_def)
  have "v div 1024 < 1024"
    using v by simp
  moreover have "1024 * (v div 1024) + v mod 1024 = v"
    by simp
  ultimately show ?thesis
    by (simp add: scan_unicode_def c add.commute [of _ "v mod 1024"] del: mult_div_mod_eq)
qed

lemma scan_chars_esc:
  assumes "c < 0x110000" "\<not> is_surrogate c"
  shows "scan_chars (esc_char c @ t) =
    (case scan_chars t of None \<Rightarrow> None | Some (u, r) \<Rightarrow> Some (c # u, r))"
proof -
  consider "c \<in> {34, 92, 8, 12, 10, 13, 9}"
    | "32 \<le> c" "c \<le> 126" "c \<notin> {34, 92}"
    | "c \<notin> {34, 92, 8, 12, 10, 13, 9}" "\<not> (32 \<le> c \<and> c \<le> 126)" "c < 0x10000"
    | "0x10000 \<le> c"
    by force
  then show ?thesis
  proof cases
    case 3
    with assms show ?thesis
      by (simp add: esc_char_def scan_unicode_plain split: option.splits)
  next
    case 4
    with assms scan_unicode_pair [of c t] show ?thesis
      by (simp add: esc_char_def split: option.splits)
  qed (auto simp: esc_char_def split: option.splits)
qed

lemma scan_chars_dumps:
  "scalar_text s \<Longrightarrow> scan_chars (concat (map esc_char s) @ 34 # r) = Some (s, r)"
  by (induction s) (auto simp: scan_chars_esc)

section \<open>Numbers\<close>

text \<open>What may follow a value inside a document: nothing, or a delimiter.\<close>

definition stops :: "pystr \<Rightarrow> bool" where
  "stops r \<longleftrightarrow> r = [] \<or> hd r \<in> {44, 93, 125}"

lemma stops_simps [simp]: "stops []" "stops (44 # r)" "stops (93 # r)" "stops (125 # r)"
  by (simp_all add: stops_def)

lemma stops_match [simp]: "stops r \<Longrightarrow> match_frac r = ([], r)" "stops r \<Longrightarrow> match_exp r = ([], r)"
  by (cases r; auto simp: stops_def)+

lemma stops_digits [simp]: "stops r \<Longrightarrow> takeWhile is_dec_digit r = []"
  "stops r \<Longrightarrow> dropWhile is_dec_digit r = r"
  by (cases r; auto simp: stops_def is_dec_digit_def)+

lemma takeWhile_digits:
  "list_all is_dec_digit s \<Longrightarrow> stops r \<Longrightarrow> takeWhile is_dec_digit (s @ r) = s"
  "list_all is_dec_digit s \<Longrightarrow> stops r \<Longrightarrow> dropWhile is_dec_digit (s @ r) = r"
  by (induction s) auto

lemma match_int_digits:
  assumes "list_all is_dec_digit ds" "ds \<noteq> []" "hd ds = 48 \<Longrightarrow> ds = [48]" "stops r"
  shows "match_int (ds @ r) = Some (ds, r)" "match_int (45 # ds @ r) = Some (45 # ds, r)"
proof -
  obtain d t where ds: "ds = d # t" "is_dec_digit d" "list_all is_dec_digit t" "d = 48 \<Longrightarrow> t = []"
    using assms by (cases ds) auto
  then have "d \<noteq> 45"
    by (auto simp: is_dec_digit_def)
  with ds assms(4) show "match_int (ds @ r) = Some (ds, r)"
      "match_int (45 # ds @ r) = Some (45 # ds, r)"
    by (auto simp: match_int_def Let_def takeWhile_digits)
qed

lemma dec_digits_lead: "hd (dec_digits n) = 48 \<Longrightarrow> dec_digits n = [48]"
  using dec_digits_hd [of n] by (cases "n = 0") auto

lemma match_int_text: "stops r \<Longrightarrow> match_int (int_text n @ r) = Some (int_text n, r)"
  by (simp add: int_text_def match_int_digits dec_digits_digit dec_digits_lead)

lemma starts_with_minus_digits: "\<not> starts_with (dec_digits n) [45]"
  using dec_digits_digit [of n] by (auto simp: starts_with_Cons is_dec_digit_def)

lemma scan_number_int:
  assumes "stops r" "length (dec_digits (nat \<bar>n\<bar>)) \<le> max_str_digits"
  shows "scan_number fh (int_text n @ r) = Some (JInt n, r)"
proof -
  have m: "match_number (int_text n @ r) = Some (int_text n, False, r)"
    using assms(1) by (simp add: match_number_def match_int_text)
  show ?thesis
  proof (cases "n < 0")
    case True
    with assms m show ?thesis
      by (simp add: scan_number_def int_text_def int_of_text_def)
  next
    case False
    with assms m show ?thesis
      by (simp add: scan_number_def int_text_def int_of_text_def starts_with_minus_digits)
  qed
qed

text \<open>
  The documented behaviour of \<open>float.__repr__\<close> the round trip relies on: the text of a
  finite float is a number with a fraction or an exponent, and reading it gives the
  float back.
\<close>

definition float_text :: "pystr \<Rightarrow> bool" where
  "float_text t \<longleftrightarrow> match_number t = Some (t, True, [])"

definition repr_ok :: "(pyfloat \<Rightarrow> pystr) \<Rightarrow> (pystr \<Rightarrow> pyfloat option) \<Rightarrow> pyfloat \<Rightarrow> bool" where
  "repr_ok fr fh x \<longleftrightarrow> float_text (fr x) \<and> fh (fr x) = Some x"

lemma digits_append:
  assumes "stops r" shows "takeWhile is_dec_digit (s @ r) = takeWhile is_dec_digit s"
    "dropWhile is_dec_digit (s @ r) = dropWhile is_dec_digit s @ r"
  using assms by (induction s) auto

lemma stops_starts [simp]: "stops r \<Longrightarrow> starts_with r [c] \<Longrightarrow> c \<in> {44, 93, 125}"
  by (cases r) (auto simp: stops_def)

lemma starts_with_stop: "stops r \<Longrightarrow> c \<notin> {44, 93, 125} \<Longrightarrow> starts_with (s @ r) [c] = starts_with s [c]"
  by (cases s) (auto simp: stops_def starts_with_Cons)

lemma match_int_append:
  assumes "match_int s = Some (t, u)" "stops r"
  shows "match_int (s @ r) = Some (t, u @ r)"
proof -
  have "starts_with (s @ r) [45] = starts_with s [45]"
    using assms(2) by (simp add: starts_with_stop)
  moreover obtain d v where "drop (length (if starts_with s [45] then [45::nat] else [])) s = d # v"
    using assms(1) by (auto simp: match_int_def Let_def split: list.splits)
  ultimately show ?thesis
    using assms by (auto simp: match_int_def Let_def starts_with_Cons digits_append split: if_splits)
qed

lemma match_frac_append:
  "stops r \<Longrightarrow> match_frac (s @ r) = (fst (match_frac s), snd (match_frac s) @ r)"
  by (cases s) (auto simp: digits_append)

lemma match_exp_append:
  assumes "stops r"
  shows "match_exp (s @ r) = (fst (match_exp s), snd (match_exp s) @ r)"
proof (cases s)
  case (Cons c t)
  show ?thesis
  proof (cases t)
    case Nil
    with Cons assms show ?thesis
      by (auto simp: Let_def starts_with_stop [where s = "[]", simplified] is_dec_digit_def
          dest: stops_starts)
  next
    case (Cons d u)
    with \<open>s = c # t\<close> assms show ?thesis
      by (auto simp: Let_def digits_append)
  qed
qed (simp add: assms)

lemma match_number_append:
  assumes "match_number s = Some (t, b, u)" "stops r"
  shows "match_number (s @ r) = Some (t, b, u @ r)"
proof -
  obtain i v where i: "match_int s = Some (i, v)"
    using assms(1) by (auto simp: match_number_def split: option.splits)
  from i assms show ?thesis
    by (auto simp: match_number_def match_int_append match_frac_append match_exp_append
        split: prod.splits)
qed

lemma scan_number_float:
  "repr_ok fr fh x \<Longrightarrow> stops r \<Longrightarrow> scan_number fh (fr x @ r) = Some (JFloat x, r)"
  by (auto simp: repr_ok_def float_text_def scan_number_def dest: match_number_append)

section \<open>Values\<close>

fun json_floats :: "json \<Rightarrow> pyfloat list" where
  "json_floats (JFloat x) = [x]"
| "json_floats (JList vs) = concat (map json_floats vs)"
| "json_floats (JObj kvs) = concat (map (\<lambda>(k, v). json_floats v) kvs)"
| "json_floats _ = []"

lemma match_number_head:
  "match_number s = Some w \<Longrightarrow> \<exists>c t. s = c # t \<and> (c = 45 \<or> is_dec_digit c)"
  by (cases s)
    (auto simp: match_number_def match_int_def Let_def is_dec_digit_def starts_with_Cons
      split: option.splits list.splits if_splits)

lemma scan_number_head:
  "scan_number fh s = Some w \<Longrightarrow> \<exists>c t. s = c # t \<and> (c = 45 \<or> is_dec_digit c)"
  by (auto simp: scan_number_def split: option.splits dest: match_number_head)

lemma lit_words: "lit ''null'' = [110, 117, 108, 108]" "lit ''true'' = [116, 114, 117, 101]"
  "lit ''false'' = [102, 97, 108, 115, 101]"
  by (simp_all add: lit_def)

lemma scan_value_number:
  assumes "scan_number fh s = Some w" "0 < n" shows "scan_value oh fh n s = Some w"
proof -
  obtain c t where "s = c # t" "c = 45 \<or> is_dec_digit c"
    using scan_number_head [OF assms(1)] by blast
  then show ?thesis
    using assms by (cases n) (auto simp: lit_words is_dec_digit_def)
qed

text \<open>The text of a value never starts with white space.\<close>

lemma dumps_head:
  assumes "\<And>x. x \<in> set (json_floats v) \<Longrightarrow> repr_ok fr fh x"
  shows "\<exists>c t. dumps fr v = c # t \<and> \<not> json_ws c \<and> c \<notin> {44, 93, 125} \<and> c < 128"
proof (cases v)
  case (JInt n)
  obtain d u where "dec_digits (nat \<bar>n\<bar>) = d # u" "is_dec_digit d"
    using dec_digits_digit [of "nat \<bar>n\<bar>"] by (cases "dec_digits (nat \<bar>n\<bar>)") auto
  with JInt show ?thesis
    by (auto simp: int_text_def json_ws_def is_dec_digit_def)
next
  case (JFloat x)
  with assms have "repr_ok fr fh x"
    by simp
  then have "match_number (fr x) = Some (fr x, True, [])"
    by (simp add: repr_ok_def float_text_def)
  from match_number_head [OF this] JFloat show ?thesis
    by (auto simp: json_ws_def is_dec_digit_def)
qed (simp_all add: lit_words json_ws_def dumps_str_def)

lemma dumps_skip:
  assumes "\<And>x. x \<in> set (json_floats v) \<Longrightarrow> repr_ok fr fh x"
  shows "skip_ws (dumps fr v @ r) = dumps fr v @ r"
    "starts_with (dumps fr v @ r) [c] \<Longrightarrow> c \<notin> {44, 93, 125}"
  using dumps_head [where fr = fr and v = v, OF assms] by (auto simp: starts_with_Cons)

lemma dumps_str_skip: "skip_ws (dumps_str k @ r) = dumps_str k @ r"
  by (simp add: dumps_str_def json_ws_def)

lemma scan_string:
  "scalar_text s \<Longrightarrow> scan_chars (tl (dumps_str s @ r)) = Some (s, r)"
  by (simp add: dumps_str_def scan_chars_dumps)

lemma starts_dumps_str: "starts_with (dumps_str s @ r) (34 # p) \<longleftrightarrow>
    starts_with (concat (map esc_char s) @ 34 # r) p"
  by (simp add: dumps_str_def)

text \<open>What the induction over a value assumes and shows of one component.\<close>

definition scans ::
    "((pystr \<times> json) list \<Rightarrow> (pystr \<times> json) list option) \<Rightarrow> (pystr \<Rightarrow> pyfloat option)
     \<Rightarrow> (pyfloat \<Rightarrow> pystr) \<Rightarrow> json \<Rightarrow> bool" where
  "scans oh fh fr v \<longleftrightarrow>
     (\<forall>n r. stops r \<longrightarrow> 2 * length (dumps fr v @ r) + 1 \<le> n \<longrightarrow>
        scan_value oh fh n (dumps fr v @ r) = Some (norm_json v, r))"

lemma join_with_Cons:
  "join_with sep (s # ss) = s @ (if ss = [] then [] else sep @ join_with sep ss)"
  by (cases ss) auto

lemma scan_items_join:
  assumes "vs \<noteq> []" "\<And>v. v \<in> set vs \<Longrightarrow> scans oh fh fr v"
    and fl: "\<And>v x. v \<in> set vs \<Longrightarrow> x \<in> set (json_floats v) \<Longrightarrow> repr_ok fr fh x"
    and "2 * length (join_with [44] (map (dumps fr) vs) @ 93 # r) + 2 \<le> n"
  shows "scan_items oh fh n (join_with [44] (map (dumps fr) vs) @ 93 # r)
    = Some (map norm_json vs, r)"
  using assms
proof (induction vs arbitrary: n)
  case (Cons v vs)
  obtain m where n: "n = Suc m"
    using Cons.prems(4) by (cases n) auto
  let ?r = "if vs = [] then 93 # r else 44 # join_with [44] (map (dumps fr) vs) @ 93 # r"
  have "scans oh fh fr v" "stops ?r"
    using Cons.prems(2) by auto
  moreover have eq: "join_with [44] (map (dumps fr) (v # vs)) @ 93 # r = dumps fr v @ ?r"
    by (simp add: join_with_Cons)
  moreover have "2 * length (dumps fr v @ ?r) + 1 \<le> m"
    using Cons.prems(4) unfolding n eq by simp
  ultimately have v: "scan_value oh fh m (dumps fr v @ ?r) = Some (norm_json v, ?r)"
    unfolding scans_def by blast
  show ?case
  proof (cases "vs = []")
    case True
    with v show ?thesis by (simp add: n json_ws_def)
  next
    case False
    then have ih: "scan_items oh fh m (join_with [44] (map (dumps fr) vs) @ 93 # r)
        = Some (map norm_json vs, r)"
      using Cons.prems n by (intro Cons.IH) (auto simp: join_with_Cons)
    obtain w ws where vs: "vs = w # ws"
      using False by (cases vs) auto
    have "skip_ws (dumps fr w @ t) = dumps fr w @ t" for t
      using Cons.prems(3) [of w] vs by (intro dumps_skip(1) [where fh = fh]) auto
    then have "skip_ws (join_with [44] (map (dumps fr) vs) @ 93 # r)
        = join_with [44] (map (dumps fr) vs) @ 93 # r"
      by (simp add: vs join_with_Cons)
    with v ih False show ?thesis
      by (simp only: n eq scan_items.simps) (simp add: json_ws_def)
  qed
qed simp

abbreviation member_text :: "(pyfloat \<Rightarrow> pystr) \<Rightarrow> pystr \<times> json \<Rightarrow> pystr" where
  "member_text fr \<equiv> \<lambda>(k, v). dumps_str k @ 58 # dumps fr v"

abbreviation norm_member :: "pystr \<times> json \<Rightarrow> pystr \<times> json" where
  "norm_member \<equiv> \<lambda>(k, v). (k, norm_json v)"

lemma scan_members_join:
  assumes "kvs \<noteq> []" "\<And>k v. (k, v) \<in> set kvs \<Longrightarrow> scans oh fh fr v \<and> scalar_text k"
    and fl: "\<And>k v x. (k, v) \<in> set kvs \<Longrightarrow> x \<in> set (json_floats v) \<Longrightarrow> repr_ok fr fh x"
    and "2 * length (join_with [44] (map (member_text fr) kvs) @ 125 # r) + 2 \<le> n"
  shows "scan_members oh fh n (join_with [44] (map (member_text fr) kvs) @ 125 # r)
    = Some (map norm_member kvs, r)"
  using assms
proof (induction kvs arbitrary: n)
  case (Cons kv kvs)
  obtain k v where kv: "kv = (k, v)"
    by (cases kv)
  obtain m where n: "n = Suc m"
    using Cons.prems(4) by (cases n) auto
  let ?r = "if kvs = [] then 125 # r
    else 44 # join_with [44] (map (member_text fr) kvs) @ 125 # r"
  have s: "scans oh fh fr v" "scalar_text k" "stops ?r"
    using Cons.prems(2) [of k v] by (auto simp: kv)
  have eq: "join_with [44] (map (member_text fr) (kv # kvs)) @ 125 # r
      = dumps_str k @ 58 # dumps fr v @ ?r"
    by (simp add: join_with_Cons kv)
  have "2 * length (dumps fr v @ ?r) + 1 \<le> m"
    using Cons.prems(4) unfolding n eq by simp
  with s have v: "scan_value oh fh m (dumps fr v @ ?r) = Some (norm_json v, ?r)"
    unfolding scans_def by blast
  have sk: "skip_ws (dumps fr v @ t) = dumps fr v @ t" for t
    using Cons.prems(3) [of k v] by (intro dumps_skip(1) [where fh = fh]) (simp add: kv)
  have st: "starts_with (dumps_str k @ t) [34]" for t
    by (simp add: dumps_str_def)
  show ?case
  proof (cases "kvs = []")
    case True
    with v s show ?thesis
      by (simp only: n eq scan_members.simps) (simp add: st sk scan_string json_ws_def kv)
  next
    case False
    have "\<And>k v. (k, v) \<in> set kvs \<Longrightarrow> scans oh fh fr v \<and> scalar_text k"
      "\<And>k v x. (k, v) \<in> set kvs \<Longrightarrow> x \<in> set (json_floats v) \<Longrightarrow> repr_ok fr fh x"
      using Cons.prems(2,3) by (meson list.set_intros(2))+
    then have ih: "scan_members oh fh m (join_with [44] (map (member_text fr) kvs) @ 125 # r)
        = Some (map norm_member kvs, r)"
      using Cons.prems(4) n False by (intro Cons.IH) (auto simp: join_with_Cons kv)
    have "skip_ws (join_with [44] (map (member_text fr) kvs) @ 125 # r)
        = join_with [44] (map (member_text fr) kvs) @ 125 # r"
      using False by (cases kvs) (auto simp: join_with_Cons dumps_str_skip)
    with v s ih False show ?thesis
      by (simp only: n eq scan_members.simps) (simp add: st sk scan_string json_ws_def kv)
  qed
qed simp

text \<open>
  The round trip: with a hook that accepts distinct keys and a float printer that reads
  back, scanning the text of a well-formed printable value gives the value with sorted
  keys, and stops right after it.
\<close>

lemma scan_dumps:
  assumes oh: "\<And>ps. distinct (map fst ps) \<Longrightarrow> oh ps = Some ps"
  shows "json_ok v \<Longrightarrow> printable v \<Longrightarrow> list_all (repr_ok fr fh) (json_floats v)
    \<Longrightarrow> scans oh fh fr v"
proof (induction v rule: json_induct)
  case Null
  have "scan_value oh fh n (lit ''null'' @ r) = Some (JNull, r)" if "0 < n" for n r
    using that by (cases n) (auto simp: lit_words)
  then show ?case unfolding scans_def by simp
next
  case (Bool b)
  have "scan_value oh fh n (dumps fr (JBool b) @ r) = Some (JBool b, r)" if "0 < n" for n r
    using that by (cases n) (auto simp: lit_words)
  then show ?case unfolding scans_def by simp
next
  case (Int k)
  then show ?case
    unfolding scans_def by (auto intro!: scan_value_number scan_number_int)
next
  case (Float x)
  then show ?case
    unfolding scans_def by (auto intro!: scan_value_number scan_number_float)
next
  case (Str s)
  have "scan_value oh fh n (dumps_str s @ r) = Some (JStr s, r)" if "0 < n" for n r
    using that Str scan_string [of s r] by (cases n) (auto simp: dumps_str_def)
  then show ?case unfolding scans_def by simp
next
  case (List vs)
  have vs: "scans oh fh fr v" "x \<in> set (json_floats v) \<Longrightarrow> repr_ok fr fh x" if "v \<in> set vs" for v x
    using List that by (auto simp: list_all_iff)
  show ?case unfolding scans_def
  proof (intro allI impI)
    fix n r assume n: "2 * length (dumps fr (JList vs) @ r) + 1 \<le> n"
    then obtain m where m: "n = Suc m" by (cases n) auto
    show "scan_value oh fh n (dumps fr (JList vs) @ r) = Some (norm_json (JList vs), r)"
    proof (cases vs)
      case Nil
      then show ?thesis by (simp add: m json_ws_def)
    next
      case (Cons w ws)
      have "scan_items oh fh m (join_with [44] (map (dumps fr) vs) @ 93 # r)
          = Some (map norm_json vs, r)"
        using n m Cons by (intro scan_items_join) (auto intro: vs)
      moreover obtain c t where "dumps fr w = c # t" "\<not> json_ws c" "c \<notin> {44, 93, 125}"
        using dumps_head [of w fr fh] vs(2) [of w] Cons by auto
      then have "skip_ws (join_with [44] (map (dumps fr) vs) @ 93 # r)
          = join_with [44] (map (dumps fr) vs) @ 93 # r"
        "\<not> starts_with (join_with [44] (map (dumps fr) vs) @ 93 # r) [93]"
        using Cons by (auto simp: join_with_Cons)
      ultimately show ?thesis by (simp add: m)
    qed
  qed
next
  case (Obj kvs)
  let ?kvs = "sort_key fst kvs"
  have kvs: "scans oh fh fr v \<and> scalar_text k" "x \<in> set (json_floats v) \<Longrightarrow> repr_ok fr fh x"
    if "(k, v) \<in> set ?kvs" for k v x
  proof -
    have "(k, v) \<in> set kvs" using that by simp
    with Obj show "scans oh fh fr v \<and> scalar_text k"
      and "x \<in> set (json_floats v) \<Longrightarrow> repr_ok fr fh x"
      by (fastforce simp: list_all_iff)+
  qed
  have "distinct (map fst kvs)"
    using Obj.prems by (simp add: dict_ok_def keys_def)
  then have "distinct (map fst (map norm_member ?kvs))"
    by (simp add: distinct_map case_prod_beta o_def inj_on_def)
  then have hook: "oh (map norm_member ?kvs) = Some (map norm_member ?kvs)"
    by (rule oh)
  show ?case unfolding scans_def
  proof (intro allI impI)
    fix n r assume n: "2 * length (dumps fr (JObj kvs) @ r) + 1 \<le> n"
    then obtain m where m: "n = Suc m" by (cases n) auto
    show "scan_value oh fh n (dumps fr (JObj kvs) @ r) = Some (norm_json (JObj kvs), r)"
    proof (cases ?kvs)
      case Nil
      with hook show ?thesis by (simp add: m json_ws_def)
    next
      case (Cons w ws)
      have "scan_members oh fh m (join_with [44] (map (member_text fr) ?kvs) @ 125 # r)
          = Some (map norm_member ?kvs, r)"
      proof (rule scan_members_join [OF _ kvs])
        show "?kvs \<noteq> []" using Cons by simp
        show "2 * length (join_with [44] (map (member_text fr) ?kvs) @ 125 # r) + 2 \<le> m"
          using n m by simp
      qed
      moreover have "skip_ws (join_with [44] (map (member_text fr) ?kvs) @ 125 # r)
          = join_with [44] (map (member_text fr) ?kvs) @ 125 # r"
        "\<not> starts_with (join_with [44] (map (member_text fr) ?kvs) @ 125 # r) [125]"
        using Cons by (auto simp: join_with_Cons dumps_str_def json_ws_def split: prod.splits)
      ultimately show ?thesis by (simp add: m hook)
    qed
  qed
qed

lemma json_loads_dumps:
  assumes "\<And>ps. distinct (map fst ps) \<Longrightarrow> oh ps = Some ps"
    "json_ok v" "printable v" "list_all (repr_ok fr fh) (json_floats v)"
  shows "json_loads oh fh (dumps fr v) = Some (norm_json v)"
proof -
  have fl: "repr_ok fr fh x" if "x \<in> set (json_floats v)" for x
    using assms(4) that by (simp add: list_all_iff)
  have "scans oh fh fr v"
    by (rule scan_dumps) (use assms in auto)
  then have "scan_value oh fh (2 * length (dumps fr v) + 1) (dumps fr v @ []) = Some (norm_json v, [])"
    unfolding scans_def by (metis append_Nil2 order_refl stops_simps(1))
  moreover have "skip_ws (dumps fr v @ []) = dumps fr v @ []"
    by (rule dumps_skip(1) [where fh = fh]) (rule fl)
  moreover have "\<not> starts_with (dumps fr v) [0xFEFF]"
    using dumps_head [of v fr fh, OF fl] by (auto simp: starts_with_Cons)
  ultimately show ?thesis by (simp add: json_loads_def)
qed

declare scan_value.simps [simp del] scan_items.simps [simp del] scan_members.simps [simp del]

lemmas scan_simps = scan_value.simps scan_items.simps scan_members.simps

end
