(* ===== verification/Hashing.thy ===== *)
theory Hashing
  imports Json_Roundtrip
begin

text \<open>
  The module \<open>hashing.py\<close>: strict JSON parsing, canonical JSON bytes, the digest a
  record hash is computed over, and canonical amounts.
\<close>

section \<open>What the interpreter provides\<close>

text \<open>
  Three functions the program uses are code of the interpreter and of OpenSSL: the
  printing of a float, the reading of one, and SHA-256. They are parameters, held in
  one record; \<open>sha256 I bs\<close> is \<open>hashlib.sha256(bs).hexdigest()\<close>.
\<close>

record interp =
  float_repr :: "pyfloat \<Rightarrow> pystr"
  float_of :: "pystr \<Rightarrow> pyfloat"
  sha256 :: "pybytes \<Rightarrow> pystr"

definition max_json_nesting :: nat where
  "max_json_nesting = 64"

section \<open>The hooks of the strict parser\<close>

text \<open>\<open>_reject_duplicate_keys\<close>: the loop fills \<open>value\<close> and raises on a key it holds.\<close>

fun reject_duplicates_from ::
    "(pystr, json) dict \<Rightarrow> (pystr \<times> json) list \<Rightarrow> (pystr, json) dict option" where
  "reject_duplicates_from value [] = Some value"
| "reject_duplicates_from value ((k, v) # ps) =
     (if has_key value k then None else reject_duplicates_from (dict_set k v value) ps)"

definition reject_duplicate_keys :: "(pystr \<times> json) list \<Rightarrow> (pystr, json) dict option" where
  "reject_duplicate_keys ps = reject_duplicates_from [] ps"

definition finite_float :: "interp \<Rightarrow> pystr \<Rightarrow> pyfloat option" where
  "finite_float I token = (let x = float_of I token in if is_finite x then Some x else None)"

lemma reject_duplicates_from_eq:
  "dict_ok d \<Longrightarrow> reject_duplicates_from d ps = (if dict_ok (d @ ps) then Some (d @ ps) else None)"
  by (induction d ps rule: reject_duplicates_from.induct)
    (auto simp: has_key_def dict_set_fresh dict_ok_def)

lemma reject_duplicate_keys_eq:
  "reject_duplicate_keys ps = (if dict_ok ps then Some ps else None)"
  by (simp add: reject_duplicate_keys_def reject_duplicates_from_eq)

section \<open>Nesting\<close>

text \<open>
  \<open>_check_json_nesting\<close>: the state of the loop is the depth, whether the scan is
  inside a string, and whether the last character was a backslash there. \<open>True\<close> is a
  return, \<open>False\<close> the \<open>ValueError\<close>. The depth may fall below zero on a stray bracket.
\<close>

fun nesting_loop :: "nat \<Rightarrow> int \<Rightarrow> bool \<Rightarrow> bool \<Rightarrow> pystr \<Rightarrow> bool" where
  "nesting_loop mx depth in_string escaped [] = True"
| "nesting_loop mx depth in_string escaped (c # s) =
     (if in_string then
        (if escaped then nesting_loop mx depth True False s
         else if c = 92 then nesting_loop mx depth True True s
         else if c = 34 then nesting_loop mx depth False escaped s
         else nesting_loop mx depth True escaped s)
      else if c = 34 then nesting_loop mx depth True escaped s
      else if c = 91 \<or> c = 123 then
        (if depth + 1 > int mx then False else nesting_loop mx (depth + 1) False escaped s)
      else if c = 93 \<or> c = 125 then nesting_loop mx (depth - 1) False escaped s
      else nesting_loop mx depth False escaped s)"

definition check_json_nesting :: "pystr \<Rightarrow> bool" where
  "check_json_nesting text = nesting_loop max_json_nesting 0 False False text"

section \<open>Surrogates\<close>

text \<open>
  \<open>_reject_unpaired_surrogates\<close> on a string, \<open>True\<close> for a return: a high surrogate
  must be followed by a low one, and the two are skipped together.
\<close>

definition is_high_surrogate :: "nat \<Rightarrow> bool" where
  "is_high_surrogate c \<longleftrightarrow> 0xD800 \<le> c \<and> c \<le> 0xDBFF"

definition is_low_surrogate :: "nat \<Rightarrow> bool" where
  "is_low_surrogate c \<longleftrightarrow> 0xDC00 \<le> c \<and> c \<le> 0xDFFF"

fun paired_surrogates :: "pystr \<Rightarrow> bool" where
  "paired_surrogates [] = True"
| "paired_surrogates (c # s) =
     (if is_high_surrogate c then
        (case s of [] \<Rightarrow> False | d # s' \<Rightarrow> is_low_surrogate d \<and> paired_surrogates s')
      else if is_low_surrogate c then False
      else paired_surrogates s)"

fun no_unpaired_surrogates :: "json \<Rightarrow> bool" where
  "no_unpaired_surrogates (JStr s) = paired_surrogates s"
| "no_unpaired_surrogates (JList vs) = list_all no_unpaired_surrogates vs"
| "no_unpaired_surrogates (JObj kvs) =
     list_all (\<lambda>(k, v). paired_surrogates k \<and> no_unpaired_surrogates v) kvs"
| "no_unpaired_surrogates _ = True"

section \<open>Parsing and printing\<close>

definition strict_json_loads :: "interp \<Rightarrow> pystr \<Rightarrow> exc + json" where
  "strict_json_loads I text =
     (if \<not> check_json_nesting text then Inl ValueError
      else case json_loads reject_duplicate_keys (finite_float I) text of
        None \<Rightarrow> Inl ValueError
      | Some v \<Rightarrow> if no_unpaired_surrogates v then Inr v else Inl ValueError)"

text \<open>
  \<open>json.dumps(...)\<close> with the canonical options, encoded. The text is ASCII, so each
  character is one byte. A non-finite float, or an integer over the conversion limit, is
  a \<open>ValueError\<close>.
\<close>

definition canonical_json_bytes :: "interp \<Rightarrow> json \<Rightarrow> exc + pybytes" where
  "canonical_json_bytes I v =
     (if printable v then Inr (map of_nat (dumps (float_repr I) v)) else Inl ValueError)"

definition sha256_hex :: "interp \<Rightarrow> pybytes \<Rightarrow> pystr" where
  "sha256_hex I bs = sha256 I bs"

definition hash_object :: "interp \<Rightarrow> json \<Rightarrow> exc + pystr" where
  "hash_object I v = bnd (canonical_json_bytes I v) (\<lambda>bs. Inr (sha256 I bs))"

text \<open>
  \<open>parse_nonnegative_amount_scaled\<close>: \<open>0|[1-9][0-9]*\<close> exactly. The last test is
  CPython's integer conversion bound, on which \<open>int\<close> raises and the function returns
  \<open>None\<close>.
\<close>

definition parse_nonnegative_amount_scaled :: "json \<Rightarrow> nat option" where
  "parse_nonnegative_amount_scaled v =
     (case v of JStr s \<Rightarrow>
        if is_ascii s \<and> (s \<noteq> [] \<and> list_all is_dec_digit s) \<and> \<not> (length s > 1 \<and> starts_with s [48])
        then (if length s \<le> max_str_digits then Some (dec_value s) else None)
        else None
      | _ \<Rightarrow> None)"

section \<open>What the strict parser guarantees\<close>

text \<open>
  The scanner joins an escaped surrogate pair, so a string it reads from surrogate-free
  text holds no high surrogate followed by a low one; with unpaired surrogates refused,
  no surrogate is left.
\<close>

fun pair_free :: "pystr \<Rightarrow> bool" where
  "pair_free [] = True"
| "pair_free (c # s) \<longleftrightarrow>
     \<not> (is_high_surrogate c \<and> s \<noteq> [] \<and> is_low_surrogate (hd s)) \<and> c < 0x110000 \<and> pair_free s"

lemma surrogate_cases: "is_surrogate c \<longleftrightarrow> is_high_surrogate c \<or> is_low_surrogate c"
  by (auto simp: is_surrogate_def is_high_surrogate_def is_low_surrogate_def)

lemma pair_free_paired: "pair_free s \<Longrightarrow> paired_surrogates s \<Longrightarrow> scalar_text s"
  by (induction s rule: paired_surrogates.induct)
    (auto simp: surrogate_cases split: if_splits list.splits)

lemma scalar_suffix: "scalar_text s \<Longrightarrow> s = p @ r \<Longrightarrow> scalar_text r"
  by simp

lemma scalar_drop: "scalar_text s \<Longrightarrow> scalar_text (drop n s)"
  by (metis append_take_drop_id scalar_suffix)

lemma scalar_dropWhile: "scalar_text s \<Longrightarrow> scalar_text (dropWhile P s)"
  by (metis scalar_suffix takeWhile_dropWhile_id)

lemma scalar_tl: "scalar_text s \<Longrightarrow> scalar_text (tl s)"
  by (cases s) auto

lemmas scalar_rest = scalar_drop scalar_dropWhile scalar_tl

lemma hex_value_bound: "hex_value c = Some d \<Longrightarrow> d < 16"
  by (auto simp: hex_value_def split: if_splits)

lemma read_hex4_bound: "read_hex4 s = Some (u, r) \<Longrightarrow> u < 65536 \<and> r = drop 4 s"
  by (induction s rule: read_hex4.induct)
    (auto split: option.splits dest!: hex_value_bound)

lemma pair_bound: "a \<le> 56319 \<Longrightarrow> b \<le> 57343 \<Longrightarrow> 1024 * (a - 55296) + b < (1104896::nat)"
  by arith

lemma scan_unicode_scalar:
  "scan_unicode s = Some (c, r) \<Longrightarrow> (r = drop 4 s \<or> r = drop 10 s) \<and> c < 0x110000"
  by (auto simp: scan_unicode_def pair_bound
      split: option.splits if_splits dest!: read_hex4_bound)

lemma scan_unicode_high:
  "scan_unicode s = Some (c, r) \<Longrightarrow> is_high_surrogate c \<Longrightarrow> starts_with r [92, 117] \<Longrightarrow>
    read_hex4 (drop 2 r) = Some (d, r') \<Longrightarrow> \<not> is_low_surrogate d"
  by (auto simp: scan_unicode_def is_high_surrogate_def is_low_surrogate_def
      split: option.splits if_splits)

lemma scan_unicode_low:
  "scan_unicode s = Some (c, r) \<Longrightarrow> is_low_surrogate c \<Longrightarrow> \<exists>r'. read_hex4 s = Some (c, r')"
  by (auto simp: scan_unicode_def is_low_surrogate_def split: option.splits if_splits)

lemma scan_escape_scalar:
  assumes "scan_escape s = Some (c, r)"
  shows "(\<exists>n. r = drop n s) \<and> c < 0x110000"
    and "is_high_surrogate c \<Longrightarrow> starts_with r [92, 117] \<Longrightarrow> read_hex4 (drop 2 r) = Some (d, r')
      \<Longrightarrow> \<not> is_low_surrogate d"
    and "is_low_surrogate c \<Longrightarrow> \<exists>t r'. s = 117 # t \<and> read_hex4 t = Some (c, r')"
proof -
  obtain e t where s: "s = e # t"
    using assms by (cases s) auto
  consider "e = 117" "scan_unicode t = Some (c, r)" | "r = t" "c < 128" "e \<noteq> 117"
    using assms s by (auto split: if_splits)
  note cs = this
  show "(\<exists>n. r = drop n s) \<and> c < 0x110000"
  proof (cases rule: cs [case_names unicode short])
    case unicode
    then have "r = drop 5 s \<or> r = drop 11 s" "c < 0x110000"
      using scan_unicode_scalar s by auto
    then show ?thesis by blast
  next
    case short
    then have "r = drop 1 s" using s by simp
    with short show ?thesis by (intro conjI exI [of _ 1]) simp_all
  qed
  show "is_high_surrogate c \<Longrightarrow> starts_with r [92, 117] \<Longrightarrow> read_hex4 (drop 2 r) = Some (d, r')
      \<Longrightarrow> \<not> is_low_surrogate d"
    using cs by cases (auto dest: scan_unicode_high simp: is_high_surrogate_def)
  show "is_low_surrogate c \<Longrightarrow> \<exists>t r'. s = 117 # t \<and> read_hex4 t = Some (c, r')"
    using cs by cases (use s in \<open>auto dest: scan_unicode_low simp: is_low_surrogate_def\<close>)
qed

lemma scan_chars_scalar:
  "scan_chars s = Some (t, r) \<Longrightarrow> scalar_text s \<Longrightarrow>
    scalar_text r \<and> pair_free t \<and>
    (t \<noteq> [] \<and> is_low_surrogate (hd t) \<longrightarrow>
       starts_with s [92, 117] \<and> (\<exists>r'. read_hex4 (drop 2 s) = Some (hd t, r')))"
proof (induction s arbitrary: t rule: scan_chars.induct)
  case (2 c s)
  consider "c = 34" | e u v where "c = 92" "scan_escape s = Some (e, u)" "scan_chars u = Some (v, r)"
      "t = e # v"
    | v where "c \<noteq> 34" "c \<noteq> 92" "\<not> c < 32" "scan_chars s = Some (v, r)" "t = c # v"
    using 2(3) by (auto split: if_splits option.splits)
  then show ?case
  proof cases
    case 1
    with 2 show ?thesis by auto
  next
    case (2 e u v)
    note esc = scan_escape_scalar [OF 2(2)]
    have "scalar_text u"
      using esc(1) \<open>scalar_text (c # s)\<close> scalar_drop by auto
    with 2 "2.IH"(1) [OF _ 2(1,2) refl] have ih: "scalar_text r" "pair_free v"
      "v \<noteq> [] \<and> is_low_surrogate (hd v) \<longrightarrow>
         starts_with u [92, 117] \<and> (\<exists>r'. read_hex4 (drop 2 u) = Some (hd v, r'))"
      by auto
    with esc(2) have "\<not> (is_high_surrogate e \<and> v \<noteq> [] \<and> is_low_surrogate (hd v))"
      by blast
    with 2 ih esc(1,3) show ?thesis
      by (auto simp: starts_with_Cons)
  next
    case (3 v)
    with "2.IH"(2) [OF 3(1,2)] 2 show ?thesis
      by (auto simp: surrogate_cases)
  qed
qed simp

text \<open>What one scanned value satisfies, with the hooks of the program.\<close>

fun scanned_ok :: "json \<Rightarrow> bool" where
  "scanned_ok (JInt n) = printable (JInt n)"
| "scanned_ok (JFloat x) = is_finite x"
| "scanned_ok (JStr s) = pair_free s"
| "scanned_ok (JList vs) = list_all scanned_ok vs"
| "scanned_ok (JObj kvs) =
     (dict_ok kvs \<and> list_all (\<lambda>(k, v). pair_free k \<and> scanned_ok v) kvs)"
| "scanned_ok _ = True"

lemma scanned_json_ok: "scanned_ok v \<Longrightarrow> no_unpaired_surrogates v \<Longrightarrow> json_ok v"
proof (induction v rule: json_induct)
  case (Obj kvs)
  then show ?case by (fastforce simp: list_all_iff intro: pair_free_paired)
qed (auto simp: list_all_iff intro: pair_free_paired)

lemma scanned_printable: "scanned_ok v \<Longrightarrow> printable v"
proof (induction v rule: json_induct)
  case (Obj kvs)
  then show ?case by (fastforce simp: list_all_iff)
qed (auto simp: list_all_iff)

lemma dec_value_bound: "list_all is_dec_digit s \<Longrightarrow> dec_value s < 10 ^ length s"
proof (induction s rule: rev_induct)
  case (snoc c s)
  then have "c - 48 < 10" "dec_value s < 10 ^ length s"
    by (auto simp: is_dec_digit_def)
  then show ?case by simp
qed (simp add: dec_value_def)

lemma dec_digits_length: "n < 10 ^ k \<Longrightarrow> 0 < k \<Longrightarrow> length (dec_digits n) \<le> k"
proof (induction n arbitrary: k rule: dec_digits.induct)
  case (1 n)
  show ?case
  proof (cases "n < 10")
    case True
    with 1 show ?thesis by (subst dec_digits.simps) simp
  next
    case False
    with 1 obtain j where k: "k = Suc j" "0 < j"
      by (cases k; cases "k - 1") auto
    then have "n div 10 < 10 ^ j"
      using 1 by (simp add: less_mult_imp_div_less mult.commute)
    with False 1 k show ?thesis by (subst dec_digits.simps) simp
  qed
qed

lemma match_number_digits:
  assumes "match_number s = Some (t, False, r)"
  shows "\<exists>ds. (t = ds \<or> t = 45 # ds) \<and> ds \<noteq> [] \<and> list_all is_dec_digit ds"
proof -
  have tw: "list_all is_dec_digit (takeWhile is_dec_digit u)" for u
    by (induction u) auto
  from assms have "\<exists>r'. match_int s = Some (t, r')"
    by (auto simp: match_number_def split: option.splits prod.splits)
  then obtain r' where m: "match_int s = Some (t, r')" by blast
  show ?thesis
  proof (cases "starts_with s [45]")
    case True
    then obtain u where "s = 45 # u"
      by (auto simp: starts_with_Cons)
    with m tw [of u] show ?thesis
      by (auto simp: match_int_def Let_def is_dec_digit_def split: list.splits if_splits)
  next
    case False
    with m tw [of s] show ?thesis
      by (auto simp: match_int_def Let_def is_dec_digit_def split: list.splits if_splits)
  qed
qed

lemma scan_number_scanned:
  assumes "scan_number (finite_float I) s = Some (v, r)" "scalar_text s"
  shows "scanned_ok v \<and> scalar_text r"
proof -
  obtain t b where m: "match_number s = Some (t, b, r)"
    using assms(1) by (auto simp: scan_number_def split: option.splits bool.splits if_splits)
  have "scalar_text r"
  proof -
    obtain i w where i: "match_int s = Some (i, w)"
      using m by (auto simp: match_number_def split: option.splits)
    have "scalar_text w"
      using i assms(2) scalar_drop [OF assms(2), of "Suc 0"]
      by (auto simp: match_int_def Let_def split: list.splits if_splits intro!: scalar_rest)
    then have "scalar_text (snd (match_frac w))"
      by (cases w) (auto intro!: scalar_rest)
    then have "scalar_text (snd (match_exp (snd (match_frac w))))"
      by (cases "snd (match_frac w)") (auto simp: Let_def intro!: scalar_rest)
    with m i show ?thesis
      by (auto simp: match_number_def split: prod.splits)
  qed
  moreover have "scanned_ok v"
  proof (cases b)
    case True
    with m assms show ?thesis
      by (auto simp: scan_number_def finite_float_def Let_def split: option.splits if_splits)
  next
    case False
    with m have "match_number s = Some (t, False, r)" by simp
    from match_number_digits [OF this] obtain ds where ds: "t = ds \<or> t = 45 # ds" "ds \<noteq> []"
      "list_all is_dec_digit ds" by blast
    have "length (dec_digits (dec_value ds)) \<le> length ds"
      using ds dec_value_bound by (intro dec_digits_length) auto
    with m assms ds False show ?thesis
      by (auto simp: scan_number_def int_of_text_def starts_with_Cons is_dec_digit_def
          split: if_splits)
  qed
  ultimately show ?thesis by blast
qed

lemma scan_scanned_aux:
  "(\<forall>s v r. scan_value reject_duplicate_keys (finite_float I) n s = Some (v, r) \<longrightarrow> scalar_text s
      \<longrightarrow> scanned_ok v \<and> scalar_text r) \<and>
   (\<forall>s vs r. scan_items reject_duplicate_keys (finite_float I) n s = Some (vs, r) \<longrightarrow> scalar_text s
      \<longrightarrow> list_all scanned_ok vs \<and> scalar_text r) \<and>
   (\<forall>s ps r. scan_members reject_duplicate_keys (finite_float I) n s = Some (ps, r) \<longrightarrow> scalar_text s
      \<longrightarrow> list_all (\<lambda>(k, v). pair_free k \<and> scanned_ok v) ps \<and> scalar_text r)"
proof (induction n)
  case (Suc n)
  let ?v = "scan_value reject_duplicate_keys (finite_float I)"
  let ?i = "scan_items reject_duplicate_keys (finite_float I)"
  let ?m = "scan_members reject_duplicate_keys (finite_float I)"
  have v: "?v n s = Some (v, r) \<Longrightarrow> scalar_text s \<Longrightarrow> scanned_ok v \<and> scalar_text r"
    and i: "?i n s = Some (vs, r) \<Longrightarrow> scalar_text s \<Longrightarrow> list_all scanned_ok vs \<and> scalar_text r"
    and m: "?m n s = Some (ps, r) \<Longrightarrow> scalar_text s \<Longrightarrow>
      list_all (\<lambda>(k, v). pair_free k \<and> scanned_ok v) ps \<and> scalar_text r" for s v r vs ps
    using Suc.IH by blast+
  have "scanned_ok v \<and> scalar_text r" if a: "?v (Suc n) s = Some (v, r)" "scalar_text s" for s v r
  proof -
    have "scalar_text (tl s)" "scalar_text (skip_ws (tl s))"
      using a(2) by (auto intro: scalar_rest)
    with a show ?thesis
      by (auto simp: scan_simps Let_def reject_duplicate_keys_eq scalar_rest
          split: if_splits option.splits
          dest!: scan_chars_scalar i m dest: scan_number_scanned)
  qed
  moreover have "list_all scanned_ok vs \<and> scalar_text r"
    if a: "?i (Suc n) s = Some (vs, r)" "scalar_text s" for s vs r
    using a by (auto simp: scan_simps Let_def scalar_rest split: if_splits option.splits dest!: v i)
  moreover have "list_all (\<lambda>(k, v). pair_free k \<and> scanned_ok v) ps \<and> scalar_text r"
    if a: "?m (Suc n) s = Some (ps, r)" "scalar_text s" for s ps r
    using a by (auto simp: scan_simps Let_def scalar_rest split: if_splits option.splits
        dest!: scan_chars_scalar v m)
  ultimately show ?case by blast
qed (simp add: scan_simps)

lemma scan_value_scanned:
  "scan_value reject_duplicate_keys (finite_float I) n s = Some (v, r) \<Longrightarrow> scalar_text s \<Longrightarrow>
    scanned_ok v \<and> scalar_text r"
  using scan_scanned_aux [of I n] by blast

text \<open>
  \<open>strict_json_loads\<close> on decoded text returns a value with distinct keys, valid
  strings, finite floats, and integers that print again.
\<close>

lemma strict_json_loads_ok:
  assumes "strict_json_loads I text = Inr v" "scalar_text text"
  shows "json_ok v \<and> printable v"
proof -
  have "json_loads reject_duplicate_keys (finite_float I) text = Some v" "no_unpaired_surrogates v"
    using assms(1) by (auto simp: strict_json_loads_def split: if_splits option.splits)
  then obtain r where "scan_value reject_duplicate_keys (finite_float I) (2 * length text + 1)
      (skip_ws text) = Some (v, r)" "no_unpaired_surrogates v"
    by (auto simp: json_loads_def split: if_splits option.splits)
  with assms(2) show ?thesis
    by (auto dest!: scan_value_scanned intro: scanned_json_ok scanned_printable scalar_rest)
qed

section \<open>The nesting check measures the nesting of the value\<close>

fun json_depth :: "json \<Rightarrow> nat" where
  "json_depth (JList vs) = Suc (foldr max (map json_depth vs) 0)"
| "json_depth (JObj kvs) = Suc (foldr max (map (\<lambda>(k, v). json_depth v) kvs) 0)"
| "json_depth _ = 0"

lemma foldr_max_le: "foldr max ns (0::nat) \<le> k \<longleftrightarrow> list_all (\<lambda>n. n \<le> k) ns"
  by (induction ns) auto

text \<open>Characters the loop passes over outside a string.\<close>

definition plain :: "pystr \<Rightarrow> bool" where
  "plain p \<longleftrightarrow> list_all (\<lambda>c. c \<notin> {34, 91, 93, 123, 125}) p"

lemma plain_simps [simp]: "plain []" "plain (c # p) \<longleftrightarrow> c \<notin> {34, 91, 93, 123, 125} \<and> plain p"
  "plain (p @ q) \<longleftrightarrow> plain p \<and> plain q"
  by (auto simp: plain_def)

lemma nesting_plain: "plain p \<Longrightarrow> nesting_loop mx d False False (p @ r) = nesting_loop mx d False False r"
  by (induction p) auto

lemma nesting_skip_ws [simp]: "nesting_loop mx d False False (skip_ws s) = nesting_loop mx d False False s"
proof -
  have "plain (takeWhile json_ws s)"
    by (induction s) (auto simp: json_ws_def)
  from nesting_plain [OF this, of mx d "skip_ws s"] show ?thesis by simp
qed

lemma plain_digits: "plain (takeWhile is_dec_digit s)"
  by (induction s) (auto simp: is_dec_digit_def)

lemma match_int_split: "match_int s = Some (t, r) \<Longrightarrow> s = t @ r \<and> plain t"
  using plain_digits
  by (cases "starts_with s [45]")
    (auto simp: match_int_def Let_def starts_with_Cons is_dec_digit_def
      split: list.splits if_splits)

lemma match_frac_split: "s = fst (match_frac s) @ snd (match_frac s) \<and> plain (fst (match_frac s))"
  by (cases s) (auto simp: plain_digits)

lemma match_exp_split: "s = fst (match_exp s) @ snd (match_exp s) \<and> plain (fst (match_exp s))"
  by (cases s; cases "tl s") (auto simp: plain_digits Let_def starts_with_Cons)

lemma scan_number_split:
  assumes "scan_number fh s = Some (v, r)" shows "\<exists>t. s = t @ r \<and> plain t \<and> json_depth v = 0"
proof -
  obtain t b where m: "match_number s = Some (t, b, r)" "json_depth v = 0"
    using assms by (auto simp: scan_number_def split: option.splits bool.splits if_splits)
  then obtain i w where i: "match_int s = Some (i, w)"
    by (auto simp: match_number_def split: option.splits)
  show ?thesis
    using m i match_int_split [OF i] match_frac_split [of w] match_exp_split [of "snd (match_frac w)"]
    by (auto simp: match_number_def split: prod.splits intro!: exI [of _ t])
qed

lemma hex_value_char: "hex_value c = Some d \<Longrightarrow> c \<noteq> 34 \<and> c \<noteq> 92"
  by (auto simp: hex_value_def split: if_splits)

lemma nesting_hex4:
  assumes "read_hex4 s = Some (u, r)"
  shows "nesting_loop mx d True False s = nesting_loop mx d True False r"
proof -
  have "\<exists>p. s = p @ r \<and> list_all (\<lambda>c. c \<noteq> 34 \<and> c \<noteq> 92) p"
    using assms
    by (cases s rule: read_hex4.cases)
      (auto split: option.splits dest!: hex_value_char intro: exI [of _ "[_, _, _, _]"])
  moreover have "nesting_loop mx d True False (p @ r) = nesting_loop mx d True False r"
    if "list_all (\<lambda>c. c \<noteq> 34 \<and> c \<noteq> 92) p" for p
    using that by (induction p) auto
  ultimately show ?thesis by blast
qed

lemma scan_unicode_cases:
  assumes "scan_unicode s = Some (e, r)"
  obtains u where "read_hex4 s = Some (u, r)"
  | u u2 w where "read_hex4 s = Some (u, 92 # 117 # w)" "read_hex4 w = Some (u2, r)"
proof -
  obtain u r1 where u: "read_hex4 s = Some (u, r1)"
    using assms by (cases "read_hex4 s") (auto simp: scan_unicode_def)
  show thesis
  proof (cases "0xD800 \<le> u \<and> u \<le> 0xDBFF \<and> starts_with r1 [92, 117]")
    case False
    with assms u have "r = r1" by (auto simp: scan_unicode_def)
    with u that(1) show thesis by simp
  next
    case True
    then obtain w where w: "r1 = 92 # 117 # w" by (auto simp: starts_with_Cons)
    then obtain u2 r2 where u2: "read_hex4 w = Some (u2, r2)"
      using assms u True by (cases "read_hex4 w") (auto simp: scan_unicode_def)
    with assms u True w have "r = r1 \<or> r = r2"
      by (simp add: scan_unicode_def split: if_splits)
    with u u2 w that show thesis by blast
  qed
qed

lemma nesting_unicode:
  assumes "scan_unicode s = Some (e, r)"
  shows "nesting_loop mx d True False s = nesting_loop mx d True False r"
  using assms
proof (cases rule: scan_unicode_cases)
  case (1 u)
  then show ?thesis by (rule nesting_hex4)
next
  case (2 u u2 w)
  from nesting_hex4 [OF 2(1)] nesting_hex4 [OF 2(2)] show ?thesis by simp
qed

lemma nesting_escape:
  assumes "scan_escape s = Some (e, r)"
  shows "nesting_loop mx d True True s = nesting_loop mx d True False r"
proof -
  obtain c t where s: "s = c # t"
    using assms by (cases s) auto
  consider "r = t" | "scan_unicode t = Some (e, r)"
    using assms s by (auto split: if_splits)
  then show ?thesis
    by cases (simp_all add: s nesting_unicode)
qed

lemma nesting_string:
  "scan_chars s = Some (t, r) \<Longrightarrow> nesting_loop mx d True False s = nesting_loop mx d False False r"
proof (induction s arbitrary: t rule: scan_chars.induct)
  case (2 c s)
  consider "c = 34" "s = r" | e u v where "c = 92" "scan_escape s = Some (e, u)" "scan_chars u = Some (v, r)"
    | v where "c \<noteq> 34" "c \<noteq> 92" "\<not> c < 32" "scan_chars s = Some (v, r)"
    using 2(3) by (auto split: if_splits option.splits)
  then show ?case
  proof cases
    case (2 e u v)
    with "2.IH"(1) [OF _ 2(1,2) refl 2(3)] nesting_escape [OF 2(2)] show ?thesis
      by simp
  next
    case (3 v)
    with "2.IH"(2) [OF 3] show ?thesis by simp
  qed simp
qed simp

lemma nesting_string_start:
  assumes "starts_with s [34]" "scan_chars (tl s) = Some (t, r)"
  shows "nesting_loop mx d False False s = nesting_loop mx d False False r"
proof -
  obtain u where "s = 34 # u"
    using assms(1) by (auto simp: starts_with_Cons)
  with nesting_string [of u t r mx d] assms(2) show ?thesis by simp
qed

lemma nesting_word:
  "starts_with s p \<Longrightarrow> plain p \<Longrightarrow>
    nesting_loop mx d False False (drop (length p) s) = nesting_loop mx d False False s"
  by (auto simp: starts_with_iff nesting_plain)

lemma nesting_words:
  "starts_with s (lit ''null'') \<Longrightarrow> nesting_loop mx d False False (drop 4 s) = nesting_loop mx d False False s"
  "starts_with s (lit ''true'') \<Longrightarrow> nesting_loop mx d False False (drop 4 s) = nesting_loop mx d False False s"
  "starts_with s (lit ''false'') \<Longrightarrow> nesting_loop mx d False False (drop 5 s) = nesting_loop mx d False False s"
  using nesting_word [where s = s and p = "lit ''null''"] nesting_word [where s = s and p = "lit ''true''"]
    nesting_word [where s = s and p = "lit ''false''"]
  by (simp_all add: lit_words numeral_eq_Suc)

lemma nesting_open:
  "starts_with s [91] \<or> starts_with s [123] \<Longrightarrow> nesting_loop mx d False False s \<longleftrightarrow>
    d + 1 \<le> int mx \<and> nesting_loop mx (d + 1) False False (tl s)"
  by (auto simp: starts_with_Cons split: if_splits)

lemma nesting_close:
  "starts_with s [93] \<or> starts_with s [125] \<Longrightarrow>
    nesting_loop mx d False False s = nesting_loop mx (d - 1) False False (tl s)"
  by (auto simp: starts_with_Cons)

lemma nesting_sep:
  "starts_with s [44] \<or> starts_with s [58] \<Longrightarrow>
    nesting_loop mx d False False (tl s) = nesting_loop mx d False False s"
  by (auto simp: starts_with_Cons)

text \<open>
  One scanned value at depth \<open>d\<close>: the loop gets past it exactly if the value's nesting
  fits under the limit.
\<close>

lemma scan_nesting_aux:
  assumes oh: "\<And>ps kvs. oh ps = Some kvs \<Longrightarrow> kvs = ps"
  shows
  "(\<forall>s v r d. scan_value oh fh n s = Some (v, r) \<longrightarrow> d \<le> int mx \<longrightarrow>
      nesting_loop mx d False False s =
        (d + int (json_depth v) \<le> int mx \<and> nesting_loop mx d False False r)) \<and>
   (\<forall>s vs r d. scan_items oh fh n s = Some (vs, r) \<longrightarrow> d \<le> int mx \<longrightarrow>
      nesting_loop mx d False False s =
        (list_all (\<lambda>v. d + int (json_depth v) \<le> int mx) vs \<and> nesting_loop mx (d - 1) False False r)) \<and>
   (\<forall>s ps r d. scan_members oh fh n s = Some (ps, r) \<longrightarrow> d \<le> int mx \<longrightarrow>
      nesting_loop mx d False False s =
        (list_all (\<lambda>(k, v). d + int (json_depth v) \<le> int mx) ps \<and> nesting_loop mx (d - 1) False False r))"
proof (induction n)
  case (Suc n)
  let ?N = "\<lambda>d. nesting_loop mx d False False"
  have v: "scan_value oh fh n s = Some (v, r) \<Longrightarrow> d \<le> int mx \<Longrightarrow>
      ?N d s = (d + int (json_depth v) \<le> int mx \<and> ?N d r)"
    and i: "scan_items oh fh n s = Some (vs, r) \<Longrightarrow> d \<le> int mx \<Longrightarrow>
      ?N d s = (list_all (\<lambda>v. d + int (json_depth v) \<le> int mx) vs \<and> ?N (d - 1) r)"
    and m: "scan_members oh fh n s = Some (ps, r) \<Longrightarrow> d \<le> int mx \<Longrightarrow>
      ?N d s = (list_all (\<lambda>(k, v). d + int (json_depth v) \<le> int mx) ps \<and> ?N (d - 1) r)"
    for s v r d vs ps
    using Suc.IH by blast+
  have depth: "d + int (Suc (foldr max ns 0)) \<le> int mx \<longleftrightarrow>
      d + 1 \<le> int mx \<and> list_all (\<lambda>k. (d + 1) + int k \<le> int mx) ns" for d ns
  proof (induction ns)
    case (Cons k ns)
    then show ?case by (auto simp: max_def)
  qed simp
  have "?N d s = (d + int (json_depth v) \<le> int mx \<and> ?N d r)"
    if a: "scan_value oh fh (Suc n) s = Some (v, r)" and d: "d \<le> int mx" for s v r d
  proof -
    consider (str) "starts_with s [34]" | (obj) "starts_with s [123]" | (list) "starts_with s [91]"
      | (word) "\<not> starts_with s [34]" "\<not> starts_with s [123]" "\<not> starts_with s [91]"
      by blast
    then show ?thesis
    proof cases
      case str
      with a obtain t where "scan_chars (tl s) = Some (t, r)" "v = JStr t"
        by (auto simp: scan_simps split: option.splits)
      with d str nesting_string_start [of s t r mx d] show ?thesis by simp
    next
      case obj
      show ?thesis
      proof (cases "starts_with (skip_ws (tl s)) [125]")
        case True
        with a obj oh [of "[]"] have "v = JObj []" "r = tl (skip_ws (tl s))"
          by (auto simp: scan_simps Let_def starts_with_Cons split: option.splits)
        with obj True nesting_open [of s mx d] nesting_close [of "skip_ws (tl s)" mx "d + 1"]
        show ?thesis by simp
      next
        case False
        with a obj oh obtain ps where ps: "scan_members oh fh n (skip_ws (tl s)) = Some (ps, r)"
            "v = JObj ps"
          by (auto simp: scan_simps Let_def starts_with_Cons split: option.splits)
        with obj nesting_open [of s mx d] m [OF ps(1), of "d + 1"]
          depth [of d "map (\<lambda>(k, v). json_depth v) ps"] show ?thesis
          by (auto simp: list_all_iff case_prod_beta)
      qed
    next
      case list
      show ?thesis
      proof (cases "starts_with (skip_ws (tl s)) [93]")
        case True
        with a list have "v = JList []" "r = tl (skip_ws (tl s))"
          by (auto simp: scan_simps Let_def starts_with_Cons split: option.splits)
        with list True nesting_open [of s mx d] nesting_close [of "skip_ws (tl s)" mx "d + 1"]
        show ?thesis by simp
      next
        case False
        with a list obtain vs where vs: "scan_items oh fh n (skip_ws (tl s)) = Some (vs, r)"
            "v = JList vs"
          by (auto simp: scan_simps Let_def starts_with_Cons split: option.splits)
        with list nesting_open [of s mx d] i [OF vs(1), of "d + 1"] depth [of d "map json_depth vs"]
        show ?thesis by (auto simp: list.pred_map o_def)
      qed
    next
      case word
      with a have "?N d r = ?N d s \<and> json_depth v = 0"
        by (auto simp: scan_simps nesting_words nesting_plain split: if_splits
            dest!: scan_number_split)
      with d show ?thesis by simp
    qed
  qed
  moreover have "?N d s =
      (list_all (\<lambda>v. d + int (json_depth v) \<le> int mx) vs \<and> ?N (d - 1) r)"
    if a: "scan_items oh fh (Suc n) s = Some (vs, r)" and d: "d \<le> int mx" for s vs r d
  proof -
    obtain w t where w: "scan_value oh fh n s = Some (w, t)"
      using a by (auto simp: scan_simps split: option.splits)
    from a w consider "starts_with (skip_ws t) [93]" "vs = [w]" "r = tl (skip_ws t)"
      | us where "starts_with (skip_ws t) [44]"
          "scan_items oh fh n (skip_ws (tl (skip_ws t))) = Some (us, r)" "vs = w # us"
      by (auto simp: scan_simps Let_def split: option.splits if_splits)
    then show ?thesis
    proof cases
      case 1
      with v [OF w d] nesting_close [of "skip_ws t" mx d] show ?thesis by simp
    next
      case (2 us)
      with v [OF w d] i [OF 2(2) d] nesting_sep [of "skip_ws t" mx d] show ?thesis by simp
    qed
  qed
  moreover have "?N d s =
      (list_all (\<lambda>(k, v). d + int (json_depth v) \<le> int mx) ps \<and> ?N (d - 1) r)"
    if a: "scan_members oh fh (Suc n) s = Some (ps, r)" and d: "d \<le> int mx" for s ps r d
  proof -
    obtain k t w y where k: "starts_with s [34]" "scan_chars (tl s) = Some (k, t)"
        "starts_with (skip_ws t) [58]"
        "scan_value oh fh n (skip_ws (tl (skip_ws t))) = Some (w, y)"
      using a by (auto simp: scan_simps Let_def split: option.splits if_splits)
    have start: "?N d s = (d + int (json_depth w) \<le> int mx \<and> ?N d y)"
      using nesting_string_start [OF k(1,2), of mx d] nesting_sep [of "skip_ws t" mx d] k(3)
        v [OF k(4) d] by simp
    from a k consider "starts_with (skip_ws y) [125]" "ps = [(k, w)]" "r = tl (skip_ws y)"
      | us where "starts_with (skip_ws y) [44]"
          "scan_members oh fh n (skip_ws (tl (skip_ws y))) = Some (us, r)" "ps = (k, w) # us"
      by (auto simp: scan_simps Let_def split: option.splits if_splits)
    then show ?thesis
    proof cases
      case 1
      with start nesting_close [of "skip_ws y" mx d] show ?thesis by simp
    next
      case (2 us)
      with start m [OF 2(2) d] nesting_sep [of "skip_ws y" mx d] show ?thesis by simp
    qed
  qed
  ultimately show ?case by blast
qed (simp add: scan_simps)

lemma duplicate_hook_id: "reject_duplicate_keys ps = Some kvs \<Longrightarrow> kvs = ps"
  by (simp add: reject_duplicate_keys_eq split: if_splits)

lemmas scan_nesting = scan_nesting_aux [OF duplicate_hook_id, THEN conjunct1, rule_format]

lemma strict_json_loads_depth:
  assumes "strict_json_loads I text = Inr v"
  shows "json_depth v \<le> max_json_nesting"
proof -
  have n: "nesting_loop max_json_nesting 0 False False text"
    and "json_loads reject_duplicate_keys (finite_float I) text = Some v"
    using assms by (auto simp: strict_json_loads_def check_json_nesting_def split: if_splits option.splits)
  then obtain r where r: "scan_value reject_duplicate_keys (finite_float I) (2 * length text + 1)
      (skip_ws text) = Some (v, r)"
    by (auto simp: json_loads_def split: if_splits option.splits)
  have "nesting_loop max_json_nesting 0 False False (skip_ws text)
      = (0 + int (json_depth v) \<le> int max_json_nesting \<and> nesting_loop max_json_nesting 0 False False r)"
    by (rule scan_nesting [OF _ r]) simp_all
  with n show ?thesis by simp
qed

text \<open>Conversely the canonical text of a value of bounded depth passes the check.\<close>

lemma dumps_nesting:
  assumes "json_ok v" "printable v" "list_all (repr_ok fr fh) (json_floats v)"
    "json_depth v \<le> max_json_nesting"
  shows "check_json_nesting (dumps fr v)"
proof -
  have sc: "scans reject_duplicate_keys fh fr v"
    by (rule scan_dumps) (use assms in \<open>auto simp: reject_duplicate_keys_eq dict_ok_def keys_def\<close>)
  have "json_depth (norm_json v) = json_depth v"
  proof (induction v rule: json_induct)
    case (List vs)
    then have "map (json_depth \<circ> norm_json) vs = map json_depth vs" by simp
    then show ?case by (simp only: norm_json.simps json_depth.simps map_map)
  next
    case (Obj kvs)
    have "foldr max (map (json_depth \<circ> norm_json \<circ> snd) (sort_key fst kvs)) 0 \<le> k \<longleftrightarrow>
        foldr max (map (json_depth \<circ> snd) kvs) 0 \<le> k" for k
      using Obj by (auto simp: foldr_max_le list_all_iff)
    then have "foldr max (map (json_depth \<circ> norm_json \<circ> snd) (sort_key fst kvs)) 0
        = foldr max (map (json_depth \<circ> snd) kvs) 0"
      by (meson order_antisym order_refl)
    then show ?case by (simp add: case_prod_beta' o_def)
  qed auto
  moreover from sc have "scan_value reject_duplicate_keys fh (2 * length (dumps fr v @ []) + 1)
      (dumps fr v @ []) = Some (norm_json v, [])"
    unfolding scans_def by (meson order_refl stops_simps(1))
  ultimately show ?thesis
    using scan_nesting [where fh = fh and s = "dumps fr v @ []" and v = "norm_json v" and r = "[]"
        and d = 0 and mx = max_json_nesting] assms(4)
    by (simp add: check_json_nesting_def)
qed

end
