(* ===== verification/Canonical.thy ===== *)
theory Canonical
  imports Hashing
begin

text \<open>
  What the canonical bytes and the digest over them promise: reading the bytes back
  gives the value, the bytes determine the value up to the order of keys and do not
  depend on that order, and the digest binds the value up to a collision of the two
  texts at hand.
\<close>

section \<open>Bytes of the canonical text\<close>

text \<open>The characters of the canonical text are ASCII and not control characters.\<close>

definition visible :: "pystr \<Rightarrow> bool" where
  "visible s \<longleftrightarrow> list_all (\<lambda>c. 32 \<le> c \<and> c < 128) s"

lemma visible_simps [simp]:
  "visible []" "visible (c # s) \<longleftrightarrow> 32 \<le> c \<and> c < 128 \<and> visible s"
  "visible (s @ t) \<longleftrightarrow> visible s \<and> visible t"
  by (auto simp: visible_def)

lemma visible_ascii: "visible s \<Longrightarrow> is_ascii s"
  by (induction s) auto

lemma visible_append_concat: "(\<And>s. s \<in> set ss \<Longrightarrow> visible s) \<Longrightarrow> visible (concat ss)"
  by (induction ss) auto

lemma visible_join: "visible sep \<Longrightarrow> (\<And>s. s \<in> set ss \<Longrightarrow> visible s) \<Longrightarrow> visible (join_with sep ss)"
  by (induction sep ss rule: join_with.induct) auto

lemma hex_digit_ascii: "d < 16 \<Longrightarrow> 32 \<le> hex_digit d \<and> hex_digit d < 128"
  by (simp add: hex_digit_def)

lemma visible_hex4: "visible (hex4 u)"
  by (simp add: hex4_def hex_digit_ascii)

lemma visible_esc: "visible (esc_char c)"
  by (auto simp: esc_char_def visible_hex4)

lemma visible_dumps_str: "visible (dumps_str s)"
  by (auto simp: dumps_str_def visible_esc intro!: visible_append_concat)

lemma visible_dec_digits: "visible (dec_digits n)"
  using dec_digits_digit [of n] by (auto simp: visible_def list_all_iff is_dec_digit_def)

lemma visible_float_text:
  assumes "float_text t" shows "visible t"
proof -
  have d: "visible (takeWhile is_dec_digit s)" for s
    by (induction s) (auto simp: is_dec_digit_def)
  obtain i r where i: "match_int t = Some (i, r)"
    using assms by (auto simp: float_text_def match_number_def split: option.splits)
  have "visible i"
    using i d by (auto simp: match_int_def Let_def is_dec_digit_def split: list.splits if_splits)
  moreover have "visible (fst (match_frac s))" for s
    by (cases s) (auto simp: d)
  moreover have "visible (fst (match_exp s))" for s
    by (cases s; cases "tl s") (auto simp: d Let_def starts_with_Cons)
  ultimately show ?thesis
    using assms i
    by (simp add: float_text_def match_number_def case_prod_beta) (metis visible_simps(3))
qed

lemma visible_dumps:
  "list_all (\<lambda>x. float_text (fr x)) (json_floats v) \<Longrightarrow> visible (dumps fr v)"
proof (induction v rule: json_induct)
  case (Int n)
  show ?case by (auto simp: int_text_def visible_dec_digits)
next
  case (List vs)
  then show ?case by (auto simp: list_all_iff intro!: visible_join)
next
  case (Obj kvs)
  then show ?case by (fastforce simp: list_all_iff visible_dumps_str intro!: visible_join)
qed (auto simp: lit_words visible_dumps_str visible_float_text)

lemma is_ascii_dumps:
  "list_all (\<lambda>x. float_text (fr x)) (json_floats v) \<Longrightarrow> is_ascii (dumps fr v)"
  by (rule visible_ascii [OF visible_dumps])

lemma is_ascii_dec_digits: "is_ascii (dec_digits n)"
  by (rule visible_ascii [OF visible_dec_digits])

lemma unat_ascii: "is_ascii s \<Longrightarrow> map unat (map of_nat s :: pybytes) = s"
  by (induction s) (auto simp: unat_of_nat)

lemma of_nat_ascii_inj:
  "is_ascii s \<Longrightarrow> is_ascii t \<Longrightarrow> (map of_nat s :: pybytes) = map of_nat t \<Longrightarrow> s = t"
  by (metis unat_ascii)

section \<open>Round trip\<close>

text \<open>
  What is relied on of \<open>float.__repr__\<close> and \<open>float\<close> for the floats of one value:
  the printed text is a JSON number with a fraction or an exponent, and reads back.
\<close>

definition float_codec :: "interp \<Rightarrow> json \<Rightarrow> bool" where
  "float_codec I v \<longleftrightarrow>
     list_all (\<lambda>x. float_text (float_repr I x) \<and> float_of I (float_repr I x) = x) (json_floats v)"

lemma printable_floats: "printable v \<Longrightarrow> x \<in> set (json_floats v) \<Longrightarrow> is_finite x"
  by (induction v rule: json_induct) (auto simp: list_all_iff)

lemma float_codec_repr:
  "float_codec I v \<Longrightarrow> printable v \<Longrightarrow> list_all (repr_ok (float_repr I) (finite_float I)) (json_floats v)"
  by (auto simp: float_codec_def list_all_iff repr_ok_def finite_float_def Let_def
      dest: printable_floats)

lemma canonical_json_bytes_Inr:
  "canonical_json_bytes I v = Inr bs \<longleftrightarrow> printable v \<and> bs = map of_nat (dumps (float_repr I) v)"
  by (auto simp: canonical_json_bytes_def)

lemma float_codec_ascii: "float_codec I v \<Longrightarrow> is_ascii (dumps (float_repr I) v)"
  by (rule is_ascii_dumps) (auto simp: float_codec_def list_all_iff)

lemma loads_dumps:
  assumes "json_ok v" "printable v" "float_codec I v"
  shows "json_loads reject_duplicate_keys (finite_float I) (dumps (float_repr I) v) = Some (norm_json v)"
  by (rule json_loads_dumps)
    (use assms float_codec_repr in \<open>auto simp: reject_duplicate_keys_eq dict_ok_def keys_def\<close>)

lemma scalar_paired: "scalar_text s \<Longrightarrow> paired_surrogates s"
  by (induction s rule: paired_surrogates.induct) (auto simp: surrogate_cases)

lemma norm_no_unpaired: "json_ok v \<Longrightarrow> no_unpaired_surrogates (norm_json v)"
proof (induction v rule: json_induct)
  case (Obj kvs)
  then show ?case by (fastforce simp: list_all_iff scalar_paired)
qed (auto simp: list_all_iff scalar_paired)

lemma strict_loads_dumps:
  assumes "json_ok v" "printable v" "json_depth v \<le> max_json_nesting" "float_codec I v"
  shows "strict_json_loads I (dumps (float_repr I) v) = Inr (norm_json v)"
proof -
  have "check_json_nesting (dumps (float_repr I) v)"
    by (rule dumps_nesting) (use assms float_codec_repr in auto)
  then show ?thesis
    using loads_dumps [OF assms(1,2,4)] norm_no_unpaired [OF assms(1)]
    by (simp add: strict_json_loads_def)
qed

text \<open>
  Parsing the canonical bytes of a value of the strict domain returns that value
  with its keys sorted: nothing is lost between what is hashed and what is read.
\<close>

theorem canonical_roundtrip:
  assumes "canonical_json_bytes I v = Inr bs" "json_ok v" "json_depth v \<le> max_json_nesting"
    and "float_codec I v"
  shows "strict_json_loads I (map unat bs) = Inr (norm_json v)"
proof -
  have p: "printable v" and bs: "bs = map of_nat (dumps (float_repr I) v)"
    using assms(1) by (simp_all add: canonical_json_bytes_Inr)
  have "map unat bs = dumps (float_repr I) v"
    unfolding bs using float_codec_ascii [OF assms(4)] by (rule unat_ascii)
  then show ?thesis
    using strict_loads_dumps [OF assms(2) p assms(3,4)] by simp
qed

text \<open>A concrete interpreter for the witnesses: one float, and a constant digest.\<close>

definition demo_interp :: interp where
  "demo_interp = \<lparr>float_repr = (\<lambda>x. lit ''0.5''), float_of = (\<lambda>t. Fin False 1 (- 1)),
     sha256 = (\<lambda>bs. replicate 64 48)\<rparr>"

definition demo_value :: json where
  "demo_value = JObj [(lit ''b'', JInt (-7)),
     (lit ''a'', JList [JFloat (Fin False 1 (- 1)), JStr [233, 128512], JNull])]"

lemma demo_value_facts:
  "json_ok demo_value" "json_depth demo_value \<le> max_json_nesting" "printable demo_value"
  "float_codec demo_interp demo_value"
  by (simp_all add: demo_value_def demo_interp_def float_codec_def float_text_def lit_def dict_ok_def
      is_surrogate_def max_json_nesting_def max_str_digits_def dec_digits.simps match_number_def
      match_int_def is_dec_digit_def)

lemma demo_norm_facts:
  "json_ok (norm_json demo_value)" "printable (norm_json demo_value)"
  "float_codec demo_interp (norm_json demo_value)"
  by (simp_all add: demo_value_def demo_interp_def float_codec_def float_text_def lit_def dict_ok_def
      is_surrogate_def max_str_digits_def dec_digits.simps match_number_def
      match_int_def is_dec_digit_def)

theorem canonical_roundtrip_witness:
  "strict_json_loads demo_interp (map unat (map of_nat (dumps (float_repr demo_interp) demo_value) :: pybytes))
    = Inr (norm_json demo_value)"
  by (rule canonical_roundtrip [OF _ demo_value_facts(1,2,4)])
    (simp add: canonical_json_bytes_Inr demo_value_facts)

section \<open>The bytes determine the value up to key order\<close>

text \<open>
  The relation the canonical bytes decide: the same type and value at every leaf (so
  \<open>1\<close>, \<open>1.0\<close> and \<open>True\<close> differ, unlike under \<open>==\<close>), the same order in lists, the
  same keys with related values in objects, in any order.
\<close>

fun json_equiv :: "json \<Rightarrow> json \<Rightarrow> bool" where
  "json_equiv (JList vs) w =
     (case w of JList ws \<Rightarrow>
        length vs = length ws \<and> list_all (\<lambda>(x, y). json_equiv x y) (zip vs ws)
      | _ \<Rightarrow> False)"
| "json_equiv (JObj kvs) w =
     (case w of JObj lws \<Rightarrow>
        length kvs = length lws \<and>
        list_all (\<lambda>(k, x). case map_of lws k of None \<Rightarrow> False | Some y \<Rightarrow> json_equiv x y) kvs
      | _ \<Rightarrow> False)"
| "json_equiv v w = (v = w)"

lemma insort_key_map: "(\<And>x. g (f x) = h x) \<Longrightarrow> map f (insort_key h x xs) = insort_key g (f x) (map f xs)"
  by (induction xs) auto

lemma sort_key_map: "(\<And>x. g (f x) = h x) \<Longrightarrow> map f (sort_key h xs) = sort_key g (map f xs)"
  by (induction xs) (simp_all add: insort_key_map [of g f h])

lemma sort_key_fst_eq:
  assumes "dict_ok a" "dict_ok b"
  shows "sort_key fst a = sort_key fst b \<longleftrightarrow> set a = set b"
proof
  assume "set a = set b"
  with assms show "sort_key fst a = sort_key fst b"
    by (intro map_sorted_distinct_set_unique [of fst])
      (auto simp: dict_ok_def keys_def distinct_map)
qed (metis set_sort)

lemma norm_obj_eq: "norm_json (JObj a) = JObj (sort_key fst (map norm_member a))"
  by (simp add: sort_key_map case_prod_beta)

lemma keys_norm_member [simp]: "keys (map norm_member a) = keys a"
  by (simp add: keys_def case_prod_beta o_def)

lemma dict_same_iff:
  assumes "dict_ok a" "dict_ok b"
  shows "set a = set b \<longleftrightarrow> length a = length b \<and> set a \<subseteq> set b"
proof -
  have "distinct a" "distinct b"
    using assms by (simp_all add: dict_ok_def keys_def distinct_map)
  then show ?thesis
    by (metis card_subset_eq distinct_card dual_order.refl finite_set)
qed

lemma norm_members_subset:
  assumes "dict_ok b"
  shows "set (map norm_member a) \<subseteq> set (map norm_member b) \<longleftrightarrow>
    (\<forall>(k, x) \<in> set a. \<exists>y. map_of b k = Some y \<and> norm_json x = norm_json y)"
proof -
  have "(k, z) \<in> set (map norm_member b) \<longleftrightarrow> (\<exists>y. map_of b k = Some y \<and> z = norm_json y)" for k z
    using dict_ok_in_set [OF assms] by force
  then show ?thesis by fastforce
qed

lemma norm_json_equiv: "json_ok v \<Longrightarrow> json_ok w \<Longrightarrow> norm_json v = norm_json w \<longleftrightarrow> json_equiv v w"
proof (induction v arbitrary: w rule: json_induct)
  case (List vs)
  show ?case
  proof (cases w)
    case (JList ws)
    have "map norm_json vs = map norm_json ws \<longleftrightarrow>
        length vs = length ws \<and> (\<forall>(x, y) \<in> set (zip vs ws). norm_json x = norm_json y)"
    proof -
      have "map norm_json vs = map norm_json ws \<longleftrightarrow>
          list_all2 (=) (map norm_json vs) (map norm_json ws)"
        by (simp only: list.rel_eq)
      also have "\<dots> \<longleftrightarrow> list_all2 (\<lambda>x y. norm_json x = norm_json y) vs ws"
        by (simp only: list.rel_map)
      finally show ?thesis
        by (simp only: list_all2_iff)
    qed
    moreover have "norm_json x = norm_json y \<longleftrightarrow> json_equiv x y" if "(x, y) \<in> set (zip vs ws)" for x y
      using List that set_zip_leftD [OF that] set_zip_rightD [OF that] JList
      by (auto simp: list_all_iff)
    ultimately show ?thesis using JList by (auto simp: list_all_iff)
  qed auto
next
  case (Obj a)
  show ?case
  proof (cases w)
    case (JObj b)
    have ok: "dict_ok a" "dict_ok b" using Obj.prems JObj by simp_all
    have "norm_json (JObj a) = norm_json w \<longleftrightarrow>
        length a = length b \<and> (\<forall>(k, x) \<in> set a. \<exists>y. map_of b k = Some y \<and> norm_json x = norm_json y)"
      using ok sort_key_fst_eq [of "map norm_member a" "map norm_member b"]
        dict_same_iff [of "map norm_member a" "map norm_member b"]
        norm_members_subset [OF ok(2), of a]
      unfolding JObj norm_obj_eq by (simp add: dict_ok_def)
    moreover have "norm_json x = norm_json y \<longleftrightarrow> json_equiv x y"
      if "(k, x) \<in> set a" "map_of b k = Some y" for k x y
      using Obj that map_of_SomeD [OF that(2)] JObj by (fastforce simp: list_all_iff)
    ultimately show ?thesis
      using JObj by (fastforce simp: list_all_iff split: option.splits)
  qed auto
qed (case_tac w; simp)+

lemma dumps_norm: "json_ok u \<Longrightarrow> dumps fr (norm_json u) = dumps fr u"
proof (induction u rule: json_induct)
  case (Obj a)
  let ?a = "sort_key fst a"
  have "sort_key fst (map norm_member ?a) = map norm_member ?a"
    by (rule sort_key_id_if_sorted) (simp add: case_prod_beta o_def)
  moreover have "map (member_text fr) (map norm_member ?a) = map (member_text fr) ?a"
    using Obj by (fastforce simp: list_all_iff)
  ultimately show ?case
    by (simp only: norm_json.simps dumps.simps)
next
  case (List vs)
  then have "map (dumps fr) (map norm_json vs) = map (dumps fr) vs"
    by (auto simp: list_all_iff)
  then show ?case by (simp only: norm_json.simps dumps.simps)
qed auto

lemma canonical_equiv:
  assumes "canonical_json_bytes I v = Inr bs" "canonical_json_bytes I w = Inr cs"
    and "json_ok v" "json_ok w"
  shows "json_equiv v w \<Longrightarrow> bs = cs"
    and "bs = cs \<Longrightarrow> float_codec I v \<Longrightarrow> float_codec I w \<Longrightarrow> json_equiv v w"
proof -
  have p: "printable v" "printable w" and eq: "bs = map of_nat (dumps (float_repr I) v)"
      "cs = map of_nat (dumps (float_repr I) w)"
    using assms(1,2) by (simp_all add: canonical_json_bytes_Inr)
  have n: "norm_json v = norm_json w \<longleftrightarrow> json_equiv v w"
    using assms by (simp add: norm_json_equiv)
  show "bs = cs" if "json_equiv v w"
  proof -
    from n that have "norm_json v = norm_json w" by simp
    then have "dumps fr v = dumps fr w" for fr
      using assms(3,4) by (metis dumps_norm)
    then show ?thesis unfolding eq by simp
  qed
  show "json_equiv v w" if "bs = cs" "float_codec I v" "float_codec I w"
  proof -
    from that have "dumps (float_repr I) v = dumps (float_repr I) w"
      using float_codec_ascii of_nat_ascii_inj unfolding eq by blast
    with loads_dumps [OF assms(3) p(1) that(2)] loads_dumps [OF assms(4) p(2) that(3)] n
    show ?thesis by simp
  qed
qed

text \<open>
  C38: two values of the strict domain have the same canonical bytes exactly if they are
  equal up to the order of keys.
\<close>

theorem canonical_bytes_iff:
  assumes "canonical_json_bytes I v = Inr bs" "canonical_json_bytes I w = Inr cs"
    and "json_ok v" "json_ok w" "float_codec I v" "float_codec I w"
  shows "bs = cs \<longleftrightarrow> json_equiv v w"
  using canonical_equiv [OF assms(1-4)] assms(5,6) by blast

theorem canonical_bytes_iff_witness:
  "(map of_nat (dumps (float_repr demo_interp) demo_value) :: pybytes)
     = map of_nat (dumps (float_repr demo_interp) (norm_json demo_value))
   \<longleftrightarrow> json_equiv demo_value (norm_json demo_value)"
proof (rule canonical_bytes_iff [where I = demo_interp])
  show "canonical_json_bytes demo_interp demo_value = Inr (map of_nat (dumps (float_repr demo_interp) demo_value))"
    by (simp add: canonical_json_bytes_Inr demo_value_facts)
  show "canonical_json_bytes demo_interp (norm_json demo_value)
      = Inr (map of_nat (dumps (float_repr demo_interp) (norm_json demo_value)))"
    and "json_ok (norm_json demo_value)" "float_codec demo_interp (norm_json demo_value)"
    using demo_norm_facts by (simp_all add: canonical_json_bytes_Inr)
qed (use demo_value_facts in auto)

text \<open>On objects the relation is pointwise.\<close>

lemma json_equiv_obj:
  assumes "dict_ok a" "dict_ok b"
  shows "json_equiv (JObj a) (JObj b) \<longleftrightarrow> (\<forall>k. rel_option json_equiv (map_of a k) (map_of b k))"
proof -
  have len: "length d = card (set (keys d))" if "dict_ok d" for d :: "(pystr, json) dict"
    using distinct_card [of "keys d"] that by (simp add: dict_ok_def keys_def)
  have one: "json_equiv (JObj a) (JObj b) \<longleftrightarrow> length a = length b \<and>
      (\<forall>k x. map_of a k = Some x \<longrightarrow> (\<exists>y. map_of b k = Some y \<and> json_equiv x y))"
    using dict_ok_in_set [OF assms(1)] by (fastforce simp: list_all_iff split: option.splits)
  have sub: "set (keys a) = set (keys b)"
    if "length a = length b" "\<forall>k x. map_of a k = Some x \<longrightarrow> (\<exists>y. map_of b k = Some y \<and> json_equiv x y)"
    using that len [OF assms(1)] len [OF assms(2)]
    by (intro card_subset_eq) (auto simp: set_keys finite_dom_map_of)
  show ?thesis
  proof
    assume "json_equiv (JObj a) (JObj b)"
    with one sub have dom: "dom (map_of a) = dom (map_of b)" and
      "\<forall>k x. map_of a k = Some x \<longrightarrow> (\<exists>y. map_of b k = Some y \<and> json_equiv x y)"
      by (simp_all add: set_keys)
    moreover have "map_of a k = None \<longleftrightarrow> map_of b k = None" for k
      using dom by (metis domIff)
    ultimately show "\<forall>k. rel_option json_equiv (map_of a k) (map_of b k)"
      by (metis not_None_eq option_rel_Some2 option.rel_intros(1))
  next
    assume r: "\<forall>k. rel_option json_equiv (map_of a k) (map_of b k)"
    then have "map_of a k = None \<longleftrightarrow> map_of b k = None" for k
      by (cases "map_of a k"; cases "map_of b k") (auto dest: spec [of _ k])
    then have "dom (map_of a) = dom (map_of b)"
      by (auto simp: dom_def)
    then have "length a = length b"
      using len [OF assms(1)] len [OF assms(2)] by (simp add: set_keys)
    with r one show "json_equiv (JObj a) (JObj b)"
      by (metis option_rel_Some1)
  qed
qed

lemma json_equiv_obj_del:
  assumes "dict_ok a" "dict_ok b" "json_equiv (JObj (dict_del k a)) (JObj (dict_del k b))"
    and "rel_option json_equiv (map_of a k) (map_of b k)"
  shows "json_equiv (JObj a) (JObj b)"
proof -
  have "rel_option json_equiv (map_of a j) (map_of b j)" for j
    using assms(3,4) json_equiv_obj [of "dict_del k a" "dict_del k b"] assms(1,2)
    by (cases "j = k") (auto dest: spec [of _ j])
  then show ?thesis using json_equiv_obj [OF assms(1,2)] by blast
qed

lemma json_equiv_get:
  "dict_ok a \<Longrightarrow> dict_ok b \<Longrightarrow> json_equiv (JObj a) (JObj b) \<Longrightarrow> json_equiv (get a k) (get b k)"
  using json_equiv_obj [of a b] by (auto simp: get_def dest!: spec [of _ k] split: option.splits)

lemma json_equiv_str [simp]: "json_equiv v (JStr s) \<longleftrightarrow> v = JStr s"
  by (cases v) auto

lemma json_equiv_null [simp]: "json_equiv v JNull \<longleftrightarrow> v = JNull"
  by (cases v) auto

lemma json_ok_del: "json_ok (JObj d) \<Longrightarrow> json_ok (JObj (dict_del k d))"
  by (auto simp: list_all_iff dict_del_def dict_ok_del [unfolded dict_del_def])

lemma printable_del: "printable (JObj d) \<Longrightarrow> printable (JObj (dict_del k d))"
  by (auto simp: list_all_iff dict_del_def)

lemma float_codec_del: "float_codec I (JObj d) \<Longrightarrow> float_codec I (JObj (dict_del k d))"
  by (auto simp: float_codec_def list_all_iff dict_del_def)

section \<open>The digest binds the value\<close>

lemma hash_object_Inr:
  "hash_object I v = Inr h \<longleftrightarrow> (\<exists>bs. canonical_json_bytes I v = Inr bs \<and> h = sha256 I bs)"
  by (auto simp: hash_object_def raise_simps)

lemma hash_object_total: "printable v \<Longrightarrow> \<exists>h. hash_object I v = Inr h"
  by (simp add: hash_object_def canonical_json_bytes_def)

text \<open>
  Two values with one digest are equal up to key order, unless their two canonical texts
  are a collision of the hash: the alternative names the colliding inputs.
\<close>

definition collide :: "interp \<Rightarrow> json \<Rightarrow> json \<Rightarrow> bool" where
  "collide I v w \<longleftrightarrow>
     (\<exists>bs cs. canonical_json_bytes I v = Inr bs \<and> canonical_json_bytes I w = Inr cs \<and>
        bs \<noteq> cs \<and> sha256 I bs = sha256 I cs)"

lemma hash_object_binds:
  assumes "hash_object I v = Inr h" "hash_object I w = Inr h"
    and "json_ok v" "json_ok w" "float_codec I v" "float_codec I w"
  shows "json_equiv v w \<or> collide I v w"
proof -
  obtain bs cs where *: "canonical_json_bytes I v = Inr bs" "canonical_json_bytes I w = Inr cs"
    "sha256 I bs = sha256 I cs"
    using assms(1,2) by (auto simp: hash_object_Inr)
  with canonical_equiv(2) [OF *(1,2)] assms(3-6) show ?thesis
    unfolding collide_def by blast
qed

section \<open>The domain of the strict parser\<close>

text \<open>
  Whatever the strict parser accepts has distinct keys in every object, only valid
  Unicode strings, finite floats, integers that can be printed again, and at most 64
  levels of nesting.
\<close>

theorem strict_json_loads_domain:
  assumes "strict_json_loads I text = Inr v" "scalar_text text"
  shows "json_ok v \<and> printable v \<and> json_depth v \<le> max_json_nesting"
  using strict_json_loads_ok [OF assms] strict_json_loads_depth [OF assms(1)] by simp

theorem strict_json_loads_domain_witness:
  "json_ok (norm_json demo_value) \<and> printable (norm_json demo_value)
    \<and> json_depth (norm_json demo_value) \<le> max_json_nesting"
  by (rule strict_json_loads_domain [OF strict_loads_dumps [OF demo_value_facts(1,3,2,4)]])
    (rule ascii_scalar_text [OF float_codec_ascii [OF demo_value_facts(4)]])

section \<open>Amounts\<close>

lemma dec_value_lead:
  "list_all is_dec_digit s \<Longrightarrow> s \<noteq> [] \<Longrightarrow> hd s \<noteq> 48 \<Longrightarrow> 0 < dec_value s"
proof (induction s rule: rev_induct)
  case (snoc c s)
  then show ?case
    by (cases s) (auto simp: dec_value_def is_dec_digit_def)
qed simp

lemma dec_digits_dec_value:
  assumes "list_all is_dec_digit s" "s \<noteq> []" "\<not> (length s > 1 \<and> starts_with s [48])"
  shows "dec_digits (dec_value s) = s"
  using assms
proof (induction s rule: rev_induct)
  case (snoc c s)
  have c: "48 \<le> c" "c \<le> 57" using snoc.prems by (auto simp: is_dec_digit_def)
  show ?case
  proof (cases "s = []")
    case True
    with c show ?thesis by (subst dec_digits.simps) (simp add: dec_value_def)
  next
    case False
    with snoc.prems have s: "list_all is_dec_digit s" "hd s \<noteq> 48"
      by (auto simp: starts_with_Cons hd_append neq_Nil_conv)
    with snoc False have "dec_digits (dec_value s) = s"
      by (cases s) (auto simp: starts_with_Cons)
    moreover have "0 < dec_value s"
      using s False by (simp add: dec_value_lead)
    moreover have "(10 * n + d) div 10 = n \<and> (10 * n + d) mod 10 = d" if "d < 10" for n d :: nat
      using that by simp
    from this [of "c - 48" "dec_value s"] have
      "(10 * dec_value s + (c - 48)) div 10 = dec_value s"
      "(10 * dec_value s + (c - 48)) mod 10 = c - 48"
      using c by simp_all
    ultimately show ?thesis
      using c by (subst dec_digits.simps) (simp del: add_diff_assoc diff_add_assoc)
  qed
qed simp

lemma parse_amount_iff:
  "parse_nonnegative_amount_scaled v = Some n \<longleftrightarrow>
    v = JStr (dec_digits n) \<and> length (dec_digits n) \<le> max_str_digits"
proof
  assume "parse_nonnegative_amount_scaled v = Some n"
  then show "v = JStr (dec_digits n) \<and> length (dec_digits n) \<le> max_str_digits"
    by (auto simp: parse_nonnegative_amount_scaled_def dec_digits_dec_value
        split: json.splits if_splits)
next
  assume a: "v = JStr (dec_digits n) \<and> length (dec_digits n) \<le> max_str_digits"
  have "\<not> (length (dec_digits n) > 1 \<and> starts_with (dec_digits n) [48])"
    using dec_digits_lead [of n] by (auto simp: starts_with_Cons)
  with a show "parse_nonnegative_amount_scaled v = Some n"
    using dec_digits_digit [of n] is_ascii_dec_digits [of n]
    by (auto simp: parse_nonnegative_amount_scaled_def)
qed

text \<open>
  An amount parses to \<open>n\<close> exactly if it is the string of the decimal numeral of
  \<open>n\<close>, within the interpreter's conversion bound: one text per amount, and no other JSON
  type is coerced.
\<close>

theorem amount_canonical:
  "parse_nonnegative_amount_scaled v = Some n \<longleftrightarrow>
    v = JStr (dec_digits n) \<and> length (dec_digits n) \<le> max_str_digits"
  by (rule parse_amount_iff)

end
