(* ===== verification/Ledger_Files.thy ===== *)
theory Ledger_Files
  imports Py_Bytes Canonical
begin

text \<open>
  How \<open>verify.py\<close> reaches the bytes of a ledger: opening a directory without following a
  link, selecting the rotated segments, and splitting the files into bounded lines.
\<close>

section \<open>The file system\<close>

text \<open>
  A tree of nodes: regular files, directories, symbolic links, other nodes that open
  (pipes, devices), and nodes on which \<open>open\<close> fails (no permission, a socket). A verification reads a single
  snapshot of it. A directory descriptor is the directory with its ancestors, innermost
  first, so that \<open>..\<close> has a meaning.
\<close>

datatype fs_node =
    FileNode pybytes
  | DirNode "(pystr \<times> fs_node) list"
  | LinkNode
  | SpecialNode
  | DeniedNode

type_synonym directory = "(pystr, fs_node) dict"
type_synonym descriptor = "directory list"

record fs =
  root_dir :: directory
  cwd :: descriptor

record path =
  absolute :: bool
  parts :: "pystr list"

definition path_name :: "path \<Rightarrow> pystr" where
  "path_name p = (if parts p = [] then [] else last (parts p))"

definition path_parent :: "path \<Rightarrow> path" where
  "path_parent p = p\<lparr>parts := butlast (parts p)\<rparr>"

section \<open>Failures\<close>

datatype os_error = ENOENT | ELOOP | ENOTDIR | EACCES

datatype limit_reason =
    DirectoryNotPlain
  | NotRegular
  | LedgerNotFile
  | DirectoryEntries
  | Segments
  | DocumentBytes
  | LineBytes
  | LedgerBytes
  | PhysicalLines

text \<open>
  What reading can raise: an \<open>OSError\<close>, an \<open>_InputLimitError\<close> with the file's name,
  line and reason, a \<open>_NotUtf8Error\<close>, or the \<open>ValueError\<close> of \<open>int\<close> on a
  segment number with more digits than the interpreter converts.
\<close>

datatype read_error =
    Os os_error
  | Limit pystr "nat option" limit_reason
  | NotUtf8 pystr
  | SegmentNumber

section \<open>Opening without following links\<close>

definition dot :: pystr where "dot = lit ''.''"
definition dot_dot :: pystr where "dot_dot = lit ''..''"

text \<open>\<open>os.open(name, O_DIRECTORY | O_NOFOLLOW, dir_fd=...)\<close>.\<close>

definition os_open_directory :: "descriptor \<Rightarrow> pystr \<Rightarrow> os_error + descriptor" where
  "os_open_directory d name =
     (if name = dot_dot then Inr (if length d \<le> 1 then d else tl d)
      else if d = [] then Inl ENOENT
      else case map_of (hd d) name of
        None \<Rightarrow> Inl ENOENT
      | Some (DirNode entries) \<Rightarrow> Inr (entries # d)
      | Some LinkNode \<Rightarrow> Inl ELOOP
      | Some DeniedNode \<Rightarrow> Inl EACCES
      | Some _ \<Rightarrow> Inl ENOTDIR)"

text \<open>The loop of \<open>_open_directory\<close> over \<open>path.parts\<close>.\<close>

fun open_components :: "pystr \<Rightarrow> descriptor \<Rightarrow> pystr list \<Rightarrow> read_error + descriptor" where
  "open_components error_name d [] = Inr d"
| "open_components error_name d (component # cs) =
     (if component = [] \<or> component = dot then open_components error_name d cs
      else case os_open_directory d component of
        Inl e \<Rightarrow>
          if e = ELOOP \<or> e = ENOTDIR then Inl (Limit error_name None DirectoryNotPlain)
          else Inl (Os e)
      | Inr d' \<Rightarrow> open_components error_name d' cs)"

definition open_directory :: "fs \<Rightarrow> path \<Rightarrow> path \<Rightarrow> read_error + descriptor" where
  "open_directory F p error_path =
     open_components (path_name error_path)
       (if absolute p then [root_dir F] else cwd F) (parts p)"

text \<open>
  \<open>_open_regular_file\<close> with a directory descriptor: \<open>O_NOFOLLOW\<close> makes a link
  \<open>ELOOP\<close>, and \<open>fstat\<close> refuses what is opened but not regular.
\<close>

definition open_regular_file :: "descriptor \<Rightarrow> pystr \<Rightarrow> limit_reason \<Rightarrow> read_error + pybytes" where
  "open_regular_file d name not_regular_reason =
     (if name = [] \<or> d = [] then Inl (Os ENOENT)
      else if name = dot_dot then Inl (Limit name None not_regular_reason)
      else case map_of (hd d) name of
        None \<Rightarrow> Inl (Os ENOENT)
      | Some (FileNode content) \<Rightarrow> Inr content
      | Some LinkNode \<Rightarrow> Inl (Limit name None NotRegular)
      | Some DeniedNode \<Rightarrow> Inl (Os EACCES)
      | Some _ \<Rightarrow> Inl (Limit name None not_regular_reason))"

section \<open>Limits\<close>

definition max_json_document_bytes :: nat where
  "max_json_document_bytes = 1024 * 1024"
definition max_ledger_line_bytes :: nat where
  "max_ledger_line_bytes = 16 * 1024 * 1024"
definition max_ledger_bytes :: nat where
  "max_ledger_bytes = 1024 * 1024 * 1024"
definition max_ledger_physical_lines :: nat where
  "max_ledger_physical_lines = 2000000"
definition max_ledger_directory_entries :: nat where
  "max_ledger_directory_entries = 100000"
definition max_ledger_segments :: nat where
  "max_ledger_segments = 10000"
definition max_ledger_records :: nat where
  "max_ledger_records = 1000000"

section \<open>Documents\<close>

text \<open>\<open>_read_utf8_document\<close>: a whole bounded file, decoded.\<close>

definition read_utf8_document :: "fs \<Rightarrow> path \<Rightarrow> read_error + pystr" where
  "read_utf8_document F p =
     bnd (open_directory F (path_parent p) p) (\<lambda>d.
     bnd (open_regular_file d (path_name p) NotRegular) (\<lambda>content.
       let raw = take (max_json_document_bytes + 1) content in
       if length raw > max_json_document_bytes then Inl (Limit (path_name p) None DocumentBytes)
       else case utf8_decode raw of None \<Rightarrow> Inl (NotUtf8 (path_name p)) | Some t \<Rightarrow> Inr t))"

section \<open>Segments\<close>

text \<open>
  The name test of \<open>_segment_paths\<close>: \<open>stem.<digits>suffix\<close>, giving the digits. The
  slice ends at \<open>-len(suffix)\<close> only when there is a suffix.
\<close>

definition segment_middle :: "pystr \<Rightarrow> pystr \<Rightarrow> pystr option" where
  "segment_middle ledger name =
     (case splitext ledger of (stem, suffix) \<Rightarrow>
        if name = ledger then None
        else if \<not> starts_with name (stem @ [46]) \<or> \<not> ends_with name suffix then None
        else let middle = drop (length stem + 1) (take (length name - length suffix) name) in
          if middle = [] \<or> list_ex (\<lambda>c. c < 48 \<or> c > 57) middle then None
          else Some middle)"

fun select_segments :: "pystr \<Rightarrow> nat \<Rightarrow> (nat \<times> pystr) list \<Rightarrow> pystr list
    \<Rightarrow> read_error + (nat \<times> pystr) list" where
  "select_segments ledger examined segments [] = Inr segments"
| "select_segments ledger examined segments (name # names) =
     (if examined + 1 > max_ledger_directory_entries
      then Inl (Limit ledger None DirectoryEntries)
      else case segment_middle ledger name of
        None \<Rightarrow> select_segments ledger (examined + 1) segments names
      | Some middle \<Rightarrow>
          if length segments \<ge> max_ledger_segments then Inl (Limit ledger None Segments)
          else if length middle > max_str_digits then Inl SegmentNumber
          else select_segments ledger (examined + 1)
            (segments @ [(dec_value middle, name)]) names)"

text \<open>\<open>sorted\<close> on the pairs: by number, then by name.\<close>

definition segment_key :: "nat \<times> pystr \<Rightarrow> nat list" where
  "segment_key p = fst p # snd p"

definition segment_paths :: "pystr \<Rightarrow> pystr list \<Rightarrow> read_error + pystr list" where
  "segment_paths ledger names =
     bnd (select_segments ledger 0 [] names) (\<lambda>segments.
       Inr (map snd (sort_key segment_key segments) @ [ledger]))"

definition ledger_files :: "fs \<Rightarrow> path \<Rightarrow> read_error + pystr list" where
  "ledger_files F p =
     bnd (open_directory F (path_parent p) p) (\<lambda>d.
       segment_paths (path_name p) (keys (hd d)))"

section \<open>Lines\<close>

text \<open>
  \<open>_lines\<close> is a generator, consumed one line at a time: a list of events, of which an
  error can only be the last. The loop over one file keeps its line number, and the two
  totals run over all files; it returns the totals when it reaches the end of the file.
\<close>

datatype line_event =
    Line pystr nat pystr
  | Broken read_error

function file_lines :: "pystr \<Rightarrow> nat \<Rightarrow> nat \<Rightarrow> nat \<Rightarrow> pybytes
    \<Rightarrow> line_event list \<times> (nat \<times> nat) option" where
  "file_lines name line_no total_bytes physical_lines bs =
     (case readline (max_ledger_line_bytes + 1) bs of (raw, rest) \<Rightarrow>
        if raw = [] then ([], Some (total_bytes, physical_lines))
        else
          let line_no = line_no + 1;
              physical_lines = physical_lines + 1;
              total_bytes = total_bytes + length raw
          in
          if length raw > max_ledger_line_bytes
          then ([Broken (Limit name (Some line_no) LineBytes)], None)
          else if total_bytes > max_ledger_bytes
          then ([Broken (Limit name (Some line_no) LedgerBytes)], None)
          else if physical_lines > max_ledger_physical_lines
          then ([Broken (Limit name (Some line_no) PhysicalLines)], None)
          else if bytes_strip raw = [] then file_lines name line_no total_bytes physical_lines rest
          else case utf8_decode (bytes_strip raw) of
            None \<Rightarrow> ([Broken (NotUtf8 name)], None)
          | Some text \<Rightarrow>
              (case file_lines name line_no total_bytes physical_lines rest of
                 (evs, done) \<Rightarrow> (Line name line_no text # evs, done)))"
  by pat_completeness auto

termination
  by (relation "measure (\<lambda>(name, line_no, total_bytes, physical_lines, bs). length bs)")
    (auto dest: readline_shorter [OF sym])

declare file_lines.simps [simp del]

text \<open>
  The outer loop. The active ledger was opened before the directory was listed, so its
  bytes come with the call; a segment is opened when its turn comes.
\<close>

fun ledger_lines :: "descriptor \<Rightarrow> pystr \<Rightarrow> pybytes \<Rightarrow> nat \<Rightarrow> nat \<Rightarrow> pystr list
    \<Rightarrow> line_event list" where
  "ledger_lines d active content total_bytes physical_lines [] = []"
| "ledger_lines d active content total_bytes physical_lines (name # names) =
     (case (if name = active then Inr content else open_regular_file d name NotRegular) of
        Inl e \<Rightarrow> [Broken e]
      | Inr bs \<Rightarrow>
          (case file_lines name 0 total_bytes physical_lines bs of
             (evs, None) \<Rightarrow> evs
           | (evs, Some (t, n)) \<Rightarrow> evs @ ledger_lines d active content t n names))"

section \<open>Facts on directories\<close>

text \<open>
  The specification of \<open>_open_directory\<close> on a path without \<open>..\<close>: the node the lexical
  path names, passing through directories only.
\<close>

fun directory_at :: "directory \<Rightarrow> pystr list \<Rightarrow> directory option" where
  "directory_at D [] = Some D"
| "directory_at D (c # cs) =
     (case map_of D c of Some (DirNode E) \<Rightarrow> directory_at E cs | _ \<Rightarrow> None)"

definition lexical :: "pystr list \<Rightarrow> bool" where
  "lexical cs \<longleftrightarrow> list_all (\<lambda>c. c \<noteq> [] \<and> c \<noteq> dot \<and> c \<noteq> dot_dot) cs"

lemma open_components_lexical:
  assumes "lexical cs" "d \<noteq> []"
  shows "(\<exists>d'. open_components n d cs = Inr d' \<and> d' \<noteq> [] \<and> hd d' = E)
    \<longleftrightarrow> directory_at (hd d) cs = Some E"
  using assms
proof (induction cs arbitrary: d)
  case (Cons c cs)
  show ?case
  proof (cases "map_of (hd d) c")
    case (Some x)
    with Cons show ?thesis
      by (cases x) (auto simp: os_open_directory_def lexical_def)
  qed (use Cons in \<open>auto simp: os_open_directory_def lexical_def\<close>)
qed auto

lemma open_components_link:
  assumes "lexical (cs @ [c])" "d \<noteq> []" "directory_at (hd d) cs = Some E" "map_of E c = Some LinkNode"
  shows "open_components n d (cs @ c # rest) = Inl (Limit n None DirectoryNotPlain)"
  using assms
proof (induction cs arbitrary: d)
  case (Cons b cs)
  then show ?case
    by (auto simp: os_open_directory_def lexical_def split: option.splits fs_node.splits)
qed (auto simp: os_open_directory_def lexical_def)

lemma open_regular_file_Inr:
  "open_regular_file d name r = Inr bs \<longleftrightarrow>
    name \<noteq> [] \<and> name \<noteq> dot_dot \<and> d \<noteq> [] \<and> map_of (hd d) name = Some (FileNode bs)"
  by (auto simp: open_regular_file_def split: option.splits fs_node.splits)

section \<open>Facts on segments\<close>

lemma segment_middle_iff:
  assumes "splitext ledger = (stem, suffix)"
  shows "segment_middle ledger name = Some m \<longleftrightarrow>
    name \<noteq> ledger \<and> m \<noteq> [] \<and> list_all is_dec_digit m \<and> name = stem @ 46 # m @ suffix"
proof
  assume s: "segment_middle ledger name = Some m"
  then have n: "name \<noteq> ledger" "m \<noteq> []" "list_all is_dec_digit m"
      "starts_with name (stem @ [46])" "ends_with name suffix"
      "m = drop (length stem + 1) (take (length name - length suffix) name)"
    by (auto simp: segment_middle_def assms Let_def list_ex_iff list_all_iff is_dec_digit_def
        split: if_splits)
  obtain t where t: "name = (stem @ [46]) @ t"
    using n(4) unfolding starts_with_iff by blast
  obtain u where u: "name = u @ suffix"
    using n(5) unfolding ends_with_iff by blast
  have "length (stem @ [46]) \<le> length u"
    using n(2,6) unfolding u by simp
  then have "take (length (stem @ [46])) u = stem @ [46]"
    using t u by (metis append_eq_conv_conj take_append diff_is_0_eq append_Nil2 take0)
  then obtain v where "u = (stem @ [46]) @ v"
    by (metis append_take_drop_id)
  with n u show "name \<noteq> ledger \<and> m \<noteq> [] \<and> list_all is_dec_digit m \<and> name = stem @ 46 # m @ suffix"
    by simp
next
  assume a: "name \<noteq> ledger \<and> m \<noteq> [] \<and> list_all is_dec_digit m \<and> name = stem @ 46 # m @ suffix"
  then have "starts_with name (stem @ [46])" "ends_with name suffix"
    by (auto simp: starts_with_iff ends_with_iff)
  with a show "segment_middle ledger name = Some m"
    by (auto simp: segment_middle_def assms list_ex_iff list_all_iff is_dec_digit_def)
qed

definition segment_of :: "pystr \<Rightarrow> pystr \<Rightarrow> (nat \<times> pystr) option" where
  "segment_of ledger name = map_option (\<lambda>m. (dec_value m, name)) (segment_middle ledger name)"

lemma select_segments_Inr:
  "select_segments ledger k segs names = Inr out \<Longrightarrow>
    out = segs @ List.map_filter (segment_of ledger) names
    \<and> length names + k \<le> max max_ledger_directory_entries k
    \<and> length out \<le> max max_ledger_segments (length segs)"
  by (induction ledger k segs names rule: select_segments.induct)
    (auto simp: segment_of_def List.map_filter_simps split: if_splits option.splits)

lemma segment_paths_Inr:
  assumes "segment_paths ledger names = Inr files"
  shows "files = map snd (sort_key segment_key (List.map_filter (segment_of ledger) names)) @ [ledger]"
    and "length files \<le> max_ledger_segments + 1"
  using assms select_segments_Inr [of ledger 0 "[]" names]
  by (auto simp: segment_paths_def raise_simps)

lemma map_snd_segments: "set (map snd (List.map_filter (segment_of ledger) names))
    = {name \<in> set names. segment_middle ledger name \<noteq> None}"
  by (force simp: set_map_filter segment_of_def)

definition segment_number :: "pystr \<Rightarrow> pystr \<Rightarrow> nat" where
  "segment_number ledger name =
     (case segment_middle ledger name of None \<Rightarrow> 0 | Some m \<Rightarrow> dec_value m)"

text \<open>
  The segments are exactly the names \<open>stem.<digits>suffix\<close> of the directory, in
  ascending number and, among equal numbers, in ascending name; the active file is last.
\<close>

theorem segments_in_order:
  assumes "segment_paths ledger names = Inr files" "splitext ledger = (stem, suffix)"
  shows "\<exists>segs. files = segs @ [ledger]
    \<and> set segs = {name \<in> set names. name \<noteq> ledger \<and>
        (\<exists>m. m \<noteq> [] \<and> list_all is_dec_digit m \<and> name = stem @ 46 # m @ suffix)}
    \<and> sorted (map (\<lambda>name. segment_number ledger name # name) segs)"
proof -
  define pairs where "pairs = sort_key segment_key (List.map_filter (segment_of ledger) names)"
  have files: "files = map snd pairs @ [ledger]"
    using segment_paths_Inr(1) [OF assms(1)] by (simp add: pairs_def)
  have "set (map snd pairs) = {name \<in> set names. segment_middle ledger name \<noteq> None}"
    using map_snd_segments [of ledger names] by (simp add: pairs_def)
  also have "\<dots> = {name \<in> set names. name \<noteq> ledger \<and>
        (\<exists>m. m \<noteq> [] \<and> list_all is_dec_digit m \<and> name = stem @ 46 # m @ suffix)}"
    using segment_middle_iff [OF assms(2)] by fastforce
  finally have set: "set (map snd pairs) = \<dots>" .
  have "segment_key q = segment_number ledger (snd q) # snd q" if "q \<in> set pairs" for q
    using that by (auto simp: pairs_def set_map_filter segment_of_def segment_number_def segment_key_def)
  then have "map (\<lambda>name. segment_number ledger name # name) (map snd pairs) = map segment_key pairs"
    by simp
  moreover have "sorted (map segment_key pairs)"
    by (simp add: pairs_def)
  ultimately show ?thesis using files set by metis
qed

theorem segments_in_order_witness:
  "\<exists>segs. [lit ''l.2.jsonl'', lit ''l.10.jsonl'', lit ''l.jsonl''] = segs @ [lit ''l.jsonl'']
    \<and> set segs = {name \<in> set [lit ''l.10.jsonl'', lit ''l.x.jsonl'', lit ''l.2.jsonl'']. name \<noteq> lit ''l.jsonl'' \<and>
        (\<exists>m. m \<noteq> [] \<and> list_all is_dec_digit m \<and> name = lit ''l'' @ 46 # m @ lit ''.jsonl'')}
    \<and> sorted (map (\<lambda>name. segment_number (lit ''l.jsonl'') name # name) segs)"
  by (rule segments_in_order)
    (simp_all add: segment_paths_def segment_middle_def splitext_def lit_def ends_with_def
      max_ledger_directory_entries_def max_ledger_segments_def max_str_digits_def segment_key_def
      dec_value_def)

section \<open>Facts on lines\<close>

text \<open>The reference reader: the whole file cut after each line feed.\<close>

function split_lines :: "pybytes \<Rightarrow> pybytes list" where
  "split_lines [] = []"
| "split_lines (b # bs) =
     (let l = takeWhile (\<lambda>c. c \<noteq> 10) (b # bs); r = dropWhile (\<lambda>c. c \<noteq> 10) (b # bs)
      in (l @ take 1 r) # split_lines (drop 1 r))"
  by pat_completeness auto
termination
  by (relation "measure length")
    (auto simp: less_Suc_eq_le intro: order_trans [OF _ length_dropWhile_le]
      order_trans [OF diff_le_self])

definition number_lines :: "pystr \<Rightarrow> nat \<Rightarrow> pybytes list \<Rightarrow> line_event list" where
  "number_lines name line_no ls =
     List.map_filter (\<lambda>(i, l). if bytes_strip l = [] then None
       else Some (Line name i (the (utf8_decode (bytes_strip l))))) (List.enumerate (line_no + 1) ls)"

definition readable_line :: "pybytes \<Rightarrow> bool" where
  "readable_line l \<longleftrightarrow> length l \<le> max_ledger_line_bytes \<and> utf8_decode (bytes_strip l) \<noteq> None"

lemma readable_line_blank:
  "bytes_strip l = [] \<Longrightarrow> readable_line l \<longleftrightarrow> length l \<le> max_ledger_line_bytes"
  by (simp add: readable_line_def utf8_decode_def)

lemma readable_line_text:
  "utf8_decode (bytes_strip l) = Some x \<Longrightarrow> readable_line l \<longleftrightarrow> length l \<le> max_ledger_line_bytes"
  by (simp add: readable_line_def)

lemma number_lines_simps [simp]:
  "number_lines name n [] = []"
  "number_lines name n (l # ls) =
     (if bytes_strip l = [] then [] else [Line name (n + 1) (the (utf8_decode (bytes_strip l)))])
       @ number_lines name (n + 1) ls"
  by (simp_all add: number_lines_def List.map_filter_simps)

lemma readline_first:
  "readline m bs = (raw, rest) \<Longrightarrow> length raw < m \<Longrightarrow>
    raw = takeWhile (\<lambda>c. c \<noteq> 10) bs @ take 1 (dropWhile (\<lambda>c. c \<noteq> 10) bs)
    \<and> rest = drop 1 (dropWhile (\<lambda>c. c \<noteq> 10) bs)"
  by (induction m bs arbitrary: raw rest rule: readline.induct) (auto split: if_splits prod.splits)

lemma readline_long:
  "readline m bs = (raw, rest) \<Longrightarrow> length raw = m \<Longrightarrow>
    m \<le> length (takeWhile (\<lambda>c. c \<noteq> 10) bs @ take 1 (dropWhile (\<lambda>c. c \<noteq> 10) bs))"
  by (induction m bs arbitrary: raw rest rule: readline.induct)
    (fastforce split: if_splits prod.splits)+

lemma split_lines_readline:
  assumes "readline (m + 1) bs = (raw, rest)" "bs \<noteq> []"
  shows "length raw \<le> m \<Longrightarrow> split_lines bs = raw # split_lines rest \<and> length bs = length raw + length rest"
    and "\<not> length raw \<le> m \<Longrightarrow> \<exists>l ls. split_lines bs = l # ls \<and> \<not> length l \<le> m"
proof -
  assume "length raw \<le> m"
  with readline_first [OF assms(1)] have
    "raw = takeWhile (\<lambda>c. c \<noteq> 10) bs @ take 1 (dropWhile (\<lambda>c. c \<noteq> 10) bs)"
    "rest = drop 1 (dropWhile (\<lambda>c. c \<noteq> 10) bs)" by simp_all
  then have "split_lines bs = raw # split_lines rest"
    using assms(2) by (cases bs) (simp_all add: Let_def)
  moreover have "length bs = length raw + length rest"
    using readline_append [of "m + 1" bs] assms(1) by (metis fst_conv length_append snd_conv)
  ultimately show "split_lines bs = raw # split_lines rest \<and> length bs = length raw + length rest"
    by simp
next
  assume "\<not> length raw \<le> m"
  with readline_length [of "m + 1" bs] assms(1) have "length raw = m + 1" by simp
  with readline_long [OF assms(1)] assms(2)
  show "\<exists>l ls. split_lines bs = l # ls \<and> \<not> length l \<le> m"
    by (cases bs) (auto simp: Let_def)
qed

lemma file_lines_iff:
  assumes "t \<le> max_ledger_bytes" "p \<le> max_ledger_physical_lines"
  shows "file_lines name n t p bs = (evs, Some tp) \<longleftrightarrow>
    list_all readable_line (split_lines bs) \<and> t + length bs \<le> max_ledger_bytes
    \<and> p + length (split_lines bs) \<le> max_ledger_physical_lines
    \<and> evs = number_lines name n (split_lines bs)
    \<and> tp = (t + length bs, p + length (split_lines bs))"
  using assms
proof (induction name n t p bs arbitrary: evs tp rule: file_lines.induct)
  case (1 name n t p bs)
  obtain raw rest where rl: "readline (max_ledger_line_bytes + 1) bs = (raw, rest)"
    by fastforce
  note rl' = rl [simplified]
  show ?case
  proof (cases "bs = []")
    case True
    then show ?thesis using "1.prems" by (subst file_lines.simps) auto
  next
    case False
    then have raw: "raw \<noteq> []" using rl readline_eq_Nil [of "max_ledger_line_bytes + 1" bs] by auto
    show ?thesis
    proof (cases "length raw \<le> max_ledger_line_bytes")
      case False
      with split_lines_readline(2) [OF rl \<open>bs \<noteq> []\<close>] raw show ?thesis
        by (subst file_lines.simps) (auto simp: Let_def rl' readable_line_def)
    next
      case True
      note sp = split_lines_readline(1) [OF rl \<open>bs \<noteq> []\<close> True]
      note ih = "1.IH" [OF rl [symmetric] raw refl refl refl]
      show ?thesis
      proof (cases "t + length raw \<le> max_ledger_bytes \<and> p + 1 \<le> max_ledger_physical_lines")
        case False
        with sp raw True show ?thesis by (subst file_lines.simps) (auto simp: Let_def rl')
      next
        case lim: True
        show ?thesis
        proof (cases "bytes_strip raw = []")
          case True
          with ih(1) lim sp raw \<open>length raw \<le> _\<close> show ?thesis
            by (subst file_lines.simps)
              (auto simp: Let_def rl' readable_line_blank)
        next
          case nb: False
          show ?thesis
          proof (cases "utf8_decode (bytes_strip raw)")
            case None
            with nb lim sp raw True show ?thesis
              by (subst file_lines.simps) (auto simp: Let_def rl' readable_line_def)
          next
            case (Some x)
            obtain es r where es: "file_lines name (Suc n) (t + length raw) (Suc p) rest = (es, r)"
              by fastforce
            have step: "file_lines name n t p bs = (Line name (Suc n) x # es, r)"
              using nb Some lim raw True
              by (subst file_lines.simps) (simp add: Let_def rl' es)
            have r: "es = evs' \<and> r = Some tp \<longleftrightarrow> list_all readable_line (split_lines rest)
                \<and> t + length raw + length rest \<le> max_ledger_bytes
                \<and> Suc (p + length (split_lines rest)) \<le> max_ledger_physical_lines
                \<and> evs' = number_lines name (Suc n) (split_lines rest)
                \<and> tp = (t + length raw + length rest, Suc (p + length (split_lines rest)))" for evs'
              using ih(2) [of x evs' tp] nb lim Some True es by simp
            from r [of "tl evs"] show ?thesis
              unfolding step using sp nb True Some
              by (cases evs) (auto simp: readable_line_text add.assoc)
          qed
        qed
      qed
    qed
  qed
qed

text \<open>
  The streaming reader agrees with cutting the whole file at its line feeds: it
  reaches the end exactly if every line is within the line limit and UTF-8 and the running
  totals stay within theirs, and then yields the stripped non-blank lines with their
  numbers.
\<close>

theorem file_lines_reference:
  assumes "t \<le> max_ledger_bytes" "p \<le> max_ledger_physical_lines"
  shows "file_lines name 0 t p bs = (evs, Some tp) \<longleftrightarrow>
    list_all readable_line (split_lines bs) \<and> t + length bs \<le> max_ledger_bytes
    \<and> p + length (split_lines bs) \<le> max_ledger_physical_lines
    \<and> evs = number_lines name 0 (split_lines bs)
    \<and> tp = (t + length bs, p + length (split_lines bs))"
  by (rule file_lines_iff [OF assms])

theorem file_lines_reference_witness:
  "file_lines [108] 0 0 0 [97, 10, 32, 10, 98] = ([Line [108] 1 [97], Line [108] 3 [98]], Some (5, 3))"
  by (subst file_lines_reference)
    (simp_all add: readable_line_def max_ledger_bytes_def max_ledger_line_bytes_def
      max_ledger_physical_lines_def bytes_strip_def strip_by_def ascii_space_def utf8_decode_def)

end
