(* ===== verification/Hash_Chain.thy ===== *)
theory Hash_Chain
  imports Canonical
begin

text \<open>
  The contract of a hash chain, apart from what its records are: each record carries the
  seal of the one before it, and a seal determines the record unless two records clash.
  The verifier's ledger is its instance.
\<close>

section \<open>Chains\<close>

fun chained :: "('r \<Rightarrow> 'h) \<Rightarrow> ('r \<Rightarrow> 'h) \<Rightarrow> 'h \<Rightarrow> 'r list \<Rightarrow> bool" where
  "chained link seal g [] = True"
| "chained link seal g (r # rs) = (link r = g \<and> chained link seal (seal r) rs)"

definition chain_head :: "('r \<Rightarrow> 'h) \<Rightarrow> 'h \<Rightarrow> 'r list \<Rightarrow> 'h" where
  "chain_head seal g rs = (if rs = [] then g else seal (last rs))"

lemma chain_head_simps [simp]:
  "chain_head seal g [] = g" "chain_head seal g (r # rs) = chain_head seal (seal r) rs"
  "chain_head seal g (rs @ [r]) = seal r"
  by (simp_all add: chain_head_def)

lemma chained_append [simp]:
  "chained link seal g (rs @ rs') \<longleftrightarrow>
    chained link seal g rs \<and> chained link seal (chain_head seal g rs) rs'"
  by (induction rs arbitrary: g) auto

lemma chained_take: "chained link seal g rs \<Longrightarrow> chained link seal g (take n rs)"
  by (metis append_take_drop_id chained_append)

lemma chain_head_take:
  "0 < n \<Longrightarrow> n \<le> length rs \<Longrightarrow> chain_head seal g (take n rs) = seal (rs ! (n - 1))"
  by (simp add: chain_head_def last_conv_nth) (auto simp: min_def)

section \<open>Tamper evidence\<close>

locale hash_chain =
  fixes wf :: "'r \<Rightarrow> bool"
    and link :: "'r \<Rightarrow> 'h"
    and seal :: "'r \<Rightarrow> 'h"
    and same :: "'r \<Rightarrow> 'r \<Rightarrow> bool"
    and clash :: "'r \<Rightarrow> 'r \<Rightarrow> bool"
  assumes binds: "wf r \<Longrightarrow> wf r' \<Longrightarrow> seal r = seal r' \<Longrightarrow> same r r' \<or> clash r r'"
    and same_link: "wf r \<Longrightarrow> wf r' \<Longrightarrow> same r r' \<Longrightarrow> link r = link r'"
begin

text \<open>Two chains of one length with one head agree record by record, or two records clash.\<close>

lemma tamper_evident:
  assumes "list_all wf rs" "list_all wf rs'" "chained link seal g rs" "chained link seal g' rs'"
    and "length rs = length rs'" "chain_head seal g rs = chain_head seal g' rs'"
  shows "list_all2 same rs rs' \<or> list_ex (\<lambda>(r, r'). clash r r') (zip rs rs')"
  using assms
proof (induction rs arbitrary: rs' rule: rev_induct)
  case (snoc r rs)
  obtain rs1 r' where rs': "rs' = rs1 @ [r']" "length rs1 = length rs"
    using snoc.prems(5) by (cases rs' rule: rev_cases) auto
  then have "same r r' \<or> clash r r'"
    using snoc.prems binds [of r r'] by simp
  moreover have "chain_head seal g rs = chain_head seal g' rs1" if "same r r'"
    using same_link [OF _ _ that] snoc.prems rs' by simp
  ultimately show ?case
    using snoc.IH [of rs1] snoc.prems rs' by (auto simp: list_all2_append)
qed simp

text \<open>The same for a chain that has grown: the shorter one is a prefix.\<close>

lemma prefix_evident:
  assumes "list_all wf rs" "list_all wf rs'" "chained link seal g rs" "chained link seal g' rs'"
    and "0 < n" "n = length rs" "n \<le> length rs'" "chain_head seal g rs = seal (rs' ! (n - 1))"
  shows "list_all2 same rs (take n rs') \<or> list_ex (\<lambda>(r, r'). clash r r') (zip rs (take n rs'))"
proof -
  have "list_all wf (take n rs')"
    using assms(2) by (auto simp: list_all_iff dest: in_set_takeD)
  with assms show ?thesis
    by (intro tamper_evident [of rs "take n rs'" g g'])
      (simp_all add: chained_take chain_head_take)
qed

end

end
