(* ===== verification/Ledger.thy ===== *)
theory Ledger
  imports Ledger_Files Hash_Chain
begin

text \<open>
  The chain walk of \<open>verify.py\<close>: the check of one record, the walk over all lines, and
  the entry points \<open>read_verified_records\<close> and \<open>read_head\<close>.
\<close>

section \<open>Constants and results\<close>

definition genesis_hash :: pystr where
  "genesis_hash = replicate 64 48"

definition is_digest :: "json \<Rightarrow> bool" where
  "is_digest v = (case v of JStr s \<Rightarrow> hex64 s | _ \<Rightarrow> False)"

lemma is_digest_iff: "is_digest v \<longleftrightarrow> (\<exists>h. v = JStr h \<and> hex64 h)"
  by (cases v) (auto simp: is_digest_def)

definition "k_seq = lit ''seq''"
definition "k_prev_hash = lit ''prev_hash''"
definition "k_record_hash = lit ''record_hash''"

lemmas record_keys = k_seq_def k_prev_hash_def k_record_hash_def

text \<open>
  The reasons of a failed walk, with the values the messages show; the escaping of names
  for a terminal is left out.
\<close>

datatype record_fault =
    InvalidJson
  | NotAnObject
  | UnexpectedSeq json nat
  | PrevHashMismatch
  | BadRecordHash
  | RecordHashMismatch

datatype chain_error =
    AtRecord pystr nat record_fault
  | RecordLimit pystr nat
  | FileNotUtf8 pystr
  | InputLimit pystr "nat option" limit_reason
  | LedgerMissing
  | LedgerPathNotFile

record chain =
  ok :: bool
  count :: nat
  error :: "chain_error option"
  head_hash :: pystr
  hash_at :: "pystr option"

text \<open>What escapes a walk: an error of the operating system, or an exception.\<close>

datatype raised = RaisedRead read_error | Raised exc

section \<open>One record\<close>

text \<open>
  \<open>_check_record\<close>: \<open>Inr (Inl f)\<close> is the failed \<open>_Checked\<close>, \<open>Inr (Inr (h, r))\<close> the
  verified one, \<open>Inl\<close> an exception that leaves the function.
\<close>

definition check_record ::
    "interp \<Rightarrow> pystr \<Rightarrow> nat \<Rightarrow> pystr \<Rightarrow> exc + (record_fault + pystr \<times> (pystr, json) dict)" where
  "check_record I text n prev_hash =
     (case strict_json_loads I text of
        Inl e \<Rightarrow> if e = ValueError then Inr (Inl InvalidJson) else Inl e
      | Inr v \<Rightarrow>
         (case as_obj v of
            None \<Rightarrow> Inr (Inl NotAnObject)
          | Some r \<Rightarrow>
              if as_int (get r k_seq) \<noteq> Some (int n + 1)
              then Inr (Inl (UnexpectedSeq (get r k_seq) (n + 1)))
              else if \<not> py_eq (get r k_prev_hash) (JStr prev_hash)
              then Inr (Inl PrevHashMismatch)
              else if \<not> is_digest (get r k_record_hash)
              then Inr (Inl BadRecordHash)
              else bnd (hash_object I (JObj (dict_del k_record_hash r))) (\<lambda>h.
                if JStr h \<noteq> get r k_record_hash then Inr (Inl RecordHashMismatch)
                else Inr (Inr (h, r)))))"

section \<open>The walk\<close>

text \<open>
  \<open>_walk_chain\<close>: the loop carries the count, the previous hash, the hash at the requested
  sequence number and the records handed to the visitor.
\<close>

fun walk_lines :: "interp \<Rightarrow> int \<Rightarrow> nat \<Rightarrow> pystr \<Rightarrow> pystr option \<Rightarrow> (pystr, json) dict list
    \<Rightarrow> line_event list \<Rightarrow> raised + chain \<times> (pystr, json) dict list" where
  "walk_lines I want n prev_hash at visited [] =
     Inr (\<lparr>ok = True, count = n, error = None, head_hash = prev_hash, hash_at = at\<rparr>, visited)"
| "walk_lines I want n prev_hash at visited (ev # evs) =
     (let failed = (\<lambda>reason. Inr (\<lparr>ok = False, count = n, error = Some reason,
            head_hash = prev_hash, hash_at = at\<rparr>, visited))
      in case ev of
        Broken (NotUtf8 name) \<Rightarrow> failed (FileNotUtf8 name)
      | Broken (Limit name line_no reason) \<Rightarrow> failed (InputLimit name line_no reason)
      | Broken e \<Rightarrow> Inl (RaisedRead e)
      | Line name line_no text \<Rightarrow>
          if n \<ge> max_ledger_records then failed (RecordLimit name line_no)
          else case check_record I text n prev_hash of
            Inl e \<Rightarrow> Inl (Raised e)
          | Inr (Inl fault) \<Rightarrow> failed (AtRecord name line_no fault)
          | Inr (Inr (h, r)) \<Rightarrow>
              walk_lines I want (n + 1) h (if int (n + 1) = want then Some h else at)
                (visited @ [r]) evs)"

definition walk_chain :: "interp \<Rightarrow> int \<Rightarrow> descriptor \<Rightarrow> pystr \<Rightarrow> pybytes \<Rightarrow> pystr list
    \<Rightarrow> raised + chain \<times> (pystr, json) dict list" where
  "walk_chain I want d active content files =
     walk_lines I want 0 genesis_hash None [] (ledger_lines d active content 0 0 files)"

definition no_chain :: "chain_error \<Rightarrow> chain" where
  "no_chain e = \<lparr>ok = False, count = 0, error = Some e, head_hash = genesis_hash, hash_at = None\<rparr>"

text \<open>\<open>_walk_ledger\<close>: the path comes after \<open>expanduser\<close>.\<close>

definition admit_ledger :: "fs \<Rightarrow> path \<Rightarrow> read_error + descriptor \<times> pybytes \<times> pystr list" where
  "admit_ledger F p =
     bnd (open_directory F (path_parent p) p) (\<lambda>d.
     bnd (open_regular_file d (path_name p) LedgerNotFile) (\<lambda>content.
     bnd (segment_paths (path_name p) (keys (hd d))) (\<lambda>files.
       Inr (d, content, files))))"

definition ledger_error :: "raised \<Rightarrow> raised + chain" where
  "ledger_error e =
     (case e of
        RaisedRead (Os ENOENT) \<Rightarrow> Inr (no_chain LedgerMissing)
      | RaisedRead (Limit name line_no reason) \<Rightarrow>
          Inr (no_chain (if reason = LedgerNotFile then LedgerPathNotFile
                         else InputLimit name None reason))
      | _ \<Rightarrow> Inl e)"

definition walk_ledger ::
    "interp \<Rightarrow> fs \<Rightarrow> path \<Rightarrow> int \<Rightarrow> raised + chain \<times> (pystr, json) dict list" where
  "walk_ledger I F p want =
     (case (case admit_ledger F p of
         Inl e \<Rightarrow> Inl (RaisedRead e)
       | Inr (d, content, files) \<Rightarrow> walk_chain I want d (path_name p) content files) of
        Inl e \<Rightarrow> bnd (ledger_error e) (\<lambda>c. Inr (c, []))
      | Inr r \<Rightarrow> Inr r)"

definition read_verified_records ::
    "interp \<Rightarrow> fs \<Rightarrow> path \<Rightarrow> raised + bool \<times> (pystr, json) dict list \<times> chain_error option" where
  "read_verified_records I F p =
     bnd (walk_ledger I F p 0) (\<lambda>(c, records).
       if \<not> ok c then Inr (False, [], error c) else Inr (True, records, None))"

datatype head_error = HeadOfInvalid "chain_error option" | HeadOfEmpty | HeadRaised raised

definition read_head :: "interp \<Rightarrow> fs \<Rightarrow> path \<Rightarrow> head_error + nat \<times> pystr" where
  "read_head I F p =
     (case walk_ledger I F p 0 of
        Inl e \<Rightarrow> Inl (HeadRaised e)
      | Inr (c, records) \<Rightarrow>
          if \<not> ok c then Inl (HeadOfInvalid (error c))
          else if count c = 0 then Inl HeadOfEmpty
          else Inr (count c, head_hash c))"

section \<open>The specification\<close>

text \<open>
  The abstract ledger: a list of records, numbered from 1, each linked to the one before
  and sealed by its own digest.
\<close>

definition record_link :: "(pystr, json) dict \<Rightarrow> json" where
  "record_link r = get r k_prev_hash"

definition record_seal :: "(pystr, json) dict \<Rightarrow> json" where
  "record_seal r = get r k_record_hash"

definition sealed :: "interp \<Rightarrow> (pystr, json) dict \<Rightarrow> bool" where
  "sealed I r \<longleftrightarrow> (\<exists>h. hex64 h \<and> record_seal r = JStr h \<and>
     hash_object I (JObj (dict_del k_record_hash r)) = Inr h)"

definition valid_from :: "interp \<Rightarrow> nat \<Rightarrow> pystr \<Rightarrow> (pystr, json) dict list \<Rightarrow> bool" where
  "valid_from I n prev_hash rs \<longleftrightarrow>
     map (\<lambda>r. get r k_seq) rs = map (\<lambda>i. JInt (int i + 1)) [n..<n + length rs]
     \<and> chained record_link record_seal (JStr prev_hash) rs
     \<and> list_all (sealed I) rs"

abbreviation valid_ledger :: "interp \<Rightarrow> (pystr, json) dict list \<Rightarrow> bool" where
  "valid_ledger I rs \<equiv> valid_from I 0 genesis_hash rs"

definition seal_text :: "(pystr, json) dict \<Rightarrow> pystr" where
  "seal_text r = (case record_seal r of JStr h \<Rightarrow> h | _ \<Rightarrow> [])"

text \<open>The events of a run of lines that parse to records.\<close>

definition record_lines :: "interp \<Rightarrow> line_event list \<Rightarrow> (pystr, json) dict list \<Rightarrow> bool" where
  "record_lines I evs rs \<longleftrightarrow>
     list_all2 (\<lambda>ev r. \<exists>name k t. ev = Line name k t \<and> strict_json_loads I t = Inr (JObj r)) evs rs"

section \<open>The check refines the specification\<close>

lemma check_record_Inr:
  "check_record I text n prev_hash = Inr (Inr (h, r)) \<longleftrightarrow>
    strict_json_loads I text = Inr (JObj r) \<and> get r k_seq = JInt (int n + 1)
    \<and> record_link r = JStr prev_hash \<and> sealed I r \<and> h = seal_text r"
  by (auto simp: check_record_def raise_simps is_digest_iff record_link_def record_seal_def
      sealed_def seal_text_def split: sum.splits option.splits if_splits)

lemma valid_from_simps [simp]:
  "valid_from I n p []"
  "valid_from I n p (r # rs) \<longleftrightarrow> get r k_seq = JInt (int n + 1) \<and> record_link r = JStr p
    \<and> sealed I r \<and> valid_from I (n + 1) (seal_text r) rs"
proof -
  have "seal_text r = h \<and> record_seal r = JStr h" if "hex64 h" "record_seal r = JStr h" for h
    using that by (simp add: seal_text_def)
  then have "sealed I r \<Longrightarrow> record_seal r = JStr (seal_text r)"
    by (auto simp: sealed_def)
  then show "valid_from I n p (r # rs) \<longleftrightarrow> get r k_seq = JInt (int n + 1) \<and> record_link r = JStr p
      \<and> sealed I r \<and> valid_from I (n + 1) (seal_text r) rs"
    by (auto simp: valid_from_def upt_conv_Cons simp del: upt_Suc)
qed (simp add: valid_from_def)

definition walked :: "int \<Rightarrow> nat \<Rightarrow> pystr \<Rightarrow> pystr option \<Rightarrow> (pystr, json) dict list \<Rightarrow> chain" where
  "walked want n prev_hash at rs =
     \<lparr>ok = True, count = n + length rs, error = None,
      head_hash = (if rs = [] then prev_hash else seal_text (last rs)),
      hash_at = (if int n < want \<and> want \<le> int (n + length rs)
                 then Some (seal_text (rs ! (nat want - n - 1))) else at)\<rparr>"

lemma walked_Nil [simp]: "walked want n p at [] =
    \<lparr>ok = True, count = n, error = None, head_hash = p, hash_at = at\<rparr>"
  by (auto simp: walked_def)

lemma walked_Cons: "walked want n p at (r # rs) =
    walked want (n + 1) (seal_text r) (if int (n + 1) = want then Some (seal_text r) else at) rs"
proof -
  have "nat want - n - 1 = Suc (nat want - (n + 1) - 1)" if "int (n + 1) < want"
    using that by linarith
  moreover have "nat want - n - 1 = 0" if "want = int (n + 1)"
    using that by simp
  ultimately show ?thesis
    by (cases "want < int (n + 1)"; cases "want = int (n + 1)")
      (auto simp: walked_def simp del: One_nat_def diff_diff_left)
qed

lemma chain_ok_walked [simp]: "ok (walked want n p at rs)"
  by (simp add: walked_def)

lemma record_lines_simps [simp]:
  "record_lines I [] rs \<longleftrightarrow> rs = []"
  "record_lines I evs [] \<longleftrightarrow> evs = []"
  "record_lines I (Line name k t # evs) (r # rs) \<longleftrightarrow>
     strict_json_loads I t = Inr (JObj r) \<and> record_lines I evs rs"
  "\<not> record_lines I (Broken e # evs) rs"
  by (auto simp: record_lines_def list_all2_Cons1)

lemma walk_lines_iff:
  "n \<le> max_ledger_records \<Longrightarrow>
   walk_lines I want n p at vis evs = Inr (c, out) \<and> ok c \<longleftrightarrow>
   (\<exists>rs. record_lines I evs rs \<and> n + length rs \<le> max_ledger_records \<and> valid_from I n p rs
      \<and> c = walked want n p at rs \<and> out = vis @ rs)"
proof (induction I want n p at vis evs arbitrary: c out rule: walk_lines.induct)
  case (2 I want n p at vis ev evs)
  show ?case
  proof (cases ev)
    case (Broken e)
    then show ?thesis by (cases e) auto
  next
    case (Line name k t)
    show ?thesis
    proof (cases "\<exists>h r. n < max_ledger_records \<and> check_record I t n p = Inr (Inr (h, r))")
      case True
      then obtain h r where c: "n < max_ledger_records" "check_record I t n p = Inr (Inr (h, r))"
        by blast
      have ih: "walk_lines I want (n + 1) h (if int (n + 1) = want then Some h else at) (vis @ [r]) evs
            = Inr (c, out) \<and> ok c \<longleftrightarrow>
          (\<exists>rs. record_lines I evs rs \<and> n + 1 + length rs \<le> max_ledger_records
            \<and> valid_from I (n + 1) h rs
            \<and> c = walked want (n + 1) h (if int (n + 1) = want then Some h else at) rs
            \<and> out = (vis @ [r]) @ rs)"
        using "2.IH" Line c by simp
      note r = c(2) [unfolded check_record_Inr]
      have "record_lines I (ev # evs) rs0 \<longleftrightarrow> (\<exists>rs. rs0 = r # rs \<and> record_lines I evs rs)" for rs0
        using r Line by (cases rs0) auto
      with ih r c Line show ?thesis
        by (auto simp: walked_Cons)
    next
      case False
      have "\<not> (record_lines I (ev # evs) rs \<and> n + length rs \<le> max_ledger_records \<and> valid_from I n p rs)"
        for rs
        using False Line by (cases rs) (auto simp: check_record_Inr)
      moreover have "\<not> (walk_lines I want n p at vis (ev # evs) = Inr (c, out) \<and> ok c)"
        using False Line by (auto split: sum.splits)
      ultimately show ?thesis by blast
    qed
  qed
qed auto

section \<open>No exception escapes the check of a record\<close>

lemma file_lines_scalar:
  "file_lines name n t p bs = (evs, r) \<Longrightarrow> Line f k x \<in> set evs \<Longrightarrow> scalar_text x"
proof (induction name n t p bs arbitrary: evs r rule: file_lines.induct)
  case (1 name n t p bs)
  obtain raw rest where rl: "readline (max_ledger_line_bytes + 1) bs = (raw, rest)"
    by fastforce
  note rl' = rl [simplified]
  note ih = "1.IH" [OF rl [symmetric] _ refl refl refl]
  obtain es q where es: "file_lines name (Suc n) (t + length raw) (Suc p) rest = (es, q)"
    by fastforce
  have "evs = es \<and> raw \<noteq> [] \<and> \<not> max_ledger_line_bytes < length raw
        \<and> \<not> max_ledger_bytes < t + length raw \<and> \<not> max_ledger_physical_lines < Suc p
        \<and> bytes_strip raw = []
      \<or> (\<exists>y. evs = Line name (Suc n) y # es \<and> raw \<noteq> [] \<and> \<not> max_ledger_line_bytes < length raw
        \<and> \<not> max_ledger_bytes < t + length raw \<and> \<not> max_ledger_physical_lines < Suc p
        \<and> bytes_strip raw \<noteq> [] \<and> utf8_decode (bytes_strip raw) = Some y)
      \<or> evs = [] \<or> (\<exists>e. evs = [Broken e])"
    using "1.prems"(1) by (subst (asm) file_lines.simps)
      (auto simp: Let_def rl' es split: if_splits option.splits)
  then show ?case
    using ih(1) [of es q] ih(2) [of _ es q] es "1.prems"(2)
    by (elim disjE exE conjE) (auto dest: utf8_decode_scalar)
qed

lemma ledger_lines_scalar:
  "Line f k x \<in> set (ledger_lines d active content t p names) \<Longrightarrow> scalar_text x"
  by (induction d active content t p names rule: ledger_lines.induct)
    (auto split: sum.splits prod.splits option.splits dest: file_lines_scalar file_lines_scalar [OF sym])

definition scalar_lines :: "line_event list \<Rightarrow> bool" where
  "scalar_lines evs \<longleftrightarrow> (\<forall>f k x. Line f k x \<in> set evs \<longrightarrow> scalar_text x)"

lemma scalar_ledger_lines: "scalar_lines (ledger_lines d active content t p names)"
  by (auto simp: scalar_lines_def dest: ledger_lines_scalar)

lemma check_record_total:
  assumes "scalar_text text" shows "check_record I text n p \<noteq> Inl e"
proof (cases "strict_json_loads I text")
  case (Inl e')
  then have "e' = ValueError"
    by (auto simp: strict_json_loads_def split: if_splits option.splits)
  with Inl show ?thesis by (simp add: check_record_def)
next
  case (Inr v)
  have "\<exists>h. hash_object I (JObj (dict_del k_record_hash r)) = Inr h" if "v = JObj r" for r
    using strict_json_loads_ok [OF Inr assms] that by (blast intro: hash_object_total printable_del)
  then show ?thesis
    using Inr by (auto simp: check_record_def split: option.splits if_splits)
qed

lemma walk_lines_no_exception:
  "scalar_lines evs \<Longrightarrow>
   walk_lines I want n p at vis evs \<noteq> Inl (Raised e)"
proof (induction I want n p at vis evs rule: walk_lines.induct)
  case (2 I want n p at vis ev evs)
  show ?case
  proof (cases ev)
    case (Broken x)
    then show ?thesis by (cases x) auto
  next
    case (Line f k t)
    then have "scalar_text t"
      using "2.prems" by (simp add: scalar_lines_def)
    then have "check_record I t n p \<noteq> Inl e'" for e'
      by (rule check_record_total)
    with 2 Line show ?thesis by (auto simp: scalar_lines_def split: sum.splits)
  qed
qed simp

section \<open>The ledger is a hash chain\<close>

definition sound_record :: "interp \<Rightarrow> (pystr, json) dict \<Rightarrow> bool" where
  "sound_record I r \<longleftrightarrow> json_ok (JObj r) \<and> sealed I r \<and> float_codec I (JObj r)"

definition record_clash :: "interp \<Rightarrow> (pystr, json) dict \<Rightarrow> (pystr, json) dict \<Rightarrow> bool" where
  "record_clash I r r' \<longleftrightarrow>
     collide I (JObj (dict_del k_record_hash r)) (JObj (dict_del k_record_hash r'))"

definition record_same :: "(pystr, json) dict \<Rightarrow> (pystr, json) dict \<Rightarrow> bool" where
  "record_same r r' \<longleftrightarrow> json_equiv (JObj r) (JObj r')"

lemma sealed_seal: "sealed I r \<Longrightarrow> record_seal r = JStr (seal_text r)"
  by (auto simp: sealed_def seal_text_def)

lemma record_binds:
  assumes "sound_record I r" "sound_record I r'" "record_seal r = record_seal r'"
  shows "record_same r r' \<or> record_clash I r r'"
proof -
  have wf: "json_ok (JObj r)" "json_ok (JObj r')" "dict_ok r" "dict_ok r'"
      "float_codec I (JObj r)" "float_codec I (JObj r')"
    using assms by (simp_all add: sound_record_def)
  obtain h where h: "record_seal r = JStr h" "record_seal r' = JStr h"
      "hash_object I (JObj (dict_del k_record_hash r)) = Inr h"
      "hash_object I (JObj (dict_del k_record_hash r')) = Inr h"
    using assms by (auto simp: sound_record_def sealed_def)
  then have "map_of r k_record_hash = Some (JStr h)" "map_of r' k_record_hash = Some (JStr h)"
    by (auto simp: record_seal_def get_def split: option.splits)
  with hash_object_binds [OF h(3,4) json_ok_del json_ok_del float_codec_del float_codec_del] wf
  show ?thesis
    unfolding record_same_def record_clash_def
    by (auto simp del: json_equiv.simps intro!: json_equiv_obj_del [OF wf(3,4)])
qed

definition chain_record :: "interp \<Rightarrow> (pystr, json) dict \<Rightarrow> bool" where
  "chain_record I r \<longleftrightarrow> sound_record I r \<and> (\<exists>p. record_link r = JStr p)"

lemma record_same_link:
  assumes "chain_record I r" "chain_record I r'" "record_same r r'"
  shows "record_link r = record_link r'"
proof -
  have "json_equiv (record_link r) (record_link r')"
    using assms by (simp add: chain_record_def sound_record_def record_same_def record_link_def
        json_equiv_get)
  with assms(2) show ?thesis by (auto simp: chain_record_def)
qed

interpretation ledger_chain: hash_chain "chain_record I" record_link record_seal record_same
  "record_clash I" for I
  by unfold_locales (metis chain_record_def record_binds, rule record_same_link)

lemma valid_from_chained:
  "valid_from I n p rs \<Longrightarrow> chained record_link record_seal (JStr p) rs \<and> list_all (sealed I) rs"
  by (simp add: valid_from_def)

lemma valid_from_links: "valid_from I n p rs \<Longrightarrow> r \<in> set rs \<Longrightarrow> \<exists>q. record_link r = JStr q"
  by (induction rs arbitrary: n p) auto

lemma record_lines_ok:
  "record_lines I evs rs \<Longrightarrow> scalar_lines evs \<Longrightarrow> r \<in> set rs \<Longrightarrow> json_ok (JObj r)"
  unfolding record_lines_def
  by (induction rule: list_all2_induct)
    (auto simp: scalar_lines_def simp del: json_ok.simps dest: strict_json_loads_ok)

section \<open>What an accepted ledger is\<close>

lemma no_chain_not_ok [simp]: "\<not> ok (no_chain e)"
  by (simp add: no_chain_def)

lemma ledger_error_not_ok: "ledger_error e = Inr c \<Longrightarrow> \<not> ok c"
  by (auto simp: ledger_error_def split: raised.splits read_error.splits os_error.splits)

text \<open>The lines of the admitted files, in the order of the walk.\<close>

definition admitted_lines :: "fs \<Rightarrow> path \<Rightarrow> line_event list option" where
  "admitted_lines F p =
     (case admit_ledger F p of
        Inl e \<Rightarrow> None
      | Inr (d, content, files) \<Rightarrow> Some (ledger_lines d (path_name p) content 0 0 files))"

lemma scalar_admitted: "admitted_lines F p = Some evs \<Longrightarrow> scalar_lines evs"
  by (auto simp: admitted_lines_def scalar_ledger_lines split: sum.splits)

lemma walk_ledger_ok:
  "walk_ledger I F p want = Inr (c, rs) \<and> ok c \<longleftrightarrow>
   (\<exists>evs. admitted_lines F p = Some evs \<and> record_lines I evs rs
      \<and> length rs \<le> max_ledger_records \<and> valid_ledger I rs
      \<and> c = walked want 0 genesis_hash None rs)"
proof (cases "admit_ledger F p")
  case (Inl e)
  then show ?thesis
    by (auto simp: walk_ledger_def admitted_lines_def raise_simps dest: ledger_error_not_ok)
next
  case (Inr a)
  obtain d content files where a: "a = (d, content, files)" by (cases a) auto
  let ?evs = "ledger_lines d (path_name p) content 0 0 files"
  have "walk_ledger I F p want = Inr (c, rs) \<and> ok c \<longleftrightarrow>
      walk_lines I want 0 genesis_hash None [] ?evs = Inr (c, rs) \<and> ok c"
    by (auto simp: walk_ledger_def Inr a walk_chain_def raise_simps split: sum.splits
        dest: ledger_error_not_ok)
  then show ?thesis
    by (simp add: walk_lines_iff admitted_lines_def Inr a)
qed

lemma walk_ledger_sound:
  assumes "walk_ledger I F p want = Inr (c, rs)" "ok c" "r \<in> set rs" "float_codec I (JObj r)"
  shows "chain_record I r"
proof -
  obtain evs where e: "admitted_lines F p = Some evs" "record_lines I evs rs" "valid_ledger I rs"
    using assms(1,2) walk_ledger_ok [of I F p want c rs] by auto
  have "sealed I r"
    using valid_from_chained [OF e(3)] assms(3) by (simp add: list_all_iff)
  with assms(3,4) e show ?thesis
    using record_lines_ok [OF e(2) scalar_admitted [OF e(1)]] valid_from_links [OF e(3)]
    by (simp add: chain_record_def sound_record_def)
qed

text \<open>
  C36: the walk accepts a ledger exactly if every line of its files parses to an object and
  the objects form a numbered, linked and sealed chain; the reported count, head and hash
  at the requested sequence number are then those of that chain.
\<close>

theorem walk_ledger_iff:
  "(\<exists>c. walk_ledger I F p want = Inr (c, rs) \<and> ok c) \<longleftrightarrow>
   (\<exists>evs. admitted_lines F p = Some evs \<and> record_lines I evs rs
      \<and> length rs \<le> max_ledger_records \<and> valid_ledger I rs)"
  using walk_ledger_ok [of I F p want _ rs] by blast

section \<open>Writing a ledger\<close>

text \<open>The writer's side, for the round trip: one canonical line per record.\<close>

definition record_line :: "interp \<Rightarrow> (pystr, json) dict \<Rightarrow> pybytes" where
  "record_line I r = map of_nat (dumps (float_repr I) (JObj r)) @ [10]"

definition write_lines :: "interp \<Rightarrow> (pystr, json) dict list \<Rightarrow> pybytes" where
  "write_lines I rs = concat (map (record_line I) rs)"

definition normal_record :: "(pystr, json) dict \<Rightarrow> (pystr, json) dict" where
  "normal_record r = sort_key fst (map norm_member r)"

definition writable :: "interp \<Rightarrow> (pystr, json) dict \<Rightarrow> bool" where
  "writable I r \<longleftrightarrow> json_ok (JObj r) \<and> printable (JObj r) \<and> json_depth (JObj r) \<le> max_json_nesting
     \<and> float_codec I (JObj r) \<and> length (record_line I r) \<le> max_ledger_line_bytes"

lemma split_lines_line: "10 \<notin> set l \<Longrightarrow> split_lines (l @ 10 # bs) = (l @ [10]) # split_lines bs"
proof -
  assume "10 \<notin> set l"
  then have "takeWhile (\<lambda>c. c \<noteq> 10) (l @ 10 # bs) = l" "dropWhile (\<lambda>c. c \<noteq> 10) (l @ 10 # bs) = 10 # bs"
    by (induction l) auto
  then show ?thesis
    by (cases l) (auto simp: Let_def split: if_splits)
qed

lemma visible_bytes: "visible s \<Longrightarrow> (10::byte) \<notin> set (map of_nat s)"
proof -
  have "of_nat c \<noteq> (10::byte)" if "32 \<le> c" "c < 128" for c
  proof
    assume "of_nat c = (10::byte)"
    then have "unat (of_nat c :: byte) = unat (10::byte)" by simp
    with that show False by (simp add: unat_of_nat)
  qed
  then show "visible s \<Longrightarrow> (10::byte) \<notin> set (map of_nat s)"
    by (induction s) auto
qed

lemma record_text:
  assumes "writable I r"
  shows "strict_json_loads I (dumps (float_repr I) (JObj r)) = Inr (JObj (normal_record r))"
    and "visible (dumps (float_repr I) (JObj r))"
    and "bytes_strip (record_line I r) = map of_nat (dumps (float_repr I) (JObj r))"
    and "utf8_decode (map of_nat (dumps (float_repr I) (JObj r))) = Some (dumps (float_repr I) (JObj r))"
proof -
  let ?t = "dumps (float_repr I) (JObj r)"
  show "strict_json_loads I ?t = Inr (JObj (normal_record r))"
    using strict_loads_dumps [of "JObj r" I] assms
    by (simp add: writable_def normal_record_def norm_obj_eq del: norm_json.simps)
  show v: "visible ?t"
    using assms by (auto simp: writable_def float_codec_def list_all_iff
        simp del: dumps.simps json_floats.simps intro!: visible_dumps)
  then show "utf8_decode (map of_nat ?t) = Some ?t"
    by (simp add: utf8_decode_ascii visible_ascii del: dumps.simps)
  obtain m where "?t = 123 # m @ [125]" by (auto simp: lit_def)
  then have "map of_nat ?t = (123::byte) # map of_nat m @ [125]"
    by (simp del: dumps.simps)
  then show "bytes_strip (record_line I r) = map of_nat ?t"
    by (simp add: record_line_def bytes_strip_def strip_by_def ascii_space_def del: dumps.simps)
qed

lemma split_write_lines:
  "list_all (writable I) rs \<Longrightarrow> split_lines (write_lines I rs) = map (record_line I) rs"
proof (induction rs)
  case (Cons r rs)
  then have "10 \<notin> set (map of_nat (dumps (float_repr I) (JObj r)) :: pybytes)"
    using record_text(2) [of I r] visible_bytes by (simp del: dumps.simps)
  with Cons split_lines_line [of "map of_nat (dumps (float_repr I) (JObj r))" "write_lines I rs"]
  show ?case by (simp add: write_lines_def record_line_def del: dumps.simps)
qed (simp add: write_lines_def)

lemma record_line_text:
  assumes "writable I r"
  shows "readable_line (record_line I r)" "bytes_strip (record_line I r) \<noteq> []"
    "the (utf8_decode (bytes_strip (record_line I r))) = dumps (float_repr I) (JObj r)"
  using record_text [OF assms] assms by (auto simp: readable_line_def writable_def lit_def)

lemma record_lines_written:
  "list_all (writable I) rs \<Longrightarrow>
   record_lines I (number_lines name n (map (record_line I) rs)) (map normal_record rs)"
  by (induction rs arbitrary: n) (auto simp: record_line_text record_text(1) simp del: dumps.simps)

lemma file_lines_written:
  assumes "list_all (writable I) rs" "t + length (write_lines I rs) \<le> max_ledger_bytes"
    "p + length rs \<le> max_ledger_physical_lines"
  shows "file_lines name 0 t p (write_lines I rs)
    = (number_lines name 0 (map (record_line I) rs), Some (t + length (write_lines I rs), p + length rs))"
  using assms
  by (simp add: file_lines_iff split_write_lines)
    (auto simp: list_all_iff record_line_text)

lemma record_lines_append:
  "record_lines I a rs \<Longrightarrow> record_lines I b ss \<Longrightarrow> record_lines I (a @ b) (rs @ ss)"
  unfolding record_lines_def by (rule list_all2_appendI)

lemma ledger_lines_written:
  assumes "list_all2 (\<lambda>name rs. (if name = active then Inr content else open_regular_file d name NotRegular)
      = Inr (write_lines I rs)) files chunks"
    and "list_all (list_all (writable I)) chunks"
    and "t + length (concat (map (write_lines I) chunks)) \<le> max_ledger_bytes"
    and "p + length (concat chunks) \<le> max_ledger_physical_lines"
  shows "record_lines I (ledger_lines d active content t p files) (map normal_record (concat chunks))"
  using assms
proof (induction files chunks arbitrary: t p rule: list_all2_induct)
  case (Cons name files rs chunks)
  note one = file_lines_written [of I rs t p name]
  from Cons one show ?case
    by (auto intro!: record_lines_append record_lines_written simp: add.assoc)
qed simp

text \<open>Sorting the keys of a record keeps its links and its seal.\<close>

lemma printable_norm: "printable (norm_json v) \<longleftrightarrow> printable v"
proof (induction v rule: json_induct)
  case (Obj kvs)
  then show ?case by (fastforce simp: list_all_iff)
qed (auto simp: list_all_iff)

lemma hash_object_norm: "json_ok v \<Longrightarrow> hash_object I (norm_json v) = hash_object I v"
  by (simp add: hash_object_def canonical_json_bytes_def printable_norm dumps_norm)

lemma map_of_normal: "dict_ok r \<Longrightarrow> map_of (normal_record r) k = map_option norm_json (map_of r k)"
proof -
  assume r: "dict_ok r"
  then have "distinct (map fst (map norm_member r))"
    by (metis dict_ok_def keys_def keys_norm_member)
  then have "map_of (normal_record r) = map_of (map norm_member r)"
    unfolding normal_record_def
    by (intro map_of_inject_set [THEN iffD2]) (auto simp: distinct_map intro: inj_on_imageI2 inj_on_imageI)
  also have "\<dots> = (\<lambda>k. map_option norm_json (map_of r k))"
    by (induction r) (auto simp: fun_eq_iff)
  finally show ?thesis by simp
qed

lemma get_normal: "dict_ok r \<Longrightarrow> get (normal_record r) k = norm_json (get r k)"
  by (simp add: get_def map_of_normal split: option.splits)

lemma normal_del: "dict_del k (normal_record r) = normal_record (dict_del k r)"
  by (simp add: dict_del_def normal_record_def filter_sort filter_map o_def case_prod_beta)

lemma normal_obj: "JObj (normal_record r) = norm_json (JObj r)"
  by (simp add: normal_record_def norm_obj_eq del: norm_json.simps)

lemma normal_keeps:
  assumes "json_ok (JObj r)" "sealed I r"
  shows "sealed I (normal_record r)" "seal_text (normal_record r) = seal_text r"
proof -
  obtain h where h: "hex64 h" "record_seal r = JStr h"
      "hash_object I (JObj (dict_del k_record_hash r)) = Inr h"
    using assms(2) by (auto simp: sealed_def)
  have "record_seal (normal_record r) = JStr h"
    using h(2) assms(1) by (simp add: record_seal_def get_normal)
  moreover have "hash_object I (JObj (dict_del k_record_hash (normal_record r))) = Inr h"
    using h(3) json_ok_del [OF assms(1)]
    by (simp add: normal_del normal_obj hash_object_norm del: norm_json.simps)
  ultimately show "sealed I (normal_record r)" "seal_text (normal_record r) = seal_text r"
    using h by (auto simp: sealed_def seal_text_def)
qed

lemma valid_from_normal:
  "list_all (writable I) rs \<Longrightarrow> valid_from I n p rs \<Longrightarrow> valid_from I n p (map normal_record rs)"
proof (induction rs arbitrary: n p)
  case (Cons r rs)
  then have ok: "json_ok (JObj r)" and s: "sealed I r" by (simp_all add: writable_def)
  with Cons show ?case
    by (simp add: normal_keeps [OF ok s] record_link_def get_normal)
qed simp

definition written_as :: "interp \<Rightarrow> fs \<Rightarrow> path \<Rightarrow> (pystr, json) dict list list \<Rightarrow> bool" where
  "written_as I F p chunks \<longleftrightarrow>
     (case admit_ledger F p of
        Inl e \<Rightarrow> False
      | Inr (d, content, files) \<Rightarrow>
          list_all2 (\<lambda>name rs. (if name = path_name p then Inr content
            else open_regular_file d name NotRegular) = Inr (write_lines I rs)) files chunks)
     \<and> list_all (list_all (writable I)) chunks
     \<and> length (concat (map (write_lines I) chunks)) \<le> max_ledger_bytes"

lemma written_walk:
  assumes "written_as I F p chunks" "valid_ledger I (concat chunks)"
    and "length (concat chunks) \<le> max_ledger_records"
  shows "walk_ledger I F p want
    = Inr (walked want 0 genesis_hash None (map normal_record (concat chunks)),
        map normal_record (concat chunks))"
proof -
  obtain d content files where a: "admit_ledger F p = Inr (d, content, files)"
    using assms(1) by (auto simp: written_as_def split: sum.splits)
  have "length (concat chunks) \<le> max_ledger_physical_lines"
    using assms(3) by (simp add: max_ledger_records_def max_ledger_physical_lines_def)
  with assms a have "record_lines I (ledger_lines d (path_name p) content 0 0 files)
      (map normal_record (concat chunks))"
    by (intro ledger_lines_written) (auto simp: written_as_def)
  moreover have "valid_ledger I (map normal_record (concat chunks))"
    using assms(1,2) by (intro valid_from_normal) (auto simp: written_as_def list_all_iff)
  ultimately show ?thesis
    using walk_ledger_ok [of I F p want "walked want 0 genesis_hash None (map normal_record (concat chunks))"
        "map normal_record (concat chunks)"] a assms(3)
    by (auto simp: admitted_lines_def)
qed

text \<open>
  C37: a chain of records written as canonical lines, cut at any points into rotated
  segments and an active file, is accepted, and the records come back in order with
  their keys sorted.
\<close>

theorem written_ledger_accepted:
  assumes "written_as I F p chunks" "valid_ledger I (concat chunks)"
    and "length (concat chunks) \<le> max_ledger_records"
  shows "read_verified_records I F p = Inr (True, map normal_record (concat chunks), None)"
  by (simp add: read_verified_records_def written_walk [OF assms])

section \<open>Tamper evidence\<close>

lemma walked_facts:
  assumes "walk_ledger I F p want = Inr (c, rs)" "ok c"
  shows "count c = length rs" "chained record_link record_seal (JStr genesis_hash) rs"
    and "rs \<noteq> [] \<Longrightarrow> chain_head record_seal g rs = JStr (head_hash c)"
    and "hash_at c = Some h \<Longrightarrow> 0 < want \<and> want \<le> int (length rs)
      \<and> record_seal (rs ! (nat want - 1)) = JStr h"
proof -
  have v: "valid_ledger I rs" and c: "c = walked want 0 genesis_hash None rs"
    using assms walk_ledger_ok [of I F p want c rs] by auto
  have seal: "r \<in> set rs \<Longrightarrow> record_seal r = JStr (seal_text r)" for r
    using valid_from_chained [OF v] by (auto simp: list_all_iff intro: sealed_seal)
  show "count c = length rs" "chained record_link record_seal (JStr genesis_hash) rs"
    using valid_from_chained [OF v] c by (simp_all add: walked_def)
  show "chain_head record_seal g rs = JStr (head_hash c)" if "rs \<noteq> []"
    using that seal by (simp add: c walked_def chain_head_def)
  show "0 < want \<and> want \<le> int (length rs) \<and> record_seal (rs ! (nat want - 1)) = JStr h"
    if "hash_at c = Some h"
    using that seal [of "rs ! (nat want - 1)"] by (auto simp: c walked_def split: if_splits)
qed

text \<open>
  C35: a ledger whose head is found at its own position in a second accepted ledger is a
  prefix of that ledger, record by record up to key order, unless two records at the same
  position have different canonical texts with one SHA-256 digest.
\<close>

theorem ledger_tamper_evident:
  assumes "walk_ledger I F p want = Inr (c, rs)" "ok c"
    and "walk_ledger I F' p' (int (count c)) = Inr (c', rs')" "ok c'"
    and "hash_at c' = Some (head_hash c)"
    and "\<forall>r \<in> set rs \<union> set rs'. float_codec I (JObj r)"
  shows "list_all2 record_same rs (take (length rs) rs')
    \<or> list_ex (\<lambda>(r, r'). record_clash I r r') (zip rs (take (length rs) rs'))"
proof (rule ledger_chain.prefix_evident)
  note w = walked_facts [OF assms(1,2)] and w' = walked_facts [OF assms(3,4)]
  show "list_all (chain_record I) rs" "list_all (chain_record I) rs'"
    using walk_ledger_sound [OF assms(1,2)] walk_ledger_sound [OF assms(3,4)] assms(6)
    by (auto simp: list_all_iff)
  show "chained record_link record_seal (JStr genesis_hash) rs"
    "chained record_link record_seal (JStr genesis_hash) rs'"
    using w(2) w'(2) by simp_all
  have at: "0 < length rs" "length rs \<le> length rs'"
      "record_seal (rs' ! (length rs - 1)) = JStr (head_hash c)"
    using w'(4) [OF assms(5)] w(1) by auto
  then show "0 < length rs" "length rs \<le> length rs'" by simp_all
  show "chain_head record_seal (JStr genesis_hash) rs = record_seal (rs' ! (length rs - 1))"
    using at w(3) by auto
qed simp

lemma walk_ledger_raises: "walk_ledger I F p want \<noteq> Inl (Raised e)"
  using walk_lines_no_exception [OF scalar_ledger_lines]
  by (fastforce simp: walk_ledger_def walk_chain_def ledger_error_def raise_simps bnd_Inl_iff
      split: sum.splits raised.splits read_error.splits os_error.splits)

text \<open>
  No exception but an error of the operating system (or the conversion of an absurdly
  long segment number) leaves a walk, whatever bytes the files hold.
\<close>

theorem walk_ledger_exceptions:
  "walk_ledger I F p want \<noteq> Inl (Raised e)"
  by (rule walk_ledger_raises)

text \<open>
  \<open>read_head\<close> returns a head exactly for an accepted, non-empty ledger: the number of
  its records and the \<open>record_hash\<close> of the last one.
\<close>

theorem read_head_iff:
  "read_head I F p = Inr (n, h) \<longleftrightarrow>
   (\<exists>evs rs. admitted_lines F p = Some evs \<and> record_lines I evs rs
      \<and> length rs \<le> max_ledger_records \<and> valid_ledger I rs
      \<and> rs \<noteq> [] \<and> n = length rs \<and> record_seal (last rs) = JStr h)"
proof -
  have w: "rs \<noteq> [] \<longleftrightarrow> 0 < count (walked 0 0 genesis_hash None rs)"
    "count (walked 0 0 genesis_hash None rs) = length rs"
    "rs \<noteq> [] \<Longrightarrow> head_hash (walked 0 0 genesis_hash None rs) = seal_text (last rs)" for rs
    by (simp_all add: walked_def)
  have "read_head I F p = Inr (n, h) \<longleftrightarrow>
      (\<exists>c rs. (walk_ledger I F p 0 = Inr (c, rs) \<and> ok c) \<and> 0 < count c \<and> n = count c \<and> h = head_hash c)"
    by (auto simp: read_head_def split: sum.splits)
  also have "\<dots> \<longleftrightarrow> (\<exists>evs rs. admitted_lines F p = Some evs \<and> record_lines I evs rs
      \<and> length rs \<le> max_ledger_records \<and> valid_ledger I rs
      \<and> rs \<noteq> [] \<and> n = length rs \<and> h = seal_text (last rs))"
    unfolding walk_ledger_ok by (metis w)
  also have "\<dots> \<longleftrightarrow> (\<exists>evs rs. admitted_lines F p = Some evs \<and> record_lines I evs rs
      \<and> length rs \<le> max_ledger_records \<and> valid_ledger I rs
      \<and> rs \<noteq> [] \<and> n = length rs \<and> record_seal (last rs) = JStr h)"
  proof -
    have "record_seal (last rs) = JStr (seal_text (last rs))" if "valid_ledger I rs" "rs \<noteq> []" for rs
      using valid_from_chained [OF that(1)] that(2) by (auto simp: list_all_iff intro!: sealed_seal)
    then have "record_seal (last rs) = JStr h \<longleftrightarrow> h = seal_text (last rs)"
      if "valid_ledger I rs" "rs \<noteq> []" for rs
      using that by auto
    then show ?thesis by (simp cong: conj_cong)
  qed
  finally show ?thesis .
qed

section \<open>A concrete ledger\<close>

definition tiny_interp :: interp where
  "tiny_interp = \<lparr>float_repr = (\<lambda>x. lit ''0.5''), float_of = (\<lambda>t. Fin False 1 (- 1)),
     sha256 = (\<lambda>bs. replicate 60 48 @ hex4 (length bs))\<rparr>"

definition tiny_hash :: "string \<Rightarrow> pystr" where
  "tiny_hash s = replicate 60 48 @ lit s"

definition tiny_first :: "(pystr, json) dict" where
  "tiny_first = [(k_seq, JInt 1), (k_prev_hash, JStr genesis_hash),
     (k_record_hash, JStr (tiny_hash ''0061'')), (lit ''x'', JNull)]"

definition tiny_second :: "(pystr, json) dict" where
  "tiny_second = [(k_seq, JInt 2), (k_prev_hash, JStr (tiny_hash ''0061'')),
     (k_record_hash, JStr (tiny_hash ''0062'')), (lit ''x'', JStr (lit ''two''))]"

lemmas tiny_defs = tiny_first_def tiny_second_def tiny_hash_def record_keys tiny_interp_def
  lit_def genesis_hash_def

lemmas dumps_defs = max_str_digits_def dumps_str_def esc_char_def dec_digits.simps int_text_def
  hex4_def hex_digit_def

lemma tiny_seals:
  "hash_object tiny_interp (JObj (dict_del k_record_hash tiny_first)) = Inr (tiny_hash ''0061'')"
  "hash_object tiny_interp (JObj (dict_del k_record_hash tiny_second)) = Inr (tiny_hash ''0062'')"
  by (simp_all add: hash_object_def canonical_json_bytes_def dict_del_def tiny_defs dumps_defs)

lemma tiny_hash_facts: "hex64 (tiny_hash ''0061'')" "hex64 (tiny_hash ''0062'')"
  by (simp_all add: hex64_def list_all_iff tiny_hash_def lit_def is_lower_hex_def is_dec_digit_def)

lemma tiny_sealed: "sealed tiny_interp tiny_first" "sealed tiny_interp tiny_second"
  using tiny_seals tiny_hash_facts
  by (auto simp: sealed_def record_seal_def) (simp_all add: tiny_first_def tiny_second_def record_keys)

lemma tiny_valid: "valid_ledger tiny_interp [tiny_first, tiny_second]"
  using tiny_sealed
  by (simp add: record_link_def seal_text_def record_seal_def)
    (simp add: tiny_first_def tiny_second_def record_keys)

lemma tiny_writable: "writable tiny_interp tiny_first" "writable tiny_interp tiny_second"
  by (simp_all add: writable_def record_line_def max_ledger_line_bytes_def float_codec_def
      scalar_text_def list_all_iff is_surrogate_def dict_ok_def max_json_nesting_def tiny_defs dumps_defs)

definition k_active :: pystr where "k_active = lit ''l.jsonl''"
definition k_segment :: pystr where "k_segment = lit ''l.1.jsonl''"

definition tiny_path :: path where
  "tiny_path = \<lparr>absolute = True, parts = [lit ''d'', k_active]\<rparr>"

definition tiny_fs :: "(pystr \<times> (pystr, json) dict list) list \<Rightarrow> fs" where
  "tiny_fs files = \<lparr>root_dir = [(lit ''d'',
     DirNode (map (\<lambda>(n, rs). (n, FileNode (write_lines tiny_interp rs))) files))], cwd = []\<rparr>"

definition tiny_before :: fs where "tiny_before = tiny_fs [(k_active, [tiny_first])]"
definition tiny_after :: fs where
  "tiny_after = tiny_fs [(k_active, [tiny_second]), (k_segment, [tiny_first])]"

lemmas tiny_fs_defs = tiny_before_def tiny_after_def tiny_fs_def tiny_path_def path_parent_def
  path_name_def open_directory_def os_open_directory_def k_active_def k_segment_def lit_def
  dot_def dot_dot_def admit_ledger_def open_regular_file_def

lemma tiny_segments:
  "segment_paths k_active [k_active, k_segment] = Inr [k_segment, k_active]"
  "segment_paths k_active [k_active] = Inr [k_active]"
  by (simp_all add: segment_paths_def k_active_def k_segment_def segment_middle_def splitext_def lit_def
      ends_with_def max_ledger_directory_entries_def max_ledger_segments_def max_str_digits_def)

lemma tiny_admit:
  "admit_ledger tiny_before tiny_path
    = Inr ([[(k_active, FileNode (write_lines tiny_interp [tiny_first]))], root_dir tiny_before],
        write_lines tiny_interp [tiny_first], [k_active])"
  "admit_ledger tiny_after tiny_path
    = Inr ([[(k_active, FileNode (write_lines tiny_interp [tiny_second])),
          (k_segment, FileNode (write_lines tiny_interp [tiny_first]))], root_dir tiny_after],
        write_lines tiny_interp [tiny_second], [k_segment, k_active])"
  using tiny_segments by (simp_all add: tiny_fs_defs)

lemma tiny_sizes:
  "length (write_lines tiny_interp [tiny_first]) + length (write_lines tiny_interp [tiny_second])
    \<le> max_ledger_bytes"
  using tiny_writable
  by (simp add: write_lines_def writable_def max_ledger_line_bytes_def max_ledger_bytes_def)

lemma tiny_written:
  "written_as tiny_interp tiny_before tiny_path [[tiny_first]]"
  "written_as tiny_interp tiny_after tiny_path [[tiny_first], [tiny_second]]"
  using tiny_sizes tiny_writable
  by (simp_all add: written_as_def tiny_admit)
    (simp_all add: tiny_path_def path_name_def k_active_def k_segment_def dot_dot_def
        open_regular_file_def)

lemma tiny_count: "length [tiny_first, tiny_second] \<le> max_ledger_records"
  by (simp add: max_ledger_records_def)

theorem written_ledger_accepted_witness:
  "read_verified_records tiny_interp tiny_after tiny_path
    = Inr (True, map normal_record (concat [[tiny_first], [tiny_second]]), None)"
  by (rule written_ledger_accepted [OF tiny_written(2)])
    (use tiny_valid tiny_count in \<open>simp_all del: valid_from_simps\<close>)

lemma tiny_walks:
  "walk_ledger tiny_interp tiny_before tiny_path w
    = Inr (walked w 0 genesis_hash None [normal_record tiny_first], [normal_record tiny_first])"
  "walk_ledger tiny_interp tiny_after tiny_path w
    = Inr (walked w 0 genesis_hash None (map normal_record [tiny_first, tiny_second]),
        map normal_record [tiny_first, tiny_second])"
  using written_walk [OF tiny_written(1)] written_walk [OF tiny_written(2)] tiny_valid tiny_count
  by simp_all

lemma tiny_normal_floats:
  "float_codec tiny_interp (JObj (normal_record tiny_first))"
  "float_codec tiny_interp (JObj (normal_record tiny_second))"
  by (simp_all add: normal_record_def tiny_defs float_codec_def)

theorem ledger_tamper_evident_witness:
  "list_all2 record_same [normal_record tiny_first]
      (take 1 (map normal_record [tiny_first, tiny_second]))
    \<or> list_ex (\<lambda>(r, r'). record_clash tiny_interp r r')
      (zip [normal_record tiny_first] (take 1 (map normal_record [tiny_first, tiny_second])))"
  using ledger_tamper_evident [OF tiny_walks(1) [of 0] _ tiny_walks(2)] tiny_normal_floats
  by (simp add: walked_def)

end
