(* ===== verification/Head_Attestation.thy ===== *)
theory Head_Attestation
  imports Ledger
begin

text \<open>
  The modules \<open>head_attestation.py\<close> and \<open>head_attestation_checks.py\<close>: the signed head,
  the bytes it is signed over, the HMAC verifier, reading an attestation, and
  \<open>verify_chain\<close>.
\<close>

section \<open>Data\<close>

text \<open>
  A caller may build a \<open>HeadAttestation\<close> from any values, and the code tests their types
  before it uses them: the fields are values, not typed strings.
\<close>

record head_attestation =
  max_seq :: json
  head_record_hash :: json
  recorded_at :: json
  trust_root_id :: json
  signature :: json
  ledger_id :: json

definition "k_max_seq = lit ''max_seq''"
definition "k_head_record_hash = lit ''head_record_hash''"
definition "k_recorded_at = lit ''recorded_at''"
definition "k_trust_root_id = lit ''trust_root_id''"
definition "k_signature = lit ''signature''"
definition "k_ledger_id = lit ''ledger_id''"

lemmas att_keys = k_max_seq_def k_head_record_hash_def k_recorded_at_def k_trust_root_id_def
  k_signature_def k_ledger_id_def

text \<open>\<open>bool(v)\<close> of Python.\<close>

fun truthy :: "json \<Rightarrow> bool" where
  "truthy JNull = False"
| "truthy (JBool b) = b"
| "truthy (JInt n) = (n \<noteq> 0)"
| "truthy (JFloat (Fin s m e)) = (m \<noteq> 0)"
| "truthy (JFloat x) = True"
| "truthy (JStr s) = (s \<noteq> [])"
| "truthy (JList vs) = (vs \<noteq> [])"
| "truthy (JObj kvs) = (kvs \<noteq> [])"

definition payload_dict :: "head_attestation \<Rightarrow> (pystr, json) dict" where
  "payload_dict a =
     (let payload = [(k_head_record_hash, head_record_hash a), (k_max_seq, max_seq a),
        (k_recorded_at, recorded_at a), (k_trust_root_id, trust_root_id a)]
      in if truthy (ledger_id a) then dict_set k_ledger_id (ledger_id a) payload else payload)"

definition attestation_payload :: "interp \<Rightarrow> head_attestation \<Rightarrow> exc + pybytes" where
  "attestation_payload I a = canonical_json_bytes I (JObj (payload_dict a))"

definition attestation_block_keys :: "pystr list" where
  "attestation_block_keys =
     [k_max_seq, k_head_record_hash, k_ledger_id, k_recorded_at, k_trust_root_id, k_signature]"

definition attestation_block :: "head_attestation \<Rightarrow> (pystr, json) dict" where
  "attestation_block a =
     [(k_max_seq, max_seq a), (k_head_record_hash, head_record_hash a), (k_ledger_id, ledger_id a),
      (k_recorded_at, recorded_at a), (k_trust_root_id, trust_root_id a), (k_signature, signature a)]"

definition checkpoint_payload :: "interp \<Rightarrow> int \<Rightarrow> pystr \<Rightarrow> pystr \<Rightarrow> pystr \<Rightarrow> exc + pybytes" where
  "checkpoint_payload I seq record_hash attestation_hash witness_record_hash =
     canonical_json_bytes I (JObj
       [(lit ''attestation_hash'', JStr attestation_hash), (lit ''record_hash'', JStr record_hash),
        (lit ''seq'', JInt seq), (lit ''witness_record_hash'', JStr witness_record_hash)])"

section \<open>The HMAC verifier\<close>

text \<open>
  A \<open>HeadVerifier\<close> is a function on attestations; the two verifiers of the package are
  instances of the protocol. \<open>hmac key message\<close> is the hexadecimal HMAC-SHA256 of the
  standard library, a parameter. Strings that hold a surrogate do not encode
  (\<open>UnicodeEncodeError\<close> is a \<open>ValueError\<close>).
\<close>

type_synonym head_verifier = "head_attestation \<Rightarrow> bool"

record hmac_verifier =
  secret :: pystr
  verifier_root :: pystr

definition hmac_head_verifier :: "pystr \<Rightarrow> pystr \<Rightarrow> exc + hmac_verifier" where
  "hmac_head_verifier s root =
     (if s = [] then Inl ValueError
      else if root = [] then Inl ValueError
      else Inr \<lparr>secret = s, verifier_root = root\<rparr>)"

definition hmac_prefix :: pystr where
  "hmac_prefix = lit ''hmac-sha256:''"

definition hmac_verify_head ::
    "interp \<Rightarrow> (pybytes \<Rightarrow> pybytes \<Rightarrow> pystr) \<Rightarrow> hmac_verifier \<Rightarrow> head_attestation \<Rightarrow> exc + bool" where
  "hmac_verify_head I hmac v a =
     (if \<not> py_eq (trust_root_id a) (JStr (verifier_root v)) then Inr False
      else case as_str (signature a) of
        None \<Rightarrow> Inr False
      | Some encoded \<Rightarrow>
          if \<not> starts_with encoded hmac_prefix
            \<or> length encoded \<noteq> length hmac_prefix + 64
            \<or> list_ex (\<lambda>c. \<not> is_lower_hex c) (drop (length hmac_prefix) encoded)
          then Inr False
          else case utf8_encode (secret v) of
            None \<Rightarrow> Inl ValueError
          | Some key \<Rightarrow>
              bnd (attestation_payload I a) (\<lambda>payload.
                Inr (hmac_prefix @ hmac key payload = encoded)))"

section \<open>Reading an attestation\<close>

definition attest_path :: "path \<Rightarrow> exc + path" where
  "attest_path p =
     (if fst (splitext (path_name p)) = [] then Inl ValueError
      else Inr (p\<lparr>parts := butlast (parts p) @ [fst (splitext (path_name p)) @ lit ''.attest'']\<rparr>))"

definition nonneg_int :: "json \<Rightarrow> bool" where
  "nonneg_int v = (case as_int v of Some n \<Rightarrow> 0 \<le> n | None \<Rightarrow> False)"

definition attestation_is_well_formed :: "bool \<Rightarrow> head_attestation \<Rightarrow> bool" where
  "attestation_is_well_formed require_ledger_id a \<longleftrightarrow>
     nonneg_int (max_seq a) \<and> is_digest (head_record_hash a) \<and> nonempty_str (recorded_at a)
     \<and> nonempty_str (trust_root_id a) \<and> nonempty_str (signature a)
     \<and> (if require_ledger_id then nonempty_str (ledger_id a)
        else ledger_id a = JNull \<or> nonempty_str (ledger_id a))"

definition attestation_required_keys :: "pystr list" where
  "attestation_required_keys =
     [k_max_seq, k_head_record_hash, k_recorded_at, k_trust_root_id, k_signature]"

definition attestation_from_mapping :: "bool \<Rightarrow> (pystr, json) dict \<Rightarrow> head_attestation option" where
  "attestation_from_mapping require_ledger_id data =
     (let expected = (if require_ledger_id then attestation_block_keys
            else attestation_required_keys @ [k_ledger_id]);
          required = (if require_ledger_id then attestation_block_keys
            else attestation_required_keys)
      in if \<not> keys_within data expected \<or> \<not> has_keys data required then None
      else if \<not> nonneg_int (get data k_max_seq) \<or> \<not> is_digest (get data k_head_record_hash)
        \<or> \<not> nonempty_str (get data k_recorded_at) \<or> \<not> nonempty_str (get data k_trust_root_id)
        \<or> \<not> nonempty_str (get data k_signature)
      then None
      else
        let a = \<lparr>max_seq = get data k_max_seq, head_record_hash = get data k_head_record_hash,
              recorded_at = get data k_recorded_at, trust_root_id = get data k_trust_root_id,
              signature = get data k_signature, ledger_id = get data k_ledger_id\<rparr>
        in if nonempty_str (get data k_ledger_id) then Some a
           else if get data k_ledger_id = JNull \<and> \<not> require_ledger_id
           then Some (a\<lparr>ledger_id := JNull\<rparr>)
           else None)"

definition attestation_from_block :: "(pystr, json) dict \<Rightarrow> head_attestation option" where
  "attestation_from_block block = attestation_from_mapping True block"

definition read_attestation_file :: "interp \<Rightarrow> fs \<Rightarrow> path \<Rightarrow> raised + head_attestation option" where
  "read_attestation_file I F p =
     (case read_utf8_document F p of
        Inl (Os ENOENT) \<Rightarrow> Inr None
      | Inl (NotUtf8 name) \<Rightarrow> Inr None
      | Inl (Limit name line_no reason) \<Rightarrow> Inr None
      | Inl e \<Rightarrow> Inl (RaisedRead e)
      | Inr text \<Rightarrow>
          (case strict_json_loads I text of
             Inl e \<Rightarrow> if e = ValueError then Inr None else Inl (Raised e)
           | Inr v \<Rightarrow>
               (case as_obj v of
                  None \<Rightarrow> Inr None
                | Some data \<Rightarrow> Inr (attestation_from_mapping False data))))"

definition lift_exc :: "exc + 'a \<Rightarrow> raised + 'a" where
  "lift_exc r = (case r of Inl e \<Rightarrow> Inl (Raised e) | Inr x \<Rightarrow> Inr x)"

definition read_attestation :: "interp \<Rightarrow> fs \<Rightarrow> path \<Rightarrow> raised + head_attestation option" where
  "read_attestation I F p = bnd (lift_exc (attest_path p)) (read_attestation_file I F)"

section \<open>Checking a head against its attestation\<close>

datatype head_fault =
    AttestationMissing
  | AttestationMalformed
  | AttestationInvalid
  | LedgerTruncated int nat
  | AttestationStale int nat
  | EmptyNotGenesis
  | HeadForgery int

text \<open>The integer of a field the guards have tested.\<close>

definition int_of :: "json \<Rightarrow> int" where
  "int_of v = (case as_int v of Some n \<Rightarrow> n | None \<Rightarrow> 0)"

definition check_head :: "chain \<Rightarrow> head_verifier \<Rightarrow> head_attestation \<Rightarrow> head_fault option" where
  "check_head c verifier a =
     (if \<not> attestation_is_well_formed False a then Some AttestationMalformed
      else if \<not> verifier a then Some AttestationInvalid
      else if int (count c) < int_of (max_seq a) then Some (LedgerTruncated (int_of (max_seq a)) (count c))
      else if int (count c) > int_of (max_seq a) then Some (AttestationStale (int_of (max_seq a)) (count c))
      else if \<not> py_eq (JStr (head_hash c)) (head_record_hash a)
      then (if int_of (max_seq a) = 0 then Some EmptyNotGenesis else Some (HeadForgery (int_of (max_seq a))))
      else None)"

definition verify_head_attestation :: "interp \<Rightarrow> fs \<Rightarrow> path \<Rightarrow> chain \<Rightarrow> head_verifier
    \<Rightarrow> head_attestation option \<Rightarrow> raised + head_fault option" where
  "verify_head_attestation I F apath c verifier attestation =
     bnd (case attestation of None \<Rightarrow> read_attestation_file I F apath | Some a \<Rightarrow> Inr (Some a))
       (\<lambda>att. case att of None \<Rightarrow> Inr (Some AttestationMissing) | Some a \<Rightarrow> Inr (check_head c verifier a))"

datatype verify_fault =
    VerifierRequired
  | ChainFault "chain_error option"
  | HeadFault head_fault

definition verify_chain :: "interp \<Rightarrow> fs \<Rightarrow> path \<Rightarrow> head_verifier option \<Rightarrow> head_attestation option
    \<Rightarrow> chain option \<Rightarrow> raised + bool \<times> nat \<times> verify_fault option" where
  "verify_chain I F p verifier attestation known =
     (if attestation \<noteq> None \<and> verifier = None then Inr (False, 0, Some VerifierRequired)
      else bnd (case known of Some c \<Rightarrow> Inr c | None \<Rightarrow> bnd (walk_ledger I F p 0) (\<lambda>(c, rs). Inr c)) (\<lambda>c.
        if \<not> ok c then Inr (False, count c, Some (ChainFault (error c)))
        else case verifier of
          None \<Rightarrow> Inr (True, count c, None)
        | Some v \<Rightarrow>
            bnd (lift_exc (attest_path p)) (\<lambda>apath.
            bnd (verify_head_attestation I F apath c v attestation) (\<lambda>fault.
              case fault of
                Some f \<Rightarrow> Inr (False, count c, Some (HeadFault f))
              | None \<Rightarrow> Inr (True, count c, None)))))"

section \<open>Attestation blocks\<close>

lemma nonneg_int_iff: "nonneg_int v \<longleftrightarrow> (\<exists>n. v = JInt n \<and> 0 \<le> n)"
  by (cases v) (auto simp: nonneg_int_def)

lemma int_of_JInt [simp]: "int_of (JInt n) = n"
  by (simp add: int_of_def)

lemma keys_block [simp]: "keys (attestation_block a) = attestation_block_keys"
  by (simp add: attestation_block_def attestation_block_keys_def)

lemma get_block [simp]:
  "get (attestation_block a) k_max_seq = max_seq a"
  "get (attestation_block a) k_head_record_hash = head_record_hash a"
  "get (attestation_block a) k_ledger_id = ledger_id a"
  "get (attestation_block a) k_recorded_at = recorded_at a"
  "get (attestation_block a) k_trust_root_id = trust_root_id a"
  "get (attestation_block a) k_signature = signature a"
  by (simp_all add: attestation_block_def att_keys)

lemma block_has_keys: "has_keys (attestation_block a) ks \<longleftrightarrow> set ks \<subseteq> set attestation_block_keys"
  by (auto simp: has_keys_def has_key_def list_all_iff)

lemma block_within: "keys_within (attestation_block a) ks \<longleftrightarrow> set attestation_block_keys \<subseteq> set ks"
  by (auto simp: keys_within_def list_all_iff)

lemma from_mapping_well_formed:
  "attestation_from_mapping req data = Some a \<Longrightarrow> attestation_is_well_formed req a"
  by (auto simp: attestation_from_mapping_def attestation_is_well_formed_def Let_def split: if_splits)

lemma get_in_dict: "dict_ok d \<Longrightarrow> k \<in> set (keys d) \<Longrightarrow> (k, v) \<in> set d \<longleftrightarrow> get d k = v"
  by (auto simp: dict_ok_in_set get_def set_keys)

lemma dict_set_eq_iff:
  assumes "dict_ok a" "dict_ok b"
  shows "set a = set b \<longleftrightarrow> set (keys a) = set (keys b) \<and> (\<forall>k \<in> set (keys b). get a k = get b k)"
proof
  assume s: "set a = set b"
  then have k: "set (keys a) = set (keys b)" by (simp add: keys_def)
  moreover have "get a k = get b k" if "k \<in> set (keys b)" for k
    using get_in_dict [OF assms(1), of k "get b k"] get_in_dict [OF assms(2), of k "get b k"] s k that
    by simp
  ultimately show "set (keys a) = set (keys b) \<and> (\<forall>k \<in> set (keys b). get a k = get b k)"
    by blast
next
  assume r: "set (keys a) = set (keys b) \<and> (\<forall>k \<in> set (keys b). get a k = get b k)"
  have "p \<in> set a \<longleftrightarrow> p \<in> set b" for p
  proof (cases "fst p \<in> set (keys b)")
    case True
    with r get_in_dict [OF assms(1), of "fst p" "snd p"] get_in_dict [OF assms(2), of "fst p" "snd p"]
    show ?thesis by simp
  next
    case False
    with r show ?thesis by (auto simp: keys_def)
  qed
  then show "set a = set b" by blast
qed

lemma dict_ok_block [simp]: "dict_ok (attestation_block a)"
  by (simp add: dict_ok_def attestation_block_keys_def att_keys)

lemma from_block_iff:
  assumes "dict_ok data"
  shows "attestation_from_block data = Some a \<longleftrightarrow>
    attestation_is_well_formed True a \<and> set data = set (attestation_block a)"
proof -
  have "set data = set (attestation_block a) \<longleftrightarrow> set (keys data) = set attestation_block_keys \<and>
      get data k_max_seq = max_seq a \<and> get data k_head_record_hash = head_record_hash a
      \<and> get data k_ledger_id = ledger_id a \<and> get data k_recorded_at = recorded_at a
      \<and> get data k_trust_root_id = trust_root_id a \<and> get data k_signature = signature a"
    using dict_set_eq_iff [OF assms dict_ok_block, of a] by (simp add: attestation_block_keys_def)
  moreover have "set (keys data) = set attestation_block_keys \<longleftrightarrow>
      keys_within data attestation_block_keys \<and> has_keys data attestation_block_keys"
    using keys_exact_iff [of data attestation_block_keys] by (simp add: keys_exact_def)
  ultimately show ?thesis
    by (cases a) (auto simp: attestation_from_block_def attestation_from_mapping_def Let_def
        attestation_is_well_formed_def)
qed

lemma from_block_block:
  "attestation_is_well_formed True a \<Longrightarrow> attestation_from_block (attestation_block a) = Some a"
  by (simp add: from_block_iff)

section \<open>What an attestation signs\<close>

text \<open>Well-formed fields that came from strict JSON.\<close>

definition attestation_text :: "head_attestation \<Rightarrow> bool" where
  "attestation_text a \<longleftrightarrow> attestation_is_well_formed False a \<and>
     list_all json_ok [max_seq a, head_record_hash a, recorded_at a, trust_root_id a, signature a, ledger_id a]"

lemma well_formed_fields:
  assumes "attestation_is_well_formed req a"
  shows "\<exists>n h t r s. 0 \<le> n \<and> hex64 h \<and> t \<noteq> [] \<and> r \<noteq> [] \<and> s \<noteq> []
    \<and> max_seq a = JInt n \<and> head_record_hash a = JStr h \<and> recorded_at a = JStr t
    \<and> trust_root_id a = JStr r \<and> signature a = JStr s
    \<and> (\<exists>l. l \<noteq> [] \<and> ledger_id a = JStr l \<or> \<not> req \<and> ledger_id a = JNull)"
  using assms
  by (auto simp: attestation_is_well_formed_def nonneg_int_iff is_digest_iff nonempty_str_iff
      split: if_splits)

lemma payload_ok:
  assumes "attestation_text a"
  shows "json_ok (JObj (payload_dict a))" "float_codec I (JObj (payload_dict a))"
proof -
  obtain n h t r s where f: "max_seq a = JInt n" "head_record_hash a = JStr h" "recorded_at a = JStr t"
      "trust_root_id a = JStr r" "signature a = JStr s"
      "\<exists>l. l \<noteq> [] \<and> ledger_id a = JStr l \<or> ledger_id a = JNull"
    using well_formed_fields [of False a] assms by (auto simp: attestation_text_def)
  have "scalar_text k_max_seq" "scalar_text k_head_record_hash" "scalar_text k_recorded_at"
      "scalar_text k_trust_root_id" "scalar_text k_ledger_id"
    by (simp_all add: att_keys lit_def is_surrogate_def)
  with f assms show "json_ok (JObj (payload_dict a))"
    by (auto simp: payload_dict_def attestation_text_def dict_ok_def att_keys)
  show "float_codec I (JObj (payload_dict a))"
    using f by (auto simp: payload_dict_def float_codec_def att_keys)
qed

lemma payload_get:
  "get (payload_dict a) k_max_seq = max_seq a"
  "get (payload_dict a) k_head_record_hash = head_record_hash a"
  "get (payload_dict a) k_recorded_at = recorded_at a"
  "get (payload_dict a) k_trust_root_id = trust_root_id a"
  "get (payload_dict a) k_ledger_id = (if truthy (ledger_id a) then ledger_id a else JNull)"
  by (simp_all add: payload_dict_def Let_def att_keys)

lemma json_equiv_int [simp]: "json_equiv (JInt n) v \<longleftrightarrow> v = JInt n"
  by auto

lemma json_equiv_str_left [simp]: "json_equiv (JStr s) v \<longleftrightarrow> v = JStr s"
  by auto

lemma json_equiv_null_left [simp]: "json_equiv JNull v \<longleftrightarrow> v = JNull"
  by auto

text \<open>
  The bytes an attestation is signed over determine everything it asserts: two
  well-formed attestations with one payload differ at most in the signature.
\<close>

theorem attestation_payload_binds:
  assumes "attestation_payload I a = Inr bs" "attestation_payload I b = Inr bs"
    and "attestation_text a" "attestation_text b"
  shows "b = a\<lparr>signature := signature b\<rparr>"
proof -
  have eq: "json_equiv (JObj (payload_dict a)) (JObj (payload_dict b))"
    using canonical_equiv(2) [of I "JObj (payload_dict a)" bs "JObj (payload_dict b)" bs]
      assms payload_ok [OF assms(3)] payload_ok [OF assms(4)]
    by (simp add: attestation_payload_def)
  have "dict_ok (payload_dict a)" "dict_ok (payload_dict b)"
    using payload_ok [OF assms(3)] payload_ok [OF assms(4)] by simp_all
  note get = json_equiv_get [OF this eq]
  obtain n h t r where f: "max_seq a = JInt n" "head_record_hash a = JStr h" "recorded_at a = JStr t"
      "trust_root_id a = JStr r"
      "\<exists>l. l \<noteq> [] \<and> ledger_id a = JStr l \<or> ledger_id a = JNull"
    using well_formed_fields [of False a] assms(3) by (auto simp: attestation_text_def)
  have l: "\<exists>l. l \<noteq> [] \<and> ledger_id b = JStr l \<or> ledger_id b = JNull"
    using well_formed_fields [of False b] assms(4) by (auto simp: attestation_text_def)
  have "max_seq b = max_seq a" "head_record_hash b = head_record_hash a" "recorded_at b = recorded_at a"
      "trust_root_id b = trust_root_id a"
    using get [of k_max_seq] get [of k_head_record_hash] get [of k_recorded_at] get [of k_trust_root_id]
    by (simp_all add: payload_get f)
  moreover have "ledger_id b = ledger_id a"
    using get [of k_ledger_id] f(5) l by (auto simp: payload_get)
  ultimately show ?thesis
    by (cases a; cases b) simp
qed

definition tiny_attestation :: "nat \<Rightarrow> string \<Rightarrow> string \<Rightarrow> head_attestation" where
  "tiny_attestation n h s = \<lparr>max_seq = JInt (int n), head_record_hash = JStr (tiny_hash h),
     recorded_at = JStr (lit ''t''), trust_root_id = JStr (lit ''w''), signature = JStr (lit s),
     ledger_id = JStr (lit ''l'')\<rparr>"

lemma tiny_attestation_ok:
  "attestation_is_well_formed req (tiny_attestation n ''0062'' ''s'')"
  "attestation_is_well_formed req (tiny_attestation n ''0061'' ''s'')"
  using tiny_hash_facts
  by (simp_all add: attestation_is_well_formed_def tiny_attestation_def nonneg_int_iff is_digest_iff
      nonempty_str_def)

lemma tiny_attestation_text: "s \<in> {''s'', ''u''} \<Longrightarrow> attestation_text (tiny_attestation n ''0062'' s)"
  using tiny_hash_facts
  by (auto simp: attestation_text_def attestation_is_well_formed_def tiny_attestation_def
      nonneg_int_iff is_digest_iff nonempty_str_def tiny_hash_def lit_def is_surrogate_def
      scalar_text_def list_all_iff)

theorem attestation_payload_binds_witness:
  "tiny_attestation 2 ''0062'' ''u''
    = (tiny_attestation 2 ''0062'' ''s'')\<lparr>signature := signature (tiny_attestation 2 ''0062'' ''u'')\<rparr>"
proof (rule attestation_payload_binds [where I = tiny_interp])
  let ?bs = "map of_nat (dumps (float_repr tiny_interp) (JObj (payload_dict (tiny_attestation 2 ''0062'' ''s''))))"
  show "attestation_payload tiny_interp (tiny_attestation 2 ''0062'' ''s'') = Inr ?bs"
    "attestation_payload tiny_interp (tiny_attestation 2 ''0062'' ''u'') = Inr ?bs"
    by (simp_all add: attestation_payload_def canonical_json_bytes_Inr payload_dict_def Let_def
        tiny_attestation_def lit_def att_keys max_str_digits_def dec_digits.simps)
qed (rule tiny_attestation_text, simp)+

section \<open>verify_chain\<close>

lemma splitext_stem: "fst (splitext n) = [] \<longleftrightarrow> n = []"
  by (auto simp: splitext_def Let_def list_all_iff)

lemma attest_path_total: "path_name p \<noteq> [] \<Longrightarrow> \<exists>q. attest_path p = Inr q"
  by (simp add: attest_path_def splitext_stem)

lemma admitted_name: "admitted_lines F p = Some evs \<Longrightarrow> path_name p \<noteq> []"
  by (auto simp: admitted_lines_def admit_ledger_def raise_simps open_regular_file_Inr split: sum.splits)

definition attestation_used ::
    "interp \<Rightarrow> fs \<Rightarrow> path \<Rightarrow> head_attestation option \<Rightarrow> head_attestation \<Rightarrow> bool" where
  "attestation_used I F p supplied a \<longleftrightarrow>
     supplied = Some a \<or> supplied = None \<and> read_attestation I F p = Inr (Some a)"

text \<open>The abstract check: the attestation names this head.\<close>

definition names_head :: "head_attestation \<Rightarrow> nat \<Rightarrow> pystr \<Rightarrow> bool" where
  "names_head a n h \<longleftrightarrow> max_seq a = JInt (int n) \<and> head_record_hash a = JStr h"

lemma check_head_None:
  "check_head c v a = None \<longleftrightarrow>
    attestation_is_well_formed False a \<and> v a \<and> names_head a (count c) (head_hash c)"
  by (auto simp: check_head_def names_head_def attestation_is_well_formed_def nonneg_int_iff)

lemma verify_chain_with:
  assumes "path_name p \<noteq> []"
  shows "verify_chain I F p (Some v) att (Some c) = Inr (True, n, None) \<longleftrightarrow>
    ok c \<and> n = count c \<and> (\<exists>a. attestation_used I F p att a \<and> check_head c v a = None)"
proof -
  obtain q where q: "attest_path p = Inr q"
    using attest_path_total [OF assms] by blast
  show ?thesis
    by (cases att)
      (auto simp: verify_chain_def q lift_exc_def verify_head_attestation_def raise_simps
        attestation_used_def read_attestation_def split: option.splits)
qed

lemma verify_chain_known:
  "walk_ledger I F p 0 = Inr (c, rs) \<Longrightarrow> verify_chain I F p v att None = verify_chain I F p v att (Some c)"
  by (simp add: verify_chain_def)

lemma verify_chain_attested:
  "verify_chain I F p (Some v) att None = Inr (True, n, None) \<longleftrightarrow>
   (\<exists>c rs a. (walk_ledger I F p 0 = Inr (c, rs) \<and> ok c) \<and> n = count c \<and> attestation_used I F p att a
      \<and> attestation_is_well_formed False a \<and> v a \<and> names_head a (count c) (head_hash c))"
proof (cases "walk_ledger I F p 0")
  case (Inr x)
  obtain c rs where x: "x = (c, rs)" by (cases x) auto
  show ?thesis
  proof (cases "ok c")
    case True
    then obtain evs where "admitted_lines F p = Some evs"
      using walk_ledger_ok [of I F p 0 c rs] Inr x by auto
    then have "path_name p \<noteq> []" by (rule admitted_name)
    then show ?thesis
      using verify_chain_with [of p I F v att c n] verify_chain_known [of I F p c rs]
        Inr x True by (auto simp: check_head_None)
  next
    case False
    then show ?thesis using Inr x by (auto simp: verify_chain_def raise_simps)
  qed
qed (auto simp: verify_chain_def)

text \<open>
  With a verifier, \<open>verify_chain\<close> passes exactly if the ledger is a valid chain and
  the attestation (the caller's, or else the sidecar's) is well formed, accepted by the
  verifier, and names the number of records and the hash of the last one.
\<close>

theorem verify_chain_attested_iff:
  "verify_chain I F p (Some v) att None = Inr (True, n, None) \<longleftrightarrow>
   (\<exists>evs rs a. admitted_lines F p = Some evs \<and> record_lines I evs rs
      \<and> length rs \<le> max_ledger_records \<and> valid_ledger I rs \<and> n = length rs
      \<and> attestation_used I F p att a \<and> attestation_is_well_formed False a \<and> v a
      \<and> names_head a (length rs) (if rs = [] then genesis_hash else seal_text (last rs)))"
proof -
  have "count (walked 0 0 genesis_hash None rs) = length rs"
    "head_hash (walked 0 0 genesis_hash None rs) = (if rs = [] then genesis_hash else seal_text (last rs))"
    for rs by (simp_all add: walked_def)
  note w = this [symmetric]
  show ?thesis
    unfolding verify_chain_attested walk_ledger_ok by (simp only: w) blast
qed

lemma attested_head_at:
  assumes "walk_ledger I F p want = Inr (c, rs)" "ok c" "names_head a (count c) (head_hash c)" "rs \<noteq> []"
  shows "max_seq a = JInt (int (length rs))" "chain_head record_seal g rs = head_record_hash a"
  using walked_facts [OF assms(1,2)] assms(3,4) by (simp_all add: names_head_def)

text \<open>
  C31: an attestation pins the whole ledger. Two ledgers that pass with one attestation
  hold the same records up to key order, unless two records at one position are a collision
  of the hash: a removed or a replaced tail does not pass.
\<close>

theorem attested_ledger_unique:
  assumes "verify_chain I F p (Some v) (Some a) None = Inr (True, n, None)"
    and "verify_chain I F' p' (Some v') (Some a) None = Inr (True, n', None)"
    and "read_verified_records I F p = Inr (True, rs, None)"
    and "read_verified_records I F' p' = Inr (True, rs', None)"
    and "\<forall>r \<in> set rs \<union> set rs'. float_codec I (JObj r)"
  shows "list_all2 record_same rs rs' \<or> list_ex (\<lambda>(r, r'). record_clash I r r') (zip rs rs')"
proof -
  obtain c where c: "walk_ledger I F p 0 = Inr (c, rs)" "ok c" "names_head a (count c) (head_hash c)"
    using assms(1,3) unfolding verify_chain_attested
    by (fastforce simp: attestation_used_def read_verified_records_def raise_simps split: if_splits)
  obtain c' where c': "walk_ledger I F' p' 0 = Inr (c', rs')" "ok c'" "names_head a (count c') (head_hash c')"
    using assms(2,4) unfolding verify_chain_attested
    by (fastforce simp: attestation_used_def read_verified_records_def raise_simps split: if_splits)
  note w = walked_facts [OF c(1,2)] and w' = walked_facts [OF c'(1,2)]
  have len: "length rs = length rs'"
    using c(3) c'(3) w(1) w'(1) by (simp add: names_head_def)
  show ?thesis
  proof (cases "rs = []")
    case False
    with len have "rs' \<noteq> []" by auto
    show ?thesis
    proof (rule ledger_chain.tamper_evident)
      show "list_all (chain_record I) rs" "list_all (chain_record I) rs'"
        using walk_ledger_sound [OF c(1,2)] walk_ledger_sound [OF c'(1,2)] assms(5)
        by (auto simp: list_all_iff)
      show "chain_head record_seal (JStr genesis_hash) rs = chain_head record_seal (JStr genesis_hash) rs'"
        using attested_head_at(2) [OF c False] attested_head_at(2) [OF c' \<open>rs' \<noteq> []\<close>] by simp
    qed (use w(2) w'(2) len in auto)
  qed (use len in auto)
qed

definition tiny_single :: fs where
  "tiny_single = tiny_fs [(k_active, [tiny_first, tiny_second])]"

lemma tiny_single_walk:
  "walk_ledger tiny_interp tiny_single tiny_path w
    = Inr (walked w 0 genesis_hash None (map normal_record [tiny_first, tiny_second]),
        map normal_record [tiny_first, tiny_second])"
proof -
  have "admit_ledger tiny_single tiny_path
      = Inr ([[(k_active, FileNode (write_lines tiny_interp [tiny_first, tiny_second]))], root_dir tiny_single],
          write_lines tiny_interp [tiny_first, tiny_second], [k_active])"
    using tiny_segments by (simp add: tiny_single_def tiny_fs_defs)
  then have "written_as tiny_interp tiny_single tiny_path [[tiny_first, tiny_second]]"
    using tiny_sizes tiny_writable
    by (simp add: written_as_def tiny_path_def path_name_def write_lines_def)
  from written_walk [OF this] show ?thesis
    using tiny_valid tiny_count by simp
qed

lemma tiny_seal: "seal_text (normal_record tiny_second) = tiny_hash ''0062''"
  using normal_keeps(2) [of tiny_second tiny_interp] tiny_writable tiny_sealed
  by (simp add: writable_def) (simp add: seal_text_def record_seal_def tiny_second_def record_keys)

lemma tiny_attested:
  assumes "F \<in> {tiny_after, tiny_single}"
  shows "verify_chain tiny_interp F tiny_path (Some (\<lambda>a. signature a = JStr (lit ''s'')))
      (Some (tiny_attestation 2 ''0062'' ''s'')) None = Inr (True, 2, None)"
    and "read_verified_records tiny_interp F tiny_path
      = Inr (True, map normal_record [tiny_first, tiny_second], None)"
proof -
  have w: "walk_ledger tiny_interp F tiny_path 0
    = Inr (walked 0 0 genesis_hash None (map normal_record [tiny_first, tiny_second]),
        map normal_record [tiny_first, tiny_second])"
    using assms tiny_walks(2) tiny_single_walk by blast
  then show "read_verified_records tiny_interp F tiny_path
      = Inr (True, map normal_record [tiny_first, tiny_second], None)"
    by (simp add: read_verified_records_def)
  show "verify_chain tiny_interp F tiny_path (Some (\<lambda>a. signature a = JStr (lit ''s'')))
      (Some (tiny_attestation 2 ''0062'' ''s'')) None = Inr (True, 2, None)"
    using w tiny_attestation_ok(1) [of False 2]
    unfolding verify_chain_attested
    by (auto simp: walked_def attestation_used_def names_head_def tiny_seal tiny_attestation_def)
qed

theorem attested_ledger_unique_witness:
  "list_all2 record_same (map normal_record [tiny_first, tiny_second]) (map normal_record [tiny_first, tiny_second])
    \<or> list_ex (\<lambda>(r, r'). record_clash tiny_interp r r')
        (zip (map normal_record [tiny_first, tiny_second]) (map normal_record [tiny_first, tiny_second]))"
  by (rule attested_ledger_unique [OF tiny_attested(1) [of tiny_after] tiny_attested(1) [of tiny_single]
        tiny_attested(2) [of tiny_after] tiny_attested(2) [of tiny_single]])
    (use tiny_normal_floats in simp_all)

section \<open>The HMAC verifier\<close>

lemma hmac_text:
  "hmac_prefix @ h = e \<Longrightarrow> starts_with e hmac_prefix \<and> length e = length hmac_prefix + 64
    \<and> \<not> list_ex (\<lambda>c. \<not> is_lower_hex c) (drop (length hmac_prefix) e) \<longleftrightarrow> hex64 h"
  by (auto simp: hex64_def list_ex_iff list_all_iff)

text \<open>
  The HMAC verifier accepts an attestation exactly if it names the verifier's trust
  root and its signature is the prefix followed by the 64-digit HMAC of the signed payload
  under the secret.
\<close>

theorem hmac_verify_head_iff:
  assumes "hmac_head_verifier s root = Inr v" "utf8_encode s = Some key"
    and "attestation_payload I a = Inr payload"
  shows "hmac_verify_head I hmac v a = Inr True \<longleftrightarrow>
    trust_root_id a = JStr root \<and> signature a = JStr (hmac_prefix @ hmac key payload)
    \<and> hex64 (hmac key payload)"
proof -
  have v: "secret v = s" "verifier_root v = root"
    using assms(1) by (auto simp: hmac_head_verifier_def split: if_splits)
  show ?thesis
  proof (cases "\<exists>e. signature a = JStr e")
    case True
    then obtain e where e: "signature a = JStr e" by blast
    have "hmac_verify_head I hmac v a = Inr True \<longleftrightarrow>
        trust_root_id a = JStr root \<and> starts_with e hmac_prefix
        \<and> length e = length hmac_prefix + 64
        \<and> \<not> list_ex (\<lambda>c. \<not> is_lower_hex c) (drop (length hmac_prefix) e)
        \<and> hmac_prefix @ hmac key payload = e"
      unfolding hmac_verify_head_def using assms(2,3) by (simp add: v e)
    then show ?thesis
      unfolding e using hmac_text [of "hmac key payload" e] by auto
  next
    case False
    then have "as_str (signature a) = None" by (cases "signature a") auto
    then show ?thesis using False by (auto simp: hmac_verify_head_def)
  qed
qed

theorem hmac_verify_head_iff_witness:
  "hmac_verify_head tiny_interp (\<lambda>k m. replicate 64 97) \<lparr>secret = [107], verifier_root = lit ''w''\<rparr>
      (tiny_attestation 2 ''0062'' ''s'') = Inr True \<longleftrightarrow>
    trust_root_id (tiny_attestation 2 ''0062'' ''s'') = JStr (lit ''w'')
    \<and> signature (tiny_attestation 2 ''0062'' ''s'') = JStr (hmac_prefix @ replicate 64 97)
    \<and> hex64 (replicate 64 97)"
proof (rule hmac_verify_head_iff [where s = "[107]" and key = "[107]"])
  show "attestation_payload tiny_interp (tiny_attestation 2 ''0062'' ''s'') = Inr (map of_nat
      (dumps (float_repr tiny_interp) (JObj (payload_dict (tiny_attestation 2 ''0062'' ''s'')))))"
    by (simp add: attestation_payload_def canonical_json_bytes_Inr payload_dict_def Let_def
        tiny_attestation_def lit_def att_keys max_str_digits_def dec_digits.simps)
qed (simp_all add: hmac_head_verifier_def utf8_encode_def utf8_char_def is_surrogate_def)

section \<open>Writing and reading an attestation\<close>

lemma from_mapping_block:
  assumes "dict_ok data" "set data = set (attestation_block a)" "attestation_is_well_formed False a"
  shows "attestation_from_mapping False data = Some a"
proof -
  note eq = dict_set_eq_iff [OF assms(1) dict_ok_block, of a, THEN iffD1, OF assms(2)]
  have "get data k = get (attestation_block a) k" if "k \<in> set attestation_block_keys" for k
    using eq that by simp
  then have get: "get data k_max_seq = max_seq a" "get data k_head_record_hash = head_record_hash a"
      "get data k_ledger_id = ledger_id a" "get data k_recorded_at = recorded_at a"
      "get data k_trust_root_id = trust_root_id a" "get data k_signature = signature a"
    by (simp_all add: attestation_block_keys_def)
  have keys: "set (keys data) = set attestation_block_keys"
    using eq by simp
  have "keys_within data (attestation_required_keys @ [k_ledger_id])"
    "has_keys data attestation_required_keys"
    unfolding keys_within_def has_keys_def has_key_def list_all_iff keys
    by (auto simp: attestation_block_keys_def attestation_required_keys_def)
  with get show ?thesis
    using assms(3)
    by (cases a) (auto simp: attestation_from_mapping_def Let_def attestation_is_well_formed_def)
qed

lemma block_normal:
  assumes "attestation_is_well_formed False a"
  shows "dict_ok (normal_record (attestation_block a))"
    "set (normal_record (attestation_block a)) = set (attestation_block a)"
proof -
  have "map norm_member (attestation_block a) = attestation_block a"
    using well_formed_fields [OF assms] by (auto simp: attestation_block_def)
  then have n: "normal_record (attestation_block a) = sort_key fst (attestation_block a)"
    by (simp add: normal_record_def)
  show "dict_ok (normal_record (attestation_block a))"
    using dict_ok_block [of a] unfolding n by (simp add: dict_ok_def keys_def distinct_map)
  show "set (normal_record (attestation_block a)) = set (attestation_block a)"
    unfolding n by simp
qed

lemma block_json:
  assumes "attestation_text a"
  shows "json_ok (JObj (attestation_block a))" "float_codec I (JObj (attestation_block a))"
    "json_depth (JObj (attestation_block a)) = 1"
proof -
  have wf: "attestation_is_well_formed False a" using assms by (simp add: attestation_text_def)
  have "list_all scalar_text attestation_block_keys"
    by (simp add: attestation_block_keys_def att_keys lit_def is_surrogate_def)
  then show "json_ok (JObj (attestation_block a))"
    using assms dict_ok_block [of a]
    by (simp add: attestation_text_def attestation_block_def attestation_block_keys_def)
  show "float_codec I (JObj (attestation_block a))" "json_depth (JObj (attestation_block a)) = 1"
    using well_formed_fields [OF wf] by (auto simp: float_codec_def attestation_block_def)
qed

text \<open>
  An attestation written as the canonical JSON of its block is read back as it was,
  whether or not it names a ledger.
\<close>

theorem attestation_file_roundtrip:
  assumes "attestation_text a" "canonical_json_bytes I (JObj (attestation_block a)) = Inr bs"
    and "open_directory F (path_parent p) p = Inr d"
    and "open_regular_file d (path_name p) NotRegular = Inr bs" "length bs \<le> max_json_document_bytes"
  shows "read_attestation_file I F p = Inr (Some a)"
proof -
  have wf: "attestation_is_well_formed False a" using assms(1) by (simp add: attestation_text_def)
  have bs: "bs = map of_nat (dumps (float_repr I) (JObj (attestation_block a)))"
      and pr: "printable (JObj (attestation_block a))"
    using assms(2) by (simp_all add: canonical_json_bytes_Inr del: dumps.simps)
  have "utf8_decode bs = Some (dumps (float_repr I) (JObj (attestation_block a)))"
    unfolding bs using block_json(2) [OF assms(1)] by (intro utf8_decode_ascii float_codec_ascii)
  then have "read_utf8_document F p = Inr (dumps (float_repr I) (JObj (attestation_block a)))"
    using assms(3-5) by (simp add: read_utf8_document_def Let_def del: dumps.simps)
  moreover have "strict_json_loads I (dumps (float_repr I) (JObj (attestation_block a)))
      = Inr (JObj (normal_record (attestation_block a)))"
    using strict_loads_dumps [OF block_json(1) pr _ block_json(2)] assms(1) block_json(3) [OF assms(1)]
    by (simp add: normal_obj max_json_nesting_def del: dumps.simps norm_json.simps)
  ultimately show ?thesis
    using from_mapping_block [OF block_normal [OF wf] wf]
    by (simp add: read_attestation_file_def del: dumps.simps)
qed

definition tiny_block_bytes :: pybytes where
  "tiny_block_bytes = map of_nat (dumps (float_repr tiny_interp)
     (JObj (attestation_block (tiny_attestation 2 ''0062'' ''s''))))"

theorem attestation_file_roundtrip_witness:
  "read_attestation_file tiny_interp
      \<lparr>root_dir = [(lit ''d'', DirNode [(lit ''a'', FileNode tiny_block_bytes)])], cwd = []\<rparr>
      \<lparr>absolute = True, parts = [lit ''d'', lit ''a'']\<rparr>
    = Inr (Some (tiny_attestation 2 ''0062'' ''s''))"
proof (rule attestation_file_roundtrip [where d = "[[(lit ''a'', FileNode tiny_block_bytes)],
      [(lit ''d'', DirNode [(lit ''a'', FileNode tiny_block_bytes)])]]"])
  show "attestation_text (tiny_attestation 2 ''0062'' ''s'')"
    by (rule tiny_attestation_text) simp
  show "canonical_json_bytes tiny_interp (JObj (attestation_block (tiny_attestation 2 ''0062'' ''s'')))
      = Inr tiny_block_bytes"
    by (simp add: canonical_json_bytes_Inr tiny_block_bytes_def attestation_block_def
        tiny_attestation_def max_str_digits_def dec_digits.simps del: dumps.simps)
  show "length tiny_block_bytes \<le> max_json_document_bytes"
    by (simp add: tiny_block_bytes_def attestation_block_def tiny_attestation_def att_keys
        max_json_document_bytes_def tiny_hash_def lit_def dumps_defs)
qed (simp_all add: open_directory_def path_parent_def path_name_def os_open_directory_def
      open_regular_file_def lit_def dot_def dot_dot_def)

end
