(* ===== verification/Witness.thy ===== *)
theory Witness
  imports Head_Attestation
begin

text \<open>
  The module \<open>witness.py\<close>: the fold over an independent witness ledger and the comparison
  of a ledger with the head the witness recorded.
\<close>

section \<open>The witness ledger\<close>

definition "k_record_type = lit ''record_type''"
definition "k_witnessed_ledger_id = lit ''witnessed_ledger_id''"
definition "k_attestation = lit ''attestation''"
definition "s_head_witness = lit ''head_witness''"

text \<open>
  The tests of \<open>inspect\<close> up to its last early return: the attestation of a
  \<open>head_witness\<close> record for the named ledger that the verifier accepts.
\<close>

definition witnessed_attestation ::
    "head_verifier \<Rightarrow> json \<Rightarrow> (pystr, json) dict \<Rightarrow> head_attestation option" where
  "witnessed_attestation verifier wid r =
     (if \<not> py_eq (get r k_record_type) (JStr s_head_witness) then None
      else if \<not> py_eq (get r k_witnessed_ledger_id) wid then None
      else case as_obj (get r k_attestation) of
        None \<Rightarrow> None
      | Some block \<Rightarrow>
          (case attestation_from_block block of
             None \<Rightarrow> None
           | Some a \<Rightarrow> if \<not> py_eq (ledger_id a) wid \<or> \<not> verifier a then None else Some a))"

type_synonym witness_state = "head_attestation option \<times> int option"

text \<open>The rest of \<open>inspect\<close>: the two variables \<open>best\<close> and \<open>equivocation_seq\<close>.\<close>

definition witness_step :: "head_attestation \<Rightarrow> witness_state \<Rightarrow> witness_state" where
  "witness_step a st =
     (case st of (best, equivocation) \<Rightarrow>
        (case best of
           None \<Rightarrow> (Some a, None)
         | Some b \<Rightarrow>
             if int_of (max_seq a) > int_of (max_seq b) then (Some a, None)
             else if int_of (max_seq a) = int_of (max_seq b)
               \<and> \<not> py_eq (head_record_hash a) (head_record_hash b)
             then (best, Some (int_of (max_seq a)))
             else (best, equivocation)))"

definition inspect :: "head_verifier \<Rightarrow> json \<Rightarrow> (pystr, json) dict \<Rightarrow> witness_state \<Rightarrow> witness_state" where
  "inspect verifier wid r st =
     (case witnessed_attestation verifier wid r of None \<Rightarrow> st | Some a \<Rightarrow> witness_step a st)"

definition walk_witness_ledger ::
    "interp \<Rightarrow> fs \<Rightarrow> path \<Rightarrow> head_verifier \<Rightarrow> json \<Rightarrow> raised + chain \<times> witness_state" where
  "walk_witness_ledger I F wpath verifier wid =
     bnd (walk_ledger I F wpath 0) (\<lambda>(c, records).
       Inr (c, fold (inspect verifier wid) records (None, None)))"

datatype witness_fault =
    WitnessedIdEmpty
  | WitnessChainInvalid "chain_error option"
  | WitnessHeadInvalid head_fault
  | WitnessEquivocation int
  | NoHeadWitness
  | WitnessedLedgerInvalid "chain_error option"
  | WitnessRollback nat int
  | WitnessStale nat int
  | WitnessForgery int

definition resolve_witnessed_head :: "interp \<Rightarrow> fs \<Rightarrow> path \<Rightarrow> head_verifier \<Rightarrow> json
    \<Rightarrow> head_attestation option \<Rightarrow> raised + (witness_fault + head_attestation)" where
  "resolve_witnessed_head I F wpath verifier wid wattestation =
     bnd (walk_witness_ledger I F wpath verifier wid) (\<lambda>(c, witnessed, equivocation).
       if \<not> ok c then Inr (Inl (WitnessChainInvalid (error c)))
       else bnd (lift_exc (attest_path wpath)) (\<lambda>apath.
         bnd (verify_head_attestation I F apath c verifier wattestation) (\<lambda>fault.
           case fault of
             Some f \<Rightarrow> Inr (Inl (WitnessHeadInvalid f))
           | None \<Rightarrow>
               (case equivocation of
                  Some s \<Rightarrow> Inr (Inl (WitnessEquivocation s))
                | None \<Rightarrow>
                    (case witnessed of
                       None \<Rightarrow> Inr (Inl NoHeadWitness)
                     | Some a \<Rightarrow> Inr (Inr a))))))"

text \<open>\<open>verify_witnessed_head\<close>: \<open>None\<close> is the pass, \<open>Some\<close> the reported failure.\<close>

definition compare_witnessed :: "chain \<Rightarrow> head_attestation \<Rightarrow> witness_fault option" where
  "compare_witnessed c w =
     (if \<not> ok c then Some (WitnessedLedgerInvalid (error c))
      else if int (count c) < int_of (max_seq w) then Some (WitnessRollback (count c) (int_of (max_seq w)))
      else if int (count c) > int_of (max_seq w) then Some (WitnessStale (count c) (int_of (max_seq w)))
      else if \<not> py_eq (JStr (head_hash c)) (head_record_hash w) then Some (WitnessForgery (int_of (max_seq w)))
      else None)"

definition verify_witnessed_head :: "interp \<Rightarrow> fs \<Rightarrow> path \<Rightarrow> path \<Rightarrow> head_verifier \<Rightarrow> json
    \<Rightarrow> head_attestation option \<Rightarrow> chain option \<Rightarrow> raised + witness_fault option" where
  "verify_witnessed_head I F p wpath verifier wid wattestation known =
     (if \<not> nonempty_str wid then Inr (Some WitnessedIdEmpty)
      else bnd (resolve_witnessed_head I F wpath verifier wid wattestation) (\<lambda>res.
        case res of
          Inl e \<Rightarrow> Inr (Some e)
        | Inr w \<Rightarrow>
            bnd (case known of Some c \<Rightarrow> Inr c | None \<Rightarrow> bnd (walk_ledger I F p 0) (\<lambda>(c, rs). Inr c))
              (\<lambda>c. Inr (compare_witnessed c w))))"

section \<open>What the fold computes\<close>

text \<open>
  The specification over the accepted attestations, in ledger order: \<open>best\<close> is one of the
  highest, and there is an equivocation exactly if two of the highest disagree on the hash.
\<close>

definition fold_spec :: "head_attestation list \<Rightarrow> witness_state \<Rightarrow> bool" where
  "fold_spec as st \<longleftrightarrow>
     (case fst st of
        None \<Rightarrow> as = [] \<and> snd st = None
      | Some b \<Rightarrow>
          b \<in> set as \<and> (\<forall>a \<in> set as. int_of (max_seq a) \<le> int_of (max_seq b))
          \<and> snd st = (if list_ex (\<lambda>a. int_of (max_seq a) = int_of (max_seq b)
                 \<and> head_record_hash a \<noteq> head_record_hash b) as
               then Some (int_of (max_seq b)) else None))"

definition accepted_attestations ::
    "head_verifier \<Rightarrow> json \<Rightarrow> (pystr, json) dict list \<Rightarrow> head_attestation list" where
  "accepted_attestations verifier wid rs = List.map_filter (witnessed_attestation verifier wid) rs"

lemma witnessed_well_formed:
  "witnessed_attestation v wid r = Some a \<Longrightarrow> attestation_is_well_formed True a"
  by (auto simp: witnessed_attestation_def attestation_from_block_def dest: from_mapping_well_formed
      split: if_splits option.splits)

lemma accepted_hash:
  "a \<in> set (accepted_attestations v wid rs) \<Longrightarrow> \<exists>h. head_record_hash a = JStr h"
  by (fastforce simp: accepted_attestations_def set_map_filter dest: witnessed_well_formed well_formed_fields)

lemma witness_step_spec:
  assumes "fold_spec as st" "\<forall>x \<in> set (as @ [a]). \<exists>h. head_record_hash x = JStr h"
  shows "fold_spec (as @ [a]) (witness_step a st)"
proof (cases st)
  case (Pair best eq)
  show ?thesis
  proof (cases best)
    case None
    with assms Pair show ?thesis by (auto simp: fold_spec_def witness_step_def)
  next
    case (Some b)
    then have "b \<in> set as" using assms(1) Pair by (simp add: fold_spec_def)
    then obtain h h' where h: "head_record_hash a = JStr h" "head_record_hash b = JStr h'"
      using assms(2) by auto
    have mx: "\<forall>x \<in> set as. int_of (max_seq x) \<le> int_of (max_seq b)"
      using assms(1) Pair Some by (simp add: fold_spec_def)
    consider "int_of (max_seq a) > int_of (max_seq b)" | "int_of (max_seq a) = int_of (max_seq b)" "h \<noteq> h'"
      | "int_of (max_seq a) = int_of (max_seq b)" "h = h'" | "int_of (max_seq a) < int_of (max_seq b)"
      by fastforce
    then show ?thesis
    proof cases
      case 1
      with mx show ?thesis
        by (fastforce simp: fold_spec_def witness_step_def Pair Some list_ex_iff)
    qed (use assms(1) Pair Some h in \<open>auto simp: fold_spec_def witness_step_def split: if_splits\<close>)
  qed
qed

lemma accepted_snoc: "accepted_attestations v wid (rs @ [r]) = accepted_attestations v wid rs @
    (case witnessed_attestation v wid r of None \<Rightarrow> [] | Some a \<Rightarrow> [a])"
  by (simp add: accepted_attestations_def List.map_filter_simps split: option.splits)

lemma fold_inspect_spec:
  "fold_spec (accepted_attestations v wid rs) (fold (inspect v wid) rs (None, None))"
proof (induction rs rule: rev_induct)
  case Nil
  show ?case by (simp add: fold_spec_def accepted_attestations_def List.map_filter_simps)
next
  case (snoc r rs)
  show ?case
  proof (cases "witnessed_attestation v wid r")
    case (Some a)
    have "\<forall>x \<in> set (accepted_attestations v wid rs @ [a]). \<exists>h. head_record_hash x = JStr h"
      using accepted_hash [of _ v wid "rs @ [r]"] by (auto simp: accepted_snoc Some)
    from witness_step_spec [OF snoc this] Some show ?thesis
      by (simp add: accepted_snoc inspect_def)
  qed (use snoc in \<open>simp add: accepted_snoc inspect_def\<close>)
qed

text \<open>
  C33: over any witness ledger the fold ends in a highest accepted attestation, and
  reports an equivocation exactly if another accepted one at that sequence number names
  another hash.
\<close>

theorem witness_fold_correct:
  "fold_spec (accepted_attestations v wid rs) (fold (inspect v wid) rs (None, None))"
  by (rule fold_inspect_spec)

section \<open>verify_witnessed_head\<close>

lemma verify_head_attestation_None:
  assumes "attest_path p = Inr q"
  shows "verify_head_attestation I F q c v att = Inr None \<longleftrightarrow>
    (\<exists>a. attestation_used I F p att a \<and> attestation_is_well_formed False a \<and> v a
      \<and> names_head a (count c) (head_hash c))"
  by (cases att)
    (auto simp: verify_head_attestation_def assms raise_simps attestation_used_def
      read_attestation_def lift_exc_def check_head_None split: option.splits)

definition witness_attested :: "interp \<Rightarrow> fs \<Rightarrow> path \<Rightarrow> head_verifier \<Rightarrow> head_attestation option
    \<Rightarrow> (pystr, json) dict list \<Rightarrow> bool" where
  "witness_attested I F wpath v watt wrs \<longleftrightarrow>
     (\<exists>wc a. walk_ledger I F wpath 0 = Inr (wc, wrs) \<and> ok wc \<and> attestation_used I F wpath watt a
        \<and> attestation_is_well_formed False a \<and> v a \<and> names_head a (count wc) (head_hash wc))"

lemma walk_ok_name: "walk_ledger I F p want = Inr (c, rs) \<Longrightarrow> ok c \<Longrightarrow> path_name p \<noteq> []"
  using walk_ledger_ok [of I F p want c rs] admitted_name by blast

lemma resolve_Inr:
  "resolve_witnessed_head I F wpath v wid watt = Inr (Inr b) \<longleftrightarrow>
   (\<exists>wrs. witness_attested I F wpath v watt wrs \<and> fold (inspect v wid) wrs (None, None) = (Some b, None))"
proof (cases "\<exists>wc wrs. walk_ledger I F wpath 0 = Inr (wc, wrs) \<and> ok wc")
  case True
  then obtain wc wrs where w: "walk_ledger I F wpath 0 = Inr (wc, wrs)" "ok wc" by blast
  obtain q where q: "attest_path wpath = Inr q"
    using attest_path_total [OF walk_ok_name [OF w]] by blast
  have "resolve_witnessed_head I F wpath v wid watt = Inr (Inr b) \<longleftrightarrow>
      verify_head_attestation I F q wc v watt = Inr None \<and> fold (inspect v wid) wrs (None, None) = (Some b, None)"
    using w q
    by (auto simp: resolve_witnessed_head_def walk_witness_ledger_def lift_exc_def raise_simps
        split: prod.splits option.splits)
  with w q show ?thesis
    by (auto simp: witness_attested_def verify_head_attestation_None)
next
  case False
  then show ?thesis
    by (auto simp: resolve_witnessed_head_def walk_witness_ledger_def witness_attested_def raise_simps
        split: if_splits)
qed

lemma compare_None:
  "attestation_is_well_formed True w \<Longrightarrow>
   compare_witnessed c w = None \<longleftrightarrow> ok c \<and> names_head w (count c) (head_hash c)"
  by (auto simp: compare_witnessed_def names_head_def attestation_is_well_formed_def nonneg_int_iff)

lemma fold_best_well_formed:
  assumes "fold (inspect v wid) rs (None, None) = (Some b, e)"
  shows "attestation_is_well_formed True b"
proof -
  have "b \<in> set (accepted_attestations v wid rs)"
    using fold_inspect_spec [of v wid rs] assms by (simp add: fold_spec_def)
  then show ?thesis
    by (auto simp: accepted_attestations_def set_map_filter dest: witnessed_well_formed)
qed

lemma verify_witnessed_None:
  "verify_witnessed_head I F p wpath v wid watt None = Inr None \<longleftrightarrow>
   nonempty_str wid \<and> (\<exists>wrs b c rs. witness_attested I F wpath v watt wrs
      \<and> fold (inspect v wid) wrs (None, None) = (Some b, None)
      \<and> walk_ledger I F p 0 = Inr (c, rs) \<and> ok c \<and> names_head b (count c) (head_hash c))"
proof -
  have "verify_witnessed_head I F p wpath v wid watt None = Inr None \<longleftrightarrow>
      nonempty_str wid \<and> (\<exists>b c rs. resolve_witnessed_head I F wpath v wid watt = Inr (Inr b)
        \<and> walk_ledger I F p 0 = Inr (c, rs) \<and> compare_witnessed c b = None)"
  proof (cases "resolve_witnessed_head I F wpath v wid watt")
    case (Inr res)
    then show ?thesis
      by (cases res) (auto simp: verify_witnessed_head_def raise_simps)
  qed (auto simp: verify_witnessed_head_def)
  then show ?thesis
    unfolding resolve_Inr using compare_None fold_best_well_formed by blast
qed

definition highest_undisputed :: "head_attestation list \<Rightarrow> head_attestation \<Rightarrow> bool" where
  "highest_undisputed as b \<longleftrightarrow> b \<in> set as \<and>
     (\<forall>a \<in> set as. int_of (max_seq a) \<le> int_of (max_seq b)
        \<and> (int_of (max_seq a) = int_of (max_seq b) \<longrightarrow> head_record_hash a = head_record_hash b))"

lemma fold_undisputed:
  assumes "fold (inspect v wid) wrs (None, None) = (Some b, None)"
  shows "highest_undisputed (accepted_attestations v wid wrs) b"
proof -
  have "fold_spec (accepted_attestations v wid wrs) (Some b, None)"
    using fold_inspect_spec [of v wid wrs] assms by simp
  then show ?thesis
    unfolding highest_undisputed_def fold_spec_def list_ex_iff fst_conv snd_conv option.case
    by (metis option.distinct(1))
qed

lemma undisputed_fold:
  assumes "highest_undisputed (accepted_attestations v wid wrs) b" "names_head b n h"
  shows "\<exists>b'. fold (inspect v wid) wrs (None, None) = (Some b', None) \<and> names_head b' n h"
proof -
  obtain best e where f: "fold (inspect v wid) wrs (None, None) = (best, e)" by fastforce
  have sp: "fold_spec (accepted_attestations v wid wrs) (best, e)"
    using fold_inspect_spec [of v wid wrs] f by simp
  then obtain b' where b': "best = Some b'" "b' \<in> set (accepted_attestations v wid wrs)"
    "int_of (max_seq b) \<le> int_of (max_seq b')"
    using assms(1) by (cases best) (auto simp: fold_spec_def highest_undisputed_def)
  have "int_of (max_seq b') \<le> int_of (max_seq b)"
    using assms(1) b'(2) by (simp add: highest_undisputed_def)
  then have seq: "int_of (max_seq b') = int_of (max_seq b)" using b'(3) by simp
  moreover from this have hash: "head_record_hash b' = head_record_hash b"
    using assms(1) b'(2) unfolding highest_undisputed_def by blast
  ultimately have "\<not> list_ex (\<lambda>a. int_of (max_seq a) = int_of (max_seq b')
      \<and> head_record_hash a \<noteq> head_record_hash b') (accepted_attestations v wid wrs)"
    using assms(1) unfolding list_ex_iff highest_undisputed_def by metis
  then have "e = None"
    using sp b'(1) by (simp add: fold_spec_def)
  moreover have "names_head b' n h"
    using assms(2) seq hash fold_best_well_formed [of v wid wrs b' e] f b'(1)
    by (auto simp: names_head_def attestation_is_well_formed_def nonneg_int_iff)
  ultimately show ?thesis using f b'(1) by blast
qed

text \<open>
  C32: the witness check passes exactly if the witness ledger is a valid chain under an
  attestation of its own, some accepted record of it for the named ledger is highest and
  undisputed, and the ledger is a valid chain that ends at precisely that head.
\<close>

theorem verify_witnessed_head_iff:
  "verify_witnessed_head I F p wpath v wid watt None = Inr None \<longleftrightarrow>
   nonempty_str wid \<and> (\<exists>wrs b c rs. witness_attested I F wpath v watt wrs
      \<and> highest_undisputed (accepted_attestations v wid wrs) b
      \<and> walk_ledger I F p 0 = Inr (c, rs) \<and> ok c \<and> names_head b (count c) (head_hash c))"
  unfolding verify_witnessed_None using fold_undisputed undisputed_fold by meson

text \<open>
  C34: a ledger shorter than the sequence number of any accepted witness record fails,
  whatever its own sidecar says.
\<close>

theorem witness_detects_rollback:
  assumes "walk_ledger I F wpath 0 = Inr (wc, wrs)" "a \<in> set (accepted_attestations v wid wrs)"
    and "walk_ledger I F p 0 = Inr (c, rs)" "int (count c) < int_of (max_seq a)"
  shows "verify_witnessed_head I F p wpath v wid watt None \<noteq> Inr None"
proof
  assume "verify_witnessed_head I F p wpath v wid watt None = Inr None"
  then obtain b where b: "fold (inspect v wid) wrs (None, None) = (Some b, None)"
      "names_head b (count c) (head_hash c)"
    using assms(1,3) unfolding verify_witnessed_None witness_attested_def by auto
  then have "int_of (max_seq a) \<le> int_of (max_seq b)"
    using fold_inspect_spec [of v wid wrs] assms(2) by (simp add: fold_spec_def)
  with b(2) assms(4) show False by (simp add: names_head_def)
qed

section \<open>A concrete witness ledger\<close>

definition tiny_witness :: "(pystr, json) dict" where
  "tiny_witness = [(k_seq, JInt 1), (k_prev_hash, JStr genesis_hash),
     (k_record_hash, JStr (tiny_hash ''0147'')), (k_record_type, JStr s_head_witness),
     (k_witnessed_ledger_id, JStr (lit ''l'')),
     (k_attestation, JObj (attestation_block (tiny_attestation 2 ''0062'' ''s'')))]"

lemmas witness_keys = k_record_type_def k_witnessed_ledger_id_def k_attestation_def s_head_witness_def

lemma tiny_witness_hash:
  "hash_object tiny_interp (JObj (dict_del k_record_hash tiny_witness)) = Inr (tiny_hash ''0147'')"
  by (simp add: hash_object_def canonical_json_bytes_def dict_del_def tiny_witness_def witness_keys
      attestation_block_def tiny_attestation_def att_keys tiny_defs dumps_defs)


lemma tiny_witness_ok:
  "valid_ledger tiny_interp [tiny_witness]" "writable tiny_interp tiny_witness"
proof -
  have s: "sealed tiny_interp tiny_witness"
    using tiny_witness_hash
    by (simp add: sealed_def record_seal_def)
      (simp add: tiny_witness_def record_keys hex64_def list_all_iff tiny_hash_def lit_def
        is_lower_hex_def is_dec_digit_def)
  then show "valid_ledger tiny_interp [tiny_witness]"
    by (simp add: record_link_def) (simp add: tiny_witness_def record_keys)
  show "writable tiny_interp tiny_witness"
    by (simp add: writable_def record_line_def max_ledger_line_bytes_def float_codec_def
      scalar_text_def list_all_iff is_surrogate_def dict_ok_def max_json_nesting_def tiny_witness_def
      witness_keys attestation_block_def tiny_attestation_def att_keys tiny_defs dumps_defs)
qed

definition tiny_witness_fs :: fs where
  "tiny_witness_fs = tiny_fs [(k_active, [tiny_witness])]"

lemma tiny_witness_walk:
  "walk_ledger tiny_interp tiny_witness_fs tiny_path w
    = Inr (walked w 0 genesis_hash None [normal_record tiny_witness], [normal_record tiny_witness])"
proof -
  have "admit_ledger tiny_witness_fs tiny_path
      = Inr ([[(k_active, FileNode (write_lines tiny_interp [tiny_witness]))], root_dir tiny_witness_fs],
          write_lines tiny_interp [tiny_witness], [k_active])"
    using tiny_segments by (simp add: tiny_witness_fs_def tiny_fs_defs)
  then have "written_as tiny_interp tiny_witness_fs tiny_path [[tiny_witness]]"
    using tiny_witness_ok(2)
    by (simp add: written_as_def tiny_path_def path_name_def write_lines_def)
      (simp add: writable_def max_ledger_line_bytes_def max_ledger_bytes_def)
  from written_walk [OF this] show ?thesis
    using tiny_witness_ok(1) by (simp add: max_ledger_records_def del: valid_from_simps)
qed

lemma tiny_witness_accepts:
  "witnessed_attestation (\<lambda>a. True) (JStr (lit ''l'')) (normal_record tiny_witness)
    = Some (tiny_attestation 2 ''0062'' ''s'')"
proof -
  have d: "dict_ok tiny_witness"
    using tiny_witness_ok(2) by (simp add: writable_def)
  have "get (normal_record tiny_witness) k_record_type = JStr s_head_witness"
    "get (normal_record tiny_witness) k_witnessed_ledger_id = JStr (lit ''l'')"
    "get (normal_record tiny_witness) k_attestation
      = JObj (normal_record (attestation_block (tiny_attestation 2 ''0062'' ''s'')))"
    unfolding get_normal [OF d]
    by (simp_all add: tiny_witness_def record_keys witness_keys normal_obj del: norm_json.simps)
      (simp_all)
  moreover have "attestation_from_block (normal_record (attestation_block (tiny_attestation 2 ''0062'' ''s'')))
      = Some (tiny_attestation 2 ''0062'' ''s'')"
    using from_block_iff [OF block_normal(1)] block_normal(2) tiny_attestation_ok(1) by blast
  ultimately show ?thesis
    by (simp add: witnessed_attestation_def) (simp add: tiny_attestation_def)
qed

theorem witness_detects_rollback_witness:
  "verify_witnessed_head tiny_interp tiny_witness_fs tiny_path tiny_path (\<lambda>a. True)
      (JStr (lit ''l'')) None None \<noteq> Inr None"
  by (rule witness_detects_rollback [OF tiny_witness_walk _ tiny_witness_walk])
    (auto simp: accepted_attestations_def set_map_filter tiny_witness_accepts walked_def
      tiny_attestation_def)

end
