(* ===== verification/Checkpoint.thy ===== *)
theory Checkpoint
  imports Witness
begin

text \<open>
  The checkpoint projection of \<open>verify.py\<close> and the module \<open>checkpoint.py\<close>: the bounded
  snapshot of a caller's object, its fail-closed reading, and its check against a ledger.
\<close>

section \<open>The caller's object\<close>

text \<open>
  \<open>verify_checkpoint\<close> takes any Python object. A finite tree of it is a \<open>pyval\<close>;
  \<open>VSeq\<close> is a list or a tuple, \<open>VMap\<close> any mapping (its keys any value), \<open>VOther\<close> a
  value of no JSON type. A cyclic object has no finite tree; the code refuses it by the
  identity of its containers.
\<close>

datatype pyval =
    VNone
  | VBool bool
  | VInt int
  | VFloat pyfloat
  | VStr pystr
  | VSeq "pyval list"
  | VMap "(pyval \<times> pyval) list"
  | VOther

section \<open>The budget\<close>

text \<open>
  \<open>_checkpoint_string_cost\<close>: two for the quotes, the UTF-8 length of each character,
  four for a surrogate pair.
\<close>

fun string_cost_loop :: "int \<Rightarrow> int \<Rightarrow> pystr \<Rightarrow> exc + int" where
  "string_cost_loop mx cost [] = Inr cost"
| "string_cost_loop mx cost (c # s) =
     (if is_high_surrogate c then
        (case s of
           [] \<Rightarrow> Inl ValueError
         | d # s' \<Rightarrow>
             if \<not> is_low_surrogate d then Inl ValueError
             else if cost + 4 > mx then Inl ValueError
             else string_cost_loop mx (cost + 4) s')
      else if is_low_surrogate c then Inl ValueError
      else if cost + int (length (utf8_char c)) > mx then Inl ValueError
      else string_cost_loop mx (cost + int (length (utf8_char c))) s)"

definition string_cost :: "pystr \<Rightarrow> int \<Rightarrow> exc + int" where
  "string_cost s mx = string_cost_loop mx 2 s"

definition consume :: "int \<Rightarrow> int \<Rightarrow> exc + int" where
  "consume cost remaining = (if remaining - cost < 0 then Inl ValueError else Inr (remaining - cost))"

text \<open>\<open>int.bit_length\<close>.\<close>

fun bit_len :: "nat \<Rightarrow> nat" where
  "bit_len n = (if n = 0 then 0 else Suc (bit_len (n div 2)))"

declare bit_len.simps [simp del]

section \<open>The projection\<close>

text \<open>
  \<open>_project_checkpoint_value\<close>, with the shared counter \<open>remaining\<close> threaded through.
  \<open>str\<close> of an integer over the conversion limit raises \<open>ValueError\<close>.
\<close>

definition project_int :: "int \<Rightarrow> int \<Rightarrow> exc + json \<times> int" where
  "project_int remaining n =
     (if int (bit_len (nat \<bar>n\<bar>)) > remaining * 4 then Inl ValueError
      else if length (dec_digits (nat \<bar>n\<bar>)) > max_str_digits then Inl ValueError
      else bnd (consume (int (length (int_text n))) remaining) (\<lambda>r. Inr (JInt n, r)))"

fun project :: "interp \<Rightarrow> nat \<Rightarrow> int \<Rightarrow> pyval \<Rightarrow> exc + json \<times> int"
  and project_items :: "interp \<Rightarrow> nat \<Rightarrow> int \<Rightarrow> pyval list \<Rightarrow> exc + json list \<times> int"
  and project_members :: "interp \<Rightarrow> nat \<Rightarrow> int \<Rightarrow> (pystr, json) dict \<Rightarrow> (pyval \<times> pyval) list
    \<Rightarrow> exc + (pystr, json) dict \<times> int" where
  "project I depth remaining v =
     bnd (consume 1 remaining) (\<lambda>remaining.
       case v of
         VNone \<Rightarrow> Inr (JNull, remaining)
       | VBool b \<Rightarrow> Inr (JBool b, remaining)
       | VInt n \<Rightarrow> project_int remaining n
       | VFloat x \<Rightarrow>
           if \<not> is_finite x then Inl ValueError
           else bnd (consume (int (length (float_repr I x))) remaining) (\<lambda>r. Inr (JFloat x, r))
       | VStr s \<Rightarrow>
           bnd (string_cost s remaining) (\<lambda>cost.
           bnd (consume cost remaining) (\<lambda>r. Inr (JStr s, r)))
       | VOther \<Rightarrow> Inl TypeError
       | VMap kvs \<Rightarrow>
           if depth \<ge> max_json_nesting then Inl ValueError
           else bnd (project_members I (depth + 1) remaining [] kvs) (\<lambda>(d, r). Inr (JObj d, r))
       | VSeq vs \<Rightarrow>
           if depth \<ge> max_json_nesting then Inl ValueError
           else bnd (project_items I (depth + 1) remaining vs) (\<lambda>(ws, r). Inr (JList ws, r)))"
| "project_items I depth remaining [] = Inr ([], remaining)"
| "project_items I depth remaining (v # vs) =
     bnd (project I depth remaining v) (\<lambda>(w, remaining).
     bnd (project_items I depth remaining vs) (\<lambda>(ws, remaining). Inr (w # ws, remaining)))"
| "project_members I depth remaining projected [] = Inr (projected, remaining)"
| "project_members I depth remaining projected ((k, v) # kvs) =
     (case k of
        VStr key \<Rightarrow>
          bnd (string_cost key remaining) (\<lambda>cost.
          bnd (consume cost remaining) (\<lambda>remaining.
          bnd (project I depth remaining v) (\<lambda>(w, remaining).
            project_members I depth remaining (dict_set key w projected) kvs)))
      | _ \<Rightarrow> Inl TypeError)"

definition checkpoint_snapshot :: "interp \<Rightarrow> pyval \<Rightarrow> exc + (pystr, json) dict" where
  "checkpoint_snapshot I checkpoint =
     bnd (project I 0 (int max_json_document_bytes) checkpoint) (\<lambda>(projected, remaining).
       case as_obj projected of
         None \<Rightarrow> Inl TypeError
       | Some d \<Rightarrow>
           bnd (canonical_json_bytes I projected) (\<lambda>bs.
             if length bs > max_json_document_bytes then Inl ValueError else Inr d))"

section \<open>Reading a checkpoint\<close>

record checkpoint =
  cp_seq :: int
  cp_record_hash :: pystr
  cp_attestation :: head_attestation
  cp_attestation_hash :: pystr
  cp_witness_attestation :: head_attestation
  cp_witness_record_hash :: pystr
  cp_countersignature :: pystr

datatype checkpoint_fault =
    CheckpointMalformed exc
  | UnsupportedKeys
  | MissingFields
  | BadSeq
  | BadCheckpointHash
  | BadAttestationKeys
  | AttestationLedgerId
  | CheckpointAttestationMalformed
  | WitnessNotObject
  | NotHeadWitness
  | WitnessNoRecordHash
  | WitnessHashMismatch
  | WitnessNoAttestation
  | WitnessedLedgerId
  | WitnessLedgerId
  | WitnessAttestationMalformed
  | WitnessOtherLedger
  | BadCountersignature
  | DifferentLedgers
  | AttestationOtherHead
  | WitnessOtherHead
  | AttestationUnverified
  | WitnessUnverified
  | CountersignatureInvalid
  | CheckpointLedgerInvalid "chain_error option"
  | CheckpointTruncated nat int
  | CheckpointRollback int

definition "k_cp_attestation = lit ''attestation''"
definition "k_witness_record = lit ''witness_record''"
definition "k_countersignature = lit ''countersignature''"

definition checkpoint_keys :: "pystr list" where
  "checkpoint_keys = [k_seq, k_record_hash, k_cp_attestation, k_witness_record, k_countersignature]"

text \<open>
  \<open>_checkpoint_witness_record_refusal\<close>: a fault, or the attestation and the stored hash.
\<close>

definition checkpoint_witness_record ::
    "interp \<Rightarrow> json \<Rightarrow> exc + (checkpoint_fault + head_attestation \<times> pystr)" where
  "checkpoint_witness_record I v =
     (case as_obj v of
        None \<Rightarrow> Inr (Inl WitnessNotObject)
      | Some r \<Rightarrow>
          if \<not> py_eq (get r k_record_type) (JStr s_head_witness) then Inr (Inl NotHeadWitness)
          else if \<not> is_digest (get r k_record_hash) then Inr (Inl WitnessNoRecordHash)
          else bnd (hash_object I (JObj (dict_del k_record_hash r))) (\<lambda>h.
            if JStr h \<noteq> get r k_record_hash then Inr (Inl WitnessHashMismatch)
            else case as_obj (get r k_attestation) of
              None \<Rightarrow> Inr (Inl WitnessNoAttestation)
            | Some block \<Rightarrow>
                if \<not> nonempty_str (get r k_witnessed_ledger_id) then Inr (Inl WitnessedLedgerId)
                else if \<not> nonempty_str (get block k_ledger_id) then Inr (Inl WitnessLedgerId)
                else case attestation_from_block block of
                  None \<Rightarrow> Inr (Inl WitnessAttestationMalformed)
                | Some a \<Rightarrow>
                    if \<not> py_eq (ledger_id a) (get r k_witnessed_ledger_id)
                    then Inr (Inl WitnessOtherLedger)
                    else Inr (Inr (a, h))))"

definition parse_checkpoint ::
    "interp \<Rightarrow> (pystr, json) dict \<Rightarrow> exc + (checkpoint_fault + checkpoint)" where
  "parse_checkpoint I d =
     (if \<not> keys_within d checkpoint_keys then Inr (Inl UnsupportedKeys)
      else if \<not> has_keys d checkpoint_keys then Inr (Inl MissingFields)
      else case as_int (get d k_seq) of
        None \<Rightarrow> Inr (Inl BadSeq)
      | Some seq \<Rightarrow>
          if seq < 1 then Inr (Inl BadSeq)
          else case (if is_digest (get d k_record_hash) then as_str (get d k_record_hash) else None) of
            None \<Rightarrow> Inr (Inl BadCheckpointHash)
          | Some record_hash \<Rightarrow>
              (case as_obj (get d k_cp_attestation) of
                 None \<Rightarrow> Inr (Inl BadAttestationKeys)
               | Some block \<Rightarrow>
                   if \<not> keys_exact block attestation_block_keys then Inr (Inl BadAttestationKeys)
                   else if \<not> nonempty_str (get block k_ledger_id) then Inr (Inl AttestationLedgerId)
                   else case attestation_from_block block of
                     None \<Rightarrow> Inr (Inl CheckpointAttestationMalformed)
                   | Some a \<Rightarrow>
                       bnd (checkpoint_witness_record I (get d k_witness_record)) (\<lambda>res.
                         case res of
                           Inl refusal \<Rightarrow> Inr (Inl refusal)
                         | Inr (wa, wh) \<Rightarrow>
                             (case (if nonempty_str (get d k_countersignature)
                                    then as_str (get d k_countersignature) else None) of
                                None \<Rightarrow> Inr (Inl BadCountersignature)
                              | Some cs \<Rightarrow>
                                  bnd (hash_object I (JObj (attestation_block a))) (\<lambda>ah.
                                    Inr (Inr \<lparr>cp_seq = seq, cp_record_hash = record_hash,
                                      cp_attestation = a, cp_attestation_hash = ah,
                                      cp_witness_attestation = wa, cp_witness_record_hash = wh,
                                      cp_countersignature = cs\<rparr>))))))"

section \<open>Checking a checkpoint\<close>

type_synonym countersign_verifier = "pybytes \<Rightarrow> pystr \<Rightarrow> bool"

definition checkpoint_signature_refusal :: "interp \<Rightarrow> checkpoint \<Rightarrow> head_verifier
    \<Rightarrow> countersign_verifier \<Rightarrow> head_verifier option \<Rightarrow> exc + checkpoint_fault option" where
  "checkpoint_signature_refusal I p witness_verifier countersign authority =
     (let a = cp_attestation p; w = cp_witness_attestation p in
      if \<not> py_eq (ledger_id a) (ledger_id w) then Inr (Some DifferentLedgers)
      else if \<not> py_eq (max_seq a) (JInt (cp_seq p))
        \<or> \<not> py_eq (head_record_hash a) (JStr (cp_record_hash p)) then Inr (Some AttestationOtherHead)
      else if \<not> py_eq (max_seq w) (JInt (cp_seq p))
        \<or> \<not> py_eq (head_record_hash w) (JStr (cp_record_hash p)) then Inr (Some WitnessOtherHead)
      else if (case authority of None \<Rightarrow> False | Some v \<Rightarrow> \<not> v a) then Inr (Some AttestationUnverified)
      else if \<not> witness_verifier w then Inr (Some WitnessUnverified)
      else bnd (checkpoint_payload I (cp_seq p) (cp_record_hash p) (cp_attestation_hash p)
          (cp_witness_record_hash p)) (\<lambda>payload.
        if \<not> countersign payload (cp_countersignature p) then Inr (Some CountersignatureInvalid)
        else Inr None))"

definition checkpoint_ledger_refusal :: "chain \<Rightarrow> checkpoint \<Rightarrow> checkpoint_fault option" where
  "checkpoint_ledger_refusal c p =
     (if \<not> ok c then Some (CheckpointLedgerInvalid (error c))
      else if int (count c) < cp_seq p then Some (CheckpointTruncated (count c) (cp_seq p))
      else if hash_at c \<noteq> Some (cp_record_hash p) then Some (CheckpointRollback (cp_seq p))
      else None)"

text \<open>
  \<open>verify_checkpoint\<close>: \<open>Inr None\<close> is the pass. \<open>TypeError\<close> and \<open>ValueError\<close> of the
  snapshot are caught.
\<close>

definition verify_checkpoint :: "interp \<Rightarrow> fs \<Rightarrow> path \<Rightarrow> pyval \<Rightarrow> head_verifier
    \<Rightarrow> countersign_verifier \<Rightarrow> head_verifier option \<Rightarrow> chain option
    \<Rightarrow> raised + checkpoint_fault option" where
  "verify_checkpoint I F path v witness_verifier countersign authority known =
     (case checkpoint_snapshot I v of
        Inl e \<Rightarrow> if e = TypeError \<or> e = ValueError then Inr (Some (CheckpointMalformed e))
                 else Inl (Raised e)
      | Inr d \<Rightarrow>
          bnd (lift_exc (parse_checkpoint I d)) (\<lambda>res.
            case res of
              Inl fault \<Rightarrow> Inr (Some fault)
            | Inr p \<Rightarrow>
                bnd (lift_exc (checkpoint_signature_refusal I p witness_verifier countersign authority))
                  (\<lambda>refusal.
                    case refusal of
                      Some f \<Rightarrow> Inr (Some f)
                    | None \<Rightarrow>
                        bnd (case known of
                            Some c \<Rightarrow> Inr c
                          | None \<Rightarrow> bnd (walk_ledger I F path (cp_seq p)) (\<lambda>(c, rs). Inr c))
                          (\<lambda>c. Inr (checkpoint_ledger_refusal c p)))))"

section \<open>The projection is faithful and bounded\<close>

text \<open>A parsed JSON value as the Python object it is.\<close>

fun embed :: "json \<Rightarrow> pyval" where
  "embed JNull = VNone"
| "embed (JBool b) = VBool b"
| "embed (JInt n) = VInt n"
| "embed (JFloat x) = VFloat x"
| "embed (JStr s) = VStr s"
| "embed (JList vs) = VSeq (map embed vs)"
| "embed (JObj kvs) = VMap (map (\<lambda>(k, v). (VStr k, embed v)) kvs)"

text \<open>The size of a value: one for each node, plus the characters of its strings and keys.\<close>

fun weight :: "json \<Rightarrow> nat" where
  "weight (JStr s) = Suc (length s)"
| "weight (JList vs) = Suc (sum_list (map weight vs))"
| "weight (JObj kvs) = Suc (sum_list (map (\<lambda>(k, v). length k + weight v) kvs))"
| "weight _ = 1"

abbreviation dict_weight :: "(pystr, json) dict \<Rightarrow> nat" where
  "dict_weight d \<equiv> sum_list (map (\<lambda>(k, v). length k + weight v) d)"

lemma consume_Inr: "consume c r = Inr r' \<longleftrightarrow> 0 \<le> r' \<and> r' = r - c"
  by (auto simp: consume_def)

lemma project_int_Inr:
  "project_int r n = Inr (j, r') \<Longrightarrow> j = JInt n \<and> printable j \<and> 0 \<le> r' \<and> r' \<le> r"
  by (auto simp: project_int_def raise_simps consume_Inr split: if_splits)

lemma utf8_char_length: "1 \<le> length (utf8_char c)"
  by (simp add: utf8_char_def)

lemma string_cost_loop_Inr:
  "string_cost_loop mx c s = Inr n \<Longrightarrow> paired_surrogates s \<and> c + int (length s) \<le> n"
proof (induction mx c s rule: string_cost_loop.induct)
  case (2 mx cost c s)
  then show ?case
    using utf8_char_length [of c]
    by (fastforce split: if_splits list.splits)
qed simp

lemma string_cost_Inr: "string_cost s mx = Inr n \<Longrightarrow> paired_surrogates s \<and> int (length s) + 2 \<le> n"
  using string_cost_loop_Inr by (fastforce simp: string_cost_def)

text \<open>
  What a projection promises of its result: bounded depth, valid strings, printable
  numbers.
\<close>

definition plain_at :: "nat \<Rightarrow> json \<Rightarrow> bool" where
  "plain_at depth j \<longleftrightarrow> printable j \<and> no_unpaired_surrogates j \<and> json_depth j + depth \<le> max_json_nesting"

definition plain_members :: "nat \<Rightarrow> (pystr, json) dict \<Rightarrow> bool" where
  "plain_members depth d \<longleftrightarrow> list_all (\<lambda>(k, v). paired_surrogates k \<and> plain_at depth v) d"

lemma depth_step:
  assumes "list_all (\<lambda>n. n + Suc depth \<le> max_json_nesting) ns" "depth < max_json_nesting"
  shows "Suc (foldr max ns 0) + depth \<le> max_json_nesting"
proof -
  have "foldr max ns 0 \<le> max_json_nesting - Suc depth"
    using assms(1) by (auto simp: foldr_max_le list_all_iff)
  with assms(2) show ?thesis by simp
qed

lemma plain_list: "list_all (plain_at (Suc depth)) ws \<Longrightarrow> depth < max_json_nesting \<Longrightarrow> plain_at depth (JList ws)"
  using depth_step [of depth "map json_depth ws"] by (auto simp: plain_at_def list_all_iff)

lemma plain_obj: "plain_members (Suc depth) d \<Longrightarrow> depth < max_json_nesting \<Longrightarrow> plain_at depth (JObj d)"
  using depth_step [of depth "map (\<lambda>(k, v). json_depth v) d"]
  by (fastforce simp: plain_at_def plain_members_def list_all_iff)

lemma dict_weight_set: "dict_weight (dict_set k v d) \<le> dict_weight d + length k + weight v"
  by (induction k v d rule: dict_set.induct) auto

lemma plain_members_set:
  "plain_members n d \<Longrightarrow> paired_surrogates k \<Longrightarrow> plain_at n v \<Longrightarrow> plain_members n (dict_set k v d)"
  by (induction k v d rule: dict_set.induct) (auto simp: plain_members_def)

lemma project_bounded:
  "0 \<le> r \<Longrightarrow> n \<le> max_json_nesting \<Longrightarrow> project I n r v = Inr (j, r') \<Longrightarrow>
    0 \<le> r' \<and> int (weight j) \<le> r - r' \<and> plain_at n j"
  "0 \<le> r \<Longrightarrow> n \<le> max_json_nesting \<Longrightarrow> project_items I n r vs = Inr (ws, r') \<Longrightarrow>
    0 \<le> r' \<and> int (sum_list (map weight ws)) \<le> r - r' \<and> list_all (plain_at n) ws"
  "0 \<le> r \<Longrightarrow> n \<le> max_json_nesting \<Longrightarrow> plain_members n d \<Longrightarrow>
    project_members I n r d kvs = Inr (d', r') \<Longrightarrow>
    0 \<le> r' \<and> int (dict_weight d') \<le> int (dict_weight d) + (r - r') \<and> plain_members n d'"
proof (induction I n r v and I n r vs and I n r d kvs arbitrary: j r' and ws r' and d' r'
    rule: project_project_items_project_members.induct)
  case (1 I n r v)
  obtain r1 where r1: "consume 1 r = Inr r1" "0 \<le> r1" "r1 = r - 1"
    using "1.prems"(3) by (auto simp: raise_simps consume_Inr)
  show ?case
  proof (cases v)
    case (VInt k)
    then have "project_int r1 k = Inr (j, r')" using "1.prems"(3) r1(1) by simp
    from project_int_Inr [OF this] r1 "1.prems"(2) show ?thesis
      by (auto simp: plain_at_def)
  next
    case (VStr s)
    then obtain c where "string_cost s r1 = Inr c" "consume c r1 = Inr r'" "j = JStr s"
      using "1.prems"(3) r1(1) by (auto simp: raise_simps)
    then show ?thesis
      using string_cost_Inr [of s r1 c] r1 "1.prems"(2) by (auto simp: consume_Inr plain_at_def)
  next
    case (VSeq vs)
    then obtain ws where "n < max_json_nesting" "project_items I (Suc n) r1 vs = Inr (ws, r')" "j = JList ws"
      using "1.prems"(3) r1(1) by (auto simp: raise_simps split: if_splits)
    then show ?thesis
      using "1.IH"(1) [OF r1(1) VSeq, of ws r'] r1 VSeq by (auto simp: plain_list)
  next
    case (VMap kvs)
    then obtain d where "n < max_json_nesting" "project_members I (Suc n) r1 [] kvs = Inr (d, r')" "j = JObj d"
      using "1.prems"(3) r1(1) by (auto simp: raise_simps split: if_splits)
    then show ?thesis
      using "1.IH"(2) [OF r1(1) VMap, of d r'] r1 VMap by (auto simp: plain_obj plain_members_def)
  next
    case (VFloat x)
    then show ?thesis
      using "1.prems" r1 by (auto simp: plain_at_def consume_def split: if_splits)
  next
    case VNone
    then show ?thesis using "1.prems" r1 by (auto simp: plain_at_def)
  next
    case (VBool b)
    then show ?thesis using "1.prems" r1 by (auto simp: plain_at_def)
  next
    case VOther
    then show ?thesis using "1.prems" r1 by simp
  qed
next
  case (3 I n r v vs)
  then show ?case by (fastforce simp: raise_simps)
next
  case (5 I n r d k v kvs)
  obtain key c r1 w r2 where k: "k = VStr key" "string_cost key r = Inr c" "consume c r = Inr r1"
      "project I n r1 v = Inr (w, r2)" "project_members I n r2 (dict_set key w d) kvs = Inr (d', r')"
    using "5.prems"(4) by (cases k) (auto simp: raise_simps simp del: project.simps)
  have c: "paired_surrogates key" "int (length key) + 2 \<le> c" "0 \<le> r1" "r1 = r - c"
    using string_cost_Inr [OF k(2)] k(3) by (auto simp: consume_Inr)
  have w: "0 \<le> r2 \<and> int (weight w) \<le> r1 - r2 \<and> plain_at n w"
    using "5.IH"(1) [OF k(1-3)] k(4) c "5.prems"(2) by simp
  then have "0 \<le> r' \<and> int (dict_weight d') \<le> int (dict_weight (dict_set key w d)) + (r2 - r')
      \<and> plain_members n d'"
    using "5.IH"(2) [OF k(1-4) refl _ _ _ k(5)] plain_members_set [OF "5.prems"(3) c(1)] "5.prems"(2)
    by simp
  with dict_weight_set [of key w d] w c show ?case by linarith
qed auto

declare project.simps [simp del]

lemma project_items_embed:
  assumes "\<And>v n r j r'. v \<in> set vs \<Longrightarrow> project I n r (embed v) = Inr (j, r') \<Longrightarrow> j = v"
  shows "project_items I n r (map embed vs) = Inr (ws, r') \<Longrightarrow> ws = vs"
  using assms
proof (induction vs arbitrary: r ws)
  case (Cons v vs)
  obtain w r1 ws1 where s: "project I n r (embed v) = Inr (w, r1)"
      "project_items I n r1 (map embed vs) = Inr (ws1, r')" "ws = w # ws1"
    using Cons.prems(1) by (auto simp: raise_simps)
  then show ?case
    using Cons.prems(2) [OF _ s(1)] Cons.IH [OF s(2)] Cons.prems(2) by simp
qed simp

lemma project_members_embed:
  assumes "\<And>k v n r j r'. (k, v) \<in> set kvs \<Longrightarrow> project I n r (embed v) = Inr (j, r') \<Longrightarrow> j = v"
  shows "project_members I n r d (map (\<lambda>(k, v). (VStr k, embed v)) kvs) = Inr (d', r') \<Longrightarrow>
    dict_ok (d @ kvs) \<Longrightarrow> d' = d @ kvs"
  using assms
proof (induction kvs arbitrary: r d)
  case (Cons kv kvs)
  obtain k v where kv: "kv = (k, v)" by (cases kv)
  obtain r1 w r2 where s: "project I n r1 (embed v) = Inr (w, r2)"
      "project_members I n r2 (dict_set k w d) (map (\<lambda>(k, v). (VStr k, embed v)) kvs) = Inr (d', r')"
    using Cons.prems(1) by (auto simp: kv raise_simps)
  have w: "w = v" using Cons.prems(3) [of k v, OF _ s(1)] kv by simp
  have "k \<notin> set (keys d)" using Cons.prems(2) by (auto simp: dict_ok_def kv)
  then have "dict_set k w d = d @ [kv]" by (simp add: dict_set_fresh w kv)
  with s(2) have "project_members I n r2 (d @ [kv]) (map (\<lambda>(k, v). (VStr k, embed v)) kvs) = Inr (d', r')"
    by simp
  then have "d' = (d @ [kv]) @ kvs"
    by (rule Cons.IH) (use Cons.prems(2) in simp, erule Cons.prems(3) [OF list.set_intros(2)])
  then show ?case by simp
qed simp

lemma project_embed: "json_ok j \<Longrightarrow> project I n r (embed j) = Inr (j', r') \<Longrightarrow> j' = j"
proof (induction j arbitrary: n r j' r' rule: json_induct)
  case (List vs)
  obtain r1 ws where s: "project_items I (n + 1) r1 (map embed vs) = Inr (ws, r')" "j' = JList ws"
    using List.prems(2) by (auto simp: project.simps raise_simps split: if_splits)
  have "ws = vs"
    by (rule project_items_embed [OF _ s(1)]) (use List in \<open>auto simp: list_all_iff\<close>)
  with s(2) show ?case by simp
next
  case (Obj kvs)
  obtain r1 d where s: "project_members I (n + 1) r1 [] (map (\<lambda>(k, v). (VStr k, embed v)) kvs) = Inr (d, r')"
      "j' = JObj d"
    using Obj.prems(2) by (auto simp: project.simps raise_simps split: if_splits)
  have "d = [] @ kvs"
    by (rule project_members_embed [OF _ s(1)]) (use Obj in \<open>auto simp: list_all_iff\<close>)
  with s(2) show ?case by simp
qed (auto simp: project.simps project_int_def raise_simps split: if_splits)

text \<open>
  A snapshot that is taken of a parsed JSON value is that value, and whatever object
  the caller passed, its snapshot stays within the budget of nodes and characters, the
  nesting limit and the size limit of its canonical text, with printable numbers and no
  unpaired surrogate.
\<close>

theorem checkpoint_snapshot_bounded:
  assumes "checkpoint_snapshot I v = Inr d"
  shows "weight (JObj d) \<le> max_json_document_bytes \<and> printable (JObj d)
    \<and> no_unpaired_surrogates (JObj d) \<and> json_depth (JObj d) \<le> max_json_nesting
    \<and> length (dumps (float_repr I) (JObj d)) \<le> max_json_document_bytes
    \<and> (\<forall>j. v = embed j \<longrightarrow> json_ok j \<longrightarrow> j = JObj d)"
proof -
  obtain r' bs where p: "project I 0 (int max_json_document_bytes) v = Inr (JObj d, r')"
      "canonical_json_bytes I (JObj d) = Inr bs" "length bs \<le> max_json_document_bytes"
    using assms by (auto simp: checkpoint_snapshot_def raise_simps split: option.splits if_splits)
  from project_bounded(1) [OF _ _ p(1)] have
    "int (weight (JObj d)) \<le> int max_json_document_bytes" "plain_at 0 (JObj d)"
    by auto
  moreover have "j = JObj d" if "v = embed j" "json_ok j" for j
    using project_embed [of j I 0 "int max_json_document_bytes" "JObj d" r'] that p(1) by simp
  moreover have "length (dumps (float_repr I) (JObj d)) \<le> max_json_document_bytes"
    using p(2,3) by (auto simp: canonical_json_bytes_Inr simp del: dumps.simps)
  ultimately show ?thesis
    unfolding plain_at_def by simp
qed

section \<open>No exception escapes\<close>

lemma string_cost_loop_Inl: "string_cost_loop mx c s = Inl e \<Longrightarrow> e = ValueError"
  by (induction mx c s rule: string_cost_loop.induct) (auto split: if_splits list.splits)

lemma cost_Inl:
  "string_cost s mx = Inl e \<Longrightarrow> e = ValueError" "consume c r = Inl e \<Longrightarrow> e = ValueError"
  "project_int r n = Inl e \<Longrightarrow> e = ValueError"
  by (auto simp: string_cost_def consume_def project_int_def bnd_Inl_iff
      dest: string_cost_loop_Inl split: if_splits)

lemma project_Inl:
  "project I n r v = Inl e \<Longrightarrow> e \<in> {TypeError, ValueError}"
  "project_items I n r vs = Inl e \<Longrightarrow> e \<in> {TypeError, ValueError}"
  "project_members I n r d kvs = Inl e \<Longrightarrow> e \<in> {TypeError, ValueError}"
proof (induction I n r v and I n r vs and I n r d kvs rule: project_project_items_project_members.induct)
  case (1 I n r v)
  then show ?case
    by (cases v) (auto simp: project.simps bnd_Inl_iff dest: cost_Inl split: if_splits)
next
  case (3 I n r v vs)
  then show ?case by (auto simp: bnd_Inl_iff)
next
  case (5 I n r d k v kvs)
  then show ?case by (cases k) (auto simp: bnd_Inl_iff dest: cost_Inl)
qed auto

lemma checkpoint_snapshot_Inl: "checkpoint_snapshot I v = Inl e \<Longrightarrow> e \<in> {TypeError, ValueError}"
  by (auto simp: checkpoint_snapshot_def bnd_Inl_iff canonical_json_bytes_def
      dest: project_Inl split: option.splits if_splits)

lemma printable_get: "printable (JObj d) \<Longrightarrow> printable (get d k)"
  by (auto simp: get_def list_all_iff dest!: map_of_SomeD split: option.splits)

lemma witness_record_total: "printable v \<Longrightarrow> checkpoint_witness_record I v \<noteq> Inl e"
proof
  assume p: "printable v" and e: "checkpoint_witness_record I v = Inl e"
  then obtain r where r: "v = JObj r"
    by (auto simp: checkpoint_witness_record_def split: option.splits)
  then obtain h where "hash_object I (JObj (dict_del k_record_hash r)) = Inr h"
    using hash_object_total [OF printable_del] p by blast
  with e r show False
    by (auto simp: checkpoint_witness_record_def split: option.splits if_splits)
qed

lemma printable_block:
  assumes "printable (JObj block)" "attestation_from_block block = Some a"
  shows "printable (JObj (attestation_block a))"
proof -
  have "max_seq a = get block k_max_seq"
    using assms(2) by (auto simp: attestation_from_block_def attestation_from_mapping_def Let_def
        split: if_splits)
  then have "printable (max_seq a)" using printable_get [OF assms(1)] by simp
  moreover have "attestation_is_well_formed True a"
    using assms(2) by (auto simp: attestation_from_block_def dest: from_mapping_well_formed)
  ultimately show ?thesis
    using well_formed_fields [of True a] by (auto simp: attestation_block_def)
qed

lemma parse_checkpoint_total:
  assumes "printable (JObj d)" shows "parse_checkpoint I d \<noteq> Inl e"
proof
  assume "parse_checkpoint I d = Inl e"
  then have "checkpoint_witness_record I (get d k_witness_record) = Inl e
    \<or> (\<exists>block a. get d k_cp_attestation = JObj block \<and> attestation_from_block block = Some a
        \<and> hash_object I (JObj (attestation_block a)) = Inl e)"
    by (auto simp: parse_checkpoint_def bnd_Inl_iff split_sum_ex split: option.splits if_splits)
  then show False
    using witness_record_total [OF printable_get [OF assms]] printable_get [OF assms, of k_cp_attestation]
      printable_block hash_object_total by (metis sum.distinct(1))
qed

lemma parse_checkpoint_seq:
  "parse_checkpoint I d = Inr (Inr p) \<Longrightarrow> get d k_seq = JInt (cp_seq p) \<and> 1 \<le> cp_seq p
    \<and> get d k_record_hash = JStr (cp_record_hash p) \<and> hex64 (cp_record_hash p)"
  by (auto simp: parse_checkpoint_def raise_simps is_digest_iff split_sum_ex split: option.splits if_splits)

lemma signature_refusal_total:
  assumes "parse_checkpoint I d = Inr (Inr p)" "printable (JObj d)"
  shows "checkpoint_signature_refusal I p wv cv av \<noteq> Inl e"
proof -
  have "printable (JInt (cp_seq p))"
    using parse_checkpoint_seq [OF assms(1)] printable_get [OF assms(2), of k_seq] by simp
  then have "checkpoint_payload I (cp_seq p) h a w \<noteq> Inl e" for h a w
    by (simp add: checkpoint_payload_def canonical_json_bytes_def)
  then show ?thesis
    by (auto simp: checkpoint_signature_refusal_def Let_def bnd_Inl_iff split: if_splits)
qed

text \<open>
  Whatever object the caller passes as a checkpoint, and whatever the ledger holds,
  \<open>verify_checkpoint\<close> returns a verdict unless the operating system fails to read a file.
\<close>

theorem verify_checkpoint_exceptions:
  "verify_checkpoint I F path v wv cv av None \<noteq> Inl (Raised e)"
proof
  assume e: "verify_checkpoint I F path v wv cv av None = Inl (Raised e)"
  have "checkpoint_snapshot I v \<noteq> Inl x \<or> x = TypeError \<or> x = ValueError" for x
    using checkpoint_snapshot_Inl by blast
  with e obtain d where d: "checkpoint_snapshot I v = Inr d"
    by (cases "checkpoint_snapshot I v") (auto simp: verify_checkpoint_def)
  then have pr: "printable (JObj d)"
    by (auto simp: checkpoint_snapshot_def raise_simps canonical_json_bytes_def
        split: option.splits if_splits)
  obtain res where res: "parse_checkpoint I d = Inr res"
    using parse_checkpoint_total [OF pr] by (cases "parse_checkpoint I d") auto
  show False
  proof (cases res)
    case (Inl f)
    with e d res show False by (simp add: verify_checkpoint_def lift_exc_def)
  next
    case (Inr p)
    obtain q where q: "checkpoint_signature_refusal I p wv cv av = Inr q"
      using signature_refusal_total [OF res [unfolded Inr] pr]
      by (cases "checkpoint_signature_refusal I p wv cv av") auto
    have "walk_ledger I F path (cp_seq p) \<noteq> Inl (Raised x)" for x
      by (rule walk_ledger_raises)
    with e d res Inr q show False
      by (auto simp: verify_checkpoint_def lift_exc_def bnd_Inl_iff split: option.splits)
  qed
qed

section \<open>What a pass means\<close>

definition checkpoint_admitted :: "interp \<Rightarrow> pyval \<Rightarrow> head_verifier \<Rightarrow> countersign_verifier
    \<Rightarrow> head_verifier option \<Rightarrow> checkpoint \<Rightarrow> bool" where
  "checkpoint_admitted I v wv cv av p \<longleftrightarrow>
     (\<exists>d. checkpoint_snapshot I v = Inr d \<and> parse_checkpoint I d = Inr (Inr p)
        \<and> checkpoint_signature_refusal I p wv cv av = Inr None)"

lemma ledger_refusal_walked:
  assumes "walk_ledger I F path (cp_seq p) = Inr (c, rs)" "1 \<le> cp_seq p"
  shows "checkpoint_ledger_refusal c p = None \<longleftrightarrow>
    ok c \<and> cp_seq p \<le> int (length rs) \<and> record_seal (rs ! (nat (cp_seq p) - 1)) = JStr (cp_record_hash p)"
proof (cases "ok c")
  case True
  have c: "valid_ledger I rs" "c = walked (cp_seq p) 0 genesis_hash None rs"
    using walk_ledger_ok [of I F path "cp_seq p" c rs] assms(1) True by auto
  have seal: "record_seal (rs ! i) = JStr (seal_text (rs ! i))" if "i < length rs" for i
    using valid_from_chained [OF c(1)] that by (auto simp: list_all_iff intro!: sealed_seal)
  show ?thesis
    using assms(2) seal [of "nat (cp_seq p) - 1"]
    by (auto simp: checkpoint_ledger_refusal_def c(2) walked_def)
qed (simp add: checkpoint_ledger_refusal_def)

lemma verify_checkpoint_pass:
  "verify_checkpoint I F path v wv cv av None = Inr None \<longleftrightarrow>
   (\<exists>p c rs. checkpoint_admitted I v wv cv av p \<and> walk_ledger I F path (cp_seq p) = Inr (c, rs)
      \<and> checkpoint_ledger_refusal c p = None)"
proof (cases "checkpoint_snapshot I v")
  case (Inr d)
  show ?thesis
    by (cases "parse_checkpoint I d")
      (auto simp: verify_checkpoint_def checkpoint_admitted_def Inr lift_exc_def raise_simps
        split: sum.splits option.splits)
qed (auto simp: verify_checkpoint_def checkpoint_admitted_def)

lemma admitted_seq: "checkpoint_admitted I v wv cv av p \<Longrightarrow> 1 \<le> cp_seq p"
  by (auto simp: checkpoint_admitted_def dest: parse_checkpoint_seq)

lemma verify_checkpoint_walks:
  "verify_checkpoint I F path v wv cv av None = Inr None \<longleftrightarrow>
   (\<exists>p c rs. checkpoint_admitted I v wv cv av p
      \<and> (walk_ledger I F path (cp_seq p) = Inr (c, rs) \<and> ok c)
      \<and> cp_seq p \<le> int (length rs) \<and> record_seal (rs ! (nat (cp_seq p) - 1)) = JStr (cp_record_hash p))"
  unfolding verify_checkpoint_pass using ledger_refusal_walked admitted_seq by blast

text \<open>
  A checkpoint passes exactly if the object reads as a checkpoint whose identities and
  signatures hold, the ledger is a valid chain at least as long as the checkpoint, and the
  record at its sequence number carries the checkpointed hash.
\<close>

theorem verify_checkpoint_iff:
  "verify_checkpoint I F path v wv cv av None = Inr None \<longleftrightarrow>
   (\<exists>p evs rs. checkpoint_admitted I v wv cv av p \<and> admitted_lines F path = Some evs
      \<and> record_lines I evs rs \<and> length rs \<le> max_ledger_records \<and> valid_ledger I rs
      \<and> cp_seq p \<le> int (length rs) \<and> record_seal (rs ! (nat (cp_seq p) - 1)) = JStr (cp_record_hash p))"
  unfolding verify_checkpoint_walks walk_ledger_ok by blast

text \<open>The sequence number asked for does not change what a walk reads.\<close>

lemma walk_want_irrelevant:
  assumes "walk_ledger I F path w = Inr (c, rs)" "ok c"
  shows "\<exists>c'. walk_ledger I F path w' = Inr (c', rs) \<and> ok c'"
  using walk_ledger_ok [of I F path w c rs] walk_ledger_ok [of I F path w' _ rs] assms by auto

lemma checkpoint_pass_records:
  assumes "walk_ledger I F path w = Inr (c, rs)" "ok c"
  shows "verify_checkpoint I F path v wv cv av None = Inr None \<longleftrightarrow>
   (\<exists>p. checkpoint_admitted I v wv cv av p \<and> cp_seq p \<le> int (length rs)
      \<and> record_seal (rs ! (nat (cp_seq p) - 1)) = JStr (cp_record_hash p))"
proof -
  have same: "rs1 = rs" if "walk_ledger I F path n = Inr (c1, rs1)" for n c1 rs1
    using walk_want_irrelevant [OF assms, of n] that by auto
  show ?thesis
  proof
    assume "verify_checkpoint I F path v wv cv av None = Inr None"
    then obtain p c1 rs1 where "checkpoint_admitted I v wv cv av p"
        "walk_ledger I F path (cp_seq p) = Inr (c1, rs1)" "cp_seq p \<le> int (length rs1)"
        "record_seal (rs1 ! (nat (cp_seq p) - 1)) = JStr (cp_record_hash p)"
      unfolding verify_checkpoint_walks by blast
    then show "\<exists>p. checkpoint_admitted I v wv cv av p \<and> cp_seq p \<le> int (length rs)
        \<and> record_seal (rs ! (nat (cp_seq p) - 1)) = JStr (cp_record_hash p)"
      using same by blast
  next
    assume "\<exists>p. checkpoint_admitted I v wv cv av p \<and> cp_seq p \<le> int (length rs)
        \<and> record_seal (rs ! (nat (cp_seq p) - 1)) = JStr (cp_record_hash p)"
    then obtain p where p: "checkpoint_admitted I v wv cv av p" "cp_seq p \<le> int (length rs)"
        "record_seal (rs ! (nat (cp_seq p) - 1)) = JStr (cp_record_hash p)" by blast
    with walk_want_irrelevant [OF assms, of "cp_seq p"]
    show "verify_checkpoint I F path v wv cv av None = Inr None"
      unfolding verify_checkpoint_walks by blast
  qed
qed

lemma verified_walk:
  assumes "read_verified_records I F path = Inr (True, rs, None)"
  shows "\<exists>c. walk_ledger I F path 0 = Inr (c, rs) \<and> ok c"
  using assms by (auto simp: read_verified_records_def raise_simps split: if_splits)

text \<open>
  A ledger that only grew since the checkpoint still passes: whatever accepted records
  were appended, rotated or not.
\<close>

theorem checkpoint_survives_append:
  assumes "verify_checkpoint I F path v wv cv av None = Inr None"
    and "read_verified_records I F path = Inr (True, rs, None)"
    and "read_verified_records I F' path' = Inr (True, rs @ grown, None)"
  shows "verify_checkpoint I F' path' v wv cv av None = Inr None"
proof -
  obtain c where c: "walk_ledger I F path 0 = Inr (c, rs)" "ok c"
    using verified_walk [OF assms(2)] by blast
  obtain c' where c': "walk_ledger I F' path' 0 = Inr (c', rs @ grown)" "ok c'"
    using verified_walk [OF assms(3)] by blast
  obtain p where p: "checkpoint_admitted I v wv cv av p" "cp_seq p \<le> int (length rs)"
      "record_seal (rs ! (nat (cp_seq p) - 1)) = JStr (cp_record_hash p)"
    using assms(1) unfolding checkpoint_pass_records [OF c] by blast
  have "nat (cp_seq p) - 1 < length rs"
    using p(2) admitted_seq [OF p(1)] by linarith
  then have "(rs @ grown) ! (nat (cp_seq p) - 1) = rs ! (nat (cp_seq p) - 1)"
    by (simp add: nth_append)
  moreover have "cp_seq p \<le> int (length (rs @ grown))"
    using p(2) by simp
  ultimately show ?thesis
    using p unfolding checkpoint_pass_records [OF c'] by metis
qed

text \<open>
  C39: a checkpoint pins the history below it. Two ledgers that pass with one checkpoint
  agree on every record up to its sequence number, up to key order, unless two records at
  one position are a collision of the hash.
\<close>

theorem checkpoint_pins_history:
  assumes "verify_checkpoint I F path v wv cv av None = Inr None"
    and "verify_checkpoint I F' path' v wv cv av None = Inr None"
    and "read_verified_records I F path = Inr (True, rs, None)"
    and "read_verified_records I F' path' = Inr (True, rs', None)"
    and "checkpoint_admitted I v wv cv av p"
    and "\<forall>r \<in> set rs \<union> set rs'. float_codec I (JObj r)"
  shows "list_all2 record_same (take (nat (cp_seq p)) rs) (take (nat (cp_seq p)) rs')
    \<or> list_ex (\<lambda>(r, r'). record_clash I r r')
        (zip (take (nat (cp_seq p)) rs) (take (nat (cp_seq p)) rs'))"
proof -
  let ?n = "nat (cp_seq p)"
  obtain c where c: "walk_ledger I F path 0 = Inr (c, rs)" "ok c"
    using verified_walk [OF assms(3)] by blast
  obtain c' where c': "walk_ledger I F' path' 0 = Inr (c', rs')" "ok c'"
    using verified_walk [OF assms(4)] by blast
  have one: "q = p" if "checkpoint_admitted I v wv cv av q" for q
    using that assms(5) by (auto simp: checkpoint_admitted_def)
  have n: "0 < ?n" using admitted_seq [OF assms(5)] by simp
  have s: "?n \<le> length rs" "record_seal (rs ! (?n - 1)) = JStr (cp_record_hash p)"
    using assms(1) one unfolding checkpoint_pass_records [OF c] by fastforce+
  have s': "?n \<le> length rs'" "record_seal (rs' ! (?n - 1)) = JStr (cp_record_hash p)"
    using assms(2) one unfolding checkpoint_pass_records [OF c'] by fastforce+
  show ?thesis
  proof (rule ledger_chain.tamper_evident)
    show "list_all (chain_record I) (take ?n rs)" "list_all (chain_record I) (take ?n rs')"
      using walk_ledger_sound [OF c] walk_ledger_sound [OF c'] assms(6)
      by (auto simp: list_all_iff dest: in_set_takeD)
    show "chained record_link record_seal (JStr genesis_hash) (take ?n rs)"
      "chained record_link record_seal (JStr genesis_hash) (take ?n rs')"
      using walked_facts(2) [OF c] walked_facts(2) [OF c'] by (simp_all add: chained_take)
    show "chain_head record_seal (JStr genesis_hash) (take ?n rs)
        = chain_head record_seal (JStr genesis_hash) (take ?n rs')"
      using s s' n by (simp add: chain_head_take)
  qed (use s s' in simp)
qed

section \<open>A concrete checkpoint\<close>

abbreviation tiny_block :: json where
  "tiny_block \<equiv> JObj (attestation_block (tiny_attestation 1 ''0061'' ''s''))"

definition tiny_witness_record :: "(pystr, json) dict" where
  "tiny_witness_record = [(k_record_type, JStr s_head_witness), (k_witnessed_ledger_id, JStr (lit ''l'')),
     (k_attestation, tiny_block), (k_record_hash, JStr (tiny_hash ''00f0''))]"

definition tiny_checkpoint :: "(pystr, json) dict" where
  "tiny_checkpoint = [(k_seq, JInt 1), (k_record_hash, JStr (tiny_hash ''0061'')),
     (k_cp_attestation, tiny_block), (k_witness_record, JObj tiny_witness_record),
     (k_countersignature, JStr (lit ''c''))]"

lemmas checkpoint_defs = tiny_checkpoint_def tiny_witness_record_def attestation_block_def
  tiny_attestation_def att_keys witness_keys k_cp_attestation_def k_witness_record_def
  k_countersignature_def tiny_defs

lemma tiny_replicate: "string_cost_loop mx c (replicate n 48 @ s) =
    (if 0 < n \<and> c + int n > mx then Inl ValueError else string_cost_loop mx (c + int n) s)"
  by (induction n arbitrary: c)
    (auto simp: is_high_surrogate_def is_low_surrogate_def utf8_char_def add.assoc)

lemma tiny_project: "\<exists>r. project tiny_interp 0 (int max_json_document_bytes) (embed (JObj tiny_checkpoint))
    = Inr (JObj tiny_checkpoint, r)"
  by (simp add: checkpoint_defs project.simps max_json_nesting_def max_json_document_bytes_def
      string_cost_def tiny_replicate is_high_surrogate_def is_low_surrogate_def utf8_char_def consume_def
      project_int_def bit_len.simps max_str_digits_def dec_digits.simps int_text_def)

lemma tiny_snapshot: "checkpoint_snapshot tiny_interp (embed (JObj tiny_checkpoint)) = Inr tiny_checkpoint"
proof -
  have "canonical_json_bytes tiny_interp (JObj tiny_checkpoint)
      = Inr (map of_nat (dumps (float_repr tiny_interp) (JObj tiny_checkpoint)))"
    by (simp add: canonical_json_bytes_def checkpoint_defs max_str_digits_def dec_digits.simps)
  moreover have "length (dumps (float_repr tiny_interp) (JObj tiny_checkpoint)) \<le> max_json_document_bytes"
    by (simp add: checkpoint_defs dumps_defs max_json_document_bytes_def)
  ultimately show ?thesis
    using tiny_project by (auto simp: checkpoint_snapshot_def simp del: dumps.simps embed.simps)
qed

lemma tiny_witness_record:
  "checkpoint_witness_record tiny_interp (JObj tiny_witness_record)
    = Inr (Inr (tiny_attestation 1 ''0061'' ''s'', tiny_hash ''00f0''))"
proof -
  have "hash_object tiny_interp (JObj (dict_del k_record_hash tiny_witness_record)) = Inr (tiny_hash ''00f0'')"
    by (simp add: hash_object_def canonical_json_bytes_def dict_del_def checkpoint_defs dumps_defs)
  moreover have "hex64 (tiny_hash ''00f0'')"
    by (simp add: hex64_def list_all_iff tiny_hash_def lit_def is_lower_hex_def is_dec_digit_def)
  moreover have "get tiny_witness_record k_record_type = JStr s_head_witness"
    "get tiny_witness_record k_record_hash = JStr (tiny_hash ''00f0'')"
    "get tiny_witness_record k_attestation = tiny_block"
    "get tiny_witness_record k_witnessed_ledger_id = JStr (lit ''l'')"
    by (simp_all add: tiny_witness_record_def witness_keys record_keys)
  moreover have "ledger_id (tiny_attestation 1 ''0061'' ''s'') = JStr (lit ''l'')"
    by (simp add: tiny_attestation_def)
  ultimately show ?thesis
    using from_block_block [OF tiny_attestation_ok(2) [of True 1]]
    by (simp add: checkpoint_witness_record_def is_digest_iff nonempty_str_def)
qed

definition tiny_parsed :: checkpoint where
  "tiny_parsed = \<lparr>cp_seq = 1, cp_record_hash = tiny_hash ''0061'',
     cp_attestation = tiny_attestation 1 ''0061'' ''s'', cp_attestation_hash = tiny_hash ''00a9'',
     cp_witness_attestation = tiny_attestation 1 ''0061'' ''s'',
     cp_witness_record_hash = tiny_hash ''00f0'', cp_countersignature = lit ''c''\<rparr>"

lemma tiny_parse: "parse_checkpoint tiny_interp tiny_checkpoint = Inr (Inr tiny_parsed)"
proof -
  have "hash_object tiny_interp tiny_block = Inr (tiny_hash ''00a9'')"
    by (simp add: hash_object_def canonical_json_bytes_def checkpoint_defs dumps_defs)
  moreover have "get tiny_checkpoint k_seq = JInt 1"
    "get tiny_checkpoint k_record_hash = JStr (tiny_hash ''0061'')"
    "get tiny_checkpoint k_cp_attestation = tiny_block"
    "get tiny_checkpoint k_witness_record = JObj tiny_witness_record"
    "get tiny_checkpoint k_countersignature = JStr (lit ''c'')"
    by (simp_all add: tiny_checkpoint_def record_keys k_cp_attestation_def k_witness_record_def
        k_countersignature_def)
  moreover have "keys_within tiny_checkpoint checkpoint_keys" "has_keys tiny_checkpoint checkpoint_keys"
    by (simp_all add: tiny_checkpoint_def checkpoint_keys_def keys_within_def has_keys_def)
  moreover have "keys_exact (attestation_block (tiny_attestation 1 ''0061'' ''s'')) attestation_block_keys"
    by (simp add: keys_exact_iff)
  moreover have "ledger_id (tiny_attestation 1 ''0061'' ''s'') = JStr (lit ''l'')"
    by (simp add: tiny_attestation_def)
  ultimately show ?thesis
    using from_block_block [OF tiny_attestation_ok(2) [of True 1]] tiny_hash_facts(1) tiny_witness_record
    by (simp add: parse_checkpoint_def tiny_parsed_def is_digest_iff nonempty_str_def)
qed

lemma tiny_admitted:
  "checkpoint_admitted tiny_interp (embed (JObj tiny_checkpoint)) (\<lambda>a. True) (\<lambda>m s. s = lit ''c'') None
    tiny_parsed"
proof -
  have "checkpoint_signature_refusal tiny_interp tiny_parsed (\<lambda>a. True) (\<lambda>m s. s = lit ''c'') None = Inr None"
    by (simp add: checkpoint_signature_refusal_def tiny_parsed_def tiny_attestation_def checkpoint_payload_def
        canonical_json_bytes_def max_str_digits_def dec_digits.simps)
  then show ?thesis
    using tiny_snapshot tiny_parse by (auto simp: checkpoint_admitted_def)
qed

lemma tiny_first_seal: "record_seal (normal_record tiny_first) = JStr (tiny_hash ''0061'')"
  using get_normal [of tiny_first k_record_hash] tiny_writable(1)
  by (simp add: record_seal_def writable_def) (simp add: tiny_first_def record_keys)

lemma tiny_passes:
  "verify_checkpoint tiny_interp tiny_before tiny_path (embed (JObj tiny_checkpoint)) (\<lambda>a. True)
    (\<lambda>m s. s = lit ''c'') None None = Inr None"
  "verify_checkpoint tiny_interp tiny_after tiny_path (embed (JObj tiny_checkpoint)) (\<lambda>a. True)
    (\<lambda>m s. s = lit ''c'') None None = Inr None"
  unfolding checkpoint_pass_records [OF tiny_walks(1) [of 0] chain_ok_walked]
    checkpoint_pass_records [OF tiny_walks(2) [of 0] chain_ok_walked]
  using tiny_admitted tiny_first_seal by (auto simp: tiny_parsed_def intro!: exI [of _ tiny_parsed])

lemma tiny_records:
  "read_verified_records tiny_interp tiny_before tiny_path = Inr (True, [normal_record tiny_first], None)"
  "read_verified_records tiny_interp tiny_after tiny_path
    = Inr (True, [normal_record tiny_first] @ [normal_record tiny_second], None)"
  by (simp_all add: read_verified_records_def tiny_walks)

theorem checkpoint_snapshot_bounded_witness:
  "weight (JObj tiny_checkpoint) \<le> max_json_document_bytes \<and> printable (JObj tiny_checkpoint)
    \<and> no_unpaired_surrogates (JObj tiny_checkpoint) \<and> json_depth (JObj tiny_checkpoint) \<le> max_json_nesting
    \<and> length (dumps (float_repr tiny_interp) (JObj tiny_checkpoint)) \<le> max_json_document_bytes
    \<and> checkpoint_snapshot tiny_interp (embed (JObj tiny_checkpoint)) = Inr tiny_checkpoint"
  using checkpoint_snapshot_bounded [OF tiny_snapshot] tiny_snapshot by blast

theorem checkpoint_survives_append_witness:
  "verify_checkpoint tiny_interp tiny_after tiny_path (embed (JObj tiny_checkpoint)) (\<lambda>a. True)
    (\<lambda>m s. s = lit ''c'') None None = Inr None"
  by (rule checkpoint_survives_append [OF tiny_passes(1) tiny_records])

theorem checkpoint_pins_history_witness:
  "list_all2 record_same (take 1 [normal_record tiny_first])
      (take 1 ([normal_record tiny_first] @ [normal_record tiny_second]))
    \<or> list_ex (\<lambda>(r, r'). record_clash tiny_interp r r')
        (zip (take 1 [normal_record tiny_first])
          (take 1 ([normal_record tiny_first] @ [normal_record tiny_second])))"
  using checkpoint_pins_history [OF tiny_passes tiny_records tiny_admitted] tiny_normal_floats
  by (simp add: tiny_parsed_def)

end
