(* ===== verification/Receipt_Links.thy ===== *)
theory Receipt_Links
  imports Ledger
begin

text \<open>
  The module \<open>receipt_links.py\<close>: whether the decisions, consequence intents and outcomes of
  a ledger account for each other. An issue keeps its code and the two record numbers; the
  English message is made of the same values and is left out.
\<close>

type_synonym receipt = "(pystr, json) dict"

section \<open>Issues and reports\<close>

record link_issue =
  issue_code :: string
  issue_seq :: "int option"
  related_seq :: "int option"

record receipt_consequence =
  cq_decision_seq :: int
  cq_decision :: pystr
  cq_actor_id :: pystr
  cq_adapter_id :: pystr
  cq_request_fingerprint :: pystr
  cq_intent_seqs :: "int list"
  cq_outcome_seqs :: "int list"
  cq_outcome_states :: "string list"

record receipt_refusal =
  rf_seq :: int
  rf_record_hash :: "pystr option"
  rf_decision :: pystr
  rf_actor_id :: pystr
  rf_adapter_id :: pystr
  rf_request_fingerprint :: pystr
  rf_governance_mode :: pystr
  rf_matched_rule_id :: "pystr option"
  rf_blocked :: bool
  rf_required_authority :: "receipt option"

record link_report =
  lr_chain_ok :: bool
  lr_record_count :: nat
  lr_decision_count :: nat
  lr_allow_count :: nat
  lr_refusal_count :: nat
  lr_blocked_refusal_count :: nat
  lr_intent_count :: nat
  lr_outcome_count :: nat
  lr_unconfirmed_outcome_count :: nat
  lr_consequences :: "receipt_consequence list"
  lr_refusals :: "receipt_refusal list"
  lr_issues :: "link_issue list"
  lr_chain_error :: "chain_error option"

definition report_is_valid :: "link_report \<Rightarrow> bool" where
  "report_is_valid r \<longleftrightarrow> lr_chain_ok r \<and> lr_issues r = []"

definition issue :: "string \<Rightarrow> int option \<Rightarrow> int option \<Rightarrow> link_issue" where
  "issue code seq related = \<lparr>issue_code = code, issue_seq = seq, related_seq = related\<rparr>"

text \<open>\<open>if test: _issue(...)\<close>.\<close>

definition issue_if :: "bool \<Rightarrow> string \<Rightarrow> int option \<Rightarrow> int option \<Rightarrow> link_issue list" where
  "issue_if test code seq related = (if test then [issue code seq related] else [])"

section \<open>Field readers\<close>

definition positive_int :: "json \<Rightarrow> int option" where
  "positive_int v = (case v of JInt n \<Rightarrow> if n > 0 then Some n else None | _ \<Rightarrow> None)"

definition non_empty_string :: "json \<Rightarrow> pystr option" where
  "non_empty_string v = (case v of JStr s \<Rightarrow> if s \<noteq> [] then Some s else None | _ \<Rightarrow> None)"

definition sha256_text :: "json \<Rightarrow> pystr option" where
  "sha256_text v =
     (case non_empty_string v of Some s \<Rightarrow> if hex64 s then Some s else None | None \<Rightarrow> None)"

definition link_keys :: "string list" where
  "link_keys = [''actor_id'', ''adapter_id'', ''request_fingerprint'']"

definition same_field :: "receipt \<Rightarrow> receipt \<Rightarrow> string \<Rightarrow> bool" where
  "same_field a b key = py_eq (get a (lit key)) (get b (lit key))"

definition check_same_link_fields ::
  "receipt \<Rightarrow> receipt \<Rightarrow> string \<Rightarrow> int \<Rightarrow> int \<Rightarrow> link_issue list" where
  "check_same_link_fields child parent child_kind child_seq parent_seq =
     concat (map (\<lambda>key. issue_if (\<not> same_field child parent key)
         (child_kind @ ''_'' @ key @ ''_mismatch'') (Some child_seq) (Some parent_seq))
       link_keys)"

definition validate_link_fields :: "receipt \<Rightarrow> string \<Rightarrow> int \<Rightarrow> link_issue list" where
  "validate_link_fields record kind seq =
     concat (map (\<lambda>key. issue_if (non_empty_string (get record (lit key)) = None)
         (kind @ ''_invalid_'' @ key) (Some seq) None)
       [''actor_id'', ''adapter_id''])
     @ issue_if (sha256_text (get record (lit ''request_fingerprint'')) = None)
         (kind @ ''_invalid_request_fingerprint'') (Some seq) None"

section \<open>Blocked decisions\<close>

definition governance_modes :: "pystr list" where
  "governance_modes = map lit [''discovery'', ''decision'', ''enforcement'', ''constitutional'']"

definition enforcing_modes :: "pystr list" where
  "enforcing_modes = map lit [''enforcement'', ''constitutional'']"

text \<open>The loop stops at the first reason that is malformed.\<close>

fun hard_delegation_loop :: "bool \<Rightarrow> json list \<Rightarrow> bool" where
  "hard_delegation_loop hard [] = hard"
| "hard_delegation_loop hard (reason # reasons) =
     (case reason of
        JObj d \<Rightarrow>
          (case (non_empty_string (get d (lit ''rule_id'')), non_empty_string (get d (lit ''result''))) of
             (Some rule_id, Some res) \<Rightarrow>
               hard_delegation_loop
                 (hard \<or> (starts_with rule_id (lit ''delegation_'') \<and> res = lit ''match'')) reasons
           | _ \<Rightarrow> False)
      | _ \<Rightarrow> False)"

definition decision_mode_has_hard_delegation :: "receipt \<Rightarrow> bool" where
  "decision_mode_has_hard_delegation record =
     (case get record (lit ''reasons'') of JList reasons \<Rightarrow> hard_delegation_loop False reasons | _ \<Rightarrow> False)"

definition decision_was_blocked :: "receipt \<Rightarrow> bool" where
  "decision_was_blocked record =
     (case (get record (lit ''decision''), get record (lit ''dry_run''), get record (lit ''governance_mode'')) of
        (JStr d, JBool dry, JStr mode) \<Rightarrow>
          if d \<notin> {lit ''DENY'', lit ''ESCALATE''} \<or> dry \<or> mode \<notin> set governance_modes then False
          else if mode \<in> set enforcing_modes then True
          else if mode \<noteq> lit ''decision'' then False
          else decision_mode_has_hard_delegation record
      | _ \<Rightarrow> False)"

definition required_authority :: "receipt \<Rightarrow> receipt option" where
  "required_authority record =
     (case get record (lit ''required_authority'') of
        JObj d \<Rightarrow> Some d
      | _ \<Rightarrow> (case get record (lit ''evidence'') of
          JObj e \<Rightarrow> (case get e (lit ''required_authority'') of JObj d \<Rightarrow> Some d | _ \<Rightarrow> None)
        | _ \<Rightarrow> None))"

section \<open>The index of the records\<close>

record receipt_index =
  ix_issues :: "link_issue list"
  ix_by_seq :: "(int, receipt) dict"
  ix_decisions :: "(int, receipt) dict"
  ix_intents :: "(int, receipt) dict"
  ix_outcomes :: "(int, receipt) dict"

definition record_type_is :: "receipt \<Rightarrow> string \<Rightarrow> bool" where
  "record_type_is record kind \<longleftrightarrow> get record (lit ''record_type'') = JStr (lit kind)"

definition index_record :: "receipt \<Rightarrow> receipt_index \<Rightarrow> receipt_index" where
  "index_record record ix =
     (case positive_int (get record (lit ''seq'')) of
        None \<Rightarrow> ix\<lparr>ix_issues := ix_issues ix @ [issue ''invalid_record_seq'' None None]\<rparr>
      | Some seq \<Rightarrow>
          if seq \<in> set (keys (ix_by_seq ix))
          then ix\<lparr>ix_issues := ix_issues ix @ [issue ''duplicate_record_seq'' (Some seq) None]\<rparr>
          else
            let ix = ix\<lparr>ix_by_seq := dict_set seq record (ix_by_seq ix)\<rparr>
            in if record_type_is record ''decision''
               then ix\<lparr>ix_decisions := dict_set seq record (ix_decisions ix)\<rparr>
               else if record_type_is record ''consequence_intent''
               then ix\<lparr>ix_intents := dict_set seq record (ix_intents ix)\<rparr>
               else if record_type_is record ''outcome''
               then ix\<lparr>ix_outcomes := dict_set seq record (ix_outcomes ix)\<rparr>
               else ix)"

definition index_records :: "receipt list \<Rightarrow> receipt_index" where
  "index_records records = fold index_record records
     \<lparr>ix_issues = [], ix_by_seq = [], ix_decisions = [], ix_intents = [], ix_outcomes = []\<rparr>"

section \<open>Decisions\<close>

definition decision_actor_issues :: "int \<Rightarrow> receipt \<Rightarrow> link_issue list" where
  "decision_actor_issues seq d =
     (let bad = [issue ''decision_actor_invalid'' (Some seq) None]
      in case get d (lit ''actor'') of
        JObj actor \<Rightarrow>
          (case non_empty_string (get actor (lit ''id'')) of
             None \<Rightarrow> bad
           | Some i \<Rightarrow> issue_if (non_empty_string (get d (lit ''actor_id'')) \<noteq> Some i)
               ''decision_actor_id_mismatch'' (Some seq) None)
      | _ \<Rightarrow> bad)"

definition str_within :: "json \<Rightarrow> pystr list \<Rightarrow> bool" where
  "str_within v allowed = (case v of JStr s \<Rightarrow> s \<in> set allowed | _ \<Rightarrow> False)"

definition decision_issues :: "int \<Rightarrow> receipt \<Rightarrow> link_issue list" where
  "decision_issues seq d =
     issue_if (\<not> str_within (get d (lit ''decision'')) (map lit [''ALLOW'', ''DENY'', ''ESCALATE'']))
       ''decision_invalid_verdict'' (Some seq) None
     @ issue_if (positive_int (get d (lit ''seq'')) \<noteq> Some seq \<or> \<not> record_type_is d ''decision'')
         ''decision_identity_invalid'' (Some seq) None
     @ validate_link_fields d ''decision'' seq
     @ issue_if (\<not> str_within (get d (lit ''governance_mode'')) governance_modes)
         ''decision_invalid_governance_mode'' (Some seq) None
     @ issue_if (as_bool (get d (lit ''dry_run'')) = None) ''decision_invalid_dry_run'' (Some seq) None
     @ concat (map (\<lambda>key. issue_if (sha256_text (get d (lit key)) = None)
           (''decision_invalid_'' @ key) (Some seq) None) [''policy_hash'', ''ontology_hash''])
     @ decision_actor_issues seq d"

section \<open>Intents\<close>

text \<open>\<open>d.setdefault(k, []).append(v)\<close> and \<open>d.get(k, [])\<close>.\<close>

definition add_to :: "int \<Rightarrow> int \<Rightarrow> (int, int list) dict \<Rightarrow> (int, int list) dict" where
  "add_to k v d = dict_set k ((case map_of d k of None \<Rightarrow> [] | Some vs \<Rightarrow> vs) @ [v]) d"

definition listed :: "(int, int list) dict \<Rightarrow> int \<Rightarrow> int list" where
  "listed d k = (case map_of d k of None \<Rightarrow> [] | Some vs \<Rightarrow> vs)"

text \<open>The body of the loop over the intents: its issues, and the decision it is filed under.\<close>

definition intent_issues :: "(int, receipt) dict \<Rightarrow> int \<Rightarrow> receipt \<Rightarrow> link_issue list" where
  "intent_issues decisions seq intent =
     validate_link_fields intent ''consequence_intent'' seq
     @ (case positive_int (get intent (lit ''decision_seq'')) of
          None \<Rightarrow> [issue ''intent_invalid_decision_seq'' (Some seq) None]
        | Some d \<Rightarrow>
            (case map_of decisions d of
               None \<Rightarrow> [issue ''intent_unanchored_decision'' (Some seq) (Some d)]
             | Some decision \<Rightarrow>
                 issue_if (d \<ge> seq) ''intent_not_after_decision'' (Some seq) (Some d)
                 @ check_same_link_fields intent decision ''intent'' seq d))"

definition decision_of :: "(int, receipt) dict \<Rightarrow> receipt \<Rightarrow> int option" where
  "decision_of decisions child =
     (case positive_int (get child (lit ''decision_seq'')) of
        None \<Rightarrow> None
      | Some d \<Rightarrow> if map_of decisions d = None then None else Some d)"

definition group_by :: "(receipt \<Rightarrow> int option) \<Rightarrow> (int, receipt) dict \<Rightarrow> (int, int list) dict" where
  "group_by f children =
     fold (\<lambda>(seq, child) g. case f child of None \<Rightarrow> g | Some k \<Rightarrow> add_to k seq g) children []"

definition duplicate_intent_issues :: "(int, int list) dict \<Rightarrow> link_issue list" where
  "duplicate_intent_issues by_decision =
     concat (map (\<lambda>(d, seqs). issue_if (length seqs > 1) ''duplicate_consequence_intent'' (Some d) None)
       by_decision)"

section \<open>Outcomes\<close>

definition success_valid :: "receipt \<Rightarrow> bool" where
  "success_valid outcome \<longleftrightarrow>
     has_key outcome (lit ''success'')
     \<and> get outcome (lit ''success'') \<in> {JBool True, JBool False, JNull}"

definition outcome_decision_issues :: "(int, receipt) dict \<Rightarrow> int \<Rightarrow> receipt \<Rightarrow> link_issue list" where
  "outcome_decision_issues decisions seq outcome =
     (case positive_int (get outcome (lit ''decision_seq'')) of
        None \<Rightarrow> [issue ''outcome_invalid_decision_seq'' (Some seq) None]
      | Some d \<Rightarrow>
          issue_if (d \<ge> seq) ''outcome_not_after_decision'' (Some seq) (Some d)
          @ (case map_of decisions d of
               None \<Rightarrow> [issue ''outcome_unanchored_decision'' (Some seq) (Some d)]
             | Some decision \<Rightarrow>
                 check_same_link_fields outcome decision ''outcome'' seq d
                 @ issue_if (\<not> same_field outcome decision ''decision'')
                     ''outcome_decision_mismatch'' (Some seq) (Some d)))"

definition outcome_intent_issues :: "(int, receipt) dict \<Rightarrow> int \<Rightarrow> receipt \<Rightarrow> link_issue list" where
  "outcome_intent_issues intents seq outcome =
     (case positive_int (get outcome (lit ''intent_seq'')) of
        None \<Rightarrow> [issue ''outcome_invalid_intent_seq'' (Some seq) None]
      | Some i \<Rightarrow>
          (case map_of intents i of
             None \<Rightarrow> [issue ''outcome_unanchored_intent'' (Some seq) (Some i)]
           | Some intent \<Rightarrow>
               issue_if (i \<ge> seq) ''outcome_not_after_intent'' (Some seq) (Some i)
               @ issue_if (positive_int (get outcome (lit ''decision_seq''))
                     \<noteq> positive_int (get intent (lit ''decision_seq'')))
                   ''outcome_link_mismatch'' (Some seq) (Some i)
               @ check_same_link_fields outcome intent ''outcome_intent'' seq i))"

definition outcome_issues ::
  "(int, receipt) dict \<Rightarrow> (int, receipt) dict \<Rightarrow> int \<Rightarrow> receipt \<Rightarrow> link_issue list" where
  "outcome_issues decisions intents seq outcome =
     validate_link_fields outcome ''outcome'' seq
     @ issue_if (\<not> success_valid outcome) ''outcome_invalid_success'' (Some seq) None
     @ outcome_decision_issues decisions seq outcome
     @ outcome_intent_issues intents seq outcome"

definition intent_of :: "(int, receipt) dict \<Rightarrow> receipt \<Rightarrow> int option" where
  "intent_of intents outcome =
     (case positive_int (get outcome (lit ''intent_seq'')) of
        None \<Rightarrow> None
      | Some i \<Rightarrow> if map_of intents i = None then None else Some i)"

definition unconfirmed :: "receipt \<Rightarrow> bool" where
  "unconfirmed outcome \<longleftrightarrow> success_valid outcome \<and> get outcome (lit ''success'') = JNull"

section \<open>Completeness of the links\<close>

definition intent_outcome_issues :: "(int, int list) dict \<Rightarrow> int \<Rightarrow> link_issue list" where
  "intent_outcome_issues by_intent i =
     (if listed by_intent i = [] then [issue ''intent_missing_outcome'' (Some i) None]
      else issue_if (length (listed by_intent i) > 1) ''duplicate_consequence_outcome'' (Some i) None)"

definition allows_for_real :: "receipt \<Rightarrow> bool" where
  "allows_for_real d \<longleftrightarrow>
     get d (lit ''decision'') = JStr (lit ''ALLOW'') \<and> get d (lit ''dry_run'') \<noteq> JBool True"

definition decision_link_issues ::
  "(int, int list) dict \<Rightarrow> (int, int list) dict \<Rightarrow> int \<Rightarrow> receipt \<Rightarrow> link_issue list" where
  "decision_link_issues intents_by outcomes_by seq d =
     (let linked = (listed intents_by seq \<noteq> [] \<or> listed outcomes_by seq \<noteq> [])
      in if get d (lit ''dry_run'') = JBool True \<and> linked
         then [issue ''dry_run_decision_has_consequence'' (Some seq) None]
         else if allows_for_real d
         then issue_if (listed intents_by seq = []) ''allow_missing_intent'' (Some seq) None
         else issue_if (decision_was_blocked d \<and> linked) ''blocked_decision_has_consequence'' (Some seq) None)"

section \<open>The report\<close>

definition text_or_empty :: "pystr option \<Rightarrow> pystr" where
  "text_or_empty s = (case s of None \<Rightarrow> [] | Some t \<Rightarrow> t)"

definition outcome_state :: "json \<Rightarrow> string" where
  "outcome_state success =
     (if success = JBool True then ''confirmed_success''
      else if success = JBool False then ''confirmed_failure''
      else if success = JNull then ''unconfirmed'' else ''invalid'')"

definition consequence_row ::
  "(int, receipt) dict \<Rightarrow> (int, int list) dict \<Rightarrow> (int, int list) dict \<Rightarrow> int \<times> receipt \<Rightarrow> receipt_consequence option" where
  "consequence_row outcomes intents_by outcomes_by p =
     (case p of (seq, d) \<Rightarrow>
        if listed intents_by seq \<noteq> [] \<or> listed outcomes_by seq \<noteq> [] \<or> allows_for_real d then
          Some \<lparr>cq_decision_seq = seq,
            cq_decision = text_or_empty (non_empty_string (get d (lit ''decision''))),
            cq_actor_id = text_or_empty (non_empty_string (get d (lit ''actor_id''))),
            cq_adapter_id = text_or_empty (non_empty_string (get d (lit ''adapter_id''))),
            cq_request_fingerprint = text_or_empty (sha256_text (get d (lit ''request_fingerprint''))),
            cq_intent_seqs = listed intents_by seq, cq_outcome_seqs = listed outcomes_by seq,
            cq_outcome_states = map (\<lambda>o_seq.
                outcome_state (case map_of outcomes o_seq of None \<Rightarrow> JNull | Some r \<Rightarrow> get r (lit ''success'')))
              (listed outcomes_by seq)\<rparr>
        else None)"

definition refusal_row :: "int \<times> receipt \<Rightarrow> receipt_refusal option" where
  "refusal_row p =
     (case p of (seq, d) \<Rightarrow>
        case get d (lit ''decision'') of
          JStr verdict \<Rightarrow>
            if verdict \<notin> {lit ''DENY'', lit ''ESCALATE''} then None
            else Some \<lparr>rf_seq = seq, rf_record_hash = as_str (get d (lit ''record_hash'')),
              rf_decision = verdict,
              rf_actor_id = text_or_empty (non_empty_string (get d (lit ''actor_id''))),
              rf_adapter_id = text_or_empty (non_empty_string (get d (lit ''adapter_id''))),
              rf_request_fingerprint = text_or_empty (sha256_text (get d (lit ''request_fingerprint''))),
              rf_governance_mode = text_or_empty (non_empty_string (get d (lit ''governance_mode''))),
              rf_matched_rule_id = as_str (get d (lit ''matched_rule_id'')),
              rf_blocked = decision_was_blocked d, rf_required_authority = required_authority d\<rparr>
        | _ \<Rightarrow> None)"

definition verify_receipt_records :: "receipt list \<Rightarrow> link_report" where
  "verify_receipt_records records =
     (let ix = index_records records;
          decisions = ix_decisions ix; intents = ix_intents ix; outcomes = ix_outcomes ix;
          intents_by_decision = group_by (decision_of decisions) intents;
          outcomes_by_intent = group_by (intent_of intents) outcomes;
          outcomes_by_decision = group_by (decision_of decisions) outcomes;
          refusals = List.map_filter refusal_row decisions
      in \<lparr>lr_chain_ok = True, lr_record_count = length records, lr_decision_count = length decisions,
        lr_allow_count = length (filter (\<lambda>(seq, d). get d (lit ''decision'') = JStr (lit ''ALLOW'')) decisions),
        lr_refusal_count = length refusals,
        lr_blocked_refusal_count = length (filter rf_blocked refusals),
        lr_intent_count = length intents, lr_outcome_count = length outcomes,
        lr_unconfirmed_outcome_count = length (filter (\<lambda>(seq, r). unconfirmed r) outcomes),
        lr_consequences =
          List.map_filter (consequence_row outcomes intents_by_decision outcomes_by_decision) decisions,
        lr_refusals = refusals,
        lr_issues =
          ix_issues ix
          @ concat (map (\<lambda>(seq, d). decision_issues seq d) decisions)
          @ concat (map (\<lambda>(seq, r). intent_issues decisions seq r) intents)
          @ duplicate_intent_issues intents_by_decision
          @ concat (map (\<lambda>(seq, r). outcome_issues decisions intents seq r) outcomes)
          @ concat (map (intent_outcome_issues outcomes_by_intent) (keys intents))
          @ concat (map (\<lambda>(seq, d). decision_link_issues intents_by_decision outcomes_by_decision seq d) decisions),
        lr_chain_error = None\<rparr>)"

definition chain_invalid_report :: "chain_error option \<Rightarrow> link_report" where
  "chain_invalid_report err =
     \<lparr>lr_chain_ok = False, lr_record_count = 0, lr_decision_count = 0, lr_allow_count = 0,
       lr_refusal_count = 0, lr_blocked_refusal_count = 0, lr_intent_count = 0, lr_outcome_count = 0,
       lr_unconfirmed_outcome_count = 0, lr_consequences = [], lr_refusals = [],
       lr_issues = [issue ''chain_invalid'' None None], lr_chain_error = err\<rparr>"

definition verify_receipt_links :: "interp \<Rightarrow> fs \<Rightarrow> path \<Rightarrow> raised + link_report" where
  "verify_receipt_links I F p =
     bnd (read_verified_records I F p) (\<lambda>(chain_ok, records, err).
       Inr (if \<not> chain_ok then chain_invalid_report err else verify_receipt_records records))"

section \<open>The index of well-numbered records\<close>

definition seq_of :: "receipt \<Rightarrow> int" where
  "seq_of r = the (positive_int (get r (lit ''seq'')))"

definition numbered :: "receipt list \<Rightarrow> bool" where
  "numbered rs \<longleftrightarrow> (\<forall>r \<in> set rs. positive_int (get r (lit ''seq'')) \<noteq> None) \<and> distinct (map seq_of rs)"

definition of_kind :: "string \<Rightarrow> receipt list \<Rightarrow> receipt list" where
  "of_kind k rs = filter (\<lambda>r. record_type_is r k) rs"

definition indexed :: "receipt list \<Rightarrow> (int, receipt) dict" where
  "indexed rs = map (\<lambda>r. (seq_of r, r)) rs"

lemma keys_indexed [simp]: "keys (indexed rs) = map seq_of rs"
  by (simp add: indexed_def keys_def o_def)

lemma indexed_simps [simp]: "indexed [] = []" "indexed (rs @ [r]) = indexed rs @ [(seq_of r, r)]"
  by (simp_all add: indexed_def)

lemma of_kind_simps [simp]: "of_kind k [] = []"
  "of_kind k (rs @ [r]) = of_kind k rs @ (if record_type_is r k then [r] else [])"
  by (simp_all add: of_kind_def)

lemma kinds_differ:
  "record_type_is r ''decision'' \<Longrightarrow> \<not> record_type_is r ''consequence_intent'' \<and> \<not> record_type_is r ''outcome''"
  "record_type_is r ''consequence_intent'' \<Longrightarrow> \<not> record_type_is r ''outcome''"
  by (simp_all add: record_type_is_def)

definition index_of :: "receipt list \<Rightarrow> receipt_index" where
  "index_of rs = \<lparr>ix_issues = [], ix_by_seq = indexed rs, ix_decisions = indexed (of_kind ''decision'' rs),
     ix_intents = indexed (of_kind ''consequence_intent'' rs), ix_outcomes = indexed (of_kind ''outcome'' rs)\<rparr>"

lemma index_snoc: "index_records (rs @ [r]) = index_record r (index_records rs)"
  by (simp add: index_records_def)

lemma of_kind_subset: "set (of_kind k rs) \<subseteq> set rs"
  by (auto simp: of_kind_def)

lemma index_record_numbered:
  assumes "numbered (rs @ [r])"
  shows "index_record r (index_of rs) = index_of (rs @ [r])"
proof -
  have r: "positive_int (get r (lit ''seq'')) = Some (seq_of r)"
    using assms by (auto simp: numbered_def seq_of_def)
  have fresh: "seq_of r \<notin> seq_of ` set rs"
    using assms by (auto simp: numbered_def)
  have "dict_set (seq_of r) r (indexed (of_kind k rs)) = indexed (of_kind k rs) @ [(seq_of r, r)]" for k
    using fresh of_kind_subset by (intro dict_set_fresh) (fastforce simp: indexed_def keys_def)
  moreover have "dict_set (seq_of r) r (indexed rs) = indexed rs @ [(seq_of r, r)]"
    using fresh by (intro dict_set_fresh) simp
  ultimately show ?thesis
    using r fresh kinds_differ by (auto simp: index_record_def index_of_def Let_def)
qed

lemma index_numbered: "numbered rs \<Longrightarrow> index_records rs = index_of rs"
proof (induction rs rule: rev_induct)
  case (snoc r rs)
  moreover from snoc.prems have "numbered rs" by (auto simp: numbered_def)
  ultimately show ?case by (simp add: index_snoc index_record_numbered)
qed (simp add: index_records_def index_of_def)

lemma index_record_issues: "ix_issues (index_record r ix) = [] \<Longrightarrow> ix_issues ix = []"
  by (auto simp: index_record_def Let_def split: option.splits if_splits)

lemma index_clean: "ix_issues (index_records rs) = [] \<longleftrightarrow> numbered rs"
proof
  show "ix_issues (index_records rs) = [] \<Longrightarrow> numbered rs"
  proof (induction rs rule: rev_induct)
    case (snoc r rs)
    then have n: "numbered rs" and ix: "ix_issues (index_record r (index_of rs)) = []"
      using index_record_issues index_numbered by (metis index_snoc)+
    then obtain s where "positive_int (get r (lit ''seq'')) = Some s" "s \<notin> seq_of ` set rs"
      by (auto simp: index_record_def index_of_def split: option.splits if_splits)
    with n show ?case by (auto simp: numbered_def seq_of_def)
  qed (simp add: numbered_def)
qed (simp add: index_numbered index_of_def)

lemma map_of_indexed: "distinct (map seq_of rs) \<Longrightarrow> map_of (indexed rs) k = Some r \<longleftrightarrow> r \<in> set rs \<and> seq_of r = k"
  by (subst map_of_eq_Some_iff) (auto simp: indexed_def o_def)

lemma map_of_indexed_None: "map_of (indexed rs) k = None \<longleftrightarrow> (\<forall>r \<in> set rs. seq_of r \<noteq> k)"
  by (auto simp: map_of_eq_None_iff indexed_def image_image)

section \<open>Groups\<close>

lemma listed_add [simp]: "listed (add_to k v g) k' = (if k' = k then listed g k @ [v] else listed g k')"
  by (simp add: listed_def add_to_def)

lemma dict_ok_add [simp]: "dict_ok g \<Longrightarrow> dict_ok (add_to k v g)"
  by (simp add: add_to_def)

lemma group_fold:
  defines "step \<equiv> \<lambda>f (seq, child) g. case f child of None \<Rightarrow> g | Some k \<Rightarrow> add_to k seq g"
  shows "listed (fold (step f) xs g) k = listed g k @ map fst (filter (\<lambda>p. f (snd p) = Some k) xs)"
    and "dict_ok g \<Longrightarrow> dict_ok (fold (step f) xs g)"
  unfolding step_def by (induction xs arbitrary: g) (auto split: option.splits)

lemma listed_group: "listed (group_by f (indexed rs)) k = map seq_of (filter (\<lambda>r. f r = Some k) rs)"
proof -
  have "listed (group_by f xs) k = map fst (filter (\<lambda>p. f (snd p) = Some k) xs)" for xs
    using group_fold(1) [of f xs "[]" k] by (simp add: group_by_def listed_def)
  then show ?thesis by (simp add: indexed_def filter_map o_def)
qed

lemma group_dict_ok: "dict_ok (group_by f xs)"
  unfolding group_by_def by (rule group_fold(2)) simp

lemma group_member: "(k, vs) \<in> set (group_by f xs) \<Longrightarrow> listed (group_by f xs) k = vs"
  using group_dict_ok [of f xs] by (simp add: listed_def dict_ok_map_of)

lemma at_most_one: "distinct xs \<Longrightarrow> length xs \<le> 1 \<longleftrightarrow> (\<forall>x \<in> set xs. \<forall>y \<in> set xs. x = y)"
  by (cases xs; cases "tl xs") auto

lemma distinct_seqs_filter:
  "distinct (map seq_of rs) \<Longrightarrow> length (filter P rs) \<le> 1 \<longleftrightarrow> (\<forall>r \<in> set rs. \<forall>s \<in> set rs. P r \<longrightarrow> P s \<longrightarrow> r = s)"
  by (subst at_most_one) (auto simp: distinct_map)

lemma duplicates_none:
  assumes "distinct (map seq_of rs)"
  shows "duplicate_intent_issues (group_by f (indexed rs)) = [] \<longleftrightarrow>
    (\<forall>r \<in> set rs. \<forall>s \<in> set rs. \<forall>k. f r = Some k \<longrightarrow> f s = Some k \<longrightarrow> r = s)"
proof -
  let ?g = "group_by f (indexed rs)"
  have "duplicate_intent_issues ?g = [] \<longleftrightarrow> (\<forall>(k, vs) \<in> set ?g. length vs \<le> 1)"
    by (auto simp: duplicate_intent_issues_def issue_if_def not_less split: if_splits)
  also have "\<dots> \<longleftrightarrow> (\<forall>k. length (listed ?g k) \<le> 1)"
  proof
    assume a: "\<forall>(k, vs) \<in> set ?g. length vs \<le> 1"
    show "\<forall>k. length (listed ?g k) \<le> 1"
    proof
      fix k
      show "length (listed ?g k) \<le> 1"
        using a by (cases "map_of ?g k") (auto simp: listed_def dest!: map_of_SomeD)
    qed
  next
    assume "\<forall>k. length (listed ?g k) \<le> 1"
    then show "\<forall>(k, vs) \<in> set ?g. length vs \<le> 1" using group_member by fastforce
  qed
  also have "\<dots> \<longleftrightarrow> (\<forall>r \<in> set rs. \<forall>s \<in> set rs. \<forall>k. f r = Some k \<longrightarrow> f s = Some k \<longrightarrow> r = s)"
    unfolding listed_group length_map distinct_seqs_filter [OF assms] by blast
  finally show ?thesis .
qed


section \<open>Records that account for each other\<close>

definition link_formed :: "receipt \<Rightarrow> bool" where
  "link_formed r \<longleftrightarrow> nonempty_str (get r (lit ''actor_id'')) \<and> nonempty_str (get r (lit ''adapter_id''))
     \<and> is_digest (get r (lit ''request_fingerprint''))"

definition decision_formed :: "receipt \<Rightarrow> bool" where
  "decision_formed d \<longleftrightarrow>
     get d (lit ''decision'') \<in> (JStr \<circ> lit) ` {''ALLOW'', ''DENY'', ''ESCALATE''}
     \<and> link_formed d \<and> get d (lit ''governance_mode'') \<in> JStr ` set governance_modes
     \<and> get d (lit ''dry_run'') \<in> range JBool
     \<and> is_digest (get d (lit ''policy_hash'')) \<and> is_digest (get d (lit ''ontology_hash''))
     \<and> (\<exists>actor. get d (lit ''actor'') = JObj actor \<and> get actor (lit ''id'') = get d (lit ''actor_id''))"

definition names :: "receipt \<Rightarrow> string \<Rightarrow> receipt \<Rightarrow> bool" where
  "names child key parent \<longleftrightarrow> positive_int (get child (lit key)) = Some (seq_of parent)"

definition answers :: "receipt \<Rightarrow> receipt \<Rightarrow> bool" where
  "answers child parent \<longleftrightarrow> list_all (same_field child parent) link_keys"

lemma issue_if_Nil [simp]: "issue_if b c s r = [] \<longleftrightarrow> \<not> b"
  by (simp add: issue_if_def)

lemma non_empty_string_Some: "non_empty_string v = Some s \<longleftrightarrow> v = JStr s \<and> s \<noteq> []"
  by (cases v) (auto simp: non_empty_string_def)

lemma non_empty_string_None: "non_empty_string v = None \<longleftrightarrow> \<not> nonempty_str v"
  by (cases v) (auto simp: non_empty_string_def nonempty_str_def)

lemma sha256_text_None: "sha256_text v = None \<longleftrightarrow> \<not> is_digest v"
proof (cases v)
  case (JStr s)
  have "\<not> hex64 []" by (simp add: hex64_def)
  then show ?thesis using JStr by (auto simp: sha256_text_def non_empty_string_def is_digest_def)
qed (auto simp: sha256_text_def non_empty_string_def is_digest_def)

lemma check_links_Nil: "check_same_link_fields c p k s q = [] \<longleftrightarrow> answers c p"
  by (auto simp: check_same_link_fields_def answers_def list_all_iff)

lemma validate_links_Nil: "validate_link_fields r k s = [] \<longleftrightarrow> link_formed r"
  by (simp add: validate_link_fields_def link_formed_def non_empty_string_None sha256_text_None)

lemma actor_issues_Nil:
  assumes "nonempty_str (get d (lit ''actor_id''))"
  shows "decision_actor_issues s d = [] \<longleftrightarrow>
    (\<exists>actor. get d (lit ''actor'') = JObj actor \<and> get actor (lit ''id'') = get d (lit ''actor_id''))"
proof -
  obtain a where "get d (lit ''actor_id'') = JStr a" "a \<noteq> []"
    using assms by (auto simp: nonempty_str_iff)
  then show ?thesis
    by (auto simp: decision_actor_issues_def non_empty_string_Some non_empty_string_None nonempty_str_def
        Let_def split: json.splits option.splits)
qed

lemma str_within_iff: "str_within v xs \<longleftrightarrow> v \<in> JStr ` set xs"
  by (cases v) (auto simp: str_within_def)

lemma as_bool_None: "as_bool v = None \<longleftrightarrow> v \<notin> range JBool"
  by (cases v) auto

lemma decision_issues_Nil:
  assumes "positive_int (get d (lit ''seq'')) = Some s" "record_type_is d ''decision''"
  shows "decision_issues s d = [] \<longleftrightarrow> decision_formed d"
  using assms actor_issues_Nil [of d s]
  by (auto simp: decision_issues_def decision_formed_def validate_links_Nil sha256_text_None str_within_iff
      as_bool_None link_formed_def image_iff)

text \<open>A link that names a record of a kind, by the number of that record.\<close>

lemma linked_record:
  assumes "distinct (map seq_of ps)"
  shows "(\<exists>p \<in> set ps. names c key p \<and> Q p) \<longleftrightarrow>
    (\<exists>k p. positive_int (get c (lit key)) = Some k \<and> map_of (indexed ps) k = Some p \<and> Q p)"
  using map_of_indexed [OF assms] by (auto simp: names_def)

lemma intent_issues_Nil:
  assumes "distinct (map seq_of ds)"
  shows "intent_issues (indexed ds) s i = [] \<longleftrightarrow>
    link_formed i \<and> (\<exists>d \<in> set ds. names i ''decision_seq'' d \<and> seq_of d < s \<and> answers i d)"
proof -
  have "seq_of p = k" if "map_of (indexed ds) k = Some p" for k p
    using that map_of_indexed [OF assms] by blast
  then show ?thesis
    unfolding linked_record [OF assms]
    by (auto simp: intent_issues_def validate_links_Nil check_links_Nil not_le split: option.splits)
qed

lemma outcome_decision_Nil:
  assumes "distinct (map seq_of ds)"
  shows "outcome_decision_issues (indexed ds) s r = [] \<longleftrightarrow>
    (\<exists>d \<in> set ds. names r ''decision_seq'' d \<and> seq_of d < s \<and> answers r d \<and> same_field r d ''decision'')"
proof -
  have "seq_of p = k" if "map_of (indexed ds) k = Some p" for k p
    using that map_of_indexed [OF assms] by blast
  then show ?thesis
    unfolding linked_record [OF assms]
    by (auto simp: outcome_decision_issues_def check_links_Nil not_le split: option.splits)
qed

lemma outcome_intent_Nil:
  assumes "distinct (map seq_of xs)"
  shows "outcome_intent_issues (indexed xs) s r = [] \<longleftrightarrow>
    (\<exists>i \<in> set xs. names r ''intent_seq'' i \<and> seq_of i < s \<and> answers r i
      \<and> positive_int (get r (lit ''decision_seq'')) = positive_int (get i (lit ''decision_seq'')))"
proof -
  have "seq_of p = k" if "map_of (indexed xs) k = Some p" for k p
    using that map_of_indexed [OF assms] by blast
  then show ?thesis
    unfolding linked_record [OF assms]
    by (auto simp: outcome_intent_issues_def check_links_Nil not_le split: option.splits)
qed

lemma grouped_names:
  assumes "distinct (map seq_of ps)" "\<And>c. c \<in> set cs \<Longrightarrow> \<exists>p \<in> set ps. names c key p"
    and f: "\<And>c. f c = (case positive_int (get c (lit key)) of
        None \<Rightarrow> None | Some k \<Rightarrow> if map_of (indexed ps) k = None then None else Some k)"
    and "p \<in> set ps" "c \<in> set cs"
  shows "f c = Some (seq_of p) \<longleftrightarrow> names c key p"
  using assms(4) map_of_indexed [OF assms(1), of "seq_of p" p] unfolding f names_def
  by (auto split: option.splits)

definition intent_linked :: "receipt list \<Rightarrow> receipt \<Rightarrow> bool" where
  "intent_linked ds i \<longleftrightarrow> link_formed i
     \<and> (\<exists>d \<in> set ds. names i ''decision_seq'' d \<and> seq_of d < seq_of i \<and> answers i d)"

definition outcome_linked :: "receipt list \<Rightarrow> receipt list \<Rightarrow> receipt \<Rightarrow> bool" where
  "outcome_linked ds xs r \<longleftrightarrow> link_formed r \<and> success_valid r
     \<and> (\<exists>d \<in> set ds. names r ''decision_seq'' d \<and> seq_of d < seq_of r \<and> answers r d
          \<and> same_field r d ''decision'')
     \<and> (\<exists>i \<in> set xs. names r ''intent_seq'' i \<and> seq_of i < seq_of r \<and> answers r i
          \<and> positive_int (get r (lit ''decision_seq'')) = positive_int (get i (lit ''decision_seq'')))"

definition idle :: "receipt \<Rightarrow> bool" where
  "idle d \<longleftrightarrow> get d (lit ''dry_run'') = JBool True \<or> decision_was_blocked d"

definition settled :: "receipt list \<Rightarrow> receipt \<Rightarrow> bool" where
  "settled xs d \<longleftrightarrow> (allows_for_real d \<longrightarrow> (\<exists>i \<in> set xs. names i ''decision_seq'' d))
     \<and> (idle d \<longrightarrow> (\<forall>i \<in> set xs. \<not> names i ''decision_seq'' d))"

definition one_intent :: "receipt list \<Rightarrow> receipt list \<Rightarrow> bool" where
  "one_intent ds xs \<longleftrightarrow> (\<forall>i \<in> set xs. \<forall>j \<in> set xs. \<forall>d \<in> set ds.
     names i ''decision_seq'' d \<longrightarrow> names j ''decision_seq'' d \<longrightarrow> i = j)"

definition one_outcome :: "receipt list \<Rightarrow> receipt \<Rightarrow> bool" where
  "one_outcome ys i \<longleftrightarrow> (\<exists>!r. r \<in> set ys \<and> names r ''intent_seq'' i)"

definition well_linked :: "receipt list \<Rightarrow> bool" where
  "well_linked rs \<longleftrightarrow>
     (let ds = of_kind ''decision'' rs; xs = of_kind ''consequence_intent'' rs; ys = of_kind ''outcome'' rs in
     numbered rs
     \<and> (\<forall>d \<in> set ds. decision_formed d \<and> settled xs d)
     \<and> (\<forall>i \<in> set xs. intent_linked ds i \<and> one_outcome ys i)
     \<and> (\<forall>r \<in> set ys. outcome_linked ds xs r)
     \<and> one_intent ds xs)"

lemma numbered_of_kind: "numbered rs \<Longrightarrow> distinct (map seq_of (of_kind k rs))"
  by (auto simp: numbered_def of_kind_def distinct_map_filter)

lemma numbered_seq: "numbered rs \<Longrightarrow> r \<in> set (of_kind k rs) \<Longrightarrow> positive_int (get r (lit ''seq'')) = Some (seq_of r) \<and> record_type_is r k"
  by (auto simp: numbered_def of_kind_def seq_of_def)

lemma blocked_not_allow: "decision_was_blocked d \<Longrightarrow> \<not> allows_for_real d \<and> get d (lit ''dry_run'') \<noteq> JBool True"
  by (auto simp: decision_was_blocked_def allows_for_real_def split: json.splits if_splits)

lemma decision_links_Nil:
  "decision_link_issues xs ys s d = [] \<longleftrightarrow>
     (allows_for_real d \<longrightarrow> listed xs s \<noteq> [])
     \<and> (get d (lit ''dry_run'') = JBool True \<or> decision_was_blocked d \<longrightarrow> listed xs s = [] \<and> listed ys s = [])"
  using blocked_not_allow [of d]
  by (auto simp: decision_link_issues_def Let_def allows_for_real_def)

lemma intent_outcomes_Nil:
  "intent_outcome_issues g i = [] \<longleftrightarrow> length (listed g i) = 1"
  by (cases "listed g i") (auto simp: intent_outcome_issues_def)

lemma exactly_one:
  assumes "distinct (map seq_of rs)"
  shows "length (map seq_of (filter P rs)) = 1 \<longleftrightarrow> (\<exists>!r. r \<in> set rs \<and> P r)"
proof -
  have "length (filter P rs) = 1 \<longleftrightarrow> length (filter P rs) \<le> 1 \<and> filter P rs \<noteq> []"
    by (cases "filter P rs") auto
  then show ?thesis
    unfolding length_map distinct_seqs_filter [OF assms] by (auto simp: filter_empty_conv)
qed


lemma issues_Nil:
  assumes "numbered rs"
  defines "ds \<equiv> of_kind ''decision'' rs" and "xs \<equiv> of_kind ''consequence_intent'' rs" and "ys \<equiv> of_kind ''outcome'' rs"
  defines "by_d \<equiv> group_by (decision_of (indexed ds))" and "by_i \<equiv> group_by (intent_of (indexed xs)) (indexed ys)"
  shows "lr_issues (verify_receipt_records rs) = [] \<longleftrightarrow>
    (\<forall>d \<in> set ds. decision_issues (seq_of d) d = [])
    \<and> (\<forall>i \<in> set xs. intent_issues (indexed ds) (seq_of i) i = [])
    \<and> duplicate_intent_issues (by_d (indexed xs)) = []
    \<and> (\<forall>r \<in> set ys. outcome_issues (indexed ds) (indexed xs) (seq_of r) r = [])
    \<and> (\<forall>i \<in> set xs. intent_outcome_issues by_i (seq_of i) = [])
    \<and> (\<forall>d \<in> set ds. decision_link_issues (by_d (indexed xs)) (by_d (indexed ys)) (seq_of d) d = [])"
  using index_numbered [OF assms(1)]
  by (simp add: verify_receipt_records_def Let_def index_of_def assms(2-) del: indexed_simps, simp add: indexed_def)

lemma listed_names:
  assumes "distinct (map seq_of ps)" "p \<in> set ps"
  shows "listed (group_by (decision_of (indexed ps)) (indexed cs)) (seq_of p) =
      map seq_of (filter (\<lambda>c. names c ''decision_seq'' p) cs)"
    and "listed (group_by (intent_of (indexed ps)) (indexed cs)) (seq_of p) =
      map seq_of (filter (\<lambda>c. names c ''intent_seq'' p) cs)"
proof -
  have "(case positive_int (get c (lit key)) of None \<Rightarrow> None
      | Some k \<Rightarrow> if map_of (indexed ps) k = None then None else Some k) = Some (seq_of p)
    \<longleftrightarrow> names c key p" for c key
    using map_of_indexed [OF assms(1), of "seq_of p" p] assms(2)
    unfolding names_def by (auto split: option.splits)
  then show "listed (group_by (decision_of (indexed ps)) (indexed cs)) (seq_of p) =
      map seq_of (filter (\<lambda>c. names c ''decision_seq'' p) cs)"
    and "listed (group_by (intent_of (indexed ps)) (indexed cs)) (seq_of p) =
      map seq_of (filter (\<lambda>c. names c ''intent_seq'' p) cs)"
    unfolding listed_group decision_of_def intent_of_def by simp_all
qed

lemma duplicates_names:
  assumes "distinct (map seq_of xs)" "distinct (map seq_of ds)"
  shows "duplicate_intent_issues (group_by (decision_of (indexed ds)) (indexed xs)) = [] \<longleftrightarrow>
    (\<forall>i \<in> set xs. \<forall>j \<in> set xs. \<forall>d \<in> set ds.
       names i ''decision_seq'' d \<longrightarrow> names j ''decision_seq'' d \<longrightarrow> i = j)"
proof -
  have "decision_of (indexed ds) c = Some k \<longleftrightarrow> (\<exists>d \<in> set ds. names c ''decision_seq'' d \<and> seq_of d = k)" for c k
    by (auto simp: decision_of_def names_def map_of_indexed_None split: option.splits)
  note eq = this
  show ?thesis unfolding duplicates_none [OF assms(1)] eq unfolding names_def
    by (rule iffI; clarsimp; blast)
qed

lemma no_outcome_untraced:
  assumes "outcome_linked ds xs r" "names r ''decision_seq'' d"
  shows "\<exists>i \<in> set xs. names i ''decision_seq'' d"
  using assms unfolding outcome_linked_def names_def by (elim conjE bexE) (intro bexI; simp)

lemma report_valid_iff: "report_is_valid (verify_receipt_records rs) \<longleftrightarrow> well_linked rs"
proof (cases "numbered rs")
  case False
  then have "ix_issues (index_records rs) \<noteq> []" by (simp add: index_clean)
  then show ?thesis
    using False by (simp add: report_is_valid_def verify_receipt_records_def well_linked_def Let_def)
next
  case True
  define ds where "ds = of_kind ''decision'' rs"
  define xs where "xs = of_kind ''consequence_intent'' rs"
  define ys where "ys = of_kind ''outcome'' rs"
  note defs = ds_def xs_def ys_def
  let ?I = "group_by (decision_of (indexed ds)) (indexed xs)"
  let ?O = "group_by (decision_of (indexed ds)) (indexed ys)"
  let ?still = "\<lambda>d. idle d \<longrightarrow> (\<forall>r \<in> set ys. \<not> names r ''decision_seq'' d)"
  have dist: "distinct (map seq_of ds)" "distinct (map seq_of xs)" "distinct (map seq_of ys)"
    using True by (simp_all add: defs numbered_of_kind)
  have decisions: "(\<forall>d \<in> set ds. decision_issues (seq_of d) d = []) \<longleftrightarrow> (\<forall>d \<in> set ds. decision_formed d)"
    using numbered_seq [OF True] decision_issues_Nil unfolding defs by blast
  have "decision_link_issues ?I ?O (seq_of d) d = [] \<longleftrightarrow> settled xs d \<and> ?still d" if "d \<in> set ds" for d
    unfolding decision_links_Nil listed_names [OF dist(1) that] settled_def idle_def
    by (auto simp: filter_empty_conv)
  then have links: "(\<forall>d \<in> set ds. decision_link_issues ?I ?O (seq_of d) d = []) \<longleftrightarrow>
      (\<forall>d \<in> set ds. settled xs d) \<and> (\<forall>d \<in> set ds. ?still d)" by blast
  have outs: "(\<forall>i \<in> set xs. intent_outcome_issues (group_by (intent_of (indexed xs)) (indexed ys)) (seq_of i) = []) \<longleftrightarrow>
      (\<forall>i \<in> set xs. one_outcome ys i)"
    unfolding intent_outcomes_Nil one_outcome_def
    by (rule ball_cong [OF refl], simp only: listed_names [OF dist(2)] exactly_one [OF dist(3)])
  have intents: "(\<forall>i \<in> set xs. intent_issues (indexed ds) (seq_of i) i = []) \<longleftrightarrow> (\<forall>i \<in> set xs. intent_linked ds i)"
    unfolding intent_issues_Nil [OF dist(1)] intent_linked_def ..
  have outcomes: "(\<forall>r \<in> set ys. outcome_issues (indexed ds) (indexed xs) (seq_of r) r = []) \<longleftrightarrow>
      (\<forall>r \<in> set ys. outcome_linked ds xs r)"
    by (simp add: outcome_issues_def validate_links_Nil outcome_decision_Nil [OF dist(1)]
      outcome_intent_Nil [OF dist(2)] outcome_linked_def)
  have still: "\<forall>d \<in> set ds. ?still d"
    if "\<forall>r \<in> set ys. outcome_linked ds xs r" "\<forall>d \<in> set ds. settled xs d"
    using that no_outcome_untraced unfolding settled_def by blast
  have "report_is_valid (verify_receipt_records rs) \<longleftrightarrow> lr_issues (verify_receipt_records rs) = []"
    by (simp add: report_is_valid_def verify_receipt_records_def Let_def)
  then show ?thesis
    unfolding well_linked_def Let_def issues_Nil [OF True] defs [symmetric] decisions one_intent_def
      duplicates_names [OF dist(2,1)] intents outcomes links outs ball_conj_distrib
    using True still by argo
qed

lemma chain_invalid [simp]: "\<not> report_is_valid (chain_invalid_report err)"
  by (simp add: report_is_valid_def chain_invalid_report_def)

text \<open>
  C27: a ledger is reported valid exactly if its hash chain verifies and its records account for
  each other: numbered without repetition, every decision well formed, every intent and outcome
  later than and agreeing with the record it names, one intent for each decision allowed for
  real, none for a dry run or a blocked refusal, and one outcome for each intent.\<close>

theorem receipt_links_iff:
  "(\<exists>rep. verify_receipt_links I F p = Inr rep \<and> report_is_valid rep) \<longleftrightarrow>
   (\<exists>records err. read_verified_records I F p = Inr (True, records, err) \<and> well_linked records)"
  by (auto simp: verify_receipt_links_def bnd_def report_valid_iff [symmetric] split: sum.splits)

section \<open>What follows a decision\<close>

definition children :: "string \<Rightarrow> receipt list \<Rightarrow> receipt \<Rightarrow> receipt set" where
  "children kind rs d = {c \<in> set (of_kind kind rs). names c ''decision_seq'' d}"

lemma well_linkedD:
  assumes "well_linked rs"
  shows "numbered rs"
    and "d \<in> set (of_kind ''decision'' rs) \<Longrightarrow> settled (of_kind ''consequence_intent'' rs) d"
    and "i \<in> set (of_kind ''consequence_intent'' rs) \<Longrightarrow>
      intent_linked (of_kind ''decision'' rs) i \<and> one_outcome (of_kind ''outcome'' rs) i"
    and "r \<in> set (of_kind ''outcome'' rs) \<Longrightarrow>
      outcome_linked (of_kind ''decision'' rs) (of_kind ''consequence_intent'' rs) r"
    and "one_intent (of_kind ''decision'' rs) (of_kind ''consequence_intent'' rs)"
  using assms by (simp_all add: well_linked_def Let_def)

lemma names_one:
  assumes "numbered rs" "p \<in> set (of_kind k rs)" "q \<in> set (of_kind k rs)" "names c key p" "names c key q"
  shows "p = q"
  using numbered_of_kind [OF assms(1), of k] assms(2-) by (auto simp: names_def distinct_map dest: inj_onD)

lemma intent_child:
  assumes w: "well_linked rs" and d: "d \<in> set (of_kind ''decision'' rs)"
    and i: "i \<in> children ''consequence_intent'' rs d"
  shows "children ''consequence_intent'' rs d = {i} \<and> seq_of d < seq_of i \<and> answers i d"
proof -
  have i': "i \<in> set (of_kind ''consequence_intent'' rs)" "names i ''decision_seq'' d"
    using i by (simp_all add: children_def)
  obtain e where e: "e \<in> set (of_kind ''decision'' rs)" "names i ''decision_seq'' e" "seq_of e < seq_of i" "answers i e"
    using well_linkedD(3) [OF w i'(1)] unfolding intent_linked_def by (elim conjE bexE)
  have "e = d" using names_one [OF well_linkedD(1) [OF w] e(1) d e(2) i'(2)] .
  moreover have "j = i" if "j \<in> children ''consequence_intent'' rs d" for j
    using that i' d well_linkedD(5) [OF w] unfolding children_def one_intent_def by blast
  ultimately show ?thesis using i e by blast
qed

lemma outcome_child:
  assumes w: "well_linked rs" and d: "d \<in> set (of_kind ''decision'' rs)"
    and r: "r \<in> children ''outcome'' rs d"
  shows "answers r d \<and> success_valid r
    \<and> (\<exists>i \<in> children ''consequence_intent'' rs d. names r ''intent_seq'' i \<and> seq_of i < seq_of r)"
proof -
  have r': "r \<in> set (of_kind ''outcome'' rs)" "names r ''decision_seq'' d"
    using r by (simp_all add: children_def)
  note o = well_linkedD(4) [OF w r'(1), unfolded outcome_linked_def]
  obtain e where e: "e \<in> set (of_kind ''decision'' rs)" "names r ''decision_seq'' e" "answers r e"
    using o by (elim conjE bexE)
  have "e = d" using names_one [OF well_linkedD(1) [OF w] e(1) d e(2) r'(2)] .
  moreover have "\<exists>i \<in> children ''consequence_intent'' rs d. names r ''intent_seq'' i \<and> seq_of i < seq_of r"
    using o r' unfolding children_def by (elim conjE bexE) (intro bexI; simp add: names_def)
  ultimately show ?thesis using o e by simp
qed

lemma outcome_of_intent:
  assumes w: "well_linked rs" and d: "d \<in> set (of_kind ''decision'' rs)"
    and i: "i \<in> children ''consequence_intent'' rs d"
  shows "\<exists>r. children ''outcome'' rs d = {r} \<and> names r ''intent_seq'' i"
proof -
  have i': "i \<in> set (of_kind ''consequence_intent'' rs)" "names i ''decision_seq'' d"
    using i by (simp_all add: children_def)
  obtain r where r: "r \<in> set (of_kind ''outcome'' rs)" "names r ''intent_seq'' i"
      "\<And>s. s \<in> set (of_kind ''outcome'' rs) \<Longrightarrow> names s ''intent_seq'' i \<Longrightarrow> s = r"
    using well_linkedD(3) [OF w i'(1)] unfolding one_outcome_def by blast
  obtain j where j: "j \<in> set (of_kind ''consequence_intent'' rs)" "names r ''intent_seq'' j"
      "positive_int (get r (lit ''decision_seq'')) = positive_int (get j (lit ''decision_seq''))"
    using well_linkedD(4) [OF w r(1)] unfolding outcome_linked_def by (elim conjE bexE)
  have "j = i" using names_one [OF well_linkedD(1) [OF w] j(1) i'(1) j(2) r(2)] .
  then have "r \<in> children ''outcome'' rs d" using j i' r(1,2) by (simp add: children_def names_def)
  moreover have "s = r" if s: "s \<in> children ''outcome'' rs d" for s
  proof -
    have "names s ''intent_seq'' i" using outcome_child [OF w d s] intent_child [OF w d i] by auto
    with s r(3) show ?thesis unfolding children_def by blast
  qed
  ultimately show ?thesis using r(2) by blast
qed

text \<open>
  C26: in a valid report a decision allowed for real is followed by exactly one intent and exactly
  one outcome, in this order and for the same actor, adapter and request; a dry run or a blocked
  refusal is followed by none.\<close>

theorem consequences_accounted:
  assumes "report_is_valid (verify_receipt_records rs)" "d \<in> set (of_kind ''decision'' rs)"
  shows "(allows_for_real d \<longrightarrow> (\<exists>i r. children ''consequence_intent'' rs d = {i} \<and> children ''outcome'' rs d = {r}
        \<and> names r ''intent_seq'' i \<and> seq_of d < seq_of i \<and> seq_of i < seq_of r
        \<and> answers i d \<and> answers r d \<and> success_valid r))
    \<and> (get d (lit ''dry_run'') = JBool True \<or> decision_was_blocked d \<longrightarrow>
        children ''consequence_intent'' rs d = {} \<and> children ''outcome'' rs d = {})"
proof -
  have w: "well_linked rs" using assms(1) by (simp add: report_valid_iff)
  note settled = well_linkedD(2) [OF w assms(2), unfolded settled_def idle_def]
  have "\<exists>i r. children ''consequence_intent'' rs d = {i} \<and> children ''outcome'' rs d = {r}
        \<and> names r ''intent_seq'' i \<and> seq_of d < seq_of i \<and> seq_of i < seq_of r
        \<and> answers i d \<and> answers r d \<and> success_valid r" if a: "allows_for_real d"
  proof -
    obtain i where i: "i \<in> children ''consequence_intent'' rs d"
      using settled a by (auto simp: children_def)
    obtain r where r: "children ''outcome'' rs d = {r}" "names r ''intent_seq'' i"
      using outcome_of_intent [OF w assms(2) i] by blast
    then show ?thesis using intent_child [OF w assms(2) i] outcome_child [OF w assms(2), of r] by auto
  qed
  moreover have "children ''consequence_intent'' rs d = {}"
    if "get d (lit ''dry_run'') = JBool True \<or> decision_was_blocked d"
    using that settled by (auto simp: children_def)
  ultimately show ?thesis using outcome_child [OF w assms(2)] by blast
qed

text \<open>An allowed decision with its intent and its unconfirmed outcome.\<close>

definition demo_link :: receipt where
  "demo_link = [(lit ''actor_id'', JStr (lit ''a'')), (lit ''adapter_id'', JStr (lit ''b'')),
     (lit ''request_fingerprint'', JStr (replicate 64 48))]"

definition demo_decision :: receipt where
  "demo_decision = [(lit ''seq'', JInt 1), (lit ''record_type'', JStr (lit ''decision'')),
     (lit ''decision'', JStr (lit ''ALLOW'')), (lit ''governance_mode'', JStr (lit ''enforcement'')),
     (lit ''dry_run'', JBool False), (lit ''policy_hash'', JStr (replicate 64 48)),
     (lit ''ontology_hash'', JStr (replicate 64 48)),
     (lit ''actor'', JObj [(lit ''id'', JStr (lit ''a''))])] @ demo_link"

definition demo_intent :: receipt where
  "demo_intent = [(lit ''seq'', JInt 2), (lit ''record_type'', JStr (lit ''consequence_intent'')),
     (lit ''decision_seq'', JInt 1)] @ demo_link"

definition demo_outcome :: receipt where
  "demo_outcome = [(lit ''seq'', JInt 3), (lit ''record_type'', JStr (lit ''outcome'')),
     (lit ''decision_seq'', JInt 1), (lit ''intent_seq'', JInt 2), (lit ''decision'', JStr (lit ''ALLOW'')),
     (lit ''success'', JNull)] @ demo_link"

definition demo_receipts :: "receipt list" where
  "demo_receipts = [demo_decision, demo_intent, demo_outcome]"

lemmas demo_receipt_defs = demo_link_def demo_decision_def demo_intent_def demo_outcome_def

lemma demo_receipt_fields [simp]:
  "get demo_decision (lit ''seq'') = JInt 1" "get demo_intent (lit ''seq'') = JInt 2" "get demo_outcome (lit ''seq'') = JInt 3"
  "get demo_intent (lit ''decision_seq'') = JInt 1" "get demo_outcome (lit ''decision_seq'') = JInt 1"
  "get demo_outcome (lit ''intent_seq'') = JInt 2"
  by (simp_all add: demo_receipt_defs get_def lit_def)

lemma demo_seq [simp]: "seq_of demo_decision = 1" "seq_of demo_intent = 2" "seq_of demo_outcome = 3"
  by (simp_all add: seq_of_def positive_int_def)

lemma demo_kinds [simp]:
  "of_kind ''decision'' demo_receipts = [demo_decision]"
  "of_kind ''consequence_intent'' demo_receipts = [demo_intent]"
  "of_kind ''outcome'' demo_receipts = [demo_outcome]"
  by (simp_all add: demo_receipts_def of_kind_def record_type_is_def demo_receipt_defs get_def lit_def)

lemma demo_link_formed: "link_formed demo_decision" "link_formed demo_intent" "link_formed demo_outcome"
  by (simp_all add: link_formed_def demo_receipt_defs get_def lit_def nonempty_str_def is_digest_def hex64_def is_lower_hex_def is_dec_digit_def list_all_iff)

lemma demo_formed: "decision_formed demo_decision"
proof -
  have "get demo_decision (lit ''decision'') = JStr (lit ''ALLOW'')" "get demo_decision (lit ''governance_mode'') = JStr (lit ''enforcement'')"
    "get demo_decision (lit ''dry_run'') = JBool False"
    "get demo_decision (lit ''policy_hash'') = JStr (replicate 64 48)" "get demo_decision (lit ''ontology_hash'') = JStr (replicate 64 48)"
    "get demo_decision (lit ''actor'') = JObj [(lit ''id'', JStr (lit ''a''))]" "get demo_decision (lit ''actor_id'') = JStr (lit ''a'')"
    by (simp_all add: demo_receipt_defs get_def)
  moreover have "is_digest (JStr (replicate 64 48))"
    by (simp add: is_digest_def hex64_def is_lower_hex_def is_dec_digit_def list_all_iff)
  ultimately show ?thesis
    using demo_link_formed(1) by (auto simp: decision_formed_def governance_modes_def image_iff get_def [of "[_]"])
qed

lemma demo_answers: "answers demo_intent demo_decision" "answers demo_outcome demo_decision"
   "answers demo_outcome demo_intent" "same_field demo_outcome demo_decision ''decision''"
  by (simp_all add: answers_def link_keys_def same_field_def demo_receipt_defs get_def)

lemma demo_success: "success_valid demo_outcome"
  by (simp add: success_valid_def demo_receipt_defs get_def has_key_def keys_def)

lemma demo_real: "allows_for_real demo_decision" "\<not> decision_was_blocked demo_decision"
  "get demo_decision (lit ''dry_run'') = JBool False"
  by (simp_all add: allows_for_real_def decision_was_blocked_def demo_receipt_defs get_def)

lemma demo_well_linked: "well_linked demo_receipts"
proof -
  have "numbered demo_receipts"
    by (simp add: numbered_def demo_receipts_def positive_int_def)
  moreover have "settled [demo_intent] demo_decision"
    by (simp add: settled_def idle_def demo_real names_def positive_int_def)
  moreover have "intent_linked [demo_decision] demo_intent" "one_outcome [demo_outcome] demo_intent"
    "one_intent [demo_decision] [demo_intent]"
    by (auto simp: intent_linked_def one_outcome_def one_intent_def demo_link_formed demo_answers names_def positive_int_def)
  moreover have "outcome_linked [demo_decision] [demo_intent] demo_outcome"
    by (simp add: outcome_linked_def demo_link_formed demo_answers demo_success names_def positive_int_def)
  ultimately show ?thesis by (simp add: well_linked_def demo_formed Let_def)
qed

lemma consequences_accounted_witness:
  "report_is_valid (verify_receipt_records demo_receipts) \<and> (\<exists>r. children ''outcome'' demo_receipts demo_decision = {r})"
  using demo_well_linked consequences_accounted [of demo_receipts demo_decision] demo_real(1)
  by (auto simp: report_valid_iff)

end
