(* ===== verification/Datetimes.thy ===== *)
theory Datetimes
  imports Json_Text Py_Bytes
begin

text \<open>
  Instants, \<open>datetime.isoformat\<close> and \<open>datetime.fromisoformat\<close> of the standard library,
  and the parser of datetime claims over them.
\<close>

section \<open>Instants\<close>

text \<open>
  A \<open>datetime\<close> of a verified claim set is in UTC (\<open>claim_shapes._parse_dt\<close>): the number
  of microseconds since the start of year 1, below the end of year 9999.
\<close>

type_synonym instant = int

definition day_us :: int where
  "day_us = 86400 * 1000000"

definition max_instant :: instant where
  "max_instant = 3652059 * day_us - 1"

text \<open>\<open>_ord2ymd\<close> of the standard library, on a day number from 0 for 1 January of year 1.\<close>

definition month_lengths :: "bool \<Rightarrow> nat list" where
  "month_lengths leap = [31, if leap then 29 else 28, 31, 30, 31, 30, 31, 31, 30, 31, 30, 31]"

fun month_day :: "nat \<Rightarrow> nat list \<Rightarrow> nat \<Rightarrow> nat \<times> nat" where
  "month_day m [] n = (m, n + 1)"
| "month_day m (l # ls) n = (if n < l then (m, n + 1) else month_day (m + 1) ls (n - l))"

definition year_month_day :: "nat \<Rightarrow> nat \<times> nat \<times> nat" where
  "year_month_day n =
     (let n400 = n div 146097; n = n mod 146097;
          n100 = n div 36524; n = n mod 36524;
          n4 = n div 1461; n = n mod 1461;
          n1 = n div 365; n = n mod 365;
          year = n400 * 400 + 1 + n100 * 100 + n4 * 4 + n1
      in if n1 = 4 \<or> n100 = 4 then (year - 1, 12, 31)
         else (year, month_day 1 (month_lengths (n1 = 3 \<and> (n4 \<noteq> 24 \<or> n100 = 3))) n))"

definition pad :: "nat \<Rightarrow> nat \<Rightarrow> pystr" where
  "pad width n = replicate (width - length (dec_digits n)) 48 @ dec_digits n"

text \<open>\<open>value.astimezone(UTC).isoformat()\<close>: the microseconds are written only if not zero.\<close>

definition isoformat :: "instant \<Rightarrow> pystr" where
  "isoformat t =
     (let days = nat (t div day_us); us = nat (t mod day_us);
          s = us div 1000000; f = us mod 1000000
      in case year_month_day days of (y, m, d) \<Rightarrow>
        pad 4 y @ lit ''-'' @ pad 2 m @ lit ''-'' @ pad 2 d @ lit ''T''
        @ pad 2 (s div 3600) @ lit '':'' @ pad 2 (s div 60 mod 60) @ lit '':'' @ pad 2 (s mod 60)
        @ (if f = 0 then [] else lit ''.'' @ pad 6 f) @ lit ''+00:00'')"

section \<open>Calendar\<close>

definition is_leap :: "nat \<Rightarrow> bool" where
  "is_leap y \<longleftrightarrow> y mod 4 = 0 \<and> (y mod 100 \<noteq> 0 \<or> y mod 400 = 0)"

definition days_before_year :: "nat \<Rightarrow> nat" where
  "days_before_year y = (y - 1) * 365 + (y - 1) div 4 - (y - 1) div 100 + (y - 1) div 400"

definition days_in_month :: "nat \<Rightarrow> nat \<Rightarrow> nat" where
  "days_in_month y m = month_lengths (is_leap y) ! (m - 1)"

text \<open>The day number of a date, from 0 for 1 January of year 1.\<close>

definition day_number :: "nat \<Rightarrow> nat \<Rightarrow> nat \<Rightarrow> nat" where
  "day_number y m d = days_before_year y + sum_list (take (m - 1) (month_lengths (is_leap y))) + d - 1"

definition valid_date :: "nat \<Rightarrow> nat \<Rightarrow> nat \<Rightarrow> bool" where
  "valid_date y m d \<longleftrightarrow> 1 \<le> y \<and> y \<le> 9999 \<and> 1 \<le> m \<and> m \<le> 12 \<and> 1 \<le> d \<and> d \<le> days_in_month y m"

text \<open>\<open>_isoweek_to_gregorian\<close>: the day number of a week date; the first week holds a Thursday.\<close>

definition week_date :: "nat \<Rightarrow> nat \<Rightarrow> nat \<Rightarrow> nat option" where
  "week_date y w d =
     (let first = days_before_year y mod 7;
          day = int (days_before_year y) - int first + (if first > 3 then 7 else 0)
            + (int w - 1) * 7 + int d - 1
      in if 1 \<le> y \<and> y \<le> 9999 \<and> 1 \<le> w \<and> w \<le> 53
           \<and> (w = 53 \<longrightarrow> first = 3 \<or> (first = 2 \<and> is_leap y)) \<and> 1 \<le> d \<and> d \<le> 7
           \<and> 0 \<le> day \<and> day < 3652059
         then Some (nat day) else None)"

section \<open>The ISO 8601 reader\<close>

text \<open>
  The C routine reads the UTF-8 text of the argument, which ends in a NUL: the characters
  below are code units, and reading past the end gives 0.
\<close>

definition code_unit :: "nat list \<Rightarrow> nat \<Rightarrow> nat" where
  "code_unit s i = (if i < length s then s ! i else 0)"

definition read_digits :: "nat \<Rightarrow> nat list \<Rightarrow> (nat \<times> nat list) option" where
  "read_digits n s =
     (if length (take n s) = n \<and> list_all is_dec_digit (take n s)
      then Some (dec_value (take n s), drop n s) else None)"

text \<open>\<open>_find_isoformat_datetime_separator\<close>, with 45 for a hyphen and 87 for a \<open>W\<close>.\<close>

definition separator_at :: "nat list \<Rightarrow> nat option" where
  "separator_at s =
     (if length s = 7 then Some 7
      else if code_unit s 4 = 45 then
        (if code_unit s 5 = 87 then
           (if length s > 8 \<and> code_unit s 8 = 45 then
              (if length s = 9 then None
               else if is_dec_digit (code_unit s 10) then Some 8 else Some 10)
            else Some 8)
         else Some 10)
      else if code_unit s 4 = 87 then
        (let i = 7 + length (takeWhile is_dec_digit (drop 7 s))
         in if i < 9 then Some i else if i mod 2 = 0 then Some 7 else Some 8)
      else Some 8)"

datatype date_text = Calendar_Date nat nat nat | Day_Number nat

text \<open>\<open>parse_isoformat_date\<close>, on the whole text with the length of the date in it.\<close>

definition read_date :: "nat list \<Rightarrow> nat \<Rightarrow> date_text option" where
  "read_date s n =
     (case read_digits 4 s of None \<Rightarrow> None | Some (y, p) \<Rightarrow>
        let dashed = code_unit p 0 = 45; p = (if dashed then tl p else p)
        in if code_unit p 0 = 87 then
             (case read_digits 2 (tl p) of None \<Rightarrow> None | Some (w, p) \<Rightarrow>
                if length s - length p < n then
                  if dashed \<and> code_unit p 0 \<noteq> 45 then None
                  else (case read_digits 1 (if dashed then tl p else p) of
                      None \<Rightarrow> None | Some (d, _) \<Rightarrow> map_option Day_Number (week_date y w d))
                else map_option Day_Number (week_date y w 1))
           else
             (case read_digits 2 p of None \<Rightarrow> None | Some (m, p) \<Rightarrow>
                if dashed \<and> code_unit p 0 \<noteq> 45 then None
                else (case read_digits 2 (if dashed then tl p else p) of
                    None \<Rightarrow> None | Some (d, _) \<Rightarrow> Some (Calendar_Date y m d))))"

text \<open>
  \<open>parse_hh_mm_ss_ff\<close> on the text from a time component on, with the number of code units
  to the end of the component: hours, minutes, seconds, microseconds, and whether the
  component is followed by more text.
\<close>

definition read_fraction :: "int \<Rightarrow> nat list \<Rightarrow> (nat \<times> bool) option" where
  "read_fraction n s =
     (let k = nat (min 6 n)
      in case read_digits k s of None \<Rightarrow> None | Some (f, p) \<Rightarrow>
           Some (f * 10 ^ (6 - k), code_unit (dropWhile is_dec_digit p) 0 \<noteq> 0))"

fun read_clock :: "nat \<Rightarrow> bool \<Rightarrow> int \<Rightarrow> nat list \<Rightarrow> nat list \<Rightarrow> (nat list \<times> nat \<times> bool) option" where
  "read_clock 0 coloned n s vals =
     (case read_fraction n s of None \<Rightarrow> None | Some (f, more_text) \<Rightarrow> Some (vals, f, more_text))"
| "read_clock (Suc k) coloned n s vals =
     (case read_digits 2 s of None \<Rightarrow> None | Some (v, s) \<Rightarrow>
        let n = n - 2; c = code_unit s 0; vals = vals @ [v];
            coloned = (if k = 2 then c = 58 else coloned)
        in if n \<le> 1 then Some (vals @ replicate k 0, 0, c \<noteq> 0)
           else if coloned \<and> c = 58 then if k = 0 then None else read_clock k coloned (n - 1) (tl s) vals
           else if c = 46 \<or> c = 44 then if k = 0 then read_clock 0 coloned (n - 1) (tl s) vals else None
           else if coloned then None
           else read_clock k coloned n s vals)"

text \<open>
  \<open>parse_isoformat_time\<close>: hour, minute, second, microsecond, and the offset in
  microseconds. An offset whose seconds are zero is UTC.
\<close>

definition zone_at :: "nat list \<Rightarrow> nat" where
  "zone_at t = max (length (takeWhile (\<lambda>c. c \<notin> {43, 45, 90}) t)) (if t = [] then 1 else 0)"

definition read_zone :: "nat list \<Rightarrow> int option" where
  "read_zone z =
     (if hd z = 90 then if code_unit z 1 \<noteq> 0 then None else Some 0
      else case read_clock 3 True (int (length z) - 1) (tl z) [] of
        Some ([h, m, s], f, False) \<Rightarrow>
          let sign = (if hd z = 45 then - 1 else 1); secs = int (h * 3600 + m * 60 + s)
          in Some (if secs = 0 then 0 else sign * (secs * 1000000 + int f))
      | _ \<Rightarrow> None)"

definition read_time :: "nat list \<Rightarrow> ((nat \<times> nat \<times> nat \<times> nat) \<times> int option) option" where
  "read_time t =
     (let z = zone_at t
      in case read_clock 3 True (int z) t [] of
        Some ([h, m, s], f, more_text) \<Rightarrow>
          if z \<ge> length t then if more_text then None else Some ((h, m, s, f), None)
          else (case read_zone (drop z t) of None \<Rightarrow> None | Some off \<Rightarrow> Some ((h, m, s, f), Some off))
      | _ \<Rightarrow> None)"

text \<open>Midnight at the end of a day is written with hour 24.\<close>

definition next_day :: "nat \<Rightarrow> nat \<Rightarrow> nat \<Rightarrow> nat \<times> nat \<times> nat" where
  "next_day y m d =
     (if d < days_in_month y m then (y, m, d + 1) else if m < 12 then (y, m + 1, 1) else (y + 1, 1, 1))"

definition date_day :: "date_text \<Rightarrow> bool \<Rightarrow> int option" where
  "date_day dt midnight =
     (case dt of
        Day_Number n \<Rightarrow>
          let n = (if midnight then n + 1 else n) in if n < 3652059 then Some (int n) else None
      | Calendar_Date y m d \<Rightarrow>
          if 1 \<le> m \<and> m \<le> 12 \<and> d \<le> days_in_month y m then
            (case (if midnight then next_day y m d else (y, m, d)) of (y, m, d) \<Rightarrow>
               if valid_date y m d then Some (int (day_number y m d)) else None)
          else None)"

text \<open>
  A surrogate is allowed only as the separator, where the routine replaces it. The
  separator itself may be any character.
\<close>

definition sanitize_position :: "pystr \<Rightarrow> nat option" where
  "sanitize_position s = List.find (\<lambda>i. i < length s \<and> is_surrogate (s ! i)) [7, 8, 10]"

definition sanitize :: "pystr \<Rightarrow> pystr" where
  "sanitize s =
     (if list_ex is_surrogate s then
        (case sanitize_position s of None \<Rightarrow> s | Some i \<Rightarrow> s[i := 84])
      else s)"

definition unit_width :: "nat \<Rightarrow> nat" where
  "unit_width c = (if c < 128 then 1 else if c div 16 = 14 then 3 else if c div 16 = 15 then 4 else 2)"

definition clock_us :: "nat \<times> nat \<times> nat \<times> nat \<Rightarrow> int" where
  "clock_us c = (case c of (h, m, s, f) \<Rightarrow> int (((h * 60 + m) * 60 + s) * 1000000 + f))"

definition clock_ok :: "nat \<times> nat \<times> nat \<times> nat \<Rightarrow> bool" where
  "clock_ok c = (case c of (h, m, s, f) \<Rightarrow> h < 24 \<and> m < 60 \<and> s < 60)"

text \<open>
  The wall clock in microseconds since the start of year 1, and the offset from UTC if one
  is written.
\<close>

definition assemble :: "date_text \<Rightarrow> (nat \<times> nat \<times> nat \<times> nat) \<Rightarrow> int option \<Rightarrow> (int \<times> int option) option" where
  "assemble dt c off =
     (let midnight = (fst c = 24)
      in if midnight \<and> c \<noteq> (24, 0, 0, 0) then None
         else case date_day dt midnight of None \<Rightarrow> None | Some day \<Rightarrow>
           let c = (if midnight then (0, 0, 0, 0) else c)
           in if clock_ok c \<and> (\<forall>x \<in> set_option off. \<bar>x\<bar> < day_us)
              then Some (day * day_us + clock_us c, off) else None)"

definition fromisoformat :: "pystr \<Rightarrow> (int \<times> int option) option" where
  "fromisoformat text =
     (let text = sanitize text; s = concat (map utf8_char text)
      in if list_ex is_surrogate text \<or> length s < 7 then None
         else case separator_at s of None \<Rightarrow> None | Some q \<Rightarrow>
           (case read_date s q of None \<Rightarrow> None | Some dt \<Rightarrow>
              if length s > q then
                (case read_time (drop (q + unit_width (code_unit s q)) s) of None \<Rightarrow> None
                 | Some (c, off) \<Rightarrow> assemble dt c off)
              else assemble dt (0, 0, 0, 0) None))"

text \<open>
  \<open>claim_shapes._parse_dt\<close>: a datetime without an offset is in UTC; a conversion to UTC
  that leaves the years 1 to 9999 raises \<open>OverflowError\<close>.
\<close>

definition parse_dt :: "pystr \<Rightarrow> exc + instant" where
  "parse_dt value =
     (case fromisoformat value of
        None \<Rightarrow> Inl ValueError
      | Some (wall, off) \<Rightarrow>
          let t = wall - (case off of None \<Rightarrow> 0 | Some x \<Rightarrow> x)
          in if 0 \<le> t \<and> t \<le> max_instant then Inr t else Inl OverflowError)"

section \<open>The calendar and the reader invert the printer\<close>

text \<open>The year is found from its cycles of 400, 100, 4 and 1 years, the month from its lengths.\<close>

lemma month_day_sound:
  assumes "n < sum_list ls"
  obtains k d where "month_day m ls n = (m + k, d)" "k < length ls" "1 \<le> d" "d \<le> ls ! k"
    "sum_list (take k ls) + d = n + 1"
  using assms
proof (induction m ls n arbitrary: thesis rule: month_day.induct)
  case (2 m l ls n)
  show ?case
  proof (cases "n < l")
    case True
    then show ?thesis using "2.prems"(1) [of 0 "n + 1"] by simp
  next
    case False
    then have "n - l < sum_list ls" using "2.prems"(2) by simp
    then obtain k d where "month_day (m + 1) ls (n - l) = (m + 1 + k, d)" "k < length ls" "1 \<le> d"
        "d \<le> ls ! k" "sum_list (take k ls) + d = n - l + 1"
      using "2.IH" [OF False] by metis
    then show ?thesis
      using False "2.prems"(1) [of "Suc k" d] by simp
  qed
qed simp

lemma days_before_split:
  assumes "b \<le> 3" "c \<le> 24" "d \<le> (3::nat)"
  shows "days_before_year (400 * a + 100 * b + 4 * c + d + 1) = 146097 * a + 36524 * b + 1461 * c + 365 * d"
proof -
  have "(400 * a + 100 * b + 4 * c + d) div 4 = 100 * a + 25 * b + c"
    "(400 * a + 100 * b + 4 * c + d) div 100 = 4 * a + b"
    "(400 * a + 100 * b + 4 * c + d) div 400 = a"
    using assms by linarith+
  then show ?thesis by (simp add: days_before_year_def)
qed

lemma mod_0_bound: "1 \<le> r \<Longrightarrow> r \<le> k \<Longrightarrow> (k * q + r) mod k = 0 \<longleftrightarrow> r = (k::nat)"
  by (cases "r = k") auto

lemma leap_split:
  assumes "b \<le> 3" "c \<le> 24" "d \<le> (3::nat)"
  shows "is_leap (400 * a + 100 * b + 4 * c + d + 1) \<longleftrightarrow> d = 3 \<and> (c \<noteq> 24 \<or> b = 3)"
proof -
  let ?y = "400 * a + 100 * b + 4 * c + d + 1"
  have y: "?y = 4 * (100 * a + 25 * b + c) + (d + 1)" "?y = 100 * (4 * a + b) + (4 * c + d + 1)"
    "?y = 400 * a + (100 * b + 4 * c + d + 1)" by simp_all
  have "?y mod 4 = 0 \<longleftrightarrow> d = 3"
    unfolding y(1) using assms by (subst mod_0_bound) auto
  moreover have "?y mod 100 = 0 \<longleftrightarrow> d = 3 \<and> c = 24"
    unfolding y(2) using assms by (subst mod_0_bound) (simp, simp, arith)
  moreover have "?y mod 400 = 0 \<longleftrightarrow> d = 3 \<and> c = 24 \<and> b = 3"
    unfolding y(3) using assms by (subst mod_0_bound) (simp, simp, arith)
  ultimately show ?thesis by (auto simp: is_leap_def)
qed

lemma sum_months [simp]: "sum_list (month_lengths leap) = (if leap then 366 else 365)"
  "length (month_lengths leap) = 12"
  by (simp_all add: month_lengths_def)

lemma split_days:
  fixes n :: nat
  defines "n1 \<equiv> n mod 146097" defines "n2 \<equiv> n1 mod 36524" defines "n3 \<equiv> n2 mod 1461"
  obtains a b c d r where "n div 146097 = a" "n1 div 36524 = b" "n2 div 1461 = c" "n3 div 365 = d" "n3 mod 365 = r"
    "n = 146097 * a + 36524 * b + 1461 * c + 365 * d + r" "r < 365" "c \<le> 24"
    "b \<le> 3 \<and> d \<le> 3 \<or> b \<le> 3 \<and> d = 4 \<and> r = 0 \<and> c < 24 \<or> b = 4 \<and> c = 0 \<and> d = 0 \<and> r = 0"
proof -
  have 1: "n = 146097 * (n div 146097) + n1" "n1 < 146097" 
    "n1 = 36524 * (n1 div 36524) + n2" "n2 < 36524" "n2 = 1461 * (n2 div 1461) + n3" "n3 < 1461"
    "n3 = 365 * (n3 div 365) + n3 mod 365" "n3 mod 365 < 365"
    by (auto simp: n1_def n2_def n3_def)
  have 2: "n2 div 1461 \<le> 24" using 1 by linarith
  have "n1 div 36524 \<le> 4" "n3 div 365 \<le> 4" using 1 by linarith+
  then consider "n1 div 36524 \<le> 3" "n3 div 365 \<le> 3" | "n1 div 36524 \<le> 3" "n3 div 365 = 4" | "n1 div 36524 = 4"
    by linarith
  then have "n1 div 36524 \<le> 3 \<and> n3 div 365 \<le> 3
      \<or> n1 div 36524 \<le> 3 \<and> n3 div 365 = 4 \<and> n3 mod 365 = 0 \<and> n2 div 1461 < 24
      \<or> n1 div 36524 = 4 \<and> n2 div 1461 = 0 \<and> n3 div 365 = 0 \<and> n3 mod 365 = 0"
  proof cases
    case 2
    then have "n3 mod 365 = 0" "n2 div 1461 < 24" using 1 by linarith+
    with 2 show ?thesis by blast
  next
    case 3
    then have "n2 = 0" using 1 by linarith
    with 3 show ?thesis by (simp add: n3_def)
  qed blast
  moreover have "n = 146097 * (n div 146097) + 36524 * (n1 div 36524) + 1461 * (n2 div 1461) + 365 * (n3 div 365) + n3 mod 365"
    using 1 by linarith
  ultimately show thesis by (intro that) (use 1(8) 2 in simp_all)
qed

lemma month_in_year:
  assumes "y \<le> 9999" "r < (if is_leap y then 366 else 365)" "1 \<le> y"
  obtains m d where "month_day 1 (month_lengths (is_leap y)) r = (m, d)" "valid_date y m d"
    "day_number y m d = days_before_year y + r"
proof -
  from assms(2) have "r < sum_list (month_lengths (is_leap y))" by simp
  then obtain k d where "month_day 1 (month_lengths (is_leap y)) r = (1 + k, d)" "k < 12" "1 \<le> d"
      "d \<le> month_lengths (is_leap y) ! k" "sum_list (take k (month_lengths (is_leap y))) + d = r + 1"
    by (rule month_day_sound [where m = 1]) simp
  then show thesis
    using assms by (intro that [of "1 + k" d]) (auto simp: valid_date_def days_in_month_def day_number_def)
qed

lemma year_end:
  assumes "is_leap y" "1 \<le> y" "y \<le> 9999"
  shows "valid_date y 12 31" "day_number y 12 31 = days_before_year y + 365"
  using assms by (simp_all add: valid_date_def days_in_month_def day_number_def month_lengths_def)

lemma year_month_day_sound:
  assumes "n < 3652059"
  obtains y m d where "year_month_day n = (y, m, d)" "valid_date y m d" "day_number y m d = n"
proof -
  obtain a b c d r where s: "n div 146097 = a" "n mod 146097 div 36524 = b"
      "n mod 146097 mod 36524 div 1461 = c" "n mod 146097 mod 36524 mod 1461 div 365 = d"
      "n mod 146097 mod 36524 mod 1461 mod 365 = r"
      "n = 146097 * a + 36524 * b + 1461 * c + 365 * d + r" "r < 365" "c \<le> 24"
      "b \<le> 3 \<and> d \<le> 3 \<or> b \<le> 3 \<and> d = 4 \<and> r = 0 \<and> c < 24 \<or> b = 4 \<and> c = 0 \<and> d = 0 \<and> r = 0"
    by (rule split_days)
  have ymd: "year_month_day n = (if d = 4 \<or> b = 4 then (400 * a + 100 * b + 4 * c + d, 12, 31)
      else (400 * a + 100 * b + 4 * c + d + 1,
        month_day 1 (month_lengths (d = 3 \<and> (c \<noteq> 24 \<or> b = 3))) r))"
    by (simp add: year_month_day_def Let_def s(1-5) algebra_simps)
  from s(9) consider "b \<le> 3" "d \<le> 3" | "b \<le> 3" "d = 4" "r = 0" "c < 24" | "b = 4" "c = 0" "d = 0" "r = 0" by blast
  then show thesis
  proof cases
    case 1
    have "400 * a + 100 * b + 4 * c + d + 1 \<le> 9999" using assms s(6,8) 1 by linarith
    moreover have "r < (if is_leap (400 * a + 100 * b + 4 * c + d + 1) then 366 else 365)"
      using s(7) by simp
    ultimately obtain m e where m: 
        "month_day 1 (month_lengths (is_leap (400 * a + 100 * b + 4 * c + d + 1))) r = (m, e)"
        "valid_date (400 * a + 100 * b + 4 * c + d + 1) m e"
        "day_number (400 * a + 100 * b + 4 * c + d + 1) m e
          = days_before_year (400 * a + 100 * b + 4 * c + d + 1) + r"
      by (rule month_in_year [of "400 * a + 100 * b + 4 * c + d + 1" r]) simp
    show thesis
      by (rule that [OF _ m(2)])
        (use s(6,8) 1 ymd m leap_split [of b c d a] days_before_split [of b c d a] in simp_all)
  next
    case 2
    have "400 * a + 100 * b + 4 * c + 3 + 1 \<le> 9999" using assms s(6,8) 2 by linarith
    then show thesis
      using year_end [of "400 * a + 100 * b + 4 * c + 3 + 1"] s(6,8) 2 that ymd
        leap_split [of b c 3 a] days_before_split [of b c 3 a]
      by (auto simp: ac_simps)
  next
    case 3
    have "400 * a + 100 * 3 + 4 * 24 + 3 + 1 \<le> 9999" using assms s(6) 3 by linarith
    then show thesis
      using year_end [of "400 * a + 100 * 3 + 4 * 24 + 3 + 1"] s(6) 3 that ymd
        leap_split [of 3 24 3 a] days_before_split [of 3 24 3 a]
      by (auto simp: ac_simps)
  qed
qed


text \<open>The printed fields are read back.\<close>

lemma length_dec_digits: "0 < k \<Longrightarrow> n < 10 ^ k \<Longrightarrow> length (dec_digits n) \<le> k"
proof (induction n arbitrary: k rule: dec_digits.induct)
  case (1 n)
  show ?case
  proof (cases "n < 10")
    case False
    then obtain j where "k = Suc j" "0 < j" using "1.prems" by (cases k; cases "k - 1") auto
    with 1 False have "length (dec_digits (n div 10)) \<le> j"
      by (intro "1.IH") auto
    with False \<open>k = Suc j\<close> show ?thesis by (subst dec_digits.simps) simp
  qed (use "1.prems" in \<open>subst dec_digits.simps, simp\<close>)
qed

lemma dec_value_zeros [simp]: "dec_value (replicate k 48 @ s) = dec_value s"
  by (induction k) (simp_all add: dec_value_def)

lemma pad_facts:
  assumes "0 < k" "n < 10 ^ k"
  shows "length (pad k n) = k" "list_all is_dec_digit (pad k n)" "dec_value (pad k n) = n"
  using length_dec_digits [OF assms] dec_digits_digit [of n]
  by (auto simp: pad_def list_all_iff is_dec_digit_def)

lemma read_pad: "0 < k \<Longrightarrow> n < 10 ^ k \<Longrightarrow> read_digits k (pad k n @ s) = Some (n, s)"
  by (simp add: read_digits_def pad_facts)


lemma code_unit_simps [simp]: "code_unit [] i = 0" "code_unit (c # s) 0 = c"
  "code_unit (c # s) (Suc i) = code_unit s i"
  "length p \<le> i \<Longrightarrow> code_unit (p @ s) i = code_unit s (i - length p)"
  "i < length p \<Longrightarrow> code_unit (p @ s) i = p ! i"
  by (auto simp: code_unit_def nth_append)

lemma code_unit_cons: "code_unit (c # s) i = (if i = 0 then c else code_unit s (i - 1))"
  by (cases i) simp_all

lemma ascii_units: "is_ascii s \<Longrightarrow> concat (map utf8_char s) = s"
  by (induction s) (auto simp: utf8_char_def)

lemma ascii_no_surrogate: "is_ascii s \<Longrightarrow> \<not> list_ex is_surrogate s"
  by (induction s) (auto simp: is_surrogate_def)

lemma ascii_sanitize: "is_ascii s \<Longrightarrow> sanitize s = s"
  by (simp add: sanitize_def ascii_no_surrogate)

lemma ascii_pad: "is_ascii (pad k n)"
  using dec_digits_digit [of n]
  by (auto simp: pad_def is_ascii_def list_all_iff is_dec_digit_def)

text \<open>A clock reading that ends in an offset.\<close>

lemma read_clock_text:
  assumes "h < 100" "m < 100" "s < 100"
  shows "read_clock 3 True 8 (pad 2 h @ 58 # pad 2 m @ 58 # pad 2 s @ c # r) [] = Some ([h, m, s], 0, c \<noteq> 0)"
  using assms by (simp add: numeral_3_eq_3 read_pad Let_def)

lemma read_clock_frac:
  assumes "h < 100" "m < 100" "s < 100" "f < 1000000" "\<not> is_dec_digit c" "c \<noteq> 0"
  shows "read_clock 3 True 15 (pad 2 h @ 58 # pad 2 m @ 58 # pad 2 s @ 46 # pad 6 f @ c # r) []
    = Some ([h, m, s], f, True)"
  using assms by (simp add: numeral_3_eq_3 read_pad Let_def read_fraction_def)

lemma zone_at_text:
  assumes "list_all (\<lambda>c. c \<notin> {43, 45, 90}) p" "c \<in> {43, 45, 90}"
  shows "zone_at (p @ c # r) = length p"
  using assms by (auto simp: zone_at_def list_all_iff)

lemma pad_no_zone: "list_all (\<lambda>c. c \<notin> {43, 45, 90}) (pad k n)"
  using dec_digits_digit [of n] by (auto simp: pad_def list_all_iff is_dec_digit_def)

lemma read_zone_utc [simp]: "read_zone (lit ''+00:00'') = Some 0"
  by (simp add: read_zone_def lit_def numeral_3_eq_3 read_digits_def is_dec_digit_def dec_value_def Let_def)

lemma read_time_split:
  assumes "zone_at (p @ r) = length p" "r \<noteq> []" "read_zone r = Some off"
    and "read_clock 3 True (int (length p)) (p @ r) [] = Some ([h, m, s], f, b)"
  shows "read_time (p @ r) = Some ((h, m, s, f), Some off)"
  using assms by (simp add: read_time_def Let_def)

lemma read_time_text:
  assumes "h < 24" "m < 60" "s < 60" "f < 1000000"
  shows "read_time (pad 2 h @ 58 # pad 2 m @ 58 # pad 2 s
      @ (if f = 0 then [] else 46 # pad 6 f) @ lit ''+00:00'') = Some ((h, m, s, f), Some 0)"
proof -
  let ?p = "pad 2 h @ 58 # pad 2 m @ 58 # pad 2 s @ (if f = 0 then [] else 46 # pad 6 f)"
  have plus: "lit ''+00:00'' = 43 # lit ''00:00''" by (simp add: lit_def)
  have z: "zone_at (?p @ lit ''+00:00'') = length ?p"
    unfolding plus by (rule zone_at_text) (auto simp: pad_no_zone [simplified])
  have len: "length ?p = (if f = 0 then 8 else 15)"
    using assms by (simp add: pad_facts)
  have "read_clock 3 True (int (length ?p)) (?p @ lit ''+00:00'') [] = Some ([h, m, s], f, True)"
    using assms unfolding len plus by (auto simp: read_clock_text read_clock_frac is_dec_digit_def)
  from read_time_split [OF z _ _ this] show ?thesis by simp
qed

lemma pad_2:
  assumes "n < 100" shows "\<exists>a b. pad 2 n = [a, b] \<and> is_dec_digit a \<and> is_dec_digit b"
proof -
  have "length (pad 2 n) = Suc (Suc 0)" "list_all is_dec_digit (pad 2 n)"
    using pad_facts [of 2 n] assms by simp_all
  then show ?thesis by (auto simp: length_Suc_conv)
qed

lemma pad_4:
  assumes "n < 10000" shows "\<exists>a b c d. pad 4 n = [a, b, c, d]"
proof -
  have "length (pad 4 n) = Suc (Suc (Suc (Suc 0)))"
    using pad_facts [of 4 n] assms by simp
  then show ?thesis by (auto simp: length_Suc_conv)
qed

lemma month_bound: "1 \<le> m \<Longrightarrow> m \<le> 12 \<Longrightarrow> days_in_month y m \<le> 31"
  unfolding days_in_month_def month_lengths_def
  by (cases m) (auto simp: le_Suc_eq numeral_eq_Suc)

lemma valid_date_bounds: "valid_date y m d \<Longrightarrow> y < 10000 \<and> m < 100 \<and> d < 100"
  using month_bound [of m y] by (auto simp: valid_date_def)

lemma read_date_text:
  assumes "valid_date y m d"
  shows "separator_at (pad 4 y @ 45 # pad 2 m @ 45 # pad 2 d @ 84 # t) = Some 10"
    "read_date (pad 4 y @ 45 # pad 2 m @ 45 # pad 2 d @ 84 # t) 10 = Some (Calendar_Date y m d)"
proof -
  note b = valid_date_bounds [OF assms]
  obtain a1 a2 a3 a4 where y: "pad 4 y = [a1, a2, a3, a4]" using pad_4 b by blast
  obtain b1 b2 where m: "pad 2 m = [b1, b2]" "is_dec_digit b1" using pad_2 b by blast
  then have "b1 \<noteq> 87" "b1 \<noteq> 45" by (auto simp: is_dec_digit_def)
  then show "separator_at (pad 4 y @ 45 # pad 2 m @ 45 # pad 2 d @ 84 # t) = Some 10"
    by (simp add: separator_at_def y m code_unit_def)
  have "read_digits 4 (pad 4 y @ s) = Some (y, s)" "read_digits 2 (pad 2 m @ s) = Some (m, s)"
    "read_digits 2 (pad 2 d @ s) = Some (d, s)" for s
    using b by (simp_all add: read_pad)
  moreover have "code_unit (pad 2 m @ s) 0 = b1" for s by (simp add: m)
  ultimately show "read_date (pad 4 y @ 45 # pad 2 m @ 45 # pad 2 d @ 84 # t) 10 = Some (Calendar_Date y m d)"
    using \<open>b1 \<noteq> 87\<close> by (simp add: read_date_def Let_def)
qed

lemma clock_split:
  fixes us :: nat
  assumes "us < 86400 * 1000000"
  defines "s \<equiv> us div 1000000"
  shows "s div 3600 < 24" "((s div 3600 * 60 + s div 60 mod 60) * 60 + s mod 60) * 1000000 + us mod 1000000 = us"
proof -
  show "s div 3600 < 24" using assms by (simp add: s_def)
  have "s div 3600 = s div 60 div 60" by (simp add: div_mult2_eq [symmetric])
  then have "(s div 3600 * 60 + s div 60 mod 60) * 60 + s mod 60 = s" by presburger
  then show "((s div 3600 * 60 + s div 60 mod 60) * 60 + s mod 60) * 1000000 + us mod 1000000 = us"
    by (simp add: s_def)
qed

lemma fromisoformat_ascii:
  assumes "is_ascii s" "separator_at s = Some 10" "read_date s 10 = Some dt" "code_unit s 10 = 84"
    "11 \<le> length s" "read_time (drop 11 s) = Some (c, off)"
  shows "fromisoformat s = assemble dt c off"
  using assms by (simp add: fromisoformat_def ascii_sanitize ascii_units ascii_no_surrogate unit_width_def)

lemma stamp_read:
  assumes "0 \<le> t" "t \<le> max_instant"
    and "year_month_day (nat (t div day_us)) = (y, m, d)" "nat (t mod day_us) = us"
    and "read_time clock = Some ((us div 1000000 div 3600, us div 1000000 div 60 mod 60, us div 1000000 mod 60, f), Some 0)"
    and "is_ascii clock" "f \<le> us mod 1000000"
  shows "fromisoformat (pad 4 y @ 45 # pad 2 m @ 45 # pad 2 d @ 84 # clock)
    = Some (t - int (us mod 1000000 - f), Some 0)"
proof -
  have day: "0 < day_us" by (simp add: day_us_def)
  have "t div day_us < 3652059" using assms(2) by (simp add: max_instant_def day_us_def)
  then have "nat (t div day_us) < 3652059" by simp
  then have ymd: "valid_date y m d" "day_number y m d = nat (t div day_us)"
    by (rule year_month_day_sound, use assms(3) in auto)+
  have us: "us < 86400 * 1000000" using day assms(4) by (simp add: day_us_def nat_less_iff flip: assms(4))
  have t: "t = int (nat (t div day_us)) * day_us + int us"
    using assms(1) day by (simp add: pos_imp_zdiv_nonneg_iff flip: assms(4))
  let ?text = "pad 4 y @ 45 # pad 2 m @ 45 # pad 2 d @ 84 # clock"
  have ascii: "is_ascii ?text" using assms(6) by (simp add: ascii_pad)
  have len: "length (pad 4 y) = 4" "length (pad 2 m) = 2" "length (pad 2 d) = 2"
    using valid_date_bounds [OF ymd(1)] by (simp_all add: pad_facts)
  have "code_unit ?text 10 = 84" "11 \<le> length ?text" and drop: "drop 11 ?text = clock"
    by (simp_all add: len code_unit_cons)
  then have "fromisoformat ?text = assemble (Calendar_Date y m d)
      (us div 1000000 div 3600, us div 1000000 div 60 mod 60, us div 1000000 mod 60, f) (Some 0)"
    by (intro fromisoformat_ascii ascii read_date_text ymd(1)) (simp_all add: drop assms(5))
  moreover have "int (day_number y m d) * day_us + clock_us (us div 1000000 div 3600, us div 1000000 div 60 mod 60, us div 1000000 mod 60, f)
      = t - int (us mod 1000000 - f)"
    using clock_split(2) [OF us] assms(7) t ymd(2) by (simp add: clock_us_def)
  ultimately show ?thesis
    using clock_split(1) [OF us] ymd day
    by (simp add: assemble_def date_day_def valid_date_def clock_ok_def Let_def)
qed

lemma fromisoformat_isoformat:
  assumes "0 \<le> t" "t \<le> max_instant"
  shows "fromisoformat (isoformat t) = Some (t, Some 0)"
proof -
  define us where "us = nat (t mod day_us)"
  define s where "s = us div 1000000"
  define f where "f = us mod 1000000"
  obtain y m d where ymd: "year_month_day (nat (t div day_us)) = (y, m, d)" by (metis prod_cases3)
  have "us < 86400 * 1000000" by (simp add: us_def day_us_def nat_less_iff)
  then have h: "s div 3600 < 24" using clock_split(1) by (simp add: s_def)
  have f: "f < 1000000" by (simp add: f_def)
  let ?clock = "pad 2 (s div 3600) @ 58 # pad 2 (s div 60 mod 60) @ 58 # pad 2 (s mod 60)
    @ (if f = 0 then [] else 46 # pad 6 f) @ lit ''+00:00''"
  have iso: "isoformat t = pad 4 y @ 45 # pad 2 m @ 45 # pad 2 d @ 84 # ?clock"
    by (simp add: isoformat_def Let_def ymd flip: us_def s_def f_def) (simp add: lit_def)
  have "read_time ?clock = Some ((s div 3600, s div 60 mod 60, s mod 60, f), Some 0)"
    using h f by (intro read_time_text) simp_all
  moreover have "is_ascii ?clock" by (simp add: ascii_pad is_ascii_lit)
  ultimately have "fromisoformat (isoformat t) = Some (t - int (us mod 1000000 - f), Some 0)"
    unfolding iso using stamp_read [OF assms ymd us_def [symmetric], of ?clock f] by (simp add: s_def f_def)
  then show ?thesis by (simp add: f_def)
qed

lemma parse_dt_range: "parse_dt s = Inr t \<Longrightarrow> 0 \<le> t \<and> t \<le> max_instant"
  by (auto simp: parse_dt_def Let_def split: option.splits if_splits)

lemma isoformat_inj:
  "0 \<le> s \<Longrightarrow> s \<le> max_instant \<Longrightarrow> 0 \<le> t \<Longrightarrow> t \<le> max_instant \<Longrightarrow> isoformat s = isoformat t \<longleftrightarrow> s = t"
  using fromisoformat_isoformat by (metis option.inject prod.inject)

text \<open>Every instant of the years 1 to 9999 is printed so that the claim parser reads it back.\<close>

theorem datetime_roundtrip:
  "0 \<le> t \<Longrightarrow> t \<le> max_instant \<Longrightarrow> parse_dt (isoformat t) = Inr t"
  by (simp add: parse_dt_def fromisoformat_isoformat)

theorem datetime_roundtrip_witness:
  "(0::int) \<le> 63839709045123456 \<and> 63839709045123456 \<le> max_instant
    \<and> parse_dt (isoformat 63839709045123456) = Inr 63839709045123456"
  using datetime_roundtrip [of 63839709045123456] by (simp add: max_instant_def day_us_def)

end
