(* ===== verification/Moments.thy ===== *)
theory Moments
  imports Datetimes Canonical
begin

text \<open>
  Moments of the evidence records: the canonical text \<open>hashing.canonical_iso\<close> writes, the reader
  the record modules repeat (\<open>_moment\<close>, \<open>_parse_moment\<close>), and the text and digest fields they
  read beside it.
\<close>

section \<open>Canonical text\<close>

text \<open>
  \<open>dt.astimezone(UTC).isoformat(timespec="milliseconds").replace("+00:00", "Z")\<close>: the
  microseconds are cut off.
\<close>

definition canonical_iso :: "instant \<Rightarrow> pystr" where
  "canonical_iso t =
     (let days = nat (t div day_us); us = nat (t mod day_us);
          s = us div 1000000; f = us mod 1000000
      in case year_month_day days of (y, m, d) \<Rightarrow>
        pad 4 y @ lit ''-'' @ pad 2 m @ lit ''-'' @ pad 2 d @ lit ''T''
        @ pad 2 (s div 3600) @ lit '':'' @ pad 2 (s div 60 mod 60) @ lit '':'' @ pad 2 (s mod 60)
        @ lit ''.'' @ pad 3 (f div 1000) @ lit ''Z'')"

definition whole_ms :: "instant \<Rightarrow> instant" where
  "whole_ms t = t - t mod 1000"

section \<open>Readers\<close>

text \<open>\<open>value.replace("Z", "+00:00")\<close>.\<close>

definition replace_z :: "pystr \<Rightarrow> pystr" where
  "replace_z s = concat (map (\<lambda>c. if c = 90 then lit ''+00:00'' else [c]) s)"

text \<open>
  A text with an explicit offset, in UTC. A conversion that leaves the years 1 to 9999 raises
  \<open>OverflowError\<close>, which the readers do not catch.
\<close>

definition to_utc :: "int \<Rightarrow> int \<Rightarrow> exc + instant" where
  "to_utc wall off =
     (let t = wall - off in if 0 \<le> t \<and> t \<le> max_instant then Inr t else Inl OverflowError)"

definition aware_moment :: "json \<Rightarrow> exc + instant" where
  "aware_moment value =
     bnd (expect ValueError (as_str value)) (\<lambda>s.
     case fromisoformat (replace_z s) of
       Some (wall, Some off) \<Rightarrow> to_utc wall off
     | _ \<Rightarrow> Inl ValueError)"

text \<open>\<open>_nonempty_text\<close> and \<open>_text\<close>: a non-empty string without surrounding white space.\<close>

definition canonical_text :: "json \<Rightarrow> bool" where
  "canonical_text v = (case v of JStr s \<Rightarrow> s \<noteq> [] \<and> strip s = s | _ \<Rightarrow> False)"

text \<open>\<open>_ascii_token\<close>.\<close>

definition ascii_token :: "json \<Rightarrow> bool" where
  "ascii_token v \<longleftrightarrow> canonical_text v \<and> (case v of JStr s \<Rightarrow> is_ascii s | _ \<Rightarrow> False)"

text \<open>\<open>_digest(value, size=n)\<close>: lower-case hexadecimal of a fixed length.\<close>

definition hex_text :: "nat \<Rightarrow> json \<Rightarrow> bool" where
  "hex_text n v = (case v of JStr s \<Rightarrow> length s = n \<and> list_all is_lower_hex s | _ \<Rightarrow> False)"

text \<open>
  \<open>value in {...}\<close> over a set of texts: a list or an object is unhashable and raises
  \<open>TypeError\<close>.
\<close>

definition unhashable :: "json \<Rightarrow> bool" where
  "unhashable v = (case v of JList _ \<Rightarrow> True | JObj _ \<Rightarrow> True | _ \<Rightarrow> False)"

definition one_of :: "string list \<Rightarrow> json \<Rightarrow> exc + bool" where
  "one_of allowed v = (if unhashable v then Inl TypeError else Inr (v \<in> JStr ` lit ` set allowed))"

definition require_one_of :: "string list \<Rightarrow> json \<Rightarrow> (exc + 'a) \<Rightarrow> exc + 'a" where
  "require_one_of allowed v k = bnd (one_of allowed v) (\<lambda>found. ensure found ValueError k)"

lemma require_one_of_Inr [raise_simps]:
  "require_one_of allowed v k = Inr x \<longleftrightarrow> v \<in> JStr ` lit ` set allowed \<and> k = Inr x"
  by (auto simp: require_one_of_def one_of_def unhashable_def raise_simps)

section \<open>The claim parser reads the canonical text\<close>

lemma read_clock_ms:
  assumes "h < 100" "m < 100" "s < 100" "f < 1000"
  shows "read_clock 3 True 12 (pad 2 h @ 58 # pad 2 m @ 58 # pad 2 s @ 46 # pad 3 f @ [90]) []
    = Some ([h, m, s], f * 1000, True)"
  using assms by (simp add: numeral_3_eq_3 read_pad Let_def read_fraction_def is_dec_digit_def)

lemma read_time_ms:
  assumes "h < 24" "m < 60" "s < 60" "f < 1000"
  shows "read_time (pad 2 h @ 58 # pad 2 m @ 58 # pad 2 s @ 46 # pad 3 f @ [90]) = Some ((h, m, s, f * 1000), Some 0)"
proof -
  let ?p = "pad 2 h @ 58 # pad 2 m @ 58 # pad 2 s @ 46 # pad 3 f"
  have z: "zone_at (?p @ [90]) = length ?p"
    by (rule zone_at_text) (auto simp: pad_no_zone [simplified])
  have len: "length ?p = 12" using assms by (simp add: pad_facts)
  have "read_clock 3 True (int (length ?p)) (?p @ [90]) [] = Some ([h, m, s], f * 1000, True)"
    using assms unfolding len by (simp add: read_clock_ms)
  from read_time_split [OF z _ _ this] show ?thesis by (simp add: read_zone_def)
qed

lemma fromisoformat_canonical:
  assumes "0 \<le> t" "t \<le> max_instant"
  shows "fromisoformat (canonical_iso t) = Some (whole_ms t, Some 0)"
proof -
  define us where "us = nat (t mod day_us)"
  define s where "s = us div 1000000"
  define f where "f = us mod 1000000"
  obtain y m d where ymd: "year_month_day (nat (t div day_us)) = (y, m, d)" by (metis prod_cases3)
  have "us < 86400 * 1000000" by (simp add: us_def day_us_def nat_less_iff)
  then have h: "s div 3600 < 24" using clock_split(1) by (simp add: s_def)
  have f: "f < 1000000" by (simp add: f_def)
  let ?clock = "pad 2 (s div 3600) @ 58 # pad 2 (s div 60 mod 60) @ 58 # pad 2 (s mod 60) @ 46 # pad 3 (f div 1000) @ [90]"
  have iso: "canonical_iso t = pad 4 y @ 45 # pad 2 m @ 45 # pad 2 d @ 84 # ?clock"
    by (simp add: canonical_iso_def Let_def ymd flip: us_def s_def f_def) (simp add: lit_def)
  have ms: "f div 1000 * 1000 \<le> f" by simp
  have "fromisoformat (canonical_iso t) = Some (t - int (f - f div 1000 * 1000), Some 0)"
    unfolding iso f_def
    by (rule stamp_read [OF assms ymd us_def [symmetric]])
      (use h f ms in \<open>simp_all add: read_time_ms ascii_pad flip: s_def f_def\<close>)
  moreover have "int (f - f div 1000 * 1000) = t mod 1000"
  proof -
    have "f - f div 1000 * 1000 = us mod 1000"
      unfolding f_def by (simp add: minus_div_mult_eq_mod mod_mod_cancel)
    moreover have "int us mod 1000 = t mod 1000"
      by (simp add: us_def day_us_def mod_mod_cancel)
    ultimately show ?thesis by (simp add: zmod_int)
  qed
  ultimately show ?thesis by (simp add: whole_ms_def)
qed

lemma whole_ms_range: "0 \<le> t \<Longrightarrow> t \<le> max_instant \<Longrightarrow> 0 \<le> whole_ms t \<and> whole_ms t \<le> max_instant"
  using zmod_le_nonneg_dividend [of t 1000] pos_mod_sign [of 1000 t] by (simp add: whole_ms_def)

lemma parse_dt_canonical: "0 \<le> t \<Longrightarrow> t \<le> max_instant \<Longrightarrow> parse_dt (canonical_iso t) = Inr (whole_ms t)"
  using whole_ms_range by (simp add: parse_dt_def fromisoformat_canonical)

lemma canonical_iso_nonempty [simp]: "canonical_iso t \<noteq> []"
  by (simp add: canonical_iso_def Let_def lit_def split: prod.splits)

lemma canonical_iso_eq_iff:
  assumes "0 \<le> s" "s \<le> max_instant" "0 \<le> t" "t \<le> max_instant"
  shows "canonical_iso s = canonical_iso t \<Longrightarrow> whole_ms s = whole_ms t"
  using fromisoformat_canonical assms by (metis option.inject prod.inject)

lemma aware_moment_isoformat:
  assumes "0 \<le> t" "t \<le> max_instant"
  shows "aware_moment (JStr (isoformat t)) = Inr t"
proof -
  have pads: "90 \<notin> set (pad k n)" for k n
    using pad_no_zone [of k n] by (auto simp: list_all_iff)
  have "90 \<notin> set (isoformat t)"
    by (auto simp: isoformat_def Let_def pads lit_def split: prod.splits)
  moreover have "90 \<notin> set x \<Longrightarrow> replace_z x = x" for x
    by (induction x) (simp_all add: replace_z_def)
  ultimately have "replace_z (isoformat t) = isoformat t" by blast
  then show ?thesis
    using assms by (simp add: aware_moment_def fromisoformat_isoformat to_utc_def)
qed

lemma utf8_encode_ascii: "is_ascii s \<Longrightarrow> utf8_encode s = Some (map of_nat s)"
  by (simp add: utf8_encode_def ascii_no_surrogate ascii_units ascii_scalar_text)

end
