(* ===== verification/Claims.thy ===== *)
theory Claims
  imports Canonical Datetimes
begin

text \<open>
  The module \<open>models.py\<close>: verified claim sets of delegation and approval slips, with the
  dictionaries they are hashed as.
\<close>

section \<open>Claim sets\<close>

record capability =
  cap_actions :: "pystr list"
  cap_nbf :: instant
  cap_exp :: instant

record named_set_ref =
  ns_name :: pystr
  ns_content_hash :: pystr
  ns_version :: int

text \<open>
  A validated bound. Its \<open>amount_scaled\<close> is a canonical digit string, which is the same
  thing as a number (\<open>Canonical.parse_amount_iff\<close>); the window keys come as a pair; the
  two keys of \<open>applies_to\<close> may each be absent.
\<close>

record bound =
  bd_kind :: pystr
  bd_unit :: pystr
  bd_amount :: nat
  bd_window :: "(pystr \<times> int) option"
  bd_window_kind :: "pystr option"
  bd_aggregation :: "pystr option"
  bd_applies_to :: "(pystr list option \<times> pystr list option) option"

record quorum =
  q_signers :: named_set_ref
  q_threshold :: int

record delegation_claims =
  jti :: pystr
  sub :: pystr
  scope_actions :: "pystr list"
  scope_paths :: "pystr list"
  nbf :: instant
  exp_at :: instant
  scope_tools :: "pystr list"
  scope_domains :: "pystr list"
  iss :: pystr
  parent_jti :: "pystr option"
  chain_depth :: int
  max_depth :: int
  capabilities :: "capability list"
  named_set :: "named_set_ref option"
  bounds :: "bound list"
  approval_quorum :: "quorum option"
  authority_entry_hash :: "pystr option"
  ratification_hash :: "pystr option"
  aud :: "pystr list option"
  max_revocation_age_ms :: "int option"

record approval_claims =
  ap_jti :: pystr
  ap_approver :: pystr
  ap_request_fingerprint :: pystr
  ap_escalation_record_hash :: pystr
  ap_nbf :: instant
  ap_exp :: instant
  ap_display_digest :: "pystr option"
  ap_display_contract_version :: "int option"

section \<open>The dictionaries\<close>

text \<open>
  \<open>_jsonable\<close> over the field types of the claim sets; optional keys of a bound are absent
  when not stated, optional fields of the dataclass are \<open>None\<close>.
\<close>

definition strs :: "pystr list \<Rightarrow> json" where
  "strs ss = JList (map JStr ss)"

definition opt_json :: "('a \<Rightarrow> json) \<Rightarrow> 'a option \<Rightarrow> json" where
  "opt_json f v = (case v of None \<Rightarrow> JNull | Some x \<Rightarrow> f x)"

lemma opt_json_simps [simp]: "opt_json f None = JNull" "opt_json f (Some x) = f x"
  by (simp_all add: opt_json_def)

definition opt_key :: "string \<Rightarrow> ('a \<Rightarrow> json) \<Rightarrow> 'a option \<Rightarrow> (pystr, json) dict" where
  "opt_key k f v = (case v of None \<Rightarrow> [] | Some x \<Rightarrow> [(lit k, f x)])"

definition capability_json :: "capability \<Rightarrow> json" where
  "capability_json c = JObj
     [(lit ''actions'', strs (cap_actions c)), (lit ''nbf'', JStr (isoformat (cap_nbf c))),
      (lit ''exp'', JStr (isoformat (cap_exp c)))]"

definition named_set_json :: "named_set_ref \<Rightarrow> json" where
  "named_set_json n = JObj
     [(lit ''name'', JStr (ns_name n)), (lit ''content_hash'', JStr (ns_content_hash n)),
      (lit ''version'', JInt (ns_version n))]"

definition bound_json :: "bound \<Rightarrow> json" where
  "bound_json b = JObj
     ([(lit ''kind'', JStr (bd_kind b)), (lit ''unit'', JStr (bd_unit b)),
       (lit ''amount_scaled'', JStr (dec_digits (bd_amount b)))]
      @ opt_key ''window_epoch'' (\<lambda>w. JStr (fst w)) (bd_window b)
      @ opt_key ''window_duration_ms'' (\<lambda>w. JInt (snd w)) (bd_window b)
      @ opt_key ''window_kind'' JStr (bd_window_kind b)
      @ opt_key ''aggregation'' JStr (bd_aggregation b)
      @ opt_key ''applies_to''
          (\<lambda>(a, bs). JObj (opt_key ''actions'' strs a @ opt_key ''boundaries'' strs bs))
          (bd_applies_to b))"

definition quorum_json :: "quorum \<Rightarrow> json" where
  "quorum_json q = JObj
     [(lit ''signer_set_ref'', named_set_json (q_signers q)), (lit ''threshold'', JInt (q_threshold q))]"

text \<open>\<open>DelegationClaims.to_dict\<close>: all fields, then the keys that are popped.\<close>

definition claims_fields :: "delegation_claims \<Rightarrow> (pystr, json) dict" where
  "claims_fields c =
     [(lit ''jti'', JStr (jti c)), (lit ''sub'', JStr (sub c)),
      (lit ''scope_actions'', strs (scope_actions c)), (lit ''scope_paths'', strs (scope_paths c)),
      (lit ''nbf'', JStr (isoformat (nbf c))), (lit ''exp'', JStr (isoformat (exp_at c))),
      (lit ''scope_tools'', strs (scope_tools c)), (lit ''scope_domains'', strs (scope_domains c)),
      (lit ''iss'', JStr (iss c)), (lit ''parent_jti'', opt_json JStr (parent_jti c)),
      (lit ''chain_depth'', JInt (chain_depth c)), (lit ''max_depth'', JInt (max_depth c)),
      (lit ''capabilities'', JList (map capability_json (capabilities c))),
      (lit ''named_set_ref'', opt_json named_set_json (named_set c)),
      (lit ''bounds'', JList (map bound_json (bounds c))),
      (lit ''approval_quorum'', opt_json quorum_json (approval_quorum c)),
      (lit ''authority_entry_hash'', opt_json JStr (authority_entry_hash c)),
      (lit ''ratification_hash'', opt_json JStr (ratification_hash c)),
      (lit ''aud'', opt_json strs (aud c)),
      (lit ''max_revocation_age_ms'', opt_json JInt (max_revocation_age_ms c))]"

definition claims_to_dict :: "delegation_claims \<Rightarrow> (pystr, json) dict" where
  "claims_to_dict c =
     (let payload = claims_fields c;
          payload = (if authority_entry_hash c = None \<and> ratification_hash c = None
            then dict_del (lit ''ratification_hash'') (dict_del (lit ''authority_entry_hash'') payload)
            else payload);
          payload = (if aud c = None then dict_del (lit ''aud'') payload else payload)
      in if max_revocation_age_ms c = None then dict_del (lit ''max_revocation_age_ms'') payload
         else payload)"

definition approval_to_dict :: "approval_claims \<Rightarrow> (pystr, json) dict" where
  "approval_to_dict a =
     (let payload =
        [(lit ''jti'', JStr (ap_jti a)), (lit ''approver'', JStr (ap_approver a)),
         (lit ''request_fingerprint'', JStr (ap_request_fingerprint a)),
         (lit ''escalation_record_hash'', JStr (ap_escalation_record_hash a)),
         (lit ''nbf'', JStr (isoformat (ap_nbf a))), (lit ''exp'', JStr (isoformat (ap_exp a))),
         (lit ''display_digest'', opt_json JStr (ap_display_digest a)),
         (lit ''display_contract_version'', opt_json JInt (ap_display_contract_version a))];
          payload = (if ap_display_digest a = None then dict_del (lit ''display_digest'') payload else payload)
      in if ap_display_contract_version a = None
         then dict_del (lit ''display_contract_version'') payload else payload)"

end
