(* ===== verification/Attenuation_Order.thy ===== *)
theory Attenuation_Order
  imports Prelude
begin

text \<open>
  The contract between a narrowing rule and a delegation chain: narrowing is a preorder
  under which no permission is gained. Whoever walks a chain of successively narrowing
  grants relies on nothing else.
\<close>

locale attenuation =
  fixes narrows :: "'c \<Rightarrow> 'c \<Rightarrow> bool"
    and permits :: "'c \<Rightarrow> 'u \<Rightarrow> bool"
  assumes narrows_refl: "narrows c c"
    and narrows_trans: "narrows c m \<Longrightarrow> narrows m p \<Longrightarrow> narrows c p"
    and narrows_permits: "narrows c p \<Longrightarrow> permits c u \<Longrightarrow> permits p u"
begin

text \<open>A chain lists the leaf first; every grant narrows the next.\<close>

lemma leaf_narrows_all: "successively narrows (c # ps) \<Longrightarrow> p \<in> set (c # ps) \<Longrightarrow> narrows c p"
proof (induction ps arbitrary: c)
  case (Cons q ps)
  then show ?case
    using narrows_refl narrows_trans by (cases "p = c") auto
qed (simp add: narrows_refl)

lemma leaf_permits_all:
  "successively narrows (c # ps) \<Longrightarrow> permits c u \<Longrightarrow> p \<in> set ps \<Longrightarrow> permits p u"
  using leaf_narrows_all narrows_permits by (metis list.set_intros(2))

end

end
