(* ===== verification/Attenuation.thy ===== *)
theory Attenuation
  imports Claims Attenuation_Order
begin

text \<open>
  The module \<open>attenuation.py\<close>: whether a child grant narrows its parent, and on which
  axis it first does not.
\<close>

section \<open>Axes\<close>

datatype axis =
    Actions | Paths | Capabilities | Time | NamedSet | Bounds | AppliesTo | AggregateBound
  | Quorum | Tools | Domains | Lineage | Aud | RevocationAge | MaxDepth

definition axes :: "axis list" where
  "axes = [Actions, Paths, Capabilities, Time, NamedSet, Bounds, AppliesTo, AggregateBound,
     Quorum, Tools, Domains, Lineage, Aud, RevocationAge, MaxDepth]"

section \<open>Grant windows\<close>

definition grant_windows :: "delegation_claims \<Rightarrow> pystr \<Rightarrow> (instant \<times> instant) list" where
  "grant_windows c action =
     (if capabilities c = [] then
        (if action \<in> set (scope_actions c) then [(nbf c, exp_at c)] else [])
      else map (\<lambda>cap. (cap_nbf cap, cap_exp cap))
        (filter (\<lambda>cap. action \<in> set (cap_actions cap)) (capabilities c)))"

definition holds_right :: "delegation_claims \<Rightarrow> pystr \<Rightarrow> instant \<Rightarrow> bool" where
  "holds_right c action at =
     (if capabilities c = [] then action \<in> set (scope_actions c)
      else list_ex (\<lambda>(b, e). b \<le> at \<and> at \<le> e) (grant_windows c action))"

section \<open>Paths\<close>

text \<open>
  \<open>os.path.normpath\<close>: empty and \<open>.\<close> components go, \<open>..\<close> removes the component before
  it unless there is none to remove; two leading slashes stay two, more become one.
\<close>

fun split_slash :: "pystr \<Rightarrow> pystr list" where
  "split_slash [] = [[]]"
| "split_slash (c # s) =
     (case split_slash s of
        [] \<Rightarrow> [[c]]
      | p # ps \<Rightarrow> if c = 47 then [] # p # ps else (c # p) # ps)"

definition norm_step :: "bool \<Rightarrow> pystr \<Rightarrow> pystr list \<Rightarrow> pystr list" where
  "norm_step rooted part rev_comps =
     (if part = [] \<or> part = lit ''.'' then rev_comps
      else if part \<noteq> lit ''..'' \<or> (\<not> rooted \<and> rev_comps = [])
        \<or> (rev_comps \<noteq> [] \<and> hd rev_comps = lit ''..'') then part # rev_comps
      else tl rev_comps)"

definition leading_slashes :: "pystr \<Rightarrow> nat" where
  "leading_slashes s =
     (if \<not> starts_with s [47] then 0
      else if starts_with s [47, 47] \<and> \<not> starts_with s [47, 47, 47] then 2 else 1)"

definition normpath :: "pystr \<Rightarrow> pystr" where
  "normpath s =
     (let n = leading_slashes s;
          comps = rev (fold (norm_step (n > 0)) (split_slash s) []);
          p = replicate n 47 @ join_with [47] comps
      in if s = [] \<or> p = [] then lit ''.'' else p)"

definition path_covers :: "pystr \<Rightarrow> pystr \<Rightarrow> bool" where
  "path_covers parent child \<longleftrightarrow> child = parent \<or> starts_with child (parent @ [47])"

section \<open>Bounds\<close>

text \<open>The dictionary by kind of the per-grant bounds: a later bound replaces an earlier one.\<close>

definition bounds_by_kind :: "delegation_claims \<Rightarrow> (pystr, bound) dict" where
  "bounds_by_kind c =
     fold (\<lambda>b d. dict_set (bd_kind b) b d) (filter (\<lambda>b. bd_aggregation b = None) (bounds c)) []"

definition side_widens :: "pystr list option \<Rightarrow> pystr list option \<Rightarrow> bool" where
  "side_widens parent_side child_side =
     (case parent_side of
        None \<Rightarrow> child_side \<noteq> None
      | Some ps \<Rightarrow> (case child_side of None \<Rightarrow> False | Some cs \<Rightarrow> \<not> set ps \<subseteq> set cs))"

definition sides :: "bound \<Rightarrow> pystr list option \<times> pystr list option" where
  "sides b = (case bd_applies_to b of None \<Rightarrow> (None, None) | Some s \<Rightarrow> s)"

text \<open>The body of the loop over the parent's bounds.\<close>

definition bound_widens :: "bound option \<Rightarrow> bound \<Rightarrow> axis option" where
  "bound_widens child_bound parent_bound =
     (case child_bound of
        None \<Rightarrow> Some Bounds
      | Some cb \<Rightarrow>
          if bd_unit cb \<noteq> bd_unit parent_bound then Some Bounds
          else if bd_amount cb > bd_amount parent_bound then Some Bounds
          else if bd_window parent_bound \<noteq> None
            \<and> (bd_window cb \<noteq> bd_window parent_bound \<or> bd_window_kind cb \<noteq> bd_window_kind parent_bound)
          then Some Bounds
          else if side_widens (fst (sides parent_bound)) (fst (sides cb)) then Some AppliesTo
          else if side_widens (snd (sides parent_bound)) (snd (sides cb)) then Some AppliesTo
          else None)"

fun bounds_widen :: "(pystr, bound) dict \<Rightarrow> (pystr, bound) dict \<Rightarrow> axis option" where
  "bounds_widen child_bounds [] = None"
| "bounds_widen child_bounds ((kind, parent_bound) # ps) =
     (case bound_widens (map_of child_bounds kind) parent_bound of
        Some a \<Rightarrow> Some a
      | None \<Rightarrow> bounds_widen child_bounds ps)"

definition aggregate_key :: "bound \<Rightarrow> pystr list" where
  "aggregate_key b = [case bd_aggregation b of None \<Rightarrow> [] | Some a \<Rightarrow> a, bd_kind b]"

definition aggregate_bounds :: "delegation_claims \<Rightarrow> bound list" where
  "aggregate_bounds c = sort_key aggregate_key (filter (\<lambda>b. bd_aggregation b \<noteq> None) (bounds c))"

section \<open>The rule\<close>

definition uncovered_path :: "delegation_claims \<Rightarrow> delegation_claims \<Rightarrow> bool" where
  "uncovered_path child parent \<longleftrightarrow>
     list_ex (\<lambda>p. \<not> list_ex (\<lambda>pp. path_covers (normpath pp) (normpath p)) (scope_paths parent))
       (scope_paths child)"

definition uncovered_window :: "delegation_claims \<Rightarrow> delegation_claims \<Rightarrow> bool" where
  "uncovered_window child parent \<longleftrightarrow>
     list_ex (\<lambda>action. list_ex (\<lambda>(cb, ce).
         \<not> list_ex (\<lambda>(pb, pe). pb \<le> cb \<and> ce \<le> pe) (grant_windows parent action))
       (grant_windows child action)) (scope_actions child)"

definition named_set_widens :: "delegation_claims \<Rightarrow> delegation_claims \<Rightarrow> bool" where
  "named_set_widens child parent \<longleftrightarrow>
     (case named_set parent of
        None \<Rightarrow> False
      | Some p \<Rightarrow>
          (case named_set child of None \<Rightarrow> True | Some c \<Rightarrow> ns_content_hash c \<noteq> ns_content_hash p))"

definition quorum_widens :: "delegation_claims \<Rightarrow> delegation_claims \<Rightarrow> bool" where
  "quorum_widens child parent \<longleftrightarrow>
     (case approval_quorum parent of
        None \<Rightarrow> False
      | Some p \<Rightarrow>
          (case approval_quorum child of
             None \<Rightarrow> True
           | Some c \<Rightarrow> ns_content_hash (q_signers c) \<noteq> ns_content_hash (q_signers p)
               \<or> q_threshold c < q_threshold p))"

definition tools_subset :: "delegation_claims \<Rightarrow> delegation_claims \<Rightarrow> bool" where
  "tools_subset child parent \<longleftrightarrow>
     (if scope_tools parent \<noteq> [] then
        scope_tools child \<noteq> [] \<and> set (scope_tools child) \<subseteq> set (scope_tools parent)
      else True)"

definition lineage :: "delegation_claims \<Rightarrow> pystr option \<times> pystr option" where
  "lineage c = (authority_entry_hash c, ratification_hash c)"

definition aud_widens :: "delegation_claims \<Rightarrow> delegation_claims \<Rightarrow> bool" where
  "aud_widens child parent \<longleftrightarrow>
     (case aud parent of
        None \<Rightarrow> False
      | Some p \<Rightarrow> (case aud child of None \<Rightarrow> True | Some c \<Rightarrow> \<not> set c \<subseteq> set p))"

definition revocation_age_widens :: "delegation_claims \<Rightarrow> delegation_claims \<Rightarrow> bool" where
  "revocation_age_widens child parent \<longleftrightarrow>
     (case max_revocation_age_ms parent of
        None \<Rightarrow> False
      | Some p \<Rightarrow> (case max_revocation_age_ms child of None \<Rightarrow> True | Some c \<Rightarrow> c > p))"

text \<open>\<open>_scope_widening_axis\<close>: the first axis on which the child widens its parent.\<close>

definition scope_widening_axis :: "delegation_claims \<Rightarrow> delegation_claims \<Rightarrow> axis option" where
  "scope_widening_axis child parent =
     (if \<not> set (scope_actions child) \<subseteq> set (scope_actions parent) then Some Actions
      else if uncovered_path child parent then Some Paths
      else if uncovered_window child parent
        then Some (if capabilities parent \<noteq> [] then Capabilities else Time)
      else if named_set_widens child parent then Some NamedSet
      else case bounds_widen (bounds_by_kind child) (bounds_by_kind parent) of
        Some a \<Rightarrow> Some a
      | None \<Rightarrow>
          if aggregate_bounds child \<noteq> aggregate_bounds parent then Some AggregateBound
          else if quorum_widens child parent then Some Quorum
          else if \<not> tools_subset child parent then Some Tools
          else if \<not> set (scope_domains child) \<subseteq> set (scope_domains parent) then Some Domains
          else if lineage parent \<noteq> (None, None) \<and> lineage child \<noteq> lineage parent then Some Lineage
          else if aud_widens child parent then Some Aud
          else if revocation_age_widens child parent then Some RevocationAge
          else if max_depth child > max_depth parent then Some MaxDepth
          else None)"

definition is_scope_subset :: "delegation_claims \<Rightarrow> delegation_claims \<Rightarrow> bool" where
  "is_scope_subset child parent \<longleftrightarrow> scope_widening_axis child parent = None"

section \<open>The identity of the rule\<close>

text \<open>
  The hash of the rule's source. Where the source is present its computed hash must equal the
  literal, or the module does not load (\<open>None\<close>); where it is not, the literal answers.
\<close>

definition rule_hash_literal :: pystr where
  "rule_hash_literal = lit ''e17a3c76cc01c883880db9bb44ff09b01795a3532620b29ea1ec0583c73b19f5''"

definition resolve_rule_hash :: "pystr option \<Rightarrow> pystr option" where
  "resolve_rule_hash computed =
     (case computed of None \<Rightarrow> Some rule_hash_literal
      | Some c \<Rightarrow> if c \<noteq> rule_hash_literal then None else Some c)"

text \<open>A module that loaded returns the literal.\<close>

definition attenuation_rule_hash :: pystr where
  "attenuation_rule_hash = rule_hash_literal"

lemma resolve_rule_hash_Some: "resolve_rule_hash computed = Some h \<Longrightarrow> h = attenuation_rule_hash"
  by (auto simp: resolve_rule_hash_def attenuation_rule_hash_def split: option.splits if_splits)

section \<open>Each axis is a preorder\<close>

text \<open>What a pass of the bounds loop means.\<close>

lemma bounds_widen_None:
  "bounds_widen cbs pbs = None \<longleftrightarrow> (\<forall>(k, pb) \<in> set pbs. bound_widens (map_of cbs k) pb = None)"
  by (induction cbs pbs rule: bounds_widen.induct) (auto split: option.splits)

lemma dict_ok_fold_set: "dict_ok d \<Longrightarrow> dict_ok (fold (\<lambda>b. dict_set (f b) b) bs d)"
  by (induction bs arbitrary: d) auto

lemma dict_ok_by_kind: "dict_ok (bounds_by_kind c)"
  unfolding bounds_by_kind_def by (rule dict_ok_fold_set) simp

lemma bounds_widen_map: "bounds_widen (bounds_by_kind c) (bounds_by_kind p) = None \<longleftrightarrow>
    (\<forall>k pb. map_of (bounds_by_kind p) k = Some pb \<longrightarrow> bound_widens (map_of (bounds_by_kind c) k) pb = None)"
  unfolding bounds_widen_None using dict_ok_in_set [OF dict_ok_by_kind, of _ _ p] by fastforce

lemma side_refl [simp]: "\<not> side_widens s s"
  by (cases s) (auto simp: side_widens_def)

lemma side_trans: "\<not> side_widens b c \<Longrightarrow> \<not> side_widens a b \<Longrightarrow> \<not> side_widens a c"
  by (auto simp: side_widens_def split: option.splits)

lemma bound_widens_None: "bound_widens cb pb = None \<longleftrightarrow>
    (\<exists>b. cb = Some b \<and> bd_unit b = bd_unit pb \<and> bd_amount b \<le> bd_amount pb
      \<and> (bd_window pb \<noteq> None \<longrightarrow> bd_window b = bd_window pb \<and> bd_window_kind b = bd_window_kind pb)
      \<and> \<not> side_widens (fst (sides pb)) (fst (sides b)) \<and> \<not> side_widens (snd (sides pb)) (snd (sides b)))"
  by (auto simp: bound_widens_def split: option.splits)

lemma bound_refl [simp]: "bound_widens (Some b) b = None"
  by (simp add: bound_widens_None)

lemma bound_trans:
  assumes "bound_widens (Some m) p = None" "bound_widens c m = None"
  shows "bound_widens c p = None"
proof -
  obtain b where b: "c = Some b" "bd_unit b = bd_unit m" "bd_amount b \<le> bd_amount m"
      "bd_window m \<noteq> None \<longrightarrow> bd_window b = bd_window m \<and> bd_window_kind b = bd_window_kind m"
      "\<not> side_widens (fst (sides m)) (fst (sides b))" "\<not> side_widens (snd (sides m)) (snd (sides b))"
    using assms(2) unfolding bound_widens_None by blast
  have m: "bd_unit m = bd_unit p" "bd_amount m \<le> bd_amount p"
      "bd_window p \<noteq> None \<longrightarrow> bd_window m = bd_window p \<and> bd_window_kind m = bd_window_kind p"
      "\<not> side_widens (fst (sides p)) (fst (sides m))" "\<not> side_widens (snd (sides p)) (snd (sides m))"
    using assms(1) unfolding bound_widens_None by auto
  have "bd_window p \<noteq> None \<longrightarrow> bd_window b = bd_window p \<and> bd_window_kind b = bd_window_kind p"
    using b(4) m(3) by (cases "bd_window p = None") simp_all
  then show ?thesis
    unfolding bound_widens_None
    using b(1-3) m(1,2) side_trans [OF b(5) m(4)] side_trans [OF b(6) m(5)]
    by (intro exI [of _ b]) simp
qed

lemma bounds_trans:
  assumes "bounds_widen (bounds_by_kind c) (bounds_by_kind m) = None"
    and "bounds_widen (bounds_by_kind m) (bounds_by_kind p) = None"
  shows "bounds_widen (bounds_by_kind c) (bounds_by_kind p) = None"
  unfolding bounds_widen_map
proof (intro allI impI)
  fix k pb
  assume k: "map_of (bounds_by_kind p) k = Some pb"
  then obtain mb where "map_of (bounds_by_kind m) k = Some mb" "bound_widens (Some mb) pb = None"
    using assms(2) unfolding bounds_widen_map by (metis bound_widens_None)
  with assms(1) show "bound_widens (map_of (bounds_by_kind c) k) pb = None"
    unfolding bounds_widen_map by (blast intro: bound_trans)
qed

lemma covers_trans: "path_covers a b \<Longrightarrow> path_covers b c \<Longrightarrow> path_covers a c"
  by (auto simp: path_covers_def starts_with_iff)

text \<open>The rule as a conjunction of its axes.\<close>

definition inside :: "instant \<times> instant \<Rightarrow> instant \<times> instant \<Rightarrow> bool" where
  "inside w w' \<longleftrightarrow> fst w' \<le> fst w \<and> snd w \<le> snd w'"

definition windows_within :: "(instant \<times> instant) list \<Rightarrow> (instant \<times> instant) list \<Rightarrow> bool" where
  "windows_within cs ps \<longleftrightarrow> (\<forall>w \<in> set cs. \<exists>w' \<in> set ps. inside w w')"

lemma inside_trans: "inside a b \<Longrightarrow> inside b c \<Longrightarrow> inside a c"
  by (auto simp: inside_def)

lemma windows_trans: "windows_within cs ms \<Longrightarrow> windows_within ms ps \<Longrightarrow> windows_within cs ps"
  unfolding windows_within_def by (meson inside_trans)

lemma windows_refl [simp]: "windows_within ws ws"
  by (auto simp: windows_within_def inside_def)

lemma uncovered_window_iff: "\<not> uncovered_window c p \<longleftrightarrow>
    (\<forall>a \<in> set (scope_actions c). windows_within (grant_windows c a) (grant_windows p a))"
  unfolding uncovered_window_def list_ex_iff windows_within_def inside_def case_prod_unfold by blast

lemma uncovered_path_iff: "\<not> uncovered_path c p \<longleftrightarrow>
    (\<forall>x \<in> set (scope_paths c). \<exists>y \<in> set (scope_paths p). path_covers (normpath y) (normpath x))"
  by (auto simp: uncovered_path_def list_ex_iff)

lemma first_None: "(if b then Some x else y) = None \<longleftrightarrow> \<not> b \<and> y = None"
  by simp

lemma narrows_iff: "scope_widening_axis c p = None \<longleftrightarrow>
    set (scope_actions c) \<subseteq> set (scope_actions p) \<and> \<not> uncovered_path c p \<and> \<not> uncovered_window c p
    \<and> \<not> named_set_widens c p \<and> bounds_widen (bounds_by_kind c) (bounds_by_kind p) = None
    \<and> aggregate_bounds c = aggregate_bounds p \<and> \<not> quorum_widens c p \<and> tools_subset c p
    \<and> set (scope_domains c) \<subseteq> set (scope_domains p)
    \<and> (lineage p \<noteq> (None, None) \<longrightarrow> lineage c = lineage p) \<and> \<not> aud_widens c p
    \<and> \<not> revocation_age_widens c p \<and> max_depth c \<le> max_depth p"
  unfolding scope_widening_axis_def
  by (cases "bounds_widen (bounds_by_kind c) (bounds_by_kind p)") (auto simp only: first_None not_le
      option.case option.distinct not_not de_Morgan_conj simp_thms not_less)

lemmas axis_defs = named_set_widens_def quorum_widens_def tools_subset_def aud_widens_def
  revocation_age_widens_def

lemma axes_refl [simp]:
  "\<not> named_set_widens c c" "\<not> quorum_widens c c" "tools_subset c c" "\<not> aud_widens c c"
  "\<not> revocation_age_widens c c"
  by (simp_all add: axis_defs split: option.splits)

lemma named_set_trans: "\<not> named_set_widens c m \<Longrightarrow> \<not> named_set_widens m p \<Longrightarrow> \<not> named_set_widens c p"
  by (auto simp: named_set_widens_def split: option.splits)

lemma quorum_trans: "\<not> quorum_widens c m \<Longrightarrow> \<not> quorum_widens m p \<Longrightarrow> \<not> quorum_widens c p"
  by (auto simp: quorum_widens_def split: option.splits)

lemma tools_trans: "tools_subset c m \<Longrightarrow> tools_subset m p \<Longrightarrow> tools_subset c p"
  by (auto simp: tools_subset_def split: if_splits)

lemma aud_trans: "\<not> aud_widens c m \<Longrightarrow> \<not> aud_widens m p \<Longrightarrow> \<not> aud_widens c p"
  by (auto simp: aud_widens_def split: option.splits)

lemma age_trans:
  "\<not> revocation_age_widens c m \<Longrightarrow> \<not> revocation_age_widens m p \<Longrightarrow> \<not> revocation_age_widens c p"
  by (auto simp: revocation_age_widens_def split: option.splits)

lemmas axes_trans = named_set_trans quorum_trans tools_trans aud_trans age_trans bounds_trans

lemma narrows_refl: "scope_widening_axis c c = None"
proof -
  have "\<not> uncovered_path c c" unfolding uncovered_path_iff by (auto simp: path_covers_def)
  moreover have "bounds_widen (bounds_by_kind c) (bounds_by_kind c) = None"
    by (simp add: bounds_widen_map)
  ultimately show ?thesis
    unfolding narrows_iff by (simp add: uncovered_window_iff)
qed

lemma narrows_trans:
  assumes "scope_widening_axis c m = None" "scope_widening_axis m p = None"
  shows "scope_widening_axis c p = None"
proof -
  note cm = assms(1) [unfolded narrows_iff] and mp = assms(2) [unfolded narrows_iff]
  have "\<not> uncovered_path c p"
    using cm mp unfolding uncovered_path_iff by (meson covers_trans)
  moreover have "\<not> uncovered_window c p"
    using cm mp unfolding uncovered_window_iff by (meson subsetD windows_trans)
  moreover have "set (scope_actions c) \<subseteq> set (scope_actions p)" "set (scope_domains c) \<subseteq> set (scope_domains p)"
      "max_depth c \<le> max_depth p"
    using cm mp by (blast, blast, linarith)
  moreover have "lineage p \<noteq> (None, None) \<longrightarrow> lineage c = lineage p" "aggregate_bounds c = aggregate_bounds p"
    using cm mp by metis+
  moreover have "\<not> named_set_widens c p" by (rule named_set_trans [of c m]) (use cm mp in blast)+
  moreover have "\<not> quorum_widens c p" by (rule quorum_trans [of c m]) (use cm mp in blast)+
  moreover have "tools_subset c p" by (rule tools_trans [of c m]) (use cm mp in blast)+
  moreover have "\<not> aud_widens c p" by (rule aud_trans [of c m]) (use cm mp in blast)+
  moreover have "\<not> revocation_age_widens c p" by (rule age_trans [of c m]) (use cm mp in blast)+
  moreover have "bounds_widen (bounds_by_kind c) (bounds_by_kind p) = None"
    by (rule bounds_trans [of c m]) (use cm mp in blast)+
  ultimately show ?thesis
    unfolding narrows_iff by blast
qed

section \<open>What a grant permits\<close>

text \<open>
  The meaning the comments of the rule give to a grant, axis by axis: a use of an action at
  an instant on a path, with a tool, in a domain, at an enforcement point, with a revocation
  answer of some age, for a counterparty set, under some number of approvals by a signer
  set, at a boundary, moving an amount of each kind in a unit. An absent constraint
  restricts nothing.
\<close>

record grant_use =
  u_action :: pystr
  u_at :: instant
  u_path :: pystr
  u_tool :: pystr
  u_domain :: pystr
  u_point :: pystr
  u_answer_age :: int
  u_set_hash :: pystr
  u_signer_hash :: pystr
  u_approvals :: int
  u_boundary :: pystr
  u_amounts :: "pystr \<Rightarrow> (pystr \<times> nat) option"

definition bound_reaches :: "bound \<Rightarrow> grant_use \<Rightarrow> bool" where
  "bound_reaches b u \<longleftrightarrow>
     (\<forall>as. fst (sides b) = Some as \<longrightarrow> u_action u \<in> set as)
     \<and> (\<forall>bs. snd (sides b) = Some bs \<longrightarrow> u_boundary u \<in> set bs)"

definition within_bound :: "bound \<Rightarrow> grant_use \<Rightarrow> bool" where
  "within_bound b u \<longleftrightarrow> bound_reaches b u \<longrightarrow>
     (\<exists>n \<le> bd_amount b. u_amounts u (bd_kind b) = Some (bd_unit b, n))"

definition permits :: "delegation_claims \<Rightarrow> grant_use \<Rightarrow> bool" where
  "permits c u \<longleftrightarrow>
     u_action u \<in> set (scope_actions c)
     \<and> (\<exists>(b, e) \<in> set (grant_windows c (u_action u)). b \<le> u_at u \<and> u_at u \<le> e)
     \<and> (\<exists>p \<in> set (scope_paths c). path_covers (normpath p) (normpath (u_path u)))
     \<and> (scope_tools c \<noteq> [] \<longrightarrow> u_tool u \<in> set (scope_tools c))
     \<and> u_domain u \<in> set (scope_domains c)
     \<and> (\<forall>a. aud c = Some a \<longrightarrow> u_point u \<in> set a)
     \<and> (\<forall>m. max_revocation_age_ms c = Some m \<longrightarrow> u_answer_age u \<le> m)
     \<and> (\<forall>n. named_set c = Some n \<longrightarrow> u_set_hash u = ns_content_hash n)
     \<and> (\<forall>q. approval_quorum c = Some q \<longrightarrow>
          u_signer_hash u = ns_content_hash (q_signers q) \<and> q_threshold q \<le> u_approvals u)
     \<and> (\<forall>k b. map_of (bounds_by_kind c) k = Some b \<longrightarrow> within_bound b u)
     \<and> (\<forall>b \<in> set (aggregate_bounds c). within_bound b u)"

definition keyed_by_kind :: "(pystr, bound) dict \<Rightarrow> bool" where
  "keyed_by_kind d \<longleftrightarrow> (\<forall>k b. map_of d k = Some b \<longrightarrow> bd_kind b = k)"

lemma keyed_fold: "keyed_by_kind d \<Longrightarrow> keyed_by_kind (fold (\<lambda>b. dict_set (bd_kind b) b) bs d)"
proof (induction bs arbitrary: d)
  case (Cons a bs)
  have "keyed_by_kind (dict_set (bd_kind a) a d)"
    using Cons.prems by (simp add: keyed_by_kind_def)
  then show ?case using Cons.IH by simp
qed simp

lemma bounds_by_kind_keys: "map_of (bounds_by_kind c) k = Some b \<Longrightarrow> bd_kind b = k"
proof -
  have "keyed_by_kind (bounds_by_kind c)"
    unfolding bounds_by_kind_def by (rule keyed_fold) (simp add: keyed_by_kind_def)
  then show "map_of (bounds_by_kind c) k = Some b \<Longrightarrow> bd_kind b = k"
    unfolding keyed_by_kind_def by blast
qed

lemma side_covers: "\<not> side_widens ps cs \<Longrightarrow> (\<forall>xs. ps = Some xs \<longrightarrow> x \<in> set xs) \<Longrightarrow>
    cs = Some ys \<Longrightarrow> x \<in> set ys"
  by (auto simp: side_widens_def split: option.splits)

lemma within_bound_mono:
  assumes "bound_widens (Some cb) pb = None" "bd_kind cb = bd_kind pb" "within_bound cb u"
  shows "within_bound pb u"
proof -
  have "bound_reaches pb u \<Longrightarrow> bound_reaches cb u"
    using assms(1) side_covers unfolding bound_reaches_def bound_widens_None by blast
  with assms show ?thesis
    unfolding within_bound_def bound_widens_None by fastforce
qed

lemma bounds_permit:
  assumes "bounds_widen (bounds_by_kind c) (bounds_by_kind p) = None"
    and "\<forall>k b. map_of (bounds_by_kind c) k = Some b \<longrightarrow> within_bound b u"
    and k: "map_of (bounds_by_kind p) k = Some pb"
  shows "within_bound pb u"
proof -
  obtain cb where cb: "map_of (bounds_by_kind c) k = Some cb" "bound_widens (Some cb) pb = None"
    using assms(1) k unfolding bounds_widen_map by (metis bound_widens_None)
  then show ?thesis
    using within_bound_mono [of cb pb u] assms(2) k bounds_by_kind_keys by metis
qed

lemma windows_permit:
  assumes "windows_within cs ps" "\<exists>(b, e) \<in> set cs. b \<le> t \<and> t \<le> e"
  shows "\<exists>(b, e) \<in> set ps. b \<le> t \<and> t \<le> e"
proof -
  from assms(2) obtain w where w: "w \<in> set cs" "fst w \<le> t" "t \<le> snd w" by auto
  then obtain w' where "w' \<in> set ps" "fst w' \<le> fst w" "snd w \<le> snd w'"
    using assms(1) unfolding windows_within_def inside_def by blast
  with w show ?thesis by (intro bexI [of _ w']) (auto simp: case_prod_unfold)
qed

lemma tools_permit: "tools_subset c p \<Longrightarrow> (scope_tools c \<noteq> [] \<longrightarrow> t \<in> set (scope_tools c)) \<Longrightarrow>
    scope_tools p \<noteq> [] \<Longrightarrow> t \<in> set (scope_tools p)"
  by (auto simp: tools_subset_def)

lemma narrows_permits:
  assumes "scope_widening_axis c p = None" "permits c u"
  shows "permits p u"
proof -
  note n = assms(1) [unfolded narrows_iff] and c = assms(2) [unfolded permits_def]
  have "u_action u \<in> set (scope_actions p)" "u_domain u \<in> set (scope_domains p)"
    using n c by blast+
  moreover have "\<exists>(b, e) \<in> set (grant_windows p (u_action u)). b \<le> u_at u \<and> u_at u \<le> e"
    by (rule windows_permit [of "grant_windows c (u_action u)"])
       (use n c in \<open>auto simp: uncovered_window_iff\<close>)
  moreover have "\<exists>q \<in> set (scope_paths p). path_covers (normpath q) (normpath (u_path u))"
    using n c unfolding uncovered_path_iff
    by (meson covers_trans)
  moreover have "scope_tools p \<noteq> [] \<longrightarrow> u_tool u \<in> set (scope_tools p)"
    using n c tools_permit by blast
  moreover have "\<forall>a. aud p = Some a \<longrightarrow> u_point u \<in> set a"
    "\<forall>m. max_revocation_age_ms p = Some m \<longrightarrow> u_answer_age u \<le> m"
    "\<forall>s. named_set p = Some s \<longrightarrow> u_set_hash u = ns_content_hash s"
    "\<forall>q. approval_quorum p = Some q \<longrightarrow>
       u_signer_hash u = ns_content_hash (q_signers q) \<and> q_threshold q \<le> u_approvals u"
    using n c by (auto simp: axis_defs split: option.splits)
  moreover have "\<forall>k b. map_of (bounds_by_kind p) k = Some b \<longrightarrow> within_bound b u"
    using n c bounds_permit by blast
  moreover have "\<forall>b \<in> set (aggregate_bounds p). within_bound b u"
    using n c by simp
  ultimately show ?thesis
    unfolding permits_def by blast
qed

interpretation scope: attenuation is_scope_subset permits
  unfolding is_scope_subset_def
  by unfold_locales (fact narrows_refl, fact narrows_trans, fact narrows_permits)

section \<open>Properties\<close>

text \<open>C40: The attenuation rule is a preorder.\<close>

theorem narrowing_preorder:
  "reflp is_scope_subset \<and> transp is_scope_subset"
  by (auto simp: reflp_def transp_def intro: scope.narrows_refl scope.narrows_trans)

text \<open>C40: A grant that narrows another permits nothing the other does not.\<close>

theorem narrowing_permits_less:
  "is_scope_subset c p \<Longrightarrow> permits c u \<Longrightarrow> permits p u"
  by (rule scope.narrows_permits)

text \<open>A root grant with one bound, a leaf that narrows it, and a use of both.\<close>

definition demo_root :: delegation_claims where
  "demo_root =
     \<lparr>jti = lit ''r'', sub = lit ''agent'', scope_actions = [lit ''read'', lit ''delegate''],
      scope_paths = [lit ''/a''], nbf = 0, exp_at = 100, scope_tools = [], scope_domains = [lit ''d''],
      iss = [], parent_jti = None, chain_depth = 0, max_depth = 2, capabilities = [], named_set = None,
      bounds = [\<lparr>bd_kind = lit ''k'', bd_unit = lit ''u'', bd_amount = 9, bd_window = None,
        bd_window_kind = None, bd_aggregation = None, bd_applies_to = None\<rparr>],
      approval_quorum = None, authority_entry_hash = None, ratification_hash = None,
      aud = None, max_revocation_age_ms = None\<rparr>"

definition demo_leaf :: delegation_claims where
  "demo_leaf = demo_root
     \<lparr>jti := lit ''l'', scope_actions := [lit ''read''], scope_paths := [lit ''/a/./b''], nbf := 10,
      parent_jti := Some (lit ''r''), chain_depth := 1,
      bounds := map (bd_amount_update (\<lambda>_. 5)) (bounds demo_root), aud := Some [lit ''p'']\<rparr>"

definition demo_use :: grant_use where
  "demo_use =
     \<lparr>u_action = lit ''read'', u_at = 50, u_path = lit ''/a/b/c'', u_tool = [], u_domain = lit ''d'',
      u_point = lit ''p'', u_answer_age = 0, u_set_hash = [], u_signer_hash = [], u_approvals = 0,
      u_boundary = [], u_amounts = (\<lambda>k. Some (lit ''u'', 3))\<rparr>"

lemma demo_narrows: "scope_widening_axis demo_leaf demo_root = None"
  by code_simp

lemma demo_permits: "permits demo_leaf demo_use"
proof -
  have "grant_windows demo_leaf (lit ''read'') = [(10, 100)]" by code_simp
  moreover have "path_covers (normpath (lit ''/a/./b'')) (normpath (lit ''/a/b/c''))" by code_simp
  moreover have "bounds_by_kind demo_leaf = [(lit ''k'', hd (bounds demo_leaf))]" by code_simp
  moreover have "aggregate_bounds demo_leaf = []" by code_simp
  ultimately show ?thesis
    by (simp add: permits_def demo_leaf_def demo_root_def demo_use_def within_bound_def)
qed

theorem narrowing_permits_less_witness:
  "is_scope_subset demo_leaf demo_root \<and> permits demo_leaf demo_use \<and> permits demo_root demo_use"
  using narrowing_permits_less [of demo_leaf demo_root demo_use] demo_narrows demo_permits
  by (simp add: is_scope_subset_def)

end
