(* ===== verification/Claim_Shapes.thy ===== *)
theory Claim_Shapes
  imports Attenuation
begin

text \<open>
  The module \<open>claim_shapes.py\<close>: from the JSON object of a signed slip to the claim set it
  states, or the exception that refuses it. A claim set comes from JSON here; the branch of
  \<open>_claim_dt\<close> for values that already are \<open>datetime\<close> objects serves callers that build
  claims in Python and has no JSON value.
\<close>

section \<open>Strings and lists of strings\<close>

definition privilege_tiers :: "pystr list" where
  "privilege_tiers = [lit ''safe'', lit ''privileged'', lit ''destructive'', lit ''unknown'']"

definition required_str :: "(pystr, json) dict \<Rightarrow> pystr \<Rightarrow> exc + pystr" where
  "required_str d k =
     bnd (expect ValueError (as_str (get d k))) (\<lambda>s. ensure (s \<noteq> []) ValueError (Inr s))"

definition str_list :: "json \<Rightarrow> exc + pystr list" where
  "str_list v =
     bnd (expect ValueError (as_list v)) (\<lambda>vs. expect ValueError (those (map as_str vs)))"

definition required_str_list :: "(pystr, json) dict \<Rightarrow> pystr \<Rightarrow> exc + pystr list" where
  "required_str_list d k = str_list (get d k)"

definition optional_str_list :: "(pystr, json) dict \<Rightarrow> pystr \<Rightarrow> exc + pystr list" where
  "optional_str_list d k = (if get d k = JNull then Inr [] else str_list (get d k))"

text \<open>The loop that strips each item and refuses an empty or a repeated one.\<close>

fun strip_unique :: "pystr list \<Rightarrow> json list \<Rightarrow> exc + pystr list" where
  "strip_unique cleaned [] = Inr cleaned"
| "strip_unique cleaned (item # items) =
     bnd (expect ValueError (as_str item)) (\<lambda>s.
     ensure (strip s \<noteq> []) ValueError
     (ensure (strip s \<notin> set cleaned) ValueError (strip_unique (cleaned @ [strip s]) items)))"

definition nonempty_strip_list :: "json \<Rightarrow> exc + pystr list" where
  "nonempty_strip_list v =
     bnd (expect ValueError (as_list v)) (\<lambda>vs. ensure (vs \<noteq> []) ValueError (strip_unique [] vs))"

definition required_nonempty_str_list :: "(pystr, json) dict \<Rightarrow> pystr \<Rightarrow> exc + pystr list" where
  "required_nonempty_str_list d k = nonempty_strip_list (get d k)"

section \<open>Lineage, staleness and audience\<close>

definition "k_entry_hash = lit ''authority_entry_hash''"
definition "k_ratification_hash = lit ''ratification_hash''"

definition validate_lineage :: "(pystr, json) dict \<Rightarrow> exc + pystr option \<times> pystr option" where
  "validate_lineage d =
     (if \<not> has_key d k_entry_hash \<and> \<not> has_key d k_ratification_hash then Inr (None, None)
      else if \<not> (has_key d k_entry_hash \<and> has_key d k_ratification_hash) then Inl ValueError
      else
        bnd (expect ValueError (as_str (get d k_entry_hash))) (\<lambda>e.
        ensure (hex64 e) ValueError
        (bnd (expect ValueError (as_str (get d k_ratification_hash))) (\<lambda>r.
         ensure (hex64 r) ValueError (Inr (Some e, Some r))))))"

definition validate_max_revocation_age :: "json \<Rightarrow> exc + int option" where
  "validate_max_revocation_age v =
     (if v = JNull then Inr None
      else bnd (expect ValueError (as_int v)) (\<lambda>n. ensure (0 < n) ValueError (Inr (Some n))))"

definition hex16 :: "pystr \<Rightarrow> bool" where
  "hex16 s \<longleftrightarrow> length s = 16 \<and> list_all is_lower_hex s"

definition validate_audience :: "json \<Rightarrow> exc + pystr list option" where
  "validate_audience v =
     (if v = JNull then Inr None
      else bnd (str_list v) (\<lambda>items.
        ensure (items \<noteq> [] \<and> [] \<notin> set items) ValueError
        (ensure (list_all hex16 items \<and> distinct items) ValueError (Inr (Some items)))))"

section \<open>Named sets and quorums\<close>

definition named_set_ref_keys :: "pystr list" where
  "named_set_ref_keys = [lit ''name'', lit ''content_hash'', lit ''version'']"

definition stripped_str :: "json \<Rightarrow> exc + pystr" where
  "stripped_str v =
     bnd (expect ValueError (as_str v)) (\<lambda>s. ensure (strip s \<noteq> []) ValueError (Inr (strip s)))"

definition int_from :: "int \<Rightarrow> json \<Rightarrow> exc + int" where
  "int_from least v =
     bnd (expect ValueError (as_int v)) (\<lambda>n. ensure (least \<le> n) ValueError (Inr n))"

definition validate_named_set_ref :: "json \<Rightarrow> exc + named_set_ref option" where
  "validate_named_set_ref v =
     (if v = JNull then Inr None
      else
        bnd (expect ValueError (as_obj v)) (\<lambda>d.
        ensure (keys_exact d named_set_ref_keys) ValueError
        (bnd (stripped_str (get d (lit ''name''))) (\<lambda>name.
         bnd (stripped_str (get d (lit ''content_hash''))) (\<lambda>content_hash.
         bnd (int_from 0 (get d (lit ''version''))) (\<lambda>version.
           Inr (Some \<lparr>ns_name = name, ns_content_hash = content_hash, ns_version = version\<rparr>)))))))"

definition approval_quorum_keys :: "pystr list" where
  "approval_quorum_keys = [lit ''signer_set_ref'', lit ''threshold'']"

definition validate_approval_quorum :: "json \<Rightarrow> exc + quorum option" where
  "validate_approval_quorum v =
     (if v = JNull then Inr None
      else
        bnd (expect ValueError (as_obj v)) (\<lambda>d.
        ensure (keys_exact d approval_quorum_keys) ValueError
        (bnd (validate_named_set_ref (get d (lit ''signer_set_ref''))) (\<lambda>signer_set_ref.
         bnd (expect ValueError signer_set_ref) (\<lambda>signers.
         bnd (int_from 1 (get d (lit ''threshold''))) (\<lambda>threshold.
           Inr (Some \<lparr>q_signers = signers, q_threshold = threshold\<rparr>)))))))"

section \<open>Bounds\<close>

definition bound_required_keys :: "pystr list" where
  "bound_required_keys = [lit ''kind'', lit ''unit'', lit ''amount_scaled'']"

definition bound_keys :: "pystr list" where
  "bound_keys = bound_required_keys
     @ [lit ''window_epoch'', lit ''window_duration_ms'', lit ''applies_to'', lit ''aggregation'', lit ''window_kind'']"

definition validate_bound_aggregation :: "json \<Rightarrow> exc + pystr option" where
  "validate_bound_aggregation v =
     (if v = JNull then Inr None
      else if v = JStr (lit ''entry'') then Inr (Some (lit ''entry'')) else Inl ValueError)"

definition validate_bound_window_kind :: "json \<Rightarrow> exc + pystr option" where
  "validate_bound_window_kind v =
     (if v = JNull then Inr None
      else if v = JStr (lit ''fixed'') then Inl ValueError
      else if v = JStr (lit ''repeating'') then Inr (Some (lit ''repeating'')) else Inl ValueError)"

text \<open>The two sides of \<open>applies_to\<close>, each absent or a list of distinct strings.\<close>

definition applies_to_actions :: "pystr list \<Rightarrow> (pystr, json) dict \<Rightarrow> exc + pystr list option" where
  "applies_to_actions scope d =
     (if has_key d (lit ''actions'')
      then bnd (nonempty_strip_list (get d (lit ''actions''))) (\<lambda>actions.
        ensure (list_all (\<lambda>a. a \<notin> set privilege_tiers) actions) ValueError
        (ensure (list_all (\<lambda>a. a \<in> set scope) actions) ValueError (Inr (Some actions))))
      else Inr None)"

definition applies_to_boundaries :: "(pystr, json) dict \<Rightarrow> exc + pystr list option" where
  "applies_to_boundaries d =
     (if has_key d (lit ''boundaries'')
      then bnd (nonempty_strip_list (get d (lit ''boundaries''))) (\<lambda>bs. Inr (Some bs))
      else Inr None)"

definition validate_bound_applies_to ::
  "pystr list \<Rightarrow> json \<Rightarrow> exc + (pystr list option \<times> pystr list option) option" where
  "validate_bound_applies_to scope v =
     (if v = JNull then Inr None
      else
        bnd (expect ValueError (as_obj v)) (\<lambda>d.
        ensure (keys_within d [lit ''actions'', lit ''boundaries'']) ValueError
        (bnd (applies_to_actions scope d) (\<lambda>actions.
         bnd (applies_to_boundaries d) (\<lambda>boundaries.
         ensure (actions \<noteq> None \<or> boundaries \<noteq> None) ValueError
         (Inr (Some (actions, boundaries))))))))"

definition bound_scope :: "json \<Rightarrow> exc + (pystr, json) dict \<times> pystr \<times> pystr option" where
  "bound_scope entry =
     bnd (expect ValueError (as_obj entry)) (\<lambda>d.
     ensure (keys_within d bound_keys \<and> has_keys d bound_required_keys) ValueError
     (bnd (stripped_str (get d (lit ''kind''))) (\<lambda>kind.
      bnd (validate_bound_aggregation (get d (lit ''aggregation''))) (\<lambda>aggregation.
        Inr (d, kind, aggregation)))))"

text \<open>
  An overflowing \<open>window_epoch\<close> is not a \<open>ValueError\<close>, so it leaves the \<open>try\<close> as it is.
\<close>

definition bound_window :: "(pystr, json) dict \<Rightarrow> exc + (pystr \<times> int) option" where
  "bound_window d =
     (if has_key d (lit ''window_epoch'') \<noteq> has_key d (lit ''window_duration_ms'') then Inl ValueError
      else if \<not> has_key d (lit ''window_epoch'') then Inr None
      else
        bnd (expect ValueError (as_str (get d (lit ''window_epoch'')))) (\<lambda>epoch.
        ensure (strip epoch \<noteq> []) ValueError
        (bnd (parse_dt epoch) (\<lambda>_.
         bnd (int_from 1 (get d (lit ''window_duration_ms''))) (\<lambda>ms. Inr (Some (strip epoch, ms)))))))"

definition validated_bound ::
  "pystr list \<Rightarrow> (pystr, json) dict \<Rightarrow> pystr \<Rightarrow> pystr option \<Rightarrow> exc + bound" where
  "validated_bound scope d kind aggregation =
     bnd (stripped_str (get d (lit ''unit''))) (\<lambda>unit.
     bnd (expect ValueError (parse_nonnegative_amount_scaled (get d (lit ''amount_scaled'')))) (\<lambda>amount.
     bnd (bound_window d) (\<lambda>window.
     bnd (validate_bound_window_kind (get d (lit ''window_kind''))) (\<lambda>kind_of_window.
     ensure (\<not> (kind_of_window \<noteq> None \<and> window = None)) ValueError
     (ensure (\<not> (aggregation \<noteq> None \<and> window = None)) ValueError
     (bnd (validate_bound_applies_to scope (get d (lit ''applies_to''))) (\<lambda>applies.
       Inr \<lparr>bd_kind = kind, bd_unit = unit, bd_amount = amount, bd_window = window,
             bd_window_kind = kind_of_window, bd_aggregation = aggregation, bd_applies_to = applies\<rparr>)))))))"

fun bounds_loop :: "pystr list \<Rightarrow> (pystr \<times> pystr option) list \<Rightarrow> json list \<Rightarrow> exc + bound list" where
  "bounds_loop scope seen [] = Inr []"
| "bounds_loop scope seen (entry # entries) =
     bnd (bound_scope entry) (\<lambda>(d, kind, aggregation).
     ensure ((kind, aggregation) \<notin> set seen) ValueError
     (bnd (validated_bound scope d kind aggregation) (\<lambda>b.
      bnd (bounds_loop scope ((kind, aggregation) # seen) entries) (\<lambda>bs. Inr (b # bs)))))"

definition validate_bounds :: "pystr list \<Rightarrow> json \<Rightarrow> exc + bound list" where
  "validate_bounds scope v =
     (if v = JNull then Inr []
      else bnd (expect ValueError (as_list v)) (\<lambda>vs. ensure (vs \<noteq> []) ValueError (bounds_loop scope [] vs)))"

section \<open>Capabilities\<close>

definition capability_keys :: "pystr list" where
  "capability_keys = [lit ''actions'', lit ''nbf'', lit ''exp'']"

definition parse_capability :: "pystr list \<Rightarrow> instant \<Rightarrow> instant \<Rightarrow> json \<Rightarrow> exc + capability" where
  "parse_capability allowed slip_nbf slip_exp entry =
     bnd (expect ValueError (as_obj entry)) (\<lambda>d.
     ensure (keys_within d capability_keys) ValueError
     (bnd (required_str_list d (lit ''actions'')) (\<lambda>actions.
      ensure (actions \<noteq> [] \<and> list_all (\<lambda>a. strip a \<noteq> []) actions) ValueError
      (ensure (set actions \<subseteq> set allowed) ValueError
      (bnd (expect ValueError (as_str (get d (lit ''exp'')))) (\<lambda>e.
       bnd (parse_dt e) (\<lambda>cap_e.
       bnd (if has_key d (lit ''nbf'') then bnd (expect ValueError (as_str (get d (lit ''nbf'')))) parse_dt
            else Inr slip_nbf) (\<lambda>cap_n.
       ensure (slip_nbf \<le> cap_n \<and> cap_n \<le> cap_e \<and> cap_e \<le> slip_exp) ValueError
       (Inr \<lparr>cap_actions = actions, cap_nbf = cap_n, cap_exp = cap_e\<rparr>)))))))))"

definition parse_capabilities ::
  "(pystr, json) dict \<Rightarrow> pystr list \<Rightarrow> instant \<Rightarrow> instant \<Rightarrow> exc + capability list" where
  "parse_capabilities d scope slip_nbf slip_exp =
     (if \<not> has_key d (lit ''capabilities'') then Inr []
      else
        bnd (expect ValueError (as_list (get d (lit ''capabilities'')))) (\<lambda>raw.
        ensure (raw \<noteq> []) ValueError (each (parse_capability scope slip_nbf slip_exp) raw)))"

section \<open>The delegation claim set\<close>

definition delegation_claim_keys :: "pystr list" where
  "delegation_claim_keys = map lit
     [''jti'', ''sub'', ''scope_actions'', ''scope_paths'', ''nbf'', ''exp'', ''scope_tools'',
      ''scope_domains'', ''iss'', ''parent_jti'', ''chain_depth'', ''max_depth'', ''capabilities'',
      ''trust_root_id'', ''named_set_ref'', ''bounds'', ''approval_quorum'',
      ''authority_entry_hash'', ''ratification_hash'', ''aud'', ''max_revocation_age_ms'']"

definition claim_dt :: "(pystr, json) dict \<Rightarrow> pystr \<Rightarrow> exc + instant" where
  "claim_dt d k =
     bnd (expect ValueError (as_str (get d k))) (\<lambda>s. ensure (s \<noteq> []) ValueError (parse_dt s))"

definition optional_chain_string ::
  "(pystr, json) dict \<Rightarrow> pystr \<Rightarrow> pystr option \<Rightarrow> exc + pystr option" where
  "optional_chain_string d name fallback =
     (if \<not> has_key d name then Inr fallback
      else if get d name = JNull \<and> name = lit ''parent_jti'' then Inr None
      else bnd (expect ValueError (as_str (get d name))) (\<lambda>s. Inr (Some s)))"

definition optional_chain_depth :: "(pystr, json) dict \<Rightarrow> pystr \<Rightarrow> int \<Rightarrow> exc + int" where
  "optional_chain_depth d name fallback =
     (if \<not> has_key d name then Inr fallback else int_from 0 (get d name))"

definition require_action_types :: "delegation_claims \<Rightarrow> bool" where
  "require_action_types c \<longleftrightarrow> list_all (\<lambda>a. a \<notin> set privilege_tiers) (scope_actions c)"

definition require_lineage_for_aggregate_bounds :: "delegation_claims \<Rightarrow> bool" where
  "require_lineage_for_aggregate_bounds c \<longleftrightarrow>
     \<not> (authority_entry_hash c = None \<and> list_ex (\<lambda>b. bd_aggregation b = Some (lit ''entry'')) (bounds c))"

text \<open>\<open>parse_delegation_claims\<close>: the fields are read in the order of the constructor call.\<close>

definition parse_delegation_claims :: "bool \<Rightarrow> (pystr, json) dict \<Rightarrow> exc + delegation_claims" where
  "parse_delegation_claims lineage_pending d =
     ensure (keys_within d delegation_claim_keys) ValueError
     (bnd (claim_dt d (lit ''nbf'')) (\<lambda>nbf_v.
      bnd (claim_dt d (lit ''exp'')) (\<lambda>exp_v.
      bnd (required_str_list d (lit ''scope_actions'')) (\<lambda>actions.
      bnd (validate_lineage d) (\<lambda>(entry_hash, rat_hash).
      bnd (required_str d (lit ''jti'')) (\<lambda>jti_v.
      bnd (required_str d (lit ''sub'')) (\<lambda>sub_v.
      bnd (required_str_list d (lit ''scope_paths'')) (\<lambda>paths.
      bnd (optional_str_list d (lit ''scope_tools'')) (\<lambda>tools.
      bnd (required_nonempty_str_list d (lit ''scope_domains'')) (\<lambda>domains.
      bnd (optional_chain_string d (lit ''iss'') (Some [])) (\<lambda>iss_v.
      bnd (optional_chain_string d (lit ''parent_jti'') None) (\<lambda>parent.
      bnd (optional_chain_depth d (lit ''chain_depth'') 0) (\<lambda>depth.
      bnd (optional_chain_depth d (lit ''max_depth'') 1) (\<lambda>most.
      bnd (validate_named_set_ref (get d (lit ''named_set_ref''))) (\<lambda>named.
      bnd (validate_bounds actions (get d (lit ''bounds''))) (\<lambda>bnds.
      bnd (validate_approval_quorum (get d (lit ''approval_quorum''))) (\<lambda>quor.
      bnd (validate_audience (get d (lit ''aud''))) (\<lambda>aud_v.
      bnd (validate_max_revocation_age (get d (lit ''max_revocation_age_ms''))) (\<lambda>age.
      let c = \<lparr>jti = jti_v, sub = sub_v, scope_actions = actions, scope_paths = paths,
        nbf = nbf_v, exp_at = exp_v, scope_tools = tools, scope_domains = domains,
        iss = (case iss_v of None \<Rightarrow> [] | Some s \<Rightarrow> s), parent_jti = parent,
        chain_depth = depth, max_depth = most, capabilities = [], named_set = named, bounds = bnds,
        approval_quorum = quor, authority_entry_hash = entry_hash, ratification_hash = rat_hash,
        aud = aud_v, max_revocation_age_ms = age\<rparr>
      in ensure (require_action_types c) ValueError
         (ensure (lineage_pending \<or> require_lineage_for_aggregate_bounds c) ValueError
         (bnd (parse_capabilities d actions nbf_v exp_v) (\<lambda>caps.
            Inr (c\<lparr>capabilities := caps\<rparr>)))))))))))))))))))))))"

definition delegation_content_hash :: "interp \<Rightarrow> delegation_claims \<Rightarrow> exc + pystr" where
  "delegation_content_hash I c = hash_object I (JObj (claims_to_dict c))"

section \<open>The display pair of an approval\<close>

definition approval_claim_keys :: "pystr list" where
  "approval_claim_keys = map lit
     [''jti'', ''approver'', ''request_fingerprint'', ''escalation_record_hash'', ''nbf'', ''exp'',
      ''trust_root_id'', ''display_digest'', ''display_contract_version'']"

definition parse_display_pair :: "(pystr, json) dict \<Rightarrow> exc + pystr option \<times> int option" where
  "parse_display_pair d =
     (if \<not> has_key d (lit ''display_digest'') \<and> \<not> has_key d (lit ''display_contract_version'')
      then Inr (None, None)
      else if \<not> (has_key d (lit ''display_digest'') \<and> has_key d (lit ''display_contract_version''))
      then Inl ValueError
      else
        bnd (expect ValueError (as_str (get d (lit ''display_digest'')))) (\<lambda>s.
        ensure (hex64 s) ValueError
        (bnd (int_from 1 (get d (lit ''display_contract_version''))) (\<lambda>v. Inr (Some s, Some v)))))"

section \<open>What each parser accepts\<close>

text \<open>A string that \<open>strip\<close> returned and the parser kept.\<close>

definition clean :: "pystr \<Rightarrow> bool" where
  "clean s \<longleftrightarrow> s \<noteq> [] \<and> strip s = s"

lemma clean_strip [simp]: "clean (strip s) \<longleftrightarrow> strip s \<noteq> []"
  by (simp add: clean_def)

lemma strip_unique_Inr:
  "strip_unique cleaned items = Inr ss \<Longrightarrow> distinct cleaned \<Longrightarrow> list_all clean cleaned \<Longrightarrow>
    distinct ss \<and> list_all clean ss \<and> length ss = length cleaned + length items"
  by (induction cleaned items rule: strip_unique.induct) (auto simp: raise_simps)

lemma nonempty_strip_list_Inr:
  assumes "nonempty_strip_list v = Inr ss"
  shows "ss \<noteq> [] \<and> distinct ss \<and> list_all clean ss"
proof -
  obtain vs where "strip_unique [] vs = Inr ss" "vs \<noteq> []"
    using assms by (auto simp: nonempty_strip_list_def raise_simps)
  then show ?thesis using strip_unique_Inr [of "[]" vs] by auto
qed

lemma stripped_str_Inr: "stripped_str v = Inr s \<Longrightarrow> clean s"
  by (auto simp: stripped_str_def raise_simps)

lemma int_from_Inr: "int_from k v = Inr n \<longleftrightarrow> v = JInt n \<and> k \<le> n"
  by (auto simp: int_from_def raise_simps)

lemma claim_dt_Inr: "claim_dt d k = Inr t \<Longrightarrow> 0 \<le> t \<and> t \<le> max_instant"
  by (auto simp: claim_dt_def raise_simps dest: parse_dt_range)

definition named_set_formed :: "named_set_ref \<Rightarrow> bool" where
  "named_set_formed n \<longleftrightarrow> clean (ns_name n) \<and> clean (ns_content_hash n) \<and> 0 \<le> ns_version n"

lemma named_set_Inr: "validate_named_set_ref v = Inr (Some n) \<Longrightarrow> named_set_formed n"
  by (auto simp: validate_named_set_ref_def named_set_formed_def raise_simps int_from_Inr
      dest!: stripped_str_Inr split: if_splits)

lemma quorum_Inr: "validate_approval_quorum v = Inr (Some q) \<Longrightarrow> named_set_formed (q_signers q) \<and> 1 \<le> q_threshold q"
  by (auto simp: validate_approval_quorum_def raise_simps int_from_Inr dest!: named_set_Inr
      split: if_splits)

definition side_formed :: "pystr list option \<Rightarrow> bool" where
  "side_formed s \<longleftrightarrow> (\<forall>xs. s = Some xs \<longrightarrow> xs \<noteq> [] \<and> distinct xs \<and> list_all clean xs)"

definition bound_formed :: "pystr list \<Rightarrow> bound \<Rightarrow> bool" where
  "bound_formed scope b \<longleftrightarrow>
     clean (bd_kind b) \<and> clean (bd_unit b)
     \<and> (\<forall>e ms. bd_window b = Some (e, ms) \<longrightarrow> clean e \<and> 0 < ms)
     \<and> bd_window_kind b \<in> {None, Some (lit ''repeating'')} \<and> bd_aggregation b \<in> {None, Some (lit ''entry'')}
     \<and> (bd_window b = None \<longrightarrow> bd_window_kind b = None \<and> bd_aggregation b = None)
     \<and> bd_applies_to b \<noteq> Some (None, None)
     \<and> (\<forall>as bs. bd_applies_to b = Some (as, bs) \<longrightarrow> side_formed as \<and> side_formed bs
          \<and> (\<forall>xs. as = Some xs \<longrightarrow> set xs \<subseteq> set scope - set privilege_tiers))"

lemma actions_Inr: "applies_to_actions scope d = Inr as \<Longrightarrow>
    side_formed as \<and> (\<forall>xs. as = Some xs \<longrightarrow> set xs \<subseteq> set scope - set privilege_tiers)"
  by (auto simp: applies_to_actions_def raise_simps side_formed_def list_all_iff
      dest!: nonempty_strip_list_Inr split: if_splits)

lemma boundaries_Inr: "applies_to_boundaries d = Inr bs \<Longrightarrow> side_formed bs"
  by (auto simp: applies_to_boundaries_def raise_simps side_formed_def dest!: nonempty_strip_list_Inr split: if_splits)

lemma applies_to_Inr:
  "validate_bound_applies_to scope v = Inr (Some (as, bs)) \<Longrightarrow>
    side_formed as \<and> side_formed bs \<and> (as, bs) \<noteq> (None, None)
    \<and> (\<forall>xs. as = Some xs \<longrightarrow> set xs \<subseteq> set scope - set privilege_tiers)"
  by (auto simp: validate_bound_applies_to_def raise_simps dest!: actions_Inr boundaries_Inr split: if_splits)

lemma bound_window_Inr: "bound_window d = Inr (Some (e, ms)) \<Longrightarrow> clean e \<and> 0 < ms"
  by (auto simp: bound_window_def raise_simps int_from_Inr split: if_splits)

lemma aggregation_Inr: "validate_bound_aggregation v = Inr a \<Longrightarrow> a \<in> {None, Some (lit ''entry'')}"
  by (auto simp: validate_bound_aggregation_def split: if_splits)

lemma window_kind_Inr: "validate_bound_window_kind v = Inr a \<Longrightarrow> a \<in> {None, Some (lit ''repeating'')}"
  by (auto simp: validate_bound_window_kind_def split: if_splits)

lemma bound_scope_Inr:
  "bound_scope v = Inr (d, kind, agg) \<Longrightarrow> v = JObj d \<and> clean kind \<and> agg \<in> {None, Some (lit ''entry'')}"
  by (auto simp: bound_scope_def raise_simps dest!: stripped_str_Inr aggregation_Inr)

lemma validated_bound_fields:
  "validated_bound scope d kind agg = Inr b \<Longrightarrow> bd_kind b = kind \<and> bd_aggregation b = agg"
  by (auto simp: validated_bound_def raise_simps)

lemma validated_bound_Inr:
  assumes "validated_bound scope d kind agg = Inr b"
    and "clean kind" "agg \<in> {None, Some (lit ''entry'')}"
  shows "bound_formed scope b"
proof -
  obtain unit amount window wk ap where
    b: "b = \<lparr>bd_kind = kind, bd_unit = unit, bd_amount = amount, bd_window = window, bd_window_kind = wk,
      bd_aggregation = agg, bd_applies_to = ap\<rparr>"
    and u: "stripped_str (get d (lit ''unit'')) = Inr unit" and w: "bound_window d = Inr window"
    and k: "validate_bound_window_kind (get d (lit ''window_kind'')) = Inr wk"
    and n: "wk \<noteq> None \<longrightarrow> window \<noteq> None" "agg \<noteq> None \<longrightarrow> window \<noteq> None"
    and a: "validate_bound_applies_to scope (get d (lit ''applies_to'')) = Inr ap"
    using assms(1) by (auto simp: validated_bound_def raise_simps)
  show ?thesis
    unfolding bound_formed_def b
    using assms(2,3) stripped_str_Inr [OF u] window_kind_Inr [OF k] n w a
    by (auto dest: bound_window_Inr applies_to_Inr)
qed

lemma bounds_loop_Inr:
  assumes "bounds_loop scope seen vs = Inr bs"
  shows "list_all (bound_formed scope) bs \<and> distinct (map (\<lambda>b. (bd_kind b, bd_aggregation b)) bs)
    \<and> (\<forall>b \<in> set bs. (bd_kind b, bd_aggregation b) \<notin> set seen)"
  using assms
proof (induction scope seen vs arbitrary: bs rule: bounds_loop.induct)
  case (2 scope seen entry entries)
  then obtain d kind agg b bs' where
    s: "bound_scope entry = Inr (d, kind, agg)" "(kind, agg) \<notin> set seen"
    and b: "validated_bound scope d kind agg = Inr b"
    and l: "bounds_loop scope ((kind, agg) # seen) entries = Inr bs'" "bs = b # bs'"
    by (auto simp: raise_simps split: prod.splits)
  have "bound_formed scope b"
    using validated_bound_Inr [OF b] bound_scope_Inr [OF s(1)] by blast
  then show ?case
    using "2.IH" [OF s(1) refl refl s(2) b l(1)] s l(2) validated_bound_fields [OF b] by auto
qed simp


lemma validate_bounds_Inr:
  "validate_bounds scope v = Inr bs \<Longrightarrow>
    list_all (bound_formed scope) bs \<and> distinct (map (\<lambda>b. (bd_kind b, bd_aggregation b)) bs)"
  by (auto simp: validate_bounds_def raise_simps split: if_splits dest!: bounds_loop_Inr)

definition capability_formed :: "delegation_claims \<Rightarrow> capability \<Rightarrow> bool" where
  "capability_formed c cap \<longleftrightarrow> cap_actions cap \<noteq> [] \<and> set (cap_actions cap) \<subseteq> set (scope_actions c)
     \<and> nbf c \<le> cap_nbf cap \<and> cap_nbf cap \<le> cap_exp cap \<and> cap_exp cap \<le> exp_at c"

lemma parse_capability_Inr:
  "parse_capability scope b e v = Inr cap \<Longrightarrow> cap_actions cap \<noteq> [] \<and> set (cap_actions cap) \<subseteq> set scope
     \<and> b \<le> cap_nbf cap \<and> cap_nbf cap \<le> cap_exp cap \<and> cap_exp cap \<le> e"
  by (auto simp: parse_capability_def raise_simps)

lemma parse_capabilities_Inr:
  "parse_capabilities d (scope_actions c) (nbf c) (exp_at c) = Inr caps \<Longrightarrow> list_all (capability_formed c) caps"
  by (auto simp: parse_capabilities_def list_all_iff capability_formed_def raise_simps split: if_splits
      dest!: each_Inr_set parse_capability_Inr)

lemma validate_lineage_Inr:
  "validate_lineage d = Inr (e, r) \<Longrightarrow> e = None \<and> r = None \<or> (\<exists>x y. e = Some x \<and> r = Some y \<and> hex64 x \<and> hex64 y)"
  by (auto simp: validate_lineage_def raise_simps split: if_splits)

lemma validate_audience_Inr:
  "validate_audience v = Inr (Some xs) \<Longrightarrow> xs \<noteq> [] \<and> distinct xs \<and> list_all hex16 xs"
  by (auto simp: validate_audience_def raise_simps split: if_splits)

lemma age_Inr: "validate_max_revocation_age v = Inr (Some n) \<Longrightarrow> 0 < n"
  by (auto simp: validate_max_revocation_age_def raise_simps split: if_splits)

lemma chain_depth_Inr: "optional_chain_depth d k n = Inr m \<Longrightarrow> 0 \<le> n \<Longrightarrow> 0 \<le> m"
  by (auto simp: optional_chain_depth_def int_from_Inr split: if_splits)

lemma required_str_Inr: "required_str d k = Inr s \<Longrightarrow> s \<noteq> []"
  by (auto simp: required_str_def raise_simps)

section \<open>The parsed claim set\<close>

lemma parse_parts:
  assumes "parse_delegation_claims pending d = Inr c"
  shows "claim_dt d (lit ''nbf'') = Inr (nbf c)" "claim_dt d (lit ''exp'') = Inr (exp_at c)"
    "validate_lineage d = Inr (authority_entry_hash c, ratification_hash c)"
    "required_str d (lit ''jti'') = Inr (jti c)" "required_str d (lit ''sub'') = Inr (sub c)"
    "required_nonempty_str_list d (lit ''scope_domains'') = Inr (scope_domains c)"
    "optional_chain_depth d (lit ''chain_depth'') 0 = Inr (chain_depth c)"
    "optional_chain_depth d (lit ''max_depth'') 1 = Inr (max_depth c)"
    "validate_named_set_ref (get d (lit ''named_set_ref'')) = Inr (named_set c)"
    "validate_bounds (scope_actions c) (get d (lit ''bounds'')) = Inr (bounds c)"
    "validate_approval_quorum (get d (lit ''approval_quorum'')) = Inr (approval_quorum c)"
    "validate_audience (get d (lit ''aud'')) = Inr (aud c)"
    "validate_max_revocation_age (get d (lit ''max_revocation_age_ms'')) = Inr (max_revocation_age_ms c)"
    "parse_capabilities d (scope_actions c) (nbf c) (exp_at c) = Inr (capabilities c)"
    "require_action_types c" "pending \<or> require_lineage_for_aggregate_bounds c"
    "keys_within d delegation_claim_keys" "optional_chain_string d (lit ''parent_jti'') None = Inr (parent_jti c)"
proof -
  note p = assms [unfolded parse_delegation_claims_def Let_def split_beta bnd_Inr_iff ensure_Inr_iff]
  have all: "claim_dt d (lit ''nbf'') = Inr (nbf c) \<and> claim_dt d (lit ''exp'') = Inr (exp_at c)
    \<and> validate_lineage d = Inr (authority_entry_hash c, ratification_hash c)
    \<and> required_str d (lit ''jti'') = Inr (jti c) \<and> required_str d (lit ''sub'') = Inr (sub c)
    \<and> required_nonempty_str_list d (lit ''scope_domains'') = Inr (scope_domains c)
    \<and> optional_chain_depth d (lit ''chain_depth'') 0 = Inr (chain_depth c)
    \<and> optional_chain_depth d (lit ''max_depth'') 1 = Inr (max_depth c)
    \<and> validate_named_set_ref (get d (lit ''named_set_ref'')) = Inr (named_set c)
    \<and> validate_bounds (scope_actions c) (get d (lit ''bounds'')) = Inr (bounds c)
    \<and> validate_approval_quorum (get d (lit ''approval_quorum'')) = Inr (approval_quorum c)
    \<and> validate_audience (get d (lit ''aud'')) = Inr (aud c)
    \<and> validate_max_revocation_age (get d (lit ''max_revocation_age_ms'')) = Inr (max_revocation_age_ms c)
    \<and> parse_capabilities d (scope_actions c) (nbf c) (exp_at c) = Inr (capabilities c)
    \<and> require_action_types c \<and> (pending \<or> require_lineage_for_aggregate_bounds c)
    \<and> keys_within d delegation_claim_keys \<and> optional_chain_string d (lit ''parent_jti'') None = Inr (parent_jti c)"
    using p
    by (elim exE conjE)
      (drule sum.inject(2) [THEN iffD1], hypsubst, simp add: require_action_types_def require_lineage_for_aggregate_bounds_def)
  show "claim_dt d (lit ''nbf'') = Inr (nbf c)" "claim_dt d (lit ''exp'') = Inr (exp_at c)"
    "validate_lineage d = Inr (authority_entry_hash c, ratification_hash c)"
    "required_str d (lit ''jti'') = Inr (jti c)" "required_str d (lit ''sub'') = Inr (sub c)"
    "required_nonempty_str_list d (lit ''scope_domains'') = Inr (scope_domains c)"
    "optional_chain_depth d (lit ''chain_depth'') 0 = Inr (chain_depth c)"
    "optional_chain_depth d (lit ''max_depth'') 1 = Inr (max_depth c)"
    "validate_named_set_ref (get d (lit ''named_set_ref'')) = Inr (named_set c)"
    "validate_bounds (scope_actions c) (get d (lit ''bounds'')) = Inr (bounds c)"
    "validate_approval_quorum (get d (lit ''approval_quorum'')) = Inr (approval_quorum c)"
    "validate_audience (get d (lit ''aud'')) = Inr (aud c)"
    "validate_max_revocation_age (get d (lit ''max_revocation_age_ms'')) = Inr (max_revocation_age_ms c)"
    "parse_capabilities d (scope_actions c) (nbf c) (exp_at c) = Inr (capabilities c)"
    "require_action_types c" "pending \<or> require_lineage_for_aggregate_bounds c"
    "keys_within d delegation_claim_keys" "optional_chain_string d (lit ''parent_jti'') None = Inr (parent_jti c)"
    using all by blast+
qed

text \<open>
  A well-formed claim set. What an aggregate bound needs of the lineage is not known yet
  for a ratification candidate.
\<close>

definition claims_formed :: "bool \<Rightarrow> delegation_claims \<Rightarrow> bool" where
  "claims_formed pending c \<longleftrightarrow>
     jti c \<noteq> [] \<and> sub c \<noteq> [] \<and> {nbf c, exp_at c} \<subseteq> {0..max_instant}
     \<and> scope_domains c \<noteq> [] \<and> distinct (scope_domains c) \<and> list_all clean (scope_domains c)
     \<and> 0 \<le> chain_depth c \<and> 0 \<le> max_depth c
     \<and> set (scope_actions c) \<inter> set privilege_tiers = {}
     \<and> list_all (capability_formed c) (capabilities c)
     \<and> (\<forall>n. named_set c = Some n \<longrightarrow> named_set_formed n)
     \<and> list_all (bound_formed (scope_actions c)) (bounds c)
     \<and> distinct (map (\<lambda>b. (bd_kind b, bd_aggregation b)) (bounds c))
     \<and> (\<forall>q. approval_quorum c = Some q \<longrightarrow> named_set_formed (q_signers q) \<and> 1 \<le> q_threshold q)
     \<and> ((authority_entry_hash c, ratification_hash c) = (None, None) \<or> (\<exists>e r. (authority_entry_hash c, ratification_hash c) = (Some e, Some r) \<and> hex64 e \<and> hex64 r))
     \<and> (\<not> pending \<longrightarrow> (authority_entry_hash c, ratification_hash c) = (None, None) \<longrightarrow> (\<forall>b \<in> set (bounds c). bd_aggregation b = None))
     \<and> (\<forall>xs. aud c = Some xs \<longrightarrow> xs \<noteq> [] \<and> distinct xs \<and> list_all hex16 xs)
     \<and> (\<forall>n. max_revocation_age_ms c = Some n \<longrightarrow> 0 < n)"

lemma unaggregated:
  assumes "list_all (bound_formed scope) (bounds c)" "require_lineage_for_aggregate_bounds c"
    "authority_entry_hash c = None" "b \<in> set (bounds c)"
  shows "bd_aggregation b = None"
  using assms by (auto simp: require_lineage_for_aggregate_bounds_def list_ex_iff list_all_iff bound_formed_def)

text \<open>C25: Whatever JSON object the parser accepts, the claim set it returns is well formed.\<close>

theorem parse_delegation_claims_formed:
  assumes "parse_delegation_claims pending d = Inr c"
  shows "claims_formed pending c"
proof -
  note p = parse_parts [OF assms]
  have "jti c \<noteq> []" "sub c \<noteq> []" "{nbf c, exp_at c} \<subseteq> {0..max_instant}"
    using p(1,2,4,5) required_str_Inr claim_dt_Inr by fastforce+
  moreover have "scope_domains c \<noteq> []" "distinct (scope_domains c)" "list_all clean (scope_domains c)"
    using p(6) nonempty_strip_list_Inr by (auto simp: required_nonempty_str_list_def)
  moreover have "0 \<le> chain_depth c" "0 \<le> max_depth c"
    using p(7,8) chain_depth_Inr by fastforce+
  moreover have "set (scope_actions c) \<inter> set privilege_tiers = {}"
    using p(15) by (auto simp: require_action_types_def list_all_iff)
  moreover have "list_all (bound_formed (scope_actions c)) (bounds c)"
    "distinct (map (\<lambda>b. (bd_kind b, bd_aggregation b)) (bounds c))"
    using validate_bounds_Inr [OF p(10)] by auto
  moreover have "(authority_entry_hash c, ratification_hash c) = (None, None) \<or> (\<exists>e r. (authority_entry_hash c, ratification_hash c) = (Some e, Some r) \<and> hex64 e \<and> hex64 r)"
    using validate_lineage_Inr [OF p(3)] by auto
  moreover have "\<not> pending \<longrightarrow> (authority_entry_hash c, ratification_hash c) = (None, None) \<longrightarrow> (\<forall>b \<in> set (bounds c). bd_aggregation b = None)"
    using p(16) validate_bounds_Inr [OF p(10)] unaggregated by auto
  moreover have "\<forall>n. named_set c = Some n \<longrightarrow> named_set_formed n"
    "\<forall>q. approval_quorum c = Some q \<longrightarrow> named_set_formed (q_signers q) \<and> 1 \<le> q_threshold q"
    "\<forall>xs. aud c = Some xs \<longrightarrow> xs \<noteq> [] \<and> distinct xs \<and> list_all hex16 xs"
    "\<forall>n. max_revocation_age_ms c = Some n \<longrightarrow> 0 < n"
    using p(9,11-13) named_set_Inr quorum_Inr validate_audience_Inr age_Inr by metis+
  ultimately show ?thesis
    using parse_capabilities_Inr [OF p(14)] unfolding claims_formed_def by blast
qed

section \<open>Which exceptions escape\<close>

abbreviation shape_errors :: "exc set" where
  "shape_errors \<equiv> {ValueError, OverflowError}"

lemma parse_dt_raises [raises_intros]: "raises_only shape_errors (parse_dt s)"
  by (auto simp: parse_dt_def Let_def raises_only_def split: option.splits if_splits)

lemma str_raises [raises_intros]:
  "raises_only shape_errors (required_str d k)" "raises_only shape_errors (str_list v)"
  "raises_only shape_errors (required_str_list d k)" "raises_only shape_errors (optional_str_list d k)"
  "raises_only shape_errors (stripped_str v)" "raises_only shape_errors (int_from n v)"
  by (auto simp: required_str_def str_list_def required_str_list_def optional_str_list_def stripped_str_def
      int_from_def intro!: raises_intros)

lemma strip_unique_raises [raises_intros]: "raises_only shape_errors (strip_unique cleaned vs)"
  by (induction cleaned vs rule: strip_unique.induct) (auto intro!: raises_intros)

lemma strip_list_raises [raises_intros]:
  "raises_only shape_errors (nonempty_strip_list v)"
  "raises_only shape_errors (required_nonempty_str_list d k)"
  by (auto simp: nonempty_strip_list_def required_nonempty_str_list_def intro!: raises_intros)

lemma field_raises [raises_intros]:
  "raises_only shape_errors (validate_lineage d)" "raises_only shape_errors (validate_max_revocation_age v)"
  "raises_only shape_errors (validate_audience v)" "raises_only shape_errors (validate_named_set_ref v)"
  "raises_only shape_errors (claim_dt d k)" "raises_only shape_errors (optional_chain_string d k s)"
  "raises_only shape_errors (optional_chain_depth d k n)" "raises_only shape_errors (parse_display_pair d)"
  by (auto simp: validate_lineage_def validate_max_revocation_age_def validate_audience_def
      validate_named_set_ref_def claim_dt_def optional_chain_string_def optional_chain_depth_def
      parse_display_pair_def intro!: raises_intros)

lemma quorum_raises [raises_intros]: "raises_only shape_errors (validate_approval_quorum v)"
  by (auto simp: validate_approval_quorum_def intro!: raises_intros)

lemma bound_part_raises [raises_intros]:
  "raises_only shape_errors (validate_bound_aggregation v)" "raises_only shape_errors (validate_bound_window_kind v)"
  "raises_only shape_errors (applies_to_actions scope d)" "raises_only shape_errors (applies_to_boundaries d)"
  by (auto simp: validate_bound_aggregation_def validate_bound_window_kind_def applies_to_actions_def
      applies_to_boundaries_def intro!: raises_intros)

lemma bound_entry_raises [raises_intros]:
  "raises_only shape_errors (validate_bound_applies_to scope v)" "raises_only shape_errors (bound_scope v)"
  "raises_only shape_errors (bound_window d)"
  by (auto simp: validate_bound_applies_to_def bound_scope_def bound_window_def intro!: raises_intros)

lemma validated_bound_raises [raises_intros]: "raises_only shape_errors (validated_bound scope d k a)"
  by (auto simp: validated_bound_def intro!: raises_intros)

lemma bounds_loop_raises [raises_intros]: "raises_only shape_errors (bounds_loop scope seen vs)"
  by (induction scope seen vs rule: bounds_loop.induct) (auto intro!: raises_intros split: prod.splits)

lemma list_field_raises [raises_intros]:
  "raises_only shape_errors (validate_bounds scope v)" "raises_only shape_errors (parse_capability scope b e v)"
  by (auto simp: validate_bounds_def parse_capability_def intro!: raises_intros)

lemma capabilities_raises [raises_intros]: "raises_only shape_errors (parse_capabilities d scope b e)"
  by (auto simp: parse_capabilities_def intro!: raises_intros)

lemma parse_delegation_claims_raises: "raises_only shape_errors (parse_delegation_claims pending d)"
  unfolding parse_delegation_claims_def Let_def split_beta by (intro raises_intros) simp_all

section \<open>A claim set that is accepted\<close>

definition demo_claims :: "(pystr, json) dict" where
  "demo_claims =
     [(lit ''jti'', JStr (lit ''r'')), (lit ''sub'', JStr (lit ''agent'')),
      (lit ''scope_actions'', strs [lit ''read'', lit ''delegate'']), (lit ''scope_paths'', strs [lit ''/a'']),
      (lit ''max_depth'', JInt 2), (lit ''scope_domains'', strs [lit '' d '']), (lit ''nbf'', JStr (isoformat 0)),
      (lit ''exp'', JStr (isoformat 100)),
      (lit ''bounds'', JList [JObj [(lit ''kind'', JStr (lit ''k'')), (lit ''unit'', JStr (lit ''u'')),
         (lit ''amount_scaled'', JStr (dec_digits 9))]])]"

lemma those_strs [simp]: "those (map (as_str \<circ> JStr) ss) = Some ss"
  by (induction ss) auto

lemma str_list_strs [simp]: "str_list (strs ss) = Inr ss"
  by (simp add: str_list_def strs_def)

lemma isoformat_not_Nil [simp]: "isoformat t \<noteq> []"
  by (simp add: isoformat_def Let_def split: prod.splits)

lemma claim_dt_isoformat: "get d k = JStr (isoformat t) \<Longrightarrow> 0 \<le> t \<Longrightarrow> t \<le> max_instant \<Longrightarrow> claim_dt d k = Inr t"
  by (simp add: claim_dt_def parse_dt_def fromisoformat_isoformat)

lemmas strip_eval = strip_def strip_by_def py_space_def lit_def

lemma demo_strips: "strip (lit ''k'') = lit ''k''" "strip (lit ''u'') = lit ''u''" "strip (lit '' d '') = lit ''d''"
  by (simp_all add: strip_eval)

lemma demo_bounds:
  "validate_bounds scope (get demo_claims (lit ''bounds'')) =
    Inr [\<lparr>bd_kind = lit ''k'', bd_unit = lit ''u'', bd_amount = 9, bd_window = None,
        bd_window_kind = None, bd_aggregation = None, bd_applies_to = None\<rparr>]"
proof -
  have "parse_nonnegative_amount_scaled (JStr (dec_digits 9)) = Some 9"
    unfolding parse_amount_iff by (simp add: dec_digits.simps max_str_digits_def)
  then show ?thesis
    by (simp add: demo_claims_def validate_bounds_def bound_scope_def validated_bound_def stripped_str_def
      demo_strips bound_window_def validate_bound_aggregation_def validate_bound_window_kind_def
      validate_bound_applies_to_def keys_within_def has_keys_def bound_keys_def bound_required_keys_def)
qed

lemma demo_fields:
  "keys_within demo_claims delegation_claim_keys" "validate_lineage demo_claims = Inr (None, None)"
  "required_str demo_claims (lit ''jti'') = Inr (lit ''r'')" "required_str demo_claims (lit ''sub'') = Inr (lit ''agent'')"
  "required_str_list demo_claims (lit ''scope_actions'') = Inr [lit ''read'', lit ''delegate'']"
  "required_str_list demo_claims (lit ''scope_paths'') = Inr [lit ''/a'']"
  "optional_str_list demo_claims (lit ''scope_tools'') = Inr []"
  "required_nonempty_str_list demo_claims (lit ''scope_domains'') = Inr [lit ''d'']"
  "claim_dt demo_claims (lit ''nbf'') = Inr 0" "claim_dt demo_claims (lit ''exp'') = Inr 100"
  "optional_chain_string demo_claims (lit ''iss'') (Some []) = Inr (Some [])"
  "optional_chain_string demo_claims (lit ''parent_jti'') None = Inr None"
  "optional_chain_depth demo_claims (lit ''chain_depth'') 0 = Inr 0"
  "optional_chain_depth demo_claims (lit ''max_depth'') 1 = Inr 2"
  "validate_named_set_ref (get demo_claims (lit ''named_set_ref'')) = Inr None"
  "validate_approval_quorum (get demo_claims (lit ''approval_quorum'')) = Inr None"
  "validate_audience (get demo_claims (lit ''aud'')) = Inr None"
  "validate_max_revocation_age (get demo_claims (lit ''max_revocation_age_ms'')) = Inr None"
  "parse_capabilities demo_claims scope b e = Inr []"
  by (simp_all add: demo_claims_def keys_within_def delegation_claim_keys_def validate_lineage_def
      k_entry_hash_def k_ratification_hash_def required_str_def required_str_list_def optional_str_list_def
      required_nonempty_str_list_def nonempty_strip_list_def strs_def [of "[lit '' d '']"] demo_strips
      claim_dt_isoformat max_instant_def day_us_def optional_chain_string_def optional_chain_depth_def int_from_def
      validate_named_set_ref_def validate_approval_quorum_def validate_audience_def
      validate_max_revocation_age_def parse_capabilities_def)

lemma demo_claims_parse: "parse_delegation_claims False demo_claims = Inr demo_root"
  by (simp add: parse_delegation_claims_def demo_fields demo_bounds Let_def require_action_types_def
      require_lineage_for_aggregate_bounds_def privilege_tiers_def) (simp add: demo_root_def)

theorem parse_delegation_claims_formed_witness:
  "parse_delegation_claims False demo_claims = Inr demo_root \<and> claims_formed False demo_root"
  using parse_delegation_claims_formed [OF demo_claims_parse] demo_claims_parse by blast

text \<open>
  A datetime whose offset takes it out of the years 1 to 9999 raises \<open>OverflowError\<close>, not
  the \<open>ValueError\<close> the parser announces.
\<close>

definition early_text :: pystr where
  "early_text = lit ''0001-01-01T00:00+01:00''"

lemma early_overflow: "parse_dt early_text = Inl OverflowError"
proof -
  have "fromisoformat early_text = Some (0, Some 3600000000)"
    by (simp add: early_text_def lit_def fromisoformat_def sanitize_def is_surrogate_def utf8_char_def
        separator_at_def code_unit_def read_date_def read_digits_def is_dec_digit_def dec_value_def Let_def
        unit_width_def read_time_def zone_at_def numeral_3_eq_3 read_zone_def assemble_def date_day_def
        valid_date_def days_in_month_def month_lengths_def day_number_def days_before_year_def is_leap_def
        clock_ok_def clock_us_def day_us_def)
  then show ?thesis by (simp add: parse_dt_def)
qed

end
