(* ===== verification/Base64.thy ===== *)
theory Base64
  imports Json_Text
begin

text \<open>
  The \<open>base64\<close> functions and \<open>bytes.fromhex\<close> of the standard library, as the token modules
  call them.
\<close>

section \<open>Encoding\<close>

definition b64_char :: "nat \<Rightarrow> nat" where
  "b64_char v =
     (if v < 26 then 65 + v else if v < 52 then 97 + (v - 26) else if v < 62 then 48 + (v - 52)
      else if v = 62 then 43 else 47)"

definition b64_value :: "nat \<Rightarrow> nat option" where
  "b64_value c =
     (if 65 \<le> c \<and> c \<le> 90 then Some (c - 65) else if 97 \<le> c \<and> c \<le> 122 then Some (c - 97 + 26)
      else if 48 \<le> c \<and> c \<le> 57 then Some (c - 48 + 52)
      else if c = 43 then Some 62 else if c = 47 then Some 63 else None)"

fun b64_units :: "nat list \<Rightarrow> pystr" where
  "b64_units [] = []"
| "b64_units [a] = [b64_char (a div 4), b64_char (a mod 4 * 16), 61, 61]"
| "b64_units [a, b] = [b64_char (a div 4), b64_char (a mod 4 * 16 + b div 16), b64_char (b mod 16 * 4), 61]"
| "b64_units (a # b # c # r) =
     b64_char (a div 4) # b64_char (a mod 4 * 16 + b div 16) # b64_char (b mod 16 * 4 + c div 64)
       # b64_char (c mod 64) # b64_units r"

definition b64encode :: "pybytes \<Rightarrow> pystr" where
  "b64encode bs = b64_units (map unat bs)"

section \<open>Decoding\<close>

text \<open>
  \<open>binascii.a2b_base64\<close>: four characters of the alphabet make three bytes. The lenient mode
  skips other characters and stops at the padding that completes a quad; the strict mode
  refuses both.
\<close>

fun b64_loop :: "bool \<Rightarrow> nat \<Rightarrow> nat \<Rightarrow> nat \<Rightarrow> bool \<Rightarrow> pystr \<Rightarrow> nat list option" where
  "b64_loop strict quad left pads started [] = (if quad = 0 then Some [] else None)"
| "b64_loop strict quad left pads started (c # s) =
     (if c = 61 then
        if 2 \<le> quad then
          if 4 \<le> quad + (pads + 1) then if strict \<and> s \<noteq> [] then None else Some []
          else b64_loop strict quad left (pads + 1) True s
        else b64_loop strict quad left pads True s
      else case b64_value c of
        None \<Rightarrow> if strict then None else b64_loop strict quad left pads started s
      | Some v \<Rightarrow>
          if strict \<and> started then None
          else if quad = 0 then b64_loop strict 1 v 0 started s
          else if quad = 1 then
            map_option ((#) (left * 4 + v div 16)) (b64_loop strict 2 (v mod 16) 0 started s)
          else if quad = 2 then
            map_option ((#) (left * 16 + v div 4)) (b64_loop strict 3 (v mod 4) 0 started s)
          else map_option ((#) (left * 64 + v)) (b64_loop strict 0 0 0 started s))"

definition b64decode :: "bool \<Rightarrow> pystr \<Rightarrow> pybytes option" where
  "b64decode strict s =
     (if is_ascii s \<and> \<not> (strict \<and> starts_with s [61])
      then map_option (map of_nat) (b64_loop strict 0 0 0 False s) else None)"

text \<open>
  The \<open>_b64url_encode\<close> and \<open>_b64url_decode\<close> of the token modules: the URL-safe alphabet, with
  the padding removed and restored. The decoder is lenient.
\<close>

definition b64url_encode :: "pybytes \<Rightarrow> pystr" where
  "b64url_encode bs =
     rev (dropWhile (\<lambda>c. c = 61) (rev (map (\<lambda>c. if c = 43 then 45 else if c = 47 then 95 else c) (b64encode bs))))"

definition b64url_decode :: "pystr \<Rightarrow> pybytes option" where
  "b64url_decode s =
     b64decode False
       (map (\<lambda>c. if c = 45 then 43 else if c = 95 then 47 else c)
         (s @ replicate ((4 - length s mod 4) mod 4) 61))"

section \<open>Hexadecimal\<close>

definition hex_space :: "nat \<Rightarrow> bool" where
  "hex_space c \<longleftrightarrow> c \<in> {9, 10, 11, 12, 13, 32}"

fun from_hex :: "pystr \<Rightarrow> pybytes option" where
  "from_hex [] = Some []"
| "from_hex (c # s) =
     (if hex_space c then from_hex s
      else case s of
        [] \<Rightarrow> None
      | d # r \<Rightarrow>
          (case (hex_value c, hex_value d) of
             (Some x, Some y) \<Rightarrow> map_option ((#) (of_nat (16 * x + y))) (from_hex r)
           | _ \<Rightarrow> None))"

definition to_hex :: "pybytes \<Rightarrow> pystr" where
  "to_hex bs = concat (map (\<lambda>b. [hex_digit (unat b div 16), hex_digit (unat b mod 16)]) bs)"

section \<open>Round trips\<close>

lemma b64_value_char [simp]: "v < 64 \<Longrightarrow> b64_value (b64_char v) = Some v"
  by (auto simp: b64_value_def b64_char_def)

lemma b64_char_not_pad [simp]: "b64_char v \<noteq> 61"
  by (auto simp: b64_char_def)

lemma b64_char_less: "b64_char v < 128"
  by (auto simp: b64_char_def)

lemma b64_char_dot: "b64_char v \<noteq> 46"
  by (auto simp: b64_char_def)

lemma b64_char_url: "b64_char v \<noteq> 45" "b64_char v \<noteq> 95"
  by (auto simp: b64_char_def)

lemma b64_loop_units:
  "list_all (\<lambda>a. a < 256) us \<Longrightarrow> b64_loop strict 0 left pads False (b64_units us) = Some us"
proof (induction us arbitrary: left pads rule: b64_units.induct)
  case (4 a b c r)
  have "a div 4 < 64" "a mod 4 * 16 + b div 16 < 64" "b mod 16 * 4 + c div 64 < 64" "c mod 64 < 64"
    using 4 by auto
  moreover have "a div 4 * 4 + (a mod 4 * 16 + b div 16) div 16 = a"
    "(a mod 4 * 16 + b div 16) mod 16 * 16 + (b mod 16 * 4 + c div 64) div 4 = b"
    "(b mod 16 * 4 + c div 64) mod 4 * 64 + c mod 64 = c"
    using 4 by auto
  ultimately show ?case
    using 4 by simp
qed auto

lemma ascii_units64: "is_ascii (b64_units us)"
  by (induction us rule: b64_units.induct) (simp_all add: b64_char_less)

lemma unat_byte_less: "unat (b :: byte) < 256"
  using unsigned_less [of b] by simp

lemma bytes_nat [simp]: "list_all (\<lambda>a. a < 256) (map unat (bs :: pybytes))"
  by (simp add: list_all_iff unat_byte_less)

lemma b64_units_not_pad: "\<not> starts_with (b64_units us) [61]"
  by (cases us rule: b64_units.cases) auto

lemma b64_roundtrip [simp]: "b64decode strict (b64encode bs) = Some bs"
  by (simp add: b64decode_def b64encode_def ascii_units64 b64_units_not_pad b64_loop_units o_def)

lemma b64encode_inj: "b64encode a = b64encode b \<longleftrightarrow> a = b"
  using b64_roundtrip by (metis option.inject)

text \<open>The URL-safe form: its alphabet maps back, and its padding is determined by its length.\<close>

lemma unit_shapes:
  obtains s k where "b64_units us = s @ replicate k 61" "k = (4 - length s mod 4) mod 4" "list_all (\<lambda>c. c \<noteq> 61) s"
    "list_all (\<lambda>c. c \<noteq> 45 \<and> c \<noteq> 95) s"
proof -
  have "\<exists>s k. b64_units us = s @ replicate k 61 \<and> k = (4 - length s mod 4) mod 4
      \<and> list_all (\<lambda>c. c \<noteq> 61 \<and> c \<noteq> 45 \<and> c \<noteq> 95) s"
  proof (induction us rule: b64_units.induct)
    case (2 a)
    show ?case by (intro exI [of _ "[b64_char (a div 4), b64_char (a mod 4 * 16)]"] exI [of _ 2])
      (simp add: b64_char_url numeral_2_eq_2)
  next
    case (3 a b)
    show ?case
      by (intro exI [of _ "[b64_char (a div 4), b64_char (a mod 4 * 16 + b div 16), b64_char (b mod 16 * 4)]"]
        exI [of _ 1]) (simp add: b64_char_url)
  next
    case (4 a b c r)
    then obtain s k where r: "b64_units r = s @ replicate k 61" "k = (4 - length s mod 4) mod 4"
        "list_all (\<lambda>c. c \<noteq> 61 \<and> c \<noteq> 45 \<and> c \<noteq> 95) s" by blast
    let ?q = "[b64_char (a div 4), b64_char (a mod 4 * 16 + b div 16), b64_char (b mod 16 * 4 + c div 64), b64_char (c mod 64)]"
    show ?case
      using r by (intro exI [of _ "?q @ s"] exI [of _ k]) (simp add: b64_char_url)
  qed simp
  then show thesis by (auto intro: that simp: list_all_iff)
qed

lemma b64url_shape:
  obtains s k where "b64encode bs = s @ replicate k 61" "k = (4 - length s mod 4) mod 4"
    "list_all (\<lambda>c. c \<noteq> 61) s" "list_all (\<lambda>c. c \<noteq> 45 \<and> c \<noteq> 95) s"
    "b64url_encode bs = map (\<lambda>c. if c = 43 then 45 else if c = 47 then 95 else c) s"
proof -
  let ?f = "\<lambda>c. if c = 43 then 45 else if c = 47 then 95 else (c::nat)"
  obtain s k where s: "b64encode bs = s @ replicate k 61" "k = (4 - length s mod 4) mod 4"
      "list_all (\<lambda>c. c \<noteq> 61) s" "list_all (\<lambda>c. c \<noteq> 45 \<and> c \<noteq> 95) s"
    unfolding b64encode_def by (rule unit_shapes)
  have last: "s = [] \<or> ?f (last s) \<noteq> 61"
    using s(3) by (auto simp: list_all_iff)
  have "b64url_encode bs = rev (dropWhile (\<lambda>c. c = 61) (rev (map ?f s)))"
    by (simp add: b64url_encode_def s(1) dropWhile_append)
  also have "dropWhile (\<lambda>c. c = 61) (rev (map ?f s)) = rev (map ?f s)"
    using last by (intro dropWhile_hd_id) (auto simp: hd_rev last_map)
  finally show thesis using that s by simp
qed

lemma b64url_roundtrip [simp]: "b64url_decode (b64url_encode bs) = Some bs"
proof -
  let ?f = "\<lambda>c. if c = 43 then 45 else if c = 47 then 95 else (c::nat)"
  let ?g = "\<lambda>c. if c = 45 then 43 else if c = 95 then 47 else (c::nat)"
  obtain s k where s: "b64encode bs = s @ replicate k 61" "k = (4 - length s mod 4) mod 4"
      "list_all (\<lambda>c. c \<noteq> 45 \<and> c \<noteq> 95) s" "b64url_encode bs = map ?f s"
    by (rule b64url_shape)
  have "map (?g \<circ> ?f) s = s"
    using s(3) by (intro map_idI) (auto simp: list_all_iff)
  then show ?thesis
    using s(1,2) b64_roundtrip [of False bs] by (simp add: b64url_decode_def s(4))
qed

lemma b64_units_set: "c \<in> set (b64_units us) \<Longrightarrow> c \<noteq> 61 \<Longrightarrow> \<exists>v. c = b64_char v"
  by (induction us rule: b64_units.induct) auto

lemma b64url_Nil: "b64url_encode bs = [] \<longleftrightarrow> bs = []"
proof
  have nil: "b64url_encode [] = []" by (simp add: b64url_encode_def b64encode_def)
  show "b64url_encode bs = [] \<Longrightarrow> bs = []" using b64url_roundtrip nil by (metis option.inject)
  show "bs = [] \<Longrightarrow> b64url_encode bs = []" using nil by simp
qed

text \<open>Hexadecimal text of either case is read; the lower-case text is what the program writes.\<close>

lemma hex_digit_not_space: "d < 16 \<Longrightarrow> \<not> hex_space (hex_digit d)"
  by (auto simp: hex_space_def hex_digit_def)

lemma from_hex_to_hex [simp]: "from_hex (to_hex bs) = Some bs"
proof (induction bs)
  case (Cons b bs)
  have b: "unat b div 16 < 16" "unat b mod 16 < 16"
    using unat_byte_less [of b] by auto
  have "of_nat (16 * (unat b div 16) + unat b mod 16) = b"
    by (simp only: mult_div_mod_eq) simp
  then show ?case
    using Cons b by (simp add: to_hex_def hex_digit_not_space)
qed (simp add: to_hex_def)

end
