(* ===== verification/Slips.thy ===== *)
theory Slips
  imports Claim_Shapes Base64
begin

text \<open>
  The modules \<open>tokens_ed25519.py\<close>, \<open>tokens_p256.py\<close> and \<open>tokens_slips.py\<close>: the wire form of a
  slip, its signature under a trust root, and the delegation or approval it states.
\<close>

section \<open>Cryptography\<close>

text \<open>
  The \<open>cryptography\<close> package is a parameter. \<open>ed25519_verify key sig msg\<close> and
  \<open>p256_verify point sig digest\<close> are true if the call returns and false if it raises
  \<open>InvalidSignature\<close> or \<open>ValueError\<close>; \<open>p256_point\<close> reads an encoded point as its compressed
  form; \<open>dss_encode\<close> and \<open>dss_decode\<close> convert between the two scalars of an ECDSA signature
  and DER.
\<close>

record crypto =
  ed25519_verify :: "pybytes \<Rightarrow> pybytes \<Rightarrow> pybytes \<Rightarrow> bool"
  p256_point :: "pybytes \<Rightarrow> pybytes option"
  p256_verify :: "pybytes \<Rightarrow> pybytes \<Rightarrow> pybytes \<Rightarrow> bool"
  dss_encode :: "nat \<Rightarrow> nat \<Rightarrow> pybytes"
  dss_decode :: "pybytes \<Rightarrow> (int \<times> int) option"
  sha256_raw :: "pybytes \<Rightarrow> pybytes"

definition slip_context_delegation :: pystr where
  "slip_context_delegation = lit ''ambit.slip.delegation.v1''"

definition slip_context_approval :: pystr where
  "slip_context_approval = lit ''ambit.slip.approval.v1''"

definition slip_context_counterparty :: pystr where
  "slip_context_counterparty = lit ''ambit.slip.counterparty-context.v1''"

definition ed25519_prefix :: pystr where
  "ed25519_prefix = lit ''ed25519:''"

definition p256_prefix :: pystr where
  "p256_prefix = lit ''p256:''"

section \<open>The wire form\<close>

text \<open>\<open>token.count(".") == 1\<close> and \<open>token.split(".", 1)\<close>.\<close>

definition split_token :: "pystr \<Rightarrow> (pystr \<times> pystr) option" where
  "split_token token =
     (if length (filter (\<lambda>c. c = 46) token) = 1
      then Some (takeWhile (\<lambda>c. c \<noteq> 46) token, tl (dropWhile (\<lambda>c. c \<noteq> 46) token))
      else None)"

definition signed_bytes :: "pystr \<Rightarrow> pystr \<Rightarrow> pybytes option" where
  "signed_bytes context payload = utf8_encode (context @ lit ''.'' @ payload)"

text \<open>
  The payload as a JSON object whose canonical text it is. The canonical text of a value the
  strict parser returned always exists (\<open>slip_object_canonical\<close>), so this never raises.
\<close>

definition slip_object :: "interp \<Rightarrow> pystr \<Rightarrow> (pystr, json) dict option" where
  "slip_object I payload_b64 =
     (case b64url_decode payload_b64 of None \<Rightarrow> None | Some payload \<Rightarrow>
        case utf8_decode payload of None \<Rightarrow> None | Some text \<Rightarrow>
          case strict_json_loads I text of
            Inr (JObj d) \<Rightarrow> if canonical_json_bytes I (JObj d) = Inr payload then Some d else None
          | _ \<Rightarrow> None)"

section \<open>Ed25519\<close>

definition verify_slip_ed25519 ::
  "crypto \<Rightarrow> interp \<Rightarrow> pystr \<Rightarrow> pybytes \<Rightarrow> pystr \<Rightarrow> (pystr, json) dict option" where
  "verify_slip_ed25519 K I context key token =
     (case split_token token of None \<Rightarrow> None | Some (payload_b64, sig) \<Rightarrow>
        if \<not> starts_with sig ed25519_prefix then None
        else case b64decode True (drop (length ed25519_prefix) sig) of None \<Rightarrow> None | Some sig_bytes \<Rightarrow>
          (case signed_bytes context payload_b64 of None \<Rightarrow> None | Some msg \<Rightarrow>
             if ed25519_verify K key sig_bytes msg then slip_object I payload_b64 else None))"

definition seal_context :: pystr where
  "seal_context = lit ''ambit.envelope.seal.v1''"

definition seal_signed_bytes :: "pybytes \<Rightarrow> pybytes" where
  "seal_signed_bytes body = map of_nat seal_context @ [46] @ body"

definition verify_seal_ed25519 :: "crypto \<Rightarrow> pybytes \<Rightarrow> pystr \<Rightarrow> pybytes \<Rightarrow> bool" where
  "verify_seal_ed25519 K body signature_hex key =
     (case from_hex signature_hex of
        None \<Rightarrow> False
      | Some sig \<Rightarrow> ed25519_verify K key sig (seal_signed_bytes body))"

section \<open>P-256\<close>

definition p256_order :: nat where
  "p256_order = 0xFFFFFFFF00000000FFFFFFFFFFFFFFFFBCE6FAADA7179E84F3B9CAC2FC632551"

definition scalar_size :: nat where
  "scalar_size = 32"

text \<open>\<open>int.to_bytes(n, "big")\<close> and \<open>int.from_bytes(bs, "big")\<close>.\<close>

fun to_bytes :: "nat \<Rightarrow> nat \<Rightarrow> pybytes" where
  "to_bytes 0 x = []"
| "to_bytes (Suc n) x = to_bytes n (x div 256) @ [of_nat (x mod 256)]"

definition from_bytes :: "pybytes \<Rightarrow> nat" where
  "from_bytes bs = foldl (\<lambda>a b. 256 * a + unat b) 0 bs"

definition slip_digest_p256 :: "crypto \<Rightarrow> pystr \<Rightarrow> pystr \<Rightarrow> pybytes" where
  "slip_digest_p256 K context payload_b64 =
     sha256_raw K (map of_nat context @ [46] @ map of_nat payload_b64)"

definition canonical_raw_signature :: "crypto \<Rightarrow> pybytes \<Rightarrow> exc + pybytes" where
  "canonical_raw_signature K der =
     bnd (expect ValueError (dss_decode K der)) (\<lambda>(r, s).
     ensure (1 \<le> r \<and> r < int p256_order \<and> 1 \<le> s \<and> s < int p256_order) ValueError
     (let s = (if nat s > p256_order div 2 then p256_order - nat s else nat s)
      in Inr (to_bytes scalar_size (nat r) @ to_bytes scalar_size s)))"

definition encode_signature_p256 :: "crypto \<Rightarrow> pybytes \<Rightarrow> exc + pystr" where
  "encode_signature_p256 K der =
     bnd (canonical_raw_signature K der) (\<lambda>raw. Inr (p256_prefix @ b64encode raw))"

definition decode_signature_p256 :: "crypto \<Rightarrow> pystr \<Rightarrow> pybytes option" where
  "decode_signature_p256 K sig =
     (if \<not> starts_with sig p256_prefix then None
      else let sig_b64 = drop (length p256_prefix) sig
        in case b64decode True sig_b64 of None \<Rightarrow> None | Some raw \<Rightarrow>
          if length raw \<noteq> scalar_size * 2 then None
          else if b64encode raw \<noteq> sig_b64 then None
          else let r = from_bytes (take scalar_size raw); s = from_bytes (drop scalar_size raw)
            in if 1 \<le> r \<and> r < p256_order \<and> 1 \<le> s \<and> s \<le> p256_order div 2
               then Some (dss_encode K r s) else None)"

definition encode_slip_p256 :: "crypto \<Rightarrow> pystr \<Rightarrow> pybytes \<Rightarrow> exc + pystr" where
  "encode_slip_p256 K payload_b64 der =
     bnd (encode_signature_p256 K der) (\<lambda>sig. Inr (payload_b64 @ lit ''.'' @ sig))"

definition "k_trust_root = lit ''trust_root_id''"

definition prepare_slip_payload_p256 :: "interp \<Rightarrow> (pystr, json) dict \<Rightarrow> pystr \<Rightarrow> exc + pystr" where
  "prepare_slip_payload_p256 I claims root =
     ensure (root \<noteq> []) ValueError
     (bnd (canonical_json_bytes I (JObj (dict_set k_trust_root (JStr root) claims)))
       (\<lambda>bs. Inr (b64url_encode bs)))"

text \<open>The key argument is a point and whether its curve is \<open>SECP256R1\<close>.\<close>

definition verify_slip_p256 ::
  "crypto \<Rightarrow> interp \<Rightarrow> pystr \<Rightarrow> bool \<times> pybytes \<Rightarrow> pystr \<Rightarrow> (pystr, json) dict option" where
  "verify_slip_p256 K I context key token =
     (case split_token token of None \<Rightarrow> None | Some (payload_b64, encoded) \<Rightarrow>
        if \<not> fst key then None
        else case b64url_decode payload_b64 of None \<Rightarrow> None | Some payload \<Rightarrow>
          if b64url_encode payload \<noteq> payload_b64 then None
          else case decode_signature_p256 K encoded of None \<Rightarrow> None | Some der \<Rightarrow>
            if p256_verify K (snd key) der (slip_digest_p256 K context payload_b64)
            then slip_object I payload_b64 else None)"

section \<open>Trust roots\<close>

text \<open>\<open>None\<close> and an empty mapping of trust roots are both the empty dictionary here.\<close>

type_synonym trust_roots = "(pystr, json) dict"

definition peek_trust_root_id :: "interp \<Rightarrow> pystr \<Rightarrow> pystr option" where
  "peek_trust_root_id I payload_b64 =
     (case slip_object I payload_b64 of None \<Rightarrow> None | Some d \<Rightarrow>
        case get d k_trust_root of JStr s \<Rightarrow> if s = [] then None else Some s | _ \<Rightarrow> None)"

definition root_record :: "trust_roots \<Rightarrow> pystr \<Rightarrow> (pystr, json) dict option" where
  "root_record roots root = (case map_of roots root of Some (JObj r) \<Rightarrow> Some r | _ \<Rightarrow> None)"

definition resolve_trust_root :: "interp \<Rightarrow> pystr \<Rightarrow> trust_roots \<Rightarrow> pystr \<Rightarrow> pystr option" where
  "resolve_trust_root I payload_b64 roots scheme =
     (if roots = [] then None
      else case peek_trust_root_id I payload_b64 of None \<Rightarrow> None | Some root \<Rightarrow>
        case root_record roots root of None \<Rightarrow> None | Some r \<Rightarrow>
          if get r (lit ''scheme'') \<noteq> JStr scheme then None
          else case get r (lit ''public_key'') of JStr k \<Rightarrow> if k = [] then None else Some k | _ \<Rightarrow> None)"

text \<open>\<open>_resolve_ed25519_public_key\<close>, for artefacts that are not slips.\<close>

definition resolve_ed25519_public_key :: "interp \<Rightarrow> pystr \<Rightarrow> trust_roots \<Rightarrow> pybytes option" where
  "resolve_ed25519_public_key I payload_b64 public_keys =
     (if public_keys = [] then None
      else case peek_trust_root_id I payload_b64 of None \<Rightarrow> None | Some root \<Rightarrow>
        case get public_keys root of JStr k \<Rightarrow> if k = [] then None else from_hex k | _ \<Rightarrow> None)"

definition verified_slip_scheme :: "pystr \<Rightarrow> pystr option" where
  "verified_slip_scheme token =
     (case split_token token of None \<Rightarrow> None | Some (_, sig) \<Rightarrow>
        if starts_with sig ed25519_prefix then Some (lit ''ed25519'')
        else if starts_with sig p256_prefix then Some (lit ''p256'') else None)"

definition verified_slip_trust_root_id :: "interp \<Rightarrow> pystr \<Rightarrow> pystr option" where
  "verified_slip_trust_root_id I token =
     (case split_token token of None \<Rightarrow> None | Some (payload_b64, sig) \<Rightarrow>
        if \<not> (starts_with sig ed25519_prefix \<or> starts_with sig p256_prefix) then None
        else peek_trust_root_id I payload_b64)"

definition canonical_key_identity :: "crypto \<Rightarrow> trust_roots \<Rightarrow> pystr option \<Rightarrow> pystr option" where
  "canonical_key_identity K roots root =
     (case root of None \<Rightarrow> None | Some root \<Rightarrow>
        case root_record roots root of None \<Rightarrow> None | Some r \<Rightarrow>
          if get r (lit ''scheme'') \<notin> {JStr (lit ''ed25519''), JStr (lit ''p256'')} then None
          else case get r (lit ''public_key'') of
            JStr k \<Rightarrow>
              (case from_hex k of None \<Rightarrow> None | Some key \<Rightarrow>
                 if get r (lit ''scheme'') = JStr (lit ''p256'') then
                   map_option (\<lambda>p. lit ''p256:'' @ to_hex p) (p256_point K key)
                 else Some (lit ''ed25519:'' @ to_hex key))
          | _ \<Rightarrow> None)"

definition verified_slip_signer_id :: "crypto \<Rightarrow> interp \<Rightarrow> pystr \<Rightarrow> trust_roots \<Rightarrow> pystr option" where
  "verified_slip_signer_id K I token roots =
     (case (verified_slip_scheme token, verified_slip_trust_root_id I token) of
        (Some scheme, Some root) \<Rightarrow>
          (case canonical_key_identity K roots (Some root) of None \<Rightarrow> None | Some identity \<Rightarrow>
             if starts_with identity (scheme @ lit '':'') then Some identity else None)
      | _ \<Rightarrow> None)"

section \<open>Verified slips\<close>

definition verify_slip ::
  "crypto \<Rightarrow> interp \<Rightarrow> trust_roots \<Rightarrow> pystr \<Rightarrow> pystr list \<Rightarrow> pystr \<Rightarrow> (pystr, json) dict option" where
  "verify_slip K I roots context schemes token =
     (case split_token token of None \<Rightarrow> None | Some (payload_b64, sig) \<Rightarrow>
        if starts_with sig ed25519_prefix \<and> lit ''ed25519'' \<in> set schemes then
          (case resolve_trust_root I payload_b64 roots (lit ''ed25519'') of None \<Rightarrow> None | Some hex \<Rightarrow>
             case from_hex hex of None \<Rightarrow> None | Some key \<Rightarrow> verify_slip_ed25519 K I context key token)
        else if starts_with sig p256_prefix \<and> lit ''p256'' \<in> set schemes then
          (case resolve_trust_root I payload_b64 roots (lit ''p256'') of None \<Rightarrow> None | Some hex \<Rightarrow>
             case from_hex hex of None \<Rightarrow> None | Some bs \<Rightarrow>
               case p256_point K bs of None \<Rightarrow> None | Some point \<Rightarrow>
                 verify_slip_p256 K I context (True, point) token)
        else None)"

text \<open>The three exceptions that \<open>parse_delegation\<close> and \<open>parse_approval\<close> catch.\<close>

definition caught :: "exc + 'a \<Rightarrow> exc + 'a option" where
  "caught r = (case r of
     Inr x \<Rightarrow> Inr (Some x)
   | Inl e \<Rightarrow> if e \<in> {KeyError, TypeError, ValueError} then Inr None else Inl e)"

definition parse_delegation ::
  "crypto \<Rightarrow> interp \<Rightarrow> trust_roots \<Rightarrow> pystr \<Rightarrow> exc + delegation_claims option" where
  "parse_delegation K I roots token =
     (case verify_slip K I roots slip_context_delegation [lit ''ed25519''] token of
        None \<Rightarrow> Inr None
      | Some claims \<Rightarrow> caught (parse_delegation_claims False claims))"

text \<open>
  \<open>str(value)\<close> of a JSON value. The text of a list or an object starts with a bracket, which
  no datetime does.
\<close>

definition py_str :: "interp \<Rightarrow> json \<Rightarrow> pystr" where
  "py_str I v =
     (case v of
        JNull \<Rightarrow> lit ''None'' | JBool b \<Rightarrow> lit (if b then ''True'' else ''False'')
      | JInt n \<Rightarrow> int_text n | JFloat x \<Rightarrow> float_repr I x | JStr s \<Rightarrow> s
      | JList _ \<Rightarrow> lit ''['' | JObj _ \<Rightarrow> lit ''{'')"

text \<open>\<open>_normalize_claims\<close>: the two datetimes, where the keys are present.\<close>

definition normalize_claims ::
  "interp \<Rightarrow> (pystr, json) dict \<Rightarrow> exc + instant option \<times> instant option" where
  "normalize_claims I d =
     bnd (if has_key d (lit ''nbf'') then bnd (parse_dt (py_str I (get d (lit ''nbf'')))) (\<lambda>t. Inr (Some t))
          else Inr None) (\<lambda>b.
     bnd (if has_key d (lit ''exp'') then bnd (parse_dt (py_str I (get d (lit ''exp'')))) (\<lambda>t. Inr (Some t))
          else Inr None) (\<lambda>e. Inr (b, e)))"

definition approval_of :: "interp \<Rightarrow> (pystr, json) dict \<Rightarrow> exc + approval_claims" where
  "approval_of I d =
     bnd (normalize_claims I d) (\<lambda>(b, e).
     ensure (keys_within d approval_claim_keys) ValueError
     (bnd (parse_display_pair d) (\<lambda>(digest, version).
      bnd (required_str d (lit ''jti'')) (\<lambda>jti_v.
      bnd (required_str d (lit ''approver'')) (\<lambda>approver.
      bnd (required_str d (lit ''request_fingerprint'')) (\<lambda>fingerprint.
      bnd (required_str d (lit ''escalation_record_hash'')) (\<lambda>escalation.
      bnd (expect KeyError b) (\<lambda>nbf_v.
      bnd (expect KeyError e) (\<lambda>exp_v.
        Inr \<lparr>ap_jti = jti_v, ap_approver = approver, ap_request_fingerprint = fingerprint,
          ap_escalation_record_hash = escalation, ap_nbf = nbf_v, ap_exp = exp_v,
          ap_display_digest = digest, ap_display_contract_version = version\<rparr>)))))))))"

definition parse_approval ::
  "crypto \<Rightarrow> interp \<Rightarrow> trust_roots \<Rightarrow> pystr \<Rightarrow> exc + approval_claims option" where
  "parse_approval K I roots token =
     (case verify_slip K I roots slip_context_approval [lit ''ed25519'', lit ''p256''] token of
        None \<Rightarrow> Inr None
      | Some claims \<Rightarrow> caught (approval_of I claims))"

definition parse_counterparty_context ::
  "crypto \<Rightarrow> interp \<Rightarrow> trust_roots \<Rightarrow> pystr \<Rightarrow> (pystr, json) dict option" where
  "parse_counterparty_context K I roots token =
     verify_slip K I roots slip_context_counterparty [lit ''ed25519'', lit ''p256''] token"

section \<open>The payload\<close>

lemma slip_object_Some:
  assumes "slip_object I p = Some d"
  obtains payload u where "b64url_decode p = Some payload" "utf8_decode payload = Some u"
    "strict_json_loads I u = Inr (JObj d)" "canonical_json_bytes I (JObj d) = Inr payload"
  using assms by (auto simp: slip_object_def split: option.splits sum.splits json.splits if_splits)

lemma split_token_Some:
  assumes "split_token token = Some (p, s)"
  shows "token = p @ 46 # s" "46 \<notin> set p" "46 \<notin> set s"
proof -
  have n: "length (filter (\<lambda>c. c = 46) token) = 1" and p: "p = takeWhile (\<lambda>c. c \<noteq> 46) token"
    and s: "s = tl (dropWhile (\<lambda>c. c \<noteq> 46) token)"
    using assms by (auto simp: split_token_def split: if_splits)
  have "filter (\<lambda>c. c = 46) token \<noteq> []" using n by force
  then have "dropWhile (\<lambda>c. c \<noteq> 46) token \<noteq> []" by (auto simp: filter_empty_conv)
  then have d: "dropWhile (\<lambda>c. c \<noteq> 46) token = 46 # s"
    using s hd_dropWhile [of "\<lambda>c. c \<noteq> 46" token] by (cases "dropWhile (\<lambda>c. c \<noteq> 46) token") auto
  then show token: "token = p @ 46 # s" using p by (metis takeWhile_dropWhile_id)
  show "46 \<notin> set p" using p by (metis (mono_tags) set_takeWhileD)
  then show "46 \<notin> set s" using n token by (simp add: filter_empty_conv) blast
qed

lemma split_token_join:
  assumes "46 \<notin> set p" "46 \<notin> set s"
  shows "split_token (p @ 46 # s) = Some (p, s)"
proof -
  have "filter (\<lambda>c. c = 46) p = []" "filter (\<lambda>c. c = 46) s = []"
    using assms by (auto simp: filter_empty_conv)
  moreover have "takeWhile (\<lambda>c. c \<noteq> 46) (p @ 46 # s) = p" "dropWhile (\<lambda>c. c \<noteq> 46) (p @ 46 # s) = 46 # s"
    using assms(1) by (induction p) auto
  ultimately show ?thesis by (simp add: split_token_def)
qed

section \<open>Domain separation\<close>

lemma split_unique: "x \<notin> set a \<Longrightarrow> x \<notin> set b \<Longrightarrow> a @ x # r = b @ x # s \<Longrightarrow> a = b \<and> r = s"
proof (induction a arbitrary: b)
  case Nil
  then show ?case by (cases b) auto
next
  case (Cons y a)
  then show ?case by (cases b) auto
qed

text \<open>
  The bytes a slip signature covers determine the context and the payload, so a
  signature made for one context never verifies in another.
\<close>

theorem signed_bytes_inj:
  assumes "signed_bytes c p = Some m" "signed_bytes c' p' = Some m" "46 \<notin> set p" "46 \<notin> set p'"
  shows "c = c' \<and> p = p'"
proof -
  have "c @ 46 # p = c' @ 46 # p'"
    using assms(1,2) utf8_encode_inj by (fastforce simp: signed_bytes_def lit_def)
  then have "rev p @ 46 # rev c = rev p' @ 46 # rev c'"
    by (metis append_assoc append_Cons append_Nil rev_append rev.simps(2))
  then have "rev p = rev p'" "rev c = rev c'"
    using assms(3,4) split_unique [of 46 "rev p" "rev p'" "rev c" "rev c'"] by simp_all
  then show ?thesis by simp
qed

section \<open>P-256 signatures\<close>

lemma to_bytes_facts: "length (to_bytes n x) = n" "x < 256 ^ n \<Longrightarrow> from_bytes (to_bytes n x) = x"
proof (induction n arbitrary: x)
  case (Suc n)
  { case 1 show ?case using Suc by simp }
  { case 2
    have "x div 256 < 256 ^ n" using 2 by (simp add: less_mult_imp_div_less)
    then have "from_bytes (to_bytes n (x div 256)) = x div 256" using Suc by blast
    moreover have "unat (of_nat (x mod 256) :: byte) = x mod 256" by (simp add: unat_of_nat)
    ultimately show ?case by (simp add: from_bytes_def) }
qed (simp_all add: from_bytes_def)

lemma from_bytes_snoc: "from_bytes (bs @ [b]) = 256 * from_bytes bs + unat b"
  by (simp add: from_bytes_def)

lemma to_from_bytes: "to_bytes (length bs) (from_bytes bs) = bs"
proof (induction bs rule: rev_induct)
  case (snoc b bs)
  have "unat b < 256" by (rule unat_byte_less)
  then show ?case using snoc by (simp add: from_bytes_snoc)
qed simp

definition low_s :: "nat \<Rightarrow> nat \<Rightarrow> bool" where
  "low_s r s \<longleftrightarrow> 1 \<le> r \<and> r < p256_order \<and> 1 \<le> s \<and> s \<le> p256_order div 2"

definition wire_signature :: "nat \<Rightarrow> nat \<Rightarrow> pystr" where
  "wire_signature r s = p256_prefix @ b64encode (to_bytes scalar_size r @ to_bytes scalar_size s)"

lemma order_bytes: "p256_order < 256 ^ scalar_size"
  by (simp add: p256_order_def scalar_size_def)

lemma decode_p256_iff:
  "decode_signature_p256 K sig = Some der \<longleftrightarrow>
    (\<exists>r s. low_s r s \<and> sig = wire_signature r s \<and> der = dss_encode K r s)"
proof
  assume a: "decode_signature_p256 K sig = Some der"
  then obtain raw where pre: "starts_with sig p256_prefix" and len: "length raw = scalar_size * 2"
      and enc: "b64encode raw = drop (length p256_prefix) sig"
      and ok: "low_s (from_bytes (take scalar_size raw)) (from_bytes (drop scalar_size raw))"
      and der: "der = dss_encode K (from_bytes (take scalar_size raw)) (from_bytes (drop scalar_size raw))"
    by (auto simp: decode_signature_p256_def Let_def low_s_def split: if_splits option.splits)
  have "sig = p256_prefix @ b64encode raw"
    using pre enc by (auto simp: starts_with_iff)
  moreover have "to_bytes scalar_size (from_bytes (take scalar_size raw)) = take scalar_size raw"
    "to_bytes scalar_size (from_bytes (drop scalar_size raw)) = drop scalar_size raw"
    using to_from_bytes [of "take scalar_size raw"] to_from_bytes [of "drop scalar_size raw"] len by simp_all
  ultimately have "sig = wire_signature (from_bytes (take scalar_size raw)) (from_bytes (drop scalar_size raw))"
    by (simp add: wire_signature_def)
  with ok der show "\<exists>r s. low_s r s \<and> sig = wire_signature r s \<and> der = dss_encode K r s" by blast
next
  assume "\<exists>r s. low_s r s \<and> sig = wire_signature r s \<and> der = dss_encode K r s"
  then obtain r s where rs: "low_s r s" "sig = wire_signature r s" "der = dss_encode K r s" by blast
  have b: "r < 256 ^ scalar_size" "s < 256 ^ scalar_size"
    using rs(1) order_bytes unfolding low_s_def by linarith+
  show "decode_signature_p256 K sig = Some der"
    using rs to_bytes_facts b by (simp add: decode_signature_p256_def wire_signature_def low_s_def Let_def)
qed

text \<open>
  One signature has one wire form. The decoder accepts exactly the prefix followed by the
  padded base64 text of two 32-byte scalars in range, the second in the lower half of the
  order, and returns their DER form.
\<close>

theorem p256_signature_canonical:
  "decode_signature_p256 K sig = Some der \<longleftrightarrow>
    (\<exists>r s. low_s r s \<and> sig = wire_signature r s \<and> der = dss_encode K r s)"
  by (rule decode_p256_iff)

lemma encode_signature_wire:
  assumes "encode_signature_p256 K der = Inr sig"
  obtains r s where "sig = wire_signature r s" "low_s r s"
    "dss_decode K der = Some (int r, int s) \<or> dss_decode K der = Some (int r, int (p256_order - s))"
proof -
  obtain a b where ab: "dss_decode K der = Some (a, b)" "1 \<le> a" "a < int p256_order" "1 \<le> b" "b < int p256_order"
      and sig: "sig = wire_signature (nat a) (if nat b > p256_order div 2 then p256_order - nat b else nat b)"
    using assms
    by (auto simp: encode_signature_p256_def canonical_raw_signature_def raise_simps wire_signature_def Let_def)
  have odd: "p256_order = 2 * (p256_order div 2) + 1" by (simp add: p256_order_def)
  define s where "s = (if nat b > p256_order div 2 then p256_order - nat b else nat b)"
  have "low_s (nat a) s"
    using ab(2-5) odd unfolding low_s_def s_def by (auto split: if_splits)
  moreover have "dss_decode K der = Some (int (nat a), int s) \<or> dss_decode K der = Some (int (nat a), int (p256_order - s))"
    using ab unfolding s_def by (auto split: if_splits)
  ultimately show thesis using sig by (intro that) (auto simp: s_def)
qed


section \<open>Verified claims\<close>

text \<open>
  What an accepted slip establishes: the token is a payload and a signature, the claims are
  the object whose canonical bytes the payload encodes, and a key that the claims' own trust
  root registers for the scheme of the signature verified it over the context and payload.
\<close>

definition ed25519_signed :: "crypto \<Rightarrow> pystr \<Rightarrow> pystr \<Rightarrow> pystr \<Rightarrow> pybytes \<Rightarrow> bool" where
  "ed25519_signed K context payload sig key \<longleftrightarrow>
     (\<exists>sig_bytes msg. starts_with sig ed25519_prefix
        \<and> b64decode True (drop (length ed25519_prefix) sig) = Some sig_bytes
        \<and> signed_bytes context payload = Some msg \<and> ed25519_verify K key sig_bytes msg)"

definition p256_signed :: "crypto \<Rightarrow> pystr \<Rightarrow> pystr \<Rightarrow> pystr \<Rightarrow> pybytes \<Rightarrow> bool" where
  "p256_signed K context payload sig point \<longleftrightarrow>
     (\<exists>bs a b. b64url_decode payload = Some bs \<and> b64url_encode bs = payload
        \<and> low_s a b \<and> sig = wire_signature a b
        \<and> p256_verify K point (dss_encode K a b) (slip_digest_p256 K context payload))"

definition signed_by ::
  "crypto \<Rightarrow> interp \<Rightarrow> trust_roots \<Rightarrow> pystr \<Rightarrow> pystr list \<Rightarrow> pystr \<Rightarrow> (pystr, json) dict \<Rightarrow> bool" where
  "signed_by K I roots context schemes token d \<longleftrightarrow>
     (\<exists>payload sig bs root r hex key.
        split_token token = Some (payload, sig) \<and> slip_object I payload = Some d
        \<and> b64url_decode payload = Some bs \<and> canonical_json_bytes I (JObj d) = Inr bs
        \<and> get d k_trust_root = JStr root \<and> root \<noteq> [] \<and> root_record roots root = Some r
        \<and> get r (lit ''public_key'') = JStr hex \<and> hex \<noteq> [] \<and> from_hex hex = Some key
        \<and> (lit ''ed25519'' \<in> set schemes \<and> get r (lit ''scheme'') = JStr (lit ''ed25519'')
             \<and> ed25519_signed K context payload sig key
           \<or> lit ''p256'' \<in> set schemes \<and> get r (lit ''scheme'') = JStr (lit ''p256'')
             \<and> (\<exists>point. p256_point K key = Some point \<and> p256_signed K context payload sig point)))"

lemma slip_object_bytes:
  "slip_object I p = Some d \<Longrightarrow> \<exists>bs. b64url_decode p = Some bs \<and> canonical_json_bytes I (JObj d) = Inr bs"
  by (erule slip_object_Some) blast

lemma resolve_root_iff:
  "resolve_trust_root I p roots scheme = Some hex \<longleftrightarrow>
    (\<exists>d root r. slip_object I p = Some d \<and> get d k_trust_root = JStr root \<and> root \<noteq> []
      \<and> root_record roots root = Some r \<and> get r (lit ''scheme'') = JStr scheme
      \<and> get r (lit ''public_key'') = JStr hex \<and> hex \<noteq> [])"
  (is "?l \<longleftrightarrow> ?r")
proof
  show "?l \<Longrightarrow> ?r"
    by (auto simp: resolve_trust_root_def peek_trust_root_id_def split: if_splits option.splits json.splits)
  assume ?r
  moreover from this have "roots \<noteq> []" by (auto simp: root_record_def)
  ultimately show ?l by (auto simp: resolve_trust_root_def peek_trust_root_id_def)
qed

lemma verify_ed25519_Some:
  "split_token token = Some (p, sig) \<Longrightarrow> verify_slip_ed25519 K I context key token = Some d \<longleftrightarrow>
    ed25519_signed K context p sig key \<and> slip_object I p = Some d"
  by (auto simp: verify_slip_ed25519_def ed25519_signed_def split: option.splits)

lemma verify_p256_Some:
  assumes "split_token token = Some (p, sig)"
  shows "verify_slip_p256 K I context (True, point) token = Some d \<longleftrightarrow>
    p256_signed K context p sig point \<and> slip_object I p = Some d"
proof -
  have "verify_slip_p256 K I context (True, point) token = Some d \<longleftrightarrow>
    (\<exists>bs der. b64url_decode p = Some bs \<and> b64url_encode bs = p \<and> decode_signature_p256 K sig = Some der
      \<and> p256_verify K point der (slip_digest_p256 K context p) \<and> slip_object I p = Some d)"
    using assms by (auto simp: verify_slip_p256_def split: option.splits if_splits)
  then show ?thesis unfolding decode_p256_iff p256_signed_def by blast
qed

lemma prefixes_differ: "starts_with s ed25519_prefix \<Longrightarrow> \<not> starts_with s p256_prefix"
  by (auto simp: ed25519_prefix_def p256_prefix_def starts_with_iff lit_def)

lemma wire_prefix: "starts_with (wire_signature a b) p256_prefix"
  by (simp add: wire_signature_def)


lemma verify_slip_cases:
  assumes "split_token token = Some (p, sig)"
  shows "verify_slip K I roots context schemes token = Some d \<longleftrightarrow>
    (\<exists>hex key. lit ''ed25519'' \<in> set schemes \<and> resolve_trust_root I p roots (lit ''ed25519'') = Some hex
       \<and> from_hex hex = Some key \<and> verify_slip_ed25519 K I context key token = Some d)
    \<or> (\<exists>hex key point. lit ''p256'' \<in> set schemes \<and> resolve_trust_root I p roots (lit ''p256'') = Some hex
       \<and> from_hex hex = Some key \<and> p256_point K key = Some point
       \<and> verify_slip_p256 K I context (True, point) token = Some d)"
    (is "?l \<longleftrightarrow> ?ed \<or> ?p256")
proof -
  have "?ed \<Longrightarrow> starts_with sig ed25519_prefix" "?p256 \<Longrightarrow> starts_with sig p256_prefix"
    using wire_prefix
    by (auto simp: verify_ed25519_Some [OF assms] verify_p256_Some [OF assms] ed25519_signed_def p256_signed_def)
  then show ?thesis
    using assms prefixes_differ [of sig] unfolding verify_slip_def
    by (auto split: if_splits option.splits)
qed

lemma verify_slip_signed:
  "verify_slip K I roots context schemes token = Some d \<longleftrightarrow> signed_by K I roots context schemes token d"
proof (cases "split_token token")
  case None
  then show ?thesis by (simp add: verify_slip_def signed_by_def)
next
  case (Some ps)
  then obtain p sig where t: "split_token token = Some (p, sig)" by (cases ps) auto
  show ?thesis
  proof (cases "slip_object I p = Some d")
    case True
    then obtain bs where bs: "b64url_decode p = Some bs" "canonical_json_bytes I (JObj d) = Inr bs"
      using slip_object_bytes by blast
    show ?thesis
      unfolding verify_slip_cases [OF t] signed_by_def resolve_root_iff verify_ed25519_Some [OF t]
        verify_p256_Some [OF t]
      by (simp add: t True bs) blast
  next
    case False
    then show ?thesis
      unfolding verify_slip_cases [OF t] signed_by_def verify_ed25519_Some [OF t] verify_p256_Some [OF t]
      by (simp add: t)
  qed
qed


section \<open>Writing a slip\<close>

lemma utf8_canonical: "float_codec I v \<Longrightarrow> utf8_decode (map of_nat (dumps (float_repr I) v)) = Some (dumps (float_repr I) v)"
  by (rule utf8_decode_ascii [OF float_codec_ascii])

lemma norm_obj: "\<exists>d'. norm_json (JObj d) = JObj d'"
  unfolding norm_obj_eq by blast

lemma slip_object_encode:
  assumes "json_ok (JObj d)" "printable (JObj d)" "json_depth (JObj d) \<le> max_json_nesting" "float_codec I (JObj d)"
    and "norm_json (JObj d) = JObj d'"
  shows "slip_object I (b64url_encode (map of_nat (dumps (float_repr I) (JObj d)))) = Some d'"
proof -
  have "strict_json_loads I (dumps (float_repr I) (JObj d)) = Inr (JObj d')"
    using strict_loads_dumps [OF assms(1-4)] assms(5) by simp
  moreover from this have "printable (JObj d')"
    using strict_json_loads_ok ascii_scalar_text [OF float_codec_ascii [OF assms(4)]] by blast
  then have "canonical_json_bytes I (JObj d') = Inr (map of_nat (dumps (float_repr I) (JObj d)))"
    using dumps_norm [OF assms(1), of "float_repr I"] assms(5) unfolding canonical_json_bytes_Inr by simp
  ultimately show ?thesis
    unfolding slip_object_def b64url_roundtrip option.case utf8_canonical [OF assms(4)] by simp
qed


lemma slip_object_canonical:
  assumes "utf8_decode payload = Some u" "strict_json_loads I u = Inr v"
  shows "\<exists>bs. canonical_json_bytes I v = Inr bs"
  using strict_json_loads_ok [OF assms(2) utf8_decode_scalar [OF assms(1)]] by (simp add: canonical_json_bytes_def)

text \<open>The members of a claim set with its trust root, as the payload of a slip carries them.\<close>

definition rooted :: "(pystr, json) dict \<Rightarrow> pystr \<Rightarrow> json" where
  "rooted claims root = JObj (dict_set k_trust_root (JStr root) claims)"

lemma b64_units_no_dot: "46 \<notin> set (b64_units us)"
  by (induction us rule: b64_units.induct) (simp_all add: b64_char_dot [symmetric])

lemma b64url_no_dot: "46 \<notin> set (b64url_encode bs)"
proof
  assume "46 \<in> set (b64url_encode bs)"
  then have "46 \<in> set (map (\<lambda>c. if c = 43 then 45 else if c = 47 then 95 else c) (b64encode bs))"
    unfolding b64url_encode_def set_rev by (drule_tac set_dropWhileD) simp
  then show False
    using b64_units_no_dot [of "map unat bs"] by (auto simp: b64encode_def split: if_splits)
qed

lemma b64url_ascii: "is_ascii (b64url_encode bs)"
proof -
  have "c < 128" if "c \<in> set (b64url_encode bs)" for c
  proof -
    have "c \<in> set (map (\<lambda>c. if c = 43 then 45 else if c = 47 then 95 else c) (b64encode bs))"
      using that unfolding b64url_encode_def set_rev by (drule_tac set_dropWhileD) simp
    then show ?thesis
      using ascii_units64 [of "map unat bs"] by (auto simp: b64encode_def is_ascii_def list_all_iff split: if_splits)
  qed
  then show ?thesis by (simp add: is_ascii_def list_all_iff)
qed

lemma wire_no_dot: "46 \<notin> set (wire_signature a b)"
  using b64_units_no_dot by (simp add: wire_signature_def b64encode_def) (simp add: p256_prefix_def lit_def)

text \<open>
  A payload prepared for a trust root, signed on a device and encoded as a P-256 slip
  verifies, and gives back the prepared claims with their keys sorted. The device may return
  either of the two signatures with one \<open>r\<close>; what is verified is the low one.
\<close>

theorem p256_slip_roundtrip:
  assumes "prepare_slip_payload_p256 I claims root = Inr payload"
    and "encode_slip_p256 K payload der = Inr token"
    and "json_ok (rooted claims root)" "json_depth (rooted claims root) \<le> max_json_nesting"
    and "float_codec I (rooted claims root)"
    and signs: "\<And>a b. low_s a b \<Longrightarrow> dss_decode K der \<in> {Some (int a, int b), Some (int a, int (p256_order - b))} \<Longrightarrow>
      p256_verify K point (dss_encode K a b) (slip_digest_p256 K context payload)"
  shows "\<exists>d. verify_slip_p256 K I context (True, point) token = Some d \<and> norm_json (rooted claims root) = JObj d"
proof -
  let ?v = "rooted claims root"
  have p: "printable ?v" and payload: "payload = b64url_encode (map of_nat (dumps (float_repr I) ?v))"
    using assms(1) by (auto simp: prepare_slip_payload_p256_def raise_simps canonical_json_bytes_Inr rooted_def)
  obtain d where d: "norm_json ?v = JObj d"
    using norm_obj unfolding rooted_def by blast
  have obj: "slip_object I payload = Some d"
    using slip_object_encode [of "dict_set k_trust_root (JStr root) claims" I d] assms(3-5) p d payload
    by (simp add: rooted_def)
  obtain sig where sig: "encode_signature_p256 K der = Inr sig" "token = payload @ 46 # sig"
    using assms(2) by (auto simp: encode_slip_p256_def raise_simps lit_def)
  then obtain a b where ab: "sig = wire_signature a b" "low_s a b"
      "dss_decode K der = Some (int a, int b) \<or> dss_decode K der = Some (int a, int (p256_order - b))"
    by (blast elim: encode_signature_wire)
  have t: "split_token token = Some (payload, sig)"
    unfolding sig(2) by (rule split_token_join) (simp_all add: payload b64url_no_dot ab(1) wire_no_dot)
  have "p256_signed K context payload sig point"
    unfolding p256_signed_def using ab signs [OF ab(2)] payload
    by (intro exI [of _ "map of_nat (dumps (float_repr I) ?v)"] exI [of _ a] exI [of _ b]) auto
  then show ?thesis
    using verify_p256_Some [OF t] obj d by blast
qed

section \<open>Parsed slips\<close>

lemma caught_Inr: "caught r = Inr (Some x) \<longleftrightarrow> r = Inr x"
  by (auto simp: caught_def split: sum.splits)

text \<open>
  C24: a delegation is returned exactly for a slip that carries an Ed25519 signature, by the
  key its own trust root registers, over the delegation context and a payload that is the
  canonical text of claims of the delegation shape; and an approval exactly for such a slip
  of the approval context, signed with either scheme.
\<close>

theorem parsed_slips_iff:
  "(parse_delegation K I roots token = Inr (Some c) \<longleftrightarrow>
     (\<exists>d. signed_by K I roots slip_context_delegation [lit ''ed25519''] token d
       \<and> parse_delegation_claims False d = Inr c))
   \<and> (parse_approval K I roots token = Inr (Some a) \<longleftrightarrow>
     (\<exists>d. signed_by K I roots slip_context_approval [lit ''ed25519'', lit ''p256''] token d
       \<and> approval_of I d = Inr a))"
  unfolding parse_delegation_def parse_approval_def verify_slip_signed [symmetric]
  by (auto simp: caught_Inr split: option.splits)

lemma parse_delegation_accepted:
  "parse_delegation K I roots token = Inr (Some c) \<Longrightarrow> \<exists>d. parse_delegation_claims False d = Inr c"
  by (auto simp: parse_delegation_def caught_Inr split: option.splits)


lemma caught_raises: "raises_only shape_errors r \<Longrightarrow> caught r = Inl e \<Longrightarrow> e = OverflowError"
  by (auto simp: caught_def raises_only_def split: sum.splits if_splits)

lemma parse_delegation_raises: "parse_delegation K I roots token = Inl e \<Longrightarrow> e = OverflowError"
  by (auto simp: parse_delegation_def dest: caught_raises [OF parse_delegation_claims_raises] split: option.splits)

section \<open>Concrete slips\<close>

definition demo_crypto :: crypto where
  "demo_crypto = \<lparr>ed25519_verify = (\<lambda>k s m. True), p256_point = Some, p256_verify = (\<lambda>k s m. s = [1]),
     dss_encode = (\<lambda>r s. [of_nat s]), dss_decode = (\<lambda>d. Some (5, int p256_order - 1)), sha256_raw = id\<rparr>"

definition demo_slip_roots :: trust_roots where
  "demo_slip_roots = [(lit ''k'', JObj [(lit ''scheme'', JStr (lit ''ed25519'')), (lit ''public_key'', JStr (lit ''00''))])]"

definition early_claims :: "(pystr, json) dict" where
  "early_claims = [(lit ''nbf'', JStr early_text)]"

definition early_token :: pystr where
  "early_token = b64url_encode (map of_nat (dumps (float_repr demo_interp) (rooted early_claims (lit ''k''))))
     @ 46 # lit ''ed25519:''"

lemma early_facts:
  "json_ok (rooted early_claims (lit ''k''))" "printable (rooted early_claims (lit ''k''))"
  "json_depth (rooted early_claims (lit ''k'')) \<le> max_json_nesting" "float_codec demo_interp (rooted early_claims (lit ''k''))"
  "norm_json (rooted early_claims (lit ''k'')) = rooted early_claims (lit ''k'')"
  by (simp_all add: rooted_def early_claims_def early_text_def k_trust_root_def lit_def dict_ok_def is_surrogate_def
      max_json_nesting_def float_codec_def)

lemma early_object:
  "slip_object demo_interp (b64url_encode (map of_nat (dumps (float_repr demo_interp) (rooted early_claims (lit ''k'')))))
    = Some (dict_set k_trust_root (JStr (lit ''k'')) early_claims)"
  unfolding rooted_def by (rule slip_object_encode) (fact early_facts [unfolded rooted_def])+

text \<open>
  A signed slip whose \<open>nbf\<close> is a datetime that leaves the years 1 to 9999 in UTC makes
  \<open>parse_delegation\<close> raise \<open>OverflowError\<close>: it is not one of the three exceptions the
  function catches.
\<close>

theorem delegation_overflow_escapes:
  "parse_delegation demo_crypto demo_interp demo_slip_roots early_token = Inl OverflowError"
proof -
  let ?p = "b64url_encode (map of_nat (dumps (float_repr demo_interp) (rooted early_claims (lit ''k''))))"
  let ?d = "dict_set k_trust_root (JStr (lit ''k'')) early_claims"
  have t: "split_token early_token = Some (?p, lit ''ed25519:'')"
    unfolding early_token_def by (rule split_token_join) (simp_all add: b64url_no_dot, simp add: lit_def)
  obtain bs where bs: "b64url_decode ?p = Some bs" "canonical_json_bytes demo_interp (JObj ?d) = Inr bs"
    using slip_object_bytes [OF early_object] by blast
  have msg: "\<exists>m. signed_bytes slip_context_delegation ?p = Some m"
    using b64url_ascii by (simp add: signed_bytes_def utf8_encode_def ascii_scalar_text slip_context_delegation_def is_ascii_lit)
  have "ed25519_signed demo_crypto slip_context_delegation ?p (lit ''ed25519:'') [0]"
    using msg by (auto simp: ed25519_signed_def ed25519_prefix_def demo_crypto_def b64decode_def is_ascii_def starts_with_iff)
  moreover have "get ?d k_trust_root = JStr (lit ''k'')"
    "root_record demo_slip_roots (lit ''k'') = Some [(lit ''scheme'', JStr (lit ''ed25519'')), (lit ''public_key'', JStr (lit ''00''))]"
    "from_hex (lit ''00'') = Some [0]"
    by (simp_all add: root_record_def demo_slip_roots_def) (simp add: lit_def hex_space_def hex_value_def)
  ultimately have "signed_by demo_crypto demo_interp demo_slip_roots slip_context_delegation [lit ''ed25519''] early_token ?d"
    unfolding signed_by_def using t early_object bs by fastforce
  then have "verify_slip demo_crypto demo_interp demo_slip_roots slip_context_delegation [lit ''ed25519''] early_token = Some ?d"
    by (simp add: verify_slip_signed)
  moreover have "parse_delegation_claims False ?d = Inl OverflowError"
    by (simp add: parse_delegation_claims_def keys_within_def delegation_claim_keys_def early_claims_def
        k_trust_root_def claim_dt_def early_overflow) (simp add: early_text_def)
  ultimately show ?thesis by (simp add: parse_delegation_def caught_def)
qed


theorem signed_bytes_inj_witness:
  "signed_bytes (lit ''a'') (lit ''b'') = Some [97, 46, 98] \<and> 46 \<notin> set (lit ''b'')
    \<and> lit ''a'' = lit ''a'' \<and> lit ''b'' = lit ''b''"
  using signed_bytes_inj [of "lit ''a''" "lit ''b''" "[97, 46, 98]" "lit ''a''" "lit ''b''"]
  by (simp add: signed_bytes_def utf8_encode_def utf8_char_def is_surrogate_def) (simp add: lit_def utf8_char_def is_surrogate_def)

theorem p256_slip_roundtrip_witness:
  "verify_slip_p256 demo_crypto demo_interp slip_context_approval (True, [])
     (b64url_encode (map of_nat (dumps (float_repr demo_interp) (rooted early_claims (lit ''k'')))) @ 46 # wire_signature 5 1)
   = Some (dict_set k_trust_root (JStr (lit ''k'')) early_claims)"
proof -
  let ?p = "b64url_encode (map of_nat (dumps (float_repr demo_interp) (rooted early_claims (lit ''k''))))"
  have prep: "prepare_slip_payload_p256 demo_interp early_claims (lit ''k'') = Inr ?p"
    using early_facts(2) by (simp add: prepare_slip_payload_p256_def canonical_json_bytes_def rooted_def)
  have enc: "encode_slip_p256 demo_crypto ?p [] = Inr (?p @ 46 # wire_signature 5 1)"
    by (simp add: encode_slip_p256_def encode_signature_p256_def canonical_raw_signature_def demo_crypto_def
        p256_order_def Let_def wire_signature_def) (simp add: lit_def)
  have signs: "p256_verify demo_crypto [] (dss_encode demo_crypto a b) (slip_digest_p256 demo_crypto slip_context_approval ?p)"
    if "low_s a b" "dss_decode demo_crypto [] \<in> {Some (int a, int b), Some (int a, int (p256_order - b))}" for a b
    using that by (auto simp: demo_crypto_def low_s_def p256_order_def)
  obtain d where d: "verify_slip_p256 demo_crypto demo_interp slip_context_approval (True, []) (?p @ 46 # wire_signature 5 1) = Some d"
      "norm_json (rooted early_claims (lit ''k'')) = JObj d"
    using p256_slip_roundtrip [OF prep enc early_facts(1,3,4) signs] by blast
  then have "JObj d = rooted early_claims (lit ''k'')"
    using early_facts(5) by metis
  then have "d = dict_set k_trust_root (JStr (lit ''k'')) early_claims"
    unfolding rooted_def by blast
  with d(1) show ?thesis by metis
qed

end
