(* ===== verification/Revocation.thy ===== *)
theory Revocation
  imports Moments Slips
begin

text \<open>
  The modules \<open>revocation_types.py\<close>, \<open>status_evidence.py\<close> and \<open>revocation_fence.py\<close>: a signed
  revocation status, the artefact it is retained as, the order of the epochs in a set of
  artefacts, and the two compact tokens of a revocation fence.
\<close>

section \<open>Signed statuses\<close>

definition revocation_context :: pystr where
  "revocation_context = lit ''ambit.revocation.status.v1''"

definition revocation_context_v2 :: pystr where
  "revocation_context_v2 = lit ''ambit.revocation.status.v2''"

definition valid_revocation_request_nonce :: "json \<Rightarrow> bool" where
  "valid_revocation_request_nonce v = (case v of JStr s \<Rightarrow> hex64 s | _ \<Rightarrow> False)"

record revocation_status =
  is_revoked :: bool
  checked_at :: instant
  freshness_bound_ms :: "int option"
  status_source :: pystr
  status_verifiable :: bool
  attestation :: "pystr option"
  status_root :: "pystr option"
  revocation_epoch :: "int option"
  request_nonce :: "pystr option"

definition revocation_source_unavailable :: "revocation_status \<Rightarrow> bool" where
  "revocation_source_unavailable s \<longleftrightarrow>
     status_source s \<noteq> [] \<and> ends_with (status_source s) (lit ''_unavailable'')"

definition signed_status_bytes :: "interp \<Rightarrow> (pystr, json) dict \<Rightarrow> pystr \<Rightarrow> exc + pybytes" where
  "signed_status_bytes I payload context =
     bnd (expect ValueError (utf8_encode context)) (\<lambda>c.
     bnd (canonical_json_bytes I (JObj payload)) (\<lambda>body. Inr (c @ [46] @ body)))"

text \<open>
  The epoch and the nonce are written where the status states them; a nonce needs an epoch and
  the form of a challenge.
\<close>

definition with_epoch ::
  "revocation_status \<Rightarrow> (pystr, json) dict \<Rightarrow> exc + (pystr, json) dict" where
  "with_epoch s d =
     (let d = (case revocation_epoch s of None \<Rightarrow> d | Some e \<Rightarrow> dict_set (lit ''revocation_epoch'') (JInt e) d)
      in case request_nonce s of
        None \<Rightarrow> Inr d
      | Some n \<Rightarrow>
          ensure (hex64 n) ValueError
          (ensure (revocation_epoch s \<noteq> None) ValueError
          (Inr (dict_set (lit ''request_nonce'') (JStr n) d))))"

definition revocation_attestation_payload ::
  "revocation_status \<Rightarrow> pystr \<Rightarrow> exc + (pystr, json) dict" where
  "revocation_attestation_payload s ident =
     with_epoch s
       [(lit ''checked_at'', JStr (canonical_iso (checked_at s))),
        (lit ''freshness_bound_ms'', opt_json JInt (freshness_bound_ms s)),
        (lit ''is_revoked'', JBool (is_revoked s)), (lit ''jti'', JStr ident),
        (lit ''source'', JStr (status_source s)), (lit ''trust_root_id'', opt_json JStr (status_root s))]"

text \<open>
  The signature test returns false for whatever it catches: every exception of the two calls
  inside it is a \<open>ValueError\<close>.
\<close>

definition ed25519_over :: "crypto \<Rightarrow> pystr \<Rightarrow> pybytes \<Rightarrow> exc + pybytes \<Rightarrow> bool" where
  "ed25519_over K sig key message =
     (case b64decode True (drop (length ed25519_prefix) sig) of
        None \<Rightarrow> False
      | Some raw \<Rightarrow> (case message of Inl _ \<Rightarrow> False | Inr m \<Rightarrow> ed25519_verify K key raw m))"

definition status_message :: "interp \<Rightarrow> revocation_status \<Rightarrow> pystr \<Rightarrow> exc + pybytes" where
  "status_message I s ident =
     bnd (revocation_attestation_payload s ident) (\<lambda>payload.
       signed_status_bytes I payload
         (if request_nonce s = None then revocation_context else revocation_context_v2))"

definition verify_revocation_attestation ::
  "crypto \<Rightarrow> interp \<Rightarrow> revocation_status \<Rightarrow> pystr \<Rightarrow> pybytes \<Rightarrow> bool" where
  "verify_revocation_attestation K I s ident key =
     (case attestation s of
        None \<Rightarrow> False
      | Some a \<Rightarrow> if \<not> starts_with a ed25519_prefix then False
          else ed25519_over K a key (status_message I s ident))"

section \<open>Retained status evidence\<close>

definition cumulative_status_context :: pystr where
  "cumulative_status_context = lit ''ambit.cumulative.status.v1''"

definition verify_cumulative_status_payload ::
  "crypto \<Rightarrow> interp \<Rightarrow> json \<Rightarrow> json \<Rightarrow> pybytes \<Rightarrow> bool" where
  "verify_cumulative_status_payload K I payload att key =
     (case (payload, att) of
        (JObj d, JStr a) \<Rightarrow>
          if \<not> starts_with a ed25519_prefix \<or> length key \<noteq> 32 then False
          else ed25519_over K a key (signed_status_bytes I d cumulative_status_context)
      | _ \<Rightarrow> False)"

definition status_artefact :: "revocation_status \<Rightarrow> pystr \<Rightarrow> exc + (pystr, json) dict" where
  "status_artefact s ident =
     with_epoch s
       [(lit ''jti'', JStr ident), (lit ''is_revoked'', JBool (is_revoked s)),
        (lit ''checked_at'', JStr (canonical_iso (checked_at s))),
        (lit ''freshness_bound_ms'', opt_json JInt (freshness_bound_ms s)),
        (lit ''source'', JStr (status_source s)), (lit ''verifiable'', JBool (status_verifiable s)),
        (lit ''attestation'', opt_json JStr (attestation s)),
        (lit ''trust_root_id'', opt_json JStr (status_root s))]"

text \<open>
  The loop of \<open>epoch_regression\<close>, with the highest epoch so far; \<open>str(artefact["jti"])\<close> raises
  \<open>KeyError\<close> where the artefact names no identifier.
\<close>

fun regression_from :: "interp \<Rightarrow> int option \<Rightarrow> (pystr, json) dict list \<Rightarrow> exc + pystr option" where
  "regression_from I highest [] = Inr None"
| "regression_from I highest (a # arts) =
     (case get a (lit ''revocation_epoch'') of
        JInt e \<Rightarrow>
          if (case highest of None \<Rightarrow> False | Some h \<Rightarrow> e < h)
          then bnd (expect KeyError (map_of a (lit ''jti''))) (\<lambda>j. Inr (Some (py_str I j)))
          else regression_from I (Some e) arts
      | _ \<Rightarrow> regression_from I highest arts)"

definition epoch_regression :: "interp \<Rightarrow> (pystr, json) dict list \<Rightarrow> exc + pystr option" where
  "epoch_regression I artefacts = regression_from I None artefacts"

definition status_artefact_hash :: "interp \<Rightarrow> (pystr, json) dict \<Rightarrow> exc + pystr" where
  "status_artefact_hash I a = bnd (canonical_json_bytes I (JObj a)) (\<lambda>bs. Inr (sha256_hex I bs))"

definition status_required :: "pystr list" where
  "status_required = map lit [''jti'', ''is_revoked'', ''checked_at'', ''freshness_bound_ms'', ''source'',
     ''verifiable'', ''attestation'', ''trust_root_id'']"

definition natural :: "json \<Rightarrow> bool" where
  "natural v = (case v of JInt n \<Rightarrow> n \<ge> 0 | _ \<Rightarrow> False)"

definition status_from_evidence :: "(pystr, json) dict \<Rightarrow> exc + revocation_status" where
  "status_from_evidence a =
     ensure (keys_exact a status_required
       \<or> keys_exact a (status_required @ [lit ''revocation_epoch''])
       \<or> keys_exact a (status_required @ [lit ''revocation_epoch'', lit ''request_nonce''])) ValueError
     (ensure (nonempty_str (get a (lit ''jti''))) ValueError
     (bnd (expect ValueError (as_bool (get a (lit ''is_revoked'')))) (\<lambda>revoked.
      bnd (expect ValueError (as_str (get a (lit ''checked_at'')))) (\<lambda>checked.
      ensure (natural (get a (lit ''freshness_bound_ms''))) ValueError
     (ensure (nonempty_str (get a (lit ''source''))) ValueError
     (bnd (expect ValueError (as_bool (get a (lit ''verifiable'')))) (\<lambda>verifiable.
      ensure (nonempty_str (get a (lit ''attestation''))) ValueError
     (ensure (nonempty_str (get a (lit ''trust_root_id''))) ValueError
     (ensure (get a (lit ''revocation_epoch'') = JNull \<or> natural (get a (lit ''revocation_epoch''))) ValueError
     (ensure (\<not> (has_key a (lit ''request_nonce'') \<and> \<not> valid_revocation_request_nonce (get a (lit ''request_nonce'')))) ValueError
     (bnd (parse_dt checked) (\<lambda>moment.
      Inr \<lparr>is_revoked = revoked, checked_at = moment,
        freshness_bound_ms = as_int (get a (lit ''freshness_bound_ms'')),
        status_source = the (as_str (get a (lit ''source''))), status_verifiable = verifiable,
        attestation = as_str (get a (lit ''attestation'')), status_root = as_str (get a (lit ''trust_root_id'')),
        revocation_epoch = as_int (get a (lit ''revocation_epoch'')),
        request_nonce = as_str (get a (lit ''request_nonce''))\<rparr>))))))))))))"

text \<open>A configured root is a mapping with a \<open>public_key\<close>, or the key itself, in hexadecimal.\<close>

definition status_public_key :: "(pystr, json) dict \<Rightarrow> pystr option \<Rightarrow> pybytes option" where
  "status_public_key roots root =
     (let configured = (case root of None \<Rightarrow> JNull | Some r \<Rightarrow> get roots r);
          configured = (case configured of JObj d \<Rightarrow> get d (lit ''public_key'') | v \<Rightarrow> v)
      in case configured of
        JStr s \<Rightarrow> (case from_hex s of None \<Rightarrow> None | Some key \<Rightarrow> if length key = 32 then Some key else None)
      | _ \<Rightarrow> None)"

section \<open>The artefact is read back\<close>

definition status_formed :: "revocation_status \<Rightarrow> bool" where
  "status_formed s \<longleftrightarrow> 0 \<le> checked_at s \<and> checked_at s \<le> max_instant
     \<and> (\<exists>n \<ge> 0. freshness_bound_ms s = Some n) \<and> status_source s \<noteq> []
     \<and> (\<exists>a. attestation s = Some a \<and> a \<noteq> []) \<and> (\<exists>r. status_root s = Some r \<and> r \<noteq> [])
     \<and> (\<forall>e. revocation_epoch s = Some e \<longrightarrow> 0 \<le> e)
     \<and> (\<forall>n. request_nonce s = Some n \<longrightarrow> hex64 n \<and> revocation_epoch s \<noteq> None)"

lemma artefact_readback:
  assumes "status_formed s" "j \<noteq> []"
  shows "\<exists>a. status_artefact s j = Inr a \<and> get a (lit ''jti'') = JStr j
    \<and> status_from_evidence a = Inr (s\<lparr>checked_at := whole_ms (checked_at s)\<rparr>)"
proof -
  obtain n a r where f: "freshness_bound_ms s = Some n" "n \<ge> 0" "attestation s = Some a" "a \<noteq> []"
      "status_root s = Some r" "r \<noteq> []"
    using assms(1) by (auto simp: status_formed_def)
  have p: "parse_dt (canonical_iso (checked_at s)) = Inr (whole_ms (checked_at s))"
    using assms(1) by (simp add: status_formed_def parse_dt_canonical)
  show ?thesis
    using assms f p
    by (cases "revocation_epoch s"; cases "request_nonce s"; cases s)
      (auto simp: status_formed_def status_artefact_def with_epoch_def status_from_evidence_def
        keys_exact_iff status_required_def nonempty_str_def natural_def valid_revocation_request_nonce_def)
qed

section \<open>Epoch order\<close>

fun stated_epoch :: "(pystr, json) dict \<Rightarrow> int option" where
  "stated_epoch a = as_int (get a (lit ''revocation_epoch''))"

lemma regression_None:
  "regression_from I h arts = Inr None \<longleftrightarrow> sorted ((case h of None \<Rightarrow> [] | Some x \<Rightarrow> [x]) @ List.map_filter stated_epoch arts)"
proof (induction I h arts rule: regression_from.induct)
  case (1 I highest)
  then show ?case by (simp add: List.map_filter_simps split: option.splits)
next
  case (2 I highest a arts)
  show ?case
  proof (cases "get a (lit ''revocation_epoch'')")
    case (JInt e)
    then show ?thesis
      using 2 by (auto simp: List.map_filter_simps raise_simps not_less split: option.splits)
  qed (use 2 in \<open>simp_all add: List.map_filter_simps\<close>)
qed


section \<open>What a status signature covers\<close>

text \<open>The strings of a status are Unicode text, as those of a parsed artefact are.\<close>

definition status_text :: "revocation_status \<Rightarrow> bool" where
  "status_text s \<longleftrightarrow> 0 \<le> checked_at s \<and> checked_at s \<le> max_instant \<and> scalar_text (status_source s)
     \<and> (\<forall>r. status_root s = Some r \<longrightarrow> scalar_text r)"

definition covered_fields :: "revocation_status \<Rightarrow> pystr \<Rightarrow> (pystr \<times> bool \<times> instant \<times> int option) \<times> (pystr \<times> pystr option \<times> int option \<times> pystr option)" where
  "covered_fields s j = ((j, is_revoked s, whole_ms (checked_at s), freshness_bound_ms s),
     (status_source s, status_root s, revocation_epoch s, request_nonce s))"

lemma canonical_iso_ascii: "is_ascii (canonical_iso t)"
  by (simp add: canonical_iso_def Let_def ascii_pad is_ascii_lit split: prod.splits)

lemma hex64_ascii: "hex64 s \<Longrightarrow> is_ascii s"
  by (auto simp: hex64_def is_ascii_def list_all_iff is_lower_hex_def is_dec_digit_def)

lemma opt_json_inj: "opt_json JStr a = opt_json JStr b \<longleftrightarrow> a = b" "opt_json JInt m = opt_json JInt n \<longleftrightarrow> m = n"
  by (cases a; cases b; simp) (cases m; cases n; simp)

lemma with_epoch_Inr:
  "with_epoch s d = Inr p \<longleftrightarrow>
     (\<forall>n. request_nonce s = Some n \<longrightarrow> hex64 n \<and> revocation_epoch s \<noteq> None)
     \<and> p = (case request_nonce s of None \<Rightarrow> id | Some n \<Rightarrow> dict_set (lit ''request_nonce'') (JStr n))
        ((case revocation_epoch s of None \<Rightarrow> id | Some e \<Rightarrow> dict_set (lit ''revocation_epoch'') (JInt e)) d)"
  by (auto simp: with_epoch_def raise_simps split: option.splits)

lemma opt_json_ok [simp]: "json_ok (opt_json JInt n)"
  "json_ok (opt_json JStr r) \<longleftrightarrow> (\<forall>t. r = Some t \<longrightarrow> scalar_text t)"
  by (simp_all add: opt_json_def split: option.splits)

lemma status_payload_get:
  assumes "revocation_attestation_payload s j = Inr p"
  shows "get p (lit ''checked_at'') = JStr (canonical_iso (checked_at s))"
    "get p (lit ''freshness_bound_ms'') = opt_json JInt (freshness_bound_ms s)"
    "get p (lit ''is_revoked'') = JBool (is_revoked s)" "get p (lit ''jti'') = JStr j"
    "get p (lit ''source'') = JStr (status_source s)"
    "get p (lit ''trust_root_id'') = opt_json JStr (status_root s)"
    "get p (lit ''revocation_epoch'') = opt_json JInt (revocation_epoch s)"
    "get p (lit ''request_nonce'') = opt_json JStr (request_nonce s)"
  using assms unfolding revocation_attestation_payload_def with_epoch_Inr
  by (simp_all split: option.splits)

lemma status_payload_ok:
  assumes "revocation_attestation_payload s j = Inr p"
  shows "dict_ok p" "float_codec I (JObj p)" "status_text s \<Longrightarrow> scalar_text j \<Longrightarrow> json_ok (JObj p)"
proof -
  let ?d = "[(lit ''checked_at'', JStr (canonical_iso (checked_at s))),
        (lit ''freshness_bound_ms'', opt_json JInt (freshness_bound_ms s)),
        (lit ''is_revoked'', JBool (is_revoked s)), (lit ''jti'', JStr j),
        (lit ''source'', JStr (status_source s)), (lit ''trust_root_id'', opt_json JStr (status_root s))]"
  let ?e = "case revocation_epoch s of None \<Rightarrow> [] | Some e \<Rightarrow> [(lit ''revocation_epoch'', JInt e)]"
  let ?n = "case request_nonce s of None \<Rightarrow> [] | Some n \<Rightarrow> [(lit ''request_nonce'', JStr n)]"
  have p: "p = ?d @ ?e @ ?n" and n: "\<forall>n. request_nonce s = Some n \<longrightarrow> hex64 n"
    using assms unfolding revocation_attestation_payload_def with_epoch_Inr by (auto split: option.splits)
  show "dict_ok p" unfolding p by (simp add: dict_ok_def split: option.splits)
  show "float_codec I (JObj p)" unfolding p by (simp add: float_codec_def opt_json_def split: option.splits)
  show "json_ok (JObj p)" if "status_text s" "scalar_text j"
  proof -
    have "dict_ok p" unfolding p by (simp add: dict_ok_def split: option.splits)
    moreover have "list_all (\<lambda>(k, v). scalar_text k \<and> json_ok v) p"
      using that n unfolding p
      by (auto simp: status_text_def canonical_iso_ascii ascii_scalar_text hex64_ascii is_ascii_lit split: option.splits)
    ultimately show ?thesis by simp
  qed
qed

lemma json_equiv_leaf [simp]: "json_equiv (JBool b) v \<longleftrightarrow> v = JBool b" "json_equiv (JInt n) v \<longleftrightarrow> v = JInt n"
   "json_equiv (JStr t) v \<longleftrightarrow> v = JStr t" "json_equiv (opt_json JInt m) v \<longleftrightarrow> v = opt_json JInt m"
   "json_equiv (opt_json JStr r) v \<longleftrightarrow> v = opt_json JStr r"
  by (auto simp: opt_json_def split: option.splits)

lemma context_bytes: "utf8_encode revocation_context = Some (map of_nat revocation_context)"
  "utf8_encode revocation_context_v2 = Some (map of_nat revocation_context_v2)"
  by (simp_all add: utf8_encode_ascii revocation_context_def revocation_context_v2_def is_ascii_lit)

lemma status_message_Inr:
  "status_message I s j = Inr m \<longleftrightarrow> (\<exists>p body. revocation_attestation_payload s j = Inr p
     \<and> canonical_json_bytes I (JObj p) = Inr body
     \<and> m = map of_nat (if request_nonce s = None then revocation_context else revocation_context_v2) @ 46 # body)"
  by (auto simp: status_message_def signed_status_bytes_def raise_simps context_bytes)

lemma context_lengths: "length revocation_context = length revocation_context_v2"
  by (simp add: revocation_context_def revocation_context_v2_def)

lemma status_binding:
  assumes "status_message I s j = Inr m" "status_message I t k = Inr m"
    and "status_text s" "scalar_text j" "status_text t" "scalar_text k"
  shows "covered_fields s j = covered_fields t k"
proof -
  obtain p b where p: "revocation_attestation_payload s j = Inr p" "canonical_json_bytes I (JObj p) = Inr b"
      "m = map of_nat (if request_nonce s = None then revocation_context else revocation_context_v2) @ 46 # b"
    using assms(1) by (auto simp: status_message_Inr)
  obtain q c where q: "revocation_attestation_payload t k = Inr q" "canonical_json_bytes I (JObj q) = Inr c"
      "m = map of_nat (if request_nonce t = None then revocation_context else revocation_context_v2) @ 46 # c"
    using assms(2) by (auto simp: status_message_Inr)
  have "b = c"
    using p(3) q(3) context_lengths by (auto split: if_splits)
  then have "json_equiv (JObj p) (JObj q)"
    using canonical_equiv(2) [OF p(2) q(2)] status_payload_ok [OF p(1)] status_payload_ok [OF q(1)] assms(3-6) by blast
  note get = json_equiv_get [OF status_payload_ok(1) [OF p(1)] status_payload_ok(1) [OF q(1)] this]
  have "canonical_iso (checked_at s) = canonical_iso (checked_at t)"
    using get [of "lit ''checked_at''"] by (simp add: status_payload_get [OF p(1)] status_payload_get [OF q(1)])
  then have "whole_ms (checked_at s) = whole_ms (checked_at t)"
    using canonical_iso_eq_iff assms(3,5) by (auto simp: status_text_def)
  moreover have "freshness_bound_ms s = freshness_bound_ms t" "is_revoked s = is_revoked t" "j = k"
      "status_source s = status_source t" "status_root s = status_root t"
      "revocation_epoch s = revocation_epoch t" "request_nonce s = request_nonce t"
    using get [of "lit ''freshness_bound_ms''"] get [of "lit ''is_revoked''"] get [of "lit ''jti''"]
      get [of "lit ''source''"] get [of "lit ''trust_root_id''"] get [of "lit ''revocation_epoch''"]
      get [of "lit ''request_nonce''"]
    by (simp_all add: status_payload_get [OF p(1)] status_payload_get [OF q(1)] opt_json_inj)
  ultimately show ?thesis by (simp add: covered_fields_def)
qed

text \<open>
  A well-formed status is read back from the artefact it is retained as, with the moment cut to
  milliseconds.
\<close>

theorem status_evidence_roundtrip:
  assumes "status_formed s" "j \<noteq> []"
  shows "\<exists>a. status_artefact s j = Inr a \<and> get a (lit ''jti'') = JStr j
    \<and> status_from_evidence a = Inr (s\<lparr>checked_at := whole_ms (checked_at s)\<rparr>)"
  using assms by (rule artefact_readback)

text \<open>
  No regression is reported exactly if the epochs the artefacts state never fall.
\<close>

theorem epoch_regression_iff:
  "epoch_regression I arts = Inr None \<longleftrightarrow> sorted (List.map_filter stated_epoch arts)"
  by (simp add: epoch_regression_def regression_None)

text \<open>
  The bytes a status signature covers determine the identifier and every stated field except
  the two that describe the answer itself; a nonce or an epoch cannot be moved between statuses.
\<close>

theorem status_attestation_binds:
  assumes "status_message I s j = Inr m" "status_message I t k = Inr m"
    and "status_text s" "scalar_text j" "status_text t" "scalar_text k"
  shows "covered_fields s j = covered_fields t k"
  using assms by (rule status_binding)

definition demo_status :: revocation_status where
  "demo_status = \<lparr>is_revoked = False, checked_at = 63839709045123456, freshness_bound_ms = Some 5,
     status_source = lit ''db'', status_verifiable = True, attestation = Some (lit ''ed25519:''),
     status_root = Some (lit ''r''), revocation_epoch = Some 3, request_nonce = Some (replicate 64 48)\<rparr>"

lemma demo_nonce: "hex64 (replicate 64 48)"
  by (simp add: hex64_def is_lower_hex_def is_dec_digit_def list_all_iff)

theorem status_evidence_roundtrip_witness:
  "\<exists>a. status_artefact demo_status (lit ''j'') = Inr a
    \<and> status_from_evidence a = Inr (demo_status\<lparr>checked_at := 63839709045123000\<rparr>)"
  using status_evidence_roundtrip [of demo_status "lit ''j''"] demo_nonce
  by (auto simp: status_formed_def demo_status_def max_instant_def day_us_def whole_ms_def)

theorem status_attestation_binds_witness:
  "covered_fields demo_status (lit ''j'') = covered_fields (demo_status\<lparr>status_verifiable := False\<rparr>) (lit ''j'')"
proof -
  let ?t = "demo_status\<lparr>status_verifiable := False\<rparr>"
  have "revocation_attestation_payload ?t (lit ''j'') = revocation_attestation_payload demo_status (lit ''j'')"
    by (simp add: revocation_attestation_payload_def with_epoch_def demo_status_def)
  then have same: "status_message demo_interp ?t (lit ''j'') = status_message demo_interp demo_status (lit ''j'')"
    by (simp add: status_message_def demo_status_def)
  have "\<exists>p. revocation_attestation_payload demo_status (lit ''j'') = Inr p \<and> printable (JObj p)"
    by (simp add: revocation_attestation_payload_def with_epoch_def demo_status_def demo_nonce max_str_digits_def dec_digits.simps)
  then obtain m where "status_message demo_interp demo_status (lit ''j'') = Inr m"
    unfolding status_message_Inr canonical_json_bytes_Inr by blast
  moreover have "status_text demo_status" "status_text ?t" "scalar_text (lit ''j'')"
    by (simp_all add: status_text_def demo_status_def max_instant_def day_us_def ascii_scalar_text is_ascii_lit)
  ultimately show ?thesis
    using status_attestation_binds [of demo_interp demo_status "lit ''j''" m ?t "lit ''j''"] same by simp
qed

end
