(* ===== verification/Revocation_Fence.thy ===== *)
theory Revocation_Fence
  imports Revocation
begin

text \<open>
  The module \<open>revocation_fence.py\<close>: the request by which organisation B asks A to fence a
  delegation, A's grant, and the compact tokens that carry them.
\<close>

section \<open>Claims\<close>

definition fence_profile :: pystr where
  "fence_profile = lit ''customer-delete-fence/1''"

definition request_context :: pybytes where
  "request_context = map of_nat (lit ''ambit.revocation.fence.request.v1.'')"

definition grant_context :: pybytes where
  "grant_context = map of_nat (lit ''ambit.revocation.fence.grant.v1.'')"

definition request_fields :: "pystr list" where
  "request_fields = map lit [''version'', ''profile'', ''a_dispatch'', ''b_dispatch_hash'', ''b_operation_id'',
     ''b_domain_id'', ''b_ledger_id'', ''b_resource_id'', ''b_resource_binding_hash'', ''customer_id'', ''payload_hash'']"

definition grant_fields :: "pystr list" where
  "grant_fields = map lit [''version'', ''profile'', ''request_hash'', ''a_dispatch_hash'', ''b_dispatch_hash'',
     ''delegation_jtis'', ''revocation_epoch'', ''prepared_at'', ''trust_root_id'']"

definition fence_digest :: "json \<Rightarrow> bool" where
  "fence_digest v = (case v of JStr s \<Rightarrow> hex64 s | _ \<Rightarrow> False)"

text \<open>\<open>claims["version"] != 1\<close> is Python's equality: \<open>True\<close> and \<open>1.0\<close> pass it too.\<close>

definition fence_identity :: "(pystr, json) dict \<Rightarrow> bool" where
  "fence_identity d \<longleftrightarrow> py_eq (get d (lit ''version'')) (JInt 1) \<and> get d (lit ''profile'') = JStr fence_profile"

definition request_formed :: "(pystr, json) dict \<Rightarrow> bool" where
  "request_formed d \<longleftrightarrow> keys_exact d request_fields \<and> fence_identity d
     \<and> list_all (\<lambda>k. canonical_text (get d (lit k)))
         [''a_dispatch'', ''b_operation_id'', ''b_domain_id'', ''b_ledger_id'', ''b_resource_id'', ''customer_id'']
     \<and> list_all (\<lambda>k. fence_digest (get d (lit k))) [''b_dispatch_hash'', ''b_resource_binding_hash'', ''payload_hash'']"

definition fence_request_claims :: "json \<Rightarrow> exc + (pystr, json) dict" where
  "fence_request_claims v =
     bnd (expect ValueError (as_obj v)) (\<lambda>d.
     ensure (keys_exact d request_fields) ValueError
     (ensure (fence_identity d) ValueError
     (ensure (list_all (\<lambda>k. canonical_text (get d (lit k)))
        [''a_dispatch'', ''b_operation_id'', ''b_domain_id'', ''b_ledger_id'', ''b_resource_id'', ''customer_id'']) ValueError
     (ensure (list_all (\<lambda>k. fence_digest (get d (lit k)))
        [''b_dispatch_hash'', ''b_resource_binding_hash'', ''payload_hash'']) ValueError
     (Inr d)))))"

text \<open>
  \<open>set(jtis)\<close> raises \<open>TypeError\<close> on an element that is a list or an object, before the elements
  are tested to be strings.
\<close>

definition fence_jtis :: "json \<Rightarrow> exc + unit" where
  "fence_jtis v =
     bnd (expect ValueError (as_list v)) (\<lambda>jtis.
     ensure (jtis \<noteq> []) ValueError
     (ensure (\<not> list_ex unhashable jtis) TypeError
     (ensure (list_all canonical_text jtis \<and> distinct jtis) ValueError (Inr ()))))"

definition aware_text :: "json \<Rightarrow> bool" where
  "aware_text v =
     (case v of JStr s \<Rightarrow> (case fromisoformat (replace_z s) of Some (_, Some _) \<Rightarrow> True | _ \<Rightarrow> False) | _ \<Rightarrow> False)"

definition fence_grant_claims :: "json \<Rightarrow> exc + (pystr, json) dict" where
  "fence_grant_claims v =
     bnd (expect ValueError (as_obj v)) (\<lambda>d.
     ensure (keys_exact d grant_fields) ValueError
     (ensure (fence_identity d) ValueError
     (ensure (list_all (\<lambda>k. fence_digest (get d (lit k)))
        [''request_hash'', ''a_dispatch_hash'', ''b_dispatch_hash'']) ValueError
     (bnd (fence_jtis (get d (lit ''delegation_jtis''))) (\<lambda>_.
      ensure (natural (get d (lit ''revocation_epoch''))) ValueError
     (ensure (nonempty_str (get d (lit ''prepared_at'')) \<and> nonempty_str (get d (lit ''trust_root_id''))) ValueError
     (ensure (aware_text (get d (lit ''prepared_at''))) ValueError
     (Inr d))))))))"

definition fence_claims :: "bool \<Rightarrow> json \<Rightarrow> exc + (pystr, json) dict" where
  "fence_claims grant v = (if grant then fence_grant_claims v else fence_request_claims v)"

section \<open>Tokens\<close>

definition fence_request_hash :: "interp \<Rightarrow> pystr \<Rightarrow> exc + pystr" where
  "fence_request_hash I token = ensure (is_ascii token) ValueError (Inr (sha256 I (map of_nat token)))"

definition fence_context :: "bool \<Rightarrow> pybytes" where
  "fence_context grant = (if grant then grant_context else request_context)"

definition fence_message :: "interp \<Rightarrow> bool \<Rightarrow> (pystr, json) dict \<Rightarrow> exc + pybytes" where
  "fence_message I grant d =
     bnd (fence_claims grant (JObj d)) (\<lambda>parsed.
     bnd (canonical_json_bytes I (JObj parsed)) (\<lambda>body. Inr (fence_context grant @ body)))"

definition url_char :: "nat \<Rightarrow> bool" where
  "url_char c \<longleftrightarrow> is_dec_digit c \<or> 65 \<le> c \<and> c \<le> 90 \<or> 97 \<le> c \<and> c \<le> 122 \<or> c = 45 \<or> c = 95"

definition decode_segment :: "pystr \<Rightarrow> exc + pybytes" where
  "decode_segment value =
     ensure (value \<noteq> [] \<and> list_all url_char value) ValueError
     (bnd (expect ValueError (b64url_decode value)) (\<lambda>decoded.
      ensure (b64url_encode decoded = value) ValueError (Inr decoded)))"

text \<open>\<open>except (InvalidSignature, TypeError, UnicodeError, ValueError)\<close>.\<close>

definition as_value_error :: "exc + 'a \<Rightarrow> exc + 'a" where
  "as_value_error r = (case r of Inl e \<Rightarrow> Inl (if e = TypeError then ValueError else e) | Inr x \<Rightarrow> Inr x)"

definition canonical_claims :: "interp \<Rightarrow> bool \<Rightarrow> pybytes \<Rightarrow> exc + (pystr, json) dict" where
  "canonical_claims I grant payload =
     bnd (expect ValueError (utf8_decode payload)) (\<lambda>text.
     bnd (strict_json_loads I text) (\<lambda>decoded.
     bnd (fence_claims grant decoded) (\<lambda>claims.
     bnd (canonical_json_bytes I (JObj claims)) (\<lambda>body.
     ensure (body = payload) ValueError (Inr claims)))))"

text \<open>The key is given in hexadecimal (\<open>Inl\<close>) or raw (\<open>Inr\<close>).\<close>

definition key_bytes :: "pystr + pybytes \<Rightarrow> exc + pybytes" where
  "key_bytes k = (case k of Inl hex \<Rightarrow> expect ValueError (from_hex hex) | Inr raw \<Rightarrow> Inr raw)"

definition verify_fence_token ::
  "crypto \<Rightarrow> interp \<Rightarrow> pystr + pybytes \<Rightarrow> bool \<Rightarrow> json \<Rightarrow> exc + (pystr, json) dict" where
  "verify_fence_token K I key grant token =
     bnd (expect ValueError (as_str token)) (\<lambda>text.
     bnd (expect ValueError (split_token text)) (\<lambda>(payload_part, signature_part).
     bnd (decode_segment payload_part) (\<lambda>payload.
     bnd (decode_segment signature_part) (\<lambda>signature.
     ensure (length signature = 64) ValueError
     (as_value_error
        (bnd (canonical_claims I grant payload) (\<lambda>claims.
         bnd (key_bytes key) (\<lambda>raw.
         bnd (fence_message I grant claims) (\<lambda>message.
         ensure (ed25519_verify K raw signature message) ValueError (Inr claims))))))))))"

definition unverified_fence_claims :: "interp \<Rightarrow> bool \<Rightarrow> json \<Rightarrow> exc + (pystr, json) dict" where
  "unverified_fence_claims I grant token =
     bnd (expect ValueError (as_str token)) (\<lambda>text.
     bnd (expect ValueError (split_token text)) (\<lambda>(payload_part, signature_part).
     bnd (decode_segment payload_part) (canonical_claims I grant)))"

section \<open>Fence tokens\<close>

lemma url_char_b64: "url_char (if b64_char v = 43 then 45 else if b64_char v = 47 then 95 else b64_char v)"
  by (auto simp: url_char_def b64_char_def is_dec_digit_def)

lemma url_chars: "list_all url_char (b64url_encode bs)"
proof -
  obtain s k where s: "b64encode bs = s @ replicate k 61" "list_all (\<lambda>c. c \<noteq> 61) s"
      "b64url_encode bs = map (\<lambda>c. if c = 43 then 45 else if c = 47 then 95 else c) s"
    by (rule b64url_shape)
  have "\<exists>v. c = b64_char v" if "c \<in> set s" for c
    using that s(1,2) b64_units_set [of c "map unat bs"] by (auto simp: b64encode_def list_all_iff)
  then have "url_char (if c = 43 then 45 else if c = 47 then 95 else c)" if "c \<in> set s" for c
    using that url_char_b64 by metis
  then show ?thesis unfolding s(3) list_all_iff set_map by blast
qed

lemma decode_segment_iff: "decode_segment v = Inr bs \<longleftrightarrow> bs \<noteq> [] \<and> v = b64url_encode bs"
  using url_chars [of bs] by (auto simp: decode_segment_def raise_simps b64url_Nil)

text \<open>The claims a token may carry.\<close>

definition grant_formed :: "(pystr, json) dict \<Rightarrow> bool" where
  "grant_formed d \<longleftrightarrow> keys_exact d grant_fields \<and> fence_identity d
     \<and> list_all (\<lambda>k. fence_digest (get d (lit k))) [''request_hash'', ''a_dispatch_hash'', ''b_dispatch_hash'']
     \<and> (\<exists>jtis. get d (lit ''delegation_jtis'') = JList jtis \<and> jtis \<noteq> [] \<and> list_all canonical_text jtis \<and> distinct jtis)
     \<and> natural (get d (lit ''revocation_epoch'')) \<and> aware_text (get d (lit ''prepared_at''))
     \<and> nonempty_str (get d (lit ''trust_root_id''))"

definition fence_formed :: "bool \<Rightarrow> (pystr, json) dict \<Rightarrow> bool" where
  "fence_formed grant d = (if grant then grant_formed d else request_formed d)"

lemma canonical_hashable: "canonical_text v \<Longrightarrow> \<not> unhashable v"
  by (cases v) (auto simp: canonical_text_def unhashable_def)

lemma hashable_texts: "list_all canonical_text vs \<Longrightarrow> \<not> list_ex unhashable vs"
  using canonical_hashable by (auto simp: list_all_iff list_ex_iff)

lemma aware_nonempty: "aware_text v \<Longrightarrow> nonempty_str v"
  by (auto simp: aware_text_def nonempty_str_def fromisoformat_def replace_z_def sanitize_def split: json.splits)

lemma fence_claims_iff: "fence_claims grant v = Inr d \<longleftrightarrow> v = JObj d \<and> fence_formed grant d"
  by (auto simp: fence_claims_def fence_grant_claims_def fence_request_claims_def fence_formed_def grant_formed_def
      request_formed_def fence_jtis_def raise_simps hashable_texts aware_nonempty)

lemma as_value_error_Inr [simp]: "as_value_error r = Inr x \<longleftrightarrow> r = Inr x"
  by (auto simp: as_value_error_def split: sum.splits)

lemma canonical_claims_iff:
  "canonical_claims I grant payload = Inr d \<longleftrightarrow> fence_formed grant d \<and> canonical_json_bytes I (JObj d) = Inr payload
     \<and> (\<exists>text. utf8_decode payload = Some text \<and> strict_json_loads I text = Inr (JObj d))"
  by (auto simp: canonical_claims_def raise_simps fence_claims_iff)

lemma fence_message_iff:
  "fence_message I grant d = Inr m \<longleftrightarrow> fence_formed grant d
     \<and> (\<exists>body. canonical_json_bytes I (JObj d) = Inr body \<and> m = fence_context grant @ body)"
  by (auto simp: fence_message_def raise_simps fence_claims_iff)

definition fence_token :: "pybytes \<Rightarrow> pybytes \<Rightarrow> json" where
  "fence_token body sig = JStr (b64url_encode body @ 46 # b64url_encode sig)"

lemma split_two: "split_token t = Some (b64url_encode a, b64url_encode b) \<longleftrightarrow> t = b64url_encode a @ 46 # b64url_encode b"
  using split_token_Some split_token_join b64url_no_dot by metis

text \<open>
  C30: a fence token verifies exactly if it is the compact form of the canonical text of well-formed
  claims for its role and of a 64-byte signature of that text under the context of the role.
\<close>

theorem fence_token_iff:
  "verify_fence_token K I key grant token = Inr d \<longleftrightarrow>
   (\<exists>body sig raw u. token = fence_token body sig \<and> length sig = 64 \<and> key_bytes key = Inr raw
      \<and> canonical_json_bytes I (JObj d) = Inr body \<and> utf8_decode body = Some u
      \<and> strict_json_loads I u = Inr (JObj d) \<and> fence_formed grant d
      \<and> ed25519_verify K raw sig (fence_context grant @ body))"
  (is "?l \<longleftrightarrow> ?r")
proof
  show "?l \<Longrightarrow> ?r"
    by (auto simp: verify_fence_token_def raise_simps canonical_claims_iff fence_message_iff decode_segment_iff
        fence_token_def split_two)
  show "?r \<Longrightarrow> ?l"
  proof (elim exE conjE)
    fix body sig raw u
    assume r: "token = fence_token body sig" "length sig = 64" "key_bytes key = Inr raw"
      "canonical_json_bytes I (JObj d) = Inr body" "utf8_decode body = Some u"
      "strict_json_loads I u = Inr (JObj d)" "fence_formed grant d"
      "ed25519_verify K raw sig (fence_context grant @ body)"
    have "canonical_claims I grant body = Inr d" "fence_message I grant d = Inr (fence_context grant @ body)"
      using r by (auto simp: canonical_claims_iff fence_message_iff)
    moreover have "decode_segment (b64url_encode body) = Inr body" "decode_segment (b64url_encode sig) = Inr sig"
      using r(2,4) by (auto simp: decode_segment_iff canonical_json_bytes_Inr)
    moreover have "split_token (b64url_encode body @ 46 # b64url_encode sig) = Some (b64url_encode body, b64url_encode sig)"
      by (simp add: split_two)
    ultimately show ?l
      using r by (simp add: verify_fence_token_def fence_token_def)
  qed
qed


text \<open>
  A grant whose identifiers hold a list or an object leaves \<open>unverified_fence_claims\<close> with
  \<open>TypeError\<close>; \<open>verify_fence_token\<close> turns it into \<open>ValueError\<close>.
\<close>

lemma fence_type_error:
  assumes "keys_exact d grant_fields" "fence_identity d" "get d (lit ''delegation_jtis'') = JList js"
    and "list_all (\<lambda>k. fence_digest (get d (lit k))) [''request_hash'', ''a_dispatch_hash'', ''b_dispatch_hash'']"
    and "list_ex unhashable js"
  shows "fence_grant_claims (JObj d) = Inl TypeError"
  using assms by (cases js) (simp_all add: fence_grant_claims_def fence_jtis_def)

lemma fence_request_errors: "raises_only {ValueError} (fence_request_claims v)"
  unfolding fence_request_claims_def by (intro raises_intros) simp_all

lemma fence_grant_errors: "raises_only {ValueError, TypeError} (fence_grant_claims v)"
  unfolding fence_grant_claims_def fence_jtis_def by (intro raises_intros) simp_all

end
