(* ===== verification/Consumption.thy ===== *)
theory Consumption
  imports Revocation
begin

text \<open>
  The module \<open>consumption.py\<close>, with the two record grammars of \<open>counterparty_recovery.py\<close> it
  calls: the operation descriptor, the accounts a delegation chain requires, the consumption
  block of a decision and the consumption events.
\<close>

section \<open>The operation descriptor\<close>

definition consumption_profile :: pystr where
  "consumption_profile = lit ''canonical-operation/1''"

definition operation_fields :: "pystr list" where
  "operation_fields = map lit [''operation_id'', ''domain_id'', ''ledger_id'', ''enforcement_point_id'',
     ''actor_key_fingerprint'', ''request_hash'', ''payload_hash'', ''resource_binding_hash'']"

definition operation_id_char :: "nat \<Rightarrow> bool" where
  "operation_id_char c \<longleftrightarrow> is_dec_digit c \<or> 65 \<le> c \<and> c \<le> 90 \<or> 97 \<le> c \<and> c \<le> 122 \<or> c \<in> {46, 95, 58, 45}"

definition operation_id_ok :: "json \<Rightarrow> bool" where
  "operation_id_ok v =
     (case v of JStr s \<Rightarrow> 1 \<le> length s \<and> length s \<le> 128 \<and> list_all operation_id_char s | _ \<Rightarrow> False)"

definition operation_texts :: "pystr list" where
  "operation_texts = map lit [''domain_id'', ''ledger_id'', ''enforcement_point_id'', ''actor_key_fingerprint'']"

definition operation_digests :: "pystr list" where
  "operation_digests = map lit [''request_hash'', ''payload_hash'', ''resource_binding_hash'']"

definition validate_operation_descriptor :: "interp \<Rightarrow> json \<Rightarrow> exc + (pystr, json) dict" where
  "validate_operation_descriptor I value =
     bnd (expect ValueError (as_obj value)) (\<lambda>d.
     ensure (keys_exact d operation_fields) ValueError
     (ensure (operation_id_ok (get d (lit ''operation_id''))) ValueError
     (ensure (list_all (\<lambda>k. canonical_text (get d k)) operation_texts) ValueError
     (ensure (list_all (\<lambda>k. hex_text 64 (get d k)) operation_digests) ValueError
     (let result = map (\<lambda>k. (k, get d k)) operation_fields
      in bnd (canonical_json_bytes I (JObj result)) (\<lambda>_. Inr result))))))"

definition operation_descriptor_hash :: "interp \<Rightarrow> json \<Rightarrow> exc + pystr" where
  "operation_descriptor_hash I value =
     bnd (validate_operation_descriptor I value) (\<lambda>d. hash_object I (JObj d))"

section \<open>The accounts a chain requires\<close>

definition bound_applies :: "bound \<Rightarrow> pystr \<Rightarrow> pystr \<Rightarrow> bool" where
  "bound_applies b action_type action_boundary =
     (case bd_applies_to b of
        None \<Rightarrow> True
      | Some (actions, boundaries) \<Rightarrow>
          (case actions of None \<Rightarrow> True | Some xs \<Rightarrow> action_type \<in> set xs)
          \<and> (case boundaries of None \<Rightarrow> True | Some ys \<Rightarrow> action_boundary \<in> set ys))"

record account_row =
  ac_jti :: pystr
  ac_scope :: "pystr option"
  ac_scope_id :: "pystr option"
  ac_kind :: pystr
  ac_unit :: pystr
  ac_ceiling :: pystr
  ac_epoch :: pystr
  ac_duration :: int
  ac_window_kind :: "pystr option"

definition account_description ::
  "delegation_claims \<Rightarrow> bound \<Rightarrow> pystr \<times> int \<Rightarrow> pystr option \<Rightarrow> pystr option \<Rightarrow> exc + account_row" where
  "account_description claim b window scope scope_id =
     (case window of (epoch, duration) \<Rightarrow>
       ensure (epoch \<noteq> [] \<and> duration > 0) ValueError
       (Inr \<lparr>ac_jti = jti claim, ac_scope = scope, ac_scope_id = scope_id, ac_kind = bd_kind b,
         ac_unit = bd_unit b, ac_ceiling = dec_digits (bd_amount b), ac_epoch = epoch,
         ac_duration = duration, ac_window_kind = bd_window_kind b\<rparr>))"

type_synonym account_identity =
  "pystr option \<times> pystr option \<times> pystr \<times> pystr \<times> pystr \<times> int \<times> pystr option"

definition account_identity :: "account_row \<Rightarrow> account_identity" where
  "account_identity r =
     (ac_scope r, ac_scope_id r, ac_kind r, ac_unit r, ac_epoch r, ac_duration r, ac_window_kind r)"

type_synonym account_state = "account_row list \<times> (account_identity, account_row) dict"

text \<open>The body of the two loops, for one bound of one claim.\<close>

definition account_step ::
  "pystr \<Rightarrow> pystr \<Rightarrow> delegation_claims \<times> bound \<Rightarrow> account_state \<Rightarrow> exc + account_state" where
  "account_step action_type action_boundary p st =
     (case p of (claim, b) \<Rightarrow> case st of (rows, shared) \<Rightarrow>
        if \<not> bound_applies b action_type action_boundary then Inr (rows, shared)
        else case bd_window b of
          None \<Rightarrow> Inr (rows, shared)
        | Some window \<Rightarrow>
            (case bd_aggregation b of
               None \<Rightarrow> bnd (account_description claim b window None None) (\<lambda>r. Inr (rows @ [r], shared))
             | Some aggregation \<Rightarrow>
                 (case authority_entry_hash claim of
                    None \<Rightarrow> Inl ValueError
                  | Some entry_hash \<Rightarrow>
                      ensure (aggregation = lit ''entry'') ValueError
                      (bnd (account_description claim b window (Some (lit ''entry'')) (Some entry_hash)) (\<lambda>r.
                        case map_of shared (account_identity r) of
                          None \<Rightarrow> Inr (rows, dict_set (account_identity r) r shared)
                        | Some previous \<Rightarrow>
                            ensure (ac_ceiling previous = ac_ceiling r) ValueError (Inr (rows, shared)))))))"

definition claim_bounds :: "delegation_claims list \<Rightarrow> (delegation_claims \<times> bound) list" where
  "claim_bounds chain = concat (map (\<lambda>claim. map (Pair claim) (bounds claim)) chain)"

definition required_account_bounds ::
  "delegation_claims list \<Rightarrow> pystr \<Rightarrow> pystr \<Rightarrow> exc + account_row list" where
  "required_account_bounds chain action_type action_boundary =
     ensure (action_type \<noteq> [] \<and> action_boundary \<noteq> []) ValueError
     (ensure (chain \<noteq> []) ValueError
     (bnd (thread (account_step action_type action_boundary) (claim_bounds chain) ([], [])) (\<lambda>(rows, shared).
        Inr (rows @ map snd shared))))"

section \<open>The consumption block of a decision\<close>

definition identifier_fields :: "pystr list" where
  "identifier_fields = map lit [''namespace'', ''identifier'', ''expires_at'']"

definition account_fields :: "pystr list" where
  "account_fields = map lit [''jti'', ''scope'', ''scope_id'', ''kind'', ''unit'', ''ceiling_amount_scaled'',
     ''window_epoch'', ''window_duration_ms'', ''amount_scaled'', ''reservation_id'']"

definition validate_identifier :: "json \<Rightarrow> exc + (pystr, json) dict" where
  "validate_identifier value =
     bnd (expect ValueError (as_obj value)) (\<lambda>d.
     ensure (keys_exact d identifier_fields) ValueError
     (ensure (list_all (\<lambda>k. canonical_text (get d k)) identifier_fields) ValueError
     (Inr (map (\<lambda>k. (k, get d k)) identifier_fields))))"

definition amount_text :: "json \<Rightarrow> bool" where
  "amount_text v \<longleftrightarrow> parse_nonnegative_amount_scaled v \<noteq> None"

text \<open>A grant account names no scope; an entry account names the hash of its entry.\<close>

definition account_scope_ok :: "(pystr, json) dict \<Rightarrow> bool" where
  "account_scope_ok d \<longleftrightarrow>
     get d (lit ''scope'') = JNull \<and> get d (lit ''scope_id'') = JNull
     \<or> get d (lit ''scope'') = JStr (lit ''entry'') \<and> hex_text 64 (get d (lit ''scope_id''))"

text \<open>
  \<open>epoch <= authorized_at < epoch + timedelta(milliseconds=duration)\<close>: the sum is computed only
  after the first comparison and raises \<open>OverflowError\<close> past year 9999.
\<close>

definition within_period :: "instant \<Rightarrow> int \<Rightarrow> instant \<Rightarrow> exc + bool" where
  "within_period epoch duration at =
     (if \<not> epoch \<le> at then Inr False
      else if epoch + duration * 1000 > max_instant then Inl OverflowError
      else Inr (at < epoch + duration * 1000))"

definition positive :: "json \<Rightarrow> exc + int" where
  "positive v = bnd (expect ValueError (as_int v)) (\<lambda>n. ensure (n > 0) ValueError (Inr n))"

definition validate_account :: "instant \<Rightarrow> json \<Rightarrow> exc + (pystr, json) dict" where
  "validate_account authorized_at value =
     bnd (expect ValueError (as_obj value)) (\<lambda>d.
     ensure (keys_exact d account_fields) ValueError
     (ensure (canonical_text (get d (lit ''jti''))) ValueError
     (ensure (account_scope_ok d) ValueError
     (ensure (canonical_text (get d (lit ''kind'')) \<and> canonical_text (get d (lit ''unit''))) ValueError
     (ensure (amount_text (get d (lit ''ceiling_amount_scaled'')) \<and> amount_text (get d (lit ''amount_scaled''))) ValueError
     (ensure (canonical_text (get d (lit ''reservation_id''))) ValueError
     (bnd (aware_moment (get d (lit ''window_epoch''))) (\<lambda>epoch.
      bnd (positive (get d (lit ''window_duration_ms''))) (\<lambda>duration.
      bnd (within_period epoch duration authorized_at) (\<lambda>inside.
      ensure inside ValueError
      (Inr (map (\<lambda>k. (lit k, get d (lit k))) [''jti'', ''scope'', ''scope_id'', ''kind'', ''unit'',
        ''ceiling_amount_scaled'', ''window_epoch'', ''window_duration_ms'', ''amount_scaled'', ''reservation_id'']))))))))))))"

definition identifier_key :: "(pystr, json) dict \<Rightarrow> json \<times> json" where
  "identifier_key d = (get d (lit ''namespace''), get d (lit ''identifier''))"

text \<open>\<open>[_validate_identifier(item) for item in identifiers]\<close>, without repetition.\<close>

definition validate_identifiers :: "json list \<Rightarrow> exc + (pystr, json) dict list" where
  "validate_identifiers items =
     bnd (each validate_identifier items) (\<lambda>ids.
     ensure (distinct (map identifier_key ids)) ValueError (Inr ids))"

definition block_fields :: "pystr list" where
  "block_fields = map lit [''profile'', ''operation'', ''state'', ''consumed_identifiers'', ''accounts'']"

definition validate_consumption_block :: "interp \<Rightarrow> instant \<Rightarrow> json \<Rightarrow> exc + unit" where
  "validate_consumption_block I authorized_at value =
     bnd (expect ValueError (as_obj value)) (\<lambda>d.
     ensure (keys_exact d block_fields) ValueError
     (ensure (get d (lit ''profile'') = JStr consumption_profile) ValueError
     (bnd (validate_operation_descriptor I (get d (lit ''operation''))) (\<lambda>_.
      require_one_of [''authorized'', ''refused''] (get d (lit ''state''))
     (case (get d (lit ''consumed_identifiers''), get d (lit ''accounts'')) of
        (JList identifiers, JList accounts) \<Rightarrow>
          bnd (validate_identifiers identifiers) (\<lambda>_.
          bnd (each (validate_account authorized_at) accounts) (\<lambda>parsed.
          ensure (distinct (map (\<lambda>a. get a (lit ''reservation_id'')) parsed)) ValueError
          (ensure (\<not> (get d (lit ''state'') = JStr (lit ''refused'') \<and> (identifiers \<noteq> [] \<or> accounts \<noteq> []))) ValueError
          (Inr ()))))
      | _ \<Rightarrow> Inl ValueError)))))"

section \<open>Counterparty record grammars\<close>

text \<open>\<open>counterparty_recovery.py\<close>: the fields the ledger seals around a record are not the record's own.\<close>

definition seal_fields :: "pystr list" where
  "seal_fields = map lit [''seq'', ''prev_hash'', ''record_hash'', ''timestamp_utc'']"

definition unsealed :: "(pystr, json) dict \<Rightarrow> (pystr, json) dict" where
  "unsealed d = filter (\<lambda>p. fst p \<notin> set seal_fields) d"

definition cancellation_fields :: "pystr list" where
  "cancellation_fields = map lit [''record_type'', ''profile'', ''event'', ''operation'', ''evaluated_at'', ''adapter_id'',
     ''domain_id'', ''ledger_id'', ''enforcement_point_id'', ''admission_token'', ''foreign_dispatch'', ''recovery_request'']"

definition recovery_fields :: "pystr list" where
  "recovery_fields = map lit [''record_type'', ''profile'', ''event'', ''operation'', ''evaluated_at'', ''decision_hash'',
     ''intent_hash'', ''authentication_hash'', ''recovery_request'', ''resource_outcome'']"

definition event_identity :: "(pystr, json) dict \<Rightarrow> string \<Rightarrow> bool" where
  "event_identity d event \<longleftrightarrow> get d (lit ''record_type'') = JStr (lit ''consumption'')
     \<and> get d (lit ''profile'') = JStr consumption_profile \<and> get d (lit ''event'') = JStr (lit event)"

definition validate_counterparty_cancellation_record_shape :: "json \<Rightarrow> exc + unit" where
  "validate_counterparty_cancellation_record_shape record =
     bnd (expect ValueError (as_obj record)) (\<lambda>d.
     ensure (keys_exact (unsealed d) cancellation_fields) ValueError
     (ensure (event_identity d ''counterparty_cancelled'' \<and> get d (lit ''operation'') = JNull) ValueError
     (bnd (aware_moment (get d (lit ''evaluated_at''))) (\<lambda>_.
      ensure (list_all (\<lambda>k. canonical_text (get d (lit k)))
        [''adapter_id'', ''domain_id'', ''ledger_id'', ''enforcement_point_id'']) ValueError
     (ensure (list_all (\<lambda>k. ascii_token (get d (lit k)))
        [''admission_token'', ''foreign_dispatch'', ''recovery_request'']) ValueError
     (Inr ()))))))"

definition validate_counterparty_recovery_record :: "interp \<Rightarrow> json \<Rightarrow> exc + unit" where
  "validate_counterparty_recovery_record I record =
     bnd (expect ValueError (as_obj record)) (\<lambda>d.
     ensure (keys_exact (unsealed d) recovery_fields) ValueError
     (ensure (event_identity d ''counterparty_recovered'') ValueError
     (bnd (validate_operation_descriptor I (get d (lit ''operation''))) (\<lambda>_.
      bnd (aware_moment (get d (lit ''evaluated_at''))) (\<lambda>_.
      ensure (list_all (\<lambda>k. hex_text 64 (get d (lit k))) [''decision_hash'', ''intent_hash'', ''authentication_hash'']) ValueError
     (ensure (list_all (\<lambda>k. ascii_token (get d (lit k))) [''recovery_request'', ''resource_outcome'']) ValueError
     (Inr ())))))))"

section \<open>Consumption events\<close>

definition base_fields :: "string list" where
  "base_fields = [''record_type'', ''profile'', ''event'', ''operation'', ''evaluated_at'']"

definition counterparty_transport_fields :: "string list" where
  "counterparty_transport_fields = [''decision_hash'', ''intent_hash'', ''dispatch_token'', ''dispatch_claims'',
     ''foreign_dispatch_hash'', ''foreign_descriptor_hash'', ''operation_hash'', ''request_body'',
     ''request_body_hash'', ''pending_ack'']"

definition fields_ok :: "(pystr, json) dict \<Rightarrow> string list \<Rightarrow> bool" where
  "fields_ok d extra \<longleftrightarrow> keys_exact (unsealed d) (map lit (base_fields @ extra))"

definition operation_payload :: "(pystr, json) dict \<Rightarrow> json" where
  "operation_payload d = (case get d (lit ''operation'') of JObj op \<Rightarrow> get op (lit ''payload_hash'') | _ \<Rightarrow> JNull)"

definition claims_match_operation :: "(pystr, json) dict \<Rightarrow> bool" where
  "claims_match_operation d =
     (case get d (lit ''dispatch_claims'') of
        JObj claims \<Rightarrow> py_eq (get claims (lit ''payload_hash'')) (operation_payload d) | _ \<Rightarrow> False)"

definition hashed_text :: "interp \<Rightarrow> (pystr \<Rightarrow> pybytes option) \<Rightarrow> json \<Rightarrow> json \<Rightarrow> bool" where
  "hashed_text I encode v h =
     (case v of JStr s \<Rightarrow> (case encode s of None \<Rightarrow> False | Some bs \<Rightarrow> JStr (sha256_hex I bs) = h) | _ \<Rightarrow> False)"

definition encode_ascii :: "pystr \<Rightarrow> pybytes option" where
  "encode_ascii s = (if is_ascii s then Some (map of_nat s) else None)"

definition validate_counterparty_transport :: "interp \<Rightarrow> (pystr, json) dict \<Rightarrow> exc + unit" where
  "validate_counterparty_transport I d =
     ensure (list_all (\<lambda>k. hex_text 64 (get d (lit k))) [''decision_hash'', ''intent_hash'', ''foreign_dispatch_hash'',
        ''foreign_descriptor_hash'', ''operation_hash'', ''request_body_hash'']) ValueError
     (ensure (nonempty_str (get d (lit ''dispatch_token''))
        \<and> hashed_text I encode_ascii (get d (lit ''dispatch_token'')) (get d (lit ''foreign_dispatch_hash''))) ValueError
     (ensure (claims_match_operation d) ValueError
     (ensure (hashed_text I utf8_encode (get d (lit ''request_body'')) (get d (lit ''request_body_hash''))) ValueError
     (ensure (as_str (get d (lit ''pending_ack'')) \<noteq> None) ValueError (Inr ())))))"

definition validate_dispatch_fenced :: "(pystr, json) dict \<Rightarrow> exc + unit" where
  "validate_dispatch_fenced d =
     ensure (fields_ok d [''decision_hash'', ''intent_hash'', ''dispatch_token'', ''dispatch_claims'']) ValueError
     (ensure (hex_text 64 (get d (lit ''decision_hash'')) \<and> hex_text 64 (get d (lit ''intent_hash''))) ValueError
     (ensure (get d (lit ''dispatch_token'') = JNull \<or> as_str (get d (lit ''dispatch_token'')) \<noteq> None) ValueError
     (ensure (claims_match_operation d) ValueError (Inr ()))))"

definition resume_digests :: "string list" where
  "resume_digests = [''pending_hash'', ''b_request_fingerprint'', ''b_escalation_record_hash'',
     ''counterparty_context_hash'', ''resume_authentication_hash'']"

definition validate_counterparty_pending :: "interp \<Rightarrow> (pystr, json) dict \<Rightarrow> exc + unit" where
  "validate_counterparty_pending I d =
     ensure (fields_ok d counterparty_transport_fields) ValueError (validate_counterparty_transport I d)"

definition validate_counterparty_resume :: "interp \<Rightarrow> (pystr, json) dict \<Rightarrow> exc + unit" where
  "validate_counterparty_resume I d =
     ensure (fields_ok d (counterparty_transport_fields @ resume_digests)) ValueError
     (ensure (list_all (\<lambda>k. hex_text 64 (get d (lit k))) resume_digests) ValueError
     (validate_counterparty_transport I d))"

definition validate_settlement :: "(pystr, json) dict \<Rightarrow> exc + unit" where
  "validate_settlement d =
     ensure (fields_ok d [''decision_hash'', ''intent_hash'', ''status'', ''basis'', ''resource_outcome'']) ValueError
     (ensure (hex_text 64 (get d (lit ''decision_hash''))) ValueError
     (ensure (get d (lit ''intent_hash'') = JNull \<or> hex_text 64 (get d (lit ''intent_hash''))) ValueError
     (require_one_of [''committed'', ''released''] (get d (lit ''status''))
     (ensure (get d (lit ''basis'') = JStr (lit ''resource_receipt'') \<and> nonempty_str (get d (lit ''resource_outcome''))
        \<or> get d (lit ''basis'') = JStr (lit ''durable_no_dispatch'') \<and> get d (lit ''resource_outcome'') = JNull
          \<and> get d (lit ''status'') = JStr (lit ''released'')) ValueError
     (Inr ())))))"

definition context_texts :: "string list" where
  "context_texts = [''domain_id'', ''ledger_id'', ''enforcement_point_id'', ''actor_key_fingerprint'', ''admission_token'']"

text \<open>The context joins the operation on the four fields they share, where an operation is named.\<close>

definition context_joins :: "(pystr, json) dict \<Rightarrow> json \<Rightarrow> bool" where
  "context_joins context operation =
     (case operation of
        JObj op \<Rightarrow> list_all (\<lambda>k. py_eq (get context (lit k)) (get op (lit k)))
          [''domain_id'', ''ledger_id'', ''enforcement_point_id'', ''actor_key_fingerprint'']
      | _ \<Rightarrow> True)"

definition omits_proof :: "json \<Rightarrow> bool" where
  "omits_proof actor = (case actor of JObj a \<Rightarrow> \<not> has_key a (lit ''proof'') | _ \<Rightarrow> True)"

definition authentication_operation :: "interp \<Rightarrow> (pystr, json) dict \<Rightarrow> exc + unit" where
  "authentication_operation I d =
     (if get d (lit ''authentication_kind'') = JStr (lit ''delegation_issuance'')
      then ensure (get d (lit ''operation'') = JNull) ValueError (Inr ())
      else bnd (validate_operation_descriptor I (get d (lit ''operation''))) (\<lambda>_. Inr ()))"

definition validate_authentication :: "interp \<Rightarrow> (pystr, json) dict \<Rightarrow> exc + unit" where
  "validate_authentication I d =
     ensure (fields_ok d [''authentication_kind'', ''request'', ''proof'', ''consumed_identifiers'', ''authentication_context'']) ValueError
     (require_one_of [''retry'', ''reconciliation'', ''delegation_issuance'', ''counterparty_resume''] (get d (lit ''authentication_kind''))
     (bnd (authentication_operation I d) (\<lambda>_.
      bnd (expect ValueError (as_obj (get d (lit ''request'')))) (\<lambda>request.
      ensure (as_obj (get d (lit ''proof'')) \<noteq> None) ValueError
     (ensure (omits_proof (get request (lit ''actor''))) ValueError
     (bnd (expect ValueError (as_obj (get d (lit ''authentication_context'')))) (\<lambda>context.
      ensure (keys_exact context (map lit (context_texts @ [''request_hash'']))) ValueError
     (ensure (list_all (\<lambda>k. canonical_text (get context (lit k))) context_texts) ValueError
     (ensure (hex_text 64 (get context (lit ''request_hash''))) ValueError
     (ensure (context_joins context (get d (lit ''operation''))) ValueError
     (bnd (expect ValueError (as_list (get d (lit ''consumed_identifiers'')))) (\<lambda>identifiers.
      bnd (validate_identifiers identifiers) (\<lambda>_. Inr ())))))))))))))"

definition validate_consumption_event :: "interp \<Rightarrow> (pystr, json) dict \<Rightarrow> exc + unit" where
  "validate_consumption_event I d =
     ensure (get d (lit ''record_type'') = JStr (lit ''consumption'') \<and> get d (lit ''profile'') = JStr consumption_profile) ValueError
     (let event = get d (lit ''event'')
      in if event = JStr (lit ''counterparty_cancelled'')
         then validate_counterparty_cancellation_record_shape (JObj d)
         else if event = JStr (lit ''counterparty_recovered'') then validate_counterparty_recovery_record I (JObj d)
         else require_one_of [''dispatch_fenced'', ''counterparty_pending'', ''counterparty_resume_fenced'', ''settlement'',
             ''authentication''] event
           (if event = JStr (lit ''authentication'') then validate_authentication I d
            else bnd (validate_operation_descriptor I (get d (lit ''operation''))) (\<lambda>_.
              if event = JStr (lit ''dispatch_fenced'') then validate_dispatch_fenced d
              else if event = JStr (lit ''counterparty_pending'') then validate_counterparty_pending I d
              else if event = JStr (lit ''counterparty_resume_fenced'') then validate_counterparty_resume I d
              else validate_settlement d)))"

definition validate_consumption_record :: "interp \<Rightarrow> json \<Rightarrow> exc + unit" where
  "validate_consumption_record I record =
     bnd (expect ValueError (as_obj record)) (\<lambda>d.
     if get d (lit ''record_type'') = JStr (lit ''decision'') then
       bnd (aware_moment (get (case get d (lit ''decision'') of JObj s \<Rightarrow> s | _ \<Rightarrow> d) (lit ''evaluated_at''))) (\<lambda>authorized_at.
       validate_consumption_block I authorized_at (get d (lit ''consumption'')))
     else if get d (lit ''record_type'') = JStr (lit ''consumption'') then
       bnd (aware_moment (get d (lit ''evaluated_at''))) (\<lambda>_. validate_consumption_event I d)
     else Inl ValueError)"

section \<open>Every applicable window has its account\<close>

text \<open>The account of a bound of a claim, if the bound applies to the action and has a window.\<close>

definition account_of :: "pystr \<Rightarrow> pystr \<Rightarrow> delegation_claims \<times> bound \<Rightarrow> account_row option" where
  "account_of action_type action_boundary p =
     (case p of (claim, b) \<Rightarrow>
        if bound_applies b action_type action_boundary then
          (case bd_window b of None \<Rightarrow> None | Some (epoch, duration) \<Rightarrow>
             Some \<lparr>ac_jti = jti claim,
               ac_scope = (if bd_aggregation b = None then None else Some (lit ''entry'')),
               ac_scope_id = (if bd_aggregation b = None then None else authority_entry_hash claim),
               ac_kind = bd_kind b, ac_unit = bd_unit b, ac_ceiling = dec_digits (bd_amount b),
               ac_epoch = epoch, ac_duration = duration, ac_window_kind = bd_window_kind b\<rparr>)
        else None)"

definition grant_accounts :: "account_row list \<Rightarrow> account_row list" where
  "grant_accounts rs = filter (\<lambda>r. ac_scope r = None) rs"

definition entry_accounts :: "account_row list \<Rightarrow> account_row list" where
  "entry_accounts rs = filter (\<lambda>r. ac_scope r \<noteq> None) rs"

text \<open>What the state holds after the accounts \<open>rs\<close>: the shared ones once for each identity.\<close>

definition tallied :: "account_row list \<Rightarrow> account_state \<Rightarrow> bool" where
  "tallied rs st \<longleftrightarrow> (case st of (rows, shared) \<Rightarrow>
     rows = grant_accounts rs \<and> dict_ok shared
     \<and> (\<forall>k r. map_of shared k = Some r \<longrightarrow> account_identity r = k \<and> r \<in> set (entry_accounts rs))
     \<and> (\<forall>r \<in> set (entry_accounts rs). \<exists>s. map_of shared (account_identity r) = Some s \<and> ac_ceiling s = ac_ceiling r))"

lemma account_step_tallied:
  assumes "account_step a b p st = Inr st'" "tallied rs st"
  shows "tallied (rs @ (case account_of a b p of None \<Rightarrow> [] | Some r \<Rightarrow> [r])) st'"
proof -
  obtain claim bd where p: "p = (claim, bd)" by force
  obtain rows shared where st: "st = (rows, shared)" by force
  show ?thesis
  proof (cases "bound_applies bd a b \<and> bd_window bd \<noteq> None")
    case False
    then have "account_of a b p = None" by (cases "bd_window bd") (simp_all add: account_of_def p)
    moreover have "st' = st" using assms(1) False by (cases "bd_window bd") (auto simp: account_step_def p st split: if_splits)
    ultimately show ?thesis using assms(2) by simp
  next
    case True
    then obtain epoch dur where w: "bd_window bd = Some (epoch, dur)" "bound_applies bd a b" by auto
    then obtain r where r: "account_of a b p = Some r" by (auto simp: account_of_def p)
    show ?thesis
    proof (cases "bd_aggregation bd")
      case None
      then have "ac_scope r = None" "st' = (rows @ [r], shared)"
        using assms(1) r w
        by (auto simp: account_step_def account_of_def p st account_description_def raise_simps)
      then show ?thesis
        using assms(2) by (simp add: r tallied_def st grant_accounts_def entry_accounts_def)
    next
      case (Some ag)
      then obtain h where h: "authority_entry_hash claim = Some h"
        using assms(1) w by (auto simp: account_step_def p st split: option.splits)
      have row: "account_description claim bd (epoch, dur) (Some (lit ''entry'')) (Some h) = Inr r" "ac_scope r \<noteq> None"
        using assms(1) r w Some h
        by (auto simp: account_step_def account_of_def p st account_description_def raise_simps)
      show ?thesis
      proof (cases "map_of shared (account_identity r)")
        case None
        then have "st' = (rows, dict_set (account_identity r) r shared)"
          using assms(1) w Some h row by (simp add: account_step_def p st raise_simps)
        then show ?thesis
          using assms(2) row(2) None
          by (auto simp: r tallied_def st grant_accounts_def entry_accounts_def)
      next
        case (Some prev)
        then have "st' = st" "ac_ceiling prev = ac_ceiling r"
          using assms(1) w \<open>bd_aggregation bd = _\<close> h row by (simp_all add: account_step_def p st raise_simps)
        then show ?thesis
          using assms(2) row(2) Some by (auto simp: r tallied_def st grant_accounts_def entry_accounts_def)
      qed
    qed
  qed
qed

lemma thread_tallied:
  "thread (account_step a b) ps st = Inr st' \<Longrightarrow> tallied rs st \<Longrightarrow> tallied (rs @ List.map_filter (account_of a b) ps) st'"
proof (induction ps arbitrary: st rs)
  case (Cons p ps)
  then obtain s1 where "account_step a b p st = Inr s1" "thread (account_step a b) ps s1 = Inr st'"
    by (auto simp: raise_simps)
  from Cons.IH [OF this(2) account_step_tallied [OF this(1) Cons.prems(2)]] show ?case
    by (simp add: List.map_filter_simps split: option.splits)
qed (simp add: List.map_filter_simps)

definition represents :: "account_row \<Rightarrow> account_row \<Rightarrow> bool" where
  "represents s r \<longleftrightarrow> account_identity s = account_identity r \<and> ac_ceiling s = ac_ceiling r
     \<and> (ac_scope r = None \<longrightarrow> s = r)"

lemma required_accounts:
  assumes "required_account_bounds chain a b = Inr rows"
  defines "wanted \<equiv> List.map_filter (account_of a b) (claim_bounds chain)"
  shows "set rows \<subseteq> set wanted \<and> (\<forall>r \<in> set wanted. \<exists>s \<in> set rows. represents s r)
    \<and> grant_accounts rows = grant_accounts wanted \<and> distinct (map account_identity (entry_accounts rows))"
proof -
  obtain gs shared where st: "thread (account_step a b) (claim_bounds chain) ([], []) = Inr (gs, shared)"
      "rows = gs @ map snd shared"
    using assms(1) by (auto simp: required_account_bounds_def raise_simps)
  have t: "tallied wanted (gs, shared)"
    using thread_tallied [OF st(1), of "[]"]
    by (simp add: tallied_def grant_accounts_def entry_accounts_def wanted_def)
  have ok: "dict_ok shared" and gs: "gs = grant_accounts wanted"
    using t by (simp_all add: tallied_def)
  have key: "account_identity r = k \<and> r \<in> set (entry_accounts wanted)" if "(k, r) \<in> set shared" for k r
    using t dict_ok_map_of [OF ok that] unfolding tallied_def prod.case by blast
  then have entry: "ac_scope r \<noteq> None" if "(k, r) \<in> set shared" for k r
    using that by (fastforce simp: entry_accounts_def)
  have gsn: "ac_scope r = None" if "r \<in> set gs" for r
    using that by (simp add: gs grant_accounts_def)
  have "filter (\<lambda>r. ac_scope r \<noteq> None) (map snd shared) = map snd shared"
    by (rule filter_True) (use entry in auto)
  moreover have "filter (\<lambda>r. ac_scope r = None) (map snd shared) = []"
    using entry by (auto simp: filter_empty_conv)
  moreover have "filter (\<lambda>r. ac_scope r = None) gs = gs" "filter (\<lambda>r. ac_scope r \<noteq> None) gs = []"
    using gsn by (auto simp: filter_empty_conv intro!: filter_True)
  ultimately have split: "grant_accounts rows = gs" "entry_accounts rows = map snd shared"
    unfolding st(2) grant_accounts_def entry_accounts_def by simp_all
  have "map account_identity (map snd shared) = keys shared"
    using key by (auto simp: keys_def)
  then have "distinct (map account_identity (entry_accounts rows))"
    using ok by (simp add: split(2) dict_ok_def)
  moreover have "set rows \<subseteq> set wanted"
    using key by (auto simp: st(2) gs grant_accounts_def entry_accounts_def)
  moreover have "\<exists>s \<in> set rows. represents s r" if "r \<in> set wanted" for r
  proof (cases "ac_scope r = None")
    case True
    then show ?thesis using that by (intro bexI [of _ r]) (auto simp: represents_def st(2) gs grant_accounts_def)
  next
    case False
    then have "r \<in> set (entry_accounts wanted)" using that by (simp add: entry_accounts_def)
    then obtain s where s: "map_of shared (account_identity r) = Some s" "ac_ceiling s = ac_ceiling r"
      using t unfolding tallied_def prod.case by blast
    have m: "(account_identity r, s) \<in> set shared" by (rule map_of_SomeD [OF s(1)])
    then have "s \<in> set rows" unfolding st(2) by force
    then show ?thesis using False key [OF m] s(2) by (auto simp: represents_def)
  qed
  ultimately show ?thesis using split(1) gs by blast
qed


section \<open>Accepted consumption blocks\<close>

definition operation_formed :: "json \<Rightarrow> bool" where
  "operation_formed v \<longleftrightarrow> (\<exists>d. v = JObj d \<and> keys_exact d operation_fields \<and> operation_id_ok (get d (lit ''operation_id''))
     \<and> list_all (\<lambda>k. canonical_text (get d k)) operation_texts \<and> list_all (\<lambda>k. hex_text 64 (get d k)) operation_digests)"

lemma texts_printable: "canonical_text v \<Longrightarrow> printable v" "hex_text n v \<Longrightarrow> printable v" "operation_id_ok v \<Longrightarrow> printable v"
  by (cases v; simp add: canonical_text_def hex_text_def operation_id_ok_def)+

lemma operation_descriptor_formed:
  "(\<exists>d. validate_operation_descriptor I v = Inr d) \<longleftrightarrow> operation_formed v"
proof -
  have "\<exists>bs. canonical_json_bytes I (JObj (map (\<lambda>k. (k, get d k)) operation_fields)) = Inr bs"
    if "operation_id_ok (get d (lit ''operation_id''))" "list_all (\<lambda>k. canonical_text (get d k)) operation_texts"
      "list_all (\<lambda>k. hex_text 64 (get d k)) operation_digests" for d
    using that texts_printable
    by (auto simp: canonical_json_bytes_Inr operation_fields_def operation_texts_def operation_digests_def)
  then show ?thesis
    unfolding validate_operation_descriptor_def operation_formed_def Let_def raise_simps by auto
qed

definition identifier_formed :: "json \<Rightarrow> bool" where
  "identifier_formed v \<longleftrightarrow> (\<exists>d. v = JObj d \<and> keys_exact d identifier_fields
     \<and> list_all (\<lambda>k. canonical_text (get d k)) identifier_fields)"

definition field :: "string \<Rightarrow> json \<Rightarrow> json" where
  "field k v = (case v of JObj d \<Rightarrow> get d (lit k) | _ \<Rightarrow> JNull)"

text \<open>An account charged at a moment inside its period.\<close>

definition account_charged :: "instant \<Rightarrow> json \<Rightarrow> bool" where
  "account_charged at v \<longleftrightarrow> (\<exists>d epoch duration. v = JObj d \<and> keys_exact d account_fields
     \<and> list_all (\<lambda>k. canonical_text (get d (lit k))) [''jti'', ''kind'', ''unit'', ''reservation_id''] \<and> account_scope_ok d
     \<and> amount_text (get d (lit ''ceiling_amount_scaled'')) \<and> amount_text (get d (lit ''amount_scaled''))
     \<and> aware_moment (get d (lit ''window_epoch'')) = Inr epoch
     \<and> get d (lit ''window_duration_ms'') = JInt duration \<and> 0 < duration
     \<and> epoch \<le> at \<and> at < epoch + duration * 1000 \<and> epoch + duration * 1000 \<le> max_instant)"

lemma validate_account_Inr:
  "validate_account at v = Inr a \<longleftrightarrow> account_charged at v
     \<and> a = map (\<lambda>k. (lit k, field k v)) [''jti'', ''scope'', ''scope_id'', ''kind'', ''unit'',
        ''ceiling_amount_scaled'', ''window_epoch'', ''window_duration_ms'', ''amount_scaled'', ''reservation_id'']"
proof -
  have "(\<exists>x. within_period e n at = Inr x \<and> x) \<longleftrightarrow> e \<le> at \<and> at < e + n * 1000 \<and> e + n * 1000 \<le> max_instant" for e n
    by (auto simp: within_period_def)
  moreover have "within_period e n at = Inr True \<longleftrightarrow> e \<le> at \<and> at < e + n * 1000 \<and> e + n * 1000 \<le> max_instant" for e n
    by (auto simp: within_period_def)
  ultimately show ?thesis
    by (auto simp: validate_account_def account_charged_def positive_def raise_simps field_def)
qed

lemma validate_identifier_Inr:
  "validate_identifier v = Inr d \<longleftrightarrow> identifier_formed v
     \<and> d = map (\<lambda>k. (lit k, field k v)) [''namespace'', ''identifier'', ''expires_at'']"
  by (auto simp: validate_identifier_def identifier_formed_def raise_simps field_def identifier_fields_def)

lemma each_map_iff:
  assumes "\<And>x y. f x = Inr y \<longleftrightarrow> P x \<and> y = g x"
  shows "each f xs = Inr ys \<longleftrightarrow> list_all P xs \<and> ys = map g xs"
  using assms by (induction xs arbitrary: ys) (auto simp: raise_simps)

definition block_formed :: "instant \<Rightarrow> json \<Rightarrow> bool" where
  "block_formed at v \<longleftrightarrow> (\<exists>d ids accs. v = JObj d \<and> keys_exact d block_fields
     \<and> get d (lit ''profile'') = JStr consumption_profile \<and> operation_formed (get d (lit ''operation''))
     \<and> get d (lit ''consumed_identifiers'') = JList ids \<and> get d (lit ''accounts'') = JList accs
     \<and> list_all identifier_formed ids \<and> distinct (map (\<lambda>i. (field ''namespace'' i, field ''identifier'' i)) ids)
     \<and> list_all (account_charged at) accs \<and> distinct (map (field ''reservation_id'') accs)
     \<and> (get d (lit ''state'') = JStr (lit ''authorized'')
        \<or> get d (lit ''state'') = JStr (lit ''refused'') \<and> ids = [] \<and> accs = []))"

lemma validate_identifiers_Inr:
  "(\<exists>xs. validate_identifiers ids = Inr xs) \<longleftrightarrow> list_all identifier_formed ids
     \<and> distinct (map (\<lambda>i. (field ''namespace'' i, field ''identifier'' i)) ids)"
  by (auto simp: validate_identifiers_def raise_simps each_map_iff [OF validate_identifier_Inr] identifier_key_def o_def)

lemma two_lists:
  "(case (a, b) of (JList xs, JList ys) \<Rightarrow> f xs ys | _ \<Rightarrow> Inl e) = Inr x \<longleftrightarrow>
     (\<exists>xs ys. a = JList xs \<and> b = JList ys \<and> f xs ys = Inr x)"
  by (cases a; cases b) auto

lemma reserved_accounts:
  "(\<exists>parsed. each (validate_account at) accs = Inr parsed \<and> distinct (map (\<lambda>a. get a (lit ''reservation_id'')) parsed))
     \<longleftrightarrow> list_all (account_charged at) accs \<and> distinct (map (field ''reservation_id'') accs)"
  unfolding each_map_iff [OF validate_account_Inr] by (auto simp: o_def)

lemma block_iff: "validate_consumption_block I at v = Inr () \<longleftrightarrow> block_formed at v"
proof -
  have "validate_consumption_block I at v = Inr () \<longleftrightarrow> (\<exists>d ids accs. v = JObj d \<and> keys_exact d block_fields
     \<and> get d (lit ''profile'') = JStr consumption_profile
     \<and> (\<exists>op. validate_operation_descriptor I (get d (lit ''operation'')) = Inr op)
     \<and> get d (lit ''state'') \<in> JStr ` lit ` set [''authorized'', ''refused'']
     \<and> get d (lit ''consumed_identifiers'') = JList ids \<and> get d (lit ''accounts'') = JList accs
     \<and> (\<exists>xs. validate_identifiers ids = Inr xs)
     \<and> (\<exists>parsed. each (validate_account at) accs = Inr parsed
          \<and> distinct (map (\<lambda>a. get a (lit ''reservation_id'')) parsed))
     \<and> \<not> (get d (lit ''state'') = JStr (lit ''refused'') \<and> (ids \<noteq> [] \<or> accs \<noteq> [])))"
    unfolding validate_consumption_block_def raise_simps two_lists by auto
  also have "\<dots> \<longleftrightarrow> block_formed at v"
    unfolding operation_descriptor_formed validate_identifiers_Inr reserved_accounts block_formed_def
    by (intro ex_cong1) auto
  finally show ?thesis .
qed

definition decision_source :: "(pystr, json) dict \<Rightarrow> (pystr, json) dict" where
  "decision_source d = (case get d (lit ''decision'') of JObj s \<Rightarrow> s | _ \<Rightarrow> d)"

text \<open>
  C28: a decision record passes exactly if its consumption block is well formed at the moment it was
  evaluated: a canonical operation, no identifier and no reservation twice, every account inside its
  half-open period and canonical, and nothing charged on a refusal.
\<close>

theorem consumption_decision_iff:
  "get d (lit ''record_type'') = JStr (lit ''decision'') \<and> validate_consumption_record I (JObj d) = Inr () \<longleftrightarrow>
   get d (lit ''record_type'') = JStr (lit ''decision'')
   \<and> (\<exists>at. aware_moment (get (decision_source d) (lit ''evaluated_at'')) = Inr at \<and> block_formed at (get d (lit ''consumption'')))"
  by (auto simp: validate_consumption_record_def raise_simps block_iff decision_source_def)

lemma account_step_errors: "raises_only {ValueError} (account_step a b p st)"
  unfolding account_step_def account_description_def
  by (auto split: prod.splits option.splits intro!: raises_intros)

text \<open>
  C29: for a chain with accounts to charge, the rows are accounts of applicable windowed bounds of the
  chain; every such bound is represented, with its ceiling; those of single grants appear each as it
  is, in order; those shared through an authority entry appear once. Otherwise the call raises
  \<open>ValueError\<close>.
\<close>

theorem required_accounts_complete:
  "case required_account_bounds chain a b of
     Inl e \<Rightarrow> e = ValueError
   | Inr rows \<Rightarrow>
       let wanted = List.map_filter (account_of a b) (claim_bounds chain)
       in set rows \<subseteq> set wanted \<and> list_all (\<lambda>r. list_ex (\<lambda>s. represents s r) rows) wanted
         \<and> grant_accounts rows = grant_accounts wanted \<and> distinct (map account_identity (entry_accounts rows))"
proof (cases "required_account_bounds chain a b")
  case (Inl e)
  have "raises_only {ValueError} (required_account_bounds chain a b)"
    unfolding required_account_bounds_def by (auto intro!: raises_intros account_step_errors)
  then show ?thesis using Inl by (simp add: raises_only_def)
next
  case (Inr rows)
  then show ?thesis using required_accounts [OF Inr] by (simp add: Let_def list_all_iff list_ex_iff)
qed

end
