(* ===== verification/Delegation_Chain.thy ===== *)
theory Delegation_Chain
  imports Slips
begin

text \<open>
  The module \<open>tokens.py\<close>: the walk over the parents of a delegation, and its replay under the
  rule a past decision recorded.
\<close>

section \<open>The walk\<close>

definition max_verification_chain_depth :: nat where
  "max_verification_chain_depth = 64"

definition chain_rule_version :: pystr where
  "chain_rule_version = lit ''2''"

definition legacy_chain_rule_version :: pystr where
  "legacy_chain_rule_version = lit ''1''"

text \<open>Each constructor is one of the refusal texts, with the values it prints.\<close>

datatype chain_refusal =
    Depth_Over_Limit | Ancestry_Over_Limit | Non_Root_Without_Parents
  | Depth_Mismatch int nat | Unexpected_Parent nat | Signature_Invalid nat
  | Outside_Window nat pystr | Jti_Mismatch nat pystr pystr | Depth_Discontinuity nat int int
  | Scope_Widening nat axis | Revocation_Refusal pystr | Lacks_Delegate nat pystr
  | No_Root | Unsupported_Rule_Version

record chain_result =
  chain_valid :: bool
  walked_depth :: int
  depth_exceeded :: bool
  chain_reason :: "chain_refusal option"
  parent_claims :: "delegation_claims list"
  parent_statuses :: "json list"

text \<open>
  What the walk is given: the parser of a parent token, the evaluation time or the clock at
  each parent, the rule version, and the caller's status check if there is one.
\<close>

record chain_env =
  parse_parent :: "pystr \<Rightarrow> exc + delegation_claims option"
  evaluation_time :: "instant option"
  clock :: "nat \<Rightarrow> instant"
  rule_version :: pystr
  status_check :: "(nat \<Rightarrow> delegation_claims \<Rightarrow> json option \<times> pystr option) option"

definition parent_holds_delegate :: "delegation_claims \<Rightarrow> instant \<Rightarrow> pystr \<Rightarrow> bool" where
  "parent_holds_delegate p at rule =
     (if rule = legacy_chain_rule_version then lit ''delegate'' \<in> set (scope_actions p)
      else holds_right p (lit ''delegate'') at)"

definition parent_ancestry_failure ::
  "nat \<Rightarrow> delegation_claims \<Rightarrow> delegation_claims \<Rightarrow> delegation_claims \<Rightarrow> instant \<Rightarrow> (chain_refusal \<times> int) option" where
  "parent_ancestry_failure i child current p at =
     (if at < nbf p \<or> at > exp_at p then Some (Outside_Window i (jti p), chain_depth current)
      else case parent_jti current of
        Some j \<Rightarrow>
          if j \<noteq> jti p then Some (Jti_Mismatch i j (jti p), chain_depth current)
          else if chain_depth p \<noteq> chain_depth current - 1
          then Some (Depth_Discontinuity i (chain_depth current - 1) (chain_depth p), chain_depth child)
          else None
      | None \<Rightarrow>
          if chain_depth p \<noteq> chain_depth current - 1
          then Some (Depth_Discontinuity i (chain_depth current - 1) (chain_depth p), chain_depth child)
          else None)"

definition refused :: "delegation_claims list \<Rightarrow> json list \<Rightarrow> chain_refusal \<Rightarrow> int \<Rightarrow> chain_result" where
  "refused ps ss why d = \<lparr>chain_valid = False, walked_depth = d, depth_exceeded = False,
     chain_reason = Some why, parent_claims = ps, parent_statuses = ss\<rparr>"

definition check_time :: "chain_env \<Rightarrow> nat \<Rightarrow> instant" where
  "check_time E i = (case evaluation_time E of Some t \<Rightarrow> t | None \<Rightarrow> clock E i)"

definition run_status_check ::
  "chain_env \<Rightarrow> nat \<Rightarrow> delegation_claims \<Rightarrow> json list \<times> pystr option" where
  "run_status_check E i p =
     (case status_check E of
        None \<Rightarrow> ([], None)
      | Some check \<Rightarrow> (case check i p of (record, refusal) \<Rightarrow>
          (case record of None \<Rightarrow> [] | Some s \<Rightarrow> [s], refusal)))"

text \<open>The loop over the parent tokens, with the parents and statuses collected so far.\<close>

fun chain_loop ::
  "chain_env \<Rightarrow> delegation_claims \<Rightarrow> nat \<Rightarrow> delegation_claims \<Rightarrow> delegation_claims list \<Rightarrow> json list
    \<Rightarrow> pystr list \<Rightarrow> exc + chain_result" where
  "chain_loop E child i current ps ss [] =
     Inr (if parent_jti current \<noteq> None \<or> chain_depth current \<noteq> 0
       then refused ps ss No_Root (chain_depth child)
       else \<lparr>chain_valid = True, walked_depth = chain_depth child,
         depth_exceeded = chain_depth child > max_depth child, chain_reason = None,
         parent_claims = ps, parent_statuses = ss\<rparr>)"
| "chain_loop E child i current ps ss (token # tokens) =
     (if parent_jti current = None then Inr (refused ps ss (Unexpected_Parent i) (chain_depth child))
      else bnd (parse_parent E token) (\<lambda>parsed.
        case parsed of
          None \<Rightarrow> Inr (refused ps ss (Signature_Invalid i) (chain_depth current))
        | Some p \<Rightarrow>
            let at = check_time E i
            in case parent_ancestry_failure i child current p at of
              Some (why, d) \<Rightarrow> Inr (refused ps ss why d)
            | None \<Rightarrow>
                let ps = ps @ [p]
                in case scope_widening_axis current p of
                  Some a \<Rightarrow> Inr (refused ps ss (Scope_Widening i a) (chain_depth current))
                | None \<Rightarrow>
                    case run_status_check E i p of (new, refusal) \<Rightarrow>
                      let ss = ss @ new
                      in case refusal of
                        Some why \<Rightarrow> Inr (refused ps ss (Revocation_Refusal why) (chain_depth current))
                      | None \<Rightarrow>
                          if \<not> parent_holds_delegate p at (rule_version E)
                          then Inr (refused ps ss (Lacks_Delegate i (jti p)) (chain_depth current))
                          else chain_loop E child (i + 1) p ps ss tokens))"

definition walk_delegation_chain ::
  "chain_env \<Rightarrow> delegation_claims \<Rightarrow> pystr list \<Rightarrow> exc + chain_result" where
  "walk_delegation_chain E child tokens =
     (if chain_depth child > int max_verification_chain_depth
      then Inr (refused [] [] Depth_Over_Limit (chain_depth child))
      else if length tokens > max_verification_chain_depth
      then Inr (refused [] [] Ancestry_Over_Limit (chain_depth child))
      else if tokens = [] then
        Inr (if parent_jti child \<noteq> None \<or> chain_depth child \<noteq> 0
          then refused [] [] Non_Root_Without_Parents (chain_depth child)
          else \<lparr>chain_valid = True, walked_depth = chain_depth child, depth_exceeded = False,
            chain_reason = None, parent_claims = [], parent_statuses = []\<rparr>)
      else if int (length tokens) \<noteq> chain_depth child
      then Inr (refused [] [] (Depth_Mismatch (chain_depth child) (length tokens)) (chain_depth child))
      else chain_loop E child 0 child [] [] tokens)"

definition validate_delegation_chain ::
  "chain_env \<Rightarrow> delegation_claims \<Rightarrow> pystr list \<Rightarrow> exc + chain_result" where
  "validate_delegation_chain E = walk_delegation_chain (E\<lparr>rule_version := chain_rule_version\<rparr>)"

record replay_result = chain_result +
  rule_version_applied :: "pystr option"
  supported :: bool

definition replay_delegation_chain ::
  "chain_env \<Rightarrow> pystr option \<Rightarrow> delegation_claims \<Rightarrow> pystr list \<Rightarrow> exc + replay_result" where
  "replay_delegation_chain E recorded child tokens =
     (let rule = (case recorded of
          None \<Rightarrow> Some legacy_chain_rule_version
        | Some v \<Rightarrow> if v \<in> {legacy_chain_rule_version, chain_rule_version} then Some v else None)
      in case rule of
        None \<Rightarrow> Inr (chain_result.extend
          (refused [] [] Unsupported_Rule_Version (chain_depth child))
          \<lparr>rule_version_applied = None, supported = False\<rparr>)
      | Some v \<Rightarrow>
          bnd (walk_delegation_chain (E\<lparr>rule_version := v\<rparr>) child tokens) (\<lambda>r.
            Inr (chain_result.extend r \<lparr>rule_version_applied = Some v, supported = True\<rparr>)))"

section \<open>Accepted chains\<close>

text \<open>One step of an accepted chain, and the whole of it down to the root.\<close>

definition continues_chain :: "chain_env \<Rightarrow> nat \<Rightarrow> delegation_claims \<Rightarrow> delegation_claims \<Rightarrow> bool" where
  "continues_chain E i current p \<longleftrightarrow>
     parent_jti current = Some (jti p) \<and> chain_depth p = chain_depth current - 1
     \<and> nbf p \<le> check_time E i \<and> check_time E i \<le> exp_at p
     \<and> is_scope_subset current p \<and> snd (run_status_check E i p) = None
     \<and> parent_holds_delegate p (check_time E i) (rule_version E)"

fun chain_to_root :: "chain_env \<Rightarrow> nat \<Rightarrow> delegation_claims \<Rightarrow> delegation_claims list \<Rightarrow> bool" where
  "chain_to_root E i current [] \<longleftrightarrow> parent_jti current = None \<and> chain_depth current = 0"
| "chain_to_root E i current (p # ps) \<longleftrightarrow> continues_chain E i current p \<and> chain_to_root E (i + 1) p ps"

lemma chain_to_root_depth: "chain_to_root E i current ps \<Longrightarrow> chain_depth current = int (length ps)"
  by (induction ps arbitrary: i current) (auto simp: continues_chain_def)

lemma chain_to_root_narrows: "chain_to_root E i current ps \<Longrightarrow> successively is_scope_subset (current # ps)"
  by (induction ps arbitrary: i current) (auto simp: continues_chain_def)

lemma ancestry_None:
  "parent_jti current \<noteq> None \<Longrightarrow> parent_ancestry_failure i child current p at = None \<longleftrightarrow>
    nbf p \<le> at \<and> at \<le> exp_at p \<and> parent_jti current = Some (jti p) \<and> chain_depth p = chain_depth current - 1"
  by (auto simp: parent_ancestry_failure_def split: option.splits)

lemma refused_simps [simp]: "\<not> chain_valid (refused ps ss why d)" "parent_claims (refused ps ss why d) = ps"
  by (simp_all add: refused_def)

lemma chain_loop_step:
  "chain_loop E child i current ps ss (t # ts) = Inr r \<and> chain_valid r \<longleftrightarrow>
    (\<exists>p. parse_parent E t = Inr (Some p) \<and> continues_chain E i current p
      \<and> chain_loop E child (i + 1) p (ps @ [p]) (ss @ fst (run_status_check E i p)) ts = Inr r \<and> chain_valid r)"
proof (cases "parent_jti current = None \<or> (\<forall>p. parse_parent E t \<noteq> Inr (Some p))")
  case True
  then show ?thesis
    by (auto simp: continues_chain_def bnd_Inr_iff split: option.splits)
next
  case False
  then obtain p where p: "parent_jti current \<noteq> None" "parse_parent E t = Inr (Some p)" by blast
  show ?thesis
  proof (cases "parent_ancestry_failure i child current p (check_time E i)")
    case None
    then show ?thesis
      using p ancestry_None [OF p(1), of i child p "check_time E i"]
      by (auto simp: continues_chain_def is_scope_subset_def Let_def split: option.splits prod.splits)
  next
    case (Some w)
    then have "\<not> continues_chain E i current p"
      using ancestry_None [OF p(1), of i child p "check_time E i"] by (auto simp: continues_chain_def)
    then show ?thesis
      using Some p by (cases w) (auto simp: Let_def)
  qed
qed

definition accepted_result :: "delegation_claims \<Rightarrow> delegation_claims list \<Rightarrow> json list \<Rightarrow> chain_result" where
  "accepted_result child ps ss =
     \<lparr>chain_valid = True, walked_depth = chain_depth child, depth_exceeded = chain_depth child > max_depth child,
       chain_reason = None, parent_claims = ps, parent_statuses = ss\<rparr>"

fun collected_statuses :: "chain_env \<Rightarrow> nat \<Rightarrow> delegation_claims list \<Rightarrow> json list" where
  "collected_statuses E i [] = []"
| "collected_statuses E i (p # ps) = fst (run_status_check E i p) @ collected_statuses E (i + 1) ps"

lemma chain_loop_accepts:
  "chain_loop E child i current ps ss ts = Inr r \<and> chain_valid r \<longleftrightarrow>
    (\<exists>qs. list_all2 (\<lambda>t q. parse_parent E t = Inr (Some q)) ts qs \<and> chain_to_root E i current qs
      \<and> r = accepted_result child (ps @ qs) (ss @ collected_statuses E i qs))"
proof (induction ts arbitrary: i current ps ss)
  case Nil
  then show ?case by (auto simp: accepted_result_def)
next
  case (Cons t ts)
  show ?case
    unfolding chain_loop_step Cons.IH by (force simp: list_all2_Cons1)
qed

lemma walk_accepts:
  "walk_delegation_chain E child ts = Inr r \<and> chain_valid r \<longleftrightarrow>
    chain_depth child \<le> int max_verification_chain_depth
    \<and> (\<exists>qs. list_all2 (\<lambda>t q. parse_parent E t = Inr (Some q)) ts qs \<and> chain_to_root E 0 child qs
        \<and> r = (accepted_result child qs (collected_statuses E 0 qs))
            \<lparr>depth_exceeded := ts \<noteq> [] \<and> chain_depth child > max_depth child\<rparr>)"
proof -
  have len: "int (length ts) = chain_depth child"
    if "list_all2 (\<lambda>t q. parse_parent E t = Inr (Some q)) ts qs" "chain_to_root E 0 child qs" for qs
    using that chain_to_root_depth by (metis list_all2_lengthD)
  show ?thesis
  proof (cases "ts = []")
    case True
    then show ?thesis
      by (auto simp: walk_delegation_chain_def accepted_result_def)
  next
    case False
    then show ?thesis
      using chain_loop_accepts [of E child 0 child "[]" "[]" ts r] len
      unfolding walk_delegation_chain_def
      by (auto simp: accepted_result_def refused_def)
  qed
qed

section \<open>Properties\<close>

text \<open>
  C23: a chain is valid exactly if its tokens parse to parents that lead from the leaf to a
  root: each the parent its child names, one level up, in its window at the time of the
  check, at least as wide on every axis, not refused by the status check, and holding the
  right to delegate. The parents are returned in order.
\<close>

theorem delegation_chain_valid_iff:
  "validate_delegation_chain E child ts = Inr r \<and> chain_valid r \<longleftrightarrow>
    chain_depth child \<le> 64
    \<and> (\<exists>ps. list_all2 (\<lambda>t p. parse_parent E t = Inr (Some p)) ts ps
        \<and> chain_to_root (E\<lparr>rule_version := chain_rule_version\<rparr>) 0 child ps
        \<and> r = (accepted_result child ps (collected_statuses E 0 ps))
            \<lparr>depth_exceeded := ts \<noteq> [] \<and> chain_depth child > max_depth child\<rparr>)"
proof -
  have "collected_statuses (E\<lparr>rule_version := v\<rparr>) i ps = collected_statuses E i ps" for v i ps
    by (induction ps arbitrary: i) (simp_all add: run_status_check_def)
  then show ?thesis
    unfolding validate_delegation_chain_def walk_accepts by (simp add: max_verification_chain_depth_def)
qed

lemma valid_chain:
  assumes "walk_delegation_chain E child ts = Inr r" "chain_valid r"
  shows "successively is_scope_subset (child # parent_claims r)" "int (length (parent_claims r)) = chain_depth child"
    "chain_depth child \<le> 64" "depth_exceeded r = (ts \<noteq> [] \<and> chain_depth child > max_depth child)"
    "length (parent_claims r) = length ts"
  using assms walk_accepts [of E child ts r] chain_to_root_narrows chain_to_root_depth
  by (auto simp: accepted_result_def max_verification_chain_depth_def list_all2_lengthD)

lemma subset_max_depth: "is_scope_subset c p \<Longrightarrow> max_depth c \<le> max_depth p"
  by (simp add: is_scope_subset_def narrows_iff)

text \<open>
  C22: in a valid chain the leaf permits nothing that any of its ancestors does not, there
  are at most 64 ancestors, and unless the depth is reported as exceeded there are no more
  than any grant of the chain allows.
\<close>

theorem delegation_chain_confines:
  assumes "validate_delegation_chain E child ts = Inr r" "chain_valid r"
  shows "length (parent_claims r) \<le> 64 \<and> (\<forall>p \<in> set (parent_claims r).
      Collect (permits child) \<subseteq> Collect (permits p)
      \<and> (depth_exceeded r \<or> int (length (parent_claims r)) \<le> max_depth p))"
proof -
  note v = valid_chain [OF assms [unfolded validate_delegation_chain_def]]
  have n: "is_scope_subset child p" if "p \<in> set (parent_claims r)" for p
    using scope.leaf_narrows_all [OF v(1)] that by simp
  have "length (parent_claims r) \<le> 64" using v(2,3) by linarith
  then show ?thesis
    using n v(2,4,5) subset_max_depth scope.narrows_permits by fastforce
qed

text \<open>
  A replay that is valid ran a rule this build implements: the recorded one, or the
  first version where none is recorded; and its result is that of the walk under that rule.
\<close>

theorem replay_runs_recorded_rule:
  assumes "replay_delegation_chain E recorded child ts = Inr r" "chain_valid (chain_result.truncate r) \<or> supported r"
  shows "supported r \<and> recorded \<in> {None, Some (lit ''1''), Some (lit ''2'')}
    \<and> rule_version_applied r = Some (case recorded of None \<Rightarrow> lit ''1'' | Some v \<Rightarrow> v)
    \<and> walk_delegation_chain (E\<lparr>rule_version := (case recorded of None \<Rightarrow> lit ''1'' | Some v \<Rightarrow> v)\<rparr>) child ts
        = Inr (chain_result.truncate r)"
  using assms
  by (auto simp: replay_delegation_chain_def raise_simps Let_def legacy_chain_rule_version_def
      chain_rule_version_def chain_result.defs refused_def split: option.splits if_splits)

text \<open>The two rules differ only on grants with capabilities.\<close>

lemma flat_rules_agree:
  "capabilities p = [] \<Longrightarrow> parent_holds_delegate p at v = parent_holds_delegate p at w"
  by (simp add: parent_holds_delegate_def holds_right_def)

section \<open>A concrete chain\<close>

definition demo_env :: chain_env where
  "demo_env = \<lparr>parse_parent = (\<lambda>t. Inr (if t = lit ''r'' then Some demo_root else None)),
     evaluation_time = Some 50, clock = (\<lambda>i. 0), rule_version = lit ''2'', status_check = None\<rparr>"

definition demo_chain_result :: chain_result where
  "demo_chain_result = \<lparr>chain_valid = True, walked_depth = 1, depth_exceeded = False, chain_reason = None,
     parent_claims = [demo_root], parent_statuses = []\<rparr>"

lemma demo_chain: "walk_delegation_chain (demo_env\<lparr>rule_version := v\<rparr>) demo_leaf [lit ''r''] = Inr demo_chain_result"
proof -
  have "parent_holds_delegate demo_root 50 v"
    by (simp add: parent_holds_delegate_def holds_right_def demo_root_def)
  moreover have "parent_ancestry_failure 0 demo_leaf demo_leaf demo_root 50 = None"
    by (simp add: parent_ancestry_failure_def demo_leaf_def demo_root_def)
  moreover have "chain_depth demo_leaf = 1" "parent_jti demo_leaf = Some (lit ''r'')" "max_depth demo_leaf = 2"
      "parent_jti demo_root = None" "chain_depth demo_root = 0"
    by (simp_all add: demo_leaf_def demo_root_def)
  ultimately show ?thesis
    by (simp add: walk_delegation_chain_def demo_env_def demo_chain_result_def max_verification_chain_depth_def
        check_time_def run_status_check_def demo_narrows Let_def)
qed

theorem delegation_chain_confines_witness:
  "validate_delegation_chain demo_env demo_leaf [lit ''r''] = Inr demo_chain_result
    \<and> Collect (permits demo_leaf) \<subseteq> Collect (permits demo_root)"
  using delegation_chain_confines [of demo_env demo_leaf "[lit ''r'']" demo_chain_result] demo_chain
  by (simp add: validate_delegation_chain_def) (simp add: demo_chain_result_def)

theorem replay_runs_recorded_rule_witness:
  "replay_delegation_chain demo_env None demo_leaf [lit ''r'']
      = Inr (chain_result.extend demo_chain_result \<lparr>rule_version_applied = Some (lit ''1''), supported = True\<rparr>)
    \<and> walk_delegation_chain (demo_env\<lparr>rule_version := lit ''1''\<rparr>) demo_leaf [lit ''r''] = Inr demo_chain_result"
proof -
  let ?r = "chain_result.extend demo_chain_result \<lparr>rule_version_applied = Some (lit ''1''), supported = True\<rparr>"
  have r: "replay_delegation_chain demo_env None demo_leaf [lit ''r''] = Inr ?r"
    by (simp add: replay_delegation_chain_def demo_chain legacy_chain_rule_version_def)
  have "supported ?r" "chain_result.truncate ?r = demo_chain_result"
    by (simp_all add: chain_result.defs demo_chain_result_def)
  with replay_runs_recorded_rule [OF r] r show ?thesis by simp
qed

end
