(* ===== verification/Authority_Entry.thy ===== *)
theory Authority_Entry
  imports Moments Claim_Shapes
begin

text \<open>
  The module \<open>authority_entry.py\<close>: one entry of an authority register, its fail-closed parser, the
  canonical projection it is hashed over.
\<close>

section \<open>Entries\<close>

record authority_entry =
  ae_id :: pystr
  ae_schema_version :: pystr
  ae_revision :: int
  ae_principal :: pystr
  ae_issuer_trust_root_id :: pystr
  ae_subject :: pystr
  ae_scope_actions :: "pystr list"
  ae_scope_domains :: "pystr list"
  ae_scope_paths :: "pystr list"
  ae_bound :: bound
  ae_nbf :: instant
  ae_exp :: instant
  ae_max_depth :: int
  ae_effective_at :: instant
  ae_prior_revision_hash :: "pystr option"
  ae_onward_delegation :: bool
  ae_enforcement_points :: "pystr list option"
  ae_aggregate_bound :: "bound option"

definition entry_to_dict :: "authority_entry \<Rightarrow> (pystr, json) dict" where
  "entry_to_dict e =
     [(lit ''entry_id'', JStr (ae_id e)), (lit ''schema_version'', JStr (ae_schema_version e)),
      (lit ''revision'', JInt (ae_revision e)),
      (lit ''prior_revision_hash'', opt_json JStr (ae_prior_revision_hash e)),
      (lit ''principal'', JStr (ae_principal e)), (lit ''issuer_trust_root_id'', JStr (ae_issuer_trust_root_id e)),
      (lit ''subject'', JStr (ae_subject e)), (lit ''scope_actions'', strs (ae_scope_actions e)),
      (lit ''scope_domains'', strs (ae_scope_domains e)), (lit ''scope_paths'', strs (ae_scope_paths e)),
      (lit ''bound'', bound_json (ae_bound e)), (lit ''nbf'', JStr (canonical_iso (ae_nbf e))),
      (lit ''exp'', JStr (canonical_iso (ae_exp e))), (lit ''max_depth'', JInt (ae_max_depth e)),
      (lit ''effective_at'', JStr (canonical_iso (ae_effective_at e)))]
     @ (if ae_onward_delegation e then [(lit ''onward_delegation'', JBool True)] else [])
     @ opt_key ''enforcement_points'' strs (ae_enforcement_points e)
     @ opt_key ''aggregate_bound'' bound_json (ae_aggregate_bound e)"

section \<open>The parser\<close>

definition optional_entry_keys :: "pystr list" where
  "optional_entry_keys = map lit [''prior_revision_hash'', ''onward_delegation'', ''enforcement_points'', ''aggregate_bound'']"

definition required_entry_keys :: "pystr list" where
  "required_entry_keys = map lit [''entry_id'', ''schema_version'', ''revision'', ''principal'', ''issuer_trust_root_id'',
     ''subject'', ''scope_actions'', ''scope_domains'', ''scope_paths'', ''bound'', ''nbf'', ''exp'', ''max_depth'', ''effective_at'']"

definition entry_keys :: "pystr list" where
  "entry_keys = required_entry_keys @ optional_entry_keys"

definition entry_text :: "(pystr, json) dict \<Rightarrow> string \<Rightarrow> exc + pystr" where
  "entry_text d k = stripped_str (get d (lit k))"

definition entry_moment :: "(pystr, json) dict \<Rightarrow> string \<Rightarrow> exc + instant" where
  "entry_moment d k = bnd (stripped_str (get d (lit k))) parse_dt"

definition exactly_one :: "(pystr, json) dict \<Rightarrow> string \<Rightarrow> exc + pystr list" where
  "exactly_one d k =
     (case get d (lit k) of
        JList [v] \<Rightarrow> bnd (stripped_str v) (\<lambda>s. Inr [s])
      | _ \<Rightarrow> Inl ValueError)"

definition entry_revision :: "(pystr, json) dict \<Rightarrow> exc + int" where
  "entry_revision d = int_from 1 (get d (lit ''revision''))"

definition entry_prior_revision_hash :: "(pystr, json) dict \<Rightarrow> int \<Rightarrow> exc + pystr option" where
  "entry_prior_revision_hash d revision =
     (let value = get d (lit ''prior_revision_hash'')
      in if revision = 1 then ensure (value = JNull) ValueError (Inr None)
         else bnd (expect ValueError (as_str value)) (\<lambda>s. ensure (hex64 s) ValueError (Inr (Some s))))"

definition entry_onward_delegation :: "(pystr, json) dict \<Rightarrow> exc + bool" where
  "entry_onward_delegation d =
     (if \<not> has_key d (lit ''onward_delegation'') then Inr False
      else expect ValueError (as_bool (get d (lit ''onward_delegation''))))"

definition entry_enforcement_points :: "(pystr, json) dict \<Rightarrow> exc + pystr list option" where
  "entry_enforcement_points d = validate_audience (get d (lit ''enforcement_points''))"

text \<open>\<open>_validate_bounds([bound], ...)[0]\<close>.\<close>

definition one_bound :: "pystr list \<Rightarrow> (pystr, json) dict \<Rightarrow> exc + bound" where
  "one_bound scope d = bnd (validate_bounds scope (JList [JObj d])) (\<lambda>bs. Inr (hd bs))"

definition entry_bound :: "(pystr, json) dict \<Rightarrow> pystr list \<Rightarrow> exc + bound" where
  "entry_bound d scope =
     bnd (expect ValueError (as_obj (get d (lit ''bound'')))) (\<lambda>raw.
     ensure (\<not> has_key raw (lit ''aggregation'')) ValueError (one_bound scope raw))"

definition entry_aggregate_bound :: "(pystr, json) dict \<Rightarrow> pystr list \<Rightarrow> exc + bound option" where
  "entry_aggregate_bound d scope =
     (if get d (lit ''aggregate_bound'') = JNull then Inr None
      else bnd (expect ValueError (as_obj (get d (lit ''aggregate_bound'')))) (\<lambda>raw.
        ensure (\<not> has_key raw (lit ''aggregation'')) ValueError
        (bnd (one_bound scope (dict_set (lit ''aggregation'') (JStr (lit ''entry'')) raw)) (\<lambda>b. Inr (Some b)))))"

definition entry_paths :: "(pystr, json) dict \<Rightarrow> exc + pystr list" where
  "entry_paths d = bnd (expect ValueError (as_list (get d (lit ''scope_paths'')))) (each stripped_str)"

definition onward_ok :: "bool \<Rightarrow> pystr \<Rightarrow> int \<Rightarrow> bool" where
  "onward_ok onward action depth \<longleftrightarrow>
     \<not> (onward \<and> action = lit ''delegate'') \<and> \<not> (onward \<and> depth < 1)
     \<and> \<not> (depth \<ge> 1 \<and> action \<noteq> lit ''delegate'' \<and> \<not> onward)"

definition parse_authority_entry :: "json \<Rightarrow> exc + authority_entry" where
  "parse_authority_entry value =
     bnd (expect ValueError (as_obj value)) (\<lambda>d.
     ensure (keys_within d entry_keys) ValueError
     (ensure (has_keys d required_entry_keys) ValueError
     (bnd (entry_revision d) (\<lambda>revision.
      bnd (entry_prior_revision_hash d revision) (\<lambda>prior.
      bnd (entry_text d ''entry_id'') (\<lambda>entry_id.
      bnd (entry_text d ''schema_version'') (\<lambda>schema.
      bnd (entry_text d ''principal'') (\<lambda>principal.
      bnd (entry_text d ''issuer_trust_root_id'') (\<lambda>issuer.
      bnd (entry_text d ''subject'') (\<lambda>subject.
      ensure (schema = lit ''1'') ValueError
     (bnd (entry_onward_delegation d) (\<lambda>onward.
      bnd (entry_enforcement_points d) (\<lambda>points.
      bnd (exactly_one d ''scope_actions'') (\<lambda>actions.
      ensure (list_all (\<lambda>a. a \<notin> set privilege_tiers) actions) ValueError
     (bnd (exactly_one d ''scope_domains'') (\<lambda>domains.
      bnd (entry_paths d) (\<lambda>paths.
      bnd (entry_bound d actions) (\<lambda>bound_v.
      bnd (entry_aggregate_bound d actions) (\<lambda>aggregate.
      bnd (entry_moment d ''nbf'') (\<lambda>nbf_v.
      bnd (entry_moment d ''exp'') (\<lambda>exp_v.
      bnd (entry_moment d ''effective_at'') (\<lambda>effective.
      ensure (nbf_v < exp_v \<and> effective < exp_v) ValueError
     (bnd (int_from 0 (get d (lit ''max_depth''))) (\<lambda>depth.
      ensure (onward_ok onward (hd actions) depth) ValueError
     (Inr \<lparr>ae_id = entry_id, ae_schema_version = schema, ae_revision = revision, ae_principal = principal,
        ae_issuer_trust_root_id = issuer, ae_subject = subject, ae_scope_actions = actions,
        ae_scope_domains = domains, ae_scope_paths = paths, ae_bound = bound_v, ae_nbf = nbf_v, ae_exp = exp_v,
        ae_max_depth = depth, ae_effective_at = effective, ae_prior_revision_hash = prior,
        ae_onward_delegation = onward, ae_enforcement_points = points, ae_aggregate_bound = aggregate\<rparr>)))))))))))))))))))))))))"

definition authority_entry_hash_of :: "interp \<Rightarrow> authority_entry \<Rightarrow> exc + pystr" where
  "authority_entry_hash_of I e = hash_object I (JObj (entry_to_dict e))"

section \<open>A bound is read back from its dictionary\<close>

text \<open>The digits and the epoch of a bound are ones the parser reads.\<close>

definition bound_readable :: "bound \<Rightarrow> bool" where
  "bound_readable b \<longleftrightarrow> length (dec_digits (bd_amount b)) \<le> max_str_digits
     \<and> (\<forall>e ms. bd_window b = Some (e, ms) \<longrightarrow> (\<exists>t. parse_dt e = Inr t))"

lemma get_append: "get (a @ b) k = (if k \<in> set (keys a) then get a k else get b k)"
  by (auto simp: get_def keys_def map_add_def dom_map_of_conv_image_fst [symmetric] split: option.splits)

lemma get_opt_key [simp]: "get (opt_key k f v) (lit j) = (if j = k then opt_json f v else JNull)"
  by (simp add: opt_key_def split: option.splits)

lemma keys_opt_key [simp]: "set (keys (opt_key k f v)) = (if v = None then {} else {lit k})"
  by (auto simp: opt_key_def split: option.splits)

lemma has_key_append [simp]: "has_key (a @ b) k \<longleftrightarrow> has_key a k \<or> has_key b k"
  by (simp add: has_key_def)

lemma has_key_opt_key [simp]: "has_key (opt_key k f v) (lit j) \<longleftrightarrow> j = k \<and> v \<noteq> None"
  by (auto simp: has_key_def)

lemma stripped_clean [simp]: "clean s \<Longrightarrow> stripped_str (JStr s) = Inr s"
  by (simp add: stripped_str_def clean_def)

lemma strip_unique_clean:
  "list_all clean ss \<Longrightarrow> distinct (cl @ ss) \<Longrightarrow> strip_unique cl (map JStr ss) = Inr (cl @ ss)"
  by (induction ss arbitrary: cl) (simp_all add: clean_def)

lemma nonempty_strip_list_strs:
  "ss \<noteq> [] \<Longrightarrow> distinct ss \<Longrightarrow> list_all clean ss \<Longrightarrow> nonempty_strip_list (strs ss) = Inr ss"
  using strip_unique_clean [of ss "[]"] by (simp add: nonempty_strip_list_def strs_def)

lemma applies_to_back:
  assumes "bound_formed scope b" "bd_applies_to b = Some (as, bs)"
  shows "validate_bound_applies_to scope (JObj (opt_key ''actions'' strs as @ opt_key ''boundaries'' strs bs))
    = Inr (Some (as, bs))"
proof -
  let ?d = "opt_key ''actions'' strs as @ opt_key ''boundaries'' strs bs"
  have f: "side_formed as" "side_formed bs" "as \<noteq> None \<or> bs \<noteq> None"
      "\<And>xs. as = Some xs \<Longrightarrow> list_all (\<lambda>a. a \<in> set scope \<and> a \<notin> set privilege_tiers) xs"
    using assms by (auto simp: bound_formed_def list_all_iff)
  have "keys_within ?d [lit ''actions'', lit ''boundaries'']"
    by (auto simp: keys_within_def opt_key_def split: option.splits)
  moreover have "applies_to_actions scope ?d = Inr as"
    using f(1,4) by (cases as) (auto simp: applies_to_actions_def get_append side_formed_def
        nonempty_strip_list_strs list_all_iff)
  moreover have "applies_to_boundaries ?d = Inr bs"
    using f(2) by (cases bs) (auto simp: applies_to_boundaries_def get_append side_formed_def
        nonempty_strip_list_strs)
  ultimately show ?thesis using f(3) by (simp add: validate_bound_applies_to_def)
qed

definition bound_dict :: "bound \<Rightarrow> (pystr, json) dict" where
  "bound_dict b = the (as_obj (bound_json b))"

lemma bound_json_dict: "bound_json b = JObj (bound_dict b)"
  by (simp add: bound_dict_def bound_json_def)

lemma bound_dict_facts:
  "get (bound_dict b) (lit ''kind'') = JStr (bd_kind b)" "get (bound_dict b) (lit ''unit'') = JStr (bd_unit b)"
  "get (bound_dict b) (lit ''amount_scaled'') = JStr (dec_digits (bd_amount b))"
  "get (bound_dict b) (lit ''window_epoch'') = opt_json (\<lambda>w. JStr (fst w)) (bd_window b)"
  "get (bound_dict b) (lit ''window_duration_ms'') = opt_json (\<lambda>w. JInt (snd w)) (bd_window b)"
  "get (bound_dict b) (lit ''window_kind'') = opt_json JStr (bd_window_kind b)"
  "get (bound_dict b) (lit ''aggregation'') = opt_json JStr (bd_aggregation b)"
  "get (bound_dict b) (lit ''applies_to'') =
     opt_json (\<lambda>(a, bs). JObj (opt_key ''actions'' strs a @ opt_key ''boundaries'' strs bs)) (bd_applies_to b)"
  "has_key (bound_dict b) (lit ''window_epoch'') \<longleftrightarrow> bd_window b \<noteq> None"
  "has_key (bound_dict b) (lit ''window_duration_ms'') \<longleftrightarrow> bd_window b \<noteq> None"
  "has_key (bound_dict b) (lit ''aggregation'') \<longleftrightarrow> bd_aggregation b \<noteq> None"
  "has_keys (bound_dict b) bound_required_keys" "keys_within (bound_dict b) bound_keys"
  by (simp_all add: bound_dict_def bound_json_def get_append has_keys_def bound_required_keys_def)
    (auto simp: keys_within_def bound_keys_def bound_required_keys_def opt_key_def list_all_iff split: option.splits)

lemma bound_scope_back:
  assumes "bound_formed scope b"
  shows "bound_scope (bound_json b) = Inr (bound_dict b, bd_kind b, bd_aggregation b)"
proof -
  have "clean (bd_kind b)" "bd_aggregation b = None \<or> bd_aggregation b = Some (lit ''entry'')"
    using assms by (auto simp: bound_formed_def)
  then show ?thesis
    by (auto simp: bound_scope_def bound_json_dict bound_dict_facts validate_bound_aggregation_def)
qed

lemma validated_bound_back:
  assumes "bound_formed scope b" "bound_readable b"
  shows "validated_bound scope (bound_dict b) (bd_kind b) (bd_aggregation b) = Inr b"
proof -
  have "parse_nonnegative_amount_scaled (JStr (dec_digits (bd_amount b))) = Some (bd_amount b)"
    using assms(2) by (simp add: parse_amount_iff bound_readable_def)
  moreover have "bound_window (bound_dict b) = Inr (bd_window b)"
    using assms by (cases "bd_window b")
      (auto simp: bound_window_def bound_dict_facts bound_formed_def bound_readable_def clean_def int_from_def)
  moreover have "validate_bound_window_kind (get (bound_dict b) (lit ''window_kind'')) = Inr (bd_window_kind b)"
    using assms(1) by (auto simp: bound_dict_facts validate_bound_window_kind_def bound_formed_def)
  moreover have "validate_bound_applies_to scope (get (bound_dict b) (lit ''applies_to'')) = Inr (bd_applies_to b)"
    using applies_to_back [OF assms(1)]
    by (cases "bd_applies_to b") (auto simp: bound_dict_facts validate_bound_applies_to_def)
  ultimately show ?thesis
    using assms(1) by (auto simp: validated_bound_def bound_dict_facts bound_formed_def)
qed

lemma one_bound_back:
  "bound_formed scope b \<Longrightarrow> bound_readable b \<Longrightarrow> one_bound scope (bound_dict b) = Inr b"
  by (simp add: one_bound_def validate_bounds_def bound_scope_back validated_bound_back flip: bound_json_dict)


section \<open>Well-formed entries\<close>

definition entry_formed :: "authority_entry \<Rightarrow> bool" where
  "entry_formed e \<longleftrightarrow>
     list_all clean [ae_id e, ae_principal e, ae_issuer_trust_root_id e, ae_subject e] \<and> ae_schema_version e = lit ''1''
     \<and> 1 \<le> ae_revision e \<and> (ae_revision e = 1 \<longleftrightarrow> ae_prior_revision_hash e = None)
     \<and> (\<forall>h. ae_prior_revision_hash e = Some h \<longrightarrow> hex64 h)
     \<and> (\<exists>a. ae_scope_actions e = [a] \<and> clean a \<and> a \<notin> set privilege_tiers
          \<and> onward_ok (ae_onward_delegation e) a (ae_max_depth e))
     \<and> (\<exists>d. ae_scope_domains e = [d] \<and> clean d) \<and> list_all clean (ae_scope_paths e)
     \<and> bound_formed (ae_scope_actions e) (ae_bound e) \<and> bd_aggregation (ae_bound e) = None
     \<and> (\<forall>b. ae_aggregate_bound e = Some b \<longrightarrow>
          bound_formed (ae_scope_actions e) b \<and> bd_aggregation b = Some (lit ''entry'') \<and> bd_window b \<noteq> None)
     \<and> {ae_nbf e, ae_exp e, ae_effective_at e} \<subseteq> {0..max_instant}
     \<and> ae_nbf e < ae_exp e \<and> ae_effective_at e < ae_exp e \<and> 0 \<le> ae_max_depth e
     \<and> (\<forall>ps. ae_enforcement_points e = Some ps \<longrightarrow> ps \<noteq> [] \<and> distinct ps \<and> list_all hex16 ps)"

text \<open>The moments are whole milliseconds and the bounds are readable.\<close>

definition entry_readable :: "authority_entry \<Rightarrow> bool" where
  "entry_readable e \<longleftrightarrow> bound_readable (ae_bound e)
     \<and> whole_ms (ae_nbf e) = ae_nbf e \<and> whole_ms (ae_exp e) = ae_exp e \<and> whole_ms (ae_effective_at e) = ae_effective_at e"

lemma aggregation_read:
  assumes "validate_bound_aggregation v = Inr a"
  shows "opt_json JStr a = v"
proof -
  have "v = JNull \<and> a = None \<or> v = JStr (lit ''entry'') \<and> a = Some (lit ''entry'')"
    using assms unfolding validate_bound_aggregation_def by (metis Inr_inject Inl_Inr_False)
  then show ?thesis by auto
qed

lemma one_bound_Inr:
  assumes "one_bound scope d = Inr b"
  shows "bound_formed scope b" "opt_json JStr (bd_aggregation b) = get d (lit ''aggregation'')"
proof -
  obtain bs where bs: "validate_bounds scope (JList [JObj d]) = Inr bs" "b = hd bs"
    using assms by (auto simp: one_bound_def raise_simps)
  then obtain kind agg where s: "bound_scope (JObj d) = Inr (d, kind, agg)" "validated_bound scope d kind agg = Inr b"
    by (auto simp: validate_bounds_def raise_simps bound_scope_def)
  then have "bs = [b]" using bs by (auto simp: validate_bounds_def raise_simps)
  then show "bound_formed scope b" using validate_bounds_Inr [OF bs(1)] by simp
  show "opt_json JStr (bd_aggregation b) = get d (lit ''aggregation'')"
  proof -
    have "validate_bound_aggregation (get d (lit ''aggregation'')) = Inr (bd_aggregation b)"
      using s validated_bound_fields [OF s(2)] by (auto simp: bound_scope_def raise_simps)
    then show ?thesis by (rule aggregation_read)
  qed
qed

lemma exactly_one_Inr: "exactly_one d k = Inr xs \<Longrightarrow> \<exists>s. xs = [s] \<and> clean s"
  by (auto simp: exactly_one_def raise_simps split: json.splits list.splits dest: stripped_str_Inr)

lemma entry_moment_Inr: "entry_moment d k = Inr t \<Longrightarrow> t \<in> {0..max_instant}"
  by (auto simp: entry_moment_def raise_simps dest: parse_dt_range)

lemma entry_text_Inr: "entry_text d k = Inr s \<Longrightarrow> clean s"
  by (auto simp: entry_text_def dest: stripped_str_Inr)

lemma entry_paths_Inr: "entry_paths d = Inr ps \<Longrightarrow> list_all clean ps"
  by (auto simp: entry_paths_def raise_simps list_all_iff dest!: each_Inr_set dest: stripped_str_Inr)

lemma entry_parts:
  assumes "parse_authority_entry (JObj d) = Inr e"
  shows "entry_revision d = Inr (ae_revision e)" "entry_prior_revision_hash d (ae_revision e) = Inr (ae_prior_revision_hash e)"
    "entry_text d ''entry_id'' = Inr (ae_id e)" "ae_schema_version e = lit ''1''"
    "entry_text d ''principal'' = Inr (ae_principal e)" "entry_text d ''issuer_trust_root_id'' = Inr (ae_issuer_trust_root_id e)"
    "entry_text d ''subject'' = Inr (ae_subject e)" "entry_enforcement_points d = Inr (ae_enforcement_points e)"
    "exactly_one d ''scope_actions'' = Inr (ae_scope_actions e)" "list_all (\<lambda>a. a \<notin> set privilege_tiers) (ae_scope_actions e)"
    "exactly_one d ''scope_domains'' = Inr (ae_scope_domains e)" "entry_paths d = Inr (ae_scope_paths e)"
    "entry_bound d (ae_scope_actions e) = Inr (ae_bound e)"
    "entry_aggregate_bound d (ae_scope_actions e) = Inr (ae_aggregate_bound e)"
    "entry_moment d ''nbf'' = Inr (ae_nbf e)" "entry_moment d ''exp'' = Inr (ae_exp e)"
    "entry_moment d ''effective_at'' = Inr (ae_effective_at e)" "ae_nbf e < ae_exp e" "ae_effective_at e < ae_exp e"
    "0 \<le> ae_max_depth e" "onward_ok (ae_onward_delegation e) (hd (ae_scope_actions e)) (ae_max_depth e)"
  using assms by (auto simp: parse_authority_entry_def raise_simps int_from_Inr)

lemma parsed_formed:
  assumes "parse_authority_entry v = Inr e"
  shows "entry_formed e"
proof -
  obtain d where v: "parse_authority_entry (JObj d) = Inr e"
    using assms by (cases v) (auto simp: parse_authority_entry_def)
  note p = entry_parts [OF v]
  obtain a where a: "ae_scope_actions e = [a]" "clean a" using exactly_one_Inr [OF p(9)] by blast
  obtain dom where dom: "ae_scope_domains e = [dom]" "clean dom" using exactly_one_Inr [OF p(11)] by blast
  have "1 \<le> ae_revision e" using p(1) by (auto simp: entry_revision_def int_from_Inr)
  moreover have "ae_revision e = 1 \<longleftrightarrow> ae_prior_revision_hash e = None"
      "\<forall>h. ae_prior_revision_hash e = Some h \<longrightarrow> hex64 h"
    using p(2) by (cases "ae_prior_revision_hash e";
        auto simp: entry_prior_revision_hash_def Let_def raise_simps split: if_splits)+
  moreover have "bound_formed (ae_scope_actions e) (ae_bound e)" "bd_aggregation (ae_bound e) = None"
  proof -
    obtain raw where raw: "one_bound (ae_scope_actions e) raw = Inr (ae_bound e)" "\<not> has_key raw (lit ''aggregation'')"
      using p(13) by (auto simp: entry_bound_def raise_simps)
    then have "get raw (lit ''aggregation'') = JNull" using get_not_null by blast
    then show "bound_formed (ae_scope_actions e) (ae_bound e)" "bd_aggregation (ae_bound e) = None"
      using one_bound_Inr [OF raw(1)] by (auto split: option.splits simp: opt_json_def)
  qed
  moreover have "bound_formed (ae_scope_actions e) b \<and> bd_aggregation b = Some (lit ''entry'') \<and> bd_window b \<noteq> None"
    if b: "ae_aggregate_bound e = Some b" for b
  proof -
    obtain raw where "one_bound (ae_scope_actions e) (dict_set (lit ''aggregation'') (JStr (lit ''entry'')) raw) = Inr b"
      using p(14) b by (auto simp: entry_aggregate_bound_def raise_simps split: if_splits)
    from one_bound_Inr [OF this] show ?thesis
      by (auto simp: bound_formed_def opt_json_def split: option.splits)
  qed
  moreover have "ps \<noteq> [] \<and> distinct ps \<and> list_all hex16 ps" if "ae_enforcement_points e = Some ps" for ps
    using p(8) that validate_audience_Inr by (auto simp: entry_enforcement_points_def)
  ultimately show ?thesis
    unfolding entry_formed_def
    using p(3-7,10,12,15-21) a dom entry_text_Inr entry_paths_Inr entry_moment_Inr by simp
qed


lemma entry_dict_get:
  "get (entry_to_dict e) (lit ''entry_id'') = JStr (ae_id e)"
  "get (entry_to_dict e) (lit ''schema_version'') = JStr (ae_schema_version e)"
  "get (entry_to_dict e) (lit ''revision'') = JInt (ae_revision e)"
  "get (entry_to_dict e) (lit ''prior_revision_hash'') = opt_json JStr (ae_prior_revision_hash e)"
  "get (entry_to_dict e) (lit ''principal'') = JStr (ae_principal e)"
  "get (entry_to_dict e) (lit ''issuer_trust_root_id'') = JStr (ae_issuer_trust_root_id e)"
  "get (entry_to_dict e) (lit ''subject'') = JStr (ae_subject e)"
  "get (entry_to_dict e) (lit ''scope_actions'') = strs (ae_scope_actions e)"
  "get (entry_to_dict e) (lit ''scope_domains'') = strs (ae_scope_domains e)"
  "get (entry_to_dict e) (lit ''scope_paths'') = strs (ae_scope_paths e)"
  "get (entry_to_dict e) (lit ''bound'') = bound_json (ae_bound e)"
  "get (entry_to_dict e) (lit ''nbf'') = JStr (canonical_iso (ae_nbf e))"
  "get (entry_to_dict e) (lit ''exp'') = JStr (canonical_iso (ae_exp e))"
  "get (entry_to_dict e) (lit ''max_depth'') = JInt (ae_max_depth e)"
  "get (entry_to_dict e) (lit ''effective_at'') = JStr (canonical_iso (ae_effective_at e))"
  "get (entry_to_dict e) (lit ''onward_delegation'') = (if ae_onward_delegation e then JBool True else JNull)"
  "get (entry_to_dict e) (lit ''enforcement_points'') = opt_json strs (ae_enforcement_points e)"
  "get (entry_to_dict e) (lit ''aggregate_bound'') = opt_json bound_json (ae_aggregate_bound e)"
  "has_key (entry_to_dict e) (lit ''onward_delegation'') \<longleftrightarrow> ae_onward_delegation e"
  by (simp_all add: entry_to_dict_def get_append)

lemma entry_dict_keys: "keys_within (entry_to_dict e) entry_keys" "has_keys (entry_to_dict e) required_entry_keys"
  by (auto simp: entry_to_dict_def keys_within_def has_keys_def entry_keys_def required_entry_keys_def
      optional_entry_keys_def opt_key_def split: option.splits)

lemma strip_ends: "s \<noteq> [] \<Longrightarrow> \<not> py_space (hd s) \<Longrightarrow> \<not> py_space (last s) \<Longrightarrow> strip s = s"
  by (simp add: strip_def strip_by_def dropWhile_hd_id hd_rev)

lemma pad_digit: "pad k n \<noteq> [] \<and> is_dec_digit (hd (pad k n))"
proof -
  have "dec_digits n \<noteq> []" by (subst dec_digits.simps) simp
  then have "pad k n \<noteq> []" by (simp add: pad_def)
  moreover have "\<forall>c\<in>set (pad k n). is_dec_digit c"
    using dec_digits_digit [of n] by (auto simp: pad_def list_all_iff is_dec_digit_def)
  ultimately show ?thesis by simp
qed

lemma canonical_iso_clean: "clean (canonical_iso t)"
proof -
  obtain y m d where ymd: "year_month_day (nat (t div day_us)) = (y, m, d)" by (metis prod_cases3)
  obtain r where r: "canonical_iso t = pad 4 y @ r @ [90]"
    by (simp add: canonical_iso_def Let_def ymd) (simp add: lit_def)
  have "is_dec_digit (hd (canonical_iso t))" using pad_digit [of 4 y] by (simp add: r)
  then have "\<not> py_space (hd (canonical_iso t))" by (auto simp: is_dec_digit_def py_space_def)
  moreover have "\<not> py_space (last (canonical_iso t))" by (simp add: r py_space_def)
  ultimately show ?thesis by (simp add: clean_def strip_ends)
qed

lemma entry_moment_back:
  assumes "get d (lit k) = JStr (canonical_iso t)" "t \<in> {0..max_instant}" "whole_ms t = t"
  shows "entry_moment d k = Inr t"
  using assms parse_dt_canonical [of t] by (simp add: entry_moment_def canonical_iso_clean)

lemma exactly_one_back: "get d (lit k) = strs [s] \<Longrightarrow> clean s \<Longrightarrow> exactly_one d k = Inr [s]"
  by (simp add: exactly_one_def strs_def)

lemma each_stripped: "list_all clean ss \<Longrightarrow> each stripped_str (map JStr ss) = Inr ss"
  by (induction ss) simp_all

lemma audience_back:
  "ps \<noteq> [] \<Longrightarrow> distinct ps \<Longrightarrow> list_all hex16 ps \<Longrightarrow> validate_audience (strs ps) = Inr (Some ps)"
proof -
  assume ps: "ps \<noteq> []" "distinct ps" "list_all hex16 ps"
  then have "[] \<notin> set ps" by (auto simp: list_all_iff hex16_def)
  with ps show ?thesis by (simp add: validate_audience_def) (simp add: strs_def)
qed

lemma entry_read_back:
  assumes "entry_formed e" "entry_readable e"
  shows "parse_authority_entry (JObj (entry_to_dict e)) = (if ae_aggregate_bound e = None then Inr e else Inl ValueError)"
proof -
  let ?d = "entry_to_dict e"
  obtain a dom where a: "ae_scope_actions e = [a]" "clean a" "a \<notin> set privilege_tiers"
      "onward_ok (ae_onward_delegation e) a (ae_max_depth e)" "ae_scope_domains e = [dom]" "clean dom"
    using assms(1) unfolding entry_formed_def by (elim conjE exE)
  have "entry_revision ?d = Inr (ae_revision e)" "int_from 0 (JInt (ae_max_depth e)) = Inr (ae_max_depth e)"
    using assms(1) by (simp_all add: entry_revision_def entry_dict_get int_from_Inr entry_formed_def)
  moreover have "entry_prior_revision_hash ?d (ae_revision e) = Inr (ae_prior_revision_hash e)"
    using assms(1) by (cases "ae_prior_revision_hash e")
      (auto simp: entry_prior_revision_hash_def entry_dict_get entry_formed_def)
  moreover have "entry_text ?d ''entry_id'' = Inr (ae_id e)" "entry_text ?d ''schema_version'' = Inr (lit ''1'')"
      "entry_text ?d ''principal'' = Inr (ae_principal e)" "entry_text ?d ''issuer_trust_root_id'' = Inr (ae_issuer_trust_root_id e)"
      "entry_text ?d ''subject'' = Inr (ae_subject e)" "ae_schema_version e = lit ''1''"
    using assms(1) by (simp_all add: entry_text_def entry_dict_get entry_formed_def)
      (simp add: stripped_str_def lit_def strip_def strip_by_def py_space_def)
  moreover have "entry_onward_delegation ?d = Inr (ae_onward_delegation e)"
    by (simp add: entry_onward_delegation_def entry_dict_get)
  moreover have "entry_enforcement_points ?d = Inr (ae_enforcement_points e)"
    using assms(1) audience_back
    by (cases "ae_enforcement_points e") (auto simp: entry_enforcement_points_def entry_dict_get entry_formed_def validate_audience_def)
  moreover have "exactly_one ?d ''scope_actions'' = Inr [a]" "exactly_one ?d ''scope_domains'' = Inr [dom]"
    using a by (simp_all add: exactly_one_back entry_dict_get)
  moreover have "entry_paths ?d = Inr (ae_scope_paths e)"
    using assms(1) by (simp add: entry_paths_def entry_dict_get strs_def each_stripped entry_formed_def)
  moreover have "entry_bound ?d [a] = Inr (ae_bound e)"
    using assms a(1) one_bound_back
    by (simp add: entry_bound_def entry_dict_get bound_json_dict bound_dict_facts entry_formed_def entry_readable_def)
  moreover have "entry_aggregate_bound ?d [a] = (if ae_aggregate_bound e = None then Inr None else Inl ValueError)"
    using assms(1) by (cases "ae_aggregate_bound e")
      (simp_all add: entry_aggregate_bound_def entry_dict_get bound_json_dict bound_dict_facts entry_formed_def)
  moreover have "entry_moment ?d ''nbf'' = Inr (ae_nbf e)" "entry_moment ?d ''exp'' = Inr (ae_exp e)"
      "entry_moment ?d ''effective_at'' = Inr (ae_effective_at e)"
    using assms by (auto simp: entry_moment_back entry_dict_get entry_formed_def entry_readable_def)
  moreover have "ae_nbf e < ae_exp e" "ae_effective_at e < ae_exp e"
    using assms(1) by (simp_all add: entry_formed_def)
  ultimately show ?thesis
    using a by (cases e) (simp add: parse_authority_entry_def entry_dict_keys entry_dict_get)
qed

section \<open>The properties\<close>

text \<open>
  An accepted entry states one clean action that is no privilege tier, one domain and one bound
  of its own; a predecessor exactly above revision 1; an onward reach only with a depth; a shared
  ceiling only with a window; and a window of time that is not empty.
\<close>

theorem parse_entry_formed:
  assumes "parse_authority_entry v = Inr e"
  shows "entry_formed e"
  using assms by (rule parsed_formed)

text \<open>
  A well-formed entry without a shared ceiling is read back from the projection it is hashed
  over; a projection that states a shared ceiling is refused, because it states its aggregation.
\<close>

theorem authority_entry_roundtrip:
  assumes "entry_formed e" "entry_readable e"
  shows "parse_authority_entry (JObj (entry_to_dict e)) = (if ae_aggregate_bound e = None then Inr e else Inl ValueError)"
  using assms by (rule entry_read_back)

text \<open>
  \<open>_moment\<close> turns a \<open>ValueError\<close> of the parser into its own and lets an overflowing offset through as
  the \<open>OverflowError\<close> it is, where \<open>parse_authority_entry\<close> documents a \<open>ValueError\<close>.
\<close>

lemma entry_moment_overflow:
  assumes "get d (lit k) = JStr early_text"
  shows "entry_moment d k = Inl OverflowError"
proof -
  have "clean early_text" by (simp add: early_text_def clean_def lit_def strip_def strip_by_def py_space_def)
  then show ?thesis using assms by (simp add: entry_moment_def early_overflow)
qed

subsection \<open>Witnesses\<close>

definition demo_bound :: bound where
  "demo_bound = \<lparr>bd_kind = lit ''spend'', bd_unit = lit ''usd'', bd_amount = 5, bd_window = None,
     bd_window_kind = None, bd_aggregation = None, bd_applies_to = None\<rparr>"

definition demo_entry :: authority_entry where
  "demo_entry = \<lparr>ae_id = lit ''e'', ae_schema_version = lit ''1'', ae_revision = 1, ae_principal = lit ''p'',
     ae_issuer_trust_root_id = lit ''k'', ae_subject = lit ''s'', ae_scope_actions = [lit ''pay''],
     ae_scope_domains = [lit ''d''], ae_scope_paths = [], ae_bound = demo_bound, ae_nbf = 0, ae_exp = 1000,
     ae_max_depth = 0, ae_effective_at = 0, ae_prior_revision_hash = None, ae_onward_delegation = False,
     ae_enforcement_points = None, ae_aggregate_bound = None\<rparr>"

lemma demo_entry_formed: "entry_formed demo_entry"
  by (simp add: entry_formed_def demo_entry_def demo_bound_def bound_formed_def onward_ok_def max_instant_def day_us_def
      privilege_tiers_def clean_def lit_def strip_def strip_by_def py_space_def)

lemma demo_entry_readable: "entry_readable demo_entry"
  by (simp add: entry_readable_def demo_entry_def demo_bound_def bound_readable_def whole_ms_def max_str_digits_def
      dec_digits.simps [of 5])

theorem authority_entry_roundtrip_witness:
  "parse_authority_entry (JObj (entry_to_dict demo_entry)) = Inr demo_entry"
  using authority_entry_roundtrip [OF demo_entry_formed demo_entry_readable] by (simp add: demo_entry_def)

theorem parse_entry_formed_witness:
  "parse_authority_entry (JObj (entry_to_dict demo_entry)) = Inr demo_entry \<and> entry_formed demo_entry"
proof -
  have "parse_authority_entry (JObj (entry_to_dict demo_entry)) = Inr demo_entry"
    using entry_read_back [OF demo_entry_formed demo_entry_readable] by (simp add: demo_entry_def)
  then show ?thesis using parse_entry_formed by blast
qed

end
