(* ===== verification/Ratification.thy ===== *)
theory Ratification
  imports Delegation_Chain Authority_Entry Revocation
begin

text \<open>
  The module \<open>ratification.py\<close>: the claims of a ratification slip, the candidate grant an authority
  entry stands for, the ratifier's reach over it, and the evidence that is verified again.
\<close>

section \<open>Claims\<close>

definition ratification_context :: pystr where
  "ratification_context = lit ''ambit.slip.ratification.v1''"

definition historical_ratification_rule_version :: pystr where
  "historical_ratification_rule_version = lit ''authority_entry/1;attenuation/5''"

definition ratification_rule_version :: pystr where
  "ratification_rule_version = lit ''authority_entry/1;attenuation/5;ratifier_reach/2''"

definition ratification_schemes :: "pystr list" where
  "ratification_schemes = map lit [''ed25519'', ''p256'']"

definition required_ratification_keys :: "pystr list" where
  "required_ratification_keys = map lit [''ratification_id'', ''entry_id'', ''revision'', ''attempt'',
     ''authority_entry_hash'', ''candidate_core_hash'', ''rule_version'', ''attenuation_rule_hash'', ''effective_at'',
     ''ratified_at'', ''nbf'', ''exp'', ''issuer_trust_root_id'', ''ratifier_jti'', ''ratifier_sub'',
     ''ratifier_trust_root_id'', ''ratifier_leaf_content_hash'', ''ratifier_parents_content_hash'', ''status_evidence_hashes'']"

definition ratification_claim_keys :: "pystr list" where
  "ratification_claim_keys = required_ratification_keys @ [k_trust_root]"

text \<open>A status binding is the pair of its \<open>jti\<close> and \<open>hash\<close>.\<close>

record ratification_claims =
  rt_id :: pystr
  rt_entry_id :: pystr
  rt_revision :: int
  rt_attempt :: int
  rt_entry_hash :: pystr
  rt_core_hash :: pystr
  rt_rule_version :: pystr
  rt_rule_hash :: pystr
  rt_effective_at :: instant
  rt_ratified_at :: instant
  rt_nbf :: instant
  rt_exp :: instant
  rt_issuer_root :: pystr
  rt_jti :: pystr
  rt_sub :: pystr
  rt_root :: pystr
  rt_leaf_hash :: pystr
  rt_parents_hash :: pystr
  rt_status_hashes :: "(pystr \<times> pystr) list"

definition ratification_to_dict :: "ratification_claims \<Rightarrow> (pystr, json) dict" where
  "ratification_to_dict c =
     [(lit ''attempt'', JInt (rt_attempt c)), (lit ''attenuation_rule_hash'', JStr (rt_rule_hash c)),
      (lit ''authority_entry_hash'', JStr (rt_entry_hash c)), (lit ''candidate_core_hash'', JStr (rt_core_hash c)),
      (lit ''effective_at'', JStr (canonical_iso (rt_effective_at c))), (lit ''entry_id'', JStr (rt_entry_id c)),
      (lit ''exp'', JStr (canonical_iso (rt_exp c))), (lit ''issuer_trust_root_id'', JStr (rt_issuer_root c)),
      (lit ''nbf'', JStr (canonical_iso (rt_nbf c))), (lit ''ratification_id'', JStr (rt_id c)),
      (lit ''ratified_at'', JStr (canonical_iso (rt_ratified_at c))), (lit ''ratifier_jti'', JStr (rt_jti c)),
      (lit ''ratifier_leaf_content_hash'', JStr (rt_leaf_hash c)),
      (lit ''ratifier_parents_content_hash'', JStr (rt_parents_hash c)), (lit ''ratifier_sub'', JStr (rt_sub c)),
      (lit ''ratifier_trust_root_id'', JStr (rt_root c)), (lit ''revision'', JInt (rt_revision c)),
      (lit ''rule_version'', JStr (rt_rule_version c)),
      (lit ''status_evidence_hashes'',
        JList (map (\<lambda>(j, h). JObj [(lit ''jti'', JStr j), (lit ''hash'', JStr h)]) (rt_status_hashes c)))]"

definition ratification_text :: "(pystr, json) dict \<Rightarrow> string \<Rightarrow> exc + pystr" where
  "ratification_text d k = bnd (expect ValueError (as_str (get d (lit k)))) (\<lambda>s. ensure (s \<noteq> []) ValueError (Inr s))"

definition ratification_count :: "(pystr, json) dict \<Rightarrow> string \<Rightarrow> exc + int" where
  "ratification_count d k = int_from 1 (get d (lit k))"

definition ratification_digest :: "(pystr, json) dict \<Rightarrow> string \<Rightarrow> exc + pystr" where
  "ratification_digest d k = bnd (expect ValueError (as_str (get d (lit k)))) (\<lambda>s. ensure (hex64 s) ValueError (Inr s))"

definition ratification_moment :: "(pystr, json) dict \<Rightarrow> string \<Rightarrow> exc + instant" where
  "ratification_moment d k = bnd (ratification_text d k) parse_dt"

definition status_hash_entry :: "json \<Rightarrow> exc + pystr \<times> pystr" where
  "status_hash_entry v =
     bnd (expect ValueError (as_obj v)) (\<lambda>e.
     ensure (keys_exact e [lit ''jti'', lit ''hash'']) ValueError
     (bnd (ratification_text e ''jti'') (\<lambda>j. bnd (ratification_digest e ''hash'') (\<lambda>h. Inr (j, h)))))"

definition status_hashes :: "(pystr, json) dict \<Rightarrow> exc + (pystr \<times> pystr) list" where
  "status_hashes d =
     bnd (expect ValueError (as_list (get d (lit ''status_evidence_hashes'')))) (each status_hash_entry)"

definition parse_ratification_claims :: "(pystr, json) dict \<Rightarrow> exc + ratification_claims" where
  "parse_ratification_claims d =
     ensure (keys_within d ratification_claim_keys) ValueError
     (ensure (has_keys d required_ratification_keys) ValueError
     (bnd (ratification_text d ''ratification_id'') (\<lambda>ident.
      bnd (ratification_text d ''entry_id'') (\<lambda>entry_id.
      bnd (ratification_count d ''revision'') (\<lambda>revision.
      bnd (ratification_count d ''attempt'') (\<lambda>attempt.
      bnd (ratification_digest d ''authority_entry_hash'') (\<lambda>entry_hash.
      bnd (ratification_digest d ''candidate_core_hash'') (\<lambda>core_hash.
      bnd (ratification_text d ''rule_version'') (\<lambda>version.
      bnd (ratification_digest d ''attenuation_rule_hash'') (\<lambda>rule_hash.
      bnd (ratification_moment d ''effective_at'') (\<lambda>effective.
      bnd (ratification_moment d ''ratified_at'') (\<lambda>ratified.
      bnd (ratification_moment d ''nbf'') (\<lambda>nbf_v.
      bnd (ratification_moment d ''exp'') (\<lambda>exp_v.
      bnd (ratification_text d ''issuer_trust_root_id'') (\<lambda>issuer.
      bnd (ratification_text d ''ratifier_jti'') (\<lambda>ratifier.
      bnd (ratification_text d ''ratifier_sub'') (\<lambda>subject.
      bnd (ratification_text d ''ratifier_trust_root_id'') (\<lambda>root.
      bnd (ratification_digest d ''ratifier_leaf_content_hash'') (\<lambda>leaf_hash.
      bnd (ratification_digest d ''ratifier_parents_content_hash'') (\<lambda>parents_hash.
      bnd (status_hashes d) (\<lambda>statuses.
      Inr \<lparr>rt_id = ident, rt_entry_id = entry_id, rt_revision = revision, rt_attempt = attempt,
        rt_entry_hash = entry_hash, rt_core_hash = core_hash, rt_rule_version = version, rt_rule_hash = rule_hash,
        rt_effective_at = effective, rt_ratified_at = ratified, rt_nbf = nbf_v, rt_exp = exp_v,
        rt_issuer_root = issuer, rt_jti = ratifier, rt_sub = subject, rt_root = root, rt_leaf_hash = leaf_hash,
        rt_parents_hash = parents_hash, rt_status_hashes = statuses\<rparr>)))))))))))))))))))))"

text \<open>Every refusal is a \<open>ValueError\<close>; an overflowing moment is not one of the exceptions caught.\<close>

definition verified_ratification ::
  "crypto \<Rightarrow> interp \<Rightarrow> trust_roots \<Rightarrow> pystr \<Rightarrow> exc + ratification_claims" where
  "verified_ratification K I roots token =
     bnd (expect ValueError (verify_slip K I roots ratification_context ratification_schemes token)) (\<lambda>raw.
     bnd (bnd (caught (parse_ratification_claims raw)) (expect ValueError)) (\<lambda>claims.
     ensure (get raw k_trust_root = JStr (rt_root claims)) ValueError (Inr claims)))"

definition parse_ratification ::
  "crypto \<Rightarrow> interp \<Rightarrow> trust_roots \<Rightarrow> pystr \<Rightarrow> exc + ratification_claims option" where
  "parse_ratification K I roots token =
     (case verified_ratification K I roots token of
        Inr c \<Rightarrow> Inr (Some c)
      | Inl e \<Rightarrow> if e = ValueError then Inr None else Inl e)"

definition ratification_hash_of :: "interp \<Rightarrow> ratification_claims \<Rightarrow> exc + pystr" where
  "ratification_hash_of I c = hash_object I (JObj (ratification_to_dict c))"

section \<open>The candidate\<close>

text \<open>\<open>f"{n}"\<close> refuses an integer beyond the conversion limit.\<close>

definition int_format :: "int \<Rightarrow> exc + pystr" where
  "int_format n = ensure (length (dec_digits (nat \<bar>n\<bar>)) \<le> max_str_digits) ValueError (Inr (int_text n))"

definition candidate_grant_jti :: "pystr \<Rightarrow> int \<Rightarrow> int \<Rightarrow> exc + pystr" where
  "candidate_grant_jti entry_id revision attempt =
     bnd (int_format revision) (\<lambda>r. bnd (int_format attempt) (\<lambda>a.
       Inr (lit ''entry:'' @ entry_id @ lit '':r'' @ r @ lit '':a'' @ a)))"

definition candidate_actions :: "authority_entry \<Rightarrow> pystr list" where
  "candidate_actions e =
     (if ae_onward_delegation e then [hd (ae_scope_actions e), lit ''delegate''] else ae_scope_actions e)"

definition candidate_bounds :: "authority_entry \<Rightarrow> bound list" where
  "candidate_bounds e =
     (case ae_aggregate_bound e of None \<Rightarrow> [ae_bound e] | Some b \<Rightarrow> [ae_bound e, b])"

definition candidate_core :: "authority_entry \<Rightarrow> pystr \<Rightarrow> pystr \<Rightarrow> (pystr, json) dict" where
  "candidate_core e ident entry_hash =
     [(lit ''jti'', JStr ident), (lit ''sub'', JStr (ae_subject e)), (lit ''iss'', JStr (ae_principal e)),
      (lit ''scope_actions'', strs (candidate_actions e)), (lit ''scope_domains'', strs (ae_scope_domains e)),
      (lit ''scope_paths'', strs (ae_scope_paths e)), (lit ''scope_tools'', JList []),
      (lit ''nbf'', JStr (canonical_iso (max (ae_nbf e) (ae_effective_at e)))),
      (lit ''exp'', JStr (canonical_iso (ae_exp e))), (lit ''parent_jti'', JNull), (lit ''chain_depth'', JInt 0),
      (lit ''max_depth'', JInt (ae_max_depth e)), (lit ''bounds'', JList (map bound_json (candidate_bounds e))),
      (lit ''authority_entry_hash'', JStr entry_hash)]
     @ opt_key ''aud'' strs (ae_enforcement_points e)"

definition build_candidate_core ::
  "interp \<Rightarrow> authority_entry \<Rightarrow> int \<Rightarrow> exc + (pystr, json) dict \<times> pybytes \<times> pystr" where
  "build_candidate_core I e attempt =
     ensure (1 \<le> attempt) ValueError
     (bnd (candidate_grant_jti (ae_id e) (ae_revision e) attempt) (\<lambda>ident.
      bnd (authority_entry_hash_of I e) (\<lambda>entry_hash.
      let core = candidate_core e ident entry_hash
      in bnd (canonical_json_bytes I (JObj core)) (\<lambda>core_bytes. Inr (core, core_bytes, sha256_hex I core_bytes)))))"

definition candidate_claims :: "(pystr, json) dict \<Rightarrow> exc + delegation_claims" where
  "candidate_claims core =
     bnd (parse_delegation_claims True (dict_del k_entry_hash (dict_del k_ratification_hash core))) (\<lambda>c.
     bnd (expect ValueError (as_str (get core k_entry_hash))) (\<lambda>h.
     Inr (c\<lparr>authority_entry_hash := Some h\<rparr>)))"

definition parents_content_hash :: "interp \<Rightarrow> delegation_claims list \<Rightarrow> exc + pystr" where
  "parents_content_hash I parents =
     bnd (each (delegation_content_hash I) parents) (\<lambda>hs.
     bnd (canonical_json_bytes I (strs hs)) (\<lambda>bs. Inr (sha256_hex I bs)))"

section \<open>The reach of the ratifier\<close>

datatype reach_axis = Scope_Axis axis | Reach_Rule_Version | Reach_Lineage | Reach_Aggregate

definition ordinary_bounds :: "delegation_claims \<Rightarrow> bound list" where
  "ordinary_bounds c = filter (\<lambda>b. bd_aggregation b = None) (bounds c)"

definition shared_bounds :: "delegation_claims \<Rightarrow> bound list" where
  "shared_bounds c = filter (\<lambda>b. bd_aggregation b \<noteq> None) (bounds c)"

text \<open>The loop over the shared ceilings: each must narrow the parent's own bound of its kind.\<close>

fun shared_reach :: "delegation_claims \<Rightarrow> delegation_claims \<Rightarrow> bound list \<Rightarrow> reach_axis option" where
  "shared_reach candidate parent [] = None"
| "shared_reach candidate parent (b # bs) =
     (if bd_kind b \<notin> bd_kind ` set (ordinary_bounds parent) then Some Reach_Aggregate
      else case scope_widening_axis
          (candidate\<lparr>bounds := filter (\<lambda>ob. bd_kind ob \<noteq> bd_kind b) (ordinary_bounds candidate)
             @ [b\<lparr>bd_aggregation := None\<rparr>]\<rparr>) parent of
        Some a \<Rightarrow> Some (Scope_Axis a)
      | None \<Rightarrow> shared_reach candidate parent bs)"

definition ratifier_reach_widening_axis ::
  "pystr \<Rightarrow> delegation_claims \<Rightarrow> delegation_claims \<Rightarrow> reach_axis option" where
  "ratifier_reach_widening_axis version candidate parent =
     (if version = historical_ratification_rule_version
      then map_option Scope_Axis (scope_widening_axis candidate parent)
      else if version \<noteq> ratification_rule_version then Some Reach_Rule_Version
      else if shared_bounds candidate = [] \<or> shared_bounds parent \<noteq> []
      then map_option Scope_Axis (scope_widening_axis candidate parent)
      else if authority_entry_hash parent \<noteq> None \<or> ratification_hash parent \<noteq> None then Some Reach_Lineage
      else case scope_widening_axis (candidate\<lparr>bounds := ordinary_bounds candidate\<rparr>) parent of
        Some a \<Rightarrow> Some (Scope_Axis a)
      | None \<Rightarrow> shared_reach candidate parent (shared_bounds candidate))"

datatype contract_fault =
    Rule_Version_Unsupported | Rule_Hash_Unsupported | Ratifier_Outside_Window | Effective_Differs
  | Nbf_Not_Derived | Exp_Not_Derived | Window_Empty

definition verify_ratification_contract ::
  "ratification_claims \<Rightarrow> delegation_claims \<Rightarrow> delegation_claims \<Rightarrow> contract_fault option" where
  "verify_ratification_contract c candidate leaf =
     (if rt_rule_version c \<notin> {historical_ratification_rule_version, ratification_rule_version}
      then Some Rule_Version_Unsupported
      else if rt_rule_hash c \<noteq> attenuation_rule_hash then Some Rule_Hash_Unsupported
      else if \<not> (nbf leaf \<le> rt_ratified_at c \<and> rt_ratified_at c \<le> exp_at leaf) then Some Ratifier_Outside_Window
      else if rt_effective_at c \<noteq> nbf candidate then Some Effective_Differs
      else if rt_nbf c \<noteq> max (nbf candidate) (rt_ratified_at c) then Some Nbf_Not_Derived
      else if rt_exp c \<noteq> min (exp_at candidate) (exp_at leaf) then Some Exp_Not_Derived
      else if rt_nbf c > rt_exp c then Some Window_Empty
      else None)"

section \<open>The evidence\<close>

text \<open>The chain is walked at one given moment, without a status check.\<close>

definition chain_at :: "crypto \<Rightarrow> interp \<Rightarrow> trust_roots \<Rightarrow> instant \<Rightarrow> chain_env" where
  "chain_at K I roots t = \<lparr>parse_parent = parse_delegation K I roots, evaluation_time = Some t,
     clock = (\<lambda>_. t), rule_version = chain_rule_version, status_check = None\<rparr>"

definition distinct_keys :: "crypto \<Rightarrow> trust_roots \<Rightarrow> ratification_claims \<Rightarrow> bool" where
  "distinct_keys K roots c =
     (case (canonical_key_identity K roots (Some (rt_issuer_root c)), canonical_key_identity K roots (Some (rt_root c))) of
        (Some a, Some b) \<Rightarrow> a \<noteq> b | _ \<Rightarrow> False)"

definition verified_ratifier_binding ::
  "crypto \<Rightarrow> interp \<Rightarrow> trust_roots \<Rightarrow> ratification_claims \<Rightarrow> delegation_claims \<Rightarrow> pystr list
    \<Rightarrow> exc + delegation_claims \<times> delegation_claims list" where
  "verified_ratifier_binding K I roots c candidate tokens =
     bnd (parse_delegation K I roots (hd tokens)) (\<lambda>parsed.
     bnd (expect ValueError parsed) (\<lambda>leaf.
     ensure (verify_ratification_contract c candidate leaf = None) ValueError
     (bnd (validate_delegation_chain (chain_at K I roots (rt_ratified_at c)) leaf (tl tokens)) (\<lambda>chain.
      ensure (chain_valid chain \<and> \<not> depth_exceeded chain) ValueError
     (ensure (jti leaf = rt_jti c \<and> sub leaf = rt_sub c) ValueError
     (ensure (sub leaf = rt_root c) ValueError
     (bnd (delegation_content_hash I leaf) (\<lambda>h.
      ensure (h = rt_leaf_hash c) ValueError
     (bnd (parents_content_hash I (parent_claims chain)) (\<lambda>ph.
      ensure (ph = rt_parents_hash c) ValueError
     (ensure (holds_right leaf (lit ''delegate'') (rt_ratified_at c)) ValueError
     (ensure (ratifier_reach_widening_axis (rt_rule_version c) candidate leaf = None) ValueError
     (ensure (sub candidate \<noteq> sub leaf) ValueError
     (ensure (distinct_keys K roots c) ValueError
     (Inr (leaf, parent_claims chain))))))))))))))))"

text \<open>\<open>status.checked_at + timedelta(milliseconds=n)\<close>.\<close>

definition status_horizon :: "revocation_status \<Rightarrow> int \<Rightarrow> exc + instant" where
  "status_horizon s ms =
     (let t = checked_at s + ms * 1000 in if t > max_instant then Inl OverflowError else Inr t)"

definition verify_status_binding ::
  "crypto \<Rightarrow> interp \<Rightarrow> trust_roots \<Rightarrow> instant \<Rightarrow> delegation_claims \<times> (pystr \<times> pystr) \<times> (pystr, json) dict
    \<Rightarrow> exc + unit" where
  "verify_status_binding K I roots ratified_at p =
     (case p of (grant, (bound_jti, bound_hash), artefact) \<Rightarrow>
        ensure (get artefact (lit ''jti'') = JStr (jti grant)) ValueError
       (ensure (bound_jti = jti grant) ValueError
       (bnd (status_artefact_hash I artefact) (\<lambda>h.
        ensure (h = bound_hash) ValueError
       (bnd (status_from_evidence artefact) (\<lambda>s.
        bnd (expect ValueError (freshness_bound_ms s)) (\<lambda>ms.
        ensure (0 \<le> ms) ValueError
       (ensure (\<not> is_revoked s \<and> status_verifiable s) ValueError
       (bnd (expect ValueError (status_public_key roots (status_root s))) (\<lambda>key.
        ensure (verify_revocation_attestation K I s (jti grant) key) ValueError
       (bnd (status_horizon s ms) (\<lambda>horizon.
        ensure (checked_at s \<le> ratified_at \<and> ratified_at \<le> horizon) ValueError (Inr ())))))))))))))"

definition verify_status_evidence ::
  "crypto \<Rightarrow> interp \<Rightarrow> trust_roots \<Rightarrow> ratification_claims \<Rightarrow> delegation_claims list
    \<Rightarrow> (pystr, json) dict list \<Rightarrow> exc + unit" where
  "verify_status_evidence K I roots c grants artefacts =
     ensure (length artefacts = length grants \<and> length (rt_status_hashes c) = length grants) ValueError
     (bnd (each (verify_status_binding K I roots (rt_ratified_at c)) (zip grants (zip (rt_status_hashes c) artefacts))) (\<lambda>_.
      bnd (epoch_regression I artefacts) (\<lambda>regressed. ensure (regressed = None) ValueError (Inr ()))))"

definition credential_keys :: "trust_roots \<Rightarrow> pybytes list" where
  "credential_keys roots =
     List.map_filter (\<lambda>(_, v). case v of
        JObj r \<Rightarrow> if get r (lit ''scheme'') = JStr (lit ''ed25519'')
          then status_public_key [(lit ''root'', v)] (Some (lit ''root'')) else None
      | _ \<Rightarrow> None) roots"

definition revocation_keys :: "trust_roots \<Rightarrow> pybytes list" where
  "revocation_keys roots = List.map_filter (\<lambda>(root, _). status_public_key roots (Some root)) roots"

definition verify_ratification_evidence ::
  "crypto \<Rightarrow> interp \<Rightarrow> trust_roots \<Rightarrow> trust_roots \<Rightarrow> ratification_claims \<Rightarrow> delegation_claims \<Rightarrow> pystr list
    \<Rightarrow> (pystr, json) dict list \<Rightarrow> exc + delegation_claims \<times> delegation_claims list" where
  "verify_ratification_evidence K I credential_roots revocation_roots c candidate tokens artefacts =
     ensure (set (credential_keys credential_roots) \<inter> set (revocation_keys revocation_roots) = {}) ValueError
     (ensure (tokens \<noteq> []) ValueError
     (bnd (verified_ratifier_binding K I credential_roots c candidate tokens) (\<lambda>(leaf, parents).
      bnd (verify_status_evidence K I revocation_roots c (leaf # parents) artefacts) (\<lambda>_.
      Inr (leaf, parents)))))"

section \<open>The reach confines the candidate\<close>

lemma drop_shared_bounds:
  assumes "permits c u"
  shows "permits (c\<lparr>bounds := ordinary_bounds c\<rparr>) u"
proof -
  have "filter (\<lambda>b. bd_aggregation b \<noteq> None) (ordinary_bounds c) = []"
    by (auto simp: ordinary_bounds_def filter_empty_conv simp del: filter_filter)
  then have "bounds_by_kind (c\<lparr>bounds := ordinary_bounds c\<rparr>) = bounds_by_kind c"
    "aggregate_bounds (c\<lparr>bounds := ordinary_bounds c\<rparr>) = []"
    by (simp_all add: bounds_by_kind_def aggregate_bounds_def ordinary_bounds_def del: filter_filter)
  moreover have "grant_windows (c\<lparr>bounds := ordinary_bounds c\<rparr>) a = grant_windows c a" for a
    by (simp add: grant_windows_def)
  ultimately show ?thesis using assms by (simp add: permits_def)
qed

text \<open>A shared ceiling that passed narrows the parent's own bound of its kind.\<close>

definition ceiling_covered :: "delegation_claims \<Rightarrow> bound \<Rightarrow> bool" where
  "ceiling_covered parent b \<longleftrightarrow>
     (\<exists>pb. map_of (bounds_by_kind parent) (bd_kind b) = Some pb
        \<and> bd_unit b = bd_unit pb \<and> bd_amount b \<le> bd_amount pb
        \<and> (bd_window pb \<noteq> None \<longrightarrow> bd_window b = bd_window pb \<and> bd_window_kind b = bd_window_kind pb)
        \<and> \<not> side_widens (fst (sides pb)) (fst (sides b)) \<and> \<not> side_widens (snd (sides pb)) (snd (sides b)))"

lemma kind_in_dict: "bd_kind b \<in> bd_kind ` set (ordinary_bounds c) \<Longrightarrow> \<exists>pb. map_of (bounds_by_kind c) (bd_kind b) = Some pb"
proof -
  have "dom (map_of (fold (\<lambda>b. dict_set (bd_kind b) b) bs d)) = dom (map_of d) \<union> bd_kind ` set bs" for bs and d :: "(pystr, bound) dict"
    by (induction bs arbitrary: d) auto
  from this [of "ordinary_bounds c" "[]"] show "bd_kind b \<in> bd_kind ` set (ordinary_bounds c) \<Longrightarrow> ?thesis"
    by (auto simp: bounds_by_kind_def ordinary_bounds_def)
qed

lemma shared_reach_covered:
  "shared_reach candidate parent bs = None \<Longrightarrow> b \<in> set bs \<Longrightarrow> ceiling_covered parent b"
proof (induction bs)
  case (Cons a bs)
  show ?case
  proof (cases "b = a")
    case True
    let ?c = "candidate\<lparr>bounds := filter (\<lambda>ob. bd_kind ob \<noteq> bd_kind b) (ordinary_bounds candidate) @ [b\<lparr>bd_aggregation := None\<rparr>]\<rparr>"
    have "scope_widening_axis ?c parent = None" and k: "bd_kind b \<in> bd_kind ` set (ordinary_bounds parent)"
      using Cons.prems True by (auto split: if_splits option.splits)
    then have w: "bounds_widen (bounds_by_kind ?c) (bounds_by_kind parent) = None" by (simp add: narrows_iff)
    obtain pb where pb: "map_of (bounds_by_kind parent) (bd_kind b) = Some pb" using kind_in_dict [OF k] by blast
    have "map_of (bounds_by_kind ?c) (bd_kind b) = Some (b\<lparr>bd_aggregation := None\<rparr>)"
      by (simp add: bounds_by_kind_def)
    then have "bound_widens (Some (b\<lparr>bd_aggregation := None\<rparr>)) pb = None"
      using w pb unfolding bounds_widen_map by metis
    then show ?thesis using pb by (auto simp: ceiling_covered_def bound_widens_None sides_def)
  qed (use Cons in \<open>auto split: if_splits option.splits\<close>)
qed simp

lemma reach_permits:
  assumes "ratifier_reach_widening_axis v c p = None" "permits c u"
  shows "permits p u"
proof (cases "scope_widening_axis c p = None")
  case False
  then have "scope_widening_axis (c\<lparr>bounds := ordinary_bounds c\<rparr>) p = None"
    using assms(1) by (auto simp: ratifier_reach_widening_axis_def split: if_splits option.splits)
  then show ?thesis using narrows_permits drop_shared_bounds [OF assms(2)] by blast
qed (use narrows_permits assms in blast)

lemma reach_ceilings:
  assumes "ratifier_reach_widening_axis ratification_rule_version c p = None" "shared_bounds p = []"
    and "b \<in> set (shared_bounds c)"
  shows "ceiling_covered p b"
proof (rule shared_reach_covered)
  have "historical_ratification_rule_version \<noteq> ratification_rule_version"
    by (simp add: historical_ratification_rule_version_def ratification_rule_version_def)
  then show "shared_reach c p (shared_bounds c) = None"
    using assms by (auto simp: ratifier_reach_widening_axis_def split: if_splits option.splits)
qed (fact assms(3))

section \<open>What the evidence establishes\<close>

text \<open>A signed answer of the store that a grant was not revoked at a moment.\<close>

definition unrevoked_at ::
  "crypto \<Rightarrow> interp \<Rightarrow> (pystr option \<Rightarrow> pybytes option) \<Rightarrow> instant \<Rightarrow> delegation_claims \<Rightarrow> (pystr, json) dict \<Rightarrow> bool" where
  "unrevoked_at K I store_key at g a \<longleftrightarrow>
     (\<exists>s key ms. status_from_evidence a = Inr s \<and> \<not> is_revoked s \<and> status_verifiable s
        \<and> store_key (status_root s) = Some key \<and> verify_revocation_attestation K I s (jti g) key
        \<and> freshness_bound_ms s = Some ms \<and> 0 \<le> ms \<and> checked_at s + ms * 1000 \<le> max_instant
        \<and> checked_at s \<le> at \<and> at \<le> checked_at s + ms * 1000)"

lemma status_horizon_Inr:
  "status_horizon s ms = Inr h \<longleftrightarrow> checked_at s + ms * 1000 \<le> max_instant \<and> h = checked_at s + ms * 1000"
  by (auto simp: status_horizon_def Let_def)

lemma status_binding_iff:
  "verify_status_binding K I roots at (g, b, a) = Inr () \<longleftrightarrow>
    get a (lit ''jti'') = JStr (jti g) \<and> fst b = jti g \<and> status_artefact_hash I a = Inr (snd b)
    \<and> unrevoked_at K I (status_public_key roots) at g a"
  by (cases b) (auto simp: verify_status_binding_def raise_simps status_horizon_Inr unrevoked_at_def)

text \<open>What \<open>_verified_ratifier_binding\<close> returns.\<close>

definition ratifier_bound ::
  "crypto \<Rightarrow> interp \<Rightarrow> trust_roots \<Rightarrow> ratification_claims \<Rightarrow> delegation_claims \<Rightarrow> pystr list
    \<Rightarrow> delegation_claims \<Rightarrow> delegation_claims list \<Rightarrow> bool" where
  "ratifier_bound K I roots c candidate tokens leaf parents \<longleftrightarrow>
     list_all2 (\<lambda>t g. parse_delegation K I roots t = Inr (Some g)) tokens (leaf # parents)
     \<and> chain_depth leaf \<le> 64 \<and> chain_to_root (chain_at K I roots (rt_ratified_at c)) 0 leaf parents
     \<and> \<not> (parents \<noteq> [] \<and> chain_depth leaf > max_depth leaf)
     \<and> verify_ratification_contract c candidate leaf = None
     \<and> jti leaf = rt_jti c \<and> sub leaf = rt_sub c \<and> sub leaf = rt_root c
     \<and> delegation_content_hash I leaf = Inr (rt_leaf_hash c) \<and> parents_content_hash I parents = Inr (rt_parents_hash c)
     \<and> holds_right leaf (lit ''delegate'') (rt_ratified_at c)
     \<and> ratifier_reach_widening_axis (rt_rule_version c) candidate leaf = None
     \<and> sub candidate \<noteq> sub leaf \<and> distinct_keys K roots c"

lemma ratifier_binding_iff:
  assumes "tokens \<noteq> []"
  shows "verified_ratifier_binding K I roots c candidate tokens = Inr (leaf, parents)
    \<longleftrightarrow> ratifier_bound K I roots c candidate tokens leaf parents"
proof -
  obtain t ts where t: "tokens = t # ts" using assms by (cases tokens) auto
  let ?E = "chain_at K I roots (rt_ratified_at c)"
  have E: "?E\<lparr>rule_version := chain_rule_version\<rparr> = ?E" "parse_parent ?E = parse_delegation K I roots"
    by (simp_all add: chain_at_def)
  define acc where "acc qs = (accepted_result leaf qs (collected_statuses ?E 0 qs))
      \<lparr>depth_exceeded := ts \<noteq> [] \<and> chain_depth leaf > max_depth leaf\<rparr>" for qs
  have acc: "parent_claims (acc qs) = qs" "depth_exceeded (acc qs) \<longleftrightarrow> ts \<noteq> [] \<and> chain_depth leaf > max_depth leaf" for qs
    by (simp_all add: acc_def accepted_result_def)
  have w: "validate_delegation_chain ?E leaf ts = Inr r \<and> chain_valid r \<longleftrightarrow> chain_depth leaf \<le> 64
      \<and> (\<exists>qs. list_all2 (\<lambda>t g. parse_delegation K I roots t = Inr (Some g)) ts qs \<and> chain_to_root ?E 0 leaf qs \<and> r = acc qs)" for r
    using walk_accepts [of ?E leaf ts r] unfolding validate_delegation_chain_def E acc_def
    by (simp add: max_verification_chain_depth_def)
  have chain: "(\<exists>r. (validate_delegation_chain ?E leaf ts = Inr r \<and> chain_valid r) \<and> \<not> depth_exceeded r \<and> parent_claims r = parents)
      \<longleftrightarrow> chain_depth leaf \<le> 64 \<and> list_all2 (\<lambda>t g. parse_delegation K I roots t = Inr (Some g)) ts parents
        \<and> chain_to_root ?E 0 leaf parents \<and> \<not> (parents \<noteq> [] \<and> chain_depth leaf > max_depth leaf)"
    unfolding w by (auto simp: acc dest: list_all2_lengthD)
  show ?thesis
  proof
    assume "verified_ratifier_binding K I roots c candidate tokens = Inr (leaf, parents)"
    then obtain r where "parse_delegation K I roots t = Inr (Some leaf)" "verify_ratification_contract c candidate leaf = None"
        "validate_delegation_chain ?E leaf ts = Inr r" "chain_valid r" "\<not> depth_exceeded r"
        "jti leaf = rt_jti c" "sub leaf = rt_sub c" "sub leaf = rt_root c"
        "delegation_content_hash I leaf = Inr (rt_leaf_hash c)"
        "parents_content_hash I (parent_claims r) = Inr (rt_parents_hash c)"
        "holds_right leaf (lit ''delegate'') (rt_ratified_at c)"
        "ratifier_reach_widening_axis (rt_rule_version c) candidate leaf = None"
        "sub candidate \<noteq> sub leaf" "distinct_keys K roots c" "parents = parent_claims r"
      unfolding verified_ratifier_binding_def t raise_simps by auto
    then show "ratifier_bound K I roots c candidate tokens leaf parents"
      using chain by (auto simp: ratifier_bound_def t)
  next
    assume b: "ratifier_bound K I roots c candidate tokens leaf parents"
    then obtain r where "validate_delegation_chain ?E leaf ts = Inr r" "chain_valid r" "\<not> depth_exceeded r" "parent_claims r = parents"
      using chain by (auto simp: ratifier_bound_def t)
    then show "verified_ratifier_binding K I roots c candidate tokens = Inr (leaf, parents)"
      using b unfolding verified_ratifier_binding_def ratifier_bound_def t by (elim conjE) simp
  qed
qed


lemma status_evidence_iff:
  "verify_status_evidence K I roots c grants arts = Inr () \<longleftrightarrow>
    length arts = length grants \<and> length (rt_status_hashes c) = length grants
    \<and> list_all (\<lambda>p. verify_status_binding K I roots (rt_ratified_at c) p = Inr ()) (zip grants (zip (rt_status_hashes c) arts))
    \<and> sorted (List.map_filter stated_epoch arts)"
proof -
  have "(\<exists>ys. each f xs = Inr ys) \<longleftrightarrow> list_all (\<lambda>x. f x = Inr ()) xs" for f :: "'a \<Rightarrow> exc + unit" and xs
    by (induction xs) (auto simp: raise_simps)
  then show ?thesis
    using regression_None [of I None arts] by (auto simp: verify_status_evidence_def raise_simps epoch_regression_def)
qed

text \<open>
  C20: the evidence of a ratification is accepted, with the ratifier's grant and its ancestry,
  exactly if the credential and the revocation keys are disjoint, the grant and its chain verify
  at the ratification moment and are bound to the claims (\<open>ratifier_bound\<close>), and there is one
  status per grant, in order: bound by its hash, signed by the store, fresh, not revoked, with
  epochs that do not fall.
\<close>

theorem ratification_evidence_iff:
  "verify_ratification_evidence K I cr rr c candidate tokens arts = Inr (leaf, parents) \<longleftrightarrow>
    set (credential_keys cr) \<inter> set (revocation_keys rr) = {}
    \<and> ratifier_bound K I cr c candidate tokens leaf parents
    \<and> list_all2 (\<lambda>g a. get a (lit ''jti'') = JStr (jti g) \<and> unrevoked_at K I (status_public_key rr) (rt_ratified_at c) g a) (leaf # parents) arts
    \<and> list_all2 (\<lambda>g b. fst b = jti g) (leaf # parents) (rt_status_hashes c)
    \<and> list_all2 (\<lambda>a b. status_artefact_hash I a = Inr (snd b)) arts (rt_status_hashes c)
    \<and> sorted (List.map_filter stated_epoch arts)"
proof -
  have z: "length as = length gs \<and> length bs = length gs
        \<and> list_all (\<lambda>p. verify_status_binding K I rr at p = Inr ()) (zip gs (zip bs as)) \<longleftrightarrow>
      list_all2 (\<lambda>g a. get a (lit ''jti'') = JStr (jti g) \<and> unrevoked_at K I (status_public_key rr) at g a) gs as
      \<and> list_all2 (\<lambda>g b. fst b = jti g) gs bs \<and> list_all2 (\<lambda>a b. status_artefact_hash I a = Inr (snd b)) as bs" for gs bs as at
    by (auto simp: list_all2_conv_all_nth list_all_length status_binding_iff)
  have "ratifier_bound K I cr c candidate tokens leaf parents \<Longrightarrow> tokens \<noteq> []"
    by (auto simp: ratifier_bound_def)
  then show ?thesis
    using ratifier_binding_iff [of tokens K I cr c candidate leaf parents] z [of arts "leaf # parents" "rt_status_hashes c" "rt_ratified_at c"]
    by (auto simp: verify_ratification_evidence_def raise_simps status_evidence_iff simp del: list.rel_inject)
qed



text \<open>A candidate with an own and a shared ceiling of one kind, and one whose shared ceiling is too high.\<close>

definition shared_candidate :: "nat \<Rightarrow> delegation_claims" where
  "shared_candidate n = demo_leaf
     \<lparr>bounds := bounds demo_leaf @ map (bd_aggregation_update (\<lambda>_. Some (lit ''shared'')) \<circ> bd_amount_update (\<lambda>_. n)) (bounds demo_leaf)\<rparr>"

lemma shared_candidate_reach:
  "ratifier_reach_widening_axis ratification_rule_version (shared_candidate 3) demo_leaf = None"
  "ratifier_reach_widening_axis ratification_rule_version (shared_candidate 6) demo_leaf = Some (Scope_Axis Bounds)"
  "length (shared_bounds (shared_candidate 3)) = 1" "shared_bounds demo_leaf = []"
  by code_simp+


section \<open>The candidate states its entry\<close>

definition stated_candidate :: "authority_entry \<Rightarrow> pystr \<Rightarrow> pystr \<Rightarrow> delegation_claims" where
  "stated_candidate e ident h =
     \<lparr>jti = ident, sub = ae_subject e, scope_actions = candidate_actions e, scope_paths = ae_scope_paths e,
       nbf = whole_ms (max (ae_nbf e) (ae_effective_at e)), exp_at = whole_ms (ae_exp e), scope_tools = [],
       scope_domains = ae_scope_domains e, iss = ae_principal e, parent_jti = None, chain_depth = 0,
       max_depth = ae_max_depth e, capabilities = [], named_set = None, bounds = candidate_bounds e,
       approval_quorum = None, authority_entry_hash = Some h, ratification_hash = None,
       aud = ae_enforcement_points e, max_revocation_age_ms = None\<rparr>"

lemma bound_formed_mono: "bound_formed scope b \<Longrightarrow> set scope \<subseteq> set scope' \<Longrightarrow> bound_formed scope' b"
  unfolding bound_formed_def by blast

lemma bounds_loop_back:
  assumes "list_all (bound_formed scope) bs" "list_all bound_readable bs"
    and "distinct (map (\<lambda>b. (bd_kind b, bd_aggregation b)) bs)"
    and "set seen \<inter> (\<lambda>b. (bd_kind b, bd_aggregation b)) ` set bs = {}"
  shows "bounds_loop scope seen (map bound_json bs) = Inr bs"
  using assms
proof (induction bs arbitrary: seen)
  case (Cons b bs)
  then show ?case by (simp add: bound_scope_back [of scope b] validated_bound_back)
qed simp

lemma candidate_body:
  "dict_del k_entry_hash (dict_del k_ratification_hash (candidate_core e ident h)) =
    filter (\<lambda>p. fst p \<noteq> k_entry_hash) (candidate_core e ident h)"
  by (auto simp: dict_del_def candidate_core_def k_entry_hash_def k_ratification_hash_def opt_key_def
      simp del: filter_filter split: option.splits)

lemma candidate_get:
  "get (candidate_core e ident h) (lit ''jti'') = JStr ident"
  "get (candidate_core e ident h) (lit ''sub'') = JStr (ae_subject e)"
  "get (candidate_core e ident h) (lit ''iss'') = JStr (ae_principal e)"
  "get (candidate_core e ident h) (lit ''scope_actions'') = strs (candidate_actions e)"
  "get (candidate_core e ident h) (lit ''scope_domains'') = strs (ae_scope_domains e)"
  "get (candidate_core e ident h) (lit ''scope_paths'') = strs (ae_scope_paths e)"
  "get (candidate_core e ident h) (lit ''scope_tools'') = JList []"
  "get (candidate_core e ident h) (lit ''nbf'') = JStr (canonical_iso (max (ae_nbf e) (ae_effective_at e)))"
  "get (candidate_core e ident h) (lit ''exp'') = JStr (canonical_iso (ae_exp e))"
  "get (candidate_core e ident h) (lit ''parent_jti'') = JNull"
  "get (candidate_core e ident h) (lit ''chain_depth'') = JInt 0"
  "get (candidate_core e ident h) (lit ''max_depth'') = JInt (ae_max_depth e)"
  "get (candidate_core e ident h) (lit ''bounds'') = JList (map bound_json (candidate_bounds e))"
  "get (candidate_core e ident h) (lit ''authority_entry_hash'') = JStr h"
  "get (candidate_core e ident h) (lit ''aud'') = opt_json strs (ae_enforcement_points e)"
  "get (candidate_core e ident h) (lit ''named_set_ref'') = JNull"
  "get (candidate_core e ident h) (lit ''approval_quorum'') = JNull"
  "get (candidate_core e ident h) (lit ''max_revocation_age_ms'') = JNull"
  by (simp_all add: candidate_core_def get_append)

lemma candidate_keys:
  "has_key (candidate_core e ident h) (lit k) \<longleftrightarrow> k \<in> {''jti'', ''sub'', ''iss'', ''scope_actions'', ''scope_domains'',
     ''scope_paths'', ''scope_tools'', ''nbf'', ''exp'', ''parent_jti'', ''chain_depth'', ''max_depth'', ''bounds'',
     ''authority_entry_hash''} \<or> k = ''aud'' \<and> ae_enforcement_points e \<noteq> None"
  by (auto simp: candidate_core_def)


lemma candidate_keys_within: "keys_within (candidate_core e ident h) delegation_claim_keys"
  by (auto simp: keys_within_def candidate_core_def opt_key_def delegation_claim_keys_def split: option.splits)

lemma keys_within_del: "keys_within d ks \<Longrightarrow> keys_within (dict_del k d) ks"
  by (auto simp: keys_within_def keys_dict_del list_all_iff)

lemma has_key_dict_del [simp]: "has_key (dict_del k d) j \<longleftrightarrow> j \<noteq> k \<and> has_key d j"
  by (auto simp: has_key_def keys_dict_del)

lemma claim_dt_canonical:
  "get d k = JStr (canonical_iso t) \<Longrightarrow> 0 \<le> t \<and> t \<le> max_instant \<Longrightarrow> claim_dt d k = Inr (whole_ms t)"
  using canonical_iso_clean [of t] by (simp add: claim_dt_def clean_def parse_dt_canonical)

text \<open>
  The candidate core of a well-formed entry is a claim set: its subject, domains, paths, depth
  and bounds are those of the entry, its actions at most one \<open>delegate\<close> more, its window the
  entry's from the moment it takes effect, and it names the hash of the entry.
\<close>

theorem candidate_states_entry:
  assumes "entry_formed e" "list_all bound_readable (candidate_bounds e)" "ident \<noteq> []"
  shows "candidate_claims (candidate_core e ident h) = Inr (stated_candidate e ident h)"
proof -
  let ?c = "candidate_core e ident h"
  let ?d = "dict_del k_entry_hash (dict_del k_ratification_hash ?c)"
  note get = candidate_get k_entry_hash_def k_ratification_hash_def and key = candidate_keys
  obtain a dom where a: "ae_scope_actions e = [a]" "clean a" "a \<notin> set privilege_tiers" "ae_scope_domains e = [dom]" "clean dom"
    using assms(1) unfolding entry_formed_def by (elim conjE exE)
  have f: "ae_subject e \<noteq> []" "0 \<le> ae_max_depth e" "{ae_nbf e, ae_exp e, ae_effective_at e} \<subseteq> {0..max_instant}"
    using assms(1) by (simp_all add: entry_formed_def clean_def)
  define n where "n = max (ae_nbf e) (ae_effective_at e)"
  define x where "x = ae_exp e"
  have n: "get ?d (lit ''nbf'') = JStr (canonical_iso n)" "0 \<le> n \<and> n \<le> max_instant"
    and x: "get ?d (lit ''exp'') = JStr (canonical_iso x)" "0 \<le> x \<and> x \<le> max_instant"
    using f(3) by (simp_all add: get n_def x_def le_max_iff_disj)
  have "keys_within ?d delegation_claim_keys"
    by (intro keys_within_del candidate_keys_within)
  moreover have "claim_dt ?d (lit ''nbf'') = Inr (whole_ms n)"
      "claim_dt ?d (lit ''exp'') = Inr (whole_ms x)"
    using claim_dt_canonical [OF n] claim_dt_canonical [OF x] .
  moreover have "required_str_list ?d (lit ''scope_actions'') = Inr (candidate_actions e)"
      "required_str_list ?d (lit ''scope_paths'') = Inr (ae_scope_paths e)" "optional_str_list ?d (lit ''scope_tools'') = Inr []"
    by (simp_all add: required_str_list_def optional_str_list_def get str_list_def strs_def)
  moreover have "validate_lineage ?d = Inr (None, None)"
    by (simp add: validate_lineage_def k_entry_hash_def k_ratification_hash_def has_key_def keys_dict_del)
  moreover have "required_str ?d (lit ''jti'') = Inr ident" "required_str ?d (lit ''sub'') = Inr (ae_subject e)"
    using assms(3) f(1) by (simp_all add: required_str_def get)
  moreover have "required_nonempty_str_list ?d (lit ''scope_domains'') = Inr (ae_scope_domains e)"
    using a nonempty_strip_list_strs [of "[dom]"] by (simp add: required_nonempty_str_list_def get)
  moreover have "optional_chain_string ?d (lit ''iss'') (Some []) = Inr (Some (ae_principal e))"
      "optional_chain_string ?d (lit ''parent_jti'') None = Inr None"
    by (simp_all add: optional_chain_string_def get key)
  moreover have "optional_chain_depth ?d (lit ''chain_depth'') 0 = Inr 0"
      "optional_chain_depth ?d (lit ''max_depth'') 1 = Inr (ae_max_depth e)"
    using f(2) by (simp_all add: optional_chain_depth_def get key int_from_def)
  moreover have "validate_bounds (candidate_actions e) (get ?d (lit ''bounds'')) = Inr (candidate_bounds e)"
  proof -
    have sub: "set (ae_scope_actions e) \<subseteq> set (candidate_actions e)" using a(1) by (auto simp: candidate_actions_def)
    have own: "bound_formed (ae_scope_actions e) (ae_bound e)" "bd_aggregation (ae_bound e) = None"
      and shared: "\<And>b. ae_aggregate_bound e = Some b \<Longrightarrow>
        bound_formed (ae_scope_actions e) b \<and> bd_aggregation b = Some (lit ''entry'')"
      using assms(1) by (simp_all add: entry_formed_def)
    have "list_all (bound_formed (candidate_actions e)) (candidate_bounds e)"
      using bound_formed_mono [OF _ sub] own(1) shared
      by (cases "ae_aggregate_bound e") (simp_all add: candidate_bounds_def)
    moreover have "distinct (map (\<lambda>b. (bd_kind b, bd_aggregation b)) (candidate_bounds e))"
      using own(2) shared by (cases "ae_aggregate_bound e") (simp_all add: candidate_bounds_def)
    ultimately have "bounds_loop (candidate_actions e) [] (map bound_json (candidate_bounds e)) = Inr (candidate_bounds e)"
      using assms(2) by (intro bounds_loop_back) simp_all
    then show ?thesis by (simp add: validate_bounds_def get candidate_bounds_def split: option.splits)
  qed
  moreover have "validate_audience (get ?d (lit ''aud'')) = Inr (ae_enforcement_points e)"
    using assms(1) audience_back unfolding entry_formed_def
    by (cases "ae_enforcement_points e") (auto simp: get validate_audience_def)
  moreover have "validate_named_set_ref (get ?d (lit ''named_set_ref'')) = Inr None"
      "validate_approval_quorum (get ?d (lit ''approval_quorum'')) = Inr None"
      "validate_max_revocation_age (get ?d (lit ''max_revocation_age_ms'')) = Inr None"
    by (simp_all add: get validate_named_set_ref_def validate_approval_quorum_def validate_max_revocation_age_def)
  moreover have "list_all (\<lambda>a. a \<notin> set privilege_tiers) (candidate_actions e)"
    using a by (auto simp: candidate_actions_def privilege_tiers_def)
  moreover have "parse_capabilities ?d xs b x = Inr []" for xs b x
    by (simp add: parse_capabilities_def key)
  moreover have "get ?c k_entry_hash = JStr h"
    using candidate_get by (simp add: k_entry_hash_def)
  ultimately show ?thesis
    by (simp add: candidate_claims_def parse_delegation_claims_def Let_def require_action_types_def stated_candidate_def
        n_def x_def)
qed

theorem candidate_states_entry_witness:
  "candidate_claims (candidate_core demo_entry (lit ''entry:e:r1:a1'') (lit ''h''))
    = Inr (stated_candidate demo_entry (lit ''entry:e:r1:a1'') (lit ''h''))"
  by (rule candidate_states_entry [OF demo_entry_formed])
    (use demo_entry_readable in \<open>simp_all add: candidate_bounds_def entry_readable_def demo_entry_def\<close>)


section \<open>The slip\<close>

definition ratification_formed :: "ratification_claims \<Rightarrow> bool" where
  "ratification_formed c \<longleftrightarrow>
     [] \<notin> {rt_id c, rt_entry_id c, rt_rule_version c, rt_issuer_root c, rt_jti c, rt_sub c, rt_root c}
     \<and> 1 \<le> rt_revision c \<and> 1 \<le> rt_attempt c
     \<and> list_all hex64 [rt_entry_hash c, rt_core_hash c, rt_rule_hash c, rt_leaf_hash c, rt_parents_hash c]
     \<and> {rt_effective_at c, rt_ratified_at c, rt_nbf c, rt_exp c} \<subseteq> {0..max_instant}
     \<and> list_all (\<lambda>(j, h). j \<noteq> [] \<and> hex64 h) (rt_status_hashes c)"

definition at_milliseconds :: "ratification_claims \<Rightarrow> ratification_claims" where
  "at_milliseconds c = c\<lparr>rt_effective_at := whole_ms (rt_effective_at c), rt_ratified_at := whole_ms (rt_ratified_at c),
     rt_nbf := whole_ms (rt_nbf c), rt_exp := whole_ms (rt_exp c)\<rparr>"

lemma ratification_text_Inr: "ratification_text d k = Inr s \<longleftrightarrow> get d (lit k) = JStr s \<and> s \<noteq> []"
  by (auto simp: ratification_text_def raise_simps)

lemma ratification_digest_Inr: "ratification_digest d k = Inr s \<longleftrightarrow> get d (lit k) = JStr s \<and> hex64 s"
  by (auto simp: ratification_digest_def raise_simps)

lemma ratification_count_Inr: "ratification_count d k = Inr n \<longleftrightarrow> get d (lit k) = JInt n \<and> 1 \<le> n"
  by (simp add: ratification_count_def int_from_Inr)

lemma ratification_moment_Inr:
  "ratification_moment d k = Inr t \<longleftrightarrow> (\<exists>s. get d (lit k) = JStr s \<and> s \<noteq> [] \<and> parse_dt s = Inr t)"
  by (auto simp: ratification_moment_def raise_simps ratification_text_Inr)

lemma ratification_moment_back:
  "get d (lit k) = JStr (canonical_iso t) \<Longrightarrow> t \<in> {0..max_instant} \<Longrightarrow> ratification_moment d k = Inr (whole_ms t)"
  using canonical_iso_clean [of t] parse_dt_canonical [of t] by (simp add: ratification_moment_Inr clean_def)

lemma status_hashes_back:
  "get d (lit ''status_evidence_hashes'') = JList (map (\<lambda>(j, h). JObj [(lit ''jti'', JStr j), (lit ''hash'', JStr h)]) ps)
    \<Longrightarrow> list_all (\<lambda>(j, h). j \<noteq> [] \<and> hex64 h) ps \<Longrightarrow> status_hashes d = Inr ps"
  by (auto simp: status_hashes_def each_Inr_iff list_all2_conv_all_nth list_all_length status_hash_entry_def raise_simps
      ratification_text_Inr ratification_digest_Inr keys_exact_iff split: prod.splits)

lemma ratification_dict_get:
  assumes "d = dict_set k_trust_root (JStr r) (ratification_to_dict c)"
  shows "get d (lit ''ratification_id'') = JStr (rt_id c)" "get d (lit ''entry_id'') = JStr (rt_entry_id c)"
    "get d (lit ''revision'') = JInt (rt_revision c)" "get d (lit ''attempt'') = JInt (rt_attempt c)"
    "get d (lit ''authority_entry_hash'') = JStr (rt_entry_hash c)" "get d (lit ''candidate_core_hash'') = JStr (rt_core_hash c)"
    "get d (lit ''rule_version'') = JStr (rt_rule_version c)" "get d (lit ''attenuation_rule_hash'') = JStr (rt_rule_hash c)"
    "get d (lit ''effective_at'') = JStr (canonical_iso (rt_effective_at c))"
    "get d (lit ''ratified_at'') = JStr (canonical_iso (rt_ratified_at c))"
    "get d (lit ''nbf'') = JStr (canonical_iso (rt_nbf c))" "get d (lit ''exp'') = JStr (canonical_iso (rt_exp c))"
    "get d (lit ''issuer_trust_root_id'') = JStr (rt_issuer_root c)" "get d (lit ''ratifier_jti'') = JStr (rt_jti c)"
    "get d (lit ''ratifier_sub'') = JStr (rt_sub c)" "get d (lit ''ratifier_trust_root_id'') = JStr (rt_root c)"
    "get d (lit ''ratifier_leaf_content_hash'') = JStr (rt_leaf_hash c)"
    "get d (lit ''ratifier_parents_content_hash'') = JStr (rt_parents_hash c)"
    "get d (lit ''status_evidence_hashes'') = JList (map (\<lambda>(j, h). JObj [(lit ''jti'', JStr j), (lit ''hash'', JStr h)]) (rt_status_hashes c))"
    "keys_within d ratification_claim_keys" "has_keys d required_ratification_keys"
  unfolding assms
  by (simp_all add: ratification_to_dict_def k_trust_root_def has_keys_def required_ratification_keys_def
      keys_within_def ratification_claim_keys_def)

text \<open>
  Well-formed ratification claims are read back, at milliseconds, from the projection that is
  signed and hashed, whatever root the signer adds to it.
\<close>

theorem ratification_claims_roundtrip:
  assumes "ratification_formed c"
  shows "parse_ratification_claims (dict_set k_trust_root (JStr r) (ratification_to_dict c)) = Inr (at_milliseconds c)"
proof -
  define d where "d = dict_set k_trust_root (JStr r) (ratification_to_dict c)"
  note g = ratification_dict_get [OF d_def]
  have "ratification_text d ''ratification_id'' = Inr (rt_id c)" "ratification_text d ''entry_id'' = Inr (rt_entry_id c)"
      "ratification_text d ''rule_version'' = Inr (rt_rule_version c)"
      "ratification_text d ''issuer_trust_root_id'' = Inr (rt_issuer_root c)" "ratification_text d ''ratifier_jti'' = Inr (rt_jti c)"
      "ratification_text d ''ratifier_sub'' = Inr (rt_sub c)" "ratification_text d ''ratifier_trust_root_id'' = Inr (rt_root c)"
      "ratification_count d ''revision'' = Inr (rt_revision c)" "ratification_count d ''attempt'' = Inr (rt_attempt c)"
    using assms by (auto simp: ratification_text_Inr ratification_count_Inr g ratification_formed_def)
  moreover have "ratification_digest d ''authority_entry_hash'' = Inr (rt_entry_hash c)"
      "ratification_digest d ''candidate_core_hash'' = Inr (rt_core_hash c)"
      "ratification_digest d ''attenuation_rule_hash'' = Inr (rt_rule_hash c)"
      "ratification_digest d ''ratifier_leaf_content_hash'' = Inr (rt_leaf_hash c)"
      "ratification_digest d ''ratifier_parents_content_hash'' = Inr (rt_parents_hash c)"
    using assms by (simp_all add: ratification_digest_Inr g ratification_formed_def)
  moreover have "{rt_effective_at c, rt_ratified_at c, rt_nbf c, rt_exp c} \<subseteq> {0..max_instant}"
    using assms by (simp add: ratification_formed_def)
  then have "ratification_moment d ''effective_at'' = Inr (whole_ms (rt_effective_at c))"
      "ratification_moment d ''ratified_at'' = Inr (whole_ms (rt_ratified_at c))"
      "ratification_moment d ''nbf'' = Inr (whole_ms (rt_nbf c))" "ratification_moment d ''exp'' = Inr (whole_ms (rt_exp c))"
    using g by (simp_all add: ratification_moment_back)
  moreover have "status_hashes d = Inr (rt_status_hashes c)"
    using assms g by (intro status_hashes_back) (simp_all add: ratification_formed_def)
  ultimately show ?thesis
    unfolding d_def [symmetric] using g(20,21)
    by (simp add: parse_ratification_claims_def at_milliseconds_def)
qed

definition demo_ratification :: ratification_claims where
  "demo_ratification = \<lparr>rt_id = lit ''r'', rt_entry_id = lit ''e'', rt_revision = 1, rt_attempt = 1,
     rt_entry_hash = replicate 64 48, rt_core_hash = replicate 64 48, rt_rule_version = ratification_rule_version,
     rt_rule_hash = attenuation_rule_hash, rt_effective_at = 0, rt_ratified_at = 0, rt_nbf = 0, rt_exp = 1000,
     rt_issuer_root = lit ''i'', rt_jti = lit ''l'', rt_sub = lit ''k'', rt_root = lit ''k'',
     rt_leaf_hash = replicate 64 48, rt_parents_hash = replicate 64 48, rt_status_hashes = [(lit ''l'', replicate 64 48)]\<rparr>"

theorem ratification_claims_roundtrip_witness:
  "parse_ratification_claims (dict_set k_trust_root (JStr (lit ''k'')) (ratification_to_dict demo_ratification))
    = Inr demo_ratification"
proof -
  have "ratification_formed demo_ratification"
    by (simp add: ratification_formed_def demo_ratification_def ratification_rule_version_def attenuation_rule_hash_def
        rule_hash_literal_def hex64_def is_lower_hex_def is_dec_digit_def max_instant_def day_us_def list_all_iff)
      (simp add: lit_def)
  then show ?thesis
    using ratification_claims_roundtrip [of demo_ratification "lit ''k''"]
    by (simp add: at_milliseconds_def whole_ms_def demo_ratification_def)
qed

end
