(* ===== verification/Credential_Registration.thy ===== *)
theory Credential_Registration
  imports Slips Moments Head_Attestation
begin

text \<open>
  The module \<open>credential_registration.py\<close>: the countersigned record of a credential's enrolment,
  the ceremony each kind of credential must show, and the identity of an enforcement point.
\<close>

section \<open>Messages and identities\<close>

definition registration_context :: pystr where
  "registration_context = lit ''ambit.credential.registration.v1''"

definition possession_context :: pystr where
  "possession_context = lit ''ambit.credential.possession.v1''"

definition enforcement_point_registration_context :: pystr where
  "enforcement_point_registration_context = lit ''ambit.enforcement_point.registration.v1''"

definition enforcement_point_id_length :: nat where
  "enforcement_point_id_length = 16"

record enforcement_point_identity =
  ep_id :: pystr
  ep_ledger_id :: pystr
  ep_root :: pystr
  ep_public_key :: pystr

definition derive_enforcement_point_id :: "interp \<Rightarrow> pystr \<Rightarrow> pystr \<Rightarrow> pystr \<Rightarrow> exc + pystr" where
  "derive_enforcement_point_id I ledger root public_key_hex =
     ensure (ledger \<noteq> [] \<and> root \<noteq> [] \<and> public_key_hex \<noteq> []) ValueError
     (bnd (canonical_json_bytes I (JObj [(lit ''ledger_id'', JStr ledger), (lit ''trust_root_id'', JStr root),
        (lit ''public_key'', JStr public_key_hex)])) (\<lambda>bs.
      Inr (take enforcement_point_id_length (sha256_hex I bs))))"

definition k_registration_signature :: pystr where
  "k_registration_signature = lit ''registration_signature''"

definition k_possession :: pystr where
  "k_possession = lit ''proof_of_possession''"

definition unsigned_record :: "(pystr, json) dict \<Rightarrow> (pystr, json) dict" where
  "unsigned_record d = dict_del k_registration_signature d"

definition without_proofs :: "(pystr, json) dict \<Rightarrow> (pystr, json) dict" where
  "without_proofs d = dict_del k_possession (dict_del k_registration_signature d)"

text \<open>A context, a dot, and the base64 of the canonical text.\<close>

definition context_message :: "interp \<Rightarrow> pystr \<Rightarrow> (pystr, json) dict \<Rightarrow> exc + pybytes" where
  "context_message I context d =
     bnd (canonical_json_bytes I (JObj d)) (\<lambda>body.
       Inr (map of_nat context @ [46] @ map of_nat (b64url_encode body)))"

definition registration_signed_bytes :: "interp \<Rightarrow> (pystr, json) dict \<Rightarrow> exc + pybytes" where
  "registration_signed_bytes I d = context_message I registration_context (unsigned_record d)"

definition possession_message :: "interp \<Rightarrow> (pystr, json) dict \<Rightarrow> exc + pybytes" where
  "possession_message I d = context_message I possession_context (without_proofs d)"

definition enforcement_point_possession_message :: "interp \<Rightarrow> (pystr, json) dict \<Rightarrow> exc + pybytes" where
  "enforcement_point_possession_message I d =
     context_message I enforcement_point_registration_context (without_proofs d)"

definition credential_key_fingerprint :: "interp \<Rightarrow> pystr \<Rightarrow> pystr option" where
  "credential_key_fingerprint I public_key = map_option (sha256_hex I) (from_hex public_key)"

section \<open>The firmware version\<close>

text \<open>
  \<open>int(text)\<close>: white space around an optional sign and digits of any script, with single
  underscores between digits, up to the conversion limit. The first digits of the scripts are
  those of Unicode 16, which Python 3.14 uses.
\<close>

definition digit_zeros :: "nat list" where
  "digit_zeros = [48, 1632, 1776, 1984, 2406, 2534, 2662, 2790, 2918, 3046, 3174, 3302, 3430, 3558, 3664, 3792,
     3872, 4160, 4240, 6112, 6160, 6470, 6608, 6784, 6800, 6992, 7088, 7232, 7248, 42528, 43216, 43264, 43472,
     43504, 43600, 44016, 65296, 66720, 68912, 68928, 69734, 69872, 69942, 70096, 70384, 70736, 70864, 71248,
     71360, 71376, 71386, 71472, 71904, 72016, 72688, 72784, 73040, 73120, 73552, 90416, 92768, 92864, 93008,
     93552, 118000, 120782, 120792, 120802, 120812, 120822, 123200, 123632, 124144, 124401, 125264, 130032]"

definition digit_of :: "nat \<Rightarrow> nat option" where
  "digit_of c = map_option (\<lambda>z. c - z) (List.find (\<lambda>z. z \<le> c \<and> c < z + 10) digit_zeros)"

definition int_space :: "nat \<Rightarrow> bool" where
  "int_space c \<longleftrightarrow> c \<in> {9, 10, 11, 12, 13, 32} \<or> 127 \<le> c \<and> py_space c"

fun digit_run :: "bool \<Rightarrow> pystr \<Rightarrow> nat list option" where
  "digit_run after_digit [] = (if after_digit then Some [] else None)"
| "digit_run after_digit (c # s) =
     (if c = 95 then (if after_digit then digit_run False s else None)
      else case digit_of c of None \<Rightarrow> None | Some v \<Rightarrow> map_option (Cons v) (digit_run True s))"

definition int_of_text :: "pystr \<Rightarrow> int option" where
  "int_of_text s =
     (let t = strip_by int_space s;
          negative = starts_with t [45];
          t = (if starts_with t [43] \<or> negative then tl t else t)
      in case digit_run False t of
        None \<Rightarrow> None
      | Some vs \<Rightarrow> if length vs > max_str_digits then None
          else Some ((if negative then -1 else 1) * int (foldl (\<lambda>a v. 10 * a + v) 0 vs)))"

text \<open>\<open>str.split(".")\<close>.\<close>

fun split_dots :: "pystr \<Rightarrow> pystr list" where
  "split_dots [] = [[]]"
| "split_dots (c # s) =
     (if c = 46 then [] # split_dots s
      else case split_dots s of [] \<Rightarrow> [[c]] | p # ps \<Rightarrow> (c # p) # ps)"

definition firmware_tuple :: "json \<Rightarrow> (int \<times> int \<times> int) option" where
  "firmware_tuple v =
     (case v of
        JStr s \<Rightarrow>
          (case those (map int_of_text (split_dots s)) of
             Some [a, b, c] \<Rightarrow> if a < 0 \<or> b < 0 \<or> c < 0 then None else Some (a, b, c)
           | _ \<Rightarrow> None)
      | _ \<Rightarrow> None)"

definition firmware_sufficient :: "json \<Rightarrow> bool" where
  "firmware_sufficient v =
     (case firmware_tuple v of None \<Rightarrow> False
      | Some (a, b, c) \<Rightarrow> a > 5 \<or> a = 5 \<and> b \<ge> 3)"

section \<open>Ceremonies\<close>

text \<open>One constructor per refusal text of the source.\<close>

datatype registration_fault =
    Not_An_Object | Roots_Not_An_Object
  | Schema_Unsupported | Root_Mismatch | Scheme_Must_Be pystr | Public_Key_Mismatch
  | Slot_Not_9c | Origin_Not_On_Device | Pin_Not_Always | Touch_Not_Always | Firmware_Too_Old
  | Attestation_Certificate_Missing | Attestation_Chain_Missing
  | Origin_Not_Enclave | Access_Control_Lacks_Biometry | Biometry_Not_Touch_Id | Device_Uuid_Missing
  | Device_Model_Missing | Os_Version_Missing | Helper_Digest_Missing | Possession_Invalid
  | Ledger_Id_Missing | Point_Key_Missing | Point_Id_Mismatch
  | Workload_Subject_Missing | Fingerprint_Mismatch | Composition_Hash_Missing | Owner_Missing
  | Provisioning_Missing | Kind_Unsupported
  | Registered_At_Missing | Registered_At_Invalid | Registered_At_Naive
  | Registration_Root_Unconfigured | Registration_Signature_Missing | Registration_Signature_Invalid

definition fault_if :: "bool \<Rightarrow> registration_fault \<Rightarrow> registration_fault list" where
  "fault_if b f = (if b then [f] else [])"

definition kind_piv :: pystr where "kind_piv = lit ''piv''"
definition kind_secure_enclave :: pystr where "kind_secure_enclave = lit ''secure_enclave''"
definition kind_workload :: pystr where "kind_workload = lit ''workload''"
definition kind_enforcement_point :: pystr where "kind_enforcement_point = lit ''enforcement_point''"

definition is_sha256_hex :: "json \<Rightarrow> bool" where
  "is_sha256_hex v =
     (case v of JStr s \<Rightarrow> length s = 64 \<and> list_all (\<lambda>c. is_lower_hex c \<or> 65 \<le> c \<and> c \<le> 70) s | _ \<Rightarrow> False)"

definition check_credential_binding ::
  "(pystr, json) dict \<Rightarrow> pystr \<Rightarrow> pystr \<Rightarrow> pystr \<Rightarrow> registration_fault list" where
  "check_credential_binding r root public_key kind =
     (let scheme = (if kind = kind_enforcement_point then lit ''ed25519'' else lit ''p256'')
      in fault_if (get r (lit ''schema_version'') \<noteq> JStr (lit ''1'')) Schema_Unsupported
         @ fault_if (get r (lit ''trust_root_id'') \<noteq> JStr root) Root_Mismatch
         @ fault_if (get r (lit ''scheme'') \<noteq> JStr scheme) (Scheme_Must_Be scheme)
         @ fault_if (get r (lit ''public_key'') \<noteq> JStr public_key) Public_Key_Mismatch)"

definition chain_stated :: "json \<Rightarrow> bool" where
  "chain_stated v = (case v of JList vs \<Rightarrow> vs \<noteq> [] \<and> list_all (\<lambda>x. as_str x \<noteq> None) vs | _ \<Rightarrow> False)"

definition check_piv_ceremony :: "(pystr, json) dict \<Rightarrow> registration_fault list" where
  "check_piv_ceremony r =
     fault_if (get r (lit ''piv_slot'') \<noteq> JStr (lit ''9c'')) Slot_Not_9c
     @ fault_if (get r (lit ''key_origin'') \<noteq> JStr (lit ''on_device_generated'')) Origin_Not_On_Device
     @ fault_if (get r (lit ''pin_policy'') \<noteq> JStr (lit ''always'')) Pin_Not_Always
     @ fault_if (get r (lit ''touch_policy'') \<noteq> JStr (lit ''always'')) Touch_Not_Always
     @ fault_if (\<not> firmware_sufficient (get r (lit ''firmware_version''))) Firmware_Too_Old
     @ fault_if (\<not> nonempty_str (get r (lit ''attestation_certificate''))) Attestation_Certificate_Missing
     @ fault_if (\<not> chain_stated (get r (lit ''attestation_chain''))) Attestation_Chain_Missing"

text \<open>\<open>ECDSA(SHA256)\<close> over the possession message, under the point the record names.\<close>

definition possession_proof_holds :: "crypto \<Rightarrow> interp \<Rightarrow> (pystr, json) dict \<Rightarrow> bool" where
  "possession_proof_holds K I r =
     (case (get r k_possession, get r (lit ''public_key'')) of
        (JStr proof, JStr hex) \<Rightarrow>
          (case b64decode True proof of None \<Rightarrow> False | Some sig \<Rightarrow>
             case from_hex hex of None \<Rightarrow> False | Some key \<Rightarrow>
               case p256_point K key of None \<Rightarrow> False | Some point \<Rightarrow>
                 case possession_message I r of Inl _ \<Rightarrow> False | Inr m \<Rightarrow>
                   p256_verify K point sig (sha256_raw K m))
      | _ \<Rightarrow> False)"

definition access_control_ok :: "json \<Rightarrow> bool" where
  "access_control_ok v =
     (case v of
        JList vs \<Rightarrow> list_all (\<lambda>x. as_str x \<noteq> None) vs
          \<and> {JStr (lit ''private_key_usage''), JStr (lit ''biometry_current_set'')} \<subseteq> set vs
      | _ \<Rightarrow> False)"

definition check_secure_enclave_ceremony :: "crypto \<Rightarrow> interp \<Rightarrow> (pystr, json) dict \<Rightarrow> registration_fault list" where
  "check_secure_enclave_ceremony K I r =
     fault_if (get r (lit ''key_origin'') \<noteq> JStr (lit ''secure_enclave_generated'')) Origin_Not_Enclave
     @ fault_if (\<not> access_control_ok (get r (lit ''access_control''))) Access_Control_Lacks_Biometry
     @ fault_if (get r (lit ''biometry_type'') \<noteq> JStr (lit ''touch_id'')) Biometry_Not_Touch_Id
     @ fault_if (\<not> nonempty_str (get r (lit ''device_hardware_uuid''))) Device_Uuid_Missing
     @ fault_if (\<not> nonempty_str (get r (lit ''device_model''))) Device_Model_Missing
     @ fault_if (\<not> nonempty_str (get r (lit ''os_version''))) Os_Version_Missing
     @ fault_if (\<not> is_sha256_hex (get r (lit ''helper_sha256''))) Helper_Digest_Missing
     @ fault_if (\<not> possession_proof_holds K I r) Possession_Invalid"

definition ed25519_possession_proof_holds :: "crypto \<Rightarrow> interp \<Rightarrow> (pystr, json) dict \<Rightarrow> bool" where
  "ed25519_possession_proof_holds K I r =
     (case (get r k_possession, get r (lit ''public_key'')) of
        (JStr proof, JStr hex) \<Rightarrow>
          (case b64decode True proof of None \<Rightarrow> False | Some sig \<Rightarrow>
             case from_hex hex of None \<Rightarrow> False | Some key \<Rightarrow>
               case enforcement_point_possession_message I r of Inl _ \<Rightarrow> False | Inr m \<Rightarrow>
                 ed25519_verify K key sig m)
      | _ \<Rightarrow> False)"

definition check_enforcement_point_ceremony ::
  "crypto \<Rightarrow> interp \<Rightarrow> (pystr, json) dict \<Rightarrow> exc + registration_fault list" where
  "check_enforcement_point_ceremony K I r =
     (let missing = fault_if (\<not> nonempty_str (get r (lit ''ledger_id''))) Ledger_Id_Missing
            @ fault_if (\<not> nonempty_str (get r (lit ''public_key''))) Point_Key_Missing
      in case (get r (lit ''ledger_id''), get r (lit ''trust_root_id''), get r (lit ''public_key'')) of
        (JStr ledger, JStr root, JStr key) \<Rightarrow>
          if ledger = [] \<or> root = [] \<or> key = [] then Inr missing
          else bnd (derive_enforcement_point_id I ledger root key) (\<lambda>expected.
            Inr (missing
              @ fault_if (get r (lit ''enforcement_point_id'') \<noteq> JStr expected) Point_Id_Mismatch
              @ fault_if (\<not> ed25519_possession_proof_holds K I r) Possession_Invalid))
      | _ \<Rightarrow> Inr missing)"

text \<open>
  A public key that is not hexadecimal has no fingerprint (\<open>None\<close>), which a record without a
  fingerprint equals; its proof of possession then fails.
\<close>

definition fingerprint_matches :: "interp \<Rightarrow> (pystr, json) dict \<Rightarrow> bool" where
  "fingerprint_matches I r =
     (case get r (lit ''public_key'') of
        JStr k \<Rightarrow> get r (lit ''key_fingerprint'') = opt_json JStr (credential_key_fingerprint I k)
      | _ \<Rightarrow> False)"

definition check_workload_ceremony :: "crypto \<Rightarrow> interp \<Rightarrow> (pystr, json) dict \<Rightarrow> registration_fault list" where
  "check_workload_ceremony K I r =
     fault_if (\<not> nonempty_str (get r (lit ''subject''))) Workload_Subject_Missing
     @ fault_if (\<not> fingerprint_matches I r) Fingerprint_Mismatch
     @ fault_if (\<not> is_sha256_hex (get r (lit ''composition_hash''))) Composition_Hash_Missing
     @ fault_if (\<not> nonempty_str (get r (lit ''owner_of_record''))) Owner_Missing
     @ fault_if (\<not> nonempty_str (get r (lit ''provisioning_ref''))) Provisioning_Missing
     @ fault_if (\<not> possession_proof_holds K I r) Possession_Invalid"

definition check_registered_at :: "(pystr, json) dict \<Rightarrow> registration_fault list" where
  "check_registered_at r =
     (case get r (lit ''registered_at'') of
        JStr s \<Rightarrow>
          if s = [] then [Registered_At_Missing]
          else (case fromisoformat (replace_z s) of
            None \<Rightarrow> [Registered_At_Invalid]
          | Some (_, off) \<Rightarrow> fault_if (off = None) Registered_At_Naive)
      | _ \<Rightarrow> [Registered_At_Missing])"

definition check_ceremony ::
  "crypto \<Rightarrow> interp \<Rightarrow> (pystr, json) dict \<Rightarrow> pystr \<Rightarrow> exc + registration_fault list" where
  "check_ceremony K I r kind =
     (if kind = kind_piv then Inr (check_piv_ceremony r)
      else if kind = kind_secure_enclave then Inr (check_secure_enclave_ceremony K I r)
      else if kind = kind_enforcement_point then check_enforcement_point_ceremony K I r
      else if kind = kind_workload then Inr (check_workload_ceremony K I r)
      else Inr [Kind_Unsupported])"

definition check_registration_signature ::
  "crypto \<Rightarrow> interp \<Rightarrow> (pystr, json) dict \<Rightarrow> (pystr, json) dict \<Rightarrow> registration_fault list" where
  "check_registration_signature K I r public_keys =
     (case (case get r (lit ''registration_root_id'') of JStr root \<Rightarrow> get public_keys root | _ \<Rightarrow> JNull) of
        JStr hex \<Rightarrow>
          if hex = [] then [Registration_Root_Unconfigured]
          else (case get r k_registration_signature of
            JStr sig \<Rightarrow>
              if \<not> starts_with sig ed25519_prefix then [Registration_Signature_Missing]
              else (case b64decode True (drop (length ed25519_prefix) sig) of
                None \<Rightarrow> [Registration_Signature_Invalid]
              | Some raw \<Rightarrow>
                  (case (from_hex hex, registration_signed_bytes I r) of
                     (Some key, Inr m) \<Rightarrow> fault_if (\<not> ed25519_verify K key raw m) Registration_Signature_Invalid
                   | _ \<Rightarrow> [Registration_Signature_Invalid]))
          | _ \<Rightarrow> [Registration_Signature_Missing])
      | _ \<Rightarrow> [Registration_Root_Unconfigured])"

section \<open>Verification\<close>

definition credential_kind :: "(pystr, json) dict \<Rightarrow> pystr" where
  "credential_kind r =
     (if \<not> has_key r (lit ''credential_kind'') then kind_piv
      else case get r (lit ''credential_kind'') of JStr s \<Rightarrow> s | _ \<Rightarrow> [])"

text \<open>The errors of the verification; the record is valid if there are none.\<close>

definition verify_credential_registration ::
  "crypto \<Rightarrow> interp \<Rightarrow> json \<Rightarrow> json \<Rightarrow> pystr \<Rightarrow> pystr \<Rightarrow> exc + registration_fault list" where
  "verify_credential_registration K I registration public_keys root public_key =
     (case as_obj registration of
        None \<Rightarrow> Inr [Not_An_Object]
      | Some r \<Rightarrow>
          (case as_obj public_keys of
             None \<Rightarrow> Inr [Roots_Not_An_Object]
           | Some ks \<Rightarrow>
               bnd (check_ceremony K I r (credential_kind r)) (\<lambda>ceremony.
               Inr (check_credential_binding r root public_key (credential_kind r) @ ceremony
                 @ check_registered_at r @ check_registration_signature K I r ks))))"

definition verify_enforcement_point_registration ::
  "crypto \<Rightarrow> interp \<Rightarrow> json \<Rightarrow> json \<Rightarrow> exc + enforcement_point_identity" where
  "verify_enforcement_point_registration K I record public_keys =
     bnd (expect ValueError (as_obj record)) (\<lambda>r.
     ensure (as_obj public_keys \<noteq> None) ValueError
     (ensure (get r (lit ''credential_kind'') = JStr kind_enforcement_point) ValueError
     (ensure (nonempty_str (get r (lit ''ledger_id'')) \<and> nonempty_str (get r (lit ''trust_root_id''))
        \<and> nonempty_str (get r (lit ''public_key''))) ValueError
     (let ledger = the (as_str (get r (lit ''ledger_id''))); root = the (as_str (get r (lit ''trust_root_id'')));
          key = the (as_str (get r (lit ''public_key'')))
      in bnd (verify_credential_registration K I (JObj r) public_keys root key) (\<lambda>faults.
         ensure (faults = []) ValueError
         (bnd (expect KeyError (map_of r (lit ''enforcement_point_id''))) (\<lambda>ident.
          Inr \<lparr>ep_id = py_str I ident, ep_ledger_id = ledger, ep_root = root, ep_public_key = key\<rparr>)))))))"

definition registered_after :: "(pystr, json) dict \<Rightarrow> instant \<Rightarrow> exc + bool" where
  "registered_after r moment =
     bnd (aware_moment (get r (lit ''registered_at''))) (\<lambda>t. Inr (t > moment))"

datatype registration_refusal =
    Trust_Roots_Invalid | Registration_Missing | Registration_Roots_Missing
  | Registration_Invalid "registration_fault list" | Registration_Postdates_Use

definition credential_registration_error ::
  "crypto \<Rightarrow> interp \<Rightarrow> json \<Rightarrow> pystr \<Rightarrow> json \<Rightarrow> instant option \<Rightarrow> exc + registration_refusal option" where
  "credential_registration_error K I roots root public_keys at =
     (case roots of
        JObj rs \<Rightarrow>
          (case get rs root of
             JObj record \<Rightarrow>
               if get record (lit ''scheme'') \<noteq> JStr (lit ''p256'') then Inr None
               else (case (get record (lit ''registration''), get record (lit ''public_key'')) of
                 (JObj r, JStr public_key) \<Rightarrow>
                   if \<not> truthy public_keys then Inr (Some Registration_Roots_Missing)
                   else bnd (verify_credential_registration K I (JObj r) public_keys root public_key) (\<lambda>faults.
                     if faults \<noteq> [] then Inr (Some (Registration_Invalid faults))
                     else case at of
                       None \<Rightarrow> Inr None
                     | Some moment \<Rightarrow> bnd (registered_after r moment) (\<lambda>late.
                         Inr (if late then Some Registration_Postdates_Use else None)))
               | _ \<Rightarrow> Inr (Some Registration_Missing))
           | _ \<Rightarrow> Inr None)
      | _ \<Rightarrow> Inr (Some Trust_Roots_Invalid))"

definition require_registered_credential ::
  "crypto \<Rightarrow> interp \<Rightarrow> json \<Rightarrow> pystr \<Rightarrow> json \<Rightarrow> instant option \<Rightarrow> exc + unit" where
  "require_registered_credential K I roots root public_keys at =
     bnd (credential_registration_error K I roots root public_keys at) (\<lambda>err.
     ensure (err = None) ValueError (Inr ()))"

section \<open>What a message covers\<close>

lemma of_nat_byte_inj: "\<forall>c \<in> set s. c < 256 \<Longrightarrow> \<forall>c \<in> set t. c < 256 \<Longrightarrow>
    (map of_nat s :: pybytes) = map of_nat t \<Longrightarrow> s = t"
proof -
  have u: "map unat (map of_nat s :: pybytes) = s" if "\<forall>c \<in> set s. c < 256" for s
    using that by (induction s) (auto simp: unat_of_nat)
  show "\<forall>c \<in> set s. c < 256 \<Longrightarrow> \<forall>c \<in> set t. c < 256 \<Longrightarrow>
    (map of_nat s :: pybytes) = map of_nat t \<Longrightarrow> s = t"
    using u [of s] u [of t] by metis
qed

lemma ascii_bytes: "is_ascii s \<Longrightarrow> \<forall>c \<in> set s. c < 256"
  by (auto simp: is_ascii_def list_all_iff)

lemma context_message_Inr:
  "context_message I a d = Inr m \<longleftrightarrow>
    (\<exists>body. canonical_json_bytes I (JObj d) = Inr body \<and> m = map of_nat (a @ 46 # b64url_encode body))"
  by (auto simp: context_message_def raise_simps)

lemma context_message_equiv:
  assumes "context_message I a d = Inr m" "context_message I b e = Inr m" "is_ascii a" "is_ascii b"
    and "json_ok (JObj d)" "json_ok (JObj e)" "float_codec I (JObj d)" "float_codec I (JObj e)"
  shows "a = b \<and> json_equiv (JObj d) (JObj e)"
proof -
  obtain p q where p: "canonical_json_bytes I (JObj d) = Inr p" "m = map of_nat (a @ 46 # b64url_encode p)"
    and q: "canonical_json_bytes I (JObj e) = Inr q" "m = map of_nat (b @ 46 # b64url_encode q)"
    using assms(1,2) unfolding context_message_Inr by blast
  have "is_ascii (a @ 46 # b64url_encode p)" "is_ascii (b @ 46 # b64url_encode q)"
    using assms(3,4) b64url_ascii by simp_all
  then have "a @ 46 # b64url_encode p = b @ 46 # b64url_encode q"
    using of_nat_byte_inj ascii_bytes p(2) q(2) by metis
  then have "rev (b64url_encode p) @ 46 # rev a = rev (b64url_encode q) @ 46 # rev b"
    by (metis append_assoc append_Cons append_Nil rev.simps(2) rev_append)
  then have "b64url_encode p = b64url_encode q" "a = b"
    using split_unique [of 46 "rev (b64url_encode p)" "rev (b64url_encode q)" "rev a" "rev b"] b64url_no_dot by auto
  then have "p = q" using b64url_roundtrip by (metis option.inject)
  then show ?thesis
    using canonical_equiv(2) p(1) q(1) assms(5-8) \<open>a = b\<close> by blast
qed

text \<open>
  The bytes a registrar or a device signs determine the purpose and every field of the record:
  no signature of a registration, a possession proof or an enforcement point stands for another
  purpose or another record.
\<close>

theorem context_message_binds:
  assumes "context_message I a d = Inr m" "context_message I b e = Inr m" "is_ascii a" "is_ascii b"
    and "json_ok (JObj d)" "json_ok (JObj e)" "float_codec I (JObj d)" "float_codec I (JObj e)"
  shows "a = b \<and> json_equiv (JObj d) (JObj e)"
  using assms by (rule context_message_equiv)

theorem context_message_binds_witness:
  "\<exists>m. context_message demo_interp registration_context [(lit ''a'', JNull)] = Inr m
    \<and> json_equiv (JObj [(lit ''a'', JNull)]) (JObj [(lit ''a'', JNull)])"
proof -
  let ?d = "[(lit ''a'', JNull)]"
  have ok: "json_ok (JObj ?d)" "float_codec demo_interp (JObj ?d)"
    by (simp_all add: dict_ok_def ascii_scalar_text is_ascii_lit float_codec_def)
  obtain m where m: "context_message demo_interp registration_context ?d = Inr m"
    unfolding context_message_Inr canonical_json_bytes_Inr by (auto)
  moreover have "is_ascii registration_context" by (simp add: registration_context_def is_ascii_lit)
  ultimately show ?thesis
    using context_message_binds [OF m m _ _ ok(1) ok(1) ok(2) ok(2)] by blast
qed

section \<open>Registered credentials\<close>

lemma fault_if_Nil [simp]: "fault_if b f = [] \<longleftrightarrow> \<not> b" "[] = fault_if b f \<longleftrightarrow> \<not> b"
  by (simp_all add: fault_if_def)

text \<open>The registrar's signature over the record, under a configured enrolment root.\<close>

definition countersigned :: "crypto \<Rightarrow> interp \<Rightarrow> (pystr, json) dict \<Rightarrow> (pystr, json) dict \<Rightarrow> bool" where
  "countersigned K I r public_keys \<longleftrightarrow>
     (\<exists>root hex key sig raw m. get r (lit ''registration_root_id'') = JStr root \<and> get public_keys root = JStr hex
        \<and> hex \<noteq> [] \<and> from_hex hex = Some key \<and> get r k_registration_signature = JStr sig
        \<and> starts_with sig ed25519_prefix \<and> b64decode True (drop (length ed25519_prefix) sig) = Some raw
        \<and> registration_signed_bytes I r = Inr m \<and> ed25519_verify K key raw m)"

definition binds_credential :: "(pystr, json) dict \<Rightarrow> pystr \<Rightarrow> pystr \<Rightarrow> bool" where
  "binds_credential r root public_key \<longleftrightarrow>
     get r (lit ''schema_version'') = JStr (lit ''1'') \<and> get r (lit ''trust_root_id'') = JStr root
     \<and> get r (lit ''public_key'') = JStr public_key
     \<and> get r (lit ''scheme'') = JStr (if credential_kind r = kind_enforcement_point then lit ''ed25519'' else lit ''p256'')"

text \<open>What each kind of credential shows of its ceremony, beside the registrar's word.\<close>

definition holds_possession :: "crypto \<Rightarrow> interp \<Rightarrow> (pystr, json) dict \<Rightarrow> bool" where
  "holds_possession K I r \<longleftrightarrow>
     (\<exists>proof hex sig key point m. get r k_possession = JStr proof \<and> b64decode True proof = Some sig
        \<and> get r (lit ''public_key'') = JStr hex \<and> from_hex hex = Some key \<and> p256_point K key = Some point
        \<and> possession_message I r = Inr m \<and> p256_verify K point sig (sha256_raw K m))"

definition point_holds_possession :: "crypto \<Rightarrow> interp \<Rightarrow> (pystr, json) dict \<Rightarrow> bool" where
  "point_holds_possession K I r \<longleftrightarrow>
     (\<exists>proof hex sig key m. get r k_possession = JStr proof \<and> b64decode True proof = Some sig
        \<and> get r (lit ''public_key'') = JStr hex \<and> from_hex hex = Some key
        \<and> enforcement_point_possession_message I r = Inr m \<and> ed25519_verify K key sig m)"

lemma possession_iff:
  "possession_proof_holds K I r \<longleftrightarrow> holds_possession K I r"
  "ed25519_possession_proof_holds K I r \<longleftrightarrow> point_holds_possession K I r"
  by (auto simp: possession_proof_holds_def holds_possession_def ed25519_possession_proof_holds_def
      point_holds_possession_def split: json.splits option.splits sum.splits)

lemma countersigned_iff: "check_registration_signature K I r ks = [] \<longleftrightarrow> countersigned K I r ks"
  by (auto simp: check_registration_signature_def countersigned_def split: json.splits option.splits sum.splits if_splits)

lemma credential_binding_iff: "check_credential_binding r root key (credential_kind r) = [] \<longleftrightarrow> binds_credential r root key"
  by (auto simp: check_credential_binding_def binds_credential_def Let_def)

definition registered_moment :: "(pystr, json) dict \<Rightarrow> bool" where
  "registered_moment r \<longleftrightarrow> (\<exists>s wall off. get r (lit ''registered_at'') = JStr s \<and> s \<noteq> []
     \<and> fromisoformat (replace_z s) = Some (wall, Some off))"

lemma registered_iff: "check_registered_at r = [] \<longleftrightarrow> registered_moment r"
  by (auto simp: check_registered_at_def registered_moment_def split: json.splits option.splits prod.splits)

definition ceremony_shown :: "crypto \<Rightarrow> interp \<Rightarrow> (pystr, json) dict \<Rightarrow> bool" where
  "ceremony_shown K I r \<longleftrightarrow>
     credential_kind r = kind_piv \<and> check_piv_ceremony r = []
     \<or> credential_kind r = kind_secure_enclave \<and> access_control_ok (get r (lit ''access_control''))
       \<and> holds_possession K I r \<and> check_secure_enclave_ceremony K I r = []
     \<or> credential_kind r = kind_workload \<and> fingerprint_matches I r
       \<and> holds_possession K I r \<and> check_workload_ceremony K I r = []
     \<or> credential_kind r = kind_enforcement_point \<and> point_holds_possession K I r
       \<and> (\<exists>ledger root key ident. get r (lit ''ledger_id'') = JStr ledger \<and> get r (lit ''trust_root_id'') = JStr root
            \<and> get r (lit ''public_key'') = JStr key \<and> derive_enforcement_point_id I ledger root key = Inr ident
            \<and> get r (lit ''enforcement_point_id'') = JStr ident)"

lemma kinds_distinct [simp]:
  "kind_piv \<noteq> kind_secure_enclave" "kind_piv \<noteq> kind_enforcement_point" "kind_piv \<noteq> kind_workload"
  "kind_secure_enclave \<noteq> kind_enforcement_point" "kind_secure_enclave \<noteq> kind_workload"
  "kind_enforcement_point \<noteq> kind_workload" "kind_secure_enclave \<noteq> kind_piv" "kind_enforcement_point \<noteq> kind_piv"
  "kind_workload \<noteq> kind_piv" "kind_enforcement_point \<noteq> kind_secure_enclave" "kind_workload \<noteq> kind_secure_enclave"
  "kind_workload \<noteq> kind_enforcement_point"
  by (simp_all add: kind_piv_def kind_secure_enclave_def kind_workload_def kind_enforcement_point_def)

lemma point_ceremony:
  assumes "get r (lit ''trust_root_id'') = JStr root" "root \<noteq> []"
  shows "check_enforcement_point_ceremony K I r = Inr [] \<longleftrightarrow>
    point_holds_possession K I r
       \<and> (\<exists>ledger key ident. get r (lit ''ledger_id'') = JStr ledger
            \<and> get r (lit ''public_key'') = JStr key \<and> derive_enforcement_point_id I ledger root key = Inr ident
            \<and> get r (lit ''enforcement_point_id'') = JStr ident)"
  using assms
  by (auto simp: check_enforcement_point_ceremony_def Let_def possession_iff nonempty_str_def raise_simps
      derive_enforcement_point_id_def split: json.splits)


lemma ceremony_iff:
  assumes "get r (lit ''trust_root_id'') = JStr root" "root \<noteq> []"
  shows "check_ceremony K I r (credential_kind r) = Inr [] \<longleftrightarrow> ceremony_shown K I r"
proof -
  have "check_secure_enclave_ceremony K I r = [] \<Longrightarrow>
      access_control_ok (get r (lit ''access_control'')) \<and> holds_possession K I r"
    by (simp add: check_secure_enclave_ceremony_def possession_iff)
  moreover have "check_workload_ceremony K I r = [] \<Longrightarrow> fingerprint_matches I r \<and> holds_possession K I r"
    by (simp add: check_workload_ceremony_def possession_iff)
  ultimately show ?thesis
    unfolding check_ceremony_def ceremony_shown_def using point_ceremony [OF assms, of K I] assms(1) by auto
qed

lemma registration_valid_iff:
  assumes "root \<noteq> []"
  shows "verify_credential_registration K I (JObj r) (JObj ks) root key = Inr [] \<longleftrightarrow>
    binds_credential r root key \<and> ceremony_shown K I r \<and> registered_moment r \<and> countersigned K I r ks"
proof (cases "get r (lit ''trust_root_id'') = JStr root")
  case True
  show ?thesis
    unfolding verify_credential_registration_def
    using ceremony_iff [OF True assms, of K I]
    by (auto simp: raise_simps credential_binding_iff registered_iff countersigned_iff)
next
  case False
  then have "\<not> binds_credential r root key" by (simp add: binds_credential_def)
  then show ?thesis
    unfolding verify_credential_registration_def by (auto simp: raise_simps credential_binding_iff)
qed

lemma fromisoformat_empty [simp]: "fromisoformat (replace_z []) = None"
  by (simp add: replace_z_def fromisoformat_def sanitize_def)

lemma aware_moment_Inr: "aware_moment v = Inr t \<longleftrightarrow>
    (\<exists>s wall off. v = JStr s \<and> fromisoformat (replace_z s) = Some (wall, Some off) \<and> to_utc wall off = Inr t)"
  by (cases v) (auto simp: aware_moment_def split: option.splits prod.splits)

text \<open>
  A credential under a named root is accepted at a moment exactly if its root is not a P-256 root, or
  the root's record binds its identifier and key, shows the ceremony of its kind, is countersigned
  under a configured enrolment root and was enrolled no later than that moment.
\<close>

theorem registered_credential_iff:
  assumes "root \<noteq> []"
  shows "credential_registration_error K I (JObj rs) root keys_v (Some t) = Inr None \<longleftrightarrow>
    (\<nexists>d. get rs root = JObj d \<and> get d (lit ''scheme'') = JStr (lit ''p256''))
     \<or> (\<exists>d r key ks moment. get rs root = JObj d \<and> get d (lit ''scheme'') = JStr (lit ''p256'')
          \<and> get d (lit ''registration'') = JObj r \<and> get d (lit ''public_key'') = JStr key \<and> keys_v = JObj ks
          \<and> binds_credential r root key \<and> ceremony_shown K I r \<and> countersigned K I r ks
          \<and> aware_moment (get r (lit ''registered_at'')) = Inr moment \<and> moment \<le> t)"
proof (cases "\<exists>d r key. get rs root = JObj d \<and> get d (lit ''scheme'') = JStr (lit ''p256'')
    \<and> get d (lit ''registration'') = JObj r \<and> get d (lit ''public_key'') = JStr key")
  case True
  then obtain d r key where d: "get rs root = JObj d" "get d (lit ''scheme'') = JStr (lit ''p256'')"
      "get d (lit ''registration'') = JObj r" "get d (lit ''public_key'') = JStr key" by blast
  have m: "aware_moment (get r (lit ''registered_at'')) = Inr u \<Longrightarrow> registered_moment r" for u
    unfolding aware_moment_Inr registered_moment_def using fromisoformat_empty by fastforce
  have c: "countersigned K I r ks \<Longrightarrow> ks \<noteq> []" for ks
    by (auto simp: countersigned_def)
  show ?thesis
  proof (cases keys_v)
    case (JObj ks)
    then show ?thesis
      using d registration_valid_iff [OF assms, of K I r ks key] m c
      by (auto simp: credential_registration_error_def raise_simps registered_after_def)
  qed (use d in \<open>auto simp: credential_registration_error_def raise_simps verify_credential_registration_def\<close>)
next
  case False
  then show ?thesis
    by (auto simp: credential_registration_error_def split: json.splits)
qed

text \<open>A PIV key enrolled under the root \<open>r\<close>, and its record's acceptance.\<close>

definition demo_registration :: "(pystr, json) dict" where
  "demo_registration =
     [(lit ''schema_version'', JStr (lit ''1'')), (lit ''trust_root_id'', JStr (lit ''r'')),
      (lit ''scheme'', JStr (lit ''p256'')), (lit ''public_key'', JStr (lit ''04'')),
      (lit ''piv_slot'', JStr (lit ''9c'')), (lit ''key_origin'', JStr (lit ''on_device_generated'')),
      (lit ''pin_policy'', JStr (lit ''always'')), (lit ''touch_policy'', JStr (lit ''always'')),
      (lit ''firmware_version'', JStr (lit ''5.4.3'')), (lit ''attestation_certificate'', JStr (lit ''c'')),
      (lit ''attestation_chain'', JList [JStr (lit ''a'')]), (lit ''registered_at'', JStr (isoformat 0)),
      (lit ''registration_root_id'', JStr (lit ''o'')), (lit ''registration_signature'', JStr (lit ''ed25519:''))]"

definition demo_registered_roots :: "(pystr, json) dict" where
  "demo_registered_roots =
     [(lit ''r'', JObj [(lit ''scheme'', JStr (lit ''p256'')), (lit ''public_key'', JStr (lit ''04'')),
        (lit ''registration'', JObj demo_registration)])]"

lemma demo_digits: "digit_of 53 = Some 5" "digit_of 52 = Some 4" "digit_of 51 = Some 3"
  by (simp_all add: digit_of_def digit_zeros_def)

lemma demo_firmware: "firmware_sufficient (JStr (lit ''5.4.3''))"
  by (simp add: firmware_sufficient_def firmware_tuple_def lit_def int_of_text_def strip_by_def int_space_def py_space_def
      starts_with_iff demo_digits max_str_digits_def)

lemma demo_get [simp]:
  "get demo_registration (lit ''schema_version'') = JStr (lit ''1'')"
  "get demo_registration (lit ''trust_root_id'') = JStr (lit ''r'')"
  "get demo_registration (lit ''scheme'') = JStr (lit ''p256'')"
  "get demo_registration (lit ''public_key'') = JStr (lit ''04'')"
  "get demo_registration (lit ''registered_at'') = JStr (isoformat 0)"
  "get demo_registration (lit ''registration_root_id'') = JStr (lit ''o'')"
  "get demo_registration (lit ''registration_signature'') = JStr (lit ''ed25519:'')"
  "has_key demo_registration (lit ''credential_kind'') = False"
  by (simp_all add: demo_registration_def)

lemma demo_countersigned: "countersigned demo_crypto demo_interp demo_registration [(lit ''o'', JStr (lit ''00''))]"
proof -
  have "printable (JObj (unsigned_record demo_registration))"
    by (simp add: demo_registration_def unsigned_record_def dict_del_def k_registration_signature_def)
  then obtain m where m: "registration_signed_bytes demo_interp demo_registration = Inr m"
    unfolding registration_signed_bytes_def context_message_Inr canonical_json_bytes_Inr by blast
  have s: "starts_with (lit ''ed25519:'') ed25519_prefix" "drop (length ed25519_prefix) (lit ''ed25519:'') = []"
    by (simp_all add: ed25519_prefix_def starts_with_iff)
  have b: "b64decode True [] = Some []" "from_hex (lit ''00'') = Some [0]"
    by (simp_all add: b64decode_def lit_def hex_value_def hex_space_def)
  show ?thesis
    unfolding countersigned_def k_registration_signature_def
    using m by (intro exI [of _ "lit ''o''"] exI [of _ "lit ''00''"] exI [of _ "[0]"] exI [of _ "lit ''ed25519:''"]
        exI [of _ "[]"] exI [of _ m]) (simp add: s b demo_crypto_def)
qed

theorem registered_credential_iff_witness:
  "credential_registration_error demo_crypto demo_interp (JObj demo_registered_roots) (lit ''r'')
     (JObj [(lit ''o'', JStr (lit ''00''))]) (Some 0) = Inr None"
proof -
  have kind: "credential_kind demo_registration = kind_piv" by (simp add: credential_kind_def)
  have "check_piv_ceremony demo_registration = []"
    using demo_firmware by (simp add: check_piv_ceremony_def demo_registration_def nonempty_str_def chain_stated_def)
  then have c: "ceremony_shown demo_crypto demo_interp demo_registration" by (simp add: ceremony_shown_def kind)
  have b: "binds_credential demo_registration (lit ''r'') (lit ''04'')"
    by (simp add: binds_credential_def kind)
  have t: "aware_moment (JStr (isoformat 0)) = Inr 0"
    by (rule aware_moment_isoformat) (simp_all add: max_instant_def day_us_def)
  show ?thesis
    by (rule iffD2 [OF registered_credential_iff], simp, rule disjI2)
      (auto simp: demo_registered_roots_def b c demo_countersigned t)
qed

text \<open>The record of an enforcement point that states an identity.\<close>

definition states_point ::
  "crypto \<Rightarrow> interp \<Rightarrow> (pystr, json) dict \<Rightarrow> (pystr, json) dict \<Rightarrow> enforcement_point_identity \<Rightarrow> bool" where
  "states_point K I r ks p \<longleftrightarrow>
     get r (lit ''credential_kind'') = JStr kind_enforcement_point
     \<and> get r (lit ''ledger_id'') = JStr (ep_ledger_id p) \<and> get r (lit ''trust_root_id'') = JStr (ep_root p)
     \<and> get r (lit ''public_key'') = JStr (ep_public_key p) \<and> get r (lit ''enforcement_point_id'') = JStr (ep_id p)
     \<and> derive_enforcement_point_id I (ep_ledger_id p) (ep_root p) (ep_public_key p) = Inr (ep_id p)
     \<and> binds_credential r (ep_root p) (ep_public_key p) \<and> point_holds_possession K I r \<and> registered_moment r
     \<and> countersigned K I r ks"

lemma point_kind: "get r (lit ''credential_kind'') = JStr kind_enforcement_point \<Longrightarrow> credential_kind r = kind_enforcement_point"
  using get_not_null [of r "lit ''credential_kind''"] by (simp add: credential_kind_def)

lemma point_shown:
  assumes "get r (lit ''credential_kind'') = JStr kind_enforcement_point" "get r (lit ''ledger_id'') = JStr l"
    "get r (lit ''trust_root_id'') = JStr t" "get r (lit ''public_key'') = JStr k"
  shows "ceremony_shown K I r \<longleftrightarrow> point_holds_possession K I r
    \<and> (\<exists>ident. derive_enforcement_point_id I l t k = Inr ident \<and> get r (lit ''enforcement_point_id'') = JStr ident)"
  using assms point_kind [OF assms(1)] by (simp add: ceremony_shown_def)

lemma get_str_present: "get r k = JStr s \<Longrightarrow> map_of r k = Some (JStr s)"
  by (auto simp: get_def split: option.splits)

text \<open>
  An enforcement point is identified exactly by a countersigned record of its kind whose stated
  id is the one its ledger, trust root and key derive, and whose key proved possession.
\<close>

theorem enforcement_point_iff:
  "verify_enforcement_point_registration K I record_v keys_v = Inr p \<longleftrightarrow>
    (\<exists>r ks. record_v = JObj r \<and> keys_v = JObj ks \<and> states_point K I r ks p)"
proof
  assume "verify_enforcement_point_registration K I record_v keys_v = Inr p"
  then obtain r ks l t k j where v: "record_v = JObj r" "keys_v = JObj ks"
      "get r (lit ''credential_kind'') = JStr kind_enforcement_point" "l \<noteq> []" "t \<noteq> []" "k \<noteq> []"
      "get r (lit ''ledger_id'') = JStr l" "get r (lit ''trust_root_id'') = JStr t" "get r (lit ''public_key'') = JStr k"
      "verify_credential_registration K I (JObj r) (JObj ks) t k = Inr []"
      "map_of r (lit ''enforcement_point_id'') = Some j"
      "p = \<lparr>ep_id = py_str I j, ep_ledger_id = l, ep_root = t, ep_public_key = k\<rparr>"
    by (auto simp: verify_enforcement_point_registration_def raise_simps nonempty_str_iff)
  then obtain ident where "point_holds_possession K I r" "derive_enforcement_point_id I l t k = Inr ident"
      "get r (lit ''enforcement_point_id'') = JStr ident" "binds_credential r t k" "registered_moment r" "countersigned K I r ks"
    using registration_valid_iff [OF v(5)] point_shown [OF v(3,7-9)] by blast
  moreover from this v(11) have "py_str I j = ident" by (simp add: get_def py_str_def)
  ultimately show "\<exists>r ks. record_v = JObj r \<and> keys_v = JObj ks \<and> states_point K I r ks p"
    using v by (simp add: states_point_def)
next
  assume "\<exists>r ks. record_v = JObj r \<and> keys_v = JObj ks \<and> states_point K I r ks p"
  then obtain r ks where v: "record_v = JObj r" "keys_v = JObj ks" and s: "states_point K I r ks p" by blast
  have ne: "ep_ledger_id p \<noteq> []" "ep_root p \<noteq> []" "ep_public_key p \<noteq> []"
    using s by (auto simp: states_point_def derive_enforcement_point_id_def raise_simps)
  have "verify_credential_registration K I (JObj r) (JObj ks) (ep_root p) (ep_public_key p) = Inr []"
    unfolding registration_valid_iff [OF ne(2)] using s point_shown [of r] by (auto simp: states_point_def)
  then show "verify_enforcement_point_registration K I record_v keys_v = Inr p"
    using s ne get_str_present [of r "lit ''enforcement_point_id''" "ep_id p"]
    by (simp add: verify_enforcement_point_registration_def states_point_def v nonempty_str_def py_str_def)
qed

end
