(* ===== verification/Ratification_Bundle.thy ===== *)
theory Ratification_Bundle
  imports Ratification Credential_Registration
begin

text \<open>
  The module \<open>ratification_bundle.py\<close>: the check of a directory that holds an authority entry, its
  ratification and the issued grant, against the caller's trust roots.
\<close>

section \<open>Bundles\<close>

text \<open>
  A bundle answers for each name: no such file, one that cannot be read, a value that is not bytes
  (in a mapping), or its bytes. The parts are read once each and do not change meanwhile.
\<close>

datatype bundle_file = Absent | Unreadable | Not_Bytes | Contents pybytes

type_synonym bundle_source = "pystr \<Rightarrow> bundle_file"

definition max_bundle_file_bytes :: nat where
  "max_bundle_file_bytes = 1048576"

definition max_json_items :: nat where
  "max_json_items = 10000"

definition ratifier_parent_file :: "nat \<Rightarrow> pystr" where
  "ratifier_parent_file i = lit ''ratifier-parent-'' @ dec_digits i @ lit ''.slip''"

definition status_file :: "nat \<Rightarrow> pystr" where
  "status_file i = lit ''status-'' @ dec_digits i @ lit ''.json''"

definition has_file :: "bundle_source \<Rightarrow> pystr \<Rightarrow> bool" where
  "has_file b name \<longleftrightarrow> b name \<noteq> Absent"

text \<open>Every caller treats the \<open>OSError\<close> and the \<open>ValueError\<close> of a read alike: \<open>None\<close>.\<close>

definition read_bundle_bytes :: "bundle_source \<Rightarrow> pystr \<Rightarrow> pybytes option" where
  "read_bundle_bytes b name =
     (case b name of Contents bs \<Rightarrow> if length bs > max_bundle_file_bytes then None else Some bs | _ \<Rightarrow> None)"

definition read_bundle_text :: "bundle_source \<Rightarrow> pystr \<Rightarrow> pystr option" where
  "read_bundle_text b name = (case read_bundle_bytes b name of None \<Rightarrow> None | Some bs \<Rightarrow> utf8_decode bs)"

text \<open>The remaining budget after a value and all its parts, keys included; \<open>None\<close> where it is spent.\<close>

function check_json_items :: "json \<Rightarrow> nat \<Rightarrow> nat option"
  and check_json_list :: "json list \<Rightarrow> nat \<Rightarrow> nat option"
  and check_json_members :: "(pystr \<times> json) list \<Rightarrow> nat \<Rightarrow> nat option" where
  "check_json_items v 0 = None"
| "check_json_items v (Suc n) =
     (case v of JObj kvs \<Rightarrow> check_json_members kvs n | JList vs \<Rightarrow> check_json_list vs n | _ \<Rightarrow> Some n)"
| "check_json_list [] n = Some n"
| "check_json_list (v # vs) n = (case check_json_items v n of None \<Rightarrow> None | Some m \<Rightarrow> check_json_list vs m)"
| "check_json_members [] n = Some n"
| "check_json_members ((k, v) # kvs) n =
     (if n = 0 then None
      else case check_json_items v (n - 1) of None \<Rightarrow> None | Some m \<Rightarrow> check_json_members kvs m)"
  by pat_completeness auto
termination
  by (relation "measure (case_sum (\<lambda>(v, n). size v) (case_sum (\<lambda>(vs, n). size_list size vs)
        (\<lambda>(kvs, n). size_list (size_prod (\<lambda>_. 0) size) kvs)))") auto

definition strict_json_bytes :: "interp \<Rightarrow> pybytes \<Rightarrow> json option" where
  "strict_json_bytes I raw =
     (case utf8_decode raw of None \<Rightarrow> None
      | Some t \<Rightarrow> (case strict_json_loads I t of
          Inl _ \<Rightarrow> None
        | Inr v \<Rightarrow> if check_json_items v max_json_items = None then None else Some v))"

definition read_bundle_json :: "interp \<Rightarrow> bundle_source \<Rightarrow> pystr \<Rightarrow> json option" where
  "read_bundle_json I b name = (case read_bundle_bytes b name of None \<Rightarrow> None | Some bs \<Rightarrow> strict_json_bytes I bs)"

definition bundle_public_key :: "trust_roots \<Rightarrow> pystr option \<Rightarrow> pybytes option" where
  "bundle_public_key roots root =
     (case root of None \<Rightarrow> None | Some r \<Rightarrow>
        if r = [] then None
        else case (case get roots r of
            JObj d \<Rightarrow> if get d (lit ''scheme'') \<in> {JNull, JStr (lit ''ed25519'')} then get d (lit ''public_key'') else JNull
          | v \<Rightarrow> v) of
          JStr s \<Rightarrow> (case from_hex s of None \<Rightarrow> None | Some key \<Rightarrow> if length key = 32 then Some key else None)
        | _ \<Rightarrow> None)"

definition verified_slip_claims :: "interp \<Rightarrow> pystr \<Rightarrow> (pystr, json) dict option" where
  "verified_slip_claims I token =
     (case b64url_decode (takeWhile (\<lambda>c. c \<noteq> 46) token) of None \<Rightarrow> None
      | Some raw \<Rightarrow> if length raw > max_bundle_file_bytes then None
          else (case strict_json_bytes I raw of Some (JObj d) \<Rightarrow> Some d | _ \<Rightarrow> None))"

section \<open>Checks\<close>

text \<open>One constructor per failure text; the texts of passed checks are left out.\<close>

datatype bundle_fault =
    Not_Checked
  | Roots_Unreadable | Roots_Not_Canonical | Roots_Differ
  | Ratification_Unreadable | Ratification_Unverified
  | Registration_Refused registration_refusal
  | Entry_Unreadable | Entry_Refused | Entry_Hash_Differs | Entry_Identity_Differs | Entry_Issuer_Differs
  | Entry_Effective_Differs
  | Candidate_Unreadable | Candidate_Not_Rebuilt | Candidate_Bytes_Differ | Candidate_Hash_Differs
  | Ratifier_Unreadable | Ratifier_Unverified | Chain_Over_Limit | Contract_Broken contract_fault
  | Parent_Unreadable nat | Chain_Invalid "chain_refusal option" | Chain_Depth_Exceeded
  | Ratifier_Not_Named | Ratifier_Key_Not_Subject | Leaf_Hash_Differs | Parents_Hash_Differs
  | Ratifier_Lacks_Delegate | Candidate_Widens reach_axis | Ratifier_Is_Subject | Issuer_Is_Ratifier
  | Status_Count_Differs | Status_Unreadable nat | Status_Names_Other nat | Status_Unbound | Status_Malformed
  | Status_Hash_Differs | Status_Revoked | Status_Not_Verifiable | Status_No_Freshness | Status_No_Root
  | Status_Attestation_Invalid | Status_Not_Covering | Epoch_Regressed pystr | Roots_Overlap
  | Grant_Unreadable | Grant_Unverified | Grant_Other_Issuer | Grant_Other_Entry | Grant_Other_Ratification
  | Grant_Not_Canonical | Grant_Beyond_Candidate

datatype bundle_check = Pass | Fail bundle_fault

definition check_ok :: "bundle_check \<Rightarrow> bool" where
  "check_ok c \<longleftrightarrow> c = Pass"

record bundle_verification =
  v_trust_roots :: bundle_check
  v_ratification :: bundle_check
  v_registration :: bundle_check
  v_entry :: bundle_check
  v_candidate :: bundle_check
  v_chain :: bundle_check
  v_status :: bundle_check
  v_grant :: bundle_check

definition checks :: "bundle_verification \<Rightarrow> (pystr \<times> bundle_check) list" where
  "checks v = [(lit ''trust_roots'', v_trust_roots v), (lit ''ratification'', v_ratification v),
     (lit ''ratifier_registration'', v_registration v), (lit ''entry'', v_entry v), (lit ''candidate'', v_candidate v),
     (lit ''ratifier_chain'', v_chain v), (lit ''status_evidence'', v_status v), (lit ''grant'', v_grant v)]"

definition bundle_ok :: "bundle_verification \<Rightarrow> bool" where
  "bundle_ok v \<longleftrightarrow> list_all (\<lambda>(name, c). check_ok c) (checks v)"

definition bundle_failures :: "bundle_verification \<Rightarrow> (pystr \<times> bundle_fault) list" where
  "bundle_failures v = List.map_filter (\<lambda>(name, c). case c of Pass \<Rightarrow> None | Fail f \<Rightarrow> Some (name, f)) (checks v)"

definition partial_verification :: "bundle_check list \<Rightarrow> bundle_verification" where
  "partial_verification cs =
     (let at = (\<lambda>i. if i < length cs then cs ! i else Fail Not_Checked)
      in \<lparr>v_trust_roots = at 0, v_ratification = at 1, v_registration = at 2, v_entry = at 3,
          v_candidate = at 4, v_chain = at 5, v_status = at 6, v_grant = at 7\<rparr>)"

definition check_trust_roots :: "interp \<Rightarrow> bundle_source \<Rightarrow> trust_roots \<Rightarrow> bundle_check" where
  "check_trust_roots I b roots =
     (if \<not> has_file b (lit ''trust_roots.json'') then Pass
      else case read_bundle_json I b (lit ''trust_roots.json'') of
        None \<Rightarrow> Fail Roots_Unreadable
      | Some v \<Rightarrow>
          (case (canonical_json_bytes I v, canonical_json_bytes I (JObj roots)) of
             (Inr x, Inr y) \<Rightarrow> if x \<noteq> y then Fail Roots_Differ else Pass
           | _ \<Rightarrow> Fail Roots_Not_Canonical))"

definition check_ratification ::
  "crypto \<Rightarrow> interp \<Rightarrow> bundle_source \<Rightarrow> trust_roots \<Rightarrow> exc + bundle_fault + ratification_claims" where
  "check_ratification K I b roots =
     (case read_bundle_text b (lit ''ratification.slip'') of
        None \<Rightarrow> Inr (Inl Ratification_Unreadable)
      | Some token \<Rightarrow> bnd (parse_ratification K I roots token) (\<lambda>parsed.
          Inr (expect Ratification_Unverified parsed)))"

definition check_ratifier_registration ::
  "crypto \<Rightarrow> interp \<Rightarrow> ratification_claims \<Rightarrow> trust_roots \<Rightarrow> json \<Rightarrow> exc + bundle_check" where
  "check_ratifier_registration K I c roots registration_keys =
     bnd (credential_registration_error K I (JObj roots) (rt_root c) registration_keys (Some (rt_ratified_at c))) (\<lambda>err.
     Inr (case err of None \<Rightarrow> Pass | Some e \<Rightarrow> Fail (Registration_Refused e)))"

definition check_entry ::
  "interp \<Rightarrow> bundle_source \<Rightarrow> ratification_claims \<Rightarrow> exc + bundle_fault + authority_entry" where
  "check_entry I b c =
     (case read_bundle_json I b (lit ''entry.json'') of
        None \<Rightarrow> Inr (Inl Entry_Unreadable)
      | Some v \<Rightarrow>
          (case parse_authority_entry v of
             Inl e \<Rightarrow> if e \<in> {TypeError, ValueError} then Inr (Inl Entry_Refused) else Inl e
           | Inr entry \<Rightarrow> bnd (authority_entry_hash_of I entry) (\<lambda>h. Inr (
               ensure (h = rt_entry_hash c) Entry_Hash_Differs
              (ensure (ae_id entry = rt_entry_id c \<and> ae_revision entry = rt_revision c) Entry_Identity_Differs
              (ensure (ae_issuer_trust_root_id entry = rt_issuer_root c) Entry_Issuer_Differs
              (ensure (canonical_iso (ae_effective_at entry) = canonical_iso (rt_effective_at c)) Entry_Effective_Differs
              (Inr entry))))))))"

definition check_candidate ::
  "interp \<Rightarrow> bundle_source \<Rightarrow> authority_entry \<Rightarrow> ratification_claims \<Rightarrow> exc + bundle_fault + pybytes \<times> delegation_claims" where
  "check_candidate I b entry c =
     (case read_bundle_bytes b (lit ''candidate.json'') of
        None \<Rightarrow> Inr (Inl Candidate_Unreadable)
      | Some raw \<Rightarrow>
          bnd (caught (bnd (build_candidate_core I entry (rt_attempt c)) (\<lambda>(core, core_bytes, core_hash).
             bnd (candidate_claims core) (\<lambda>candidate. Inr (candidate, core_bytes, core_hash))))) (\<lambda>built.
          Inr (bnd (expect Candidate_Not_Rebuilt built) (\<lambda>(candidate, core_bytes, core_hash).
            ensure (raw = core_bytes) Candidate_Bytes_Differ
           (ensure (core_hash = rt_core_hash c) Candidate_Hash_Differs
           (Inr (core_bytes, candidate)))))))"

definition read_parents :: "bundle_source \<Rightarrow> nat \<Rightarrow> bundle_fault + pystr list" where
  "read_parents b n = each (\<lambda>i. expect (Parent_Unreadable i) (read_bundle_text b (ratifier_parent_file i))) [0..<n]"

text \<open>The facts bound to the ratifier's grant and its verified chain, in the order they are checked.\<close>

definition check_ratifier_facts ::
  "crypto \<Rightarrow> interp \<Rightarrow> trust_roots \<Rightarrow> ratification_claims \<Rightarrow> delegation_claims \<Rightarrow> delegation_claims \<Rightarrow> chain_result
    \<Rightarrow> exc + bundle_fault + delegation_claims list" where
  "check_ratifier_facts K I roots c candidate leaf chain =
     (if \<not> chain_valid chain then Inr (Inl (Chain_Invalid (chain_reason chain)))
      else if depth_exceeded chain then Inr (Inl Chain_Depth_Exceeded)
      else if jti leaf \<noteq> rt_jti c \<or> sub leaf \<noteq> rt_sub c then Inr (Inl Ratifier_Not_Named)
      else if sub leaf \<noteq> rt_root c then Inr (Inl Ratifier_Key_Not_Subject)
      else bnd (delegation_content_hash I leaf) (\<lambda>h.
        if h \<noteq> rt_leaf_hash c then Inr (Inl Leaf_Hash_Differs)
        else bnd (parents_content_hash I (parent_claims chain)) (\<lambda>ph.
          Inr (ensure (ph = rt_parents_hash c) Parents_Hash_Differs
             (ensure (holds_right leaf (lit ''delegate'') (rt_ratified_at c)) Ratifier_Lacks_Delegate
             (case ratifier_reach_widening_axis (rt_rule_version c) candidate leaf of
                Some a \<Rightarrow> Inl (Candidate_Widens a)
              | None \<Rightarrow>
                  ensure (sub candidate \<noteq> sub leaf) Ratifier_Is_Subject
                 (ensure (distinct_keys K roots c) Issuer_Is_Ratifier
                 (Inr (leaf # parent_claims chain)))))))))"

definition check_ratifier_chain ::
  "crypto \<Rightarrow> interp \<Rightarrow> bundle_source \<Rightarrow> ratification_claims \<Rightarrow> delegation_claims \<Rightarrow> trust_roots
    \<Rightarrow> exc + bundle_fault + delegation_claims list" where
  "check_ratifier_chain K I b c candidate roots =
     (case read_bundle_text b (lit ''ratifier-leaf.slip'') of
        None \<Rightarrow> Inr (Inl Ratifier_Unreadable)
      | Some token \<Rightarrow> bnd (parse_delegation K I roots token) (\<lambda>parsed.
          case parsed of
            None \<Rightarrow> Inr (Inl Ratifier_Unverified)
          | Some leaf \<Rightarrow>
              if chain_depth leaf > int max_verification_chain_depth then Inr (Inl Chain_Over_Limit)
              else case verify_ratification_contract c candidate leaf of
                Some f \<Rightarrow> Inr (Inl (Contract_Broken f))
              | None \<Rightarrow>
                  (case read_parents b (nat (chain_depth leaf)) of
                     Inl f \<Rightarrow> Inr (Inl f)
                   | Inr tokens \<Rightarrow>
                       bnd (validate_delegation_chain (chain_at K I roots (rt_ratified_at c)) leaf tokens) (\<lambda>chain.
                       check_ratifier_facts K I roots c candidate leaf chain))))"

definition check_one_status ::
  "crypto \<Rightarrow> interp \<Rightarrow> bundle_source \<Rightarrow> trust_roots \<Rightarrow> instant \<Rightarrow> nat \<Rightarrow> pystr \<Rightarrow> pystr \<times> pystr
    \<Rightarrow> exc + bundle_fault + (pystr, json) dict" where
  "check_one_status K I b roots ratified_at i ident bound_status =
     (case read_bundle_json I b (status_file i) of
        None \<Rightarrow> Inr (Inl (Status_Unreadable i))
      | Some (JObj a) \<Rightarrow>
          if get a (lit ''jti'') \<noteq> JStr ident then Inr (Inl (Status_Names_Other i))
          else if fst bound_status \<noteq> ident then Inr (Inl Status_Unbound)
          else (case (status_from_evidence a, status_artefact_hash I a) of
            (Inr s, Inr h) \<Rightarrow>
              if h \<noteq> snd bound_status then Inr (Inl Status_Hash_Differs)
              else if is_revoked s then Inr (Inl Status_Revoked)
              else if \<not> status_verifiable s \<or> attestation s = None then Inr (Inl Status_Not_Verifiable)
              else (case freshness_bound_ms s of
                None \<Rightarrow> Inr (Inl Status_No_Freshness)
              | Some ms \<Rightarrow>
                  (case bundle_public_key roots (status_root s) of
                     None \<Rightarrow> Inr (Inl Status_No_Root)
                   | Some key \<Rightarrow>
                       if \<not> verify_revocation_attestation K I s ident key then Inr (Inl Status_Attestation_Invalid)
                       else bnd (status_horizon s ms) (\<lambda>horizon.
                         Inr (ensure (checked_at s \<le> ratified_at \<and> ratified_at \<le> horizon) Status_Not_Covering (Inr a)))))
          | _ \<Rightarrow> Inr (Inl Status_Malformed))
      | Some _ \<Rightarrow> Inr (Inl (Status_Names_Other i)))"

fun check_statuses ::
  "crypto \<Rightarrow> interp \<Rightarrow> bundle_source \<Rightarrow> trust_roots \<Rightarrow> instant \<Rightarrow> nat \<Rightarrow> (pystr \<times> pystr \<times> pystr) list
    \<Rightarrow> (pystr, json) dict list \<Rightarrow> exc + bundle_fault + (pystr, json) dict list" where
  "check_statuses K I b roots at i [] found = Inr (Inr found)"
| "check_statuses K I b roots at i ((ident, bound_status) # rest) found =
     bnd (check_one_status K I b roots at i ident bound_status) (\<lambda>r.
       case r of Inl f \<Rightarrow> Inr (Inl f) | Inr a \<Rightarrow> check_statuses K I b roots at (i + 1) rest (found @ [a]))"

definition check_status_evidence ::
  "crypto \<Rightarrow> interp \<Rightarrow> bundle_source \<Rightarrow> ratification_claims \<Rightarrow> delegation_claims list \<Rightarrow> trust_roots \<Rightarrow> exc + bundle_check" where
  "check_status_evidence K I b c grants roots =
     (if length (rt_status_hashes c) \<noteq> length grants then Inr (Fail Status_Count_Differs)
      else bnd (check_statuses K I b roots (rt_ratified_at c) 0 (zip (map jti grants) (rt_status_hashes c)) []) (\<lambda>r.
        case r of
          Inl f \<Rightarrow> Inr (Fail f)
        | Inr artefacts \<Rightarrow> bnd (epoch_regression I artefacts) (\<lambda>regressed.
            Inr (case regressed of Some j \<Rightarrow> Fail (Epoch_Regressed j) | None \<Rightarrow> Pass))))"

definition grant_core :: "interp \<Rightarrow> pystr \<Rightarrow> pybytes option" where
  "grant_core I token =
     (case verified_slip_claims I token of None \<Rightarrow> None | Some d \<Rightarrow>
        case canonical_json_bytes I (JObj (dict_del k_trust_root (dict_del k_ratification_hash d))) of
          Inl _ \<Rightarrow> None | Inr bs \<Rightarrow> Some bs)"

definition check_grant ::
  "crypto \<Rightarrow> interp \<Rightarrow> bundle_source \<Rightarrow> ratification_claims \<Rightarrow> pybytes \<Rightarrow> trust_roots \<Rightarrow> exc + bundle_check" where
  "check_grant K I b c core_bytes roots =
     (if \<not> has_file b (lit ''grant.slip'') then Inr Pass
      else case read_bundle_text b (lit ''grant.slip'') of
        None \<Rightarrow> Inr (Fail Grant_Unreadable)
      | Some token \<Rightarrow> bnd (parse_delegation K I roots token) (\<lambda>parsed.
          case parsed of
            None \<Rightarrow> Inr (Fail Grant_Unverified)
          | Some grant \<Rightarrow>
              if verified_slip_trust_root_id I token \<noteq> Some (rt_issuer_root c) then Inr (Fail Grant_Other_Issuer)
              else if authority_entry_hash grant \<noteq> Some (rt_entry_hash c) then Inr (Fail Grant_Other_Entry)
              else bnd (ratification_hash_of I c) (\<lambda>h.
                Inr (if ratification_hash grant \<noteq> Some h then Fail Grant_Other_Ratification
                  else case grant_core I token of
                    None \<Rightarrow> Fail Grant_Not_Canonical
                  | Some bs \<Rightarrow> if bs \<noteq> core_bytes then Fail Grant_Beyond_Candidate else Pass))))"

section \<open>The verification\<close>

definition bundle_keys :: "trust_roots \<Rightarrow> pybytes list" where
  "bundle_keys roots = List.map_filter (\<lambda>(root, _). bundle_public_key roots (Some root)) roots"

definition verify_ratification_bundle ::
  "crypto \<Rightarrow> interp \<Rightarrow> bundle_source \<Rightarrow> trust_roots \<Rightarrow> trust_roots \<Rightarrow> json \<Rightarrow> exc + bundle_verification" where
  "verify_ratification_bundle K I b roots revocation_roots registration_keys =
     (let independent = (set (bundle_keys roots) \<inter> set (bundle_keys revocation_roots) = {});
          roots_check = check_trust_roots I b roots
      in bnd (check_ratification K I b roots) (\<lambda>r. case r of
        Inl f \<Rightarrow> Inr (partial_verification [roots_check, Fail f])
      | Inr c \<Rightarrow> bnd (check_ratifier_registration K I c roots registration_keys) (\<lambda>registration.
        bnd (check_entry I b c) (\<lambda>r. case r of
          Inl f \<Rightarrow> Inr (partial_verification [roots_check, Pass, registration, Fail f])
        | Inr entry \<Rightarrow> bnd (check_candidate I b entry c) (\<lambda>r. case r of
            Inl f \<Rightarrow> Inr (partial_verification [roots_check, Pass, registration, Pass, Fail f])
          | Inr (core_bytes, candidate) \<Rightarrow> bnd (check_ratifier_chain K I b c candidate roots) (\<lambda>r. case r of
              Inl f \<Rightarrow> Inr (partial_verification [roots_check, Pass, registration, Pass, Pass, Fail f])
            | Inr grants \<Rightarrow>
                bnd (if independent then check_status_evidence K I b c grants revocation_roots
                     else Inr (Fail Roots_Overlap)) (\<lambda>status.
                bnd (check_grant K I b c core_bytes roots) (\<lambda>grant_check.
                Inr (partial_verification [roots_check, Pass, registration, Pass, Pass, Pass, status, grant_check])))))))))"

section \<open>The budget of JSON items\<close>

fun item_count :: "json \<Rightarrow> nat" where
  "item_count (JList vs) = Suc (sum_list (map item_count vs))"
| "item_count (JObj kvs) = Suc (sum_list (map (\<lambda>p. Suc (item_count (snd p))) kvs))"
| "item_count _ = 1"

text \<open>The threaded budget refuses exactly the values with more parts than it.\<close>

lemma check_json_items_count:
  "check_json_items v n = (if item_count v \<le> n then Some (n - item_count v) else None)"
  "check_json_list vs n = (if sum_list (map item_count vs) \<le> n then Some (n - sum_list (map item_count vs)) else None)"
  "check_json_members kvs n =
     (if sum_list (map (\<lambda>p. Suc (item_count (snd p))) kvs) \<le> n
      then Some (n - sum_list (map (\<lambda>p. Suc (item_count (snd p))) kvs)) else None)"
proof (induction v n and vs n and kvs n rule: check_json_items_check_json_list_check_json_members.induct)
  case (1 v)
  then show ?case by (cases v) simp_all
next
  case (2 v n)
  then show ?case by (cases v) simp_all
qed auto

section \<open>What a passed bundle holds\<close>

definition holds_entry :: "interp \<Rightarrow> bundle_source \<Rightarrow> ratification_claims \<Rightarrow> authority_entry \<Rightarrow> bool" where
  "holds_entry I b c e \<longleftrightarrow>
     (\<exists>v. read_bundle_json I b (lit ''entry.json'') = Some v \<and> parse_authority_entry v = Inr e)
     \<and> authority_entry_hash_of I e = Inr (rt_entry_hash c) \<and> ae_id e = rt_entry_id c \<and> ae_revision e = rt_revision c
     \<and> ae_issuer_trust_root_id e = rt_issuer_root c
     \<and> canonical_iso (ae_effective_at e) = canonical_iso (rt_effective_at c)"

definition holds_candidate ::
  "interp \<Rightarrow> bundle_source \<Rightarrow> ratification_claims \<Rightarrow> authority_entry \<Rightarrow> pybytes \<Rightarrow> delegation_claims \<Rightarrow> bool" where
  "holds_candidate I b c e core_bytes candidate \<longleftrightarrow>
     read_bundle_bytes b (lit ''candidate.json'') = Some core_bytes
     \<and> (\<exists>core. build_candidate_core I e (rt_attempt c) = Inr (core, core_bytes, rt_core_hash c)
          \<and> candidate_claims core = Inr candidate)"

definition holds_ratifier ::
  "crypto \<Rightarrow> interp \<Rightarrow> bundle_source \<Rightarrow> trust_roots \<Rightarrow> ratification_claims \<Rightarrow> delegation_claims
    \<Rightarrow> delegation_claims \<Rightarrow> delegation_claims list \<Rightarrow> bool" where
  "holds_ratifier K I b roots c candidate leaf parents \<longleftrightarrow>
     (\<exists>t ts. read_bundle_text b (lit ''ratifier-leaf.slip'') = Some t \<and> read_parents b (nat (chain_depth leaf)) = Inr ts
        \<and> ratifier_bound K I roots c candidate (t # ts) leaf parents)"

definition holds_status ::
  "crypto \<Rightarrow> interp \<Rightarrow> bundle_source \<Rightarrow> trust_roots \<Rightarrow> instant \<Rightarrow> nat \<Rightarrow> delegation_claims \<Rightarrow> pystr \<times> pystr
    \<Rightarrow> (pystr, json) dict \<Rightarrow> bool" where
  "holds_status K I b roots at i g p a \<longleftrightarrow>
     read_bundle_json I b (status_file i) = Some (JObj a) \<and> get a (lit ''jti'') = JStr (jti g) \<and> fst p = jti g
     \<and> status_artefact_hash I a = Inr (snd p) \<and> unrevoked_at K I (bundle_public_key roots) at g a"

fun holds_statuses ::
  "crypto \<Rightarrow> interp \<Rightarrow> bundle_source \<Rightarrow> trust_roots \<Rightarrow> instant \<Rightarrow> nat \<Rightarrow> delegation_claims list \<Rightarrow> (pystr \<times> pystr) list
    \<Rightarrow> (pystr, json) dict list \<Rightarrow> bool" where
  "holds_statuses K I b roots at i [] [] arts \<longleftrightarrow> arts = []"
| "holds_statuses K I b roots at i (g # gs) (p # ps) (a # arts) \<longleftrightarrow>
     holds_status K I b roots at i g p a \<and> holds_statuses K I b roots at (i + 1) gs ps arts"
| "holds_statuses K I b roots at i _ _ _ \<longleftrightarrow> False"

definition holds_grant ::
  "crypto \<Rightarrow> interp \<Rightarrow> bundle_source \<Rightarrow> trust_roots \<Rightarrow> ratification_claims \<Rightarrow> pybytes \<Rightarrow> bool" where
  "holds_grant K I b roots c core_bytes \<longleftrightarrow>
     (\<exists>token grant. read_bundle_text b (lit ''grant.slip'') = Some token \<and> parse_delegation K I roots token = Inr (Some grant)
        \<and> verified_slip_trust_root_id I token = Some (rt_issuer_root c)
        \<and> authority_entry_hash grant = Some (rt_entry_hash c)
        \<and> (\<exists>h. ratification_hash_of I c = Inr h \<and> ratification_hash grant = Some h)
        \<and> grant_core I token = Some core_bytes)"

definition no_other_grant ::
  "crypto \<Rightarrow> interp \<Rightarrow> bundle_source \<Rightarrow> trust_roots \<Rightarrow> ratification_claims \<Rightarrow> pybytes \<Rightarrow> bool" where
  "no_other_grant K I b roots c core_bytes \<longleftrightarrow>
     \<not> has_file b (lit ''grant.slip'') \<or> holds_grant K I b roots c core_bytes"

lemma entry_passes: "check_entry I b c = Inr (Inr e) \<longleftrightarrow> holds_entry I b c e"
  by (auto simp: check_entry_def holds_entry_def raise_simps split: option.splits sum.splits)

lemma candidate_passes:
  "check_candidate I b e c = Inr (Inr (core_bytes, candidate)) \<longleftrightarrow> holds_candidate I b c e core_bytes candidate"
  by (auto simp: check_candidate_def holds_candidate_def raise_simps caught_Inr split: option.splits)

lemma grant_passes: "check_grant K I b c core_bytes roots = Inr Pass \<longleftrightarrow>
    no_other_grant K I b roots c core_bytes"
  by (auto simp: check_grant_def no_other_grant_def holds_grant_def has_file_def read_bundle_text_def read_bundle_bytes_def raise_simps
      split: option.splits if_splits bundle_file.splits)


lemma evidence_facts:
  assumes "status_from_evidence a = Inr s"
  shows "attestation s \<noteq> None" "\<exists>ms. freshness_bound_ms s = Some ms \<and> 0 \<le> ms"
  using assms
  by (auto simp: status_from_evidence_def raise_simps nonempty_str_def natural_def split: json.splits)

lemma one_status_passes:
  "check_one_status K I b roots at i (jti g) p = Inr (Inr a) \<longleftrightarrow> holds_status K I b roots at i g p a"
proof (cases "read_bundle_json I b (status_file i) = Some (JObj a)")
  case True
  show ?thesis
  proof (cases "status_from_evidence a")
    case (Inr s)
    then show ?thesis
      using True evidence_facts [OF Inr]
      by (auto simp: check_one_status_def holds_status_def unrevoked_at_def raise_simps status_horizon_Inr
          split: option.splits sum.splits)
  qed (use True in \<open>simp add: check_one_status_def holds_status_def unrevoked_at_def\<close>)
next
  case False
  have "x = a" if "check_one_status K I b roots at i (jti g) p = Inr (Inr a)"
      "read_bundle_json I b (status_file i) = Some (JObj x)" for x
    using that by (auto simp: check_one_status_def raise_simps Let_def split: sum.splits if_splits option.splits)
  then show ?thesis
    using False by (auto simp: holds_status_def check_one_status_def split: option.splits json.splits)
qed

lemma statuses_pass:
  "check_statuses K I b roots at i (zip (map jti gs) ps) found = Inr (Inr arts) \<and> length ps = length gs \<longleftrightarrow>
    (\<exists>new. arts = found @ new \<and> holds_statuses K I b roots at i gs ps new)"
proof (induction gs arbitrary: i ps found)
  case Nil
  then show ?case
  proof (cases ps)
    case (Cons p ps')
    have "\<not> holds_statuses K I b roots at i [] ps new" for new by (cases new) (simp_all add: Cons)
    then show ?thesis using Cons by simp
  qed auto
next
  case (Cons g gs)
  show ?case
  proof (cases ps)
    case Nil
    have "\<not> holds_statuses K I b roots at i (g # gs) ps new" for new by (cases new) (simp_all add: Nil)
    then show ?thesis using Nil by simp
  next
    case (Cons p ps')
    have step: "check_statuses K I b roots at i (zip (map jti (g # gs)) ps) found = Inr (Inr arts) \<and> length ps = length (g # gs)
        \<longleftrightarrow> (\<exists>a. holds_status K I b roots at i g p a
             \<and> check_statuses K I b roots at (i + 1) (zip (map jti gs) ps') (found @ [a]) = Inr (Inr arts)
             \<and> length ps' = length gs)"
      unfolding one_status_passes [symmetric] Cons by (cases p) (auto simp: bnd_sum)
    have "(\<exists>new. arts = found @ new \<and> holds_statuses K I b roots at i (g # gs) ps new) \<longleftrightarrow>
        (\<exists>a new. arts = found @ a # new \<and> holds_status K I b roots at i g p a \<and> holds_statuses K I b roots at (i + 1) gs ps' new)"
      (is "?l \<longleftrightarrow> ?r")
    proof
      assume ?l
      then obtain new where "arts = found @ new" "holds_statuses K I b roots at i (g # gs) ps new" by blast
      then show ?r by (cases new) (auto simp: Cons)
    next
      assume ?r
      then obtain a new where "arts = found @ a # new" "holds_statuses K I b roots at i (g # gs) ps (a # new)"
        by (auto simp: Cons)
      then show ?l by blast
    qed
    then show ?thesis unfolding step Cons.IH by auto
  qed
qed

lemma status_passes:
  "check_status_evidence K I b c gs roots = Inr Pass \<longleftrightarrow>
    (\<exists>arts. holds_statuses K I b roots (rt_ratified_at c) 0 gs (rt_status_hashes c) arts
       \<and> sorted (List.map_filter stated_epoch arts))"
proof -
  have s: "check_statuses K I b roots (rt_ratified_at c) 0 (zip (map jti gs) (rt_status_hashes c)) [] = Inr (Inr arts)
      \<and> length (rt_status_hashes c) = length gs \<longleftrightarrow>
    holds_statuses K I b roots (rt_ratified_at c) 0 gs (rt_status_hashes c) arts" for arts
    by (subst statuses_pass) simp
  have "check_status_evidence K I b c gs roots = Inr Pass \<longleftrightarrow>
    (\<exists>arts. (check_statuses K I b roots (rt_ratified_at c) 0 (zip (map jti gs) (rt_status_hashes c)) [] = Inr (Inr arts)
      \<and> length (rt_status_hashes c) = length gs) \<and> epoch_regression I arts = Inr None)"
    by (simp add: check_status_evidence_def bnd_sum) (auto simp: bnd_Inr_iff split: option.splits)
  then show ?thesis
    unfolding s epoch_regression_def regression_None by simp
qed


lemma facts_pass:
  "check_ratifier_facts K I roots c candidate leaf chain = Inr (Inr gs) \<longleftrightarrow>
    chain_valid chain \<and> \<not> depth_exceeded chain \<and> jti leaf = rt_jti c \<and> sub leaf = rt_sub c \<and> sub leaf = rt_root c
    \<and> delegation_content_hash I leaf = Inr (rt_leaf_hash c)
    \<and> parents_content_hash I (parent_claims chain) = Inr (rt_parents_hash c)
    \<and> holds_right leaf (lit ''delegate'') (rt_ratified_at c)
    \<and> ratifier_reach_widening_axis (rt_rule_version c) candidate leaf = None
    \<and> sub candidate \<noteq> sub leaf \<and> distinct_keys K roots c \<and> gs = leaf # parent_claims chain"
  by (auto simp: check_ratifier_facts_def raise_simps split: option.splits if_splits)

lemma chain_passes:
  "check_ratifier_chain K I b c candidate roots = Inr (Inr gs) \<longleftrightarrow>
    (\<exists>leaf parents. gs = leaf # parents \<and> holds_ratifier K I b roots c candidate leaf parents)"
proof -
  have run: "check_ratifier_chain K I b c candidate roots = Inr (Inr gs) \<longleftrightarrow>
    (\<exists>t leaf ts chain. read_bundle_text b (lit ''ratifier-leaf.slip'') = Some t \<and> parse_delegation K I roots t = Inr (Some leaf)
       \<and> chain_depth leaf \<le> 64 \<and> verify_ratification_contract c candidate leaf = None
       \<and> read_parents b (nat (chain_depth leaf)) = Inr ts
       \<and> validate_delegation_chain (chain_at K I roots (rt_ratified_at c)) leaf ts = Inr chain
       \<and> check_ratifier_facts K I roots c candidate leaf chain = Inr (Inr gs))"
    (is "_ \<longleftrightarrow> ?r")
  proof
    assume "check_ratifier_chain K I b c candidate roots = Inr (Inr gs)"
    then obtain t leaf where t: "read_bundle_text b (lit ''ratifier-leaf.slip'') = Some t"
      and leaf: "parse_delegation K I roots t = Inr (Some leaf)" and depth: "chain_depth leaf \<le> 64"
      and rest: "(case verify_ratification_contract c candidate leaf of
                Some f \<Rightarrow> Inr (Inl (Contract_Broken f))
              | None \<Rightarrow>
                  (case read_parents b (nat (chain_depth leaf)) of
                     Inl f \<Rightarrow> Inr (Inl f)
                   | Inr tokens \<Rightarrow>
                       bnd (validate_delegation_chain (chain_at K I roots (rt_ratified_at c)) leaf tokens) (\<lambda>chain.
                       check_ratifier_facts K I roots c candidate leaf chain))) = Inr (Inr gs)"
      by (cases "read_bundle_text b (lit ''ratifier-leaf.slip'')")
        (auto simp: check_ratifier_chain_def bnd_option max_verification_chain_depth_def split: if_splits)
    from rest show ?r using t leaf depth by (auto simp: bnd_Inr_iff split: option.splits sum.splits)
  next
    assume ?r
    then show "check_ratifier_chain K I b c candidate roots = Inr (Inr gs)"
      by (auto simp: check_ratifier_chain_def max_verification_chain_depth_def)
  qed
  have bound: "ratifier_bound K I roots c candidate (t # ts) leaf parents \<longleftrightarrow>
      parse_delegation K I roots t = Inr (Some leaf) \<and> chain_depth leaf \<le> 64 \<and> verify_ratification_contract c candidate leaf = None
      \<and> (\<exists>chain. validate_delegation_chain (chain_at K I roots (rt_ratified_at c)) leaf ts = Inr chain
           \<and> check_ratifier_facts K I roots c candidate leaf chain = Inr (Inr (leaf # parents)))" for t ts leaf parents
  proof -
    have "ratifier_bound K I roots c candidate (t # ts) leaf parents \<longleftrightarrow>
        chain_depth leaf \<le> 64 \<and> verified_ratifier_binding K I roots c candidate (t # ts) = Inr (leaf, parents)"
      unfolding ratifier_binding_iff [of "t # ts", simplified] by (auto simp: ratifier_bound_def)
    then show ?thesis unfolding facts_pass verified_ratifier_binding_def by (auto simp: raise_simps)
  qed
  show ?thesis unfolding run holds_ratifier_def bound by (auto simp: facts_pass)
qed


section \<open>The verification as a whole\<close>

lemma stopped_not_ok:
  assumes "length cs < 8"
  shows "\<not> bundle_ok (partial_verification cs)"
  using assms by (simp add: bundle_ok_def checks_def partial_verification_def check_ok_def Let_def)

lemma eight_ok:
  "bundle_ok (partial_verification [a1, a2, a3, a4, a5, a6, a7, a8]) \<longleftrightarrow> list_all check_ok [a1, a2, a3, a4, a5, a6, a7, a8]"
  by (simp add: bundle_ok_def checks_def partial_verification_def)

lemma registration_passes:
  "check_ratifier_registration K I c roots rk = Inr Pass \<longleftrightarrow>
    credential_registration_error K I (JObj roots) (rt_root c) rk (Some (rt_ratified_at c)) = Inr None"
  by (auto simp: check_ratifier_registration_def bnd_Inr_iff split: option.splits)

lemma ratification_passes:
  "check_ratification K I b roots = Inr (Inr c) \<longleftrightarrow>
    (\<exists>t. read_bundle_text b (lit ''ratification.slip'') = Some t \<and> parse_ratification K I roots t = Inr (Some c))"
  by (auto simp: check_ratification_def raise_simps split: option.splits)

text \<open>
  C19: The bundle verification succeeds exactly when the caller's ordinary and revocation roots share no key, a
  stated trust_roots.json equals the caller's roots, the ratification is signed and parses, the ratifier's
  credential is registered and admissible at the moment of ratification, the entry is the ratified one, the
  candidate is the grant that the entry states, rebuilt byte for byte, the ratifier's chain carries the authority and
  confines the candidate, every grant of the chain has a covering attested status and the epochs never
  regress, and an issued grant, if present, is the candidate with only its two references added.
\<close>
theorem bundle_ok_iff:
  "(\<exists>v. verify_ratification_bundle K I b roots revocation_roots registration_keys = Inr v \<and> bundle_ok v) \<longleftrightarrow>
    (\<exists>c e core_bytes candidate leaf parents arts.
       set (bundle_keys roots) \<inter> set (bundle_keys revocation_roots) = {}
     \<and> check_trust_roots I b roots = Pass
     \<and> (\<exists>t. read_bundle_text b (lit ''ratification.slip'') = Some t \<and> parse_ratification K I roots t = Inr (Some c))
     \<and> credential_registration_error K I (JObj roots) (rt_root c) registration_keys (Some (rt_ratified_at c)) = Inr None
     \<and> holds_entry I b c e
     \<and> holds_candidate I b c e core_bytes candidate
     \<and> holds_ratifier K I b roots c candidate leaf parents
     \<and> holds_statuses K I b revocation_roots (rt_ratified_at c) 0 (leaf # parents) (rt_status_hashes c) arts
     \<and> sorted (List.map_filter stated_epoch arts)
     \<and> no_other_grant K I b roots c core_bytes)"
  (is "?l \<longleftrightarrow> ?r")
proof -
  let ?ind = "set (bundle_keys roots) \<inter> set (bundle_keys revocation_roots) = {}"
  have "?l \<longleftrightarrow> (\<exists>c e core_bytes candidate gs. ?ind \<and> check_trust_roots I b roots = Pass
     \<and> check_ratification K I b roots = Inr (Inr c)
     \<and> check_ratifier_registration K I c roots registration_keys = Inr Pass
     \<and> check_entry I b c = Inr (Inr e)
     \<and> check_candidate I b e c = Inr (Inr (core_bytes, candidate))
     \<and> check_ratifier_chain K I b c candidate roots = Inr (Inr gs)
     \<and> check_status_evidence K I b c gs revocation_roots = Inr Pass
     \<and> check_grant K I b c core_bytes roots = Inr Pass)" (is "_ \<longleftrightarrow> ?steps")
  proof
    assume ?l
    then obtain v where v: "verify_ratification_bundle K I b roots revocation_roots registration_keys = Inr v"
      and ok: "bundle_ok v" by blast
    obtain c where c: "check_ratification K I b roots = Inr (Inr c)"
      using v ok by (auto simp: verify_ratification_bundle_def Let_def bnd_sum stopped_not_ok)
    obtain r e where r: "check_ratifier_registration K I c roots registration_keys = Inr r"
      and e: "check_entry I b c = Inr (Inr e)"
      using v ok by (auto simp: verify_ratification_bundle_def Let_def c bnd_sum stopped_not_ok bnd_Inr_iff [of "check_ratifier_registration K I _ _ _"])
    obtain core_bytes candidate where d: "check_candidate I b e c = Inr (Inr (core_bytes, candidate))"
      using v ok by (auto simp: verify_ratification_bundle_def Let_def c r e bnd_sum stopped_not_ok)
    obtain gs where gs: "check_ratifier_chain K I b c candidate roots = Inr (Inr gs)"
      using v ok by (auto simp: verify_ratification_bundle_def Let_def c r e d bnd_sum stopped_not_ok)
    have "r = Pass \<and> check_grant K I b c core_bytes roots = Inr Pass \<and> ?ind
        \<and> check_status_evidence K I b c gs revocation_roots = Inr Pass \<and> check_trust_roots I b roots = Pass"
      using v ok
      by (auto simp: verify_ratification_bundle_def Let_def c r e d gs bnd_Inr_iff eight_ok check_ok_def split: if_splits)
    then show ?steps using c r e d gs by blast
  next
    assume ?steps
    then show ?l
      by (elim exE conjE) (simp add: verify_ratification_bundle_def Let_def eight_ok check_ok_def)
  qed
  then show ?thesis
    unfolding ratification_passes registration_passes entry_passes candidate_passes chain_passes status_passes grant_passes
    by blast
qed

section \<open>Exceptions that escape\<close>

text \<open>
  The checks turn a \<open>TypeError\<close> or \<open>ValueError\<close> of the entry into a failed check, but not an \<open>OverflowError\<close>,
  which a stated moment at the edge of the calendar raises; so the verification can raise.
\<close>

lemma entry_overflow_escapes:
  assumes "check_ratification K I b roots = Inr (Inr c)"
    and "check_ratifier_registration K I c roots rk = Inr r"
    and "read_bundle_json I b (lit ''entry.json'') = Some v" "parse_authority_entry v = Inl OverflowError"
  shows "verify_ratification_bundle K I b roots revocation_roots rk = Inl OverflowError"
  using assms by (simp add: verify_ratification_bundle_def check_entry_def Let_def)

end
