(* ===== verification/Actor_Proof.thy ===== *)
theory Actor_Proof
  imports Credential_Registration
begin

text \<open>
  The module \<open>actor_proof.py\<close>: the proof by which an actor shows that it holds the registered workload
  key its delegation names, over the request it makes.
\<close>

section \<open>The signed message\<close>

definition actor_proof_context :: pystr where
  "actor_proof_context = lit ''ambit-actor-proof/v2''"

definition actor_proof_scheme :: pystr where
  "actor_proof_scheme = lit ''p256''"

definition default_freshness_seconds :: int where
  "default_freshness_seconds = 120"

text \<open>The envelope without the proof, and with the outer seal of a versioned envelope set to null.\<close>

definition without_actor_proof :: "(pystr, json) dict \<Rightarrow> (pystr, json) dict" where
  "without_actor_proof envelope =
     (let payload = dict_del (lit ''actor_proof'') envelope
      in case get payload (lit ''actor'') of
           JObj actor \<Rightarrow>
             if has_key actor (lit ''proof'') then dict_set (lit ''actor'') (JObj (dict_del (lit ''proof'') actor)) payload
             else payload
         | _ \<Rightarrow> payload)"

definition hashed_request :: "(pystr, json) dict \<Rightarrow> exc + (pystr, json) dict" where
  "hashed_request envelope =
     (let payload = without_actor_proof envelope
      in bnd (one_of [''1'', ''2''] (get payload (lit ''authority_envelope_version''))) (\<lambda>core.
         Inr (if core \<and> has_key payload (lit ''seal'') then dict_set (lit ''seal'') JNull payload else payload)))"

definition actor_proof_request_hash :: "interp \<Rightarrow> (pystr, json) dict \<Rightarrow> exc + pystr" where
  "actor_proof_request_hash I envelope = bnd (hashed_request envelope) (\<lambda>payload. hash_object I (JObj payload))"

definition actor_proof_fields :: "pystr \<Rightarrow> pystr \<Rightarrow> pystr \<Rightarrow> pystr \<Rightarrow> (pystr, json) dict" where
  "actor_proof_fields request_hash nonce issued_at audience =
     [(lit ''audience'', JStr audience), (lit ''issued_at'', JStr issued_at), (lit ''nonce'', JStr nonce),
      (lit ''request_hash'', JStr request_hash)]"

definition actor_proof_message :: "interp \<Rightarrow> pystr \<Rightarrow> pystr \<Rightarrow> pystr \<Rightarrow> pystr \<Rightarrow> exc + pybytes" where
  "actor_proof_message I request_hash nonce issued_at audience =
     context_message I actor_proof_context (actor_proof_fields request_hash nonce issued_at audience)"

section \<open>The verification\<close>

text \<open>
  The verdict of a check: one constructor per refusal code of the source, with the fingerprint and
  nonce that the source reports beside it. The carrier of a proof is a JSON object; carriers that are
  Python objects with attributes are not modelled.
\<close>

datatype actor_refusal =
    Proof_Missing
  | Registrations_Malformed
  | Proof_Malformed
  | Key_Unregistered pystr pystr
  | Registration_Unverified registration_refusal pystr pystr
  | Subject_Mismatch pystr pystr
  | Audience_Mismatch pystr pystr
  | Moment_Missing pystr pystr
  | Proof_Stale pystr pystr
  | Signature_Invalid pystr pystr

record actor_identity =
  ap_key_fingerprint :: pystr
  ap_nonce :: pystr
  ap_subject :: pystr

definition refusal_code :: "actor_refusal \<Rightarrow> pystr" where
  "refusal_code r =
     (case r of
        Proof_Missing \<Rightarrow> lit ''actor_proof_missing''
      | Registrations_Malformed \<Rightarrow> lit ''actor_proof_unregistered''
      | Proof_Malformed \<Rightarrow> lit ''actor_proof_invalid''
      | Key_Unregistered _ _ \<Rightarrow> lit ''actor_proof_unregistered''
      | Registration_Unverified _ _ _ \<Rightarrow> lit ''actor_proof_unregistered''
      | Subject_Mismatch _ _ \<Rightarrow> lit ''actor_proof_subject_mismatch''
      | Audience_Mismatch _ _ \<Rightarrow> lit ''actor_proof_audience_mismatch''
      | Moment_Missing _ _ \<Rightarrow> lit ''actor_proof_invalid''
      | Proof_Stale _ _ \<Rightarrow> lit ''actor_proof_stale''
      | Signature_Invalid _ _ \<Rightarrow> lit ''actor_proof_invalid'')"

definition carried_proof :: "json \<Rightarrow> (pystr, json) dict option" where
  "carried_proof carrier = (case carrier of JObj d \<Rightarrow> as_obj (get d (lit ''actor_proof'')) | _ \<Rightarrow> None)"

definition carried_actor_id :: "json \<Rightarrow> pystr" where
  "carried_actor_id carrier =
     (case carrier of JObj d \<Rightarrow> (case get d (lit ''actor_id'') of JStr s \<Rightarrow> s | _ \<Rightarrow> []) | _ \<Rightarrow> [])"

text \<open>A root whose record states a workload registration of the key, and the first such root.\<close>

definition registers_key :: "interp \<Rightarrow> pystr \<Rightarrow> json \<Rightarrow> bool" where
  "registers_key I key_fingerprint root =
     (case root of
        JObj d \<Rightarrow>
          (case (get d (lit ''public_key''), get d (lit ''registration'')) of
             (JStr public_key, JObj r) \<Rightarrow>
               get d (lit ''scheme'') = JStr (lit ''p256'') \<and> get r (lit ''credential_kind'') = JStr kind_workload
               \<and> get r (lit ''scheme'') = JStr (lit ''p256'') \<and> get r (lit ''public_key'') = JStr public_key
               \<and> get r (lit ''key_fingerprint'') = JStr key_fingerprint
               \<and> credential_key_fingerprint I public_key = Some key_fingerprint
           | _ \<Rightarrow> False)
      | _ \<Rightarrow> False)"

definition root_registration :: "json \<Rightarrow> (pystr, json) dict" where
  "root_registration root =
     (case root of JObj d \<Rightarrow> (case get d (lit ''registration'') of JObj r \<Rightarrow> r | _ \<Rightarrow> []) | _ \<Rightarrow> [])"

definition matching_registration ::
  "interp \<Rightarrow> (pystr, json) dict \<Rightarrow> pystr \<Rightarrow> (pystr \<times> (pystr, json) dict) option" where
  "matching_registration I registrations key_fingerprint =
     map_option (\<lambda>(root_id, root). (root_id, root_registration root))
       (List.find (\<lambda>(root_id, root). registers_key I key_fingerprint root) registrations)"

text \<open>
  \<open>_parse_moment\<close>, where a conversion that leaves the years 1 to 9999 raises. The bound compares
  \<open>total_seconds()\<close>, a float; below \<open>2 ^ 32\<close> seconds its rounding does not cross an integer.
\<close>

definition proof_moment :: "json \<Rightarrow> exc + instant option" where
  "proof_moment v = (case aware_moment v of Inl ValueError \<Rightarrow> Inr None | Inl e \<Rightarrow> Inl e | Inr t \<Rightarrow> Inr (Some t))"

definition within_freshness :: "instant \<Rightarrow> int \<Rightarrow> instant \<Rightarrow> bool" where
  "within_freshness now freshness_seconds issued_at \<longleftrightarrow> \<bar>now - issued_at\<bar> \<le> freshness_seconds * 1000000"

definition signature_holds ::
  "crypto \<Rightarrow> interp \<Rightarrow> (pystr, json) dict \<Rightarrow> (pystr, json) dict \<Rightarrow> pystr \<Rightarrow> pystr \<Rightarrow> pystr \<Rightarrow> exc + bool" where
  "signature_holds K I proof registration request_hash nonce audience =
     (case (get proof (lit ''signature''), get registration (lit ''public_key'')) of
        (JStr sig, JStr public_key) \<Rightarrow>
          (case decode_signature_p256 K sig of
             None \<Rightarrow> Inr False
           | Some der \<Rightarrow>
               bnd (actor_proof_message I request_hash nonce (py_str I (get proof (lit ''issued_at''))) audience) (\<lambda>m.
               Inr (case from_hex public_key of None \<Rightarrow> False | Some key \<Rightarrow>
                      case p256_point K key of None \<Rightarrow> False | Some point \<Rightarrow> p256_verify K point der (sha256_raw K m))))
      | _ \<Rightarrow> Inr False)"

definition registered_actor ::
  "crypto \<Rightarrow> interp \<Rightarrow> (pystr, json) dict \<Rightarrow> json \<Rightarrow> instant \<Rightarrow> pystr \<Rightarrow> pystr
    \<Rightarrow> exc + actor_refusal + (pystr, json) dict" where
  "registered_actor K I registrations registration_public_keys now fingerprint nonce =
     (case matching_registration I registrations fingerprint of
        None \<Rightarrow> Inr (Inl (Key_Unregistered fingerprint nonce))
      | Some (root_id, registration) \<Rightarrow>
          bnd (credential_registration_error K I (JObj registrations) root_id registration_public_keys (Some now)) (\<lambda>err.
          Inr (case err of Some e \<Rightarrow> Inl (Registration_Unverified e fingerprint nonce) | None \<Rightarrow> Inr registration)))"

definition check_issue_moment ::
  "(pystr, json) dict \<Rightarrow> instant \<Rightarrow> int \<Rightarrow> pystr \<Rightarrow> pystr \<Rightarrow> exc + actor_refusal option" where
  "check_issue_moment proof now freshness_seconds fingerprint nonce =
     bnd (proof_moment (get proof (lit ''issued_at''))) (\<lambda>issued.
     Inr (case issued of
            None \<Rightarrow> Some (Moment_Missing fingerprint nonce)
          | Some t \<Rightarrow> if within_freshness now freshness_seconds t then None else Some (Proof_Stale fingerprint nonce)))"

definition verify_actor_proof ::
  "crypto \<Rightarrow> interp \<Rightarrow> json \<Rightarrow> json \<Rightarrow> pystr \<Rightarrow> pystr \<Rightarrow> instant \<Rightarrow> int \<Rightarrow> json \<Rightarrow> exc + actor_refusal + actor_identity" where
  "verify_actor_proof K I carrier registrations_v request_hash audience now freshness_seconds registration_public_keys =
     (case as_obj registrations_v of
        None \<Rightarrow> Inr (Inl Registrations_Malformed)
      | Some registrations \<Rightarrow>
          (case carried_proof carrier of
             None \<Rightarrow> Inr (Inl Proof_Missing)
           | Some proof \<Rightarrow>
               (case (get proof (lit ''key_fingerprint''), get proof (lit ''nonce'')) of
                  (JStr fingerprint, JStr nonce) \<Rightarrow>
                    if get proof (lit ''scheme'') \<noteq> JStr actor_proof_scheme \<or> \<not> hex_text 64 (JStr fingerprint)
                      \<or> \<not> hex_text 32 (JStr nonce)
                    then Inr (Inl Proof_Malformed)
                    else bnd (registered_actor K I registrations registration_public_keys now fingerprint nonce) (\<lambda>found.
                      case found of Inl refusal \<Rightarrow> Inr (Inl refusal) | Inr registration \<Rightarrow>
                      if get registration (lit ''subject'') \<noteq> JStr (carried_actor_id carrier)
                      then Inr (Inl (Subject_Mismatch fingerprint nonce))
                      else if get proof (lit ''audience'') \<noteq> JStr audience
                      then Inr (Inl (Audience_Mismatch fingerprint nonce))
                      else bnd (check_issue_moment proof now freshness_seconds fingerprint nonce) (\<lambda>stale.
                        case stale of Some refusal \<Rightarrow> Inr (Inl refusal) | None \<Rightarrow>
                        bnd (signature_holds K I proof registration request_hash nonce audience) (\<lambda>held.
                        if \<not> held then Inr (Inl (Signature_Invalid fingerprint nonce))
                        else Inr (Inr \<lparr>ap_key_fingerprint = fingerprint, ap_nonce = nonce,
                          ap_subject = carried_actor_id carrier\<rparr>))))
                | _ \<Rightarrow> Inr (Inl Proof_Malformed))))"

section \<open>What an accepted proof shows\<close>

text \<open>A root that states a workload registration of a P-256 key with this fingerprint.\<close>

definition states_workload_key :: "interp \<Rightarrow> pystr \<Rightarrow> json \<Rightarrow> bool" where
  "states_workload_key I fingerprint root \<longleftrightarrow>
     (\<exists>d r key. root = JObj d \<and> get d (lit ''scheme'') = JStr (lit ''p256'') \<and> get d (lit ''public_key'') = JStr key
        \<and> get d (lit ''registration'') = JObj r \<and> get r (lit ''credential_kind'') = JStr (lit ''workload'')
        \<and> get r (lit ''scheme'') = JStr (lit ''p256'') \<and> get r (lit ''public_key'') = JStr key
        \<and> get r (lit ''key_fingerprint'') = JStr fingerprint
        \<and> credential_key_fingerprint I key = Some fingerprint)"

lemma registers_key_iff: "registers_key I fp root \<longleftrightarrow> states_workload_key I fp root"
  by (auto simp: registers_key_def states_workload_key_def kind_workload_def split: json.splits)

text \<open>The registration that the first root stating one for the key holds.\<close>

definition first_registration ::
  "interp \<Rightarrow> (pystr, json) dict \<Rightarrow> pystr \<Rightarrow> pystr \<Rightarrow> (pystr, json) dict \<Rightarrow> bool" where
  "first_registration I registrations fingerprint root_id r \<longleftrightarrow>
     (\<exists>before d after. registrations = before @ (root_id, JObj d) # after
        \<and> get d (lit ''registration'') = JObj r \<and> states_workload_key I fingerprint (JObj d)
        \<and> list_all (\<lambda>(_, root). \<not> states_workload_key I fingerprint root) before)"

text \<open>The proof's signature over the request under the registered key.\<close>

definition signs_request ::
  "crypto \<Rightarrow> interp \<Rightarrow> (pystr, json) dict \<Rightarrow> (pystr, json) dict \<Rightarrow> pystr \<Rightarrow> pystr \<Rightarrow> pystr \<Rightarrow> bool" where
  "signs_request K I proof r request_hash nonce audience \<longleftrightarrow>
     (\<exists>sig der hex key point issued_at m.
        get proof (lit ''signature'') = JStr sig \<and> decode_signature_p256 K sig = Some der
        \<and> get r (lit ''public_key'') = JStr hex \<and> from_hex hex = Some key \<and> p256_point K key = Some point
        \<and> get proof (lit ''issued_at'') = JStr issued_at
        \<and> context_message I (lit ''ambit-actor-proof/v2'')
             [(lit ''audience'', JStr audience), (lit ''issued_at'', JStr issued_at), (lit ''nonce'', JStr nonce),
              (lit ''request_hash'', JStr request_hash)] = Inr m
        \<and> p256_verify K point der (sha256_raw K m))"

lemma registers_key_object:
  "registers_key I fp root \<Longrightarrow> \<exists>d r. root = JObj d \<and> get d (lit ''registration'') = JObj r \<and> root_registration root = r"
  by (auto simp: registers_key_def root_registration_def split: json.splits)

lemma matching_registration_iff:
  "matching_registration I rs fp = Some (root_id, r) \<longleftrightarrow> first_registration I rs fp root_id r"
proof
  assume "matching_registration I rs fp = Some (root_id, r)"
  then obtain root where f: "List.find (\<lambda>(root_id, root). registers_key I fp root) rs = Some (root_id, root)"
    and r: "r = root_registration root"
    by (auto simp: matching_registration_def)
  then obtain before after where "rs = before @ (root_id, root) # after" "registers_key I fp root"
      "list_all (\<lambda>(_, root). \<not> registers_key I fp root) before"
    unfolding find_first by (auto simp: case_prod_unfold)
  then show "first_registration I rs fp root_id r"
    using registers_key_object [of I fp root] r unfolding first_registration_def registers_key_iff by blast
next
  assume "first_registration I rs fp root_id r"
  then obtain before d after where d: "rs = before @ (root_id, JObj d) # after" "get d (lit ''registration'') = JObj r"
      "registers_key I fp (JObj d)" "list_all (\<lambda>(_, root). \<not> registers_key I fp root) before"
    unfolding first_registration_def registers_key_iff by blast
  then have "List.find (\<lambda>(root_id, root). registers_key I fp root) rs = Some (root_id, JObj d)"
    unfolding find_first by (auto simp: case_prod_unfold)
  then show "matching_registration I rs fp = Some (root_id, r)"
    using d(2) by (simp add: matching_registration_def root_registration_def)
qed

lemma proof_moment_Inr: "proof_moment v = Inr (Some t) \<longleftrightarrow> aware_moment v = Inr t"
  by (auto simp: proof_moment_def split: sum.splits exc.splits)

lemma issue_moment_iff:
  "check_issue_moment proof now fs fp nonce = Inr None \<longleftrightarrow>
    (\<exists>t. aware_moment (get proof (lit ''issued_at'')) = Inr t \<and> \<bar>now - t\<bar> \<le> fs * 1000000)"
  by (auto simp: check_issue_moment_def bnd_Inr_iff within_freshness_def proof_moment_Inr [symmetric] split: option.splits if_splits)

lemma registered_actor_iff:
  "registered_actor K I rs keys_v now fp nonce = Inr (Inr r) \<longleftrightarrow>
    (\<exists>root_id. first_registration I rs fp root_id r
       \<and> credential_registration_error K I (JObj rs) root_id keys_v (Some now) = Inr None)"
  unfolding registered_actor_def matching_registration_iff [symmetric]
  by (auto simp: bnd_Inr_iff split: option.splits)


text \<open>The message determines the request, the nonce, the moment and the audience.\<close>

lemma actor_proof_message_binds:
  assumes "actor_proof_message I h n t a = Inr m" "actor_proof_message I h' n' t' a' = Inr m"
    and "list_all scalar_text [h, n, t, a, h', n', t', a']"
  shows "h = h' \<and> n = n' \<and> t = t' \<and> a = a'"
proof -
  have ctx: "is_ascii actor_proof_context" by (simp add: actor_proof_context_def is_ascii_lit)
  have ok: "json_ok (JObj (actor_proof_fields h n t a))" "float_codec I (JObj (actor_proof_fields h n t a))"
    if "list_all scalar_text [h, n, t, a]" for h n t a
    using that by (simp_all add: actor_proof_fields_def dict_ok_def ascii_scalar_text is_ascii_lit float_codec_def)
  have "json_equiv (JObj (actor_proof_fields h n t a)) (JObj (actor_proof_fields h' n' t' a'))"
    using context_message_equiv [OF assms(1,2) [unfolded actor_proof_message_def] ctx ctx] ok assms(3) by simp
  then have "json_equiv (get (actor_proof_fields h n t a) k) (get (actor_proof_fields h' n' t' a') k)" for k
    by (rule json_equiv_get [rotated 2]) (simp_all add: actor_proof_fields_def dict_ok_def)
  from this [of "lit ''request_hash''"] this [of "lit ''nonce''"] this [of "lit ''issued_at''"] this [of "lit ''audience''"]
  show ?thesis by (simp add: actor_proof_fields_def json_equiv_str)
qed

end
