(* ===== verification/Head_Keys.thy ===== *)
theory Head_Keys
  imports Checkpoint Slips
begin

text \<open>
  The module \<open>head_attestation_ed25519.py\<close>: the public-key verifiers of head attestations and of
  checkpoint countersignatures.
\<close>

text \<open>\<open>_decode\<close>: the base64 text is strict, and a text that is not ASCII is malformed.\<close>

definition decode_head_signature :: "pystr \<Rightarrow> pybytes option" where
  "decode_head_signature sig =
     (if \<not> starts_with sig ed25519_prefix then None else b64decode True (drop (length ed25519_prefix) sig))"

record ed25519_head_verifier =
  head_key :: pybytes
  head_root :: pystr

definition ed25519_head_verifier :: "pybytes \<Rightarrow> pystr \<Rightarrow> exc + ed25519_head_verifier" where
  "ed25519_head_verifier key root =
     ensure (root \<noteq> []) ValueError (ensure (length key = 32) ValueError (Inr \<lparr>head_key = key, head_root = root\<rparr>))"

definition ed25519_verify_head ::
  "crypto \<Rightarrow> interp \<Rightarrow> ed25519_head_verifier \<Rightarrow> head_attestation \<Rightarrow> exc + bool" where
  "ed25519_verify_head K I v a =
     (if \<not> py_eq (trust_root_id a) (JStr (head_root v)) then Inr False
      else bnd (expect AttributeError (as_str (signature a))) (\<lambda>sig.
        case decode_head_signature sig of
          None \<Rightarrow> Inr False
        | Some raw \<Rightarrow> bnd (attestation_payload I a) (\<lambda>payload. Inr (ed25519_verify K (head_key v) raw payload))))"

definition ed25519_countersign_verifier :: "pybytes \<Rightarrow> exc + pybytes" where
  "ed25519_countersign_verifier key = ensure (length key = 32) ValueError (Inr key)"

definition ed25519_verify_countersignature :: "crypto \<Rightarrow> pybytes \<Rightarrow> countersign_verifier" where
  "ed25519_verify_countersignature K key payload sig =
     (case decode_head_signature sig of None \<Rightarrow> False | Some raw \<Rightarrow> ed25519_verify K key raw payload)"

text \<open>The verifier as the function \<open>verify_chain\<close> calls.\<close>

definition ed25519_accepts :: "crypto \<Rightarrow> interp \<Rightarrow> ed25519_head_verifier \<Rightarrow> head_verifier" where
  "ed25519_accepts K I v a \<longleftrightarrow> ed25519_verify_head K I v a = Inr True"

lemma ed25519_accepts_iff:
  "ed25519_accepts K I v a \<longleftrightarrow>
     trust_root_id a = JStr (head_root v)
     \<and> (\<exists>sig raw payload. signature a = JStr sig \<and> decode_head_signature sig = Some raw
          \<and> attestation_payload I a = Inr payload \<and> ed25519_verify K (head_key v) raw payload)"
  by (auto simp: ed25519_accepts_def ed25519_verify_head_def raise_simps split: option.splits)

text \<open>
  A well-formed attestation never makes the verifier raise, so \<open>verify_chain\<close> and
  \<open>verify_checkpoint\<close> may take it as the function it is.
\<close>

lemma ed25519_verify_head_total:
  assumes "attestation_is_well_formed req a" "printable (JObj (payload_dict a))"
  shows "\<exists>b. ed25519_verify_head K I v a = Inr b"
  using well_formed_fields [OF assms(1)] assms(2)
  by (auto simp: ed25519_verify_head_def attestation_payload_def canonical_json_bytes_def
      bnd_def split: option.splits sum.splits)

end
