(* ===== verification/Behavioural.thy ===== *)
theory Behavioural
  imports Head_Keys Moments Complex_Main
begin

text \<open>
  The module \<open>behavioural.py\<close>: the authentication of a signed behavioural statement, bound to an
  actor, a ledger head and a moment, and the replay of the source records it counts.
\<close>

section \<open>Refusals\<close>

text \<open>
  \<open>BehaviouralVerificationError\<close> with its reason, without the text of a wrapped exception; any other
  exception leaves the function as it is.
\<close>

datatype snapshot_error =
    Refused pystr
  | Source_Chain_Invalid "chain_error option"
  | Source_Record_Invalid record_fault
  | Uncaught raised

definition refuse :: "string \<Rightarrow> snapshot_error" where
  "refuse reason = Refused (lit reason)"

text \<open>A statement whose listed exceptions are turned into a refusal.\<close>

definition guarded :: "exc set \<Rightarrow> string \<Rightarrow> exc + 'a \<Rightarrow> snapshot_error + 'a" where
  "guarded caught_set reason r =
     (case r of Inl e \<Rightarrow> Inl (if e \<in> caught_set then refuse reason else Uncaught (Raised e)) | Inr x \<Rightarrow> Inr x)"

section \<open>Bounded values\<close>

definition signing_domain :: pybytes where
  "signing_domain = map of_nat (lit ''ambit.behavioural.snapshot.v1'') @ [0]"

definition snapshot_schema :: pystr where
  "snapshot_schema = lit ''ambit.behavioural.snapshot.v1''"

definition max_snapshot_bytes :: nat where
  "max_snapshot_bytes = 1048576"

definition max_source_records :: nat where
  "max_source_records = 4096"

definition payload_keys :: "pystr list" where
  "payload_keys = map lit [''schema'', ''issuer'', ''actor_id'', ''domain'', ''audience'', ''issued_at_ms'',
     ''expires_at_ms'', ''source'', ''model_config'', ''result'']"

definition result_keys :: "pystr list" where
  "result_keys = map lit [''score'', ''score_band'', ''confidence_band'', ''observation_count'', ''posterior_state'']"

definition safe_integer :: int where
  "safe_integer = 2 ^ 53 - 1"

definition object_with :: "json \<Rightarrow> pystr list \<Rightarrow> string \<Rightarrow> snapshot_error + (pystr, json) dict" where
  "object_with v names reason =
     bnd (expect (refuse reason) (as_obj v)) (\<lambda>d. ensure (keys_exact d names) (refuse reason) (Inr d))"

definition safe_int :: "json \<Rightarrow> int \<Rightarrow> string \<Rightarrow> snapshot_error + int" where
  "safe_int v least reason =
     bnd (expect (refuse reason) (as_int v)) (\<lambda>n. ensure (least \<le> n \<and> n \<le> safe_integer) (refuse reason) (Inr n))"

definition short_text :: "json \<Rightarrow> string \<Rightarrow> snapshot_error + pystr" where
  "short_text v reason =
     bnd (expect (refuse reason) (as_str v)) (\<lambda>s. ensure (s \<noteq> [] \<and> length s \<le> 256) (refuse reason) (Inr s))"

text \<open>
  \<open>_bounded_tree\<close>: the pending values with their depths, the one to pop next first, and the count of
  the values already popped. Every caller turns its three reasons into one.
\<close>

definition max_tree_depth :: nat where
  "max_tree_depth = 32"

definition max_tree_items :: nat where
  "max_tree_items = 100000"

definition tree_children :: "json \<Rightarrow> json list" where
  "tree_children v = (case v of JObj d \<Rightarrow> map snd d | JList vs \<Rightarrow> vs | _ \<Rightarrow> [])"

definition tree_leaf_ok :: "json \<Rightarrow> bool" where
  "tree_leaf_ok v = (case v of JInt n \<Rightarrow> \<bar>n\<bar> \<le> safe_integer | JFloat x \<Rightarrow> is_finite x | _ \<Rightarrow> True)"

fun pending_size :: "(json \<times> nat) list \<Rightarrow> nat" where
  "pending_size [] = 0"
| "pending_size ((v, _) # rest) = Suc (size v) + pending_size rest"

lemma pending_size_append [simp]: "pending_size (xs @ ys) = pending_size xs + pending_size ys"
  by (induction xs rule: pending_size.induct) auto

lemma pending_size_rev [simp]: "pending_size (rev xs) = pending_size xs"
  by (induction xs rule: pending_size.induct) auto

lemma pending_size_children: "pending_size (map (\<lambda>w. (w, k)) (tree_children v)) \<le> size v"
proof -
  have list: "pending_size (map (\<lambda>w. (w, k)) vs) \<le> size_list size vs" for vs
    by (induction vs) auto
  have "pending_size (map (\<lambda>w. (w, k)) (map snd d)) \<le> size_list (size_prod (\<lambda>_. 0) size) d" for d :: "(pystr, json) dict"
    by (induction d) (auto simp: case_prod_unfold)
  then show ?thesis using list by (auto simp: tree_children_def le_SucI split: json.splits)
qed

function bounded_loop :: "(json \<times> nat) list \<Rightarrow> nat \<Rightarrow> bool" where
  "bounded_loop [] n = True"
| "bounded_loop ((v, depth) # pending) n =
     (depth \<le> max_tree_depth \<and> n + 1 \<le> max_tree_items \<and> tree_leaf_ok v
      \<and> bounded_loop (rev (map (\<lambda>w. (w, depth + 1)) (tree_children v)) @ pending) (n + 1))"
  by pat_completeness auto
termination
proof (relation "measure (\<lambda>(pending, n). pending_size pending)")
  fix v depth pending and n :: nat
  show "((rev (map (\<lambda>w. (w, depth + 1)) (tree_children v)) @ pending, n + 1), ((v, depth) # pending, n))
      \<in> measure (\<lambda>(pending, n). pending_size pending)"
    using pending_size_children [of "depth + 1" v] by simp
qed simp

definition bounded_tree :: "json \<Rightarrow> bool" where
  "bounded_tree v = bounded_loop [(v, 0)] 0"

section \<open>Snapshots\<close>

definition snapshot_keys :: "pystr list" where
  "snapshot_keys = map lit [''payload'', ''signature'']"

definition parse_behavioural_snapshot :: "interp \<Rightarrow> pybytes \<Rightarrow> snapshot_error + (pystr, json) dict" where
  "parse_behavioural_snapshot I bs =
     ensure (length bs \<le> max_snapshot_bytes) (refuse ''snapshot: size limit'')
     (bnd (expect (refuse ''snapshot: invalid JSON'') (utf8_decode bs)) (\<lambda>t.
      bnd (guarded {ValueError} ''snapshot: invalid JSON'' (strict_json_loads I t)) (\<lambda>v.
      ensure (bounded_tree v) (refuse ''snapshot: invalid JSON'')
      (object_with v snapshot_keys ''snapshot: invalid JSON''))))"

definition snapshot_bytes :: "interp \<Rightarrow> json \<Rightarrow> snapshot_error + pybytes" where
  "snapshot_bytes I v =
     ensure (bounded_tree v) (refuse ''snapshot: invalid value'')
     (bnd (guarded {TypeError, ValueError} ''snapshot: invalid value'' (canonical_json_bytes I v)) (\<lambda>bs.
      case parse_behavioural_snapshot I bs of
        Inr _ \<Rightarrow> Inr bs
      | Inl (Uncaught e) \<Rightarrow> Inl (Uncaught e)
      | Inl _ \<Rightarrow> Inl (refuse ''snapshot: invalid value'')))"

text \<open>Every exception of the read is a refusal here.\<close>

definition read_bounded_json_object :: "interp \<Rightarrow> fs \<Rightarrow> path \<Rightarrow> snapshot_error + (pystr, json) dict" where
  "read_bounded_json_object I F p =
     (case read_utf8_document F p of
        Inl _ \<Rightarrow> Inl (refuse ''JSON file refused'')
      | Inr t \<Rightarrow>
          (case (utf8_encode t, strict_json_loads I t) of
             (Some bs, Inr (JObj d)) \<Rightarrow>
               ensure (length bs \<le> max_snapshot_bytes \<and> bounded_tree (JObj d)) (refuse ''JSON file refused'') (Inr d)
           | _ \<Rightarrow> Inl (refuse ''JSON file refused'')))"

definition read_behavioural_snapshot :: "interp \<Rightarrow> fs \<Rightarrow> path \<Rightarrow> snapshot_error + pybytes" where
  "read_behavioural_snapshot I F p = bnd (read_bounded_json_object I F p) (\<lambda>d. snapshot_bytes I (JObj d))"

text \<open>\<open>_signature\<close>; its only caller turns its reasons into one.\<close>

definition snapshot_signature :: "json \<Rightarrow> pybytes option" where
  "snapshot_signature v =
     (case v of
        JStr s \<Rightarrow> if length s > 128 then None
          else (case b64decode True s of None \<Rightarrow> None | Some raw \<Rightarrow> if length raw = 64 then Some raw else None)
      | _ \<Rightarrow> None)"

section \<open>The source history\<close>

definition read_behavioural_source_records ::
  "interp \<Rightarrow> fs \<Rightarrow> path \<Rightarrow> snapshot_error + (pystr, json) dict list" where
  "read_behavioural_source_records I F p =
     (case read_verified_records I F p of
        Inl e \<Rightarrow> Inl (Uncaught e)
      | Inr (good, records, err) \<Rightarrow>
          ensure good (Source_Chain_Invalid err)
          (ensure (length records \<le> max_source_records) (refuse ''source: record limit'') (Inr records)))"

text \<open>The key that a mapping of hexadecimal texts configures for a name.\<close>

definition configured_key :: "(pystr, json) dict \<Rightarrow> pystr \<Rightarrow> exc + pybytes" where
  "configured_key public_keys name =
     (case map_of public_keys name of
        None \<Rightarrow> Inl KeyError
      | Some (JStr hex) \<Rightarrow> expect ValueError (from_hex hex)
      | Some _ \<Rightarrow> Inl TypeError)"

definition head_of_block :: "(pystr, json) dict \<Rightarrow> head_attestation" where
  "head_of_block d =
     \<lparr>max_seq = get d k_max_seq, head_record_hash = get d k_head_record_hash, recorded_at = get d k_recorded_at,
      trust_root_id = get d k_trust_root_id, signature = get d k_signature, ledger_id = get d k_ledger_id\<rparr>"

definition verify_source_head ::
  "crypto \<Rightarrow> interp \<Rightarrow> (pystr, json) dict \<Rightarrow> pystr \<Rightarrow> head_attestation \<Rightarrow> exc + bool" where
  "verify_source_head K I source_public_keys anchor a =
     bnd (configured_key source_public_keys anchor) (\<lambda>key.
     bnd (ed25519_head_verifier key anchor) (\<lambda>v. ed25519_verify_head K I v a))"

fun checked_records ::
  "interp \<Rightarrow> nat \<Rightarrow> pystr \<Rightarrow> json list \<Rightarrow> snapshot_error + pystr \<times> (pystr, json) dict list" where
  "checked_records I n previous [] = Inr (previous, [])"
| "checked_records I n previous (v # vs) =
     (case canonical_json_bytes I v of
        Inl e \<Rightarrow> Inl (Uncaught (Raised e))
      | Inr bs \<Rightarrow>
          (case utf8_decode bs of
             None \<Rightarrow> Inl (Uncaught (Raised ValueError))
           | Some t \<Rightarrow>
               (case check_record I t n previous of
                  Inl e \<Rightarrow> Inl (Uncaught (Raised e))
                | Inr (Inl f) \<Rightarrow> Inl (Source_Record_Invalid f)
                | Inr (Inr (h, r)) \<Rightarrow>
                    bnd (checked_records I (n + 1) h vs) (\<lambda>(head, rs). Inr (head, r # rs)))))"

definition verify_behavioural_source ::
  "crypto \<Rightarrow> interp \<Rightarrow> json \<Rightarrow> json list \<Rightarrow> (pystr, json) dict \<Rightarrow> pystr
    \<Rightarrow> snapshot_error + (pystr, json) dict list \<times> head_attestation" where
  "verify_behavioural_source K I source records source_public_keys expected_ledger_id =
     bnd (object_with source [lit ''head''] ''source: invalid fields'') (\<lambda>block.
     bnd (object_with (get block (lit ''head'')) attestation_block_keys ''source.head: invalid fields'') (\<lambda>head.
     bnd (safe_int (get head k_max_seq) 1 ''source.head.max_seq: invalid integer'') (\<lambda>seq.
     bnd (short_text (get head k_trust_root_id) ''source.head.trust_root_id: invalid string'') (\<lambda>anchor.
     bnd (short_text (get head k_recorded_at) ''source.head.recorded_at: invalid string'') (\<lambda>_.
     ensure (get head k_ledger_id = JStr expected_ledger_id) (refuse ''source: wrong ledger'')
     (ensure (as_str (get head k_signature) \<noteq> None) (refuse ''source: invalid signature'')
     (ensure (as_str (get head k_head_record_hash) \<noteq> None) (refuse ''source: invalid head hash'')
     (bnd (guarded {KeyError, ValueError, TypeError} ''source: untrusted key''
        (verify_source_head K I source_public_keys anchor (head_of_block head))) (\<lambda>verified.
      ensure verified (refuse ''source: invalid head signature'')
     (ensure (0 < length records \<and> length records \<le> max_source_records) (refuse ''source: record limit'')
     (ensure (int (length records) = seq) (refuse ''source: incomplete history'')
     (bnd (checked_records I 0 genesis_hash records) (\<lambda>(previous, verified_records).
      ensure (JStr previous = get head k_head_record_hash) (refuse ''source: head mismatch'')
     (Inr (verified_records, head_of_block head)))))))))))))))"

section \<open>The cutoff in milliseconds\<close>

text \<open>
  \<open>int(cutoff.timestamp() * 1000)\<close> in IEEE double arithmetic: \<open>double_of n d\<close> is \<open>n / d\<close> rounded half to even
  to 53 significant bits, as a mantissa and a binary exponent. The exponents here stay in the normal range.
\<close>

fun bit_length :: "nat \<Rightarrow> nat" where
  "bit_length n = (if n = 0 then 0 else Suc (bit_length (n div 2)))"

declare bit_length.simps [simp del]

definition half_even :: "nat \<Rightarrow> nat \<Rightarrow> nat" where
  "half_even a b =
     (let q = a div b; r = a mod b in if 2 * r > b \<or> 2 * r = b \<and> odd q then q + 1 else q)"

definition scaled :: "nat \<Rightarrow> nat \<Rightarrow> int \<Rightarrow> nat \<times> nat" where
  "scaled n d e = (n * 2 ^ nat (- e), d * 2 ^ nat e)"

definition double_of :: "nat \<Rightarrow> nat \<Rightarrow> nat \<times> int" where
  "double_of n d =
     (let e = int (bit_length n) - int (bit_length d) - 53;
          (a, b) = scaled n d e;
          e = (if a < b * 2 ^ 53 then e else e + 1);
          (a, b) = scaled n d e
      in (half_even a b, e))"

text \<open>The double nearest to a product of a double and an integer, and the integer part of a double.\<close>

definition double_times :: "nat \<times> int \<Rightarrow> nat \<Rightarrow> nat \<times> int" where
  "double_times x k = (case x of (m, e) \<Rightarrow> double_of (m * k * 2 ^ nat e) (2 ^ nat (- e)))"

definition double_floor :: "nat \<times> int \<Rightarrow> nat" where
  "double_floor x = (case x of (m, e) \<Rightarrow> m * 2 ^ nat e div 2 ^ nat (- e))"

definition timestamp_ms :: "int \<Rightarrow> int" where
  "timestamp_ms us = sgn us * int (double_floor (double_times (double_of (nat \<bar>us\<bar>) 1000000) 1000))"

text \<open>The Unix epoch in microseconds from the start of year 1.\<close>

definition unix_epoch :: instant where
  "unix_epoch = 719162 * day_us"

definition source_cutoff :: "json \<Rightarrow> int option" where
  "source_cutoff v =
     (case v of
        JStr s \<Rightarrow>
          (case fromisoformat (replace_z s) of
             Some (wall, Some off) \<Rightarrow> Some (timestamp_ms (wall - off - unix_epoch))
           | _ \<Rightarrow> None)
      | _ \<Rightarrow> None)"

section \<open>Authentication\<close>

text \<open>A number from 0 to 1; a truth value is none.\<close>

definition unit_number :: "json \<Rightarrow> bool" where
  "unit_number v =
     (case v of
        JInt n \<Rightarrow> 0 \<le> n \<and> n \<le> 1
      | JFloat (Fin s m e) \<Rightarrow> m = 0 \<or> \<not> s \<and> m * 2 ^ nat e \<le> 2 ^ nat (- e)
      | _ \<Rightarrow> False)"

record snapshot_expectations =
  observer_public_keys :: "(pystr, json) dict"
  source_public_keys :: "(pystr, json) dict"
  expected_actor :: pystr
  expected_domain :: pystr
  expected_audience :: pystr
  expected_source_ledger :: pystr
  expected_model_config_hash :: pystr
  evaluation_time_ms :: int
  max_age_ms :: int

definition check_identity :: "snapshot_expectations \<Rightarrow> (pystr, json) dict \<Rightarrow> snapshot_error + unit" where
  "check_identity E payload =
     ensure (get payload (lit ''schema'') = JStr snapshot_schema) (refuse ''snapshot: unsupported schema'')
     (bnd (short_text (get payload (lit ''issuer'')) ''issuer: invalid string'') (\<lambda>_.
      bnd (short_text (get payload (lit ''actor_id'')) ''actor_id: invalid string'') (\<lambda>actor.
      bnd (short_text (get payload (lit ''domain'')) ''domain: invalid string'') (\<lambda>domain.
      bnd (short_text (get payload (lit ''audience'')) ''audience: invalid string'') (\<lambda>audience.
      ensure (expected_actor E \<noteq> [] \<and> actor = expected_actor E) (refuse ''snapshot: wrong actor_id'')
     (ensure (expected_domain E \<noteq> [] \<and> domain = expected_domain E) (refuse ''snapshot: wrong domain'')
     (ensure (expected_audience E \<noteq> [] \<and> audience = expected_audience E) (refuse ''snapshot: wrong audience'')
     (Inr ()))))))))"

text \<open>The moment of issue, in a window that covers the evaluation time.\<close>

definition check_window :: "snapshot_expectations \<Rightarrow> (pystr, json) dict \<Rightarrow> snapshot_error + int" where
  "check_window E payload =
     bnd (safe_int (JInt (evaluation_time_ms E)) 0 ''evaluation_time_ms: invalid integer'') (\<lambda>now.
     bnd (safe_int (JInt (max_age_ms E)) 1 ''max_age_ms: invalid integer'') (\<lambda>age.
     bnd (safe_int (get payload (lit ''issued_at_ms'')) 0 ''issued_at_ms: invalid integer'') (\<lambda>issued.
     bnd (safe_int (get payload (lit ''expires_at_ms'')) 0 ''expires_at_ms: invalid integer'') (\<lambda>expiry.
     ensure (issued \<le> now \<and> now < expiry \<and> now - issued \<le> age \<and> expiry - issued \<le> age)
       (refuse ''snapshot: stale, future or excessive validity'')
     (Inr issued)))))"

definition observer_signed :: "crypto \<Rightarrow> interp \<Rightarrow> snapshot_expectations \<Rightarrow> (pystr, json) dict \<Rightarrow> json \<Rightarrow> exc + bool" where
  "observer_signed K I E payload sig =
     bnd (expect ValueError (as_str (get payload (lit ''issuer'')))) (\<lambda>issuer.
     bnd (configured_key (observer_public_keys E) issuer) (\<lambda>key.
     ensure (length key = 32) ValueError
     (bnd (expect ValueError (snapshot_signature sig)) (\<lambda>raw.
      bnd (canonical_json_bytes I (JObj payload)) (\<lambda>bs.
      Inr (ed25519_verify K key raw (signing_domain @ bs)))))))"

definition check_model_config :: "interp \<Rightarrow> snapshot_expectations \<Rightarrow> (pystr, json) dict \<Rightarrow> snapshot_error + unit" where
  "check_model_config I E payload =
     bnd (expect (refuse ''snapshot: model configuration mismatch'') (as_obj (get payload (lit ''model_config'')))) (\<lambda>config.
     bnd (guarded {} '''' (hash_object I (JObj config))) (\<lambda>h.
     ensure (h = expected_model_config_hash E) (refuse ''snapshot: model configuration mismatch'')
     (bnd (short_text (get config (lit ''model_version'')) ''model_config.model_version: invalid string'') (\<lambda>_.
      Inr ()))))"

definition check_head_block ::
  "snapshot_expectations \<Rightarrow> (pystr, json) dict \<Rightarrow> snapshot_error + int \<times> pystr \<times> (pystr, json) dict" where
  "check_head_block E payload =
     bnd (object_with (get payload (lit ''source'')) [lit ''head''] ''source: invalid fields'') (\<lambda>source.
     bnd (object_with (get source (lit ''head'')) attestation_block_keys ''source.head: invalid fields'') (\<lambda>head.
     bnd (safe_int (get head k_max_seq) 1 ''source.head.max_seq: invalid integer'') (\<lambda>seq.
     bnd (short_text (get head k_recorded_at) ''source.head.recorded_at: invalid string'') (\<lambda>_.
     bnd (short_text (get head k_trust_root_id) ''source.head.trust_root_id: invalid string'') (\<lambda>anchor.
     bnd (short_text (get head k_ledger_id) ''source.head.ledger_id: invalid string'') (\<lambda>_.
     bnd (short_text (get head k_signature) ''source.head.signature: invalid string'') (\<lambda>_.
     bnd (short_text (get head k_head_record_hash) ''source.head.head_record_hash: invalid string'') (\<lambda>_.
     ensure (get head k_ledger_id = JStr (expected_source_ledger E)) (refuse ''source: wrong ledger'')
     (Inr (seq, anchor, head))))))))))"

definition check_cutoff :: "snapshot_expectations \<Rightarrow> int \<Rightarrow> (pystr, json) dict \<Rightarrow> snapshot_error + unit" where
  "check_cutoff E issued head =
     bnd (expect (refuse ''source: invalid timestamp'') (source_cutoff (get head k_recorded_at))) (\<lambda>cutoff.
     ensure (0 \<le> evaluation_time_ms E - cutoff \<and> evaluation_time_ms E - cutoff \<le> max_age_ms E \<and> cutoff \<le> issued)
       (refuse ''source: stale or future cutoff'')
     (Inr ()))"

definition check_result :: "snapshot_expectations \<Rightarrow> (pystr, json) dict \<Rightarrow> int \<Rightarrow> snapshot_error + unit" where
  "check_result E payload seq =
     bnd (object_with (get payload (lit ''result'')) result_keys ''result: invalid fields'') (\<lambda>result.
     ensure (unit_number (get result (lit ''score''))) (refuse ''result: invalid score'')
     (ensure (get result (lit ''score_band'') \<in> JStr ` lit ` {''normal'', ''elevated'', ''anomalous'', ''critical''})
       (refuse ''result: invalid band'')
     (ensure (get result (lit ''confidence_band'') \<in> JStr ` lit ` {''low'', ''medium'', ''high''})
       (refuse ''result: invalid confidence'')
     (bnd (safe_int (get result (lit ''observation_count'')) 1 ''observation_count: invalid integer'') (\<lambda>n.
      ensure (n \<le> seq) (refuse ''result: impossible observation count'')
     (bnd (expect (refuse ''result: invalid posterior identity'') (as_obj (get result (lit ''posterior_state'')))) (\<lambda>state.
      ensure (get state (lit ''actor_id'') = JStr (expected_actor E) \<and> get state (lit ''observation_count'') = JInt n)
        (refuse ''result: invalid posterior identity'')
     (Inr ()))))))))"

definition authenticate_behavioural_snapshot ::
  "crypto \<Rightarrow> interp \<Rightarrow> snapshot_expectations \<Rightarrow> pybytes \<Rightarrow> snapshot_error + pybytes" where
  "authenticate_behavioural_snapshot K I E bs =
     bnd (parse_behavioural_snapshot I bs) (\<lambda>doc.
     bnd (object_with (get doc (lit ''payload'')) payload_keys ''payload: invalid fields'') (\<lambda>payload.
     bnd (check_identity E payload) (\<lambda>_.
     bnd (check_window E payload) (\<lambda>issued.
     bnd (guarded {KeyError, TypeError, ValueError} ''snapshot: untrusted issuer or invalid signature''
        (observer_signed K I E payload (get doc (lit ''signature'')))) (\<lambda>signed.
     ensure signed (refuse ''snapshot: untrusted issuer or invalid signature'')
     (bnd (check_model_config I E payload) (\<lambda>_.
      bnd (check_head_block E payload) (\<lambda>(seq, anchor, head).
      bnd (guarded {KeyError, ValueError, TypeError, AttributeError} ''source: invalid head''
        (verify_source_head K I (source_public_keys E) anchor (head_of_block head))) (\<lambda>valid_head.
      ensure valid_head (refuse ''source: invalid head signature'')
     (bnd (check_cutoff E issued head) (\<lambda>_.
      bnd (check_result E payload seq) (\<lambda>_.
      snapshot_bytes I (JObj doc)))))))))))))"

text \<open>The payload that a verified snapshot's bytes give back.\<close>

definition verified_payload :: "interp \<Rightarrow> pybytes \<Rightarrow> snapshot_error + (pystr, json) dict" where
  "verified_payload I bs =
     bnd (parse_behavioural_snapshot I bs) (\<lambda>doc.
     expect (Uncaught (Raised TypeError)) (as_obj (get doc (lit ''payload''))))"

definition verified_digest :: "interp \<Rightarrow> pybytes \<Rightarrow> snapshot_error + pystr" where
  "verified_digest I bs =
     bnd (parse_behavioural_snapshot I bs) (\<lambda>doc. guarded {} '''' (hash_object I (JObj doc)))"

definition is_observation :: "pystr \<Rightarrow> (pystr, json) dict \<Rightarrow> bool" where
  "is_observation actor r \<longleftrightarrow>
     get r (lit ''record_type'') = JStr (lit ''decision'') \<and> get r (lit ''actor_id'') = JStr actor"

definition verify_behavioural_snapshot ::
  "crypto \<Rightarrow> interp \<Rightarrow> snapshot_expectations \<Rightarrow> pybytes \<Rightarrow> json list \<Rightarrow> snapshot_error + pybytes" where
  "verify_behavioural_snapshot K I E bs source_records =
     bnd (authenticate_behavioural_snapshot K I E bs) (\<lambda>verified.
     bnd (verified_payload I verified) (\<lambda>payload.
     bnd (verify_behavioural_source K I (get payload (lit ''source'')) source_records
        (source_public_keys E) (expected_source_ledger E)) (\<lambda>(records, head).
     bnd (expect (Uncaught (Raised TypeError)) (as_obj (get payload (lit ''result'')))) (\<lambda>result.
     ensure (get result (lit ''observation_count'') = JInt (int (length (filter (is_observation (expected_actor E)) records))))
       (refuse ''result: source observation count mismatch'')
     (Inr verified)))))"

section \<open>The bounds of a tree\<close>

text \<open>The number of values in a tree, and its bounds on leaves and depth.\<close>

fun tree_items :: "json \<Rightarrow> nat" where
  "tree_items (JList vs) = Suc (sum_list (map tree_items vs))"
| "tree_items (JObj d) = Suc (sum_list (map (\<lambda>p. tree_items (snd p)) d))"
| "tree_items _ = 1"

fun tree_fits :: "nat \<Rightarrow> json \<Rightarrow> bool" where
  "tree_fits depth (JList vs) \<longleftrightarrow> depth \<le> max_tree_depth \<and> (\<forall>v \<in> set vs. tree_fits (depth + 1) v)"
| "tree_fits depth (JObj d) \<longleftrightarrow> depth \<le> max_tree_depth \<and> (\<forall>p \<in> set d. tree_fits (depth + 1) (snd p))"
| "tree_fits depth v \<longleftrightarrow> depth \<le> max_tree_depth \<and> tree_leaf_ok v"

lemma tree_items_children: "tree_items v = Suc (sum_list (map tree_items (tree_children v)))"
  by (cases v) (simp_all add: tree_children_def comp_def)

lemma tree_fits_children:
  "tree_fits depth v \<longleftrightarrow> depth \<le> max_tree_depth \<and> tree_leaf_ok v \<and> list_all (tree_fits (depth + 1)) (tree_children v)"
  by (cases v) (auto simp: tree_children_def tree_leaf_ok_def list_all_iff)

lemma bounded_loop_iff:
  assumes "n \<le> max_tree_items"
  shows "bounded_loop pending n \<longleftrightarrow>
    n + sum_list (map (\<lambda>(v, _). tree_items v) pending) \<le> max_tree_items \<and> list_all (\<lambda>(v, depth). tree_fits depth v) pending"
  using assms
proof (induction pending n rule: bounded_loop.induct)
  case (2 v depth pending n)
  have "sum_list (map (\<lambda>(v, _). tree_items v) (rev (map (\<lambda>w. (w, depth + 1)) (tree_children v)) @ pending))
      = sum_list (map tree_items (tree_children v)) + sum_list (map (\<lambda>(v, _). tree_items v) pending)"
    by (simp add: rev_map [symmetric] comp_def sum_list_rev)
  moreover have "list_all (\<lambda>(v, depth). tree_fits depth v) (rev (map (\<lambda>w. (w, depth + 1)) (tree_children v)))
      \<longleftrightarrow> list_all (tree_fits (depth + 1)) (tree_children v)"
    by (auto simp: list_all_iff)
  ultimately show ?case
    using 2 by (cases "n + 1 \<le> max_tree_items") (auto simp: tree_items_children [of v] tree_fits_children [of depth v])
qed simp

lemma bounded_tree_eq: "bounded_tree v \<longleftrightarrow> tree_items v \<le> max_tree_items \<and> tree_fits 0 v"
  unfolding bounded_tree_def by (subst bounded_loop_iff) (simp_all del: bounded_loop.simps)

text \<open>
  C18: the worklist of \<open>_bounded_tree\<close> ends on every value and accepts exactly the trees of at most
  100000 values, each at depth 32 or less, with integers of at most 53 bits and finite floats.
\<close>

theorem bounded_tree_iff:
  "bounded_tree v \<longleftrightarrow> tree_items v \<le> max_tree_items \<and> tree_fits 0 v"
  by (rule bounded_tree_eq)

section \<open>The rounded cutoff\<close>

lemma half_even_bounds:
  assumes "0 < b"
  shows "2 * b * half_even a b \<le> 2 * a + b" "2 * a \<le> 2 * b * half_even a b + b"
proof -
  define q r where "q = a div b" and "r = a mod b"
  have a: "a = q * b + r" "r < b" using assms by (simp_all add: q_def r_def)
  then show "2 * b * half_even a b \<le> 2 * a + b" "2 * a \<le> 2 * b * half_even a b + b"
    unfolding half_even_def Let_def q_def [symmetric] r_def [symmetric] by (auto simp: algebra_simps)
qed

lemma bit_length_bounds: "0 < n \<Longrightarrow> 2 ^ (bit_length n - 1) \<le> n \<and> n < 2 ^ bit_length n"
proof (induction n rule: bit_length.induct)
  case (1 n)
  show ?case
  proof (cases "n = 1")
    case True
    then show ?thesis by (simp add: bit_length.simps)
  next
    case False
    then have ih: "2 ^ (bit_length (n div 2) - 1) \<le> n div 2" "n div 2 < 2 ^ bit_length (n div 2)"
      using 1 by auto
    have l: "bit_length n = Suc (bit_length (n div 2))" using 1 by (simp add: bit_length.simps)
    obtain k where k: "bit_length (n div 2) = Suc k"
      using 1 False by (cases "bit_length (n div 2)") (auto simp: bit_length.simps split: if_splits)
    have "2 * (n div 2) \<le> n" "n < 2 * (n div 2) + 2" by simp_all
    then show ?thesis using ih unfolding l k by simp
  qed
qed


text \<open>Rounding moves a quotient by at most \<open>2 ^ (-53)\<close> of its value.\<close>

lemma scaled_range:
  assumes "0 < n" "0 < d" "e = int (bit_length n) - int (bit_length d) - 53"
  shows "d * 2 ^ nat e * 2 ^ 52 \<le> n * 2 ^ nat (- e)"
proof -
  obtain k where k: "bit_length n = Suc k"
    using assms(1) by (cases "bit_length n") (auto simp: bit_length.simps split: if_splits)
  have "d * 2 ^ nat e * 2 ^ 52 \<le> 2 ^ bit_length d * 2 ^ nat e * 2 ^ 52"
    using bit_length_bounds [OF assms(2)] by simp
  also have "\<dots> = 2 ^ (bit_length d + nat e + 52)" by (simp add: power_add)
  also have "bit_length d + nat e + 52 = k + nat (- e)" using assms(3) k by simp
  also have "(2 :: nat) ^ (k + nat (- e)) = 2 ^ k * 2 ^ nat (- e)" by (simp add: power_add)
  also have "\<dots> \<le> n * 2 ^ nat (- e)" using bit_length_bounds [OF assms(1)] by (simp add: k)
  finally show ?thesis .
qed

lemma double_of_error:
  assumes "0 < n" "0 < d" "double_of n d = (m, e)"
  shows "2 ^ 53 * \<bar>int (m * 2 ^ nat e * d) - int (n * 2 ^ nat (- e))\<bar> \<le> int (n * 2 ^ nat (- e))"
proof -
  define e0 where "e0 = int (bit_length n) - int (bit_length d) - 53"
  have r0: "d * 2 ^ nat e0 * 2 ^ 52 \<le> n * 2 ^ nat (- e0)"
    by (rule scaled_range [OF assms(1,2) e0_def])
  define a b where "a = n * 2 ^ nat (- e)" and "b = d * 2 ^ nat e"
  have e: "e = (if n * 2 ^ nat (- e0) < d * 2 ^ nat e0 * 2 ^ 53 then e0 else e0 + 1)" and m: "m = half_even a b"
    using assms(3) by (auto simp: double_of_def scaled_def Let_def a_def b_def simp flip: e0_def split: if_splits)
  have range: "b * 2 ^ 52 \<le> a"
  proof (cases "n * 2 ^ nat (- e0) < d * 2 ^ nat e0 * 2 ^ 53")
    case True
    then show ?thesis using r0 e by (simp add: a_def b_def)
  next
    case False
    then have e1: "e = e0 + 1" using e by simp
    show ?thesis
    proof (cases "0 \<le> e0")
      case True
      then have "nat e = Suc (nat e0)" "nat (- e) = 0" "nat (- e0) = 0" by (simp_all add: e1)
      then show ?thesis using False by (simp add: a_def b_def)
    next
      case neg: False
      then have "nat (- e0) = Suc (nat (- e))" "nat e = 0" "nat e0 = 0" by (simp_all add: e1)
      then show ?thesis using False by (simp add: a_def b_def)
    qed
  qed
  have b: "0 < b" using assms(2) by (simp add: b_def)
  have "int (2 * b * m) \<le> int (2 * a + b)" "int (2 * a) \<le> int (2 * b * m + b)"
    using half_even_bounds [OF b, of a] unfolding m [symmetric] by (simp_all only: of_nat_le_iff)
  then have "2 * \<bar>int (m * b) - int a\<bar> \<le> int b"
    by (simp add: abs_le_iff abs_if algebra_simps)
  then have "2 ^ 53 * \<bar>int (m * b) - int a\<bar> \<le> int b * 2 ^ 52" by simp
  also have "\<dots> \<le> int a" using range by (metis of_nat_le_iff of_nat_mult of_nat_numeral of_nat_power)
  finally show ?thesis by (simp add: a_def b_def mult.assoc mult.commute [of d])
qed


text \<open>The integer part of the product with 1000, from the two roundings.\<close>

lemma scaled_abs: "2 ^ 53 * \<bar>x\<bar> \<le> y \<Longrightarrow> 0 \<le> k \<Longrightarrow> 2 ^ 53 * \<bar>x * k\<bar> \<le> y * k" for x y k :: int
  using mult_right_mono [of "2 ^ 53 * \<bar>x\<bar>" y k] by (simp add: abs_mult mult.assoc)

lemma near_trans: "2 ^ 53 * \<bar>x - y\<bar> \<le> y \<Longrightarrow> y \<le> 2 * z \<Longrightarrow> 2 ^ 53 * \<bar>y - z\<bar> \<le> z \<Longrightarrow> 2 ^ 53 * \<bar>x - z\<bar> \<le> 3 * z" for x y z :: int
  by (simp add: abs_if split: if_splits)

lemma rounded_product:
  fixes n p d q u :: int
  assumes "2 ^ 53 * \<bar>n * 1000000 - u * d\<bar> \<le> u * d" "2 ^ 53 * \<bar>p * d - 1000 * n * q\<bar> \<le> 1000 * n * q"
    and "0 < d" "0 < q" "0 \<le> u" "u \<le> 2 ^ 58"
  shows "u - 1200 \<le> 1000 * (p div q) \<and> 1000 * (p div q) \<le> u + 200"
proof -
  define w where "w = u * d"
  have "0 \<le> w" using assms(3,5) by (simp add: w_def)
  then have "n * 1000000 \<le> 2 * w" using assms(1) by (simp flip: w_def add: abs_if split: if_splits)
  then have n: "n * 1000000 \<le> 2 * (u * d)" by (simp add: w_def)
  have "2 ^ 53 * \<bar>1000 * p * d - 1000000 * n * q\<bar> \<le> 1000000 * n * q"
    using scaled_abs [OF assms(2), of 1000] by (simp add: algebra_simps)
  moreover have "1000000 * n * q \<le> 2 * (u * d) * q" using mult_right_mono [OF n, of q] assms(4) by simp
  moreover have "2 ^ 53 * \<bar>1000000 * n * q - u * d * q\<bar> \<le> u * d * q"
    using scaled_abs [OF assms(1), of q] assms(4) by (simp add: algebra_simps)
  ultimately have "2 ^ 53 * \<bar>1000 * p * d - u * d * q\<bar> \<le> 3 * (u * d * q)"
    using near_trans [of "1000 * p * d" "1000000 * n * q" "u * d * q"] by (simp add: mult.assoc)
  moreover have "1000 * p * d - u * d * q = d * (1000 * p - u * q)" by (simp add: algebra_simps)
  moreover have "2 ^ 53 * \<bar>d * (1000 * p - u * q)\<bar> = d * (2 ^ 53 * \<bar>1000 * p - u * q\<bar>)"
    using assms(3) by (simp add: abs_mult [of d])
  moreover have "3 * (u * d * q) = d * (3 * (u * q))" by (simp add: algebra_simps)
  ultimately have "d * (2 ^ 53 * \<bar>1000 * p - u * q\<bar>) \<le> d * (3 * (u * q))" by (simp only:)
  then have "2 ^ 53 * \<bar>1000 * p - u * q\<bar> \<le> 3 * (u * q)" using assms(3) by (simp only: mult_le_cancel_left_pos)
  also have "\<dots> \<le> 3 * (2 ^ 58 * q)" using assms(4,6) by simp
  finally have close: "\<bar>1000 * p - u * q\<bar> \<le> 96 * q" by simp
  define k where "k = p div q"
  have "p = q * k + p mod q" "0 \<le> p mod q" "p mod q < q" using assms(4) by (simp_all add: k_def)
  then have p: "q * k \<le> p" "p \<le> q * k + q" by linarith+
  have "q * (1000 * k) \<le> 1000 * p" using p(1) by simp
  also have "\<dots> \<le> q * (u + 96)" using close by (simp add: algebra_simps)
  finally have up: "1000 * k \<le> u + 96" using assms(4) by (simp only: mult_le_cancel_left_pos)
  have "q * (u - 96) \<le> 1000 * p" using close by (simp add: algebra_simps)
  also have "\<dots> \<le> q * (1000 * k + 1000)" using p(2) by (simp add: algebra_simps)
  finally have "u - 96 \<le> 1000 * k + 1000" using assms(4) by (simp only: mult_le_cancel_left_pos)
  then show ?thesis using up by (simp add: k_def)
qed

lemma double_of_positive: "0 < n \<Longrightarrow> 0 < d \<Longrightarrow> double_of n d = (m, e) \<Longrightarrow> 0 < m"
  using double_of_error [of n d m e] by (cases m) auto



section \<open>What an accepted history is\<close>

lemma refuse_simps: "object_with v names reason = Inr d \<longleftrightarrow> v = JObj d \<and> keys_exact d names"
  "safe_int v least reason = Inr n \<longleftrightarrow> v = JInt n \<and> least \<le> n \<and> n \<le> safe_integer"
  "short_text v reason = Inr s \<longleftrightarrow> v = JStr s \<and> s \<noteq> [] \<and> length s \<le> 256"
  "guarded E reason r = Inr x \<longleftrightarrow> r = Inr x"
  by (auto simp: object_with_def safe_int_def short_text_def guarded_def raise_simps as_Some_iff split: sum.splits)

text \<open>A retained value and the record its canonical text reads back to.\<close>

definition reread :: "interp \<Rightarrow> json \<Rightarrow> (pystr, json) dict \<Rightarrow> bool" where
  "reread I v r \<longleftrightarrow>
     (\<exists>bs t. canonical_json_bytes I v = Inr bs \<and> utf8_decode bs = Some t \<and> strict_json_loads I t = Inr (JObj r))"

lemma checked_records_iff:
  "checked_records I n p vs = Inr (h, rs) \<longleftrightarrow>
    list_all2 (reread I) vs rs \<and> valid_from I n p rs \<and> h = (if rs = [] then p else seal_text (last rs))"
proof (induction vs arbitrary: n p h rs)
  case (Cons v vs)
  have "checked_records I n p (v # vs) = Inr (h, rs) \<longleftrightarrow>
      (\<exists>r rest. rs = r # rest \<and> reread I v r \<and> get r k_seq = JInt (int n + 1) \<and> record_link r = JStr p \<and> sealed I r
        \<and> checked_records I (n + 1) (seal_text r) vs = Inr (h, rest))" (is "_ \<longleftrightarrow> ?r")
  proof
    assume "checked_records I n p (v # vs) = Inr (h, rs)"
    then obtain bs t r' where "canonical_json_bytes I v = Inr bs" "utf8_decode bs = Some t"
        "check_record I t n p = Inr (Inr r')" "bnd (checked_records I (n + 1) (fst r') vs) (\<lambda>(head, rest). Inr (head, snd r' # rest)) = Inr (h, rs)"
      by (auto simp: case_prod_unfold split: sum.splits option.splits)
    then show ?r
      by (cases r') (auto simp: check_record_Inr reread_def bnd_Inr_iff)
  next
    assume ?r
    then obtain r rest bs t where "rs = r # rest" "canonical_json_bytes I v = Inr bs" "utf8_decode bs = Some t"
        "check_record I t n p = Inr (Inr (seal_text r, r))" "checked_records I (n + 1) (seal_text r) vs = Inr (h, rest)"
      by (auto simp: reread_def check_record_Inr)
    then show "checked_records I n p (v # vs) = Inr (h, rs)" by simp
  qed
  also have "\<dots> \<longleftrightarrow> list_all2 (reread I) (v # vs) rs \<and> valid_from I n p rs \<and> h = (if rs = [] then p else seal_text (last rs))"
    unfolding Cons.IH by (cases rs) auto
  finally show ?case .
qed auto

text \<open>The source head, as the object that states it, and the operator's key that signed it.\<close>

definition source_head :: "json \<Rightarrow> head_attestation \<Rightarrow> bool" where
  "source_head source a \<longleftrightarrow>
     (\<exists>block head. source = JObj block \<and> set (keys block) = {lit ''head''} \<and> get block (lit ''head'') = JObj head
        \<and> set (keys head) = set attestation_block_keys
        \<and> a = \<lparr>max_seq = get head k_max_seq, head_record_hash = get head k_head_record_hash, recorded_at = get head k_recorded_at,
            trust_root_id = get head k_trust_root_id, signature = get head k_signature, ledger_id = get head k_ledger_id\<rparr>)"

lemma source_head_iff:
  "source_head source a \<longleftrightarrow> (\<exists>block head. source = JObj block \<and> keys_exact block [lit ''head''] \<and> get block (lit ''head'') = JObj head
     \<and> keys_exact head attestation_block_keys \<and> a = head_of_block head)"
  by (simp add: source_head_def head_of_block_def keys_exact_iff)

definition head_signed_by :: "crypto \<Rightarrow> interp \<Rightarrow> (pystr, json) dict \<Rightarrow> head_attestation \<Rightarrow> bool" where
  "head_signed_by K I public_keys a \<longleftrightarrow>
     (\<exists>anchor hex key sig raw message.
        trust_root_id a = JStr anchor \<and> anchor \<noteq> [] \<and> map_of public_keys anchor = Some (JStr hex) \<and> from_hex hex = Some key
        \<and> length key = 32 \<and> signature a = JStr (lit ''ed25519:'' @ sig) \<and> b64decode True sig = Some raw
        \<and> canonical_json_bytes I (JObj (payload_dict a)) = Inr message \<and> ed25519_verify K key raw message)"

lemma decoded_head_signature: "decode_head_signature s = Some raw \<longleftrightarrow> (\<exists>sig. s = lit ''ed25519:'' @ sig \<and> b64decode True sig = Some raw)"
  by (auto simp: decode_head_signature_def ed25519_prefix_def starts_with_iff)

lemma configured_key_iff:
  "configured_key public_keys name = Inr key \<longleftrightarrow> (\<exists>hex. map_of public_keys name = Some (JStr hex) \<and> from_hex hex = Some key)"
  by (auto simp: configured_key_def raise_simps split: option.splits json.splits)

lemma verify_source_head_iff:
  assumes "trust_root_id a = JStr anchor"
  shows "verify_source_head K I keys_v anchor a = Inr True \<longleftrightarrow> head_signed_by K I keys_v a"
proof -
  have "verify_source_head K I keys_v anchor a = Inr True \<longleftrightarrow>
      (\<exists>key v. configured_key keys_v anchor = Inr key \<and> ed25519_head_verifier key anchor = Inr v \<and> ed25519_accepts K I v a)"
    by (auto simp: verify_source_head_def ed25519_accepts_def raise_simps)
  also have "\<dots> \<longleftrightarrow> head_signed_by K I keys_v a"
    unfolding head_signed_by_def configured_key_iff ed25519_accepts_iff decoded_head_signature attestation_payload_def
    using assms by (auto simp: ed25519_head_verifier_def raise_simps)
  finally show ?thesis .
qed

lemma behavioural_source_iff:
  "verify_behavioural_source K I source records public_keys ledger = Inr (rs, a) \<longleftrightarrow>
    source_head source a \<and> ledger_id a = JStr ledger \<and> head_signed_by K I public_keys a
    \<and> (\<exists>anchor moment. trust_root_id a = JStr anchor \<and> anchor \<noteq> [] \<and> length anchor \<le> 256
         \<and> recorded_at a = JStr moment \<and> moment \<noteq> [] \<and> length moment \<le> 256)
    \<and> list_all2 (reread I) records rs \<and> valid_ledger I rs
    \<and> max_seq a = JInt (int (length rs)) \<and> 0 < length rs \<and> length rs \<le> max_source_records
    \<and> head_record_hash a = JStr (seal_text (last rs))"
  (is "?l \<longleftrightarrow> ?r")
proof
  assume ?l
  then obtain block head seq anchor moment where
    "source = JObj block" "keys_exact block [lit ''head'']" "get block (lit ''head'') = JObj head"
    "keys_exact head attestation_block_keys" "get head k_max_seq = JInt seq" "get head k_trust_root_id = JStr anchor"
    "anchor \<noteq> []" "length anchor \<le> 256" "get head k_recorded_at = JStr moment" "moment \<noteq> []" "length moment \<le> 256"
    "get head k_ledger_id = JStr ledger" "verify_source_head K I public_keys anchor (head_of_block head) = Inr True"
    "records \<noteq> []" "length records \<le> max_source_records" "int (length records) = seq"
    "list_all2 (reread I) records rs" "valid_ledger I rs"
    "JStr (if rs = [] then genesis_hash else seal_text (last rs)) = get head k_head_record_hash" "a = head_of_block head"
    by (auto simp: verify_behavioural_source_def raise_simps refuse_simps checked_records_iff)
  then show ?r
    using verify_source_head_iff [of a anchor K I public_keys] list_all2_lengthD [of "reread I" records rs]
    by (auto simp: source_head_iff head_of_block_def split: if_splits)
next
  assume r: ?r
  then obtain block head anchor moment where h:
    "source = JObj block" "keys_exact block [lit ''head'']" "get block (lit ''head'') = JObj head"
    "keys_exact head attestation_block_keys" "a = head_of_block head" "get head k_trust_root_id = JStr anchor"
    "anchor \<noteq> []" "length anchor \<le> 256" "get head k_recorded_at = JStr moment" "moment \<noteq> []" "length moment \<le> 256"
    by (auto simp: source_head_iff head_of_block_def)
  have len: "length records = length rs" using r by (auto dest: list_all2_lengthD)
  have "length rs < 2 ^ 53" using r by (simp add: max_source_records_def)
  moreover have "checked_records I 0 genesis_hash records = Inr (seal_text (last rs), rs)"
    unfolding checked_records_iff using r by auto
  moreover have "\<exists>s. signature a = JStr s" using r by (auto simp: head_signed_by_def)
  ultimately show ?l
    using h r len verify_source_head_iff [of a anchor K I public_keys]
    by (auto simp: verify_behavioural_source_def raise_simps refuse_simps head_of_block_def safe_integer_def Suc_le_eq)
qed


text \<open>One signed head pins the whole history, whatever records accompany it.\<close>

lemma source_history_unique:
  assumes "verify_behavioural_source K I source records public_keys ledger = Inr (rs, a)"
    and "verify_behavioural_source K I source records' public_keys ledger = Inr (rs', a')"
    and "list_all (\<lambda>r. json_ok (JObj r) \<and> float_codec I (JObj r)) (rs @ rs')"
  shows "list_all2 record_same rs rs' \<or> list_ex (\<lambda>(r, r'). record_clash I r r') (zip rs rs')"
proof -
  note v = assms(1) [unfolded behavioural_source_iff] and v' = assms(2) [unfolded behavioural_source_iff]
  have "a = a'" using v v' by (auto simp: source_head_iff)
  then have len: "length rs = length rs'" and head: "seal_text (last rs) = seal_text (last rs')" using v v' by auto
  have wf: "list_all (chain_record I) xs" if "valid_ledger I xs" "list_all (\<lambda>r. json_ok (JObj r) \<and> float_codec I (JObj r)) xs" for xs
    using that valid_from_links [OF that(1)] valid_from_chained [OF that(1)]
    by (auto simp: chain_record_def sound_record_def list_all_iff)
  have seal: "chain_head record_seal (JStr genesis_hash) xs = JStr (seal_text (last xs))" if "valid_ledger I xs" "xs \<noteq> []" for xs
    using valid_from_chained [OF that(1)] that(2) sealed_seal [of I "last xs"] by (auto simp: chain_head_def list_all_iff)
  show ?thesis
  proof (rule ledger_chain.tamper_evident)
    show "list_all (chain_record I) rs" "list_all (chain_record I) rs'" using wf v v' assms(3) by auto
    show "chained record_link record_seal (JStr genesis_hash) rs" "chained record_link record_seal (JStr genesis_hash) rs'"
      using v v' valid_from_chained by blast+
    show "chain_head record_seal (JStr genesis_hash) rs = chain_head record_seal (JStr genesis_hash) rs'"
      using seal v v' head by auto
  qed (rule len)
qed

section \<open>The snapshot as a whole\<close>

text \<open>Bytes of bounded size that hold one strict JSON object of bounded shape, with a payload and a signature.\<close>

definition snapshot_read :: "interp \<Rightarrow> pybytes \<Rightarrow> (pystr, json) dict \<Rightarrow> bool" where
  "snapshot_read I bs doc \<longleftrightarrow>
     length bs \<le> 1048576 \<and> (\<exists>t. utf8_decode bs = Some t \<and> strict_json_loads I t = Inr (JObj doc))
     \<and> tree_items (JObj doc) \<le> 100000 \<and> tree_fits 0 (JObj doc) \<and> set (keys doc) = {lit ''payload'', lit ''signature''}"

lemma parse_iff: "parse_behavioural_snapshot I bs = Inr doc \<longleftrightarrow> snapshot_read I bs doc"
  unfolding parse_behavioural_snapshot_def snapshot_read_def raise_simps refuse_simps bounded_tree_eq keys_exact_iff
    snapshot_keys_def max_snapshot_bytes_def max_tree_items_def
  by auto

lemma written_iff:
  assumes "snapshot_read I bs doc"
  shows "snapshot_bytes I (JObj doc) = Inr data \<longleftrightarrow>
    canonical_json_bytes I (JObj doc) = Inr data \<and> (\<exists>again. snapshot_read I data again)"
proof -
  have kept: "(case r of Inr _ \<Rightarrow> Inr bs | Inl (Uncaught e) \<Rightarrow> Inl (Uncaught e) | Inl _ \<Rightarrow> Inl (refuse reason)) = Inr x
      \<longleftrightarrow> (\<exists>d. r = Inr d) \<and> bs = x" for r :: "snapshot_error + (pystr, json) dict" and bs x :: pybytes and reason
    by (cases r) (simp_all split: snapshot_error.split)
  have "bounded_tree (JObj doc)" using assms by (simp add: snapshot_read_def bounded_tree_eq max_tree_items_def)
  then have "snapshot_bytes I (JObj doc) = Inr data \<longleftrightarrow>
      canonical_json_bytes I (JObj doc) = Inr data \<and> (\<exists>again. parse_behavioural_snapshot I data = Inr again)"
    unfolding snapshot_bytes_def raise_simps refuse_simps kept by auto
  then show ?thesis by (simp only: parse_iff)
qed

text \<open>The signature of an observer that the operator trusts, over the domain-separated payload.\<close>

definition signed_by_observer :: "crypto \<Rightarrow> interp \<Rightarrow> snapshot_expectations \<Rightarrow> (pystr, json) dict \<Rightarrow> json \<Rightarrow> bool" where
  "signed_by_observer K I E payload sig \<longleftrightarrow>
     (\<exists>issuer hex key s raw message.
        get payload (lit ''issuer'') = JStr issuer \<and> map_of (observer_public_keys E) issuer = Some (JStr hex)
        \<and> from_hex hex = Some key \<and> length key = 32
        \<and> sig = JStr s \<and> length s \<le> 128 \<and> b64decode True s = Some raw \<and> length raw = 64
        \<and> canonical_json_bytes I (JObj payload) = Inr message
        \<and> ed25519_verify K key raw (map of_nat (lit ''ambit.behavioural.snapshot.v1'') @ [0] @ message))"

lemma observer_signed_iff: "observer_signed K I E payload sig = Inr True \<longleftrightarrow> signed_by_observer K I E payload sig"
proof -
  have "snapshot_signature sig = Some raw \<longleftrightarrow>
      (\<exists>s. sig = JStr s \<and> length s \<le> 128 \<and> b64decode True s = Some raw \<and> length raw = 64)" for raw
    by (auto simp: snapshot_signature_def split: json.splits option.splits if_splits)
  then show ?thesis
    unfolding observer_signed_def signed_by_observer_def raise_simps configured_key_iff as_Some_iff signing_domain_def append_assoc
    by auto
qed

text \<open>
  The records beside the snapshot, replayed: they are canonically re-readable, form a whole sealed
  ledger from the genesis hash on, and end at the record that the signed head of the source states.
\<close>

definition source_replayed ::
  "crypto \<Rightarrow> interp \<Rightarrow> snapshot_expectations \<Rightarrow> json \<Rightarrow> json list \<Rightarrow> (pystr, json) dict list \<Rightarrow> bool" where
  "source_replayed K I E source records rs \<longleftrightarrow>
     (\<exists>a anchor moment. source_head source a \<and> ledger_id a = JStr (expected_source_ledger E)
        \<and> head_signed_by K I (source_public_keys E) a
        \<and> trust_root_id a = JStr anchor \<and> length anchor \<le> 256
        \<and> recorded_at a = JStr moment \<and> moment \<noteq> [] \<and> length moment \<le> 256
        \<and> list_all2 (reread I) records rs \<and> valid_ledger I rs
        \<and> max_seq a = JInt (int (length rs)) \<and> rs \<noteq> [] \<and> length rs \<le> 4096
        \<and> head_record_hash a = get (last rs) k_record_hash)"

lemma replayed_iff:
  "(\<exists>a. verify_behavioural_source K I source records (source_public_keys E) (expected_source_ledger E) = Inr (rs, a))
    \<longleftrightarrow> source_replayed K I E source records rs"
proof -
  have last: "JStr (seal_text (last rs)) = get (last rs) k_record_hash" if "valid_ledger I rs" "rs \<noteq> []"
    using valid_from_chained [OF that(1)] that(2) sealed_seal [of I "last rs"] by (auto simp: list_all_iff record_seal_def)
  show ?thesis
    unfolding behavioural_source_iff source_replayed_def max_source_records_def length_greater_0_conv
    using last by (fastforce simp: head_signed_by_def)
qed

text \<open>What a snapshot states of its identity, its validity and its result, against the caller's expectations.\<close>

definition states_fields :: "(pystr, json) dict \<Rightarrow> bool" where
  "states_fields payload \<longleftrightarrow>
     set (keys payload) = lit ` {''schema'', ''issuer'', ''actor_id'', ''domain'', ''audience'', ''issued_at_ms'',
       ''expires_at_ms'', ''source'', ''model_config'', ''result''}"

definition states_identity :: "snapshot_expectations \<Rightarrow> (pystr, json) dict \<Rightarrow> bool" where
  "states_identity E payload \<longleftrightarrow>
     get payload (lit ''schema'') = JStr (lit ''ambit.behavioural.snapshot.v1'')
     \<and> (\<exists>issuer. get payload (lit ''issuer'') = JStr issuer \<and> issuer \<noteq> [] \<and> length issuer \<le> 256)
     \<and> list_all (\<lambda>(k, s). get payload (lit k) = JStr s \<and> s \<noteq> [] \<and> length s \<le> 256)
         [(''actor_id'', expected_actor E), (''domain'', expected_domain E), (''audience'', expected_audience E)]"

definition states_window :: "snapshot_expectations \<Rightarrow> (pystr, json) dict \<Rightarrow> int \<Rightarrow> bool" where
  "states_window E payload issued \<longleftrightarrow>
     (\<exists>expiry. get payload (lit ''issued_at_ms'') = JInt issued \<and> get payload (lit ''expires_at_ms'') = JInt expiry
        \<and> 0 \<le> issued \<and> issued \<le> evaluation_time_ms E \<and> evaluation_time_ms E < expiry \<and> expiry \<le> safe_integer
        \<and> evaluation_time_ms E - issued \<le> max_age_ms E \<and> expiry - issued \<le> max_age_ms E
        \<and> 1 \<le> max_age_ms E \<and> max_age_ms E \<le> safe_integer)"

definition states_head :: "crypto \<Rightarrow> interp \<Rightarrow> snapshot_expectations \<Rightarrow> (pystr, json) dict \<Rightarrow> int \<Rightarrow> head_attestation \<Rightarrow> bool" where
  "states_head K I E payload issued a \<longleftrightarrow>
     source_head (get payload (lit ''source'')) a \<and> head_signed_by K I (source_public_keys E) a
     \<and> ledger_id a = JStr (expected_source_ledger E)
     \<and> (\<exists>n. max_seq a = JInt n \<and> 1 \<le> n \<and> n \<le> safe_integer)
     \<and> list_all (\<lambda>v. \<exists>s. v = JStr s \<and> s \<noteq> [] \<and> length s \<le> 256)
         [recorded_at a, trust_root_id a, ledger_id a, signature a, head_record_hash a]
     \<and> (\<exists>moment wall off. recorded_at a = JStr moment \<and> fromisoformat (replace_z moment) = Some (wall, Some off)
          \<and> (let cutoff = timestamp_ms (wall - off - unix_epoch)
             in cutoff \<le> evaluation_time_ms E \<and> evaluation_time_ms E - cutoff \<le> max_age_ms E \<and> cutoff \<le> issued))"

text \<open>A number from 0 to 1, as an integer or as the value of a double.\<close>

definition states_score :: "json \<Rightarrow> bool" where
  "states_score v \<longleftrightarrow> v = JInt 0 \<or> v = JInt 1
     \<or> (\<exists>s m e. v = JFloat (Fin s m e) \<and> (let x = (if s then -1 else 1) * of_nat m * (2 :: rat) powi e in 0 \<le> x \<and> x \<le> 1))"

lemma powi_split: "(2 :: rat) powi e = 2 ^ nat e / 2 ^ nat (- e)"
proof (cases "0 \<le> e")
  case True
  then show ?thesis unfolding power_int_def by simp
next
  case False
  then show ?thesis unfolding power_int_def by (simp add: power_one_over)
qed

lemma score_iff: "unit_number v \<longleftrightarrow> states_score v"
proof -
  have "of_nat m * (2 :: rat) powi e \<le> 1 \<longleftrightarrow> m * 2 ^ nat e \<le> 2 ^ nat (- e)" for m e
  proof -
    have "of_nat m * (2 :: rat) powi e \<le> 1 \<longleftrightarrow> of_nat (m * 2 ^ nat e) \<le> (of_nat (2 ^ nat (- e)) :: rat)"
      unfolding powi_split by (simp add: pos_divide_le_eq)
    then show ?thesis by (simp only: of_nat_le_iff)
  qed
  moreover have "0 < of_nat m * (2 :: rat) powi e \<longleftrightarrow> m \<noteq> 0" for m e
    unfolding powi_split by (simp add: zero_less_divide_iff zero_less_mult_iff)
  ultimately have "unit_number (JFloat (Fin s m e))
      \<longleftrightarrow> (let x = (if s then -1 else 1) * of_nat m * (2 :: rat) powi e in 0 \<le> x \<and> x \<le> 1)" for s m e
    by (cases s; cases "m = 0") (auto simp: unit_number_def not_le Let_def)
  then show ?thesis
    by (auto simp: unit_number_def states_score_def split: json.splits pyfloat.splits)
qed

definition states_result :: "interp \<Rightarrow> snapshot_expectations \<Rightarrow> (pystr, json) dict \<Rightarrow> head_attestation \<Rightarrow> bool" where
  "states_result I E payload a \<longleftrightarrow>
     (\<exists>config version result n state.
        get payload (lit ''model_config'') = JObj config \<and> hash_object I (JObj config) = Inr (expected_model_config_hash E)
      \<and> get config (lit ''model_version'') = JStr version \<and> version \<noteq> [] \<and> length version \<le> 256
      \<and> get payload (lit ''result'') = JObj result \<and> set (keys result) = lit ` {''score'', ''score_band'', ''confidence_band'', ''observation_count'', ''posterior_state''}
      \<and> states_score (get result (lit ''score''))
      \<and> get result (lit ''score_band'') \<in> JStr ` lit ` {''normal'', ''elevated'', ''anomalous'', ''critical''}
      \<and> get result (lit ''confidence_band'') \<in> JStr ` lit ` {''low'', ''medium'', ''high''}
      \<and> get result (lit ''observation_count'') = JInt n \<and> 1 \<le> n \<and> n \<le> safe_integer
      \<and> (\<exists>m. max_seq a = JInt m \<and> n \<le> m)
      \<and> get result (lit ''posterior_state'') = JObj state \<and> get state (lit ''actor_id'') = JStr (expected_actor E)
      \<and> get state (lit ''observation_count'') = JInt n)"

lemma identity_iff: "check_identity E payload = Inr () \<longleftrightarrow> states_identity E payload"
  by (auto simp: check_identity_def states_identity_def snapshot_schema_def raise_simps refuse_simps)

lemma window_iff: "check_window E payload = Inr issued \<longleftrightarrow> states_window E payload issued"
  by (auto simp: check_window_def states_window_def raise_simps refuse_simps)

lemma cutoff_iff:
  "source_cutoff v = Some c \<longleftrightarrow> (\<exists>moment wall off. v = JStr moment \<and> fromisoformat (replace_z moment) = Some (wall, Some off)
     \<and> c = timestamp_ms (wall - off - unix_epoch))"
  by (auto simp: source_cutoff_def split: json.splits option.splits)

lemma head_iff:
  "(\<exists>seq anchor head. check_head_block E payload = Inr (seq, anchor, head)
     \<and> verify_source_head K I (source_public_keys E) anchor (head_of_block head) = Inr True
     \<and> check_cutoff E issued head = Inr () \<and> a = head_of_block head \<and> P seq)
   \<longleftrightarrow> states_head K I E payload issued a \<and> (\<exists>seq. max_seq a = JInt seq \<and> P seq)"
  (is "?l \<longleftrightarrow> ?r")
proof
  assume ?l
  then obtain seq anchor head block where h: "get payload (lit ''source'') = JObj block" "keys_exact block [lit ''head'']"
      "get block (lit ''head'') = JObj head" "keys_exact head attestation_block_keys" "get head k_max_seq = JInt seq"
      "get head k_trust_root_id = JStr anchor" "1 \<le> seq" "seq \<le> safe_integer" "check_cutoff E issued head = Inr ()"
      "get head k_ledger_id = JStr (expected_source_ledger E)"
      "verify_source_head K I (source_public_keys E) anchor (head_of_block head) = Inr True" "a = head_of_block head" "P seq"
      "list_all (\<lambda>v. \<exists>s. v = JStr s \<and> s \<noteq> [] \<and> length s \<le> 256)
         [get head k_recorded_at, get head k_trust_root_id, get head k_ledger_id, get head k_signature, get head k_head_record_hash]"
    by (auto simp: check_head_block_def raise_simps refuse_simps)
  then show ?r
    using verify_source_head_iff [of a anchor K I "source_public_keys E"]
    by (auto simp: states_head_def source_head_iff head_of_block_def check_cutoff_def cutoff_iff Let_def raise_simps)
next
  assume r: ?r
  then obtain block head anchor where h: "get payload (lit ''source'') = JObj block" "keys_exact block [lit ''head'']"
      "get block (lit ''head'') = JObj head" "keys_exact head attestation_block_keys" "a = head_of_block head"
      "get head k_trust_root_id = JStr anchor"
    by (auto simp: states_head_def source_head_iff head_of_block_def)
  then show ?l
    using r verify_source_head_iff [of a anchor K I "source_public_keys E"]
    by (auto simp: check_head_block_def check_cutoff_def cutoff_iff states_head_def Let_def head_of_block_def raise_simps refuse_simps)
qed

lemma result_iff:
  "check_model_config I E payload = Inr () \<and> (\<exists>seq. max_seq a = JInt seq \<and> check_result E payload seq = Inr ())
    \<longleftrightarrow> states_result I E payload a"
  by (auto simp: check_model_config_def check_result_def states_result_def raise_simps refuse_simps keys_exact_iff result_keys_def score_iff)

lemma payload_iff: "keys_exact payload payload_keys \<longleftrightarrow> states_fields payload"
  by (simp add: keys_exact_iff payload_keys_def states_fields_def)

text \<open>What the authentication alone establishes.\<close>

lemma authenticate_iff:
  "authenticate_behavioural_snapshot K I E bs = Inr data \<longleftrightarrow>
    (\<exists>doc payload issued a.
       snapshot_read I bs doc \<and> get doc (lit ''payload'') = JObj payload
     \<and> states_fields payload \<and> states_identity E payload \<and> states_window E payload issued
     \<and> signed_by_observer K I E payload (get doc (lit ''signature''))
     \<and> states_head K I E payload issued a \<and> states_result I E payload a
     \<and> canonical_json_bytes I (JObj doc) = Inr data \<and> (\<exists>again. snapshot_read I data again))" (is "_ \<longleftrightarrow> ?r")
proof -
  have "authenticate_behavioural_snapshot K I E bs = Inr data \<longleftrightarrow>
      (\<exists>doc payload issued a.
       snapshot_read I bs doc \<and> get doc (lit ''payload'') = JObj payload
     \<and> keys_exact payload payload_keys \<and> check_identity E payload = Inr () \<and> check_window E payload = Inr issued
     \<and> observer_signed K I E payload (get doc (lit ''signature'')) = Inr True
     \<and> check_model_config I E payload = Inr ()
     \<and> (\<exists>seq anchor head. check_head_block E payload = Inr (seq, anchor, head)
         \<and> verify_source_head K I (source_public_keys E) anchor (head_of_block head) = Inr True
         \<and> check_cutoff E issued head = Inr () \<and> a = head_of_block head \<and> check_result E payload seq = Inr ())
     \<and> snapshot_bytes I (JObj doc) = Inr data)"
    unfolding authenticate_behavioural_snapshot_def parse_iff [symmetric] by (auto simp: raise_simps refuse_simps)
  also have "\<dots> \<longleftrightarrow> ?r"
    unfolding head_iff identity_iff window_iff result_iff [symmetric] observer_signed_iff payload_iff
    using written_iff [of I bs _ data] by blast
  finally show ?thesis .
qed

text \<open>
  C16: a behavioural snapshot is accepted exactly if an operator-trusted observer signed a statement for this actor,
  domain, audience and model that is valid now, its source head is signed and recent, and the records up to that head
  form its whole sealed chain and hold exactly as many decisions of the actor as the retained statement counts.
\<close>

theorem behavioural_snapshot_iff:
  "verify_behavioural_snapshot K I E bs records = Inr data \<longleftrightarrow>
    (\<exists>doc payload issued a again retained rs result.
       snapshot_read I bs doc \<and> get doc (lit ''payload'') = JObj payload
     \<and> states_fields payload \<and> states_identity E payload \<and> states_window E payload issued
     \<and> signed_by_observer K I E payload (get doc (lit ''signature''))
     \<and> states_head K I E payload issued a \<and> states_result I E payload a
     \<and> canonical_json_bytes I (JObj doc) = Inr data
     \<and> snapshot_read I data again \<and> get again (lit ''payload'') = JObj retained
     \<and> source_replayed K I E (get retained (lit ''source'')) records rs
     \<and> get retained (lit ''result'') = JObj result
     \<and> get result (lit ''observation_count'') = JInt (int (length
          [r \<leftarrow> rs. get r (lit ''record_type'') = JStr (lit ''decision'') \<and> get r (lit ''actor_id'') = JStr (expected_actor E)])))"
proof -
  have case_pair: "(\<exists>x. r = Inr x \<and> (case x of (y, z) \<Rightarrow> f y) = Inr d) \<longleftrightarrow> (\<exists>y. (\<exists>z. r = Inr (y, z)) \<and> f y = Inr d)"
    for r :: "snapshot_error + (pystr, json) dict list \<times> head_attestation" and f and d :: pybytes
    by auto
  have "verify_behavioural_snapshot K I E bs records = Inr data \<longleftrightarrow>
      authenticate_behavioural_snapshot K I E bs = Inr data
      \<and> (\<exists>again retained rs result. snapshot_read I data again \<and> get again (lit ''payload'') = JObj retained
        \<and> source_replayed K I E (get retained (lit ''source'')) records rs
        \<and> get retained (lit ''result'') = JObj result
        \<and> get result (lit ''observation_count'') = JInt (int (length
            [r \<leftarrow> rs. get r (lit ''record_type'') = JStr (lit ''decision'') \<and> get r (lit ''actor_id'') = JStr (expected_actor E)])))"
    unfolding verify_behavioural_snapshot_def verified_payload_def raise_simps parse_iff as_Some_iff is_observation_def
      replayed_iff [symmetric] case_pair by blast
  then show ?thesis unfolding authenticate_iff by blast
qed

end
