(* ===== verification/Ingress_Url.thy ===== *)
theory Ingress_Url
  imports Moments
begin

text \<open>
  The destination of a counterparty call, \<open>validate_counterparty_ingress_url\<close> of
  \<open>resource_protocol.py\<close>, with the part of \<open>urllib.parse.urlsplit\<close> and of
  \<open>ipaddress\<close> it rests on. The Unicode normalisation NFKC is a parameter.
\<close>

section \<open>Addresses in brackets\<close>

fun split_on :: "nat \<Rightarrow> pystr \<Rightarrow> pystr list" where
  "split_on x [] = [[]]"
| "split_on x (c # s) =
     (case split_on x s of
        [] \<Rightarrow> [[c]]
      | p # ps \<Rightarrow> if c = x then [] # p # ps else (c # p) # ps)"

definition hex_char :: "nat \<Rightarrow> bool" where
  "hex_char c \<longleftrightarrow> is_lower_hex c \<or> 65 \<le> c \<and> c \<le> 70"

definition hextet :: "pystr \<Rightarrow> bool" where
  "hextet s \<longleftrightarrow> s \<noteq> [] \<and> length s \<le> 4 \<and> list_all hex_char s"

definition octet :: "pystr \<Rightarrow> bool" where
  "octet s \<longleftrightarrow> s \<noteq> [] \<and> length s \<le> 3 \<and> list_all is_dec_digit s \<and> (s = [48] \<or> hd s \<noteq> 48)
     \<and> foldl (\<lambda>a c. 10 * a + (c - 48)) 0 s \<le> 255"

definition ipv4_address :: "pystr \<Rightarrow> bool" where
  "ipv4_address s \<longleftrightarrow> length (split_on 46 s) = 4 \<and> list_all octet (split_on 46 s)"

text \<open>An IPv4 suffix stands for two parts; one inner empty part stands for a run of zeros.\<close>

definition ipv6_parts :: "pystr list \<Rightarrow> bool" where
  "ipv6_parts parts \<longleftrightarrow>
     (case filter (\<lambda>i. parts ! i = []) [1..<length parts - 1] of
        [] \<Rightarrow> length parts = 8 \<and> list_all hextet parts
      | [k] \<Rightarrow>
          (let hi = (if hd parts = [] then tl (take k parts) else take k parts);
               lo = (if last parts = [] then butlast (drop (Suc k) parts) else drop (Suc k) parts)
           in length parts \<le> 9 \<and> (hd parts = [] \<longrightarrow> hi = []) \<and> (last parts = [] \<longrightarrow> lo = [])
             \<and> length hi + length lo < 8 \<and> list_all hextet (hi @ lo))
      | _ \<Rightarrow> False)"

definition ipv6_address :: "pystr \<Rightarrow> bool" where
  "ipv6_address s \<longleftrightarrow>
     (let scoped = split_on 37 s; parts = split_on 58 (hd scoped)
      in 47 \<notin> set s \<and> length scoped \<le> 2 \<and> (length scoped = 2 \<longrightarrow> scoped ! 1 \<noteq> [])
         \<and> 3 \<le> length parts
         \<and> (if 46 \<in> set (last parts)
            then ipv4_address (last parts) \<and> ipv6_parts (butlast parts @ [[48], [48]])
            else ipv6_parts parts))"

text \<open>\<open>v[a-fA-F0-9]+\..+\<close>, or an IPv6 address.\<close>

definition bracketed_host :: "pystr \<Rightarrow> bool" where
  "bracketed_host h =
     (case h of
        c # r \<Rightarrow>
          if c = 118 then
            takeWhile hex_char r \<noteq> []
            \<and> (case dropWhile hex_char r of d # e # rest \<Rightarrow> d = 46 \<and> e \<noteq> 10 | _ \<Rightarrow> False)
            \<and> 10 \<notin> set r
          else ipv6_address h
      | [] \<Rightarrow> False)"

section \<open>\<open>urlsplit\<close>\<close>

definition before :: "nat \<Rightarrow> pystr \<Rightarrow> pystr" where
  "before c s = takeWhile (\<lambda>x. x \<noteq> c) s"

definition after_first :: "nat \<Rightarrow> pystr \<Rightarrow> pystr" where
  "after_first c s = tl (dropWhile (\<lambda>x. x \<noteq> c) s)"

definition after_last :: "nat \<Rightarrow> pystr \<Rightarrow> pystr" where
  "after_last c s = rev (takeWhile (\<lambda>x. x \<noteq> c) (rev s))"

definition scheme_char :: "nat \<Rightarrow> bool" where
  "scheme_char c \<longleftrightarrow> is_dec_digit c \<or> 65 \<le> c \<and> c \<le> 90 \<or> 97 \<le> c \<and> c \<le> 122 \<or> c \<in> {43, 45, 46}"

definition ascii_alpha :: "nat \<Rightarrow> bool" where
  "ascii_alpha c \<longleftrightarrow> 65 \<le> c \<and> c \<le> 90 \<or> 97 \<le> c \<and> c \<le> 122"

definition ascii_lower :: "pystr \<Rightarrow> pystr" where
  "ascii_lower s = map (\<lambda>c. if 65 \<le> c \<and> c \<le> 90 then c + 32 else c) s"

definition url_scheme :: "pystr \<Rightarrow> pystr \<times> pystr" where
  "url_scheme url =
     (if 58 \<in> set url \<and> before 58 url \<noteq> [] \<and> ascii_alpha (hd url) \<and> list_all scheme_char (before 58 url)
      then (ascii_lower (before 58 url), after_first 58 url)
      else ([], url))"

definition bracketed_netloc :: "pystr \<Rightarrow> bool" where
  "bracketed_netloc netloc =
     (let host_port = after_last 64 netloc
      in if 91 \<in> set host_port then
           before 91 host_port = []
           \<and> (let b = after_first 91 host_port; p = after_first 93 b
              in (p = [] \<or> hd p = 58) \<and> bracketed_host (before 93 b))
         else bracketed_host (before 58 host_port))"

definition brackets_ok :: "pystr \<Rightarrow> bool" where
  "brackets_ok netloc \<longleftrightarrow>
     (91 \<in> set netloc \<longleftrightarrow> 93 \<in> set netloc) \<and> (91 \<in> set netloc \<longrightarrow> bracketed_netloc netloc)"

definition normal_netloc :: "(pystr \<Rightarrow> pystr) \<Rightarrow> pystr \<Rightarrow> bool" where
  "normal_netloc nfkc netloc \<longleftrightarrow>
     is_ascii netloc
     \<or> (let n = filter (\<lambda>c. c \<notin> {64, 58, 35, 63}) netloc
        in nfkc n = n \<or> list_all (\<lambda>c. c \<notin> {47, 63, 35, 64, 58}) (nfkc n))"

text \<open>The scheme, the network location and the fragment.\<close>

definition cleaned_url :: "pystr \<Rightarrow> pystr" where
  "cleaned_url value = filter (\<lambda>c. c \<notin> {9, 10, 13}) (dropWhile (\<lambda>c. c \<le> 32) value)"

definition urlsplit :: "(pystr \<Rightarrow> pystr) \<Rightarrow> pystr \<Rightarrow> (pystr \<times> pystr \<times> pystr) option" where
  "urlsplit nfkc value =
     (case url_scheme (cleaned_url value) of (scheme, rest) \<Rightarrow>
        let has_netloc = starts_with rest [47, 47];
            netloc = (if has_netloc then takeWhile (\<lambda>c. c \<notin> {47, 63, 35}) (drop 2 rest) else []);
            tail = (if has_netloc then dropWhile (\<lambda>c. c \<notin> {47, 63, 35}) (drop 2 rest) else rest)
        in if brackets_ok netloc \<and> normal_netloc nfkc netloc
           then Some (scheme, netloc, after_first 35 tail) else None)"

text \<open>\<open>_hostinfo\<close>: the host and the text of the port, empty where none is given.\<close>

definition hostinfo :: "pystr \<Rightarrow> pystr \<times> pystr" where
  "hostinfo netloc =
     (let h = after_last 64 netloc
      in if 91 \<in> set h then (before 93 (after_first 91 h), after_first 58 (after_first 93 (after_first 91 h)))
         else (before 58 h, after_first 58 h))"

text \<open>\<open>parsed.port\<close>: \<open>None\<close> where it raises.\<close>

definition url_port :: "pystr \<Rightarrow> nat option option" where
  "url_port p =
     (if p = [] then Some None
      else if list_all is_dec_digit p \<and> foldl (\<lambda>a c. 10 * a + (c - 48)) 0 p \<le> 65535
      then Some (Some (foldl (\<lambda>a c. 10 * a + (c - 48)) 0 p))
      else None)"

definition validate_counterparty_ingress_url :: "(pystr \<Rightarrow> pystr) \<Rightarrow> json \<Rightarrow> exc + pystr" where
  "validate_counterparty_ingress_url nfkc v =
     bnd (expect ValueError (as_str v)) (\<lambda>value.
     bnd (expect ValueError (urlsplit nfkc value)) (\<lambda>(scheme, netloc, fragment).
     bnd (expect ValueError (url_port (snd (hostinfo netloc)))) (\<lambda>port.
     ensure (strip value = value \<and> scheme \<in> {lit ''http'', lit ''https''} \<and> fst (hostinfo netloc) \<noteq> []
       \<and> 64 \<notin> set netloc \<and> fragment = [] \<and> port \<noteq> Some 0) ValueError
     (Inr value))))"

section \<open>What an accepted destination is\<close>

lemma fst_url_scheme: "fst (url_scheme u) \<noteq> [] \<Longrightarrow> u = before 58 u @ 58 # snd (url_scheme u) \<and> fst (url_scheme u) = ascii_lower (before 58 u)"
proof -
  assume a: "fst (url_scheme u) \<noteq> []"
  then have "58 \<in> set u" by (auto simp: url_scheme_def split: if_splits)
  then have "dropWhile (\<lambda>x. x \<noteq> 58) u \<noteq> []" "hd (dropWhile (\<lambda>x. x \<noteq> 58) u) = 58"
    using hd_dropWhile [of "\<lambda>x. x \<noteq> 58" u] by (auto simp: dropWhile_eq_Nil_conv)
  then have "u = before 58 u @ 58 # after_first 58 u"
    unfolding before_def after_first_def by (metis list.collapse takeWhile_dropWhile_id)
  then show ?thesis using a by (auto simp: url_scheme_def split: if_splits)
qed

lemma after_first_absent: "after_first c s = [] \<longleftrightarrow> (c \<notin> set s \<or> (\<exists>t. s = t @ [c] \<and> c \<notin> set t))"
proof (induction s)
  case (Cons a s)
  show ?case
  proof (cases "a = c")
    case True
    then show ?thesis by (auto simp: after_first_def Cons_eq_append_conv)
  next
    case False
    then have "after_first c (a # s) = after_first c s" by (simp add: after_first_def)
    then show ?thesis using Cons False by (auto simp: Cons_eq_append_conv)
  qed
qed (simp add: after_first_def)

text \<open>
  An accepted destination is its own text without surrounding white space, and with the control
  characters \<open>urlsplit\<close> drops removed it reads \<open>http://\<close> or \<open>https://\<close>, in any case, then a host
  with no user information; a \<open>#\<close> is its last character if there is one.
\<close>

theorem ingress_url_shape:
  assumes "validate_counterparty_ingress_url nfkc v = Inr s"
  shows "\<exists>scheme netloc tail.
     v = JStr s \<and> strip s = s
     \<and> cleaned_url s = scheme @ lit ''://'' @ netloc @ tail
     \<and> ascii_lower scheme \<in> {lit ''http'', lit ''https''}
     \<and> netloc \<noteq> [] \<and> 64 \<notin> set netloc \<and> list_all (\<lambda>c. c \<notin> {47, 63, 35}) netloc
     \<and> (35 \<notin> set tail \<or> (\<exists>t. tail = t @ [35] \<and> 35 \<notin> set t))"
proof -
  define u where "u = cleaned_url s"
  obtain scheme netloc fragment where p: "urlsplit nfkc s = Some (scheme, netloc, fragment)"
    and v: "v = JStr s" "strip s = s" "scheme \<in> {lit ''http'', lit ''https''}" "fst (hostinfo netloc) \<noteq> []"
      "64 \<notin> set netloc" "fragment = []"
    using assms by (auto simp: validate_counterparty_ingress_url_def raise_simps)
  obtain rest where r: "url_scheme u = (scheme, rest)"
    using p by (auto simp: urlsplit_def Let_def split: prod.splits if_splits simp flip: u_def)
  have split: "u = before 58 u @ 58 # rest" "scheme = ascii_lower (before 58 u)"
    using fst_url_scheme [of u] v(3) r by auto
  have host: "netloc \<noteq> []"
    using v(4) by (auto simp: hostinfo_def Let_def after_last_def before_def)
  have net: "starts_with rest [47, 47]" "netloc = takeWhile (\<lambda>c. c \<notin> {47, 63, 35}) (drop 2 rest)"
      "after_first 35 (dropWhile (\<lambda>c. c \<notin> {47, 63, 35}) (drop 2 rest)) = []"
    using p r host v(6) by (auto simp: urlsplit_def Let_def split: if_splits simp flip: u_def)
  then obtain q where q: "rest = 47 # 47 # q" by (auto simp: starts_with_iff)
  define tail where "tail = dropWhile (\<lambda>c. c \<notin> {47, 63, 35}) q"
  have n: "netloc @ tail = q" using net q by (simp add: tail_def)
  have "u = before 58 u @ lit ''://'' @ netloc @ tail"
    using split(1) q by (simp add: lit_def n)
  moreover have "list_all (\<lambda>c. c \<notin> {47, 63, 35}) netloc"
    using net(2) by (auto simp: list_all_iff dest: set_takeWhileD)
  moreover have "35 \<notin> set tail \<or> (\<exists>t. tail = t @ [35] \<and> 35 \<notin> set t)"
    using net(3) q by (simp add: after_first_absent tail_def)
  ultimately show ?thesis
    using v(1,2,3,5) split(2) host unfolding u_def [symmetric]
    by (intro exI [of _ "before 58 u"] exI [of _ netloc] exI [of _ tail] conjI) (assumption | simp only:)+
qed

lemmas url_eval = validate_counterparty_ingress_url_def urlsplit_def cleaned_url_def url_scheme_def hostinfo_def
  url_port_def brackets_ok_def bracketed_netloc_def bracketed_host_def ipv6_address_def ipv6_parts_def hextet_def
  normal_netloc_def before_def after_first_def after_last_def scheme_char_def ascii_alpha_def ascii_lower_def
  is_dec_digit_def is_lower_hex_def hex_char_def strip_def strip_by_def py_space_def lit_def Let_def upt_rec

text \<open>
  The text of an accepted destination may hold a control character in front of the scheme and a tab
  or a line break anywhere.
\<close>

lemma ingress_url_controls:
  "validate_counterparty_ingress_url id (JStr (0 # lit ''http://a.example/'')) = Inr (0 # lit ''http://a.example/'')"
  "validate_counterparty_ingress_url id (JStr (lit ''http://a.exa'' @ 10 # lit ''mple/'')) = Inr (lit ''http://a.exa'' @ 10 # lit ''mple/'')"
  "validate_counterparty_ingress_url id (JStr (lit ''http://a@b.example/'')) = Inl ValueError"
  "validate_counterparty_ingress_url id (JStr (lit ''HTTPS://[::1]:8443/x'')) = Inr (lit ''HTTPS://[::1]:8443/x'')"
  by (simp_all add: url_eval)

theorem ingress_url_shape_witness:
  "\<exists>scheme netloc tail.
     JStr (lit ''https://b.example/in'') = JStr (lit ''https://b.example/in'') \<and> strip (lit ''https://b.example/in'') = lit ''https://b.example/in''
     \<and> cleaned_url (lit ''https://b.example/in'') = scheme @ lit ''://'' @ netloc @ tail
     \<and> ascii_lower scheme \<in> {lit ''http'', lit ''https''}
     \<and> netloc \<noteq> [] \<and> 64 \<notin> set netloc \<and> list_all (\<lambda>c. c \<notin> {47, 63, 35}) netloc
     \<and> (35 \<notin> set tail \<or> (\<exists>t. tail = t @ [35] \<and> 35 \<notin> set t))"
  by (rule ingress_url_shape [of id]) (simp add: url_eval)

end
