(* ===== verification/Resource_Grammar.thy ===== *)
theory Resource_Grammar
  imports Ingress_Url Consumption Revocation_Fence
begin

text \<open>
  The grammars of \<open>resource_protocol.py\<close>: the resource binding, and the claims of dispatch,
  outcome, reconciliation and counterparty tokens. Refusal texts are not modelled; every refusal of
  a field is \<open>ValueError\<close>, and the exceptions the parsers let through are kept.
\<close>

section \<open>Canonical objects\<close>

fun no_floats :: "json \<Rightarrow> bool" where
  "no_floats (JFloat x) = False"
| "no_floats (JList vs) = list_all no_floats vs"
| "no_floats (JObj d) = list_all (\<lambda>(k, v). no_floats v) d"
| "no_floats v = True"

definition canonical_object :: "interp \<Rightarrow> json \<Rightarrow> exc + (pystr, json) dict" where
  "canonical_object I v =
     bnd (expect ValueError (as_obj v)) (\<lambda>d.
     ensure (no_floats v) ValueError
     (bnd (canonical_json_bytes I v) (\<lambda>bs.
      bnd (strict_json_loads I (map unat bs)) (\<lambda>parsed.
      ensure (as_obj parsed \<noteq> None) ValueError (Inr d)))))"

text \<open>Several named fields that must be texts, or digests.\<close>

definition texts :: "(pystr, json) dict \<Rightarrow> string list \<Rightarrow> bool" where
  "texts d names = list_all (\<lambda>k. canonical_text (get d (lit k))) names"

definition digests :: "(pystr, json) dict \<Rightarrow> string list \<Rightarrow> bool" where
  "digests d names = list_all (\<lambda>k. hex_text 64 (get d (lit k))) names"

definition payload_bytes :: "interp \<Rightarrow> json \<Rightarrow> exc + pybytes" where
  "payload_bytes I call =
     bnd (canonical_object I call) (\<lambda>d.
     ensure (keys_exact d [lit ''name'', lit ''arguments'']) ValueError
     (ensure (canonical_text (get d (lit ''name''))) ValueError
     (ensure (as_obj (get d (lit ''arguments'')) \<noteq> None) ValueError
     (canonical_json_bytes I (JObj d)))))"

section \<open>Git refs\<close>

fun contains :: "'a list \<Rightarrow> 'a list \<Rightarrow> bool" where
  "contains [] p = (p = [])"
| "contains (c # s) p = (starts_with (c # s) p \<or> contains s p)"

definition ref_char :: "nat \<Rightarrow> bool" where
  "ref_char c \<longleftrightarrow> is_dec_digit c \<or> ascii_alpha c \<or> c \<in> {46, 95, 47, 45}"

definition ref_component_bad :: "pystr \<Rightarrow> bool" where
  "ref_component_bad c \<longleftrightarrow> c = [] \<or> starts_with c (lit ''.'') \<or> ends_with c (lit ''.lock'')"

definition validate_branch_ref :: "json \<Rightarrow> exc + pystr" where
  "validate_branch_ref v =
     ensure (canonical_text v) ValueError
     (bnd (expect ValueError (as_str v)) (\<lambda>ref.
      ensure (\<not> (\<not> starts_with ref (lit ''refs/heads/'') \<or> list_ex (\<lambda>c. \<not> ref_char c) ref
        \<or> contains ref (lit ''..'') \<or> ends_with ref (lit ''.'')
        \<or> list_ex ref_component_bad (split_on 47 ref))) ValueError
      (Inr ref)))"

definition scope_covers :: "pystr \<Rightarrow> pystr \<Rightarrow> bool" where
  "scope_covers ref scope \<longleftrightarrow>
     scope = ref
     \<or> ends_with scope (lit ''/*'') \<and> starts_with ref (butlast scope) \<and> length ref > length scope - 1"

definition git_ref_is_covered :: "json \<Rightarrow> pystr list \<Rightarrow> exc + bool" where
  "git_ref_is_covered ref paths =
     bnd (validate_branch_ref ref) (\<lambda>r. Inr (list_ex (scope_covers r) paths))"

definition git_oid :: "json \<Rightarrow> exc + pystr" where
  "git_oid v = ensure (hex_text 40 v \<or> hex_text 64 v) ValueError (expect ValueError (as_str v))"

definition plan_object :: "json \<Rightarrow> pystr \<Rightarrow> pystr \<Rightarrow> pystr \<Rightarrow> json" where
  "plan_object remote_url ref old new =
     JObj [(lit ''remote_url'', remote_url), (lit ''ref'', JStr ref), (lit ''expected_old_oid'', JStr old),
       (lit ''new_oid'', JStr new), (lit ''force'', JBool False), (lit ''range'', JStr (old @ lit ''..'' @ new))]"

definition git_publication_plan_hash ::
  "interp \<Rightarrow> json \<Rightarrow> json \<Rightarrow> json \<Rightarrow> json \<Rightarrow> json \<Rightarrow> json \<Rightarrow> exc + pystr" where
  "git_publication_plan_hash I remote_url ref expected_old_oid new_oid commit_range force =
     ensure (canonical_text remote_url) ValueError
     (bnd (validate_branch_ref ref) (\<lambda>r.
      bnd (git_oid expected_old_oid) (\<lambda>old.
      bnd (git_oid new_oid) (\<lambda>new.
      ensure (\<not> (force \<noteq> JBool False \<or> length old \<noteq> length new
        \<or> old = replicate (length old) 48 \<or> new = replicate (length new) 48 \<or> old = new
        \<or> commit_range \<noteq> JStr (old @ lit ''..'' @ new))) ValueError
      (hash_object I (plan_object remote_url r old new))))))"

section \<open>The resource binding\<close>

definition resource_profile :: string where
  "resource_profile = ''record-egress/1''"

definition git_publication_profile :: string where
  "git_publication_profile = ''git-publication/1''"

definition customer_delete_profile :: string where
  "customer_delete_profile = ''customer-delete/1''"

definition binding_fields :: "string list" where
  "binding_fields = [''adapter_id'', ''downstream_url'', ''downstream_path'', ''receipt_public_key'',
     ''outcome_profile'', ''outcome_public_key'']"

definition git_binding_fields :: "string list" where
  "git_binding_fields = binding_fields @ [''git_remote'', ''git_ref'']"

definition optional_key :: "(pystr, json) dict \<Rightarrow> string \<Rightarrow> string list" where
  "optional_key d k = (if has_key d (lit k) then [k] else [])"

definition optional_holds :: "(pystr, json) dict \<Rightarrow> string \<Rightarrow> (json \<Rightarrow> bool) \<Rightarrow> bool" where
  "optional_holds d k P \<longleftrightarrow> (has_key d (lit k) \<longrightarrow> P (get d (lit k)))"

text \<open>
  A profile that is a list or an object raises \<open>TypeError\<close> in the test against the set of
  profiles.
\<close>

definition resource_binding_hash :: "(pystr \<Rightarrow> pystr) \<Rightarrow> interp \<Rightarrow> json \<Rightarrow> exc + pystr" where
  "resource_binding_hash nfkc I binding =
     bnd (canonical_object I binding) (\<lambda>d.
     let profile = get d (lit ''outcome_profile'');
         public_key = get d (lit ''outcome_public_key'');
         is_git = (profile = JStr (lit git_publication_profile))
     in ensure (keys_exact d (map lit ((if is_git then git_binding_fields else binding_fields)
          @ optional_key d ''counterparty_ingress_url'' @ optional_key d ''counterparty_consent_hash''
          @ optional_key d ''foreign_revocation_policy_hash''))) ValueError
     (ensure (texts d [''adapter_id'', ''downstream_url'', ''downstream_path'']) ValueError
     (bnd (if has_key d (lit ''counterparty_ingress_url'')
           then validate_counterparty_ingress_url nfkc (get d (lit ''counterparty_ingress_url'')) else Inr []) (\<lambda>_.
      ensure (optional_holds d ''counterparty_consent_hash'' (hex_text 64)) ValueError
     (ensure (optional_holds d ''foreign_revocation_policy_hash'' (hex_text 64)) ValueError
     (ensure (digests d [''receipt_public_key'']) ValueError
     (if profile = JNull \<and> public_key = JNull then hash_object I (JObj d)
      else require_one_of [resource_profile, git_publication_profile, customer_delete_profile] profile
       (ensure (hex_text 64 public_key \<and> public_key \<noteq> get d (lit ''receipt_public_key'')) ValueError
       (if is_git then
          ensure (get d (lit ''adapter_id'') = JStr (lit ''code'')) ValueError
          (ensure (canonical_text (get d (lit ''git_remote''))) ValueError
          (bnd (validate_branch_ref (get d (lit ''git_ref''))) (\<lambda>_. hash_object I (JObj d))))
        else
          ensure (profile = JStr (lit customer_delete_profile) \<longrightarrow> get d (lit ''adapter_id'') = JStr (lit ''http'')) ValueError
          (hash_object I (JObj d)))))))))))"

section \<open>Claims\<close>

definition resource_join_fields :: "string list" where
  "resource_join_fields = [''version'', ''profile'', ''domain_id'', ''ledger_id'', ''enforcement_point_id'',
     ''resource_id'', ''resource_binding_hash'', ''operation_id'', ''request_hash'', ''payload_hash'',
     ''decision_hash'', ''intent_hash'']"

definition dispatch_fields :: "string list" where
  "dispatch_fields = resource_join_fields @ [''action_type'', ''action_boundary'', ''action_domain'',
     ''action_path'', ''authorized_at'', ''not_after'']"

definition git_dispatch_fields :: "string list" where
  "git_dispatch_fields = resource_join_fields @ [''actor_id'', ''plan_hash'', ''action_type'',
     ''action_boundary'', ''action_domain'', ''action_path'', ''authorized_at'', ''not_after'', ''remote'',
     ''ref'', ''expected_old_oid'', ''new_oid'', ''range'', ''force'']"

definition customer_delete_dispatch_fields :: "string list" where
  "customer_delete_dispatch_fields = dispatch_fields @ [''customer_id'']"

definition terminal_fields :: "string list" where
  "terminal_fields = resource_join_fields @ [''status'', ''accepted_at'', ''recorded_at'', ''record_count'',
     ''records_hash'']"

definition git_terminal_fields :: "string list" where
  "git_terminal_fields = resource_join_fields @ [''actor_id'', ''plan_hash'', ''remote'', ''ref'',
     ''expected_old_oid'', ''new_oid'', ''range'', ''force'', ''status'', ''accepted_at'', ''recorded_at'']"

definition customer_delete_terminal_fields :: "string list" where
  "customer_delete_terminal_fields = resource_join_fields @ [''customer_id'', ''status'', ''accepted_at'',
     ''recorded_at'', ''deleted_count'', ''before_hash'', ''before_state'', ''after_state'', ''reason'']"

definition reconciliation_fields :: "string list" where
  "reconciliation_fields = resource_join_fields @ [''verb'', ''issued_at'', ''expires_at'']"

definition customer_delete_reconciliation_fields :: "string list" where
  "customer_delete_reconciliation_fields = reconciliation_fields @ [''customer_id'']"

definition revocation_identity_fields :: "string list" where
  "revocation_identity_fields = [''delegation_jtis'', ''revocation_epoch'']"

definition revocation_identity_with_bound_fields :: "string list" where
  "revocation_identity_with_bound_fields = revocation_identity_fields @ [''max_revocation_age_ms'']"

text \<open>\<open>version != 1\<close> is Python's equality: \<open>true\<close> passes it (a float does not reach it).\<close>

definition versioned :: "(pystr, json) dict \<Rightarrow> string \<Rightarrow> bool" where
  "versioned d profile \<longleftrightarrow> py_eq (get d (lit ''version'')) (JInt 1) \<and> get d (lit ''profile'') = JStr (lit profile)"

definition resource_claims ::
  "interp \<Rightarrow> string list \<Rightarrow> string \<Rightarrow> string list list \<Rightarrow> json \<Rightarrow> exc + (pystr, json) dict" where
  "resource_claims I names profile optional v =
     bnd (canonical_object I v) (\<lambda>d.
     ensure (list_ex (\<lambda>group. keys_exact d (map lit (names @ group))) ([] # optional)) ValueError
     (ensure (versioned d profile) ValueError
     (ensure (texts d [''domain_id'', ''ledger_id'', ''enforcement_point_id'', ''resource_id'']) ValueError
     (ensure (operation_id_ok (get d (lit ''operation_id''))) ValueError
     (ensure (digests d [''resource_binding_hash'', ''request_hash'', ''payload_hash'', ''decision_hash'', ''intent_hash''])
        ValueError
     (Inr d))))))"

definition max_delegation_jtis :: nat where
  "max_delegation_jtis = 16"

definition jti_ok :: "json \<Rightarrow> bool" where
  "jti_ok v = (case v of JStr s \<Rightarrow> 1 \<le> length s \<and> length s \<le> 256 \<and> strip s = s | _ \<Rightarrow> False)"

definition jti_chain :: "json \<Rightarrow> bool" where
  "jti_chain v =
     (case v of
        JList jtis \<Rightarrow> 1 \<le> length jtis \<and> length jtis \<le> max_delegation_jtis \<and> list_all jti_ok jtis \<and> distinct jtis
      | _ \<Rightarrow> False)"

definition revocation_identity :: "(pystr, json) dict \<Rightarrow> bool" where
  "revocation_identity d \<longleftrightarrow> jti_chain (get d (lit ''delegation_jtis'')) \<and> natural (get d (lit ''revocation_epoch''))"

definition dispatch_max_revocation_age :: "(pystr, json) dict \<Rightarrow> bool" where
  "dispatch_max_revocation_age d = (case get d (lit ''max_revocation_age_ms'') of JInt n \<Rightarrow> n > 0 | _ \<Rightarrow> False)"

text \<open>The pair a dispatch carries, for a door; a dispatch without it has \<open>None\<close>.\<close>

definition dispatch_revocation_identity :: "(pystr, json) dict \<Rightarrow> exc + (json list \<times> int) option" where
  "dispatch_revocation_identity d =
     (if \<not> has_key d (lit ''delegation_jtis'') then Inr None
      else ensure (revocation_identity d) ValueError
        (bnd (expect ValueError (as_list (get d (lit ''delegation_jtis'')))) (\<lambda>jtis.
         bnd (expect ValueError (as_int (get d (lit ''revocation_epoch'')))) (\<lambda>epoch. Inr (Some (jtis, epoch))))))"

definition dispatch_max_revocation_age_ms :: "(pystr, json) dict \<Rightarrow> exc + int option" where
  "dispatch_max_revocation_age_ms d =
     (if \<not> has_key d (lit ''max_revocation_age_ms'') then Inr None
      else ensure (dispatch_max_revocation_age d) ValueError
        (bnd (expect ValueError (as_int (get d (lit ''max_revocation_age_ms'')))) (\<lambda>n. Inr (Some n))))"

section \<open>Dispatches\<close>

definition customer_delete_groups :: "string list list" where
  "customer_delete_groups =
     (let identity = revocation_identity_fields;
          bounded = revocation_identity_with_bound_fields;
          consent = [''counterparty_consent_hash''];
          dependency = [''foreign_dependency'']
      in [identity, bounded, consent, identity @ consent, bounded @ consent, dependency, identity @ dependency,
          bounded @ dependency, consent @ dependency, identity @ consent @ dependency, bounded @ consent @ dependency])"

definition foreign_dependency_ok :: "json \<Rightarrow> bool" where
  "foreign_dependency_ok v =
     (case v of
        JNull \<Rightarrow> True
      | JObj d \<Rightarrow> keys_exact d [lit ''dispatch'', lit ''policy_hash''] \<and> nonempty_str (get d (lit ''dispatch''))
          \<and> hex_text 64 (get d (lit ''policy_hash''))
      | _ \<Rightarrow> False)"

definition action_is :: "(pystr, json) dict \<Rightarrow> string \<Rightarrow> string \<Rightarrow> string \<Rightarrow> bool" where
  "action_is d type boundary domain \<longleftrightarrow>
     get d (lit ''action_type'') = JStr (lit type) \<and> get d (lit ''action_boundary'') = JStr (lit boundary)
     \<and> get d (lit ''action_domain'') = JStr (lit domain)"

definition claimed_plan_hash :: "interp \<Rightarrow> (pystr, json) dict \<Rightarrow> exc + pystr" where
  "claimed_plan_hash I d =
     git_publication_plan_hash I (get d (lit ''remote'')) (get d (lit ''ref'')) (get d (lit ''expected_old_oid''))
       (get d (lit ''new_oid'')) (get d (lit ''range'')) (get d (lit ''force''))"

definition dispatch_profile_claims :: "interp \<Rightarrow> json \<Rightarrow> json \<Rightarrow> exc + (pystr, json) dict" where
  "dispatch_profile_claims I profile v =
     (let identity_groups = [revocation_identity_fields, revocation_identity_with_bound_fields]
      in if profile = JStr (lit resource_profile) then
        resource_claims I dispatch_fields resource_profile identity_groups v
      else if profile = JStr (lit customer_delete_profile) then
        bnd (resource_claims I customer_delete_dispatch_fields customer_delete_profile customer_delete_groups v) (\<lambda>d.
        ensure (texts d [''customer_id'']) ValueError
        (ensure (optional_holds d ''counterparty_consent_hash'' (hex_text 64)) ValueError
        (ensure (foreign_dependency_ok (get d (lit ''foreign_dependency''))) ValueError
        (ensure (action_is d ''delete'' ''network_egress'' ''http'') ValueError (Inr d)))))
      else if profile = JStr (lit git_publication_profile) then
        bnd (resource_claims I git_dispatch_fields git_publication_profile identity_groups v) (\<lambda>d.
        ensure (texts d [''actor_id'']) ValueError
        (bnd (claimed_plan_hash I d) (\<lambda>expected.
         ensure (get d (lit ''plan_hash'') = JStr expected \<and> get d (lit ''action_path'') = get d (lit ''ref'')
           \<and> action_is d ''execute'' ''code_execution'' ''process'') ValueError (Inr d))))
      else Inl ValueError)"

text \<open>\<open>value.get("profile")\<close> of a value that is not an object raises \<open>AttributeError\<close>.\<close>

definition dispatch_claims :: "interp \<Rightarrow> json \<Rightarrow> exc + (pystr, json) dict" where
  "dispatch_claims I v =
     bnd (expect AttributeError (as_obj v)) (\<lambda>value.
     bnd (dispatch_profile_claims I (get value (lit ''profile'')) v) (\<lambda>d.
     ensure (texts d [''action_type'', ''action_boundary'', ''action_domain'', ''action_path'']) ValueError
     (bnd (aware_moment (get d (lit ''authorized_at''))) (\<lambda>authorized_at.
      bnd (aware_moment (get d (lit ''not_after''))) (\<lambda>not_after.
      ensure (\<not> not_after < authorized_at) ValueError
     (ensure (has_key d (lit ''delegation_jtis'') \<longrightarrow> revocation_identity d) ValueError
     (ensure (has_key d (lit ''max_revocation_age_ms'') \<longrightarrow> dispatch_max_revocation_age d) ValueError
     (Inr d))))))))"

section \<open>Outcomes\<close>

definition foreign_revocation_evidence_ok :: "json \<Rightarrow> exc + unit" where
  "foreign_revocation_evidence_ok v =
     (let base = map lit [''foreign_dispatch_hash'', ''policy_hash'', ''statuses'', ''checked_at'']
      in bnd (expect ValueError (as_obj v)) (\<lambda>d.
      ensure (keys_exact d base \<or> keys_exact d (base @ map lit [''fence_request'', ''fence_grant''])) ValueError
      (ensure (has_key d (lit ''fence_request'') \<longrightarrow>
          nonempty_str (get d (lit ''fence_request'')) \<and> nonempty_str (get d (lit ''fence_grant''))) ValueError
      (ensure (digests d [''foreign_dispatch_hash'', ''policy_hash'']) ValueError
      (bnd (expect ValueError (as_list (get d (lit ''statuses'')))) (\<lambda>statuses.
       ensure (list_all (\<lambda>s. as_obj s \<noteq> None) statuses) ValueError
      (bnd (aware_moment (get d (lit ''checked_at''))) (\<lambda>_. Inr ()))))))))"

definition optional_moment :: "json \<Rightarrow> exc + unit" where
  "optional_moment v = (if v = JNull then Inr () else bnd (aware_moment v) (\<lambda>_. Inr ()))"

definition record_outcome_claims :: "interp \<Rightarrow> json \<Rightarrow> exc + (pystr, json) dict" where
  "record_outcome_claims I v =
     bnd (resource_claims I terminal_fields resource_profile [] v) (\<lambda>d.
     let status = get d (lit ''status''); accepted_at = get d (lit ''accepted_at'') in
     require_one_of [''committed'', ''not_executed''] status
     (bnd (optional_moment accepted_at) (\<lambda>_.
      bnd (aware_moment (get d (lit ''recorded_at''))) (\<lambda>_.
      bnd (expect ValueError (as_int (get d (lit ''record_count'')))) (\<lambda>count.
      ensure (count \<ge> 0) ValueError
      (if status = JStr (lit ''committed'') then
         ensure (accepted_at \<noteq> JNull \<and> count > 0) ValueError (ensure (digests d [''records_hash'']) ValueError (Inr d))
       else ensure (accepted_at = JNull \<and> count = 0 \<and> get d (lit ''records_hash'') = JNull) ValueError (Inr d)))))))"

definition state_row :: "(pystr, json) dict \<Rightarrow> json \<times> json \<times> json" where
  "state_row d = (get d (lit ''before_state''), get d (lit ''after_state''), get d (lit ''reason''))"

definition row :: "string \<Rightarrow> string \<Rightarrow> string \<Rightarrow> json \<times> json \<times> json" where
  "row a b c = (JStr (lit a), JStr (lit b), JStr (lit c))"

definition idle_rows :: "(json \<times> json \<times> json) list" where
  "idle_rows = [row ''absent'' ''absent'' ''already_absent'', row ''unknown'' ''unknown'' ''rejected'',
     row ''unknown'' ''unknown'' ''cancelled'', row ''unknown'' ''unknown'' ''delegation_revoked'']"

text \<open>The test of the row against a set hashes its three values.\<close>

definition customer_outcome_claims :: "interp \<Rightarrow> json \<Rightarrow> exc + (pystr, json) dict" where
  "customer_outcome_claims I v =
     bnd (resource_claims I customer_delete_terminal_fields customer_delete_profile [[''foreign_revocation_evidence'']] v) (\<lambda>d.
     let status = get d (lit ''status''); accepted_at = get d (lit ''accepted_at''); states = state_row d in
     ensure (texts d [''customer_id'']) ValueError
     (bnd (if has_key d (lit ''foreign_revocation_evidence'')
           then foreign_revocation_evidence_ok (get d (lit ''foreign_revocation_evidence'')) else Inr ()) (\<lambda>_.
      require_one_of [''committed'', ''not_executed''] status
     (bnd (optional_moment accepted_at) (\<lambda>_.
      bnd (aware_moment (get d (lit ''recorded_at''))) (\<lambda>_.
      bnd (expect ValueError (as_int (get d (lit ''deleted_count'')))) (\<lambda>deleted.
      if status = JStr (lit ''committed'') then
        ensure (accepted_at \<noteq> JNull \<and> deleted = 1 \<and> states = row ''present'' ''absent'' ''deleted'') ValueError
        (ensure (digests d [''before_hash'']) ValueError (Inr d))
      else
        ensure (accepted_at = JNull \<and> deleted = 0 \<and> get d (lit ''before_hash'') = JNull) ValueError
        (ensure (\<not> list_ex unhashable [fst states, fst (snd states), snd (snd states)]) TypeError
        (ensure (states \<in> set idle_rows) ValueError (Inr d))))))))))"

definition git_outcome_reasons :: "string list" where
  "git_outcome_reasons = [''delegation_revoked'', ''static_obligation_failed'', ''compare_and_swap_mismatch'',
     ''plan_hash_mismatch'', ''dispatch_expired'']"

definition git_outcome_claims :: "interp \<Rightarrow> json \<Rightarrow> exc + (pystr, json) dict" where
  "git_outcome_claims I v =
     bnd (resource_claims I git_terminal_fields git_publication_profile [[''reason'']] v) (\<lambda>d.
     let status = get d (lit ''status''); accepted_at = get d (lit ''accepted_at''); reason = get d (lit ''reason'') in
     ensure (texts d [''actor_id'']) ValueError
     (bnd (claimed_plan_hash I d) (\<lambda>expected.
      ensure (get d (lit ''plan_hash'') = JStr expected) ValueError
     (require_one_of [''committed'', ''not_executed'', ''unknown''] status
     (bnd (if status = JStr (lit ''committed'') then bnd (aware_moment accepted_at) (\<lambda>_. Inr ())
           else ensure (accepted_at = JNull) ValueError (Inr ())) (\<lambda>_.
      bnd (if reason = JNull then Inr ()
           else ensure (status = JStr (lit ''not_executed'')) ValueError
             (require_one_of git_outcome_reasons reason (Inr ()))) (\<lambda>_.
      bnd (aware_moment (get d (lit ''recorded_at''))) (\<lambda>_. Inr d))))))))"

definition outcome_claims :: "interp \<Rightarrow> json \<Rightarrow> exc + (pystr, json) dict" where
  "outcome_claims I v =
     bnd (expect AttributeError (as_obj v)) (\<lambda>value.
     let profile = get value (lit ''profile'') in
     if profile = JStr (lit resource_profile) then record_outcome_claims I v
     else if profile = JStr (lit customer_delete_profile) then customer_outcome_claims I v
     else ensure (profile = JStr (lit git_publication_profile)) ValueError (git_outcome_claims I v))"

section \<open>Reconciliations\<close>

definition reconciliation_claims :: "interp \<Rightarrow> json \<Rightarrow> exc + (pystr, json) dict" where
  "reconciliation_claims I v =
     bnd (expect AttributeError (as_obj v)) (\<lambda>value.
     let profile = get value (lit ''profile''); customer = (profile = JStr (lit customer_delete_profile)) in
     require_one_of [resource_profile, git_publication_profile, customer_delete_profile] profile
     (bnd (resource_claims I (if customer then customer_delete_reconciliation_fields else reconciliation_fields)
         (if customer then customer_delete_profile
          else if profile = JStr (lit git_publication_profile) then git_publication_profile else resource_profile) [] v) (\<lambda>d.
      ensure (customer \<longrightarrow> texts d [''customer_id'']) ValueError
     (require_one_of [''query'', ''cancel''] (get d (lit ''verb''))
     (bnd (aware_moment (get d (lit ''issued_at''))) (\<lambda>issued_at.
      bnd (aware_moment (get d (lit ''expires_at''))) (\<lambda>expires_at.
      ensure (\<not> expires_at < issued_at) ValueError (Inr d))))))))"

end
