(* ===== verification/Resource_Tokens.thy ===== *)
theory Resource_Tokens
  imports Resource_Grammar
begin

text \<open>
  The tokens of \<open>resource_protocol.py\<close>: the hashes that join a counterparty's acknowledgement to a
  dispatch, the messages that are signed, and the verification of dispatch, outcome, reconciliation,
  acknowledgement and context tokens.
\<close>

section \<open>Counterparty hashes\<close>

definition counterparty_foreign_descriptor :: "interp \<Rightarrow> json \<Rightarrow> exc + (pystr, json) dict" where
  "counterparty_foreign_descriptor I v =
     bnd (dispatch_claims I v) (\<lambda>d.
     ensure (get d (lit ''profile'') = JStr (lit customer_delete_profile)) ValueError
     (Inr (map (\<lambda>k. (lit k, get d (lit k))) customer_delete_dispatch_fields)))"

definition counterparty_foreign_descriptor_hash :: "interp \<Rightarrow> json \<Rightarrow> exc + pystr" where
  "counterparty_foreign_descriptor_hash I v =
     bnd (counterparty_foreign_descriptor I v) (\<lambda>d. hash_object I (JObj d))"

definition counterparty_operation_hash :: "interp \<Rightarrow> json \<Rightarrow> exc + pystr" where
  "counterparty_operation_hash I operation = operation_descriptor_hash I operation"

definition counterparty_destination_hash :: "interp \<Rightarrow> json \<Rightarrow> json \<Rightarrow> json \<Rightarrow> json \<Rightarrow> exc + pystr" where
  "counterparty_destination_hash I domain ledger point binding =
     ensure (canonical_text domain \<and> canonical_text ledger \<and> canonical_text point \<and> hex_text 64 binding) ValueError
     (hash_object I (JObj [(lit ''domain_id'', domain), (lit ''ledger_id'', ledger),
        (lit ''enforcement_point_id'', point), (lit ''resource_binding_hash'', binding)]))"

text \<open>The parents are any iterable but a text; iterating over an object yields its keys.\<close>

definition iterated :: "json \<Rightarrow> exc + json list" where
  "iterated v =
     (case v of JStr _ \<Rightarrow> Inl ValueError | JList vs \<Rightarrow> Inr vs | JObj d \<Rightarrow> Inr (map (JStr \<circ> fst) d) | _ \<Rightarrow> Inl TypeError)"

definition counterparty_consent_hash :: "interp \<Rightarrow> json \<Rightarrow> json \<Rightarrow> exc + pystr" where
  "counterparty_consent_hash I delegation_token parents =
     bnd (iterated parents) (\<lambda>tokens.
     ensure (list_all canonical_text tokens \<and> canonical_text delegation_token) ValueError
     (hash_object I (JObj [(lit ''delegation_token'', delegation_token), (lit ''parent_delegation_tokens'', JList tokens)])))"

section \<open>Acknowledgement and context claims\<close>

definition counterparty_pending_ack_profile :: string where
  "counterparty_pending_ack_profile = ''counterparty_pending_ack/1''"

definition counterparty_context_profile :: string where
  "counterparty_context_profile = ''counterparty_context/1''"

definition counterparty_ack_base_fields :: "string list" where
  "counterparty_ack_base_fields = [''version'', ''profile'', ''state'', ''foreign_dispatch_hash'',
     ''foreign_descriptor_hash'', ''operation_hash'', ''request_body_hash'', ''acknowledged_at'', ''expires_at'']"

definition approval_joins :: "string list" where
  "approval_joins = [''counterparty_context_hash'', ''b_request_fingerprint'', ''b_escalation_record_hash'']"

definition counterparty_ack_approval_fields :: "string list" where
  "counterparty_ack_approval_fields = counterparty_ack_base_fields @ approval_joins"

definition counterparty_context_fields :: "string list" where
  "counterparty_context_fields = [''version'', ''trust_root_id'', ''profile'', ''foreign_dispatch_hash'',
     ''foreign_descriptor_hash'', ''operation_hash'', ''request_body_hash'', ''destination_hash'',
     ''consent_hash'', ''justification'', ''issued_at'', ''expires_at'']"

definition foreign_joins :: "string list" where
  "foreign_joins = [''foreign_dispatch_hash'', ''foreign_descriptor_hash'', ''operation_hash'', ''request_body_hash'']"

definition ack_claims_by_state :: "(pystr, json) dict \<Rightarrow> bool \<Rightarrow> exc + (pystr, json) dict" where
  "ack_claims_by_state d approval =
     ensure (keys_exact d (map lit (if approval then counterparty_ack_approval_fields else counterparty_ack_base_fields)))
       ValueError
     (ensure (versioned d counterparty_pending_ack_profile) ValueError
     (ensure (digests d foreign_joins) ValueError
     (ensure (approval \<longrightarrow> digests d approval_joins) ValueError
     (bnd (aware_moment (get d (lit ''acknowledged_at''))) (\<lambda>acknowledged_at.
      bnd (aware_moment (get d (lit ''expires_at''))) (\<lambda>expires_at.
      ensure (\<not> expires_at \<le> acknowledged_at) ValueError (Inr d)))))))"

definition counterparty_pending_ack_claims :: "interp \<Rightarrow> json \<Rightarrow> exc + (pystr, json) dict" where
  "counterparty_pending_ack_claims I v =
     bnd (canonical_object I v) (\<lambda>d.
     let state = get d (lit ''state'') in
     if state = JStr (lit ''awaiting_review'') then ack_claims_by_state d False
     else if state = JStr (lit ''awaiting_approval'') then ack_claims_by_state d True
     else Inl ValueError)"

definition counterparty_context_claims :: "interp \<Rightarrow> json \<Rightarrow> exc + (pystr, json) dict" where
  "counterparty_context_claims I v =
     bnd (canonical_object I v) (\<lambda>d.
     ensure (keys_exact d (map lit counterparty_context_fields)) ValueError
     (ensure (versioned d counterparty_context_profile) ValueError
     (ensure (texts d [''trust_root_id'']) ValueError
     (ensure (digests d (foreign_joins @ [''destination_hash'', ''consent_hash''])) ValueError
     (ensure (texts d [''justification'']) ValueError
     (bnd (aware_moment (get d (lit ''issued_at''))) (\<lambda>issued_at.
      bnd (aware_moment (get d (lit ''expires_at''))) (\<lambda>expires_at.
      ensure (\<not> expires_at \<le> issued_at) ValueError (Inr d)))))))))"

section \<open>Messages and tokens\<close>

definition dispatch_context :: pybytes where
  "dispatch_context = map of_nat (lit ''ambit.resource.dispatch.v1.'')"

definition outcome_context :: pybytes where
  "outcome_context = map of_nat (lit ''ambit.resource.outcome.v1.'')"

definition reconciliation_context :: pybytes where
  "reconciliation_context = map of_nat (lit ''ambit.resource.reconciliation.v1.'')"

definition counterparty_pending_ack_context :: pybytes where
  "counterparty_pending_ack_context = map of_nat (lit ''ambit.resource.counterparty-pending-ack.v1.'')"

definition claims_message :: "interp \<Rightarrow> pybytes \<Rightarrow> exc + (pystr, json) dict \<Rightarrow> exc + pybytes" where
  "claims_message I context parsed =
     bnd parsed (\<lambda>d. bnd (canonical_json_bytes I (JObj d)) (\<lambda>body. Inr (context @ body)))"

definition dispatch_message :: "interp \<Rightarrow> json \<Rightarrow> exc + pybytes" where
  "dispatch_message I v = claims_message I dispatch_context (dispatch_claims I v)"

definition outcome_message :: "interp \<Rightarrow> json \<Rightarrow> exc + pybytes" where
  "outcome_message I v = claims_message I outcome_context (outcome_claims I v)"

definition reconciliation_message :: "interp \<Rightarrow> json \<Rightarrow> exc + pybytes" where
  "reconciliation_message I v = claims_message I reconciliation_context (reconciliation_claims I v)"

definition counterparty_pending_ack_message :: "interp \<Rightarrow> json \<Rightarrow> exc + pybytes" where
  "counterparty_pending_ack_message I v =
     claims_message I counterparty_pending_ack_context (counterparty_pending_ack_claims I v)"

definition resource_b64url_decode :: "pystr \<Rightarrow> exc + pybytes" where
  "resource_b64url_decode value =
     ensure (value \<noteq> [] \<and> 61 \<notin> set value) ValueError
     (bnd (expect ValueError (b64url_decode value)) (\<lambda>decoded.
      ensure (b64url_encode decoded = value) ValueError (Inr decoded)))"

text \<open>The key is given in hexadecimal (\<open>Inl\<close>) or raw (\<open>Inr\<close>).\<close>

definition resource_public_key :: "pystr + pybytes \<Rightarrow> exc + pybytes" where
  "resource_public_key key =
     bnd (case key of Inl hex \<Rightarrow> ensure (hex64 hex) ValueError (expect ValueError (from_hex hex)) | Inr raw \<Rightarrow> Inr raw)
       (\<lambda>raw. ensure (length raw = 32) ValueError (Inr raw))"

text \<open>\<open>except (UnicodeDecodeError, TypeError, ValueError, OverflowError)\<close>.\<close>

definition invalid_claims :: "exc + 'a \<Rightarrow> exc + 'a" where
  "invalid_claims r =
     (case r of
        Inl e \<Rightarrow> Inl (if e \<in> {TypeError, ValueError, OverflowError} then ValueError else e)
      | Inr x \<Rightarrow> Inr x)"

definition verify_resource_token ::
  "crypto \<Rightarrow> interp \<Rightarrow> pystr + pybytes \<Rightarrow> (json \<Rightarrow> exc + pybytes) \<Rightarrow> (json \<Rightarrow> exc + (pystr, json) dict) \<Rightarrow> json
    \<Rightarrow> exc + (pystr, json) dict" where
  "verify_resource_token K I key message parser token =
     bnd (expect ValueError (as_str token)) (\<lambda>text.
     bnd (expect ValueError (split_token text)) (\<lambda>(payload_segment, signature_segment).
     bnd (resource_b64url_decode payload_segment) (\<lambda>payload.
     bnd (resource_b64url_decode signature_segment) (\<lambda>signature.
     ensure (length signature = 64) ValueError
     (bnd (invalid_claims
         (bnd (expect ValueError (utf8_decode payload)) (\<lambda>t. bnd (strict_json_loads I t) parser))) (\<lambda>claims.
      bnd (canonical_json_bytes I (JObj claims)) (\<lambda>canonical.
      ensure (payload = canonical) ValueError
     (bnd (resource_public_key key) (\<lambda>raw.
      bnd (message (JObj claims)) (\<lambda>m.
      ensure (ed25519_verify K raw signature m) ValueError (Inr claims)))))))))))"

definition verify_dispatch :: "crypto \<Rightarrow> interp \<Rightarrow> pystr + pybytes \<Rightarrow> json \<Rightarrow> exc + (pystr, json) dict" where
  "verify_dispatch K I key token = verify_resource_token K I key (dispatch_message I) (dispatch_claims I) token"

definition verify_resource_outcome :: "crypto \<Rightarrow> interp \<Rightarrow> pystr + pybytes \<Rightarrow> json \<Rightarrow> exc + (pystr, json) dict" where
  "verify_resource_outcome K I key token =
     verify_resource_token K I key (outcome_message I) (outcome_claims I) token"

definition verify_reconciliation :: "crypto \<Rightarrow> interp \<Rightarrow> pystr + pybytes \<Rightarrow> json \<Rightarrow> exc + (pystr, json) dict" where
  "verify_reconciliation K I key token =
     verify_resource_token K I key (reconciliation_message I) (reconciliation_claims I) token"

section \<open>Acknowledgements and contexts\<close>

text \<open>A \<open>datetime\<close>: its wall clock and its offset, if it has one.\<close>

type_synonym moment_arg = "instant \<times> int option"

definition moment_utc :: "moment_arg \<Rightarrow> exc + instant" where
  "moment_utc m = (case m of (wall, off) \<Rightarrow> bnd (expect ValueError off) (to_utc wall))"

definition is_aware :: "moment_arg \<Rightarrow> bool" where
  "is_aware m \<longleftrightarrow> snd m \<noteq> None"

text \<open>The four hashes of the frozen operation a caller expects, in the order of \<open>foreign_joins\<close>.\<close>

definition joins_match :: "(pystr, json) dict \<Rightarrow> string list \<Rightarrow> json list \<Rightarrow> bool" where
  "joins_match d names expected = list_all (\<lambda>(k, e). get d (lit k) = e) (zip names expected)"

definition ack_in_force :: "(pystr, json) dict \<Rightarrow> moment_arg \<Rightarrow> moment_arg \<Rightarrow> exc + unit" where
  "ack_in_force d not_after at =
     bnd (moment_utc at) (\<lambda>verified_at.
     bnd (aware_moment (get d (lit ''expires_at''))) (\<lambda>expires_at.
     bnd (aware_moment (get d (lit ''acknowledged_at''))) (\<lambda>acknowledged_at.
     ensure (acknowledged_at \<le> verified_at \<and> verified_at < expires_at) ValueError
     (bnd (moment_utc not_after) (\<lambda>dispatch_end.
      ensure (\<not> expires_at > dispatch_end) ValueError (Inr ()))))))"

definition verify_ack_token :: "crypto \<Rightarrow> interp \<Rightarrow> pystr + pybytes \<Rightarrow> json \<Rightarrow> exc + (pystr, json) dict" where
  "verify_ack_token K I key token =
     verify_resource_token K I key (counterparty_pending_ack_message I) (counterparty_pending_ack_claims I) token"

definition verify_counterparty_pending_ack ::
  "crypto \<Rightarrow> interp \<Rightarrow> pystr + pybytes \<Rightarrow> json \<Rightarrow> json \<times> json \<times> json \<times> json \<Rightarrow> json \<times> json \<times> json
    \<Rightarrow> moment_arg \<Rightarrow> moment_arg \<Rightarrow> json \<Rightarrow> exc + (pystr, json) dict" where
  "verify_counterparty_pending_ack K I key expected_state joins approval not_after at token =
     (case joins of (dispatch, descriptor, operation, body) \<Rightarrow> case approval of (context, fingerprint, escalation) \<Rightarrow>
      let expected = [dispatch, descriptor, operation, body]; approvals = [context, fingerprint, escalation];
          reviewing = (expected_state = JStr (lit ''awaiting_review''))
      in require_one_of [''awaiting_review'', ''awaiting_approval''] expected_state
        (ensure (list_all (hex_text 64) expected) ValueError
        (ensure (is_aware at) ValueError
        (ensure (is_aware not_after) ValueError
        (ensure (if reviewing then list_all (\<lambda>v. v = JNull) approvals else list_all (hex_text 64) approvals) ValueError
        (bnd (verify_ack_token K I key token) (\<lambda>d.
         ensure (get d (lit ''state'') = expected_state) ValueError
        (ensure (joins_match d foreign_joins expected) ValueError
        (ensure (\<not> reviewing \<longrightarrow> joins_match d approval_joins approvals) ValueError
        (bnd (ack_in_force d not_after at) (\<lambda>_. Inr d)))))))))))"

definition counterparty_pending_ack_approval_expectations ::
  "crypto \<Rightarrow> interp \<Rightarrow> pystr + pybytes \<Rightarrow> json \<times> json \<times> json \<times> json \<Rightarrow> moment_arg \<Rightarrow> moment_arg \<Rightarrow> json
    \<Rightarrow> exc + (pystr, json) dict" where
  "counterparty_pending_ack_approval_expectations K I key joins not_after at token =
     (case joins of (dispatch, descriptor, operation, body) \<Rightarrow>
      let expected = [dispatch, descriptor, operation, body]
      in ensure (list_all (hex_text 64) expected) ValueError
        (ensure (is_aware at \<and> is_aware not_after) ValueError
        (bnd (verify_ack_token K I key token) (\<lambda>d.
         ensure (get d (lit ''state'') = JStr (lit ''awaiting_approval'')) ValueError
        (ensure (joins_match d foreign_joins expected) ValueError
        (bnd (ack_in_force d not_after at) (\<lambda>_.
         Inr (map (\<lambda>k. (lit k, JStr (py_str I (get d (lit k))))) approval_joins))))))))"

definition verify_counterparty_context ::
  "crypto \<Rightarrow> interp \<Rightarrow> trust_roots \<Rightarrow> json \<times> json \<times> json \<times> json \<times> json \<times> json \<Rightarrow> json
    \<Rightarrow> moment_arg \<Rightarrow> moment_arg \<Rightarrow> pystr \<Rightarrow> exc + (pystr, json) dict" where
  "verify_counterparty_context K I roots joins justification not_after at token =
     (case joins of (dispatch, descriptor, operation, body, destination, consent) \<Rightarrow>
     let expected = [dispatch, descriptor, operation, body, destination, consent] in
     ensure (list_all (hex_text 64) expected) ValueError
     (ensure (canonical_text justification) ValueError
     (ensure (is_aware at \<and> is_aware not_after) ValueError
     (ensure (length roots = 1) ValueError
     (bnd (expect ValueError (parse_counterparty_context K I roots token)) (\<lambda>raw.
      bnd (counterparty_context_claims I (JObj raw)) (\<lambda>d.
      ensure (joins_match d (foreign_joins @ [''destination_hash'', ''consent_hash'']) expected) ValueError
     (ensure (get d (lit ''justification'') = justification) ValueError
     (bnd (aware_moment (get d (lit ''issued_at''))) (\<lambda>issued_at.
      bnd (aware_moment (get d (lit ''expires_at''))) (\<lambda>expires_at.
      bnd (moment_utc at) (\<lambda>verified_at.
      ensure (issued_at \<le> verified_at \<and> verified_at < expires_at) ValueError
     (bnd (moment_utc not_after) (\<lambda>dispatch_end.
      ensure (\<not> expires_at > dispatch_end) ValueError (Inr d)))))))))))))))"

section \<open>What the parsers accept\<close>

definition canonical_readable :: "interp \<Rightarrow> (pystr, json) dict \<Rightarrow> bool" where
  "canonical_readable I d \<longleftrightarrow> no_floats (JObj d)
     \<and> (\<exists>bs r. canonical_json_bytes I (JObj d) = Inr bs \<and> strict_json_loads I (map unat bs) = Inr (JObj r))"

lemma canonical_object_iff: "canonical_object I v = Inr d \<longleftrightarrow> v = JObj d \<and> canonical_readable I d"
proof -
  have "as_obj p \<noteq> None \<longleftrightarrow> (\<exists>r. p = JObj r)" for p by (cases p) auto
  then show ?thesis by (auto simp: canonical_object_def canonical_readable_def raise_simps)
qed

text \<open>What every dispatch, outcome and reconciliation states.\<close>

definition resource_base :: "interp \<Rightarrow> string list \<Rightarrow> string \<Rightarrow> string list list \<Rightarrow> (pystr, json) dict \<Rightarrow> bool" where
  "resource_base I names profile optional d \<longleftrightarrow>
     canonical_readable I d
     \<and> list_ex (\<lambda>group. keys_exact d (map lit (names @ group))) ([] # optional)
     \<and> versioned d profile \<and> texts d [''domain_id'', ''ledger_id'', ''enforcement_point_id'', ''resource_id'']
     \<and> operation_id_ok (get d (lit ''operation_id''))
     \<and> digests d [''resource_binding_hash'', ''request_hash'', ''payload_hash'', ''decision_hash'', ''intent_hash'']"

lemma resource_claims_iff:
  "resource_claims I names profile optional v = Inr d \<longleftrightarrow> v = JObj d \<and> resource_base I names profile optional d"
  unfolding resource_claims_def bnd_Inr_iff canonical_object_iff ensure_Inr_iff resource_base_def by auto

lemma dispatch_claims_object: "dispatch_claims I v = Inr d \<Longrightarrow> v = JObj d"
  by (auto simp: dispatch_claims_def dispatch_profile_claims_def raise_simps resource_claims_iff Let_def split: if_splits)

lemma outcome_claims_object: "outcome_claims I v = Inr d \<Longrightarrow> v = JObj d"
  by (auto simp: outcome_claims_def record_outcome_claims_def customer_outcome_claims_def git_outcome_claims_def
      raise_simps resource_claims_iff Let_def split: if_splits)

lemma reconciliation_claims_object: "reconciliation_claims I v = Inr d \<Longrightarrow> v = JObj d"
  by (auto simp: reconciliation_claims_def raise_simps resource_claims_iff Let_def)

lemma ack_claims_object: "counterparty_pending_ack_claims I v = Inr d \<Longrightarrow> v = JObj d"
  by (auto simp: counterparty_pending_ack_claims_def ack_claims_by_state_def raise_simps canonical_object_iff Let_def
      split: if_splits)

section \<open>Verified tokens\<close>

text \<open>
  A kind of token: its parser returns the object it is given, and its message is the context and
  the canonical text of what the parser accepts.
\<close>

definition signed_token ::
  "crypto \<Rightarrow> interp \<Rightarrow> pystr + pybytes \<Rightarrow> pybytes \<Rightarrow> json \<Rightarrow> (pystr, json) dict \<Rightarrow> bool" where
  "signed_token K I key context_bytes token d \<longleftrightarrow>
     (\<exists>body sig raw u. token = fence_token body sig \<and> length sig = 64 \<and> resource_public_key key = Inr raw
        \<and> canonical_json_bytes I (JObj d) = Inr body \<and> utf8_decode body = Some u
        \<and> strict_json_loads I u = Inr (JObj d) \<and> ed25519_verify K raw sig (context_bytes @ body))"

lemma resource_segment_iff: "resource_b64url_decode v = Inr bs \<longleftrightarrow> bs \<noteq> [] \<and> v = b64url_encode bs"
proof -
  have "61 \<notin> set (b64url_encode bs)"
    using url_chars [of bs] by (auto simp: list_all_iff url_char_def is_dec_digit_def)
  then show ?thesis by (auto simp: resource_b64url_decode_def raise_simps b64url_Nil)
qed

lemma invalid_claims_simps [simp]: "invalid_claims (Inr x) = Inr x" "invalid_claims r = Inr x \<longleftrightarrow> r = Inr x"
  by (auto simp: invalid_claims_def split: sum.splits)

locale token_kind =
  fixes I :: interp
    and parser :: "json \<Rightarrow> exc + (pystr, json) dict"
    and context_bytes :: pybytes
  assumes parser_object: "parser v = Inr d \<Longrightarrow> v = JObj d"
begin

lemma verify_iff:
  "verify_resource_token K I key (\<lambda>v. claims_message I context_bytes (parser v)) parser token = Inr d \<longleftrightarrow>
     signed_token K I key context_bytes token d \<and> parser (JObj d) = Inr d"
  (is "?l \<longleftrightarrow> ?r")
proof
  assume ?l
  then obtain body sig raw u v p b where r: "token = fence_token body sig" "length sig = 64"
      "resource_public_key key = Inr raw" "canonical_json_bytes I (JObj d) = Inr body" "utf8_decode body = Some u"
      "strict_json_loads I u = Inr v" "ed25519_verify K raw sig (context_bytes @ b)" and p: "parser v = Inr d"
      "parser (JObj d) = Inr p" "canonical_json_bytes I (JObj p) = Inr b"
    by (auto simp: verify_resource_token_def raise_simps resource_segment_iff split_two claims_message_def
        fence_token_def)
  have v: "v = JObj d" "p = d" using parser_object [OF p(1)] parser_object [OF p(2)] by simp_all
  with r(4) p(3) have "b = body" by simp
  with r p v show ?r unfolding signed_token_def by blast
next
  assume ?r
  then obtain body sig raw u where r: "token = fence_token body sig" "length sig = 64" "resource_public_key key = Inr raw"
      "canonical_json_bytes I (JObj d) = Inr body" "utf8_decode body = Some u" "strict_json_loads I u = Inr (JObj d)"
      "ed25519_verify K raw sig (context_bytes @ body)" and p: "parser (JObj d) = Inr d"
    by (auto simp: signed_token_def)
  have "resource_b64url_decode (b64url_encode body) = Inr body" "resource_b64url_decode (b64url_encode sig) = Inr sig"
    using r(2,4) by (auto simp: resource_segment_iff canonical_json_bytes_Inr)
  moreover have "split_token (b64url_encode body @ 46 # b64url_encode sig) = Some (b64url_encode body, b64url_encode sig)"
    by (simp add: split_two)
  ultimately show ?l
    using r p by (simp add: verify_resource_token_def fence_token_def claims_message_def)
qed

lemma verify_json_ok:
  assumes "verify_resource_token K I key (\<lambda>v. claims_message I context_bytes (parser v)) parser token = Inr d"
  shows "json_ok (JObj d)"
  using assms unfolding verify_iff signed_token_def by (blast dest: strict_json_loads_ok utf8_decode_scalar)

end

interpretation dispatch_kind: token_kind I "dispatch_claims I" dispatch_context for I
  by unfold_locales (rule dispatch_claims_object)

interpretation outcome_kind: token_kind I "outcome_claims I" outcome_context for I
  by unfold_locales (rule outcome_claims_object)

interpretation reconciliation_kind: token_kind I "reconciliation_claims I" reconciliation_context for I
  by unfold_locales (rule reconciliation_claims_object)

interpretation ack_kind: token_kind I "counterparty_pending_ack_claims I" counterparty_pending_ack_context for I
  by unfold_locales (rule ack_claims_object)

lemma verify_kinds:
  "verify_dispatch K I key token = Inr d \<longleftrightarrow> signed_token K I key dispatch_context token d \<and> dispatch_claims I (JObj d) = Inr d"
  "verify_resource_outcome K I key token = Inr d \<longleftrightarrow> signed_token K I key outcome_context token d \<and> outcome_claims I (JObj d) = Inr d"
  "verify_reconciliation K I key token = Inr d \<longleftrightarrow>
     signed_token K I key reconciliation_context token d \<and> reconciliation_claims I (JObj d) = Inr d"
  "verify_ack_token K I key token = Inr d \<longleftrightarrow>
     signed_token K I key counterparty_pending_ack_context token d \<and> counterparty_pending_ack_claims I (JObj d) = Inr d"
  unfolding verify_dispatch_def verify_resource_outcome_def verify_reconciliation_def verify_ack_token_def
    dispatch_message_def outcome_message_def reconciliation_message_def counterparty_pending_ack_message_def
  by (rule dispatch_kind.verify_iff outcome_kind.verify_iff reconciliation_kind.verify_iff ack_kind.verify_iff)+

end
