(* ===== verification/Resource_Facts.thy ===== *)
theory Resource_Facts
  imports Resource_Tokens
begin

text \<open>
  What the verified tokens of \<open>resource_protocol.py\<close> state, by profile, and how dispatch, outcome
  and acknowledgement join.
\<close>

section \<open>Dispatches\<close>

lemmas profile_defs = resource_profile_def customer_delete_profile_def git_publication_profile_def

definition identity_groups :: "string list list" where
  "identity_groups = [revocation_identity_fields, revocation_identity_with_bound_fields]"

definition git_planned :: "interp \<Rightarrow> (pystr, json) dict \<Rightarrow> bool" where
  "git_planned I d \<longleftrightarrow> (\<exists>h. claimed_plan_hash I d = Inr h \<and> get d (lit ''plan_hash'') = JStr h)"

definition dispatch_profile_formed :: "interp \<Rightarrow> (pystr, json) dict \<Rightarrow> bool" where
  "dispatch_profile_formed I d \<longleftrightarrow>
     resource_base I dispatch_fields resource_profile identity_groups d
     \<or> resource_base I customer_delete_dispatch_fields customer_delete_profile customer_delete_groups d
       \<and> texts d [''customer_id''] \<and> optional_holds d ''counterparty_consent_hash'' (hex_text 64)
       \<and> foreign_dependency_ok (get d (lit ''foreign_dependency''))
       \<and> action_is d ''delete'' ''network_egress'' ''http''
     \<or> resource_base I git_dispatch_fields git_publication_profile identity_groups d
       \<and> texts d [''actor_id''] \<and> git_planned I d \<and> get d (lit ''action_path'') = get d (lit ''ref'')
       \<and> action_is d ''execute'' ''code_execution'' ''process''"

definition dispatch_formed :: "interp \<Rightarrow> (pystr, json) dict \<Rightarrow> bool" where
  "dispatch_formed I d \<longleftrightarrow>
     dispatch_profile_formed I d
     \<and> texts d [''action_type'', ''action_boundary'', ''action_domain'', ''action_path'']
     \<and> (\<exists>from until. aware_moment (get d (lit ''authorized_at'')) = Inr from
          \<and> aware_moment (get d (lit ''not_after'')) = Inr until \<and> from \<le> until)
     \<and> (has_key d (lit ''delegation_jtis'') \<longrightarrow> revocation_identity d)
     \<and> (has_key d (lit ''max_revocation_age_ms'') \<longrightarrow> dispatch_max_revocation_age d)"

lemma base_profile: "resource_base I names profile optional d \<Longrightarrow> get d (lit ''profile'') = JStr (lit profile)"
  by (simp add: resource_base_def versioned_def)

lemma dispatch_profile_iff:
  "dispatch_profile_claims I (get d (lit ''profile'')) (JObj d) = Inr e \<longleftrightarrow> e = d \<and> dispatch_profile_formed I d"
  unfolding dispatch_profile_claims_def dispatch_profile_formed_def git_planned_def Let_def identity_groups_def
  by (auto simp: raise_simps resource_claims_iff profile_defs dest: base_profile)

lemma dispatch_claims_iff: "dispatch_claims I v = Inr d \<longleftrightarrow> v = JObj d \<and> dispatch_formed I d"
  unfolding dispatch_claims_def dispatch_formed_def
  by (auto simp: raise_simps dispatch_profile_iff not_less)

text \<open>
  C10: a dispatch token verifies exactly if it is the compact form of the canonical text of its claims
  with a 64-byte signature of it under the dispatch context, and the claims are well formed for one
  of the three profiles, with an interval of validity and a valid revocation identity where given.
\<close>

theorem dispatch_token_iff:
  "verify_dispatch K I key token = Inr d \<longleftrightarrow> signed_token K I key dispatch_context token d \<and> dispatch_formed I d"
  by (simp add: verify_kinds dispatch_claims_iff)

section \<open>Outcomes\<close>

text \<open>What a terminal outcome says happened: the effect, or its absence.\<close>

definition accepted :: "(pystr, json) dict \<Rightarrow> bool" where
  "accepted d \<longleftrightarrow> get d (lit ''accepted_at'') \<noteq> JNull \<and> (\<exists>t. aware_moment (get d (lit ''accepted_at'')) = Inr t)"

definition status_is :: "(pystr, json) dict \<Rightarrow> string \<Rightarrow> bool" where
  "status_is d s \<longleftrightarrow> get d (lit ''status'') = JStr (lit s)"

definition record_effect :: "(pystr, json) dict \<Rightarrow> bool" where
  "record_effect d \<longleftrightarrow>
     status_is d ''committed'' \<and> accepted d \<and> (\<exists>n. get d (lit ''record_count'') = JInt n \<and> 0 < n)
       \<and> hex_text 64 (get d (lit ''records_hash''))
     \<or> status_is d ''not_executed'' \<and> get d (lit ''accepted_at'') = JNull \<and> get d (lit ''record_count'') = JInt 0
       \<and> get d (lit ''records_hash'') = JNull"

definition customer_effect :: "(pystr, json) dict \<Rightarrow> bool" where
  "customer_effect d \<longleftrightarrow>
     status_is d ''committed'' \<and> accepted d \<and> get d (lit ''deleted_count'') = JInt 1
       \<and> state_row d = row ''present'' ''absent'' ''deleted'' \<and> hex_text 64 (get d (lit ''before_hash''))
     \<or> status_is d ''not_executed'' \<and> get d (lit ''accepted_at'') = JNull \<and> get d (lit ''deleted_count'') = JInt 0
       \<and> get d (lit ''before_hash'') = JNull \<and> state_row d \<in> set idle_rows"

definition git_effect :: "(pystr, json) dict \<Rightarrow> bool" where
  "git_effect d \<longleftrightarrow>
     status_is d ''committed'' \<and> accepted d \<and> get d (lit ''reason'') = JNull
     \<or> status_is d ''unknown'' \<and> get d (lit ''accepted_at'') = JNull \<and> get d (lit ''reason'') = JNull
     \<or> status_is d ''not_executed'' \<and> get d (lit ''accepted_at'') = JNull
       \<and> get d (lit ''reason'') \<in> {JNull} \<union> JStr ` lit ` set git_outcome_reasons"

definition recorded :: "(pystr, json) dict \<Rightarrow> bool" where
  "recorded d \<longleftrightarrow> (\<exists>t. aware_moment (get d (lit ''recorded_at'')) = Inr t)"

definition evidence_stated :: "(pystr, json) dict \<Rightarrow> bool" where
  "evidence_stated d \<longleftrightarrow>
     (has_key d (lit ''foreign_revocation_evidence'') \<longrightarrow>
        foreign_revocation_evidence_ok (get d (lit ''foreign_revocation_evidence'')) = Inr ())"

definition outcome_formed :: "interp \<Rightarrow> (pystr, json) dict \<Rightarrow> bool" where
  "outcome_formed I d \<longleftrightarrow>
     recorded d
     \<and> (resource_base I terminal_fields resource_profile [] d \<and> record_effect d
        \<or> resource_base I customer_delete_terminal_fields customer_delete_profile [[''foreign_revocation_evidence'']] d
          \<and> texts d [''customer_id''] \<and> evidence_stated d \<and> customer_effect d
        \<or> resource_base I git_terminal_fields git_publication_profile [[''reason'']] d
          \<and> texts d [''actor_id''] \<and> git_planned I d \<and> git_effect d)"

lemma aware_moment_null [simp]: "aware_moment JNull = Inl ValueError"
  by (simp add: aware_moment_def)

lemma optional_moment_iff: "optional_moment v = Inr u \<longleftrightarrow> v = JNull \<or> (\<exists>t. aware_moment v = Inr t)"
  by (auto simp: optional_moment_def raise_simps)

lemma digest1: "digests d [k] \<longleftrightarrow> hex_text 64 (get d (lit k))"
  by (simp add: digests_def)

lemma one_object: "(\<exists>x. (v = f x \<and> P x) \<and> d = x \<and> Q x) \<longleftrightarrow> v = f d \<and> P d \<and> Q d"
  by blast

lemma record_steps:
  "require_one_of [''committed'', ''not_executed''] status
     (bnd (optional_moment at) (\<lambda>_. bnd m (\<lambda>_. bnd (expect ValueError (as_int c)) (\<lambda>count.
      ensure (count \<ge> 0) ValueError
      (if status = JStr (lit ''committed'') then ensure (at \<noteq> JNull \<and> count > 0) ValueError (ensure h ValueError (Inr d))
       else ensure (at = JNull \<and> count = 0 \<and> r = JNull) ValueError (Inr d)))))) = Inr e \<longleftrightarrow>
   e = d \<and> (\<exists>t. m = Inr t)
   \<and> (status = JStr (lit ''committed'') \<and> (at \<noteq> JNull \<and> (\<exists>t. aware_moment at = Inr t)) \<and> (\<exists>n. c = JInt n \<and> 0 < n) \<and> h
      \<or> status = JStr (lit ''not_executed'') \<and> at = JNull \<and> c = JInt 0 \<and> r = JNull)"
  by (cases "status = JStr (lit ''committed'')") (auto simp: raise_simps optional_moment_iff)

lemma record_outcome_iff:
  "record_outcome_claims I v = Inr d \<longleftrightarrow>
     v = JObj d \<and> resource_base I terminal_fields resource_profile [] d \<and> recorded d \<and> record_effect d"
  unfolding record_outcome_claims_def Let_def bnd_Inr_iff [of "resource_claims I terminal_fields resource_profile [] v"]
    resource_claims_iff record_steps record_effect_def status_is_def accepted_def recorded_def digest1
    simp_thms one_object
  by (rule TrueI)

lemma idle_hashable: "r \<in> set idle_rows \<Longrightarrow> \<not> list_ex unhashable [fst r, fst (snd r), snd (snd r)]"
  by (auto simp: idle_rows_def row_def unhashable_def)

lemma customer_steps:
  "ensure tx ValueError (bnd ev (\<lambda>_.
     require_one_of [''committed'', ''not_executed''] status
     (bnd (optional_moment at) (\<lambda>_. bnd m (\<lambda>_. bnd (expect ValueError (as_int c)) (\<lambda>deleted.
      if status = JStr (lit ''committed'') then
        ensure (at \<noteq> JNull \<and> deleted = 1 \<and> states = s1) ValueError (ensure h ValueError (Inr d))
      else ensure (at = JNull \<and> deleted = 0 \<and> b = JNull) ValueError
        (ensure (\<not> list_ex unhashable [fst states, fst (snd states), snd (snd states)]) TypeError
        (ensure (states \<in> set idle_rows) ValueError (Inr d))))))))) = Inr e \<longleftrightarrow>
   e = d \<and> tx \<and> ev = Inr () \<and> (\<exists>t. m = Inr t)
   \<and> (status = JStr (lit ''committed'') \<and> (at \<noteq> JNull \<and> (\<exists>t. aware_moment at = Inr t)) \<and> c = JInt 1 \<and> states = s1 \<and> h
      \<or> status = JStr (lit ''not_executed'') \<and> at = JNull \<and> c = JInt 0 \<and> b = JNull \<and> states \<in> set idle_rows)"
  using idle_hashable [of states]
  by (cases "status = JStr (lit ''committed'')") (auto simp: raise_simps optional_moment_iff)

lemma customer_outcome_iff:
  "customer_outcome_claims I v = Inr d \<longleftrightarrow>
     v = JObj d \<and> resource_base I customer_delete_terminal_fields customer_delete_profile [[''foreign_revocation_evidence'']] d
     \<and> texts d [''customer_id''] \<and> evidence_stated d \<and> recorded d \<and> customer_effect d"
  (is "_ \<longleftrightarrow> _ \<and> ?base d \<and> ?rest d")
proof -
  have ev: "(if has_key e k then foreign_revocation_evidence_ok w else Inr ()) = Inr () \<longleftrightarrow>
      (has_key e k \<longrightarrow> foreign_revocation_evidence_ok w = Inr ())" for e k w by simp
  show ?thesis
    unfolding customer_outcome_claims_def Let_def bnd_Inr_iff [of "resource_claims I customer_delete_terminal_fields _ _ v"]
      resource_claims_iff customer_steps customer_effect_def status_is_def accepted_def recorded_def digest1
      evidence_stated_def simp_thms one_object ev
    by (rule TrueI)
qed

lemma git_steps:
  "ensure tx ValueError (bnd plan (\<lambda>expected. ensure (ph = JStr expected) ValueError
     (require_one_of [''committed'', ''not_executed'', ''unknown''] status
     (bnd (if status = JStr (lit ''committed'') then bnd (aware_moment at) (\<lambda>_. Inr ())
           else ensure (at = JNull) ValueError (Inr ())) (\<lambda>_.
      bnd (if reason = JNull then Inr ()
           else ensure (status = JStr (lit ''not_executed'')) ValueError
             (require_one_of git_outcome_reasons reason (Inr ()))) (\<lambda>_.
      bnd m (\<lambda>_. Inr d)))))))  = Inr e \<longleftrightarrow>
   e = d \<and> tx \<and> (\<exists>h. plan = Inr h \<and> ph = JStr h) \<and> (\<exists>t. m = Inr t)
   \<and> (status = JStr (lit ''committed'') \<and> (at \<noteq> JNull \<and> (\<exists>t. aware_moment at = Inr t)) \<and> reason = JNull
      \<or> status = JStr (lit ''unknown'') \<and> at = JNull \<and> reason = JNull
      \<or> status = JStr (lit ''not_executed'') \<and> at = JNull \<and> reason \<in> {JNull} \<union> JStr ` lit ` set git_outcome_reasons)"
  by (cases "reason = JNull"; cases "status = JStr (lit ''committed'')") (auto simp: raise_simps)

lemma git_outcome_iff:
  "git_outcome_claims I v = Inr d \<longleftrightarrow>
     v = JObj d \<and> resource_base I git_terminal_fields git_publication_profile [[''reason'']] d
     \<and> texts d [''actor_id''] \<and> git_planned I d \<and> recorded d \<and> git_effect d"
  unfolding git_outcome_claims_def Let_def bnd_Inr_iff [of "resource_claims I git_terminal_fields _ _ v"]
    resource_claims_iff git_steps git_effect_def status_is_def accepted_def recorded_def git_planned_def
    simp_thms one_object
  by (rule TrueI)

lemma outcome_claims_iff: "outcome_claims I v = Inr d \<longleftrightarrow> v = JObj d \<and> outcome_formed I d"
proof -
  have "outcome_claims I (JObj d) = Inr e \<longleftrightarrow> e = d \<and> outcome_formed I d" for e
    unfolding outcome_claims_def outcome_formed_def Let_def
    by (auto simp: raise_simps record_outcome_iff customer_outcome_iff git_outcome_iff profile_defs dest: base_profile)
  then show ?thesis using outcome_claims_object by blast
qed

text \<open>
  C11: an outcome token verifies exactly if it carries the canonical text of its claims, signed under
  the outcome context, and the claims state an effect that is whole: a committed outcome names when
  it was accepted and what it changed, any other names no acceptance and no change.
\<close>

theorem outcome_token_iff:
  "verify_resource_outcome K I key token = Inr d \<longleftrightarrow> signed_token K I key outcome_context token d \<and> outcome_formed I d"
  by (simp add: verify_kinds outcome_claims_iff)

section \<open>Joins\<close>

text \<open>
  The plan a Git dispatch or outcome commits to.
\<close>

definition text_of :: "json \<Rightarrow> pystr" where
  "text_of v = (case v of JStr s \<Rightarrow> s | _ \<Rightarrow> [])"

definition stated_plan :: "(pystr, json) dict \<Rightarrow> json" where
  "stated_plan d = plan_object (get d (lit ''remote'')) (text_of (get d (lit ''ref'')))
     (text_of (get d (lit ''expected_old_oid''))) (text_of (get d (lit ''new_oid'')))"

definition plan_fields :: "string list" where
  "plan_fields = [''remote'', ''ref'', ''expected_old_oid'', ''new_oid'', ''range'', ''force'']"

lemma branch_ref_facts:
  "validate_branch_ref v = Inr r \<Longrightarrow> v = JStr r \<and> list_all ref_char r"
  by (auto simp: validate_branch_ref_def raise_simps list_ex_iff list_all_iff)

lemma git_oid_facts: "git_oid v = Inr s \<Longrightarrow> v = JStr s \<and> list_all is_lower_hex s"
  by (auto simp: git_oid_def raise_simps hex_text_def)

lemma char_scalar: "list_all ref_char s \<Longrightarrow> scalar_text s" "list_all is_lower_hex s \<Longrightarrow> scalar_text s"
  by (auto simp: scalar_text_def list_all_iff ref_char_def is_lower_hex_def is_dec_digit_def ascii_alpha_def is_surrogate_def)

lemma claimed_plan_facts:
  assumes "claimed_plan_hash I d = Inr h"
  shows "hash_object I (stated_plan d) = Inr h
    \<and> canonical_text (get d (lit ''remote''))
    \<and> (\<exists>r old new. get d (lit ''ref'') = JStr r \<and> get d (lit ''expected_old_oid'') = JStr old
         \<and> get d (lit ''new_oid'') = JStr new \<and> scalar_text r \<and> scalar_text old \<and> scalar_text new \<and> old \<noteq> new
         \<and> get d (lit ''range'') = JStr (old @ lit ''..'' @ new) \<and> get d (lit ''force'') = JBool False)"
  using assms
  by (auto simp: claimed_plan_hash_def git_publication_plan_hash_def raise_simps stated_plan_def text_of_def char_scalar
      dest!: branch_ref_facts git_oid_facts)

lemma plan_object_ok:
  assumes "canonical_text v" "json_ok v" "scalar_text r" "scalar_text old" "scalar_text new"
  shows "json_ok (plan_object v r old new)" "float_codec I (plan_object v r old new)"
proof -
  obtain s where v: "v = JStr s" using assms(1) by (cases v) (auto simp: canonical_text_def)
  have dots: "scalar_text (lit ''..'')" by (simp add: lit_def is_surrogate_def)
  have names: "scalar_text (lit k)" if "list_all (\<lambda>c. of_char c < (128::nat)) k" for k
    using is_ascii_lit [OF that] ascii_scalar_text by blast
  show "json_ok (plan_object v r old new)"
    using assms v dots by (simp add: plan_object_def dict_ok_def names)
  show "float_codec I (plan_object v r old new)"
    by (simp add: plan_object_def float_codec_def v)
qed

lemma plan_object_equiv: "json_equiv (plan_object v r old new) (plan_object v' r' old' new') \<Longrightarrow> canonical_text v \<Longrightarrow>
    v' = v \<and> r' = r \<and> old' = old \<and> new' = new"
proof -
  assume e: "json_equiv (plan_object v r old new) (plan_object v' r' old' new')" "canonical_text v"
  obtain s where v: "v = JStr s" using e(2) by (cases v) (auto simp: canonical_text_def)
  show ?thesis using e(1) by (auto simp: plan_object_def v)
qed

lemma git_plan_unique:
  assumes "git_planned I d" "git_planned I e" "get d (lit ''plan_hash'') = get e (lit ''plan_hash'')"
    and "json_ok (JObj d)" "json_ok (JObj e)"
  shows "list_all (\<lambda>k. get d (lit k) = get e (lit k)) plan_fields \<or> collide I (stated_plan d) (stated_plan e)"
proof -
  obtain h where h: "claimed_plan_hash I d = Inr h" "claimed_plan_hash I e = Inr h"
    using assms(1-3) by (auto simp: git_planned_def)
  note p = claimed_plan_facts [OF h(1)] claimed_plan_facts [OF h(2)]
  have ok: "json_ok (stated_plan d)" "float_codec I (stated_plan d)" "json_ok (stated_plan e)" "float_codec I (stated_plan e)"
    using p json_ok_get [OF assms(4)] json_ok_get [OF assms(5)]
    by (auto simp: stated_plan_def text_of_def intro!: plan_object_ok)
  have "json_equiv (stated_plan d) (stated_plan e) \<or> collide I (stated_plan d) (stated_plan e)"
    using p by (intro hash_object_binds [of I _ h]) (use ok in auto)
  then show ?thesis
  proof
    assume "json_equiv (stated_plan d) (stated_plan e)"
    then have "get e (lit ''remote'') = get d (lit ''remote'') \<and> text_of (get e (lit ''ref'')) = text_of (get d (lit ''ref''))
        \<and> text_of (get e (lit ''expected_old_oid'')) = text_of (get d (lit ''expected_old_oid''))
        \<and> text_of (get e (lit ''new_oid'')) = text_of (get d (lit ''new_oid''))"
      unfolding stated_plan_def by (rule plan_object_equiv) (use p in blast)
    then show ?thesis using p by (auto simp: plan_fields_def text_of_def)
  qed simp
qed

lemma signed_json_ok: "signed_token K I key c token d \<Longrightarrow> json_ok (JObj d)"
  unfolding signed_token_def by (blast dest: strict_json_loads_ok utf8_decode_scalar)

section \<open>Reconciliations and acknowledgements\<close>

definition reconciliation_formed :: "interp \<Rightarrow> (pystr, json) dict \<Rightarrow> bool" where
  "reconciliation_formed I d \<longleftrightarrow>
     (resource_base I customer_delete_reconciliation_fields customer_delete_profile [] d \<and> texts d [''customer_id'']
      \<or> resource_base I reconciliation_fields resource_profile [] d
      \<or> resource_base I reconciliation_fields git_publication_profile [] d)
     \<and> get d (lit ''verb'') \<in> {JStr (lit ''query''), JStr (lit ''cancel'')}
     \<and> (\<exists>issued expires. aware_moment (get d (lit ''issued_at'')) = Inr issued
          \<and> aware_moment (get d (lit ''expires_at'')) = Inr expires \<and> issued \<le> expires)"

lemma reconciliation_claims_iff: "reconciliation_claims I v = Inr d \<longleftrightarrow> v = JObj d \<and> reconciliation_formed I d"
proof -
  have "reconciliation_claims I (JObj d) = Inr e \<longleftrightarrow> e = d \<and> reconciliation_formed I d" for e
    unfolding reconciliation_claims_def reconciliation_formed_def Let_def
    by (auto simp: raise_simps resource_claims_iff profile_defs not_less dest: base_profile)
  then show ?thesis using reconciliation_claims_object by blast
qed

text \<open>A window that contains the moment of verification and ends within that of the dispatch.\<close>

definition window_holds :: "(pystr, json) dict \<Rightarrow> string \<Rightarrow> moment_arg \<Rightarrow> moment_arg \<Rightarrow> bool" where
  "window_holds d from_key not_after at \<longleftrightarrow>
     (\<exists>from until now limit. aware_moment (get d (lit from_key)) = Inr from
        \<and> aware_moment (get d (lit ''expires_at'')) = Inr until \<and> moment_utc at = Inr now
        \<and> moment_utc not_after = Inr limit \<and> from \<le> now \<and> now < until \<and> until \<le> limit)"

definition ack_state :: "(pystr, json) dict \<Rightarrow> bool \<Rightarrow> bool" where
  "ack_state d approval \<longleftrightarrow>
     get d (lit ''state'') = JStr (lit (if approval then ''awaiting_approval'' else ''awaiting_review''))
     \<and> keys_exact d (map lit (if approval then counterparty_ack_approval_fields else counterparty_ack_base_fields))
     \<and> (approval \<longrightarrow> digests d approval_joins)"

definition ack_formed :: "interp \<Rightarrow> bool \<Rightarrow> (pystr, json) dict \<Rightarrow> bool" where
  "ack_formed I approval d \<longleftrightarrow>
     canonical_readable I d \<and> ack_state d approval \<and> versioned d counterparty_pending_ack_profile \<and> digests d foreign_joins
     \<and> (\<exists>from until. aware_moment (get d (lit ''acknowledged_at'')) = Inr from
          \<and> aware_moment (get d (lit ''expires_at'')) = Inr until \<and> from < until)"

lemma ack_claims_iff: "counterparty_pending_ack_claims I v = Inr d \<longleftrightarrow> v = JObj d \<and> (\<exists>approval. ack_formed I approval d)"
  unfolding counterparty_pending_ack_claims_def ack_claims_by_state_def Let_def ack_formed_def ack_state_def
  by (auto simp: raise_simps canonical_object_iff not_le ex_bool_eq)

lemma ack_in_force_iff: "ack_in_force d not_after at = Inr u \<longleftrightarrow> window_holds d ''acknowledged_at'' not_after at"
  by (auto simp: ack_in_force_def window_holds_def raise_simps)

lemma window_aware: "window_holds d k not_after at \<Longrightarrow> is_aware at \<and> is_aware not_after"
  by (auto simp: window_holds_def moment_utc_def is_aware_def raise_simps split: prod.splits)

lemma joins_digests: "length expected = length names \<Longrightarrow> joins_match d names expected \<Longrightarrow> digests d names \<Longrightarrow> list_all (hex_text 64) expected"
  by (induction names expected rule: list_induct2') (auto simp: joins_match_def digests_def)

text \<open>
  An acknowledgement is accepted exactly if its token carries well-formed claims signed under the
  acknowledgement context, in the expected state, for the expected hashes, that are in force at the
  given moment and end no later than the dispatch.
\<close>

theorem pending_ack_iff:
  "verify_counterparty_pending_ack K I key (JStr (lit (if approval then ''awaiting_approval'' else ''awaiting_review'')))
     (h1, h2, h3, h4) (a1, a2, a3) not_after at token = Inr d \<longleftrightarrow>
   signed_token K I key counterparty_pending_ack_context token d \<and> ack_formed I approval d
   \<and> joins_match d foreign_joins [h1, h2, h3, h4]
   \<and> (if approval then joins_match d approval_joins [a1, a2, a3] else a1 = JNull \<and> a2 = JNull \<and> a3 = JNull)
   \<and> window_holds d ''acknowledged_at'' not_after at"
  (is "?l \<longleftrightarrow> ?r")
proof -
  have "?l \<longleftrightarrow> signed_token K I key counterparty_pending_ack_context token d \<and> (\<exists>b. ack_formed I b d)
      \<and> get d (lit ''state'') = JStr (lit (if approval then ''awaiting_approval'' else ''awaiting_review''))
      \<and> list_all (hex_text 64) [h1, h2, h3, h4] \<and> is_aware at \<and> is_aware not_after
      \<and> joins_match d foreign_joins [h1, h2, h3, h4]
      \<and> (if approval then list_all (hex_text 64) [a1, a2, a3] \<and> joins_match d approval_joins [a1, a2, a3]
         else a1 = JNull \<and> a2 = JNull \<and> a3 = JNull)
      \<and> window_holds d ''acknowledged_at'' not_after at"
    unfolding verify_counterparty_pending_ack_def Let_def
    by (cases approval) (auto simp: raise_simps verify_kinds ack_claims_iff ack_in_force_iff)
  also have "\<dots> \<longleftrightarrow> ?r"
    using joins_digests [of "[h1, h2, h3, h4]" foreign_joins d] joins_digests [of "[a1, a2, a3]" approval_joins d]
      window_aware [of d "''acknowledged_at''" not_after at]
    by (cases approval) (auto simp: ack_formed_def ack_state_def foreign_joins_def approval_joins_def ex_bool_eq)
  finally show ?thesis .
qed

section \<open>What escapes, and what is kept apart\<close>

text \<open>
  C13: a token whose payload is a JSON value other than an object, whoever signed it, leaves
  the verifiers of dispatches, outcomes and reconciliations with \<open>AttributeError\<close>.
\<close>

theorem non_object_escapes:
  assumes "utf8_decode body = Some u" "strict_json_loads I u = Inr v" "as_obj v = None"
    and "body \<noteq> []" "length sig = 64"
  shows "verify_dispatch K I key (fence_token body sig) = Inl AttributeError
    \<and> verify_resource_outcome K I key (fence_token body sig) = Inl AttributeError
    \<and> verify_reconciliation K I key (fence_token body sig) = Inl AttributeError"
proof -
  have "resource_b64url_decode (b64url_encode body) = Inr body" "resource_b64url_decode (b64url_encode sig) = Inr sig"
    using assms(4,5) by (auto simp: resource_segment_iff)
  moreover have "split_token (b64url_encode body @ 46 # b64url_encode sig) = Some (b64url_encode body, b64url_encode sig)"
    by (simp add: split_two)
  ultimately have "verify_resource_token K I key m parser (fence_token body sig) = Inl AttributeError"
    if "parser v = Inl AttributeError" for m parser
    using that assms by (simp add: verify_resource_token_def fence_token_def invalid_claims_def)
  then show ?thesis
    using assms(3) by (simp add: verify_dispatch_def verify_resource_outcome_def verify_reconciliation_def
        dispatch_claims_def outcome_claims_def reconciliation_claims_def)
qed

text \<open>The contexts the resource and fence tokens are signed under.\<close>

definition token_contexts :: "pybytes list" where
  "token_contexts = [dispatch_context, outcome_context, reconciliation_context, counterparty_pending_ack_context,
     request_context, grant_context]"

lemma contexts_parallel:
  "list_all (\<lambda>c. list_all (\<lambda>c'. c = c' \<or> \<not> starts_with c c') token_contexts) token_contexts"
  by code_simp

lemma starts_with_either: "c @ a = c' @ b \<Longrightarrow> starts_with c c' \<or> starts_with c' c"
  by (auto simp: append_eq_append_conv2 starts_with_iff)


section \<open>Concrete tokens\<close>

lemma scalar_isoformat: "scalar_text (isoformat t)"
  by (rule ascii_scalar_text) (simp add: isoformat_def Let_def ascii_pad is_ascii_lit split: prod.splits)

text \<open>A key and a signature that the concrete verifier accepts.\<close>

definition demo_token :: "(pystr, json) dict \<Rightarrow> json" where
  "demo_token d = fence_token (map of_nat (dumps (float_repr demo_interp) (JObj d))) (replicate 64 0)"

definition demo_sealed :: "(pystr, json) dict \<Rightarrow> bool" where
  "demo_sealed d \<longleftrightarrow> json_ok (JObj d) \<and> printable (JObj d) \<and> json_depth (JObj d) \<le> max_json_nesting
     \<and> float_codec demo_interp (JObj d) \<and> norm_json (JObj d) = JObj d"

lemma demo_signed: "demo_sealed d \<Longrightarrow> signed_token demo_crypto demo_interp (Inr (replicate 32 0)) context_bytes (demo_token d) d"
proof -
  assume d: "demo_sealed d"
  define body :: pybytes where "body = map of_nat (dumps (float_repr demo_interp) (JObj d))"
  have "utf8_decode body = Some (dumps (float_repr demo_interp) (JObj d))"
    unfolding body_def using d by (intro utf8_canonical) (simp only: demo_sealed_def)
  moreover have "strict_json_loads demo_interp (dumps (float_repr demo_interp) (JObj d)) = Inr (JObj d)"
    using strict_loads_dumps [of "JObj d" demo_interp] d unfolding demo_sealed_def by metis
  moreover have "canonical_json_bytes demo_interp (JObj d) = Inr body"
    using d unfolding body_def demo_sealed_def canonical_json_bytes_Inr by simp
  moreover have "resource_public_key (Inr (replicate 32 0)) = Inr (replicate 32 0)"
    by (simp add: resource_public_key_def)
  moreover have "ed25519_verify demo_crypto (replicate 32 0) (replicate 64 0) (context_bytes @ body)"
    by (simp add: demo_crypto_def)
  moreover have "demo_token d = fence_token body (replicate 64 0)"
    by (simp add: demo_token_def body_def)
  ultimately show ?thesis
    unfolding signed_token_def by (intro exI conjI) (assumption | simp)+
qed

lemma demo_readable: "demo_sealed d \<Longrightarrow> no_floats (JObj d) \<Longrightarrow> canonical_readable demo_interp d"
  using strict_loads_dumps [of "JObj d" demo_interp]
  unfolding canonical_readable_def demo_sealed_def canonical_json_bytes_Inr
  by (metis float_codec_ascii unat_ascii)

definition zeros64 :: json where
  "zeros64 = JStr (replicate 64 48)"

definition demo_join :: "json \<Rightarrow> (pystr, json) dict" where
  "demo_join profile = [(lit ''decision_hash'', zeros64), (lit ''domain_id'', JStr (lit ''d'')),
     (lit ''enforcement_point_id'', JStr (lit ''e'')), (lit ''intent_hash'', zeros64), (lit ''ledger_id'', JStr (lit ''l'')),
     (lit ''operation_id'', JStr (lit ''op'')), (lit ''payload_hash'', zeros64), (lit ''profile'', profile),
     (lit ''request_hash'', zeros64), (lit ''resource_binding_hash'', zeros64), (lit ''resource_id'', JStr (lit ''r'')),
     (lit ''version'', JInt 1)]"

definition demo_plan :: "(pystr, json) dict" where
  "demo_plan = [(lit ''actor_id'', JStr (lit ''a'')), (lit ''expected_old_oid'', JStr (replicate 40 97)), (lit ''force'', JBool False),
     (lit ''new_oid'', JStr (replicate 40 98)), (lit ''plan_hash'', zeros64),
     (lit ''range'', JStr (replicate 40 97 @ lit ''..'' @ replicate 40 98)), (lit ''ref'', JStr (lit ''refs/heads/m'')),
     (lit ''remote'', JStr (lit ''g''))]"

definition demo_git_dispatch :: "(pystr, json) dict" where
  "demo_git_dispatch = sort_key fst (demo_join (JStr (lit git_publication_profile)) @ demo_plan
     @ [(lit ''action_type'', JStr (lit ''execute'')), (lit ''action_boundary'', JStr (lit ''code_execution'')),
        (lit ''action_domain'', JStr (lit ''process'')), (lit ''action_path'', JStr (lit ''refs/heads/m'')),
        (lit ''authorized_at'', JStr (isoformat 0)), (lit ''not_after'', JStr (isoformat 0))])"

definition demo_git_outcome :: "(pystr, json) dict" where
  "demo_git_outcome = sort_key fst (demo_join (JStr (lit git_publication_profile)) @ demo_plan
     @ [(lit ''status'', JStr (lit ''committed'')), (lit ''accepted_at'', JStr (isoformat 0)),
        (lit ''recorded_at'', JStr (isoformat 0))])"

lemma demo_iso: "aware_moment (JStr (isoformat 0)) = Inr 0"
  by (rule aware_moment_isoformat) (simp_all add: max_instant_def day_us_def)

text \<open>
  C12: a verified Git dispatch and a verified Git outcome that name one plan hash name the same remote,
  ref, object ids and range, unless the two stated plans are a collision of the hash.
\<close>

theorem git_outcome_joins_dispatch:
  assumes "verify_dispatch K I key token = Inr d" "verify_resource_outcome K I key' token' = Inr e"
    and "get d (lit ''profile'') = JStr (lit git_publication_profile)"
    and "get e (lit ''profile'') = JStr (lit git_publication_profile)"
    and "get d (lit ''plan_hash'') = get e (lit ''plan_hash'')"
  shows "list_all (\<lambda>k. get d (lit k) = get e (lit k)) plan_fields \<or> collide I (stated_plan d) (stated_plan e)"
proof (rule git_plan_unique [OF _ _ assms(5)])
  have d: "signed_token K I key dispatch_context token d" "dispatch_formed I d"
    using assms(1) by (simp_all add: verify_kinds dispatch_claims_iff)
  have e: "signed_token K I key' outcome_context token' e" "outcome_formed I e"
    using assms(2) by (simp_all add: verify_kinds outcome_claims_iff)
  show "git_planned I d"
    using d(2) assms(3) by (auto simp: dispatch_formed_def dispatch_profile_formed_def profile_defs dest: base_profile)
  show "git_planned I e"
    using e(2) assms(4) by (auto simp: outcome_formed_def profile_defs dest: base_profile)
  show "json_ok (JObj d)" "json_ok (JObj e)" by (rule signed_json_ok [OF d(1)], rule signed_json_ok [OF e(1)])
qed

lemmas demo_defs = demo_git_dispatch_def demo_git_outcome_def demo_join_def demo_plan_def zeros64_def profile_defs


lemma scalar_replicate: "scalar_text (replicate n c) \<longleftrightarrow> n = 0 \<or> c < 0x110000 \<and> \<not> is_surrogate c"
  by (induction n) auto

lemma demo_dispatch_sealed: "demo_sealed demo_git_dispatch" "no_floats (JObj demo_git_dispatch)"
  by (simp_all add: demo_sealed_def demo_defs lit_def dict_ok_def is_surrogate_def scalar_isoformat max_json_nesting_def
     max_str_digits_def dec_digits.simps float_codec_def scalar_replicate)

lemma demo_outcome_sealed: "demo_sealed demo_git_outcome" "no_floats (JObj demo_git_outcome)"
  by (simp_all add: demo_sealed_def demo_defs lit_def dict_ok_def is_surrogate_def scalar_isoformat max_json_nesting_def
     max_str_digits_def dec_digits.simps float_codec_def scalar_replicate)

lemma sorted_dict:
  assumes "dict_ok d"
  shows "get (sort_key fst d) k = get d k" "keys_exact (sort_key fst d) names = keys_exact d names"
    "has_key (sort_key fst d) k = has_key d k"
proof -
  have "set (keys (sort_key fst d)) = set (keys d)" by (simp add: keys_def)
  then show "keys_exact (sort_key fst d) names = keys_exact d names" "has_key (sort_key fst d) k = has_key d k"
    by (simp_all add: keys_exact_iff has_key_def)
  have "distinct (map fst (sort_key fst d))"
    using assms by (simp add: dict_ok_def keys_def distinct_map)
  then have "map_of (sort_key fst d) = map_of d"
    using assms by (intro map_of_eqI) (auto simp: dict_ok_def keys_def)
  then show "get (sort_key fst d) k = get d k" by (simp add: get_def)
qed

lemma demo_dict_ok:
  "dict_ok (demo_join p @ demo_plan @ [(lit ''action_type'', a), (lit ''action_boundary'', b), (lit ''action_domain'', c),
     (lit ''action_path'', e), (lit ''authorized_at'', f), (lit ''not_after'', g)])"
  "dict_ok (demo_join p @ demo_plan @ [(lit ''status'', a), (lit ''accepted_at'', b), (lit ''recorded_at'', c)])"
  by (simp_all add: dict_ok_def demo_join_def demo_plan_def)

lemma zeros64_digest: "hex_text 64 zeros64"
  by (simp add: zeros64_def hex_text_def list_all_iff is_lower_hex_def is_dec_digit_def)

lemma short_texts:
  "canonical_text (JStr (lit ''d''))" "canonical_text (JStr (lit ''l''))" "canonical_text (JStr (lit ''e''))"
  "canonical_text (JStr (lit ''r''))" "canonical_text (JStr (lit ''a''))" "canonical_text (JStr (lit ''g''))"
  "operation_id_ok (JStr (lit ''op''))" "canonical_text (JStr (lit ''refs/heads/m''))" "canonical_text (JStr (lit ''execute''))"
  "canonical_text (JStr (lit ''code_execution''))" "canonical_text (JStr (lit ''process''))"
  by (simp_all add: canonical_text_def strip_def strip_by_def lit_def py_space_def operation_id_ok_def is_dec_digit_def
      operation_id_char_def)

lemma demo_join_facts:
  "texts d [''domain_id'', ''ledger_id'', ''enforcement_point_id'', ''resource_id'']"
  "versioned d git_publication_profile" "operation_id_ok (get d (lit ''operation_id''))"
  "digests d [''resource_binding_hash'', ''request_hash'', ''payload_hash'', ''decision_hash'', ''intent_hash'']"
  if "d = sort_key fst (demo_join (JStr (lit git_publication_profile)) @ demo_plan @ e)"
    "dict_ok (demo_join (JStr (lit git_publication_profile)) @ demo_plan @ e)" for d e
proof -
  have g: "get d k = get (demo_join (JStr (lit git_publication_profile)) @ demo_plan @ e) k" for k
    unfolding that(1) by (rule sorted_dict [OF that(2)])
  show "texts d [''domain_id'', ''ledger_id'', ''enforcement_point_id'', ''resource_id'']"
    "versioned d git_publication_profile" "operation_id_ok (get d (lit ''operation_id''))"
    "digests d [''resource_binding_hash'', ''request_hash'', ''payload_hash'', ''decision_hash'', ''intent_hash'']"
    by (simp_all add: texts_def versioned_def digests_def g demo_join_def zeros64_digest short_texts)
qed

lemma demo_git_get:
  "get demo_git_dispatch (lit k) = get (demo_join (JStr (lit git_publication_profile)) @ demo_plan
     @ [(lit ''action_type'', JStr (lit ''execute'')), (lit ''action_boundary'', JStr (lit ''code_execution'')),
        (lit ''action_domain'', JStr (lit ''process'')), (lit ''action_path'', JStr (lit ''refs/heads/m'')),
        (lit ''authorized_at'', JStr (isoformat 0)), (lit ''not_after'', JStr (isoformat 0))]) (lit k)"
  "get demo_git_outcome (lit k) = get (demo_join (JStr (lit git_publication_profile)) @ demo_plan
     @ [(lit ''status'', JStr (lit ''committed'')), (lit ''accepted_at'', JStr (isoformat 0)),
        (lit ''recorded_at'', JStr (isoformat 0))]) (lit k)"
  by (simp_all only: demo_git_dispatch_def demo_git_outcome_def sorted_dict demo_dict_ok)

lemma demo_git_keys:
  "keys_exact demo_git_dispatch (map lit git_dispatch_fields)" "keys_exact demo_git_outcome (map lit git_terminal_fields)"
  unfolding demo_git_dispatch_def demo_git_outcome_def sorted_dict(2) [OF demo_dict_ok(1)] sorted_dict(2) [OF demo_dict_ok(2)]
  by (simp_all add: keys_exact_def keys_within_def has_keys_def demo_join_def demo_plan_def git_dispatch_fields_def
      git_terminal_fields_def resource_join_fields_def)

lemma demo_git_base:
  "resource_base demo_interp git_dispatch_fields git_publication_profile identity_groups demo_git_dispatch"
  "resource_base demo_interp git_terminal_fields git_publication_profile [[''reason'']] demo_git_outcome"
  using demo_readable [OF demo_dispatch_sealed] demo_readable [OF demo_outcome_sealed] demo_git_keys
    demo_join_facts [OF demo_git_dispatch_def demo_dict_ok(1)] demo_join_facts [OF demo_git_outcome_def demo_dict_ok(2)]
  by (simp_all add: resource_base_def)

lemma demo_branch: "validate_branch_ref (JStr (lit ''refs/heads/m'')) = Inr (lit ''refs/heads/m'')"
  using short_texts(8)
  by (simp add: validate_branch_ref_def) (simp add: lit_def ref_char_def is_dec_digit_def ascii_alpha_def ends_with_def
      ref_component_bad_def)

lemma demo_plan_hash:
  "git_publication_plan_hash demo_interp (JStr (lit ''g'')) (JStr (lit ''refs/heads/m'')) (JStr (replicate 40 97))
     (JStr (replicate 40 98)) (JStr (replicate 40 97 @ lit ''..'' @ replicate 40 98)) (JBool False) = Inr (replicate 64 48)"
proof -
  have "git_oid (JStr (replicate 40 97)) = Inr (replicate 40 97)" "git_oid (JStr (replicate 40 98)) = Inr (replicate 40 98)"
    by (simp_all add: git_oid_def hex_text_def list_all_iff is_lower_hex_def is_dec_digit_def)
  then show ?thesis
    using short_texts(6)
    by (simp add: git_publication_plan_hash_def demo_branch hash_object_Inr canonical_json_bytes_def plan_object_def
        demo_interp_def)
qed

lemma demo_git_planned: "git_planned demo_interp demo_git_dispatch" "git_planned demo_interp demo_git_outcome"
  by (simp_all add: git_planned_def claimed_plan_hash_def demo_git_get demo_join_def demo_plan_def demo_plan_hash zeros64_def)

lemma demo_git_dispatch_formed: "dispatch_formed demo_interp demo_git_dispatch"
proof -
  have "dispatch_profile_formed demo_interp demo_git_dispatch"
    unfolding dispatch_profile_formed_def using demo_git_base(1) demo_git_planned(1)
    by (simp add: demo_git_get texts_def action_is_def demo_join_def demo_plan_def short_texts)
  moreover have "\<not> has_key demo_git_dispatch (lit ''delegation_jtis'')" "\<not> has_key demo_git_dispatch (lit ''max_revocation_age_ms'')"
    unfolding demo_git_dispatch_def sorted_dict(3) [OF demo_dict_ok(1)] by (simp_all add: demo_join_def demo_plan_def)
  ultimately show ?thesis
    by (simp add: dispatch_formed_def demo_git_get texts_def demo_join_def demo_plan_def short_texts demo_iso)
qed

lemma demo_git_outcome_formed: "outcome_formed demo_interp demo_git_outcome"
proof -
  have "recorded demo_git_outcome" "git_effect demo_git_outcome" "texts demo_git_outcome [''actor_id'']"
    by (simp_all add: recorded_def git_effect_def status_is_def accepted_def texts_def demo_git_get demo_join_def
        demo_plan_def demo_iso short_texts)
  then show ?thesis
    unfolding outcome_formed_def using demo_git_base(2) demo_git_planned(2) by blast
qed

theorem git_outcome_joins_dispatch_witness:
  "list_all (\<lambda>k. get demo_git_dispatch (lit k) = get demo_git_outcome (lit k)) plan_fields
   \<or> collide demo_interp (stated_plan demo_git_dispatch) (stated_plan demo_git_outcome)"
  by (rule git_outcome_joins_dispatch [of demo_crypto demo_interp "Inr (replicate 32 0)" "demo_token demo_git_dispatch" _
        "Inr (replicate 32 0)" "demo_token demo_git_outcome"])
    (simp_all add: verify_kinds dispatch_claims_iff outcome_claims_iff demo_signed demo_dispatch_sealed demo_outcome_sealed
      demo_git_dispatch_formed demo_git_outcome_formed demo_git_get demo_join_def demo_plan_def)

theorem non_object_escapes_witness:
  "verify_dispatch demo_crypto demo_interp (Inr []) (fence_token [91, 93] (replicate 64 0)) = Inl AttributeError
    \<and> verify_resource_outcome demo_crypto demo_interp (Inr []) (fence_token [91, 93] (replicate 64 0)) = Inl AttributeError
    \<and> verify_reconciliation demo_crypto demo_interp (Inr []) (fence_token [91, 93] (replicate 64 0)) = Inl AttributeError"
proof (rule non_object_escapes)
  have body: "(map of_nat (dumps (float_repr demo_interp) (JList [])) :: pybytes) = [91, 93]" by (simp add: lit_def)
  show "utf8_decode [91, 93] = Some (dumps (float_repr demo_interp) (JList []))"
    unfolding body [symmetric] by (rule utf8_canonical) (simp add: float_codec_def)
  show "strict_json_loads demo_interp (dumps (float_repr demo_interp) (JList [])) = Inr (JList [])"
    using strict_loads_dumps [of "JList []" demo_interp] by (simp add: float_codec_def max_json_nesting_def)
qed simp_all


end
