(* ===== verification/Foreign_Revocation.thy ===== *)
theory Foreign_Revocation
  imports Resource_Facts
begin

text \<open>
  The module \<open>foreign_revocation.py\<close>: the public policy organisation B projects from its trusted
  counterparty points, the foreign dispatch of organisation A that a dispatch of B depends on, and
  the clearance B retained for it.
\<close>

section \<open>Points\<close>

definition policy_profile :: pystr where
  "policy_profile = lit ''counterparty-revocation-policy/1''"

definition foreign_evidence_form :: pystr where
  "foreign_evidence_form = lit ''fenced_v2''"

definition point_source_fields :: "string list" where
  "point_source_fields = [''domain_id'', ''ledger_id'', ''resource_id'', ''resource_binding_hash'', ''profile'',
     ''public_key'', ''revocation_status_url'', ''revocation_trust_roots'', ''max_revocation_age_ms'',
     ''consent_delegation_token'', ''consent_parent_delegation_tokens'']"

definition point_policy_fields :: "string list" where
  "point_policy_fields = [''domain_id'', ''ledger_id'', ''resource_id'', ''resource_binding_hash'', ''profile'',
     ''public_key'', ''revocation_status_url'', ''revocation_trust_roots'', ''max_revocation_age_ms'',
     ''consent_hash'', ''consent_delegation_jtis'']"

definition foreign_status_fields :: "pystr list" where
  "foreign_status_fields = map lit [''jti'', ''is_revoked'', ''checked_at'', ''freshness_bound_ms'', ''source'',
     ''verifiable'', ''attestation'', ''trust_root_id'']"

definition root_key_ok :: "json \<Rightarrow> bool" where
  "root_key_ok root = (case root of JObj d \<Rightarrow> hex_text 64 (get d (lit ''public_key'')) | v \<Rightarrow> hex_text 64 v)"

definition root_map :: "json \<Rightarrow> exc + (pystr, json) dict" where
  "root_map v =
     bnd (expect ValueError (as_obj v)) (\<lambda>d.
     ensure (d \<noteq> []) ValueError
     (ensure (list_all (\<lambda>(k, root). canonical_text (JStr k) \<and> root_key_ok root) d) ValueError (Inr d)))"

definition consent_claims :: "crypto \<Rightarrow> interp \<Rightarrow> trust_roots \<Rightarrow> json \<Rightarrow> exc + delegation_claims" where
  "consent_claims K I roots token =
     bnd (expect ValueError (as_str token)) (\<lambda>t.
     bnd (parse_delegation K I roots t) (expect ValueError))"

text \<open>Each claim set names the next one as its parent, one level up, and the last one is a root.\<close>

fun consent_linked :: "delegation_claims list \<Rightarrow> bool" where
  "consent_linked [] = False"
| "consent_linked [c] = (parent_jti c = None \<and> chain_depth c = 0)"
| "consent_linked (child # parent # rest) =
     (parent_jti child = Some (jti parent) \<and> chain_depth child = chain_depth parent + 1
      \<and> consent_linked (parent # rest))"

definition consent_jtis :: "crypto \<Rightarrow> interp \<Rightarrow> trust_roots \<Rightarrow> (pystr, json) dict \<Rightarrow> exc + pystr list" where
  "consent_jtis K I roots point =
     (let leaf_token = get point (lit ''consent_delegation_token'') in
      ensure (canonical_text leaf_token) ValueError
     (bnd (expect ValueError (as_list (get point (lit ''consent_parent_delegation_tokens'')))) (\<lambda>parents.
      ensure (list_all canonical_text parents) ValueError
     (bnd (consent_claims K I roots leaf_token) (\<lambda>leaf.
      bnd (each (consent_claims K I roots) parents) (\<lambda>rest.
      ensure (int (length parents) = chain_depth leaf) ValueError
     (ensure (consent_linked (leaf # rest)) ValueError
     (ensure (distinct (map jti (leaf # rest))) ValueError
     (Inr (map jti (leaf # rest)))))))))))"

definition point_identity_ok :: "(pystr, json) dict \<Rightarrow> bool" where
  "point_identity_ok p \<longleftrightarrow>
     texts p [''domain_id'', ''ledger_id'', ''resource_id''] \<and> digests p [''resource_binding_hash'']
     \<and> get p (lit ''profile'') = JStr (lit customer_delete_profile) \<and> digests p [''public_key'']"

definition source_point_policy ::
  "crypto \<Rightarrow> interp \<Rightarrow> (pystr \<Rightarrow> pystr) \<Rightarrow> trust_roots \<Rightarrow> pystr \<Rightarrow> json \<Rightarrow> exc + (pystr, json) dict" where
  "source_point_policy K I nfkc roots point_id value =
     ensure (hex_text 16 (JStr point_id)) ValueError
     (bnd (expect ValueError (as_obj value)) (\<lambda>p.
      ensure (keys_exact p (map lit point_source_fields)
        \<or> keys_exact p (map lit (point_source_fields @ [''counterparty_context_approval_trust_root_id'']))) ValueError
     (ensure (point_identity_ok p) ValueError
     (bnd (validate_counterparty_ingress_url nfkc (get p (lit ''revocation_status_url''))) (\<lambda>url.
      bnd (root_map (get p (lit ''revocation_trust_roots''))) (\<lambda>status_roots.
      bnd (positive (get p (lit ''max_revocation_age_ms''))) (\<lambda>bound.
      bnd (consent_jtis K I roots p) (\<lambda>jtis.
      bnd (counterparty_consent_hash I (get p (lit ''consent_delegation_token''))
         (get p (lit ''consent_parent_delegation_tokens''))) (\<lambda>consent.
      Inr (map (\<lambda>k. (lit k, get p (lit k)))
             [''domain_id'', ''ledger_id'', ''resource_id'', ''resource_binding_hash'', ''profile'', ''public_key'']
           @ [(lit ''revocation_status_url'', JStr url), (lit ''revocation_trust_roots'', JObj status_roots),
              (lit ''max_revocation_age_ms'', JInt bound), (lit ''consent_hash'', JStr consent),
              (lit ''consent_delegation_jtis'', strs jtis)]))))))))))"

section \<open>The policy\<close>

text \<open>The first identifier of a point's consent chain.\<close>

definition point_jtis :: "(pystr, json) dict \<Rightarrow> json list" where
  "point_jtis p = (case get p (lit ''consent_delegation_jtis'') of JList vs \<Rightarrow> vs | _ \<Rightarrow> [])"

type_synonym policy_points = "(pystr, (pystr, json) dict) dict"

text \<open>The loop over the points: a leaf that an earlier point has is refused.\<close>

fun collect_points ::
  "(pystr \<Rightarrow> json \<Rightarrow> exc + (pystr, json) dict) \<Rightarrow> (pystr, json) dict \<Rightarrow> json list \<Rightarrow> exc + policy_points" where
  "collect_points read [] leaves = Inr []"
| "collect_points read ((ident, value) # rest) leaves =
     bnd (read ident value) (\<lambda>p.
     ensure (hd (point_jtis p) \<notin> set leaves) ValueError
     (bnd (collect_points read rest (hd (point_jtis p) # leaves)) (\<lambda>points. Inr ((ident, p) # points))))"

definition points_json :: "policy_points \<Rightarrow> json" where
  "points_json points = JObj (map (\<lambda>(k, p). (k, JObj p)) points)"

definition policy_json :: "policy_points \<Rightarrow> json" where
  "policy_json points = JObj [(lit ''profile'', JStr policy_profile), (lit ''points'', points_json points)]"

definition project_foreign_revocation_policy ::
  "crypto \<Rightarrow> interp \<Rightarrow> (pystr \<Rightarrow> pystr) \<Rightarrow> trust_roots \<Rightarrow> json \<Rightarrow> exc + json" where
  "project_foreign_revocation_policy K I nfkc roots trusted_points =
     bnd (expect ValueError (as_obj trusted_points)) (\<lambda>points.
     ensure (roots \<noteq> []) ValueError
     (bnd (collect_points (source_point_policy K I nfkc roots) (sort_key fst points) []) (\<lambda>policy.
      Inr (policy_json policy))))"

definition policy_jtis_ok :: "json \<Rightarrow> bool" where
  "policy_jtis_ok v = (case v of JList jtis \<Rightarrow> jtis \<noteq> [] \<and> list_all canonical_text jtis \<and> distinct jtis | _ \<Rightarrow> False)"

definition policy_point :: "(pystr \<Rightarrow> pystr) \<Rightarrow> pystr \<Rightarrow> json \<Rightarrow> exc + (pystr, json) dict" where
  "policy_point nfkc point_id value =
     ensure (hex_text 16 (JStr point_id)) ValueError
     (bnd (expect ValueError (as_obj value)) (\<lambda>p.
      ensure (keys_exact p (map lit point_policy_fields)) ValueError
     (ensure (point_identity_ok p) ValueError
     (ensure (texts p [''revocation_status_url'']) ValueError
     (bnd (validate_counterparty_ingress_url nfkc (get p (lit ''revocation_status_url''))) (\<lambda>url.
      bnd (root_map (get p (lit ''revocation_trust_roots''))) (\<lambda>status_roots.
      bnd (positive (get p (lit ''max_revocation_age_ms''))) (\<lambda>bound.
      ensure (digests p [''consent_hash'']) ValueError
     (ensure (policy_jtis_ok (get p (lit ''consent_delegation_jtis''))) ValueError (Inr p))))))))))"

definition foreign_revocation_policy_points :: "(pystr \<Rightarrow> pystr) \<Rightarrow> json \<Rightarrow> exc + policy_points" where
  "foreign_revocation_policy_points nfkc policy =
     bnd (expect ValueError (as_obj policy)) (\<lambda>d.
     ensure (keys_exact d [lit ''profile'', lit ''points'']) ValueError
     (ensure (get d (lit ''profile'') = JStr policy_profile) ValueError
     (bnd (expect ValueError (as_obj (get d (lit ''points'')))) (\<lambda>points.
      collect_points (policy_point nfkc) (sort_key fst points) []))))"

section \<open>The foreign dispatch\<close>

definition dispatch_times :: "(pystr, json) dict \<Rightarrow> exc + instant \<times> instant" where
  "dispatch_times d =
     bnd (aware_moment (get d (lit ''authorized_at''))) (\<lambda>authorized_at.
     bnd (aware_moment (get d (lit ''not_after''))) (\<lambda>not_after.
     ensure (\<not> not_after < authorized_at) ValueError (Inr (authorized_at, not_after))))"

definition foreign_dependency :: "(pystr, json) dict \<Rightarrow> exc + (pystr \<times> json) option" where
  "foreign_dependency native =
     (let value = get native (lit ''foreign_dependency'') in
      if value = JNull then Inr None
      else bnd (expect ValueError (as_obj value)) (\<lambda>d.
        ensure (keys_exact d [lit ''dispatch'', lit ''policy_hash'']) ValueError
        (ensure (texts d [''dispatch'']) ValueError
        (ensure (digests d [''policy_hash'']) ValueError
        (bnd (expect ValueError (as_str (get d (lit ''dispatch'')))) (\<lambda>raw.
         Inr (Some (raw, get d (lit ''policy_hash''))))))))) "

definition shared_fields :: "string list" where
  "shared_fields = [''customer_id'', ''payload_hash'', ''action_type'', ''action_boundary'', ''action_domain'',
     ''action_path'']"

definition same_fields :: "(pystr, json) dict \<Rightarrow> (pystr, json) dict \<Rightarrow> string list \<Rightarrow> bool" where
  "same_fields d e names = list_all (\<lambda>k. get d (lit k) = get e (lit k)) names"

definition key_of :: "json \<Rightarrow> pystr + pybytes" where
  "key_of v = Inl (case v of JStr s \<Rightarrow> s | _ \<Rightarrow> [])"

definition verify_foreign_claims ::
  "crypto \<Rightarrow> interp \<Rightarrow> pystr \<Rightarrow> pystr \<Rightarrow> (pystr, json) dict \<Rightarrow> (pystr, json) dict \<Rightarrow> exc + (pystr, json) dict" where
  "verify_foreign_claims K I raw_dispatch point_id point native =
     bnd (as_value_error (verify_dispatch K I (key_of (get point (lit ''public_key''))) (JStr raw_dispatch))) (\<lambda>d.
     ensure (get d (lit ''foreign_dependency'') = JNull) ValueError
     (ensure (get d (lit ''enforcement_point_id'') = JStr point_id
        \<and> same_fields d point [''domain_id'', ''ledger_id'', ''resource_id'', ''resource_binding_hash'']
        \<and> get d (lit ''profile'') = JStr (lit customer_delete_profile)) ValueError
     (ensure (get d (lit ''counterparty_consent_hash'') = get point (lit ''consent_hash'')) ValueError
     (ensure (get native (lit ''profile'') = JStr (lit customer_delete_profile)) ValueError
     (ensure (same_fields d native shared_fields) ValueError
     (bnd (dispatch_times d) (\<lambda>(foreign_from, foreign_until).
      bnd (dispatch_times native) (\<lambda>(native_from, native_until).
      ensure (foreign_from \<le> native_from \<and> native_from \<le> foreign_until) ValueError (Inr d)))))))))"

record verified_foreign_dependency =
  raw_dispatch :: pystr
  dispatch_hash :: pystr
  foreign_claims :: "(pystr, json) dict"
  point_id :: pystr
  point_policy :: "(pystr, json) dict"
  foreign_jtis :: "json list"
  foreign_epoch :: int
  effective_max_age_ms :: int

definition stricter :: "int \<Rightarrow> int option \<Rightarrow> int" where
  "stricter bound other = (case other of None \<Rightarrow> bound | Some n \<Rightarrow> min bound n)"

definition select_dependency ::
  "crypto \<Rightarrow> interp \<Rightarrow> json \<Rightarrow> policy_points \<Rightarrow> (pystr, json) dict \<Rightarrow> json list \<Rightarrow> pystr \<times> json
    \<Rightarrow> exc + verified_foreign_dependency" where
  "select_dependency K I policy points native native_jtis dependency =
     (case dependency of (raw, stated_policy_hash) \<Rightarrow>
      bnd (case filter (\<lambda>(i, p). point_jtis p = native_jtis) points of [ip] \<Rightarrow> Inr ip | _ \<Rightarrow> Inl ValueError) (\<lambda>(ident, point).
      bnd (hash_object I policy) (\<lambda>policy_hash.
      ensure (stated_policy_hash = JStr policy_hash) ValueError
     (bnd (verify_foreign_claims K I raw ident point native) (\<lambda>d.
      bnd (dispatch_revocation_identity d) (\<lambda>identity.
      bnd (dispatch_max_revocation_age_ms d) (\<lambda>foreign_bound.
      bnd (dispatch_max_revocation_age_ms native) (\<lambda>native_bound.
      bnd (expect ValueError identity) (\<lambda>(jtis, epoch).
      bnd (expect ValueError (utf8_encode raw)) (\<lambda>bytes.
      bnd (expect ValueError (as_int (get point (lit ''max_revocation_age_ms'')))) (\<lambda>bound.
      Inr \<lparr>raw_dispatch = raw, dispatch_hash = sha256_hex I bytes, foreign_claims = d, point_id = ident,
        point_policy = point, foreign_jtis = jtis, foreign_epoch = epoch,
        effective_max_age_ms = stricter (stricter bound foreign_bound) native_bound\<rparr>)))))))))))"

definition verify_foreign_dependency ::
  "crypto \<Rightarrow> interp \<Rightarrow> (pystr \<Rightarrow> pystr) \<Rightarrow> (pystr, json) dict \<Rightarrow> json \<Rightarrow> exc + verified_foreign_dependency option" where
  "verify_foreign_dependency K I nfkc native policy =
     bnd (foreign_revocation_policy_points nfkc policy) (\<lambda>points.
     bnd (foreign_dependency native) (\<lambda>dependency.
     bnd (dispatch_revocation_identity native) (\<lambda>identity.
      case identity of
        None \<Rightarrow> ensure (dependency = None) ValueError (Inr None)
      | Some (native_jtis, _) \<Rightarrow>
          (case dependency of
             None \<Rightarrow>
               ensure (\<not> list_ex (\<lambda>(i, p). hd (point_jtis p) \<in> set native_jtis) points) ValueError (Inr None)
           | Some dep \<Rightarrow> bnd (select_dependency K I policy points native native_jtis dep) (\<lambda>v. Inr (Some v))))))"

section \<open>The clearance\<close>

text \<open>\<open>ForeignRevocationRevokedError\<close> is kept apart from every other exception.\<close>

datatype foreign_error = Foreign_Revoked | Foreign_Refused exc

definition plain :: "exc + 'a \<Rightarrow> foreign_error + 'a" where
  "plain r = (case r of Inl e \<Rightarrow> Inl (Foreign_Refused e) | Inr x \<Rightarrow> Inr x)"

text \<open>\<open>timedelta(milliseconds=n)\<close> in microseconds, for a positive \<open>n\<close>.\<close>

definition duration_ms :: "int \<Rightarrow> exc + int" where
  "duration_ms n = (if n div 86400000 > 999999999 then Inl OverflowError else Inr (n * 1000))"

definition within_age :: "instant \<Rightarrow> instant \<Rightarrow> int \<Rightarrow> exc + unit" where
  "within_age at checked bound =
     ensure (\<not> checked > at) ValueError
     (bnd (duration_ms bound) (\<lambda>age. ensure (\<not> at - checked > age) ValueError (Inr ())))"

definition malformed :: "exc + 'a \<Rightarrow> exc + 'a" where
  "malformed r =
     (case r of
        Inl e \<Rightarrow> Inl (if e \<in> {KeyError, TypeError, ValueError, OverflowError} then ValueError else e)
      | Inr x \<Rightarrow> Inr x)"

definition status_fields_ok :: "(pystr, json) dict \<Rightarrow> bool" where
  "status_fields_ok d \<longleftrightarrow>
     keys_exact d foreign_status_fields \<or> keys_exact d (foreign_status_fields @ [lit ''revocation_epoch''])
     \<or> keys_exact d (foreign_status_fields @ [lit ''revocation_epoch'', lit ''request_nonce''])"

definition verify_status ::
  "crypto \<Rightarrow> interp \<Rightarrow> verified_foreign_dependency \<Rightarrow> (pystr, json) dict \<Rightarrow> instant \<Rightarrow> json \<Rightarrow> json
    \<Rightarrow> exc + revocation_status \<times> int" where
  "verify_status K I dep roots at ident raw =
     bnd (expect ValueError (as_obj raw)) (\<lambda>d.
     ensure (status_fields_ok d) ValueError
     (bnd (malformed (status_from_evidence d)) (\<lambda>s.
      ensure (get d (lit ''jti'') = ident) ValueError
     (ensure (request_nonce s \<noteq> None) ValueError
     (ensure (status_verifiable s \<and> \<not> revocation_source_unavailable s) ValueError
     (bnd (expect ValueError (status_public_key roots (status_root s))) (\<lambda>key.
      bnd (expect ValueError (as_str ident)) (\<lambda>j.
      ensure (verify_revocation_attestation K I s j key) ValueError
     (bnd (expect ValueError (revocation_epoch s)) (\<lambda>epoch.
      ensure (\<not> epoch < foreign_epoch dep) ValueError
     (bnd (within_age at (checked_at s) (effective_max_age_ms dep)) (\<lambda>_. Inr (s, epoch)))))))))))))"

text \<open>The loop over the statuses: every epoch is that of the first.\<close>

fun verify_status_chain ::
  "crypto \<Rightarrow> interp \<Rightarrow> verified_foreign_dependency \<Rightarrow> (pystr, json) dict \<Rightarrow> instant \<Rightarrow> int option \<Rightarrow> (json \<times> json) list
    \<Rightarrow> exc + revocation_status list" where
  "verify_status_chain K I dep roots at store [] = Inr []"
| "verify_status_chain K I dep roots at store ((ident, raw) # rest) =
     bnd (verify_status K I dep roots at ident raw) (\<lambda>(s, epoch).
     ensure (store = None \<or> store = Some epoch) ValueError
     (bnd (verify_status_chain K I dep roots at (Some epoch) rest) (\<lambda>ss. Inr (s # ss))))"

definition dependency_roots :: "verified_foreign_dependency \<Rightarrow> (pystr, json) dict" where
  "dependency_roots dep = (case get (point_policy dep) (lit ''revocation_trust_roots'') of JObj d \<Rightarrow> d | _ \<Rightarrow> [])"

definition verify_statuses ::
  "crypto \<Rightarrow> interp \<Rightarrow> json \<Rightarrow> verified_foreign_dependency \<Rightarrow> instant \<Rightarrow> foreign_error + revocation_status list" where
  "verify_statuses K I statuses dep at =
     bnd (plain (bnd (expect ValueError (as_list statuses)) (\<lambda>raws.
       ensure (length raws = length (foreign_jtis dep)) ValueError
       (verify_status_chain K I dep (dependency_roots dep) at None (zip (foreign_jtis dep) raws))))) (\<lambda>verified.
     ensure (\<not> list_ex is_revoked verified) Foreign_Revoked (Inr verified))"

definition evidence_fields :: "string list" where
  "evidence_fields = [''foreign_dispatch_hash'', ''policy_hash'', ''statuses'', ''checked_at'', ''fence_request'',
     ''fence_grant'']"

text \<open>The recorded time is a \<open>datetime\<close> (\<open>Inl\<close>) or a JSON value.\<close>

definition evidence_time :: "moment_arg + json \<Rightarrow> exc + instant" where
  "evidence_time v = (case v of Inl m \<Rightarrow> moment_utc m | Inr w \<Rightarrow> aware_moment w)"

definition gate_times ::
  "verified_foreign_dependency \<Rightarrow> (pystr, json) dict \<Rightarrow> json \<Rightarrow> moment_arg + json \<Rightarrow> exc + instant \<times> instant \<times> instant" where
  "gate_times dep native checked terminal =
     bnd (aware_moment checked) (\<lambda>checked_at.
     bnd (evidence_time terminal) (\<lambda>recorded_at.
     bnd (dispatch_times (foreign_claims dep)) (\<lambda>(foreign_from, foreign_until).
     bnd (dispatch_times native) (\<lambda>(native_from, native_until).
     ensure (foreign_from \<le> checked_at \<and> checked_at < foreign_until \<and> native_from \<le> checked_at \<and> checked_at < native_until)
       ValueError
     (ensure (\<not> recorded_at < checked_at) ValueError
     (ensure (\<not> (recorded_at \<ge> foreign_until \<or> recorded_at \<ge> native_until)) ValueError
     (Inr (checked_at, recorded_at, foreign_from))))))))"

definition root_key :: "json \<Rightarrow> json" where
  "root_key root = (case root of JObj d \<Rightarrow> get d (lit ''public_key'') | v \<Rightarrow> v)"

definition native_request_fields :: "(string \<times> string) list" where
  "native_request_fields = [(''b_operation_id'', ''operation_id''), (''b_domain_id'', ''domain_id''),
     (''b_ledger_id'', ''ledger_id''), (''b_resource_id'', ''resource_id''),
     (''b_resource_binding_hash'', ''resource_binding_hash''), (''customer_id'', ''customer_id''),
     (''payload_hash'', ''payload_hash'')]"

definition fence_request_matches :: "verified_foreign_dependency \<Rightarrow> (pystr, json) dict \<Rightarrow> (pystr, json) dict \<Rightarrow> bool" where
  "fence_request_matches dep native request \<longleftrightarrow>
     get request (lit ''a_dispatch'') = JStr (raw_dispatch dep)
     \<and> list_all (\<lambda>(f, n). get request (lit f) = get native (lit n)) native_request_fields"

definition fence_grant_matches :: "verified_foreign_dependency \<Rightarrow> pystr \<Rightarrow> (pystr, json) dict \<Rightarrow> (pystr, json) dict \<Rightarrow> bool" where
  "fence_grant_matches dep request_hash request grant \<longleftrightarrow>
     get grant (lit ''request_hash'') = JStr request_hash
     \<and> get grant (lit ''a_dispatch_hash'') = JStr (dispatch_hash dep)
     \<and> get grant (lit ''b_dispatch_hash'') = get request (lit ''b_dispatch_hash'')
     \<and> get grant (lit ''delegation_jtis'') = JList (foreign_jtis dep)"

definition verify_fence ::
  "crypto \<Rightarrow> interp \<Rightarrow> pystr + pybytes \<Rightarrow> verified_foreign_dependency \<Rightarrow> (pystr, json) dict \<Rightarrow> json \<Rightarrow> json
    \<Rightarrow> exc + (pystr, json) dict" where
  "verify_fence K I request_key dep native request_token grant_token =
     bnd (verify_fence_token K I request_key False request_token) (\<lambda>request.
     bnd (unverified_fence_claims I True grant_token) (\<lambda>candidate.
     bnd (expect ValueError (as_str (get candidate (lit ''trust_root_id'')))) (\<lambda>root_id.
     ensure (get (dependency_roots dep) root_id \<noteq> JNull) ValueError
     (bnd (expect ValueError (as_str (root_key (get (dependency_roots dep) root_id)))) (\<lambda>key.
      bnd (verify_fence_token K I (Inl key) True grant_token) (\<lambda>grant.
      ensure (fence_request_matches dep native request) ValueError
     (bnd (expect ValueError (as_str request_token)) (\<lambda>t.
      bnd (fence_request_hash I t) (\<lambda>h.
      ensure (fence_grant_matches dep h request grant) ValueError (Inr grant))))))))))"

definition fence_order ::
  "verified_foreign_dependency \<Rightarrow> (pystr, json) dict \<Rightarrow> instant \<Rightarrow> instant \<Rightarrow> revocation_status list \<Rightarrow> exc + unit" where
  "fence_order dep grant checked_at' foreign_from statuses =
     bnd (expect ValueError (as_int (get grant (lit ''revocation_epoch'')))) (\<lambda>epoch.
     ensure (\<not> epoch < foreign_epoch dep) ValueError
     (bnd (aware_moment (get grant (lit ''prepared_at''))) (\<lambda>prepared_at.
      ensure (\<not> prepared_at > checked_at') ValueError
     (ensure (\<not> prepared_at < foreign_from) ValueError
     (ensure (list_all (\<lambda>s. \<not> checked_at s < prepared_at
        \<and> (case revocation_epoch s of None \<Rightarrow> False | Some e \<Rightarrow> \<not> e < epoch)) statuses) ValueError
     (Inr ()))))))"

record verified_foreign_revocation =
  cleared_form :: pystr
  cleared_hash :: pystr
  cleared_dispatch :: pystr

definition verify_clearance ::
  "crypto \<Rightarrow> interp \<Rightarrow> verified_foreign_dependency \<Rightarrow> json \<Rightarrow> (pystr, json) dict \<Rightarrow> json \<Rightarrow> moment_arg + json \<Rightarrow> pystr + pybytes
    \<Rightarrow> foreign_error + verified_foreign_revocation" where
  "verify_clearance K I dep evidence native policy terminal request_key =
     bnd (plain (expect ValueError (as_obj evidence))) (\<lambda>d.
     ensure (keys_exact d (map lit evidence_fields)) (Foreign_Refused ValueError)
     (ensure (digests d [''foreign_dispatch_hash'', ''policy_hash'']) (Foreign_Refused ValueError)
     (ensure (get d (lit ''foreign_dispatch_hash'') = JStr (dispatch_hash dep)) (Foreign_Refused ValueError)
     (bnd (plain (hash_object I policy)) (\<lambda>policy_hash.
      ensure (get d (lit ''policy_hash'') = JStr policy_hash) (Foreign_Refused ValueError)
     (bnd (plain (gate_times dep native (get d (lit ''checked_at'')) terminal)) (\<lambda>(checked, recorded_at, foreign_from).
      bnd (verify_statuses K I (get d (lit ''statuses'')) dep checked) (\<lambda>statuses.
      bnd (plain (duration_ms (effective_max_age_ms dep))) (\<lambda>freshness.
      ensure (list_all (\<lambda>s. \<not> recorded_at - checked_at s > freshness) statuses) (Foreign_Refused ValueError)
     (bnd (plain (verify_fence K I request_key dep native (get d (lit ''fence_request'')) (get d (lit ''fence_grant'')))) (\<lambda>grant.
      bnd (plain (fence_order dep grant checked foreign_from statuses)) (\<lambda>_.
      Inr \<lparr>cleared_form = foreign_evidence_form, cleared_hash = dispatch_hash dep,
        cleared_dispatch = raw_dispatch dep\<rparr>))))))))))))"

definition verify_foreign_revocation_evidence ::
  "crypto \<Rightarrow> interp \<Rightarrow> (pystr \<Rightarrow> pystr) \<Rightarrow> json \<Rightarrow> (pystr, json) dict \<Rightarrow> json \<Rightarrow> moment_arg + json \<Rightarrow> pystr + pybytes
    \<Rightarrow> foreign_error + verified_foreign_revocation option" where
  "verify_foreign_revocation_evidence K I nfkc evidence native policy terminal request_key =
     bnd (plain (verify_foreign_dependency K I nfkc native policy)) (\<lambda>dependency.
      case dependency of
        None \<Rightarrow> ensure (evidence = JNull) (Foreign_Refused ValueError) (Inr None)
      | Some dep \<Rightarrow>
          bnd (verify_clearance K I dep evidence native policy terminal request_key) (\<lambda>v. Inr (Some v)))"

end
