(* ===== verification/Foreign_Facts.thy ===== *)
theory Foreign_Facts
  imports Foreign_Revocation
begin

text \<open>
  What the clearance of \<open>foreign_revocation.py\<close> proves, and that the projected policy is one the
  reader of policies accepts.
\<close>

section \<open>Statuses\<close>

lemma plain_Inr [simp]: "plain r = Inr x \<longleftrightarrow> r = Inr x" "plain (Inr x) = Inr x"
  by (auto simp: plain_def split: sum.splits)

lemma malformed_Inr [simp]: "malformed r = Inr x \<longleftrightarrow> r = Inr x"
  by (auto simp: malformed_def split: sum.splits)

text \<open>A status an attestation of a pinned root vouches for, read and fresh at the gate.\<close>

definition status_clear ::
  "crypto \<Rightarrow> interp \<Rightarrow> verified_foreign_dependency \<Rightarrow> instant \<Rightarrow> int \<Rightarrow> json \<times> json \<Rightarrow> revocation_status \<Rightarrow> bool" where
  "status_clear K I dep at epoch p s \<longleftrightarrow>
     (\<exists>d j key. snd p = JObj d \<and> fst p = JStr j \<and> status_fields_ok d \<and> status_from_evidence d = Inr s
        \<and> get d (lit ''jti'') = JStr j \<and> request_nonce s \<noteq> None \<and> status_verifiable s
        \<and> \<not> revocation_source_unavailable s
        \<and> status_public_key (dependency_roots dep) (status_root s) = Some key
        \<and> verify_revocation_attestation K I s j key
        \<and> revocation_epoch s = Some epoch \<and> foreign_epoch dep \<le> epoch
        \<and> checked_at s \<le> at \<and> (\<exists>age. duration_ms (effective_max_age_ms dep) = Inr age \<and> at - checked_at s \<le> age))"

lemma verify_status_iff:
  "verify_status K I dep (dependency_roots dep) at ident raw = Inr (s, epoch) \<longleftrightarrow> status_clear K I dep at epoch (ident, raw) s"
  by (auto simp: verify_status_def status_clear_def within_age_def raise_simps not_less)

lemma status_chain_iff:
  "verify_status_chain K I dep (dependency_roots dep) at (Some epoch) ps = Inr ss \<longleftrightarrow> list_all2 (status_clear K I dep at epoch) ps ss"
  "verify_status_chain K I dep (dependency_roots dep) at None ps = Inr ss \<longleftrightarrow> (\<exists>epoch. list_all2 (status_clear K I dep at epoch) ps ss)"
proof -
  show some: "verify_status_chain K I dep (dependency_roots dep) at (Some epoch) ps = Inr ss
      \<longleftrightarrow> list_all2 (status_clear K I dep at epoch) ps ss" for epoch ps ss
    by (induction ps arbitrary: ss) (auto simp: raise_simps verify_status_iff list_all2_Cons1)
  show "verify_status_chain K I dep (dependency_roots dep) at None ps = Inr ss \<longleftrightarrow> (\<exists>epoch. list_all2 (status_clear K I dep at epoch) ps ss)"
  proof (cases ps)
    case (Cons p rest)
    then show ?thesis by (cases p) (auto simp: raise_simps verify_status_iff some list_all2_Cons1)
  qed auto
qed

text \<open>Every identifier of the foreign chain has a clear status of one epoch, and none is revoked.\<close>

definition chain_clear ::
  "crypto \<Rightarrow> interp \<Rightarrow> verified_foreign_dependency \<Rightarrow> instant \<Rightarrow> json \<Rightarrow> revocation_status list \<Rightarrow> bool" where
  "chain_clear K I dep at statuses ss \<longleftrightarrow>
     (\<exists>raws epoch. statuses = JList raws \<and> length raws = length (foreign_jtis dep)
        \<and> list_all2 (status_clear K I dep at epoch) (zip (foreign_jtis dep) raws) ss)
     \<and> list_all (\<lambda>s. \<not> is_revoked s) ss"

lemma verify_statuses_iff: "verify_statuses K I statuses dep at = Inr ss \<longleftrightarrow> chain_clear K I dep at statuses ss"
  by (auto simp: verify_statuses_def chain_clear_def raise_simps status_chain_iff list_all_iff list_ex_iff)

section \<open>The gate and the fence\<close>

text \<open>The intervals of both dispatches hold the gate and the record of the outcome.\<close>

definition gate_open ::
  "verified_foreign_dependency \<Rightarrow> (pystr, json) dict \<Rightarrow> instant \<Rightarrow> instant \<Rightarrow> instant \<Rightarrow> bool" where
  "gate_open dep native checked stored foreign_from \<longleftrightarrow>
     (\<exists>foreign_until native_from native_until.
        dispatch_times (foreign_claims dep) = Inr (foreign_from, foreign_until)
        \<and> dispatch_times native = Inr (native_from, native_until)
        \<and> foreign_from \<le> checked \<and> native_from \<le> checked \<and> checked \<le> stored
        \<and> stored < foreign_until \<and> stored < native_until)"

lemma gate_times_iff:
  "gate_times dep native v t = Inr (checked, stored, foreign_from) \<longleftrightarrow>
     aware_moment v = Inr checked \<and> evidence_time t = Inr stored \<and> gate_open dep native checked stored foreign_from"
  by (auto simp: gate_times_def gate_open_def raise_simps not_le)

text \<open>A request signed by B for this operation and a grant signed by a pinned root for A's dispatch.\<close>

definition fence_granted ::
  "crypto \<Rightarrow> interp \<Rightarrow> pystr + pybytes \<Rightarrow> verified_foreign_dependency \<Rightarrow> (pystr, json) dict \<Rightarrow> json \<Rightarrow> json
    \<Rightarrow> (pystr, json) dict \<Rightarrow> bool" where
  "fence_granted K I request_key dep native request_token grant_token grant \<longleftrightarrow>
     (\<exists>request t h key root_id. verify_fence_token K I request_key False request_token = Inr request
        \<and> get grant (lit ''trust_root_id'') = JStr root_id
        \<and> get (dependency_roots dep) root_id \<noteq> JNull \<and> root_key (get (dependency_roots dep) root_id) = JStr key
        \<and> verify_fence_token K I (Inl key) True grant_token = Inr grant
        \<and> request_token = JStr t \<and> fence_request_hash I t = Inr h
        \<and> fence_request_matches dep native request \<and> fence_grant_matches dep h request grant)"

lemma verified_claims_read:
  assumes "verify_fence_token K I key grant token = Inr d"
  shows "unverified_fence_claims I grant token = Inr d"
  using assms by (auto simp: verify_fence_token_def unverified_fence_claims_def raise_simps)

lemma verify_fence_iff:
  "verify_fence K I request_key dep native request_token grant_token = Inr grant \<longleftrightarrow>
     fence_granted K I request_key dep native request_token grant_token grant"
  (is "?l \<longleftrightarrow> ?r")
proof
  assume ?l
  then obtain request candidate root_id key t h where f:
      "verify_fence_token K I request_key False request_token = Inr request"
      "unverified_fence_claims I True grant_token = Inr candidate" "get candidate (lit ''trust_root_id'') = JStr root_id"
      "get (dependency_roots dep) root_id \<noteq> JNull" "root_key (get (dependency_roots dep) root_id) = JStr key"
      "verify_fence_token K I (Inl key) True grant_token = Inr grant" "request_token = JStr t"
      "fence_request_hash I t = Inr h" "fence_request_matches dep native request" "fence_grant_matches dep h request grant"
    by (auto simp: verify_fence_def raise_simps)
  have "candidate = grant" using f(2) verified_claims_read [OF f(6)] by simp
  then show ?r using f unfolding fence_granted_def by blast
next
  assume ?r
  then obtain request t h key root_id where f:
      "verify_fence_token K I request_key False request_token = Inr request"
      "get grant (lit ''trust_root_id'') = JStr root_id"
      "get (dependency_roots dep) root_id \<noteq> JNull" "root_key (get (dependency_roots dep) root_id) = JStr key"
      "verify_fence_token K I (Inl key) True grant_token = Inr grant" "request_token = JStr t"
      "fence_request_hash I t = Inr h" "fence_request_matches dep native request" "fence_grant_matches dep h request grant"
    by (auto simp: fence_granted_def)
  with verified_claims_read [OF f(5)] show ?l by (simp add: verify_fence_def)
qed

text \<open>The grant was prepared inside A's dispatch before the statuses were read, which it bounds from below.\<close>

definition grant_precedes ::
  "verified_foreign_dependency \<Rightarrow> (pystr, json) dict \<Rightarrow> instant \<Rightarrow> instant \<Rightarrow> revocation_status list \<Rightarrow> bool" where
  "grant_precedes dep grant checked foreign_from ss \<longleftrightarrow>
     (\<exists>epoch prepared. get grant (lit ''revocation_epoch'') = JInt epoch \<and> foreign_epoch dep \<le> epoch
        \<and> aware_moment (get grant (lit ''prepared_at'')) = Inr prepared \<and> foreign_from \<le> prepared \<and> prepared \<le> checked
        \<and> list_all (\<lambda>s. prepared \<le> checked_at s \<and> (\<exists>e. revocation_epoch s = Some e \<and> epoch \<le> e)) ss)"

lemma fence_order_iff: "fence_order dep grant checked foreign_from ss = Inr u \<longleftrightarrow> grant_precedes dep grant checked foreign_from ss"
proof -
  have e: "(p \<le> checked_at s \<and> (case revocation_epoch s of None \<Rightarrow> False | Some e \<Rightarrow> n \<le> e)) \<longleftrightarrow>
      p \<le> checked_at s \<and> (\<exists>e. revocation_epoch s = Some e \<and> n \<le> e)" for s p n
    by (auto split: option.splits)
  show ?thesis
    unfolding fence_order_def grant_precedes_def bnd_Inr_iff ensure_Inr_iff expect_Inr_iff as_Some_iff not_less e by auto
qed

section \<open>The clearance\<close>

text \<open>What the evidence of a cleared dependency states.\<close>

definition clearance_holds ::
  "crypto \<Rightarrow> interp \<Rightarrow> pystr + pybytes \<Rightarrow> verified_foreign_dependency \<Rightarrow> json \<Rightarrow> (pystr, json) dict \<Rightarrow> json
    \<Rightarrow> moment_arg + json \<Rightarrow> bool" where
  "clearance_holds K I request_key dep evidence native policy terminal \<longleftrightarrow>
     (\<exists>d h checked stored foreign_from ss age grant.
        evidence = JObj d \<and> keys_exact d (map lit evidence_fields)
        \<and> digests d [''foreign_dispatch_hash'', ''policy_hash'']
        \<and> get d (lit ''foreign_dispatch_hash'') = JStr (dispatch_hash dep)
        \<and> hash_object I policy = Inr h \<and> get d (lit ''policy_hash'') = JStr h
        \<and> aware_moment (get d (lit ''checked_at'')) = Inr checked \<and> evidence_time terminal = Inr stored
        \<and> gate_open dep native checked stored foreign_from
        \<and> chain_clear K I dep checked (get d (lit ''statuses'')) ss
        \<and> duration_ms (effective_max_age_ms dep) = Inr age \<and> list_all (\<lambda>s. stored - checked_at s \<le> age) ss
        \<and> fence_granted K I request_key dep native (get d (lit ''fence_request'')) (get d (lit ''fence_grant'')) grant
        \<and> grant_precedes dep grant checked foreign_from ss)"

lemma verify_clearance_iff:
  "verify_clearance K I dep evidence native policy terminal request_key = Inr v \<longleftrightarrow>
     clearance_holds K I request_key dep evidence native policy terminal
     \<and> v = \<lparr>cleared_form = foreign_evidence_form, cleared_hash = dispatch_hash dep, cleared_dispatch = raw_dispatch dep\<rparr>"
  (is "?l \<longleftrightarrow> ?r")
proof
  show "?l \<Longrightarrow> ?r"
    unfolding verify_clearance_def clearance_holds_def
    by (auto simp: raise_simps gate_times_iff verify_statuses_iff verify_fence_iff fence_order_iff not_less list_all_iff) blast
next
  assume ?r
  then obtain d h checked stored foreign_from ss age grant where c:
      "evidence = JObj d" "keys_exact d (map lit evidence_fields)" "digests d [''foreign_dispatch_hash'', ''policy_hash'']"
      "get d (lit ''foreign_dispatch_hash'') = JStr (dispatch_hash dep)" "hash_object I policy = Inr h"
      "get d (lit ''policy_hash'') = JStr h" "duration_ms (effective_max_age_ms dep) = Inr age"
      "list_all (\<lambda>s. stored - checked_at s \<le> age) ss"
      and g: "gate_times dep native (get d (lit ''checked_at'')) terminal = Inr (checked, stored, foreign_from)"
      "verify_statuses K I (get d (lit ''statuses'')) dep checked = Inr ss"
      "verify_fence K I request_key dep native (get d (lit ''fence_request'')) (get d (lit ''fence_grant'')) = Inr grant"
      "fence_order dep grant checked foreign_from ss = Inr ()"
      and v: "v = \<lparr>cleared_form = foreign_evidence_form, cleared_hash = dispatch_hash dep, cleared_dispatch = raw_dispatch dep\<rparr>"
    unfolding clearance_holds_def gate_times_iff verify_statuses_iff verify_fence_iff fence_order_iff by blast
  show ?l by (simp add: verify_clearance_def c g v not_less)
qed

text \<open>
  C7: a clearance is returned exactly for a dispatch with a verified foreign dependency whose evidence
  shows, for every identifier of A's chain, an attested, unrevoked and fresh status of one epoch read
  after a fence granted for this operation, with both dispatches in force at the gate and the record.
\<close>

theorem foreign_clearance_iff:
  "verify_foreign_revocation_evidence K I nfkc evidence native policy terminal request_key = Inr (Some v) \<longleftrightarrow>
   (\<exists>dep. verify_foreign_dependency K I nfkc native policy = Inr (Some dep)
      \<and> clearance_holds K I request_key dep evidence native policy terminal
      \<and> v = \<lparr>cleared_form = foreign_evidence_form, cleared_hash = dispatch_hash dep, cleared_dispatch = raw_dispatch dep\<rparr>)"
  unfolding verify_foreign_revocation_evidence_def bnd_option
  by (auto simp: raise_simps verify_clearance_iff)

section \<open>The projected policy\<close>

definition jtis_clean :: "(pystr, json) dict \<Rightarrow> bool" where
  "jtis_clean p \<longleftrightarrow> list_all canonical_text (point_jtis p)"

lemma ingress_url_text: "validate_counterparty_ingress_url nfkc v = Inr s \<Longrightarrow> v = JStr s \<and> canonical_text v"
  by (auto simp: validate_counterparty_ingress_url_def raise_simps canonical_text_def urlsplit_def cleaned_url_def
      url_scheme_def hostinfo_def before_def after_last_def Let_def split: if_splits)

lemma source_point_readable:
  assumes "source_point_policy K I nfkc roots i v = Inr p" "\<And>bs. hex64 (sha256 I bs)"
  shows "policy_point nfkc i (JObj p) = Inr q \<longleftrightarrow> q = p \<and> jtis_clean p"
proof -
  obtain src url status_roots bound jtis consent where
    f: "hex_text 16 (JStr i)" "point_identity_ok src"
      "validate_counterparty_ingress_url nfkc (get src (lit ''revocation_status_url'')) = Inr url"
      "root_map (get src (lit ''revocation_trust_roots'')) = Inr status_roots"
      "positive (get src (lit ''max_revocation_age_ms'')) = Inr bound"
      "consent_jtis K I roots src = Inr jtis"
      "counterparty_consent_hash I (get src (lit ''consent_delegation_token''))
         (get src (lit ''consent_parent_delegation_tokens'')) = Inr consent"
    and p: "p = map (\<lambda>k. (lit k, get src (lit k)))
             [''domain_id'', ''ledger_id'', ''resource_id'', ''resource_binding_hash'', ''profile'', ''public_key'']
           @ [(lit ''revocation_status_url'', JStr url), (lit ''revocation_trust_roots'', JObj status_roots),
              (lit ''max_revocation_age_ms'', JInt bound), (lit ''consent_hash'', JStr consent),
              (lit ''consent_delegation_jtis'', strs jtis)]"
    using assms(1) unfolding source_point_policy_def ensure_Inr_iff bnd_Inr_iff by blast
  have jtis: "jtis \<noteq> []" "distinct jtis"
    using f(6) by (auto simp: consent_jtis_def raise_simps Let_def)
  have "hex_text 64 (JStr consent)"
    using f(7) assms(2) by (auto simp: counterparty_consent_hash_def raise_simps hash_object_Inr hex_text_def hex64_def)
  moreover have "root_map (JObj status_roots) = Inr status_roots" "positive (JInt bound) = Inr bound"
    using f(4,5) by (auto simp: root_map_def positive_def raise_simps)
  moreover have "validate_counterparty_ingress_url nfkc (JStr url) = Inr url" "canonical_text (JStr url)"
    using f(3) ingress_url_text [OF f(3)] by auto
  moreover have "keys_exact p (map lit point_policy_fields)"
    by (simp add: p keys_exact_def keys_within_def has_keys_def point_policy_fields_def)
  moreover have "point_identity_ok p"
    using f(2) by (simp add: p point_identity_ok_def texts_def digests_def)
  moreover have "policy_jtis_ok (strs jtis) \<longleftrightarrow> jtis_clean p"
    using jtis by (simp add: p jtis_clean_def point_jtis_def policy_jtis_ok_def strs_def distinct_map inj_on_def)
  ultimately show ?thesis
    using f(1) by (auto simp: policy_point_def raise_simps p texts_def digests_def)
qed

lemma collect_reread:
  assumes "collect_points read ps leaves = Inr points"
    and "\<And>i v p q. read i v = Inr p \<Longrightarrow> reread i (JObj p) = Inr q \<longleftrightarrow> q = p \<and> ok p"
  shows "collect_points reread (map (\<lambda>(k, p). (k, JObj p)) points) leaves = Inr points' \<longleftrightarrow>
      points' = points \<and> list_all (\<lambda>(i, p). ok p) points"
  using assms(1)
proof (induction ps arbitrary: leaves points points')
  case (Cons iv ps)
  obtain i v where iv: "iv = (i, v)" by (cases iv)
  from Cons.prems obtain p rest where r: "read i v = Inr p" "hd (point_jtis p) \<notin> set leaves"
      "collect_points read ps (hd (point_jtis p) # leaves) = Inr rest" "points = (i, p) # rest"
    by (auto simp: iv raise_simps)
  show ?case
    using Cons.IH [OF r(3)] assms(2) [OF r(1)] r(2) by (auto simp: r(4) raise_simps)
qed auto

lemma collect_keys: "collect_points read ps leaves = Inr points \<Longrightarrow> map fst points = map fst ps"
  by (induction ps arbitrary: leaves points) (auto simp: raise_simps)

subsection \<open>A consent grant with any identifier\<close>

definition consent_claim_set :: "pystr \<Rightarrow> (pystr, json) dict" where
  "consent_claim_set ident =
     [(lit ''exp'', JStr (isoformat 100)), (lit ''jti'', JStr ident), (lit ''nbf'', JStr (isoformat 0)),
      (lit ''scope_actions'', strs [lit ''read'']), (lit ''scope_domains'', strs [lit ''d'']),
      (lit ''scope_paths'', strs [lit ''/a'']), (lit ''sub'', JStr (lit ''agent'')),
      (lit ''trust_root_id'', JStr (lit ''k''))]"

definition consent_payload :: "pystr \<Rightarrow> pystr" where
  "consent_payload ident = b64url_encode (map of_nat (dumps (float_repr demo_interp) (JObj (consent_claim_set ident))))"

definition consent_token :: "pystr \<Rightarrow> pystr" where
  "consent_token ident = consent_payload ident @ 46 # lit ''ed25519:''"

lemma consent_text: "scalar_text (lit ''exp'')" "scalar_text (lit ''jti'')" "scalar_text (lit ''nbf'')"
  "scalar_text (lit ''scope_actions'')" "scalar_text (lit ''scope_domains'')" "scalar_text (lit ''scope_paths'')"
  "scalar_text (lit ''sub'')" "scalar_text (lit ''trust_root_id'')" "scalar_text (lit ''read'')" "scalar_text (lit ''d'')"
  "scalar_text (lit ''/a'')" "scalar_text (lit ''agent'')" "scalar_text (lit ''k'')"
  by (rule ascii_scalar_text, simp add: is_ascii_lit)+

lemma consent_facts:
  assumes "is_ascii ident"
  shows "json_ok (JObj (consent_claim_set ident))" "printable (JObj (consent_claim_set ident))"
    "json_depth (JObj (consent_claim_set ident)) \<le> max_json_nesting" "float_codec demo_interp (JObj (consent_claim_set ident))"
    "norm_json (JObj (consent_claim_set ident)) = JObj (consent_claim_set ident)"
proof -
  note ts = ascii_scalar_text [OF assms] consent_text scalar_isoformat
  show "json_ok (JObj (consent_claim_set ident))" "printable (JObj (consent_claim_set ident))"
    using ts by (simp_all add: consent_claim_set_def strs_def dict_ok_def)
  show "json_depth (JObj (consent_claim_set ident)) \<le> max_json_nesting" "float_codec demo_interp (JObj (consent_claim_set ident))"
    by (simp_all add: consent_claim_set_def strs_def max_json_nesting_def float_codec_def)
  have "sorted (map fst (consent_claim_set ident))"
    unfolding consent_claim_set_def list.map fst_conv by code_simp
  then show "norm_json (JObj (consent_claim_set ident)) = JObj (consent_claim_set ident)"
    unfolding norm_obj_eq by (simp add: sort_key_id_if_sorted) (simp add: consent_claim_set_def strs_def)
qed

lemma consent_object:
  assumes "is_ascii ident"
  shows "slip_object demo_interp (consent_payload ident) = Some (consent_claim_set ident)"
  unfolding consent_payload_def by (rule slip_object_encode [OF consent_facts [OF assms]])

lemma consent_fields:
  "keys_within (consent_claim_set j) delegation_claim_keys" "validate_lineage (consent_claim_set j) = Inr (None, None)"
  "required_str (consent_claim_set j) (lit ''jti'') = ensure (j \<noteq> []) ValueError (Inr j)" "required_str (consent_claim_set j) (lit ''sub'') = Inr (lit ''agent'')"
  "required_str_list (consent_claim_set j) (lit ''scope_actions'') = Inr [lit ''read'']"
  "required_str_list (consent_claim_set j) (lit ''scope_paths'') = Inr [lit ''/a'']"
  "optional_str_list (consent_claim_set j) (lit ''scope_tools'') = Inr []"
  "required_nonempty_str_list (consent_claim_set j) (lit ''scope_domains'') = Inr [lit ''d'']"
  "claim_dt (consent_claim_set j) (lit ''nbf'') = Inr 0" "claim_dt (consent_claim_set j) (lit ''exp'') = Inr 100"
  "optional_chain_string (consent_claim_set j) (lit ''iss'') (Some []) = Inr (Some [])"
  "optional_chain_string (consent_claim_set j) (lit ''parent_jti'') None = Inr None"
  "optional_chain_depth (consent_claim_set j) (lit ''chain_depth'') 0 = Inr 0"
  "optional_chain_depth (consent_claim_set j) (lit ''max_depth'') 1 = Inr 1"
  "validate_named_set_ref (get (consent_claim_set j) (lit ''named_set_ref'')) = Inr None"
  "validate_approval_quorum (get (consent_claim_set j) (lit ''approval_quorum'')) = Inr None"
  "validate_audience (get (consent_claim_set j) (lit ''aud'')) = Inr None"
  "validate_max_revocation_age (get (consent_claim_set j) (lit ''max_revocation_age_ms'')) = Inr None"
  "validate_bounds scope (get (consent_claim_set j) (lit ''bounds'')) = Inr []"
  "parse_capabilities (consent_claim_set j) scope b e = Inr []"
proof -
  have s: "strip (lit ''d'') = lit ''d''" by (simp add: strip_eval)
  show "keys_within (consent_claim_set j) delegation_claim_keys" "validate_lineage (consent_claim_set j) = Inr (None, None)"
  "required_str (consent_claim_set j) (lit ''jti'') = ensure (j \<noteq> []) ValueError (Inr j)" "required_str (consent_claim_set j) (lit ''sub'') = Inr (lit ''agent'')"
  "required_str_list (consent_claim_set j) (lit ''scope_actions'') = Inr [lit ''read'']"
  "required_str_list (consent_claim_set j) (lit ''scope_paths'') = Inr [lit ''/a'']"
  "optional_str_list (consent_claim_set j) (lit ''scope_tools'') = Inr []"
  "required_nonempty_str_list (consent_claim_set j) (lit ''scope_domains'') = Inr [lit ''d'']"
  "claim_dt (consent_claim_set j) (lit ''nbf'') = Inr 0" "claim_dt (consent_claim_set j) (lit ''exp'') = Inr 100"
  "optional_chain_string (consent_claim_set j) (lit ''iss'') (Some []) = Inr (Some [])"
  "optional_chain_string (consent_claim_set j) (lit ''parent_jti'') None = Inr None"
  "optional_chain_depth (consent_claim_set j) (lit ''chain_depth'') 0 = Inr 0"
  "optional_chain_depth (consent_claim_set j) (lit ''max_depth'') 1 = Inr 1"
  "validate_named_set_ref (get (consent_claim_set j) (lit ''named_set_ref'')) = Inr None"
  "validate_approval_quorum (get (consent_claim_set j) (lit ''approval_quorum'')) = Inr None"
  "validate_audience (get (consent_claim_set j) (lit ''aud'')) = Inr None"
  "validate_max_revocation_age (get (consent_claim_set j) (lit ''max_revocation_age_ms'')) = Inr None"
  "validate_bounds scope (get (consent_claim_set j) (lit ''bounds'')) = Inr []"
  "parse_capabilities (consent_claim_set j) scope b e = Inr []"
    by (simp_all add: consent_claim_set_def keys_within_def delegation_claim_keys_def validate_lineage_def
      k_entry_hash_def k_ratification_hash_def required_str_def required_str_list_def optional_str_list_def
      required_nonempty_str_list_def nonempty_strip_list_def strs_def [of "[lit ''d'']"] s
      claim_dt_isoformat max_instant_def day_us_def optional_chain_string_def optional_chain_depth_def int_from_def
      validate_named_set_ref_def validate_approval_quorum_def validate_audience_def
      validate_max_revocation_age_def parse_capabilities_def validate_bounds_def)
qed

lemma consent_parse:
  assumes "j \<noteq> []"
  shows "\<exists>c. parse_delegation_claims False (consent_claim_set j) = Inr c \<and> jti c = j \<and> parent_jti c = None \<and> chain_depth c = 0"
  using assms
  by (simp add: parse_delegation_claims_def consent_fields Let_def require_action_types_def
      require_lineage_for_aggregate_bounds_def privilege_tiers_def)

lemma consent_delegation:
  assumes "is_ascii j" "j \<noteq> []"
  shows "\<exists>c. parse_delegation demo_crypto demo_interp demo_slip_roots (consent_token j) = Inr (Some c) \<and> jti c = j \<and> parent_jti c = None \<and> chain_depth c = 0"
proof -
  have t: "split_token (consent_token j) = Some (consent_payload j, lit ''ed25519:'')"
    unfolding consent_token_def by (rule split_token_join) (simp_all add: consent_payload_def b64url_no_dot, simp add: lit_def)
  obtain bs where bs: "b64url_decode (consent_payload j) = Some bs" "canonical_json_bytes demo_interp (JObj (consent_claim_set j)) = Inr bs"
    using slip_object_bytes [OF consent_object [OF assms(1)]] by blast
  have msg: "\<exists>m. signed_bytes slip_context_delegation (consent_payload j) = Some m"
    using b64url_ascii by (simp add: consent_payload_def signed_bytes_def utf8_encode_def ascii_scalar_text slip_context_delegation_def is_ascii_lit)
  have "ed25519_signed demo_crypto slip_context_delegation (consent_payload j) (lit ''ed25519:'') [0]"
    using msg by (auto simp: ed25519_signed_def ed25519_prefix_def demo_crypto_def b64decode_def is_ascii_def starts_with_iff)
  moreover have "get (consent_claim_set j) k_trust_root = JStr (lit ''k'')" by (simp add: consent_claim_set_def k_trust_root_def)
  moreover have "root_record demo_slip_roots (lit ''k'') = Some [(lit ''scheme'', JStr (lit ''ed25519'')), (lit ''public_key'', JStr (lit ''00''))]"
    "from_hex (lit ''00'') = Some [0]"
    by (simp_all add: root_record_def demo_slip_roots_def) (simp add: lit_def hex_space_def hex_value_def)
  ultimately have "signed_by demo_crypto demo_interp demo_slip_roots slip_context_delegation [lit ''ed25519''] (consent_token j) (consent_claim_set j)"
    unfolding signed_by_def using t consent_object [OF assms(1)] bs by fastforce
  then have "verify_slip demo_crypto demo_interp demo_slip_roots slip_context_delegation [lit ''ed25519''] (consent_token j) = Some (consent_claim_set j)"
    by (simp add: verify_slip_signed)
  then show ?thesis using consent_parse [OF assms(2)] by (auto simp: parse_delegation_def caught_def)
qed

lemma b64_char_space: "\<not> py_space (b64_char v)"
  by (auto simp: b64_char_def py_space_def)

lemma url_no_space: "\<not> py_space 45" "\<not> py_space 95" "\<not> py_space 61"
  by (simp_all add: py_space_def)

lemma b64_units_space: "list_all (\<lambda>c. \<not> py_space c) (b64_units us)"
  by (induction us rule: b64_units.induct) (simp_all add: b64_char_space url_no_space)

lemma b64url_space: "list_all (\<lambda>c. \<not> py_space c) (b64url_encode bs)"
proof -
  have "\<not> py_space c" if "c \<in> set (b64url_encode bs)" for c
  proof -
    have "c \<in> set (map (\<lambda>c. if c = 43 then 45 else if c = 47 then 95 else c) (b64encode bs))"
      using that unfolding b64url_encode_def set_rev by (drule_tac set_dropWhileD) simp
    then show ?thesis
      using b64_units_space [of "map unat bs"] by (auto simp: b64encode_def list_all_iff url_no_space split: if_splits)
  qed
  then show ?thesis by (simp add: list_all_iff)
qed

lemma strip_unspaced: "list_all (\<lambda>c. \<not> py_space c) s \<Longrightarrow> strip s = s"
proof -
  have drop: "list_all (\<lambda>c. \<not> py_space c) xs \<Longrightarrow> dropWhile py_space xs = xs" for xs
    by (cases xs) simp_all
  show "list_all (\<lambda>c. \<not> py_space c) s \<Longrightarrow> strip s = s"
    by (simp add: strip_def strip_by_def drop)
qed

lemma consent_canonical: "canonical_text (JStr (consent_token j))"
proof -
  have sig: "list_all (\<lambda>c. \<not> py_space c) (46 # lit ''ed25519:'')" by (simp add: lit_def py_space_def)
  have "list_all (\<lambda>c. \<not> py_space c) (consent_token j)"
    using b64url_space sig by (simp add: consent_token_def consent_payload_def)
  then show ?thesis by (simp add: canonical_text_def strip_unspaced) (simp add: consent_token_def)
qed

lemma consent_hashed:
  "counterparty_consent_hash demo_interp (JStr (consent_token j)) (JList []) = Inr (replicate 64 48)"
proof -
  have "is_ascii (consent_token j)"
    by (simp add: consent_token_def consent_payload_def b64url_ascii is_ascii_lit)
  then have "printable (JObj [(lit ''delegation_token'', JStr (consent_token j)), (lit ''parent_delegation_tokens'', JList [])])"
    by (simp add: ascii_scalar_text)
  then show ?thesis
    by (simp add: counterparty_consent_hash_def iterated_def consent_canonical hash_object_def canonical_json_bytes_def)
      (simp add: demo_interp_def)
qed

definition consent_point :: "pystr \<Rightarrow> json" where
  "consent_point j = JObj
     [(lit ''domain_id'', JStr (lit ''b'')), (lit ''ledger_id'', JStr (lit ''l'')), (lit ''resource_id'', JStr (lit ''x'')),
      (lit ''resource_binding_hash'', JStr (replicate 64 48)), (lit ''profile'', JStr (lit customer_delete_profile)),
      (lit ''public_key'', JStr (replicate 64 48)), (lit ''revocation_status_url'', JStr (lit ''https://b.example/in'')),
      (lit ''revocation_trust_roots'', JObj [(lit ''k'', JStr (replicate 64 48))]), (lit ''max_revocation_age_ms'', JInt 1000),
      (lit ''consent_delegation_token'', JStr (consent_token j)), (lit ''consent_parent_delegation_tokens'', JList [])]"

definition consent_points :: "pystr \<Rightarrow> json" where
  "consent_points j = JObj [(replicate 16 48, consent_point j)]"

lemma consent_projected:
  assumes "is_ascii j" "j \<noteq> []"
  shows "\<exists>p. project_foreign_revocation_policy demo_crypto demo_interp id demo_slip_roots (consent_points j)
      = Inr (policy_json [(replicate 16 48, p)]) \<and> point_jtis p = [JStr j]"
proof -
  obtain c where c: "parse_delegation demo_crypto demo_interp demo_slip_roots (consent_token j) = Inr (Some c)" "jti c = j"
      "parent_jti c = None" "chain_depth c = 0"
    using consent_delegation [OF assms] by blast
  obtain d where d: "consent_point j = JObj d" by (simp add: consent_point_def)
  have j: "consent_jtis demo_crypto demo_interp demo_slip_roots d = Inr [j]"
    using c d by (auto simp: consent_point_def consent_jtis_def consent_claims_def consent_canonical)
  have u: "validate_counterparty_ingress_url id (JStr (lit ''https://b.example/in'')) = Inr (lit ''https://b.example/in'')"
    by (simp add: url_eval)
  have k: "canonical_text (JStr (lit [c]))" if "\<not> py_space (of_char c)" for c
    using that by (simp add: canonical_text_def strip_unspaced lit_def)
  have z: "hex_text n (JStr (replicate n 48))" for n
    by (simp add: hex_text_def list_all_iff is_lower_hex_def is_dec_digit_def)
  have r: "root_map (JObj [(lit ''k'', JStr (replicate 64 48))]) = Inr [(lit ''k'', JStr (replicate 64 48))]"
    by (simp add: root_map_def root_key_ok_def z k py_space_def)
  have "point_identity_ok d"
    using d by (auto simp: consent_point_def point_identity_ok_def texts_def digests_def z k py_space_def)
  moreover have "keys_exact d (map lit point_source_fields)"
    using d by (auto simp: consent_point_def keys_exact_iff point_source_fields_def)
  ultimately obtain p where "source_point_policy demo_crypto demo_interp id demo_slip_roots (replicate 16 48) (consent_point j) = Inr p"
      "point_jtis p = [JStr j]"
    using d j u r by (auto simp: consent_point_def source_point_policy_def z positive_def consent_hashed point_jtis_def strs_def)
  then show ?thesis
    by (auto simp: project_foreign_revocation_policy_def consent_points_def demo_slip_roots_def raise_simps)
qed

subsection \<open>Reading a policy back\<close>

text \<open>
  C9: a projected policy is read back to exactly the projected points, in order, if and only if
  every consent identifier is a text without surrounding white space; the projection itself does not
  test that.
\<close>

theorem projected_policy_read:
  assumes "project_foreign_revocation_policy K I nfkc roots trusted = Inr policy" "\<And>bs. hex64 (sha256 I bs)"
  shows "\<exists>points. policy = policy_json points
     \<and> (foreign_revocation_policy_points nfkc policy = Inr points \<longleftrightarrow> list_all (\<lambda>(i, p). jtis_clean p) points)
     \<and> (\<exists>ps. trusted = JObj ps \<and> map fst points = sort (map fst ps))"
proof -
  obtain ps points where p: "trusted = JObj ps" "policy = policy_json points"
      "collect_points (source_point_policy K I nfkc roots) (sort_key fst ps) [] = Inr points"
    using assms(1) by (auto simp: project_foreign_revocation_policy_def raise_simps)
  have keys: "map fst points = sort (map fst ps)"
    using collect_keys [OF p(3)] by (simp add: sort_key_map [of "\<lambda>x. x" fst fst])
  let ?js = "map (\<lambda>(k, p). (k, JObj p)) points"
  have "map fst ?js = map fst points" by (simp add: case_prod_unfold)
  then have "sorted (map fst ?js)" using keys by (simp only: sorted_sort)
  then have "sort_key fst ?js = ?js" by (rule sort_key_id_if_sorted)
  moreover have "keys_exact [(lit ''profile'', a), (lit ''points'', b)] [lit ''profile'', lit ''points'']" for a b :: json
    by (simp add: keys_exact_def keys_within_def has_keys_def)
  ultimately have "foreign_revocation_policy_points nfkc policy = collect_points (policy_point nfkc) ?js []"
    by (simp add: foreign_revocation_policy_points_def p(2) policy_json_def points_json_def)
  moreover have "collect_points (policy_point nfkc) ?js [] = Inr points \<longleftrightarrow> points = points \<and> list_all (\<lambda>(i, p). jtis_clean p) points"
    by (rule collect_reread [OF p(3)]) (rule source_point_readable [OF _ assms(2)])
  ultimately show ?thesis using keys p(1,2) by auto
qed

lemma policy_json_eq: "policy_json ps = policy_json qs \<Longrightarrow> ps = qs"
proof -
  have "map (\<lambda>(k, p). (k, JObj p)) ps = map (\<lambda>(k, p). (k, JObj p)) qs \<Longrightarrow> ps = qs" for ps qs :: policy_points
    by (rule list.inj_map_strong) (auto split: prod.splits)
  then show "policy_json ps = policy_json qs \<Longrightarrow> ps = qs"
    by (simp add: policy_json_def points_json_def)
qed

text \<open>
  A clean consent identifier reads back, one with a leading blank projects all the same and is
  refused by the reader.
\<close>

theorem projected_policy_read_witness:
  "(\<exists>p. project_foreign_revocation_policy demo_crypto demo_interp id demo_slip_roots (consent_points (lit ''r''))
        = Inr (policy_json [(replicate 16 48, p)])
      \<and> foreign_revocation_policy_points id (policy_json [(replicate 16 48, p)]) = Inr [(replicate 16 48, p)])
   \<and> (\<exists>p. project_foreign_revocation_policy demo_crypto demo_interp id demo_slip_roots (consent_points (lit '' r''))
        = Inr (policy_json [(replicate 16 48, p)])
      \<and> foreign_revocation_policy_points id (policy_json [(replicate 16 48, p)]) \<noteq> Inr [(replicate 16 48, p)])"
proof -
  have hex: "hex64 (sha256 demo_interp bs)" for bs
    by (simp add: demo_interp_def hex64_def list_all_iff is_lower_hex_def is_dec_digit_def)
  have read: "\<exists>p. project_foreign_revocation_policy demo_crypto demo_interp id demo_slip_roots (consent_points j)
        = Inr (policy_json [(replicate 16 48, p)])
      \<and> (foreign_revocation_policy_points id (policy_json [(replicate 16 48, p)]) = Inr [(replicate 16 48, p)]
         \<longleftrightarrow> canonical_text (JStr j))" if j: "is_ascii j" "j \<noteq> []" for j
  proof -
    obtain p where p: "project_foreign_revocation_policy demo_crypto demo_interp id demo_slip_roots (consent_points j)
        = Inr (policy_json [(replicate 16 48, p)])" "point_jtis p = [JStr j]"
      using consent_projected [OF j] by blast
    then show ?thesis
      using projected_policy_read [OF p(1) hex] by (auto dest!: policy_json_eq simp: jtis_clean_def)
  qed
  have "canonical_text (JStr (lit ''r''))" "\<not> canonical_text (JStr (lit '' r''))"
    by (simp_all add: canonical_text_def strip_eval)
  then show ?thesis using read [of "lit ''r''"] read [of "lit '' r''"] by (simp add: is_ascii_lit)
qed

section \<open>The dependency\<close>

text \<open>A's dispatch as B's point admits it for B's own dispatch.\<close>

definition foreign_joined ::
  "crypto \<Rightarrow> interp \<Rightarrow> pystr \<Rightarrow> pystr \<Rightarrow> (pystr, json) dict \<Rightarrow> (pystr, json) dict \<Rightarrow> (pystr, json) dict \<Rightarrow> bool" where
  "foreign_joined K I raw ident point native d \<longleftrightarrow>
     verify_dispatch K I (key_of (get point (lit ''public_key''))) (JStr raw) = Inr d
     \<and> get d (lit ''foreign_dependency'') = JNull
     \<and> get d (lit ''enforcement_point_id'') = JStr ident
     \<and> same_fields d point [''domain_id'', ''ledger_id'', ''resource_id'', ''resource_binding_hash'']
     \<and> get d (lit ''profile'') = JStr (lit customer_delete_profile)
     \<and> get d (lit ''counterparty_consent_hash'') = get point (lit ''consent_hash'')
     \<and> get native (lit ''profile'') = JStr (lit customer_delete_profile)
     \<and> same_fields d native shared_fields
     \<and> (\<exists>from until native_from native_until. dispatch_times d = Inr (from, until)
          \<and> dispatch_times native = Inr (native_from, native_until) \<and> from \<le> native_from \<and> native_from \<le> until)"

lemma verify_foreign_claims_iff:
  "verify_foreign_claims K I raw ident point native = Inr d \<longleftrightarrow> foreign_joined K I raw ident point native d"
  by (auto simp: verify_foreign_claims_def foreign_joined_def raise_simps)

definition dependency_selected ::
  "crypto \<Rightarrow> interp \<Rightarrow> json \<Rightarrow> policy_points \<Rightarrow> (pystr, json) dict \<Rightarrow> json list \<Rightarrow> pystr \<Rightarrow> pystr
    \<Rightarrow> verified_foreign_dependency \<Rightarrow> bool" where
  "dependency_selected K I policy points native native_jtis raw policy_hash dep \<longleftrightarrow>
     (\<exists>ident point d foreign_bound native_bound jtis epoch raw_bytes bound.
        filter (\<lambda>(i, p). point_jtis p = native_jtis) points = [(ident, point)]
        \<and> hash_object I policy = Inr policy_hash \<and> foreign_joined K I raw ident point native d
        \<and> dispatch_revocation_identity d = Inr (Some (jtis, epoch))
        \<and> dispatch_max_revocation_age_ms d = Inr foreign_bound
        \<and> dispatch_max_revocation_age_ms native = Inr native_bound
        \<and> utf8_encode raw = Some raw_bytes \<and> get point (lit ''max_revocation_age_ms'') = JInt bound
        \<and> dep = \<lparr>raw_dispatch = raw, dispatch_hash = sha256 I raw_bytes, foreign_claims = d, point_id = ident,
            point_policy = point, foreign_jtis = jtis, foreign_epoch = epoch,
            effective_max_age_ms = stricter (stricter bound foreign_bound) native_bound\<rparr>)"

lemma select_dependency_iff:
  "select_dependency K I policy points native native_jtis (raw, v) = Inr dep \<longleftrightarrow>
     (\<exists>h. v = JStr h \<and> dependency_selected K I policy points native native_jtis raw h dep)"
proof -
  have one: "(case ys of [ip] \<Rightarrow> Inr ip | _ \<Rightarrow> Inl ValueError) = Inr ip \<longleftrightarrow> ys = [ip]" for ys and ip :: "pystr \<times> (pystr, json) dict"
    by (auto split: list.splits)
  show ?thesis
    unfolding select_dependency_def dependency_selected_def prod.case bnd_Inr_iff one ensure_Inr_iff expect_Inr_iff
      verify_foreign_claims_iff as_Some_iff sha256_hex_def split_paired_Ex
    by (auto; blast)
qed

text \<open>
  C8: a foreign dependency is returned exactly if the policy is valid, the dispatch names the hash of
  it, its identifiers are the whole consent vector of exactly one point, and the raw dispatch verifies
  under that point's key, for the same customer, payload and action, covering the authorisation; the
  age bound is the strictest of the three.
\<close>

theorem foreign_dependency_iff:
  "verify_foreign_dependency K I nfkc native policy = Inr (Some dep) \<longleftrightarrow>
   (\<exists>points raw h jtis epoch. foreign_revocation_policy_points nfkc policy = Inr points
      \<and> foreign_dependency native = Inr (Some (raw, JStr h))
      \<and> dispatch_revocation_identity native = Inr (Some (jtis, epoch))
      \<and> dependency_selected K I policy points native jtis raw h dep)"
  (is "?l \<longleftrightarrow> ?r")
proof
  assume ?l
  then obtain points dependency identity where f: "foreign_revocation_policy_points nfkc policy = Inr points"
      "foreign_dependency native = Inr dependency" "dispatch_revocation_identity native = Inr identity"
      and r: "(case identity of None \<Rightarrow> ensure (dependency = None) ValueError (Inr None)
        | Some (native_jtis, _) \<Rightarrow> (case dependency of
             None \<Rightarrow> ensure (\<not> list_ex (\<lambda>(i, p). hd (point_jtis p) \<in> set native_jtis) points) ValueError (Inr None)
           | Some dep \<Rightarrow> bnd (select_dependency K I policy points native native_jtis dep) (\<lambda>v. Inr (Some v)))) = Inr (Some dep)"
    unfolding verify_foreign_dependency_def bnd_Inr_iff by blast
  from r obtain jtis epoch raw v where s: "identity = Some (jtis, epoch)" "dependency = Some (raw, v)"
      "select_dependency K I policy points native jtis (raw, v) = Inr dep"
    by (auto simp: raise_simps split: option.splits)
  then show ?r using f unfolding select_dependency_iff by blast
next
  assume ?r
  then obtain points raw h jtis epoch where f: "foreign_revocation_policy_points nfkc policy = Inr points"
      "foreign_dependency native = Inr (Some (raw, JStr h))" "dispatch_revocation_identity native = Inr (Some (jtis, epoch))"
      and s: "select_dependency K I policy points native jtis (raw, JStr h) = Inr dep"
    unfolding select_dependency_iff by blast
  show ?l by (simp add: verify_foreign_dependency_def f s)
qed

end
