(* ===== verification/Admission.thy ===== *)
theory Admission
  imports Foreign_Facts Ratification_Bundle
begin

text \<open>
  The first part of the module \<open>admission.py\<close>: the shape and the verification of a signed authority
  admission, the join of an admitted originating grant to its ratification bundle, and the admitted
  delegation path. An \<open>AuthorityAdmission\<close> handed to a later step is one the verifier returned. Error
  texts are not modelled; the failure codes are.
\<close>

section \<open>Fields\<close>

definition admission_context :: pystr where
  "admission_context = lit ''ambit:authority-admission:v1''"

definition admission_schema_version :: int where
  "admission_schema_version = 5"

definition counterparty_schema_versions :: "int list" where
  "counterparty_schema_versions = [4, 5]"

definition supported_schema_versions :: "int list" where
  "supported_schema_versions = [1, 2, 3, 4, 5]"

definition admission_base_fields :: "string list" where
  "admission_base_fields = [''schema_version'', ''domain_id'', ''principal_id'', ''resource_id'', ''ledger_id'',
     ''enforcement_point_id'', ''version'', ''previous_admission_hash'', ''nbf'', ''exp'', ''credential_trust_roots'',
     ''credential_registration_public_keys'', ''revocation_attestation_public_keys'',
     ''cumulative_attestation_public_keys'', ''origin_grant_hashes'', ''resource_binding'', ''max_revocation_age_ms'',
     ''max_cumulative_age_ms'', ''max_actor_proof_age_seconds'', ''trust_root_id'']"

definition admission_fields :: "string list" where
  "admission_fields = admission_base_fields @ [''trusted_counterparty_points'']"

definition root_fields :: "string list" where
  "root_fields = [''credential_trust_roots'', ''credential_registration_public_keys'',
     ''revocation_attestation_public_keys'', ''cumulative_attestation_public_keys'']"

definition trust_configuration_fields :: "string list" where
  "trust_configuration_fields = root_fields @ [''trusted_counterparty_points'']"

definition positive_integer :: "json \<Rightarrow> bool" where
  "positive_integer v = (case v of JInt n \<Rightarrow> n > 0 | _ \<Rightarrow> False)"

text \<open>\<open>value in {...}\<close> over integers, for a value that can be hashed.\<close>

definition among :: "int list \<Rightarrow> json \<Rightarrow> bool" where
  "among ns v = list_ex (\<lambda>n. py_eq v (JInt n)) ns"

section \<open>Counterparty points\<close>

definition selector_key :: string where
  "selector_key = ''counterparty_context_approval_trust_root_id''"

definition point_roots_ok :: "json \<Rightarrow> bool" where
  "point_roots_ok v =
     (case v of JObj d \<Rightarrow> d \<noteq> [] \<and> list_all (\<lambda>(k, key). k \<noteq> [] \<and> hex_text 64 key) d | _ \<Rightarrow> False)"

definition selector_ok :: "json \<Rightarrow> json \<Rightarrow> bool" where
  "selector_ok credential_roots v =
     (v = JNull
      \<or> canonical_text v \<and> (case (credential_roots, v) of (JObj roots, JStr s) \<Rightarrow> has_key roots s | _ \<Rightarrow> False))"

definition counterparty_point_ok :: "(pystr \<Rightarrow> pystr) \<Rightarrow> json \<Rightarrow> pystr \<Rightarrow> json \<Rightarrow> bool" where
  "counterparty_point_ok nfkc credential_roots ident value =
     (hex_text 16 (JStr ident)
      \<and> (case value of
           JObj p \<Rightarrow>
             (keys_exact p (map lit point_source_fields) \<or> keys_exact p (map lit (point_source_fields @ [selector_key])))
             \<and> texts p [''domain_id'', ''ledger_id'', ''resource_id'', ''consent_delegation_token'']
             \<and> digests p [''resource_binding_hash'', ''public_key'']
             \<and> get p (lit ''profile'') = JStr (lit customer_delete_profile)
             \<and> positive_integer (get p (lit ''max_revocation_age_ms''))
             \<and> point_roots_ok (get p (lit ''revocation_trust_roots''))
             \<and> (\<exists>url. validate_counterparty_ingress_url nfkc (get p (lit ''revocation_status_url'')) = Inr url)
             \<and> (case get p (lit ''consent_parent_delegation_tokens'') of JList vs \<Rightarrow> list_all canonical_text vs | _ \<Rightarrow> False)
             \<and> selector_ok credential_roots (get p (lit selector_key))
         | _ \<Rightarrow> False))"

definition counterparty_points_ok :: "(pystr \<Rightarrow> pystr) \<Rightarrow> json \<Rightarrow> json \<Rightarrow> bool" where
  "counterparty_points_ok nfkc credential_roots points =
     (case points of JObj d \<Rightarrow> list_all (\<lambda>(k, p). counterparty_point_ok nfkc credential_roots k p) d | _ \<Rightarrow> False)"

section \<open>The shape of the claims\<close>

definition credential_root_ok :: "json \<Rightarrow> bool" where
  "credential_root_ok root =
     (case root of
        JObj d \<Rightarrow> get d (lit ''scheme'') \<in> {JStr (lit ''ed25519''), JStr (lit ''p256'')}
          \<and> as_str (get d (lit ''public_key'')) \<noteq> None
          \<and> keys_within d (map lit [''scheme'', ''public_key'', ''registration''])
      | _ \<Rightarrow> False)"

definition root_field_ok :: "(pystr, json) dict \<Rightarrow> string \<Rightarrow> bool" where
  "root_field_ok d name =
     (case get d (lit name) of
        JObj roots \<Rightarrow> roots \<noteq> []
          \<and> list_all (\<lambda>(k, root). k \<noteq> []
               \<and> (if name = ''credential_trust_roots'' then credential_root_ok root else hex_text 64 root)) roots
      | _ \<Rightarrow> False)"

definition origins_ok :: "json \<Rightarrow> bool" where
  "origins_ok v = (case v of JList vs \<Rightarrow> vs \<noteq> [] \<and> list_all (hex_text 64) vs \<and> distinct vs | _ \<Rightarrow> False)"

definition predecessor_ok :: "(pystr, json) dict \<Rightarrow> bool" where
  "predecessor_ok d =
     (if py_eq (get d (lit ''version'')) (JInt 1) then get d (lit ''previous_admission_hash'') = JNull
      else hex_text 64 (get d (lit ''previous_admission_hash'')))"

definition envelope_ok :: "(pystr \<Rightarrow> pystr) \<Rightarrow> int \<Rightarrow> (pystr, json) dict \<Rightarrow> bool" where
  "envelope_ok nfkc version d \<longleftrightarrow>
     keys_exact d (map lit (if version \<in> set counterparty_schema_versions then admission_fields else admission_base_fields))
     \<and> texts d [''domain_id'', ''principal_id'', ''resource_id'', ''ledger_id'', ''trust_root_id'']
     \<and> hex_text 16 (get d (lit ''enforcement_point_id''))
     \<and> list_all (\<lambda>k. positive_integer (get d (lit k)))
         [''version'', ''max_revocation_age_ms'', ''max_cumulative_age_ms'', ''max_actor_proof_age_seconds'']
     \<and> predecessor_ok d \<and> origins_ok (get d (lit ''origin_grant_hashes''))
     \<and> (version \<in> set counterparty_schema_versions \<longrightarrow>
          counterparty_points_ok nfkc (get d (lit ''credential_trust_roots'')) (get d (lit ''trusted_counterparty_points'')))
     \<and> list_all (root_field_ok d) root_fields"

text \<open>The fields of the resource binding by schema version, and what the binding itself contains.\<close>

definition expected_binding_fields :: "int \<Rightarrow> (pystr, json) dict \<Rightarrow> string list" where
  "expected_binding_fields version b =
     [''adapter_id'', ''downstream_url'', ''downstream_path'', ''receipt_public_key'']
     @ (if 2 \<le> version then [''outcome_profile'', ''outcome_public_key''] else [])
     @ (if 3 \<le> version \<and> get b (lit ''outcome_profile'') = JStr (lit git_publication_profile) then [''git_remote'', ''git_ref''] else [])
     @ (if 2 \<le> version then optional_key b ''counterparty_ingress_url'' else [])
     @ (if version = admission_schema_version
        then optional_key b ''foreign_revocation_policy_hash'' @ optional_key b ''counterparty_consent_hash'' else [])"

definition attestation_pair_ok :: "(pystr, json) dict \<Rightarrow> exc + bool" where
  "attestation_pair_ok b =
     (let profile = get b (lit ''outcome_profile''); key = get b (lit ''outcome_public_key'')
      in if profile = JNull \<and> key = JNull then Inr True
         else bnd (one_of [resource_profile, git_publication_profile, customer_delete_profile] profile) (\<lambda>known.
           Inr (known \<and> hex_text 64 key \<and> key \<noteq> get b (lit ''receipt_public_key''))))"

definition succeeds_but :: "exc set \<Rightarrow> exc + 'a \<Rightarrow> exc + bool" where
  "succeeds_but handled r = (case r of Inr _ \<Rightarrow> Inr True | Inl e \<Rightarrow> if e \<in> handled then Inr False else Inl e)"

text \<open>
  The policy of a customer-delete door with counterparty points is named by its hash. A projection
  outside its \<open>try\<close> block escapes with \<open>OverflowError\<close>.
\<close>

definition policy_binding_ok ::
  "crypto \<Rightarrow> interp \<Rightarrow> (pystr \<Rightarrow> pystr) \<Rightarrow> (pystr, json) dict \<Rightarrow> (pystr, json) dict \<Rightarrow> exc + bool" where
  "policy_binding_ok K I nfkc d b =
     (let points = get d (lit ''trusted_counterparty_points'');
          present = has_key b (lit ''foreign_revocation_policy_hash'');
          required = (get b (lit ''outcome_profile'') = JStr (lit customer_delete_profile)
            \<and> (case points of JObj ps \<Rightarrow> ps \<noteq> [] | _ \<Rightarrow> False))
      in if present \<noteq> required then Inr False
         else if \<not> present then Inr True
         else bnd (expect KeyError (map_of d (lit ''credential_trust_roots''))) (\<lambda>roots.
           case bnd (expect ValueError (as_obj roots)) (\<lambda>rs. project_foreign_revocation_policy K I nfkc rs points) of
             Inl e \<Rightarrow> if e \<in> {TypeError, ValueError} then Inr False else Inl e
           | Inr policy \<Rightarrow> bnd (hash_object I policy) (\<lambda>h.
               Inr (get b (lit ''foreign_revocation_policy_hash'') = JStr h))))"

definition outcome_binding_ok ::
  "crypto \<Rightarrow> interp \<Rightarrow> (pystr \<Rightarrow> pystr) \<Rightarrow> int \<Rightarrow> (pystr, json) dict \<Rightarrow> (pystr, json) dict \<Rightarrow> exc + bool" where
  "outcome_binding_ok K I nfkc version d b =
     bnd (attestation_pair_ok b) (\<lambda>pair.
     bnd (succeeds_but {TypeError, ValueError} (resource_binding_hash nfkc I (JObj b))) (\<lambda>hashed.
     bnd (if version = admission_schema_version then policy_binding_ok K I nfkc d b else Inr True) (\<lambda>policy.
     Inr (pair \<and> hashed \<and> policy
       \<and> (if get b (lit ''outcome_profile'') = JStr (lit git_publication_profile) then 3 \<le> version else version \<noteq> 3)))))"

definition resource_binding_ok ::
  "crypto \<Rightarrow> interp \<Rightarrow> (pystr \<Rightarrow> pystr) \<Rightarrow> int \<Rightarrow> (pystr, json) dict \<Rightarrow> exc + bool" where
  "resource_binding_ok K I nfkc version d =
     (case get d (lit ''resource_binding'') of
        JObj b \<Rightarrow>
          if \<not> keys_exact b (map lit (expected_binding_fields version b)) then Inr False
          else let plain = (list_all (\<lambda>k. nonempty_str (get b (lit k))) [''adapter_id'', ''downstream_url'', ''downstream_path'']
                  \<and> (has_key b (lit ''counterparty_ingress_url'') \<longrightarrow>
                      (\<exists>url. validate_counterparty_ingress_url nfkc (get b (lit ''counterparty_ingress_url'')) = Inr url))
                  \<and> hex_text 64 (get b (lit ''receipt_public_key''))
                  \<and> (version = admission_schema_version \<longrightarrow>
                      has_key b (lit ''counterparty_ingress_url'') = has_key b (lit ''counterparty_consent_hash'')))
            in bnd (if 2 \<le> version then outcome_binding_ok K I nfkc version d b else Inr True) (\<lambda>outcome. Inr (plain \<and> outcome))
      | _ \<Rightarrow> Inr False)"

text \<open>
  Whether no error is collected. A schema version that is a list or an object raises \<open>TypeError\<close> in
  the first test against a set; with any other unsupported version an error has been collected, and
  no later test raises.
\<close>

definition shape_ok :: "crypto \<Rightarrow> interp \<Rightarrow> (pystr \<Rightarrow> pystr) \<Rightarrow> (pystr, json) dict \<Rightarrow> exc + bool" where
  "shape_ok K I nfkc d =
     (let v = get d (lit ''schema_version'') in
      if unhashable v then Inl TypeError
      else case v of
        JInt version \<Rightarrow>
          if version \<notin> set supported_schema_versions then Inr False
          else bnd (resource_binding_ok K I nfkc version d) (\<lambda>binding. Inr (envelope_ok nfkc version d \<and> binding))
      | _ \<Rightarrow> Inr False)"

definition validate_authority_admission_claims ::
  "crypto \<Rightarrow> interp \<Rightarrow> (pystr \<Rightarrow> pystr) \<Rightarrow> (pystr, json) dict \<Rightarrow> exc + instant \<times> instant" where
  "validate_authority_admission_claims K I nfkc d =
     bnd (shape_ok K I nfkc d) (\<lambda>ok.
     ensure ok ValueError
     (bnd (aware_moment (get d (lit ''nbf''))) (\<lambda>from.
      bnd (aware_moment (get d (lit ''exp''))) (\<lambda>until.
      ensure (\<not> from > until) ValueError (Inr (from, until))))))"

section \<open>The admission\<close>

record authority_admission =
  ad_claims :: "(pystr, json) dict"
  ad_hash :: pystr
  ad_trust_hash :: pystr
  ad_nbf :: instant
  ad_exp :: instant

definition configuration_fields :: "(pystr, json) dict \<Rightarrow> string list" where
  "configuration_fields d =
     (if among counterparty_schema_versions (get d (lit ''schema_version'')) then trust_configuration_fields else root_fields)"

definition admission_from_claims ::
  "crypto \<Rightarrow> interp \<Rightarrow> (pystr \<Rightarrow> pystr) \<Rightarrow> pystr \<Rightarrow> pystr \<Rightarrow> instant \<Rightarrow> json \<Rightarrow> json \<Rightarrow> pystr \<Rightarrow> (pystr, json) dict
    \<Rightarrow> exc + authority_admission option" where
  "admission_from_claims K I nfkc domain ledger at minimum previous token d =
     bnd (validate_authority_admission_claims K I nfkc d) (\<lambda>(from, until).
     bnd (hash_object I (JObj (map (\<lambda>k. (lit k, get d (lit k))) (configuration_fields d)))) (\<lambda>trust_hash.
     bnd (expect ValueError (utf8_encode token)) (\<lambda>bytes.
     Inr (if from \<le> at \<and> at \<le> until
            \<and> get d (lit ''domain_id'') = JStr domain \<and> get d (lit ''ledger_id'') = JStr ledger
            \<and> \<not> int_of (get d (lit ''version'')) < int_of minimum
            \<and> (previous = JNull \<or> py_eq (get d (lit ''previous_admission_hash'')) previous)
          then Some \<lparr>ad_claims = d, ad_hash = sha256_hex I bytes, ad_trust_hash = trust_hash, ad_nbf = from, ad_exp = until\<rparr>
          else None))))"

definition clean_text :: "pystr \<Rightarrow> bool" where
  "clean_text s \<longleftrightarrow> s \<noteq> [] \<and> strip s = s"

text \<open>
  Every refusal is \<open>None\<close>: what reading the claims raises is caught, and the comparison of moments
  does not raise.
\<close>

definition verify_authority_admission ::
  "crypto \<Rightarrow> interp \<Rightarrow> (pystr \<Rightarrow> pystr) \<Rightarrow> trust_roots \<Rightarrow> pystr \<Rightarrow> pystr \<Rightarrow> moment_arg \<Rightarrow> json \<Rightarrow> json \<Rightarrow> pystr
    \<Rightarrow> authority_admission option" where
  "verify_authority_admission K I nfkc roots domain ledger at minimum previous token =
     (if token = [] \<or> roots = [] \<or> \<not> clean_text domain \<or> \<not> clean_text ledger \<or> \<not> positive_integer minimum then None
      else case at of
        (_, None) \<Rightarrow> None
      | (wall, Some off) \<Rightarrow>
          (case verify_slip K I roots admission_context [lit ''ed25519''] token of
             None \<Rightarrow> None
           | Some d \<Rightarrow>
               (case admission_from_claims K I nfkc domain ledger (wall - off) minimum previous token d of
                  Inr found \<Rightarrow> found
                | Inl e \<Rightarrow> None)))"

section \<open>The originating grant\<close>

datatype origin_code =
    Origin_Artifact_Invalid | Origin_Signer_Mismatch | Delegation_Signature_Invalid
  | Delegation_Window_Not_Covered | Delegation_Chain_Invalid | Git_Ref_Not_Covered | Verification_Input_Invalid

text \<open>An invalid result carries its code; both carry the hash of the originating grant, if it was read.\<close>

datatype origin_verification = Origin_Valid pystr | Origin_Refused "pystr option" origin_code

definition claims_obj :: "authority_admission \<Rightarrow> string \<Rightarrow> (pystr, json) dict" where
  "claims_obj a k = (case get (ad_claims a) (lit k) of JObj d \<Rightarrow> d | _ \<Rightarrow> [])"

definition mapping_source :: "(pystr, pybytes) dict \<Rightarrow> bundle_source" where
  "mapping_source files name = (case map_of files name of None \<Rightarrow> Absent | Some bs \<Rightarrow> Contents bs)"

definition admitted_hashes :: "authority_admission \<Rightarrow> json list" where
  "admitted_hashes a = (case get (ad_claims a) (lit ''origin_grant_hashes'') of JList vs \<Rightarrow> vs | _ \<Rightarrow> [])"

definition verify_admitted_origin ::
  "crypto \<Rightarrow> interp \<Rightarrow> pystr \<Rightarrow> (pystr, pybytes) dict \<Rightarrow> authority_admission \<Rightarrow> exc + origin_verification" where
  "verify_admitted_origin K I token files a =
     (if token = [] then Inr (Origin_Refused None Origin_Artifact_Invalid)
      else bnd (expect ValueError (utf8_encode token)) (\<lambda>bytes.
        let h = sha256_hex I bytes; refused = Inr (Origin_Refused (Some h) Origin_Artifact_Invalid);
            roots = claims_obj a ''credential_trust_roots''
        in if JStr h \<notin> set (admitted_hashes a) then refused
           else bnd (parse_delegation K I roots token) (\<lambda>parsed.
             case parsed of
               None \<Rightarrow> refused
             | Some grant \<Rightarrow>
                 if opt_json strs (aud grant) \<noteq> JList [get (ad_claims a) (lit ''enforcement_point_id'')] then refused
                 else if map_of files (lit ''grant.slip'') \<noteq> Some bytes then refused
                 else bnd (verify_ratification_bundle K I (mapping_source files) roots
                     (claims_obj a ''revocation_attestation_public_keys'')
                     (get (ad_claims a) (lit ''credential_registration_public_keys''))) (\<lambda>result.
                   if bundle_ok result then Inr (Origin_Valid h) else refused))))"

text \<open>Whether two JSON values have one canonical text; a value that has none equals nothing.\<close>

definition same_json :: "interp \<Rightarrow> json \<Rightarrow> json \<Rightarrow> bool" where
  "same_json I v w =
     (case (canonical_json_bytes I v, canonical_json_bytes I w) of (Inr a, Inr b) \<Rightarrow> a = b | _ \<Rightarrow> False)"

definition admission_configuration_matches :: "interp \<Rightarrow> authority_admission \<Rightarrow> (pystr, json) dict \<Rightarrow> bool" where
  "admission_configuration_matches I a configuration =
     (let names = configuration_fields (ad_claims a)
      in keys_exact configuration (map lit names)
         \<and> list_all (\<lambda>k. same_json I (get (ad_claims a) (lit k)) (get configuration (lit k))) names)"

section \<open>The admitted path\<close>

text \<open>
  The code is read off the text of the refusal. The text of a mismatch of identifiers ends with the
  identifier the parent states, so that identifier can choose the code.
\<close>

definition outside_window_text :: pystr where
  "outside_window_text = lit '' is outside its validity window''"

definition chain_failure_code :: "chain_refusal option \<Rightarrow> origin_code" where
  "chain_failure_code reason =
     (case reason of
        Some (chain_refusal.Signature_Invalid i) \<Rightarrow> Delegation_Signature_Invalid
      | Some (Outside_Window i j) \<Rightarrow> Delegation_Window_Not_Covered
      | Some (Scope_Widening i Time) \<Rightarrow> Delegation_Window_Not_Covered
      | Some (Jti_Mismatch i expected stated) \<Rightarrow>
          if ends_with (lit ''got '' @ stated) outside_window_text then Delegation_Window_Not_Covered
          else Delegation_Chain_Invalid
      | _ \<Rightarrow> Delegation_Chain_Invalid)"

definition admitted_git_ref :: "authority_admission \<Rightarrow> pystr option" where
  "admitted_git_ref a =
     (let b = claims_obj a ''resource_binding''
      in if get b (lit ''outcome_profile'') = JStr (lit git_publication_profile) then as_str (get b (lit ''git_ref'')) else None)"

text \<open>The loop over the tokens of the path, the leaf first.\<close>

fun path_signers ::
  "crypto \<Rightarrow> interp \<Rightarrow> trust_roots \<Rightarrow> pystr \<Rightarrow> pystr option \<Rightarrow> origin_verification
    \<Rightarrow> (pystr \<times> delegation_claims option) list \<Rightarrow> exc + origin_verification" where
  "path_signers K I roots signer git_ref origin [] = Inr origin"
| "path_signers K I roots signer git_ref origin ((token, known) # rest) =
     (let h = (case origin of Origin_Valid h \<Rightarrow> Some h | Origin_Refused h c \<Rightarrow> h)
      in case verified_slip_signer_id K I token roots of
        None \<Rightarrow> Inr (Origin_Refused h Delegation_Signature_Invalid)
      | Some s \<Rightarrow>
          if s \<noteq> signer then Inr (Origin_Refused h Origin_Signer_Mismatch)
          else case git_ref of
            None \<Rightarrow> path_signers K I roots signer git_ref origin rest
          | Some ref \<Rightarrow>
              bnd (case known of Some c \<Rightarrow> Inr (Some c) | None \<Rightarrow> parse_delegation K I roots token) (\<lambda>claim.
              case claim of
                None \<Rightarrow> Inr (Origin_Refused h Git_Ref_Not_Covered)
              | Some c \<Rightarrow>
                  bnd (git_ref_is_covered (JStr ref) (scope_paths c)) (\<lambda>covered.
                  if covered then path_signers K I roots signer git_ref origin rest
                  else Inr (Origin_Refused h Git_Ref_Not_Covered))))"

definition verify_admitted_path ::
  "crypto \<Rightarrow> interp \<Rightarrow> pystr \<Rightarrow> pystr list \<Rightarrow> (pystr, pybytes) dict \<Rightarrow> authority_admission \<Rightarrow> moment_arg
    \<Rightarrow> exc + origin_verification" where
  "verify_admitted_path K I token parents files a at =
     (case at of
        (_, None) \<Rightarrow> Inr (Origin_Refused None Verification_Input_Invalid)
      | (wall, Some off) \<Rightarrow>
          if token = [] \<or> [] \<in> set parents then Inr (Origin_Refused None Delegation_Chain_Invalid)
          else case get (ad_claims a) (lit ''credential_trust_roots'') of
            JObj roots \<Rightarrow>
              bnd (parse_delegation K I roots token) (\<lambda>parsed.
              case parsed of
                None \<Rightarrow> Inr (Origin_Refused None Delegation_Signature_Invalid)
              | Some leaf \<Rightarrow>
                  if \<not> (nbf leaf \<le> wall - off \<and> wall - off \<le> exp_at leaf)
                  then Inr (Origin_Refused None Delegation_Window_Not_Covered)
                  else bnd (validate_delegation_chain (chain_at K I roots (wall - off)) leaf parents) (\<lambda>chain.
                    if \<not> chain_valid chain \<or> depth_exceeded chain
                    then Inr (Origin_Refused None (chain_failure_code (chain_reason chain)))
                    else let origin_token = (if parents = [] then token else last parents)
                      in bnd (verify_admitted_origin K I origin_token files a) (\<lambda>origin.
                        case origin of
                          Origin_Refused h c \<Rightarrow> Inr origin
                        | Origin_Valid h \<Rightarrow>
                            (case verified_slip_signer_id K I origin_token roots of
                               None \<Rightarrow> Inr (Origin_Refused (Some h) Delegation_Signature_Invalid)
                             | Some signer \<Rightarrow>
                                 if \<not> starts_with signer ed25519_prefix
                                 then Inr (Origin_Refused (Some h) Delegation_Signature_Invalid)
                                 else path_signers K I roots signer (admitted_git_ref a) origin
                                   ((token, Some leaf) # map (\<lambda>t. (t, None)) parents)))))
          | _ \<Rightarrow> Inr (Origin_Refused None Verification_Input_Invalid))"

end
