(* ===== verification/Evidence_Status.thy ===== *)
theory Evidence_Status
  imports Admission Actor_Proof
begin

text \<open>
  The second part of the module \<open>admission.py\<close>: the request a receipt retains in its native form and
  its comparison with the retained credentials, and the checks of the signed revocation and
  cumulative statuses at the instant of the sealed decision.
\<close>

section \<open>The retained receipt\<close>

definition receipt_decision :: "(pystr, json) dict \<Rightarrow> (pystr, json) dict" where
  "receipt_decision receipt = (case get receipt (lit ''decision'') of JObj d \<Rightarrow> d | _ \<Rightarrow> receipt)"

definition moment_or_none :: "json \<Rightarrow> exc + instant option" where
  "moment_or_none v =
     (case aware_moment v of
        Inr t \<Rightarrow> Inr (Some t) | Inl e \<Rightarrow> if e \<in> {TypeError, ValueError} then Inr None else Inl e)"

definition receipt_moment :: "(pystr, json) dict \<Rightarrow> exc + instant option" where
  "receipt_moment receipt = moment_or_none (get (receipt_decision receipt) (lit ''evaluated_at''))"

definition some_text :: "json \<Rightarrow> pystr option" where
  "some_text v = (case v of JStr s \<Rightarrow> if s = [] then None else Some s | _ \<Rightarrow> None)"

definition evidence_artifact :: "(pystr, json) dict \<Rightarrow> pystr option" where
  "evidence_artifact block =
     some_text (get (case get block (lit ''credential_evidence'') of JObj d \<Rightarrow> d | _ \<Rightarrow> block) (lit ''artifact''))"

text \<open>A text with a surrogate cannot be encoded, which raises.\<close>

fun artifact_files :: "(pystr, json) dict \<Rightarrow> exc + (pystr, pybytes) dict option" where
  "artifact_files [] = Inr (Some [])"
| "artifact_files ((name, value) # rest) =
     (if name = [] then Inr None
      else case value of
        JStr s \<Rightarrow>
          bnd (expect ValueError (utf8_encode s)) (\<lambda>bs.
          bnd (artifact_files rest) (\<lambda>files. Inr (map_option ((#) (name, bs)) files)))
      | _ \<Rightarrow> Inr None)"

definition artifact_bytes :: "json \<Rightarrow> exc + (pystr, pybytes) dict option" where
  "artifact_bytes artifacts =
     (case artifacts of JObj d \<Rightarrow> if d = [] then Inr None else artifact_files d | _ \<Rightarrow> Inr None)"

section \<open>The native request\<close>

definition native_ingress_text :: "json \<Rightarrow> json" where
  "native_ingress_text v =
     (case v of JStr s \<Rightarrow> if strip s = [] then JNull else JStr (strip s) | _ \<Rightarrow> JNull)"

text \<open>The identity, the proof if it is an object, and whether a proof is carried.\<close>

definition native_holder :: "(pystr, json) dict \<Rightarrow> json \<times> (pystr, json) dict option \<times> bool" where
  "native_holder envelope =
     (if has_key envelope (lit ''actor_id'') \<or> has_key envelope (lit ''actor_proof'')
      then (get envelope (lit ''actor_id''), as_obj (get envelope (lit ''actor_proof'')), has_key envelope (lit ''actor_proof''))
      else case get envelope (lit ''actor'') of
        JObj actor \<Rightarrow>
          (native_ingress_text (get actor (lit ''id'')), as_obj (get actor (lit ''proof'')), has_key actor (lit ''proof''))
      | _ \<Rightarrow> (JNull, None, False))"

definition text_or_null :: "json \<Rightarrow> bool" where
  "text_or_null v \<longleftrightarrow> v = JNull \<or> as_str v \<noteq> None"

record request_links =
  rl_leaf :: json
  rl_parents :: "json list"
  rl_approval :: json
  rl_tool :: json
  rl_arguments :: "(pystr, json) dict"

definition checked_links :: "json \<Rightarrow> json \<Rightarrow> json \<Rightarrow> json \<Rightarrow> json \<Rightarrow> request_links option" where
  "checked_links leaf parents approval tool arguments =
     (case (parents, arguments) of
        (JList ps, JObj args) \<Rightarrow>
          if text_or_null leaf \<and> list_all (\<lambda>p. as_str p \<noteq> None) ps \<and> text_or_null approval \<and> text_or_null tool
          then Some \<lparr>rl_leaf = leaf, rl_parents = ps, rl_approval = approval, rl_tool = tool, rl_arguments = args\<rparr>
          else None
      | _ \<Rightarrow> None)"

definition enveloped_links :: "(pystr, json) dict \<Rightarrow> request_links option" where
  "enveloped_links envelope =
     (case (get envelope (lit ''delegation''), get envelope (lit ''approval''), get envelope (lit ''arguments'')) of
        (JObj delegation, JObj approval, JObj arguments) \<Rightarrow>
          checked_links (get delegation (lit ''raw_token'')) (get delegation (lit ''parent_tokens''))
            (get approval (lit ''raw_token'')) (get envelope (lit ''tool_name'')) (JObj arguments)
      | _ \<Rightarrow> None)"

definition ingress_links :: "(pystr, json) dict \<Rightarrow> request_links option" where
  "ingress_links envelope =
     (case get envelope (lit ''call'') of
        JObj call \<Rightarrow>
          (let tool = native_ingress_text (get call (lit ''name'')); arguments = get call (lit ''arguments'')
           in if tool = JNull then None
              else checked_links (get envelope (lit ''delegation_token''))
                (if has_key envelope (lit ''parent_delegation_tokens'') then get envelope (lit ''parent_delegation_tokens'') else JList [])
                (get envelope (lit ''approval_token'')) tool (if arguments = JNull then JObj [] else arguments))
      | _ \<Rightarrow> None)"

definition native_request_links :: "(pystr, json) dict \<Rightarrow> request_links option" where
  "native_request_links envelope =
     (if has_key envelope (lit ''authority_envelope_version'') then enveloped_links envelope else ingress_links envelope)"

definition proof_matches :: "interp \<Rightarrow> (pystr, json) dict \<Rightarrow> (pystr, json) dict option \<Rightarrow> bool" where
  "proof_matches I envelope actor_proof =
     (case native_holder envelope of
        (ident, native, carries) \<Rightarrow>
          carries \<longrightarrow> (case (native, actor_proof) of
            (Some p, Some q) \<Rightarrow> same_json I (JObj p) (JObj (dict_del (lit ''request_hash'') q)) | _ \<Rightarrow> False))"

definition request_binding_matches ::
  "interp \<Rightarrow> (pystr, json) dict \<Rightarrow> pystr \<Rightarrow> pystr option \<Rightarrow> pystr list \<Rightarrow> pystr option \<Rightarrow> json \<Rightarrow> (pystr, json) dict
    \<Rightarrow> (pystr, json) dict option \<Rightarrow> bool" where
  "request_binding_matches I envelope actor_id token parents approval tool arguments actor_proof \<longleftrightarrow>
     text_or_null tool
     \<and> (case native_request_links envelope of
          None \<Rightarrow> False
        | Some links \<Rightarrow>
            fst (native_holder envelope) = JStr actor_id \<and> proof_matches I envelope actor_proof
            \<and> rl_leaf links = opt_json JStr token \<and> rl_parents links = map JStr parents
            \<and> rl_approval links = opt_json JStr approval \<and> rl_tool links = tool
            \<and> same_json I (JObj (rl_arguments links)) (JObj arguments))"

text \<open>The one adapter that the receipt and its native request name.\<close>

definition retained_request_adapter :: "(pystr, json) dict \<Rightarrow> (pystr, json) dict \<Rightarrow> pystr option" where
  "retained_request_adapter receipt evidence =
     (let candidates = get receipt (lit ''adapter_id'')
            # (case get evidence (lit ''request_envelope'') of JObj e \<Rightarrow> [get e (lit ''adapter_id'')] | _ \<Rightarrow> []);
          present = filter (\<lambda>v. v \<noteq> JNull) candidates
      in case present of
        [] \<Rightarrow> None
      | v # vs \<Rightarrow> if list_all nonempty_str present \<and> list_all (\<lambda>w. w = v) vs then as_str v else None)"

section \<open>Freshness\<close>

text \<open>
  \<open>datetime + timedelta\<close> on a wall clock, and \<open>timedelta(milliseconds=n)\<close> in microseconds: each
  raises \<open>OverflowError\<close> outside its range.
\<close>

definition shifted :: "instant \<Rightarrow> int \<Rightarrow> exc + instant" where
  "shifted wall us = (if 0 \<le> wall + us \<and> wall + us \<le> max_instant then Inr (wall + us) else Inl OverflowError)"

definition max_timedelta_days :: int where
  "max_timedelta_days = 999999999"

definition milliseconds :: "int \<Rightarrow> exc + int" where
  "milliseconds n =
     (if \<bar>n div 86400000\<bar> \<le> max_timedelta_days then Inr (n * 1000) else Inl OverflowError)"

text \<open>
  The comparison time is within the bound of the decision instant on both sides, and the status was
  checked no later than it and at most the bound before it.
\<close>

definition covers_moment :: "instant \<times> int \<Rightarrow> int \<Rightarrow> instant \<Rightarrow> instant \<Rightarrow> exc + bool" where
  "covers_moment at delta checked comparison =
     (case at of (wall, off) \<Rightarrow>
        bnd (shifted wall (- delta)) (\<lambda>low.
        if comparison < low - off then Inr False
        else bnd (shifted wall delta) (\<lambda>high.
        if comparison > high - off then Inr False
        else if \<not> checked \<le> comparison then Inr False
        else bnd (shifted checked delta) (\<lambda>until. Inr (comparison \<le> until)))))"

text \<open>\<open>freshness_evaluated_at\<close>, or the decision instant where it is absent.\<close>

definition comparison_time :: "instant \<times> int \<Rightarrow> (pystr, json) dict \<Rightarrow> exc + instant option" where
  "comparison_time at raw =
     (case get raw (lit ''freshness_evaluated_at'') of
        JNull \<Rightarrow> Inr (Some (fst at - snd at)) | v \<Rightarrow> moment_or_none v)"

section \<open>Revocation statuses\<close>

definition status_fresh ::
  "instant \<times> int \<Rightarrow> int \<Rightarrow> int option \<Rightarrow> (pystr, json) dict \<Rightarrow> revocation_status \<Rightarrow> exc + bool" where
  "status_fresh at admission_limit grant_limit raw s =
     (case freshness_bound_ms s of
        None \<Rightarrow> Inr False
      | Some stated \<Rightarrow>
          let limit = (case grant_limit of None \<Rightarrow> admission_limit | Some g \<Rightarrow> g)
          in bnd (milliseconds (min stated (min admission_limit limit))) (\<lambda>delta.
             bnd (comparison_time at raw) (\<lambda>compared.
             case compared of
               None \<Rightarrow> Inr False
             | Some comparison \<Rightarrow>
                 bnd (covers_moment at delta (checked_at s) comparison) (\<lambda>covered.
                 Inr (covered \<and> fst at - snd at - checked_at s \<le> delta)))))"

definition status_signed :: "crypto \<Rightarrow> interp \<Rightarrow> (pystr, json) dict \<Rightarrow> pystr \<Rightarrow> revocation_status \<Rightarrow> bool" where
  "status_signed K I roots ident s \<longleftrightarrow>
     \<not> is_revoked s \<and> \<not> ends_with (status_source s) (lit ''_unavailable'')
     \<and> (case status_public_key roots (status_root s) of
          None \<Rightarrow> False | Some key \<Rightarrow> verify_revocation_attestation K I s ident key)"

text \<open>Whether no error is returned; the malformed statuses are caught.\<close>

definition verify_revocation_status ::
  "crypto \<Rightarrow> interp \<Rightarrow> (pystr, json) dict \<Rightarrow> instant \<times> int \<Rightarrow> int \<Rightarrow> int option \<Rightarrow> int \<Rightarrow> pystr \<Rightarrow> json \<Rightarrow> exc + bool" where
  "verify_revocation_status K I roots at admission_limit grant_limit floor ident raw =
     (case raw of
        JObj d \<Rightarrow>
          (let evidence = dict_del (lit ''freshness_evaluated_at'') d
           in case status_from_evidence evidence of
             Inl e \<Rightarrow> if e \<in> {KeyError, TypeError, ValueError, OverflowError} then Inr False else Inl e
           | Inr s \<Rightarrow>
               if get evidence (lit ''jti'') \<noteq> JStr ident \<or> \<not> status_signed K I roots ident s then Inr False
               else bnd (status_fresh at admission_limit grant_limit d s) (\<lambda>fresh.
                 Inr (fresh \<and> (case revocation_epoch s of None \<Rightarrow> False | Some e \<Rightarrow> \<not> e < floor))))
      | _ \<Rightarrow> Inr False)"

section \<open>Cumulative statuses\<close>

text \<open>An account a bound requires: its kind, its unit, the length of its window and its aggregation.\<close>

type_synonym expected_bound = "pystr \<times> pystr \<times> int \<times> pystr option"

definition bound_matches :: "(pystr, json) dict \<Rightarrow> pystr option \<Rightarrow> expected_bound \<Rightarrow> bool" where
  "bound_matches payload entry_hash b \<longleftrightarrow>
     (case b of (kind, unit, duration, aggregation) \<Rightarrow>
        get payload (lit ''kind'') = JStr kind \<and> get payload (lit ''unit'') = JStr unit
        \<and> py_eq (get payload (lit ''window_duration_ms'')) (JInt duration)
        \<and> (case aggregation of
             None \<Rightarrow> \<not> has_key payload (lit ''scope'') \<and> \<not> has_key payload (lit ''scope_id'')
           | Some scope \<Rightarrow> get payload (lit ''scope'') = JStr scope \<and> get payload (lit ''scope_id'') = opt_json JStr entry_hash))"

text \<open>The bounds without the first one that matches, if one does.\<close>

fun take_bound :: "('a \<Rightarrow> bool) \<Rightarrow> 'a list \<Rightarrow> 'a list option" where
  "take_bound P [] = None"
| "take_bound P (b # bs) = (if P b then Some bs else map_option ((#) b) (take_bound P bs))"

definition row_signed :: "crypto \<Rightarrow> interp \<Rightarrow> (pystr, json) dict \<Rightarrow> (pystr, json) dict \<Rightarrow> pystr \<Rightarrow> bool" where
  "row_signed K I roots payload att \<longleftrightarrow>
     (case status_public_key roots (as_str (get payload (lit ''trust_root_id''))) of
        None \<Rightarrow> False | Some key \<Rightarrow> verify_cumulative_status_payload K I (JObj payload) (JStr att) key)"

definition row_repeats :: "(pystr, json) dict \<Rightarrow> (pystr, json) dict \<Rightarrow> bool" where
  "row_repeats shown payload \<longleftrightarrow> list_all (\<lambda>(k, v). k = lit ''jti'' \<or> py_eq (get shown k) v) payload"

definition row_fresh :: "instant \<times> int \<Rightarrow> int \<Rightarrow> (pystr, json) dict \<Rightarrow> (pystr, json) dict \<Rightarrow> exc + bool" where
  "row_fresh at age_limit shown payload =
     bnd (moment_or_none (get payload (lit ''checked_at''))) (\<lambda>moment.
     case (moment, get payload (lit ''freshness_bound_ms'')) of
       (Some checked, JInt stated) \<Rightarrow>
         if stated < 0 then Inr False
         else bnd (milliseconds (min stated age_limit)) (\<lambda>delta.
           bnd (comparison_time at shown) (\<lambda>compared.
           case compared of None \<Rightarrow> Inr False | Some comparison \<Rightarrow> covers_moment at delta checked comparison))
     | _ \<Rightarrow> Inr False)"

definition row_parts :: "json \<Rightarrow> ((pystr, json) dict \<times> (pystr, json) dict \<times> pystr) option" where
  "row_parts v =
     (case v of
        JObj shown \<Rightarrow>
          (case (get shown (lit ''signed_payload''), get shown (lit ''attestation'')) of
             (JObj payload, JStr att) \<Rightarrow> Some (shown, payload, att) | _ \<Rightarrow> None)
      | _ \<Rightarrow> None)"

text \<open>The loop over the rows, with the bounds no earlier row has taken.\<close>

fun cumulative_rows_ok ::
  "crypto \<Rightarrow> interp \<Rightarrow> (pystr, json) dict \<Rightarrow> instant \<times> int \<Rightarrow> int \<Rightarrow> pystr option \<Rightarrow> pystr
    \<Rightarrow> json list \<Rightarrow> expected_bound list \<Rightarrow> exc + bool" where
  "cumulative_rows_ok K I roots at age_limit entry_hash ident [] unmatched = Inr True"
| "cumulative_rows_ok K I roots at age_limit entry_hash ident (v # vs) unmatched =
     (case row_parts v of
        None \<Rightarrow> Inr False
      | Some (shown, payload, att) \<Rightarrow>
          if get payload (lit ''jti'') \<noteq> JStr ident then Inr False
          else case take_bound (bound_matches payload entry_hash) unmatched of
            None \<Rightarrow> Inr False
          | Some unmatched' \<Rightarrow>
              if \<not> row_repeats shown payload \<or> \<not> row_signed K I roots payload att
                \<or> get payload (lit ''admissible'') \<noteq> JBool True
              then Inr False
              else bnd (row_fresh at age_limit shown payload) (\<lambda>fresh.
                if \<not> fresh then Inr False
                else cumulative_rows_ok K I roots at age_limit entry_hash ident vs unmatched'))"

definition verify_cumulative_rows ::
  "crypto \<Rightarrow> interp \<Rightarrow> (pystr, json) dict \<Rightarrow> instant \<times> int \<Rightarrow> int \<Rightarrow> pystr option \<Rightarrow> expected_bound list \<Rightarrow> pystr
    \<Rightarrow> json \<Rightarrow> exc + bool" where
  "verify_cumulative_rows K I roots at age_limit entry_hash expected ident rows =
     (case rows of
        JList vs \<Rightarrow>
          if length vs \<noteq> length expected then Inr False
          else cumulative_rows_ok K I roots at age_limit entry_hash ident vs expected
      | _ \<Rightarrow> Inr False)"

end
