(* ===== verification/Foreign_Dispatch.thy ===== *)
theory Foreign_Dispatch
  imports Evidence_Status
begin

text \<open>
  \<open>verify_foreign_dispatch\<close> of the module \<open>admission.py\<close>: a dispatch of organisation A, verified
  through the counterparty points that organisation B admitted. The admission is one the verifier
  returned, so the fields its shape requires are present; indexing them cannot raise.
\<close>

section \<open>The candidate points\<close>

definition admission_version :: "authority_admission \<Rightarrow> json" where
  "admission_version a = get (ad_claims a) (lit ''schema_version'')"

record foreign_candidate =
  fc_point :: "(pystr, json) dict"
  fc_key :: pystr
  fc_claims :: "(pystr, json) dict"

text \<open>
  The loop over the points: those whose key verifies the token as a dispatch of that point. A body
  that is not an object raises \<open>AttributeError\<close>, which the loop does not catch.
\<close>

fun point_candidates ::
  "crypto \<Rightarrow> interp \<Rightarrow> json \<Rightarrow> (pystr, json) dict \<Rightarrow> exc + foreign_candidate list" where
  "point_candidates K I token [] = Inr []"
| "point_candidates K I token ((ident, value) # rest) =
     (case value of
        JObj point \<Rightarrow>
          (case get point (lit ''public_key'') of
             JStr key \<Rightarrow>
               (case verify_dispatch K I (Inl key) token of
                  Inl e \<Rightarrow> if e \<in> {TypeError, ValueError} then point_candidates K I token rest else Inl e
                | Inr d \<Rightarrow>
                    bnd (point_candidates K I token rest) (\<lambda>found.
                    Inr (if get d (lit ''enforcement_point_id'') = JStr ident
                      then \<lparr>fc_point = point, fc_key = key, fc_claims = d\<rparr> # found else found)))
           | _ \<Rightarrow> point_candidates K I token rest)
      | _ \<Rightarrow> point_candidates K I token rest)"

section \<open>The joins\<close>

definition point_joins :: "foreign_candidate \<Rightarrow> bool" where
  "point_joins c \<longleftrightarrow>
     list_all (\<lambda>k. py_eq (get (fc_claims c) (lit k)) (get (fc_point c) (lit k)))
       [''domain_id'', ''ledger_id'', ''resource_id'', ''resource_binding_hash'']
     \<and> get (fc_point c) (lit ''profile'') = JStr (lit customer_delete_profile)
     \<and> get (fc_claims c) (lit ''profile'') = JStr (lit customer_delete_profile)"

definition point_consent_hash :: "interp \<Rightarrow> foreign_candidate \<Rightarrow> exc + pystr" where
  "point_consent_hash I c =
     counterparty_consent_hash I (get (fc_point c) (lit ''consent_delegation_token''))
       (get (fc_point c) (lit ''consent_parent_delegation_tokens''))"

definition consent_joins :: "interp \<Rightarrow> authority_admission \<Rightarrow> foreign_candidate \<Rightarrow> exc + bool" where
  "consent_joins I a c =
     (if admission_version a = JInt admission_schema_version
      then bnd (point_consent_hash I c) (\<lambda>h. Inr (get (fc_claims c) (lit ''counterparty_consent_hash'') = JStr h))
      else Inr True)"

text \<open>The actor of B's request is the key of A's point, on every record that names it.\<close>

definition request_actor_joins ::
  "interp \<Rightarrow> foreign_candidate \<Rightarrow> pybytes \<Rightarrow> (pystr, json) dict \<Rightarrow> (pystr, json) dict \<Rightarrow> bool" where
  "request_actor_joins I c key receipt request \<longleftrightarrow>
     (let expected = JStr (ed25519_prefix @ fc_key c)
      in (case get request (lit ''actor'') of JObj actor \<Rightarrow> get actor (lit ''id'') = expected | _ \<Rightarrow> False)
         \<and> get (receipt_decision receipt) (lit ''actor_id'') = expected
         \<and> (case get receipt (lit ''consumption'') of
              JObj consumption \<Rightarrow>
                (case get consumption (lit ''operation'') of
                   JObj operation \<Rightarrow> get operation (lit ''actor_key_fingerprint'') = JStr (sha256_hex I key)
                 | _ \<Rightarrow> False)
            | _ \<Rightarrow> False))"

definition request_token_joins :: "foreign_candidate \<Rightarrow> pystr \<Rightarrow> (pystr, json) dict \<Rightarrow> bool" where
  "request_token_joins c token request \<longleftrightarrow>
     get request (lit ''foreign_dispatch'') = JStr token \<and> get request (lit ''adapter_id'') = JStr (lit ''http'')
     \<and> py_eq (get request (lit ''operation_id'')) (get (fc_claims c) (lit ''operation_id''))
     \<and> py_eq (get request (lit ''delegation_token'')) (get (fc_point c) (lit ''consent_delegation_token''))
     \<and> py_eq (get request (lit ''parent_delegation_tokens'')) (get (fc_point c) (lit ''consent_parent_delegation_tokens''))"

definition destination_text :: "interp \<Rightarrow> (pystr, json) dict \<Rightarrow> pystr" where
  "destination_text I binding =
     py_str I (get binding (lit ''downstream_url'')) @ py_str I (get binding (lit ''downstream_path''))"

definition action_joins ::
  "interp \<Rightarrow> foreign_candidate \<Rightarrow> (pystr, json) dict \<Rightarrow> (pystr, json) dict \<Rightarrow> (pystr, json) dict \<Rightarrow> (pystr, json) dict \<Rightarrow> bool"
where
  "action_joins I c binding action target arguments \<longleftrightarrow>
     (let d = fc_claims c; destination = JStr (destination_text I binding)
      in keys_exact arguments (map lit [''customer_id'', ''destination'', ''route''])
         \<and> get binding (lit ''adapter_id'') = JStr (lit ''http'')
         \<and> py_eq (get arguments (lit ''route'')) (get binding (lit ''downstream_path''))
         \<and> get arguments (lit ''destination'') = destination \<and> get target (lit ''id'') = destination
         \<and> get target (lit ''domain'') = JStr (lit ''http'') \<and> get action (lit ''type'') = JStr (lit ''delete'')
         \<and> get action (lit ''boundary'') = JStr (lit ''network_egress'')
         \<and> get d (lit ''action_type'') = JStr (lit ''delete'') \<and> get d (lit ''action_boundary'') = JStr (lit ''network_egress'')
         \<and> get d (lit ''action_domain'') = JStr (lit ''http'') \<and> get d (lit ''action_path'') = destination
         \<and> py_eq (get d (lit ''customer_id'')) (get arguments (lit ''customer_id'')))"

definition request_call :: "(pystr, json) dict \<Rightarrow> ((pystr, json) dict \<times> (pystr, json) dict) option" where
  "request_call request =
     (case get request (lit ''call'') of
        JObj call \<Rightarrow>
          (case get call (lit ''arguments'') of
             JObj arguments \<Rightarrow> if get call (lit ''name'') = JStr (lit ''customer.delete'') then Some (call, arguments) else None
           | _ \<Rightarrow> None)
      | _ \<Rightarrow> None)"

text \<open>The request and its call, if the canonical request of B is the one the dispatch names.\<close>

definition bound_request ::
  "interp \<Rightarrow> authority_admission \<Rightarrow> foreign_candidate \<Rightarrow> pybytes \<Rightarrow> pystr \<Rightarrow> (pystr, json) dict \<Rightarrow> (pystr, json) dict
    \<Rightarrow> ((pystr, json) dict \<times> (pystr, json) dict) option" where
  "bound_request I a c key token receipt evidence =
     (case (get evidence (lit ''request_envelope''), get receipt (lit ''action''), get receipt (lit ''object''),
          get (ad_claims a) (lit ''resource_binding'')) of
        (JObj request, JObj action, JObj target, JObj binding) \<Rightarrow>
          (case request_call request of
             None \<Rightarrow> None
           | Some (call, arguments) \<Rightarrow>
               if request_token_joins c token request \<and> request_actor_joins I c key receipt request
                 \<and> action_joins I c binding action target arguments
               then Some (request, call) else None)
      | _ \<Rightarrow> None)"

text \<open>The payload of the dispatch is the call, and its two instants; what is malformed is caught.\<close>

definition dispatch_timing ::
  "interp \<Rightarrow> foreign_candidate \<Rightarrow> (pystr, json) dict \<Rightarrow> exc + (instant \<times> instant) option" where
  "dispatch_timing I c call =
     (case bnd (payload_bytes I (JObj call)) (\<lambda>bs.
         ensure (get (fc_claims c) (lit ''payload_hash'') = JStr (sha256_hex I bs)) ValueError
        (bnd (aware_moment (get (fc_claims c) (lit ''authorized_at''))) (\<lambda>from.
         bnd (aware_moment (get (fc_claims c) (lit ''not_after''))) (\<lambda>until. Inr (from, until))))) of
        Inr window \<Rightarrow> Inr (Some window)
      | Inl e \<Rightarrow> if e \<in> {TypeError, ValueError} then Inr None else Inl e)"

section \<open>B's context\<close>

definition context_artifact_hash :: "interp \<Rightarrow> json \<Rightarrow> exc + pystr option" where
  "context_artifact_hash I context =
     (case context of
        JObj d \<Rightarrow>
          (case get d (lit ''artifact'') of
             JStr s \<Rightarrow> bnd (expect ValueError (utf8_encode s)) (\<lambda>bs. Inr (Some (sha256_hex I bs)))
           | _ \<Rightarrow> Inr None)
      | _ \<Rightarrow> Inr None)"

record foreign_context =
  fx_artifact :: json
  fx_operation_hash :: json
  fx_selector :: pystr
  fx_root :: json
  fx_justification :: json

text \<open>The admitted context that the request carries, its approval root and its justification.\<close>

definition retained_context ::
  "authority_admission \<Rightarrow> foreign_candidate \<Rightarrow> (pystr, json) dict \<Rightarrow> (pystr, json) dict \<Rightarrow> pystr option
    \<Rightarrow> foreign_context option" where
  "retained_context a c hashes request hashed =
     (case (get request (lit ''counterparty_context''), get (fc_point c) (lit selector_key), get request (lit ''context'')) of
        (JObj context, JStr selector, JObj native) \<Rightarrow>
          (let root = get (claims_obj a ''credential_trust_roots'') selector; why = get native (lit ''justification'')
           in if keys_exact context (map lit [''artifact'', ''operation_hash''])
                \<and> get hashes (lit ''counterparty_context_hash'') = opt_json JStr hashed
                \<and> as_obj root \<noteq> None \<and> canonical_text why \<and> as_str (get context (lit ''operation_hash'')) \<noteq> None
              then Some \<lparr>fx_artifact = get context (lit ''artifact''), fx_operation_hash = get context (lit ''operation_hash''),
                fx_selector = selector, fx_root = root, fx_justification = why\<rparr>
              else None)
      | _ \<Rightarrow> None)"

text \<open>
  The slip reader counts the points of its token before anything else: a value without \<open>count\<close>, and
  a list it goes on to split, raise \<open>AttributeError\<close>, which the caller does not catch.
\<close>

definition slip_text :: "json \<Rightarrow> exc + pystr" where
  "slip_text v =
     (case v of
        JStr s \<Rightarrow> Inr s
      | JList vs \<Rightarrow> if length (filter (\<lambda>w. w = JStr (lit ''.'')) vs) = 1 then Inl AttributeError else Inl ValueError
      | _ \<Rightarrow> Inl AttributeError)"

definition context_verifies ::
  "crypto \<Rightarrow> interp \<Rightarrow> (pystr \<Rightarrow> pystr) \<Rightarrow> authority_admission \<Rightarrow> foreign_candidate \<Rightarrow> pystr \<Rightarrow> foreign_context
    \<Rightarrow> instant \<Rightarrow> moment_arg \<Rightarrow> exc + bool" where
  "context_verifies K I nfkc a c token_hash x not_after at =
     (let claim = (\<lambda>k. get (ad_claims a) (lit k))
      in succeeds_but {KeyError, TypeError, ValueError}
        (bnd (counterparty_foreign_descriptor_hash I (JObj (fc_claims c))) (\<lambda>descriptor.
         bnd (resource_binding_hash nfkc I (claim ''resource_binding'')) (\<lambda>binding.
         bnd (counterparty_destination_hash I (claim ''domain_id'') (claim ''ledger_id'') (claim ''enforcement_point_id'')
            (JStr binding)) (\<lambda>destination.
         bnd (point_consent_hash I c) (\<lambda>consent.
         ensure (hex_text 64 (fx_operation_hash x)) ValueError
        (bnd (slip_text (fx_artifact x)) (\<lambda>artifact.
         verify_counterparty_context K I [(fx_selector x, fx_root x)]
           (JStr token_hash, JStr descriptor, fx_operation_hash x, get (fc_claims c) (lit ''payload_hash''), JStr destination,
            JStr consent)
           (fx_justification x) (not_after, Some 0) at artifact))))))))"

section \<open>The statuses\<close>

text \<open>Every identifier of the dispatch has its status, in order, and no epoch falls behind an earlier one.\<close>

fun statuses_hold :: "(pystr \<Rightarrow> json \<Rightarrow> exc + bool) \<Rightarrow> pystr list \<Rightarrow> json list \<Rightarrow> exc + bool" where
  "statuses_hold check (ident # idents) (v # vs) =
     bnd (check ident v) (\<lambda>ok. if ok then statuses_hold check idents vs else Inr False)"
| "statuses_hold check _ _ = Inr True"

definition foreign_statuses_hold ::
  "crypto \<Rightarrow> interp \<Rightarrow> foreign_candidate \<Rightarrow> instant \<times> int \<Rightarrow> json \<Rightarrow> exc + bool" where
  "foreign_statuses_hold K I c at statuses =
     bnd (dispatch_revocation_identity (fc_claims c)) (\<lambda>identity.
     case (identity, statuses) of
       (Some (jtis, epoch), JList vs) \<Rightarrow>
         if length vs \<noteq> length jtis then Inr False
         else bnd (dispatch_max_revocation_age_ms (fc_claims c)) (\<lambda>age.
           let roots = (case get (fc_point c) (lit ''revocation_trust_roots'') of JObj d \<Rightarrow> d | _ \<Rightarrow> []);
               limit = int_of (get (fc_point c) (lit ''max_revocation_age_ms''))
           in bnd (statuses_hold (verify_revocation_status K I roots at limit age epoch) (map text_of jtis) vs) (\<lambda>held.
              if \<not> held then Inr False
              else bnd (epoch_regression I (List.map_filter as_obj vs)) (\<lambda>regressed. Inr (regressed = None))))
     | _ \<Rightarrow> Inr False)"

section \<open>The dispatch\<close>

text \<open>The retained token, its statuses and the hashes of the evidence, if the retained map is the admitted one.\<close>

definition admitted_foreign ::
  "interp \<Rightarrow> authority_admission \<Rightarrow> (pystr, json) dict
    \<Rightarrow> (json \<times> json \<times> (pystr, json) dict \<times> (pystr, json) dict) option" where
  "admitted_foreign I a evidence =
     (case (get evidence (lit ''foreign_dispatch''), get evidence (lit ''hashes''),
          get (ad_claims a) (lit ''trusted_counterparty_points'')) of
        (JObj foreign, JObj hashes, JObj points) \<Rightarrow>
          if keys_exact foreign (map lit [''artifact'', ''revocation_statuses'', ''trusted_counterparty_points''])
            \<and> get evidence (lit ''actor_proof'') = JNull
            \<and> same_json I (get foreign (lit ''trusted_counterparty_points'')) (JObj points)
          then Some (get foreign (lit ''artifact''), get foreign (lit ''revocation_statuses''), hashes, points) else None
      | _ \<Rightarrow> None)"

text \<open>What a valid verification returns.\<close>

record foreign_dispatch =
  fd_hash :: pystr
  fd_not_after :: instant
  fd_consent_checked :: bool

definition candidate_verifies ::
  "crypto \<Rightarrow> interp \<Rightarrow> (pystr \<Rightarrow> pystr) \<Rightarrow> authority_admission \<Rightarrow> instant \<times> int \<Rightarrow> (pystr, json) dict \<Rightarrow> (pystr, json) dict
    \<Rightarrow> (pystr, json) dict \<Rightarrow> pystr \<Rightarrow> pystr \<Rightarrow> json \<Rightarrow> foreign_candidate \<Rightarrow> exc + foreign_dispatch option" where
  "candidate_verifies K I nfkc a at receipt evidence hashes token token_hash statuses c =
     (if has_key (fc_claims c) (lit ''foreign_dependency'') \<or> \<not> point_joins c then Inr None
      else bnd (consent_joins I a c) (\<lambda>consented.
        if \<not> consented then Inr None
        else bnd (expect ValueError (from_hex (fc_key c))) (\<lambda>key.
        case bound_request I a c key token receipt evidence of
          None \<Rightarrow> Inr None
        | Some (request, call) \<Rightarrow>
            bnd (dispatch_timing I c call) (\<lambda>timing.
            case timing of
              None \<Rightarrow> Inr None
            | Some (authorized_at, not_after) \<Rightarrow>
                bnd (context_artifact_hash I (get request (lit ''counterparty_context''))) (\<lambda>hashed.
                case retained_context a c hashes request hashed of
                  None \<Rightarrow> Inr None
                | Some x \<Rightarrow>
                    bnd (context_verifies K I nfkc a c token_hash x not_after (fst at, Some (snd at))) (\<lambda>verified.
                    if \<not> (verified \<and> authorized_at \<le> fst at - snd at \<and> fst at - snd at \<le> not_after) then Inr None
                    else bnd (foreign_statuses_hold K I c at statuses) (\<lambda>held.
                    Inr (if held
                      then Some \<lparr>fd_hash = token_hash, fd_not_after = not_after,
                        fd_consent_checked = (admission_version a = JInt admission_schema_version)\<rparr>
                      else None))))))))"

definition verify_foreign_dispatch ::
  "crypto \<Rightarrow> interp \<Rightarrow> (pystr \<Rightarrow> pystr) \<Rightarrow> authority_admission \<Rightarrow> moment_arg \<Rightarrow> (pystr, json) dict
    \<Rightarrow> exc + foreign_dispatch option" where
  "verify_foreign_dispatch K I nfkc a at receipt =
     (case (at, get receipt (lit ''evidence'')) of
        ((wall, Some off), JObj evidence) \<Rightarrow>
          if \<not> among counterparty_schema_versions (admission_version a) then Inr None
          else (case admitted_foreign I a evidence of
             Some (JStr token, statuses, hashes, points) \<Rightarrow>
               bnd (expect ValueError (utf8_encode token)) (\<lambda>bytes.
               let token_hash = sha256_hex I bytes
               in if token = [] \<or> get hashes (lit ''foreign_dispatch_hash'') \<noteq> JStr token_hash then Inr None
                  else bnd (point_candidates K I (JStr token) points) (\<lambda>found.
                    case found of
                      [c] \<Rightarrow> candidate_verifies K I nfkc a (wall, off) receipt evidence hashes token token_hash statuses c
                    | _ \<Rightarrow> Inr None))
           | _ \<Rightarrow> Inr None)
      | _ \<Rightarrow> Inr None)"

end
