(* ===== verification/Receipt_Credentials.thy ===== *)
theory Receipt_Credentials
  imports Foreign_Dispatch
begin

text \<open>
  The modules \<open>evidence_schema.py\<close> and \<open>credential_evidence.py\<close>: the credentials a receipt retains,
  verified again at the time of the recorded decision. The collected error texts are not modelled;
  each step returns whether it appended one. A receipt is a JSON object, and an absent argument is
  \<open>JNull\<close> or \<open>None\<close>.
\<close>

section \<open>Versions\<close>

definition evidence_schema_version :: string where
  "evidence_schema_version = ''6''"

definition supported_evidence_schema_versions :: "string list" where
  "supported_evidence_schema_versions = [''3'', ''4'', ''5'', evidence_schema_version]"

section \<open>Readers\<close>

definition obj_or_empty :: "json \<Rightarrow> (pystr, json) dict" where
  "obj_or_empty v = (case v of JObj d \<Rightarrow> d | _ \<Rightarrow> [])"

text \<open>The nested decision, unless it is absent or empty.\<close>

definition credential_decision :: "(pystr, json) dict \<Rightarrow> (pystr, json) dict" where
  "credential_decision receipt =
     (let nested = obj_or_empty (get receipt (lit ''decision'')) in if nested \<noteq> [] then nested else receipt)"

text \<open>A time without an offset is read as UTC.\<close>

definition credential_time :: "(pystr, json) dict \<Rightarrow> exc + instant" where
  "credential_time receipt =
     bnd (expect ValueError (as_str (get (credential_decision receipt) (lit ''evaluated_at'')))) (\<lambda>s. parse_dt (replace_z s))"

section \<open>Artefacts\<close>

definition registered_before :: "instant \<Rightarrow> json \<Rightarrow> exc + bool" where
  "registered_before evaluated_at registered_at =
     (case registered_at of
        JStr s \<Rightarrow>
          (case fromisoformat (replace_z s) of
             Some (wall, Some off) \<Rightarrow> bnd (to_utc wall off) (\<lambda>t. Inr (\<not> t > evaluated_at))
           | _ \<Rightarrow> Inr False)
      | _ \<Rightarrow> Inr False)"

definition check_registration ::
  "crypto \<Rightarrow> interp \<Rightarrow> trust_roots \<Rightarrow> json \<Rightarrow> instant \<Rightarrow> pystr \<Rightarrow> exc + bool" where
  "check_registration K I roots registration_keys evaluated_at root_id =
     (case get roots root_id of
        JObj root \<Rightarrow>
          (case (get root (lit ''registration''), get root (lit ''public_key'')) of
             (JObj registration, JStr public_key) \<Rightarrow>
               if registration_keys = JNull then Inr False
               else bnd (verify_credential_registration K I (JObj registration) registration_keys root_id public_key) (\<lambda>faults.
                 if faults \<noteq> [] then Inr False
                 else registered_before evaluated_at (get registration (lit ''registered_at'')))
           | _ \<Rightarrow> Inr False)
      | _ \<Rightarrow> Inr False)"

definition evidence_block :: "(pystr, json) dict \<Rightarrow> (pystr, json) dict" where
  "evidence_block block =
     (if has_key block (lit ''artifact'') then block else obj_or_empty (get block (lit ''credential_evidence'')))"

text \<open>What the block states of the artefact is what the artefact states of itself.\<close>

definition labels_match :: "interp \<Rightarrow> pystr \<Rightarrow> (pystr, json) dict \<Rightarrow> pystr \<Rightarrow> bool" where
  "labels_match I context block artifact \<longleftrightarrow>
     (let evidence = evidence_block block; scheme = verified_slip_scheme artifact;
          root = opt_json JStr (verified_slip_trust_root_id I artifact)
      in scheme \<in> {Some (lit ''ed25519''), Some (lit ''p256'')} \<and> get evidence (lit ''scheme'') = opt_json JStr scheme
         \<and> get evidence (lit ''proof_class'') = JStr (lit ''public_key_verifiable'')
         \<and> get evidence (lit ''verification_context'') = JStr context
         \<and> get evidence (lit ''trust_root_id'') = root \<and> get block (lit ''trust_root_id'') = root)"

text \<open>The artefact, if there is one, and whether no error was appended.\<close>

definition retained_artifact ::
  "crypto \<Rightarrow> interp \<Rightarrow> trust_roots \<Rightarrow> json \<Rightarrow> instant \<Rightarrow> pystr \<Rightarrow> (pystr, json) dict \<Rightarrow> exc + pystr option \<times> bool" where
  "retained_artifact K I roots registration_keys evaluated_at context block =
     (case some_text (get (evidence_block block) (lit ''artifact'')) of
        None \<Rightarrow> Inr (None, False)
      | Some artifact \<Rightarrow>
          bnd (case (verified_slip_scheme artifact, verified_slip_trust_root_id I artifact) of
              (Some scheme, Some root_id) \<Rightarrow>
                if scheme = lit ''p256'' then check_registration K I roots registration_keys evaluated_at root_id else Inr True
            | _ \<Rightarrow> Inr True) (\<lambda>registered.
          Inr (Some artifact, labels_match I context block artifact \<and> registered)))"

section \<open>The actor\<close>

text \<open>\<open>str(value or "")\<close>; the text Python prints for a list or an object is a parameter.\<close>

definition str_or_empty :: "(json \<Rightarrow> pystr) \<Rightarrow> interp \<Rightarrow> json \<Rightarrow> pystr" where
  "str_or_empty printed I v = (if \<not> truthy v then [] else if unhashable v then printed v else py_str I v)"

definition verify_retained_actor_proof ::
  "(json \<Rightarrow> pystr) \<Rightarrow> crypto \<Rightarrow> interp \<Rightarrow> trust_roots \<Rightarrow> json \<Rightarrow> pystr option \<Rightarrow> instant \<Rightarrow> (pystr, json) dict
    \<Rightarrow> exc + bool" where
  "verify_retained_actor_proof printed K I roots registration_keys audience evaluated_at receipt =
     (let decision = credential_decision receipt;
          fingerprint = get decision (lit ''actor_key_fingerprint''); nonce = get decision (lit ''actor_proof_nonce'')
      in case get (obj_or_empty (get receipt (lit ''evidence''))) (lit ''actor_proof'') of
           JNull \<Rightarrow> Inr (fingerprint = JNull \<and> nonce = JNull)
         | JObj proof \<Rightarrow>
             bnd (verify_actor_proof K I
                 (JObj [(lit ''actor_id'', get decision (lit ''actor_id'')), (lit ''actor_proof'', JObj proof)]) (JObj roots)
                 (str_or_empty printed I (get proof (lit ''request_hash'')))
                 (case audience of Some s \<Rightarrow> s | None \<Rightarrow> str_or_empty printed I (get proof (lit ''audience'')))
                 evaluated_at default_freshness_seconds registration_keys) (\<lambda>verdict.
             Inr (case verdict of
                 Inl refusal \<Rightarrow> False
               | Inr actor \<Rightarrow> fingerprint = JStr (ap_key_fingerprint actor) \<and> nonce = JStr (ap_nonce actor)))
         | _ \<Rightarrow> Inr False)"

section \<open>The delegation\<close>

definition type_name :: "json \<Rightarrow> string" where
  "type_name v =
     (case v of JNull \<Rightarrow> ''NoneType'' | JBool b \<Rightarrow> ''bool'' | JInt n \<Rightarrow> ''int'' | JFloat x \<Rightarrow> ''float'' | JStr s \<Rightarrow> ''str''
      | JList vs \<Rightarrow> ''list'' | JObj d \<Rightarrow> ''dict'')"

definition recorded_chain_rule_version :: "(pystr, json) dict \<Rightarrow> pystr option" where
  "recorded_chain_rule_version delegation =
     (if \<not> has_key delegation (lit ''chain_rule_version'') then None
      else case get delegation (lit ''chain_rule_version'') of
        JStr s \<Rightarrow> Some s | v \<Rightarrow> Some (lit ''non-string '' @ lit (type_name v)))"

text \<open>Whether the chain holds, and whether no error was appended.\<close>

definition replayed_chain ::
  "crypto \<Rightarrow> interp \<Rightarrow> trust_roots \<Rightarrow> json \<Rightarrow> instant \<Rightarrow> (pystr, json) dict \<Rightarrow> delegation_claims \<Rightarrow> exc + bool \<times> bool" where
  "replayed_chain K I roots registration_keys evaluated_at delegation leaf =
     (case get delegation (lit ''credential_chain'') of
        JList entries \<Rightarrow>
          if chain_depth leaf > int max_verification_chain_depth \<or> length entries > max_verification_chain_depth
          then Inr (False, False)
          else bnd (each (\<lambda>v. retained_artifact K I roots registration_keys evaluated_at slip_context_delegation
              (obj_or_empty v)) entries) (\<lambda>found.
            let parents = List.map_filter fst found
            in bnd (replay_delegation_chain (chain_at K I roots evaluated_at) (recorded_chain_rule_version delegation) leaf parents)
                 (\<lambda>chain. Inr (supported chain \<and> chain_valid chain \<and> length parents = length entries,
                   list_all snd found \<and> supported chain)))
      | _ \<Rightarrow> Inr (False, False))"

text \<open>A block of the receipt: absent, malformed, or an object.\<close>

definition has_credential :: "(pystr, json) dict \<Rightarrow> bool" where
  "has_credential block \<longleftrightarrow> has_key block (lit ''artifact'') \<or> has_key block (lit ''credential_evidence'')"

definition verify_delegation_block ::
  "crypto \<Rightarrow> interp \<Rightarrow> trust_roots \<Rightarrow> json \<Rightarrow> instant \<Rightarrow> (pystr, json) dict \<Rightarrow> exc + bool \<times> bool" where
  "verify_delegation_block K I roots registration_keys evaluated_at delegation =
     (if \<not> has_credential delegation then Inr (True, True)
      else bnd (retained_artifact K I roots registration_keys evaluated_at slip_context_delegation delegation) (\<lambda>(found, clean).
        case found of
          None \<Rightarrow> Inr (False, clean)
        | Some token \<Rightarrow>
            bnd (parse_delegation K I roots token) (\<lambda>parsed.
            case parsed of
              None \<Rightarrow> Inr (False, False)
            | Some leaf \<Rightarrow>
                bnd (replayed_chain K I roots registration_keys evaluated_at delegation leaf) (\<lambda>(valid, unbroken).
                Inr (valid, clean \<and> unbroken \<and> valid)))))"

definition verify_delegation ::
  "crypto \<Rightarrow> interp \<Rightarrow> trust_roots \<Rightarrow> json \<Rightarrow> instant \<Rightarrow> (pystr, json) dict \<Rightarrow> exc + bool \<times> bool" where
  "verify_delegation K I roots registration_keys evaluated_at receipt =
     (case get receipt (lit ''delegation'') of
        JNull \<Rightarrow> Inr (True, True)
      | JObj delegation \<Rightarrow> verify_delegation_block K I roots registration_keys evaluated_at delegation
      | _ \<Rightarrow> Inr (False, False))"

section \<open>The approval\<close>

text \<open>
  \<open>str(outcome or "").lower() == "escalate"\<close>: no letter outside ASCII has a letter of that word as its
  lower case, and no text of another type is that word.
\<close>

definition names_escalation :: "json \<Rightarrow> bool" where
  "names_escalation v = (case v of JStr s \<Rightarrow> ascii_lower s = lit ''escalate'' | _ \<Rightarrow> False)"

definition escalation_link :: "(pystr, json) dict \<Rightarrow> approval_claims \<Rightarrow> json \<Rightarrow> bool" where
  "escalation_link escalation claims fingerprint \<longleftrightarrow>
     get escalation (lit ''record_hash'') = JStr (ap_escalation_record_hash claims)
     \<and> names_escalation (case get escalation (lit ''decision'') of JObj d \<Rightarrow> get d (lit ''outcome'') | v \<Rightarrow> v)
     \<and> py_eq (get escalation (lit ''request_fingerprint'')) fingerprint"

text \<open>Whether the approval binds the decision, whether its escalation holds, and whether no error was appended.\<close>

definition approval_binds ::
  "(pystr, json) dict \<Rightarrow> (pystr, json) dict \<Rightarrow> instant \<Rightarrow> approval_claims \<Rightarrow> bool" where
  "approval_binds decision approval evaluated_at claims \<longleftrightarrow>
     get decision (lit ''request_fingerprint'') = JStr (ap_request_fingerprint claims)
     \<and> get approval (lit ''escalation_record_hash'') = JStr (ap_escalation_record_hash claims)
     \<and> ap_nbf claims \<le> evaluated_at \<and> evaluated_at \<le> ap_exp claims"

definition verify_approval_block ::
  "crypto \<Rightarrow> interp \<Rightarrow> trust_roots \<Rightarrow> json \<Rightarrow> instant \<Rightarrow> (pystr, json) dict option \<Rightarrow> (pystr, json) dict \<Rightarrow> (pystr, json) dict
    \<Rightarrow> exc + bool \<times> bool \<times> bool" where
  "verify_approval_block K I roots registration_keys evaluated_at escalation receipt approval =
     (if \<not> has_credential approval then Inr (True, True, True)
      else bnd (retained_artifact K I roots registration_keys evaluated_at slip_context_approval approval) (\<lambda>(found, clean).
        case found of
          None \<Rightarrow> Inr (False, False, False)
        | Some token \<Rightarrow>
            bnd (parse_approval K I roots token) (\<lambda>parsed.
            case parsed of
              None \<Rightarrow> Inr (False, False, False)
            | Some claims \<Rightarrow>
                let decision = credential_decision receipt;
                    binds = approval_binds decision approval evaluated_at claims;
                    linked = (case escalation of
                        None \<Rightarrow> False | Some e \<Rightarrow> escalation_link e claims (get decision (lit ''request_fingerprint'')))
                in Inr (binds, linked, clean \<and> binds \<and> linked))))"

definition verify_approval ::
  "crypto \<Rightarrow> interp \<Rightarrow> trust_roots \<Rightarrow> json \<Rightarrow> instant \<Rightarrow> (pystr, json) dict option \<Rightarrow> (pystr, json) dict
    \<Rightarrow> exc + bool \<times> bool \<times> bool" where
  "verify_approval K I roots registration_keys evaluated_at escalation receipt =
     (case get receipt (lit ''approval'') of
        JNull \<Rightarrow> Inr (True, True, True)
      | JObj approval \<Rightarrow> verify_approval_block K I roots registration_keys evaluated_at escalation receipt approval
      | _ \<Rightarrow> Inr (False, False, False))"

section \<open>The origin\<close>

datatype origin_status = Not_Established | Failed | Established

definition origin_admission ::
  "crypto \<Rightarrow> interp \<Rightarrow> (pystr \<Rightarrow> pystr) \<Rightarrow> trust_roots option \<Rightarrow> instant \<Rightarrow> (pystr, json) dict \<Rightarrow> origin_status" where
  "origin_admission K I nfkc admission_roots evaluated_at evidence =
     (case admission_roots of
        None \<Rightarrow> Not_Established
      | Some roots \<Rightarrow>
          if get evidence (lit ''schema_version'') \<notin> {JStr (lit ''5''), JStr (lit ''6'')} then Not_Established
          else let d = obj_or_empty (get evidence (lit ''authority_admission''))
            in case (get d (lit ''artifact''), get d (lit ''domain_id''), get d (lit ''ledger_id'')) of
              (JStr token, JStr domain, JStr ledger) \<Rightarrow>
                (case verify_authority_admission K I nfkc roots domain ledger (evaluated_at, Some 0)
                    (get d (lit ''minimum_version'')) (get d (lit ''expected_previous_hash'')) token of
                   None \<Rightarrow> Failed
                 | Some a \<Rightarrow>
                     if list_ex (py_eq (get d (lit ''origin_grant_hash''))) (admitted_hashes a) then Established else Failed)
            | _ \<Rightarrow> Failed)"

section \<open>The receipt\<close>

record receipt_credentials =
  rc_valid :: bool
  rc_delegation :: bool
  rc_approval :: bool
  rc_escalation :: bool
  rc_actor :: bool
  rc_origin :: origin_status

definition unverified :: receipt_credentials where
  "unverified = \<lparr>rc_valid = False, rc_delegation = False, rc_approval = False, rc_escalation = False, rc_actor = False,
     rc_origin = Not_Established\<rparr>"

text \<open>The time of the decision, if the receipt can be checked at all.\<close>

definition profile_ok :: "json \<Rightarrow> exc + bool" where
  "profile_ok v = (if v = JNull then Inr True else one_of [''live'', ''simulation'', ''nonconsequential''] v)"

definition readable_time :: "(pystr, json) dict \<Rightarrow> exc + instant option" where
  "readable_time receipt =
     (case credential_time receipt of
        Inr t \<Rightarrow> Inr (Some t) | Inl e \<Rightarrow> if e \<in> {TypeError, ValueError} then Inr None else Inl e)"

definition receipt_time :: "(pystr, json) dict \<Rightarrow> (pystr, json) dict \<Rightarrow> exc + instant option" where
  "receipt_time receipt evidence =
     bnd (one_of supported_evidence_schema_versions (get evidence (lit ''schema_version''))) (\<lambda>version_known.
     if \<not> version_known then Inr None
     else bnd (profile_ok (get evidence (lit ''execution_profile''))) (\<lambda>profile_known.
       if \<not> profile_known then Inr None else readable_time receipt))"

text \<open>Whether a foreign dispatch stands for the actor proof; \<open>None\<close> where it was to be checked and does not hold.\<close>

definition foreign_standing ::
  "crypto \<Rightarrow> interp \<Rightarrow> (pystr \<Rightarrow> pystr) \<Rightarrow> authority_admission option \<Rightarrow> instant \<Rightarrow> (pystr, json) dict \<Rightarrow> (pystr, json) dict
    \<Rightarrow> exc + bool option" where
  "foreign_standing K I nfkc foreign_admission evaluated_at receipt evidence =
     (case foreign_admission of
        None \<Rightarrow> Inr (Some False)
      | Some a \<Rightarrow>
          if get evidence (lit ''foreign_dispatch'') = JNull then Inr (Some False)
          else bnd (verify_foreign_dispatch K I nfkc a (evaluated_at, Some 0) receipt) (\<lambda>found.
            Inr (case found of None \<Rightarrow> None | Some dispatch \<Rightarrow> Some True)))"

definition proof_presence_ok :: "(pystr, json) dict \<Rightarrow> bool \<Rightarrow> bool" where
  "proof_presence_ok evidence foreign \<longleftrightarrow>
     (if foreign then get evidence (lit ''actor_proof'') = JNull
      else (get evidence (lit ''schema_version'') \<in> {JStr (lit ''5''), JStr (lit ''6'')}
          \<or> get evidence (lit ''execution_profile'') = JStr (lit ''live''))
        \<longrightarrow> as_obj (get evidence (lit ''actor_proof'')) \<noteq> None)"

text \<open>The arguments of the verifier, as mappings where the source tests for one.\<close>

record credential_request =
  cq_printed :: "json \<Rightarrow> pystr"
  cq_roots :: trust_roots
  cq_registration_keys :: json
  cq_escalation :: "(pystr, json) dict option"
  cq_audience :: "pystr option"
  cq_admission_roots :: "trust_roots option"
  cq_foreign :: "authority_admission option"

definition checked_credentials ::
  "crypto \<Rightarrow> interp \<Rightarrow> (pystr \<Rightarrow> pystr) \<Rightarrow> credential_request \<Rightarrow> instant \<Rightarrow> bool \<Rightarrow> (pystr, json) dict
    \<Rightarrow> exc + receipt_credentials" where
  "checked_credentials K I nfkc q at foreign receipt =
     (let roots = cq_roots q; ks = cq_registration_keys q in
      bnd (if foreign then Inr True else verify_retained_actor_proof (cq_printed q) K I roots ks (cq_audience q) at receipt) (\<lambda>actor.
      bnd (verify_delegation K I roots ks at receipt) (\<lambda>(delegation, unbroken).
      bnd (verify_approval K I roots ks at (cq_escalation q) receipt) (\<lambda>(approval, linked, clean).
      let origin = origin_admission K I nfkc (cq_admission_roots q) at (obj_or_empty (get receipt (lit ''evidence'')))
      in Inr \<lparr>rc_valid = (delegation \<and> approval \<and> linked \<and> actor \<and> unbroken \<and> clean \<and> origin \<noteq> Failed),
           rc_delegation = delegation, rc_approval = approval, rc_escalation = linked, rc_actor = actor, rc_origin = origin\<rparr>))))"

definition verify_receipt_credentials ::
  "crypto \<Rightarrow> interp \<Rightarrow> (pystr \<Rightarrow> pystr) \<Rightarrow> credential_request \<Rightarrow> (pystr, json) dict \<Rightarrow> exc + receipt_credentials" where
  "verify_receipt_credentials K I nfkc q receipt =
     (let evidence = obj_or_empty (get receipt (lit ''evidence'')) in
      if cq_registration_keys q \<noteq> JNull \<and> as_obj (cq_registration_keys q) = None then Inr unverified
      else bnd (receipt_time receipt evidence) (\<lambda>moment.
        case moment of
          None \<Rightarrow> Inr unverified
        | Some at \<Rightarrow>
            bnd (foreign_standing K I nfkc (cq_foreign q) at receipt evidence) (\<lambda>standing.
            case standing of
              None \<Rightarrow> Inr unverified
            | Some foreign \<Rightarrow>
                if proof_presence_ok evidence foreign then checked_credentials K I nfkc q at foreign receipt
                else Inr unverified)))"

end
