(* ===== verification/Execution_Authority.thy ===== *)
theory Execution_Authority
  imports Receipt_Credentials
begin

text \<open>
  \<open>verify_execution_authority\<close> of the module \<open>admission.py\<close>: the twelve checks of a retained live
  receipt of evidence schema 5 or 6. An early return keeps the checks passed so far; the verdict is
  that no error was collected and every check passed.
\<close>

section \<open>The result\<close>

datatype authority_check =
    Profile | Receipt_Time | Admission_Evidence | Request_Artifact_Binding | Enforcement_Point_Binding | Configuration
  | Resource_Binding | Retained_Credentials | Delegation_Path | Holder_Request | Revocation_Status | Cumulative_Status

definition authority_checks :: "authority_check list" where
  "authority_checks = [Profile, Receipt_Time, Admission_Evidence, Request_Artifact_Binding, Enforcement_Point_Binding,
     Configuration, Resource_Binding, Retained_Credentials, Delegation_Path, Holder_Request, Revocation_Status,
     Cumulative_Status]"

record execution_authority =
  ea_valid :: bool
  ea_passed :: "authority_check list"

definition stopped :: "authority_check list \<Rightarrow> exc + execution_authority" where
  "stopped passed = Inr \<lparr>ea_valid = False, ea_passed = passed\<rparr>"

definition check_if :: "bool \<Rightarrow> authority_check \<Rightarrow> authority_check list" where
  "check_if holds c = (if holds then [c] else [])"

text \<open>What the caller accepts; the receipt does not choose it.\<close>

record authority_request =
  aq_roots :: trust_roots
  aq_domain :: pystr
  aq_ledger :: pystr
  aq_minimum :: json
  aq_previous :: json
  aq_floor :: json
  aq_escalation :: "(pystr, json) dict option"
  aq_printed :: "json \<Rightarrow> pystr"

section \<open>The retained admission\<close>

definition retained_admission_fields :: "string list" where
  "retained_admission_fields = [''artifact'', ''admission_hash'', ''trust_configuration_hash'', ''domain_id'', ''ledger_id'',
     ''enforcement_point_id'', ''minimum_version'', ''expected_previous_hash'', ''revocation_epoch_floor'',
     ''origin_grant_hash'', ''origin_artifacts'', ''verification_configuration'', ''resource_binding'']"

definition admission_point :: "authority_admission \<Rightarrow> json" where
  "admission_point a = get (ad_claims a) (lit ''enforcement_point_id'')"

definition admission_summary_matches :: "authority_request \<Rightarrow> authority_admission \<Rightarrow> (pystr, json) dict \<Rightarrow> bool" where
  "admission_summary_matches q a d \<longleftrightarrow>
     get d (lit ''admission_hash'') = JStr (ad_hash a) \<and> get d (lit ''trust_configuration_hash'') = JStr (ad_trust_hash a)
     \<and> get d (lit ''domain_id'') = JStr (aq_domain q) \<and> get d (lit ''ledger_id'') = JStr (aq_ledger q)
     \<and> get d (lit ''enforcement_point_id'') = admission_point a
     \<and> py_eq (get d (lit ''minimum_version'')) (aq_minimum q)
     \<and> py_eq (get d (lit ''expected_previous_hash'')) (aq_previous q)
     \<and> py_eq (get d (lit ''revocation_epoch_floor'')) (aq_floor q)"

definition consumption_version :: "json \<Rightarrow> bool" where
  "consumption_version version \<longleftrightarrow> version = JStr (lit ''6'')"

definition admission_fields_match :: "json \<Rightarrow> (pystr, json) dict \<Rightarrow> bool" where
  "admission_fields_match version d \<longleftrightarrow>
     keys_exact d (map lit (retained_admission_fields
       @ (if consumption_version version then [''max_actor_proof_age_seconds''] else [])))"

text \<open>The two errors of a schema-6 receipt that no check of its own records.\<close>

definition admission_serves_version :: "json \<Rightarrow> authority_admission \<Rightarrow> (pystr, json) dict \<Rightarrow> bool" where
  "admission_serves_version version a d \<longleftrightarrow>
     (consumption_version version \<longrightarrow>
        among [2, 3, 4, admission_schema_version] (admission_version a)
        \<and> py_eq (get d (lit ''max_actor_proof_age_seconds'')) (get (ad_claims a) (lit ''max_actor_proof_age_seconds'')))"

definition configuration_matches :: "interp \<Rightarrow> authority_admission \<Rightarrow> (pystr, json) dict \<Rightarrow> bool" where
  "configuration_matches I a d =
     (case get d (lit ''verification_configuration'') of
        JObj configuration \<Rightarrow>
          keys_exact configuration (map lit (configuration_fields (ad_claims a)))
          \<and> admission_configuration_matches I a configuration
      | _ \<Rightarrow> False)"

definition binding_matches ::
  "interp \<Rightarrow> authority_admission \<Rightarrow> (pystr, json) dict \<Rightarrow> (pystr, json) dict \<Rightarrow> (pystr, json) dict \<Rightarrow> bool" where
  "binding_matches I a d receipt evidence =
     (case retained_request_adapter receipt evidence of
        None \<Rightarrow> False
      | Some adapter \<Rightarrow>
          same_json I (get d (lit ''resource_binding'')) (get (ad_claims a) (lit ''resource_binding''))
          \<and> get (claims_obj a ''resource_binding'') (lit ''adapter_id'') = JStr adapter)"

definition admission_checks ::
  "interp \<Rightarrow> authority_request \<Rightarrow> authority_admission \<Rightarrow> json \<Rightarrow> (pystr, json) dict \<Rightarrow> (pystr, json) dict
    \<Rightarrow> (pystr, json) dict \<Rightarrow> authority_check list" where
  "admission_checks I q a version d receipt evidence =
     check_if (admission_summary_matches q a d \<and> admission_fields_match version d) Admission_Evidence
     @ check_if (get d (lit ''enforcement_point_id'') = admission_point a) Enforcement_Point_Binding
     @ check_if (configuration_matches I a d) Configuration
     @ check_if (binding_matches I a d receipt evidence) Resource_Binding"

section \<open>The foreign dispatch and the path\<close>

text \<open>\<open>None\<close> where the dispatch is refused, else whether there is one.\<close>

definition foreign_evidence ::
  "crypto \<Rightarrow> interp \<Rightarrow> (pystr \<Rightarrow> pystr) \<Rightarrow> authority_admission \<Rightarrow> instant \<Rightarrow> (pystr, json) dict \<Rightarrow> (pystr, json) dict
    \<Rightarrow> exc + bool option" where
  "foreign_evidence K I nfkc a at receipt evidence =
     (let present = (get evidence (lit ''foreign_dispatch'') \<noteq> JNull);
          hashed = (get (obj_or_empty (get evidence (lit ''hashes''))) (lit ''foreign_dispatch_hash'') \<noteq> JNull)
      in if present \<noteq> hashed then Inr None
         else if \<not> present then Inr (Some False)
         else bnd (verify_foreign_dispatch K I nfkc a (at, Some 0) receipt) (\<lambda>found.
           Inr (if found = None \<or> get evidence (lit ''actor_proof'') \<noteq> JNull then None else Some True)))"

definition entry_artifact :: "json \<Rightarrow> pystr option" where
  "entry_artifact v = (case v of JObj d \<Rightarrow> evidence_artifact d | _ \<Rightarrow> None)"

text \<open>The leaf, the parents with their retained blocks, and the origin files, if all are present.\<close>

record retained_path =
  rp_leaf :: pystr
  rp_parents :: "pystr list"
  rp_entries :: "json list"
  rp_status :: json
  rp_files :: "(pystr, pybytes) dict"

definition retained_path_of :: "(pystr, json) dict \<Rightarrow> (pystr, json) dict \<Rightarrow> exc + retained_path option" where
  "retained_path_of receipt d =
     (case get receipt (lit ''delegation'') of
        JObj delegation \<Rightarrow>
          (case get delegation (lit ''credential_chain'') of
             JList entries \<Rightarrow>
               bnd (artifact_bytes (get d (lit ''origin_artifacts''))) (\<lambda>files.
               Inr (case (evidence_artifact delegation, those (map entry_artifact entries), files) of
                   (Some leaf, Some parents, Some fs) \<Rightarrow>
                     Some \<lparr>rp_leaf = leaf, rp_parents = parents, rp_entries = entries,
                       rp_status = get delegation (lit ''revocation_status''), rp_files = fs\<rparr>
                 | _ \<Rightarrow> None))
           | _ \<Rightarrow> Inr None)
      | _ \<Rightarrow> Inr None)"

definition path_admitted ::
  "crypto \<Rightarrow> interp \<Rightarrow> authority_admission \<Rightarrow> instant \<Rightarrow> (pystr, json) dict \<Rightarrow> retained_path \<Rightarrow> exc + bool" where
  "path_admitted K I a at d p =
     bnd (verify_admitted_path K I (rp_leaf p) (rp_parents p) (rp_files p) a (at, Some 0)) (\<lambda>origin.
     Inr (case origin of Origin_Valid h \<Rightarrow> get d (lit ''origin_grant_hash'') = JStr h | Origin_Refused h c \<Rightarrow> False))"

section \<open>The native request\<close>

definition native_shape :: "(pystr, json) dict \<Rightarrow> bool" where
  "native_shape request \<longleftrightarrow>
     (case (get request (lit ''actor''), get request (lit ''call'')) of
        (JObj actor, JObj call) \<Rightarrow>
          as_str (get call (lit ''name'')) \<noteq> None
          \<and> (get call (lit ''arguments'') = JNull \<or> as_obj (get call (lit ''arguments'')) \<noteq> None)
      | _ \<Rightarrow> False)
     \<or> (case native_holder request of
          (ident, proof, carries) \<Rightarrow> carries \<and> proof \<noteq> None \<and> has_key request (lit ''authority_envelope_version''))"

definition decision_actor :: "(pystr, json) dict \<Rightarrow> json" where
  "decision_actor receipt = get (receipt_decision receipt) (lit ''actor_id'')"

definition links_match ::
  "interp \<Rightarrow> (pystr, json) dict \<Rightarrow> (pystr, json) dict \<Rightarrow> retained_path \<Rightarrow> (pystr, json) dict \<Rightarrow> bool" where
  "links_match I receipt evidence p request =
     (case (if has_key receipt (lit ''arguments'') then get receipt (lit ''arguments'') else JObj []) of
        JObj arguments \<Rightarrow>
          request_binding_matches I request (text_of (decision_actor receipt)) (Some (rp_leaf p)) (rp_parents p)
            (entry_artifact (get receipt (lit ''approval''))) (get receipt (lit ''tool_name'')) arguments
            (as_obj (get evidence (lit ''actor_proof'')))
      | _ \<Rightarrow> False)"

text \<open>The actor is the subject of the leaf and the holder of the native request.\<close>

definition subject_holds :: "(pystr, json) dict \<Rightarrow> delegation_claims \<Rightarrow> (pystr, json) dict \<Rightarrow> bool" where
  "subject_holds receipt leaf request \<longleftrightarrow>
     native_shape request \<and> decision_actor receipt = JStr (sub leaf) \<and> fst (native_holder request) = JStr (sub leaf)"

definition carried_matches :: "interp \<Rightarrow> (pystr, json) dict \<Rightarrow> (pystr, json) dict \<Rightarrow> bool" where
  "carried_matches I proof request =
     (case native_holder request of
        (ident, carried, carries) \<Rightarrow>
          carries \<longrightarrow> same_json I (case carried of None \<Rightarrow> JNull | Some c \<Rightarrow> JObj c) (JObj (dict_del (lit ''request_hash'') proof)))"

definition holder_proved ::
  "crypto \<Rightarrow> interp \<Rightarrow> authority_request \<Rightarrow> authority_admission \<Rightarrow> instant \<Rightarrow> (pystr, json) dict \<Rightarrow> (pystr, json) dict
    \<Rightarrow> (pystr, json) dict \<Rightarrow> exc + bool" where
  "holder_proved K I q a at receipt proof request =
     bnd (actor_proof_request_hash I request) (\<lambda>h.
     bnd (verify_actor_proof K I (JObj [(lit ''actor_id'', decision_actor receipt), (lit ''actor_proof'', JObj proof)])
        (get (ad_claims a) (lit ''credential_trust_roots'')) h (aq_ledger q) at
        (int_of (get (ad_claims a) (lit ''max_actor_proof_age_seconds'')))
        (get (ad_claims a) (lit ''credential_registration_public_keys''))) (\<lambda>verdict.
     Inr (get proof (lit ''request_hash'') = JStr h \<and> (case verdict of Inl refusal \<Rightarrow> False | Inr actor \<Rightarrow> True))))"

definition holder_holds ::
  "crypto \<Rightarrow> interp \<Rightarrow> authority_request \<Rightarrow> authority_admission \<Rightarrow> instant \<Rightarrow> bool \<Rightarrow> delegation_claims \<Rightarrow> (pystr, json) dict
    \<Rightarrow> (pystr, json) dict \<Rightarrow> exc + bool" where
  "holder_holds K I q a at foreign leaf receipt evidence =
     (case get evidence (lit ''request_envelope'') of
        JObj request \<Rightarrow>
          if foreign then Inr (subject_holds receipt leaf request)
          else (case get evidence (lit ''actor_proof'') of
             JObj proof \<Rightarrow>
               if \<not> subject_holds receipt leaf request \<or> \<not> carried_matches I proof request then Inr False
               else holder_proved K I q a at receipt proof request
           | _ \<Rightarrow> Inr False)
      | _ \<Rightarrow> Inr False)"

section \<open>Revocation\<close>

definition status_roots :: "authority_admission \<Rightarrow> (pystr, json) dict" where
  "status_roots a = claims_obj a ''revocation_attestation_public_keys''"

definition grant_status_ok ::
  "crypto \<Rightarrow> interp \<Rightarrow> authority_request \<Rightarrow> authority_admission \<Rightarrow> instant \<Rightarrow> delegation_claims \<Rightarrow> json \<Rightarrow> exc + bool" where
  "grant_status_ok K I q a at c raw =
     verify_revocation_status K I (status_roots a) (at, 0) (int_of (get (ad_claims a) (lit ''max_revocation_age_ms'')))
       (max_revocation_age_ms c) (int_of (aq_floor q)) (jti c) raw"

definition entry_status :: "json \<Rightarrow> json" where
  "entry_status v = get (obj_or_empty v) (lit ''revocation_status'')"

text \<open>\<open>zip(..., strict=True)\<close> raises where one side ends first.\<close>

fun parent_statuses_ok ::
  "(delegation_claims \<Rightarrow> json \<Rightarrow> exc + bool) \<Rightarrow> json list \<Rightarrow> delegation_claims list \<Rightarrow> exc + bool" where
  "parent_statuses_ok check [] [] = Inr True"
| "parent_statuses_ok check (v # vs) (c # cs) =
     bnd (check c (entry_status v)) (\<lambda>holds. if holds then parent_statuses_ok check vs cs else Inr False)"
| "parent_statuses_ok check _ _ = Inl ValueError"

text \<open>
  Whether every status holds, and the claims of the parents: the chain is walked only where the
  status of the leaf holds.
\<close>

definition path_statuses ::
  "crypto \<Rightarrow> interp \<Rightarrow> authority_request \<Rightarrow> authority_admission \<Rightarrow> instant \<Rightarrow> delegation_claims \<Rightarrow> retained_path
    \<Rightarrow> exc + bool \<times> delegation_claims list" where
  "path_statuses K I q a at leaf p =
     bnd (grant_status_ok K I q a at leaf (rp_status p)) (\<lambda>leaf_ok.
     if \<not> leaf_ok then Inr (False, [])
     else bnd (validate_delegation_chain (chain_at K I (claims_obj a ''credential_trust_roots'') at) leaf (rp_parents p)) (\<lambda>chain.
       bnd (parent_statuses_ok (grant_status_ok K I q a at) (rp_entries p) (parent_claims chain)) (\<lambda>parents_ok.
       if \<not> parents_ok then Inr (False, parent_claims chain)
       else bnd (epoch_regression I (List.map_filter as_obj (rp_status p # map entry_status (rp_entries p)))) (\<lambda>regressed.
         Inr (regressed = None, parent_claims chain)))))"

section \<open>Cumulative accounts\<close>

definition cumulative_ok ::
  "crypto \<Rightarrow> interp \<Rightarrow> authority_admission \<Rightarrow> instant \<Rightarrow> pystr option \<Rightarrow> expected_bound list \<Rightarrow> pystr \<Rightarrow> json \<Rightarrow> exc + bool" where
  "cumulative_ok K I a at entry_hash expected ident rows =
     verify_cumulative_rows K I (claims_obj a ''cumulative_attestation_public_keys'') (at, 0)
       (int_of (get (ad_claims a) (lit ''max_cumulative_age_ms''))) entry_hash expected ident rows"

definition leaf_bounds :: "delegation_claims \<Rightarrow> expected_bound list" where
  "leaf_bounds leaf =
     List.map_filter (\<lambda>b. map_option (\<lambda>w. (bd_kind b, bd_unit b, snd w, bd_aggregation b)) (bd_window b)) (bounds leaf)"

definition leaf_cumulative_ok ::
  "crypto \<Rightarrow> interp \<Rightarrow> authority_admission \<Rightarrow> instant \<Rightarrow> delegation_claims \<Rightarrow> json \<Rightarrow> exc + bool" where
  "leaf_cumulative_ok K I a at leaf rows =
     (if leaf_bounds leaf = [] \<and> rows = JNull then Inr True
      else cumulative_ok K I a at (authority_entry_hash leaf) (leaf_bounds leaf) (jti leaf) rows)"

definition row_owner :: "json \<Rightarrow> json" where
  "row_owner v = get (obj_or_empty (get (obj_or_empty v) (lit ''signed_payload''))) (lit ''jti'')"

definition account_expectation :: "account_row \<Rightarrow> expected_bound" where
  "account_expectation r = (ac_kind r, ac_unit r, ac_duration r, ac_scope r)"

definition entry_scope_ids :: "account_row list \<Rightarrow> pystr option list" where
  "entry_scope_ids rows = remdups (map ac_scope_id (filter (\<lambda>r. ac_scope r = Some (lit ''entry'')) rows))"

text \<open>
  The loop over the owners of the accounts; the rows of an owner are taken off the remaining ones.
  The source visits the owners in the order of a set, which only decides which error comes first.
\<close>

fun owners_ok ::
  "(pystr option \<Rightarrow> expected_bound list \<Rightarrow> pystr \<Rightarrow> json \<Rightarrow> exc + bool) \<Rightarrow> account_row list \<Rightarrow> pystr list \<Rightarrow> json list
    \<Rightarrow> exc + bool" where
  "owners_ok check accounts [] remaining = Inr (remaining = [])"
| "owners_ok check accounts (ident # idents) remaining =
     (let group = filter (\<lambda>r. ac_jti r = ident) accounts; scope_ids = entry_scope_ids group
      in if length scope_ids > 1 then Inr False
         else bnd (check (case scope_ids of [] \<Rightarrow> None | s # _ \<Rightarrow> s) (map account_expectation group) ident
             (JList (filter (\<lambda>v. row_owner v = JStr ident) remaining))) (\<lambda>holds.
           if \<not> holds then Inr False
           else owners_ok check accounts idents (filter (\<lambda>v. row_owner v \<noteq> JStr ident) remaining)))"

text \<open>The accounts the action requires; what the computation raises is an error of its own.\<close>

definition expected_accounts :: "delegation_claims list \<Rightarrow> (pystr, json) dict \<Rightarrow> exc + account_row list" where
  "expected_accounts chain action =
     bnd (expect KeyError (map_of action (lit ''type''))) (\<lambda>t.
     bnd (expect KeyError (map_of action (lit ''boundary''))) (\<lambda>b.
     bnd (expect ValueError (as_str t)) (\<lambda>action_type.
     bnd (expect ValueError (as_str b)) (\<lambda>boundary. required_account_bounds chain action_type boundary))))"

text \<open>Whether the check passes, and whether no error was collected.\<close>

definition accounts_cumulative_ok ::
  "crypto \<Rightarrow> interp \<Rightarrow> authority_admission \<Rightarrow> instant \<Rightarrow> delegation_claims list \<Rightarrow> (pystr, json) dict \<Rightarrow> json
    \<Rightarrow> exc + bool \<times> bool" where
  "accounts_cumulative_ok K I a at chain receipt rows =
     (case get (receipt_decision receipt) (lit ''action'') of
        JObj action \<Rightarrow>
          bnd (case expected_accounts chain action of
              Inr accounts \<Rightarrow> Inr (accounts, True)
            | Inl e \<Rightarrow> if e \<in> {KeyError, TypeError, ValueError} then Inr ([], False) else Inl e) (\<lambda>(accounts, clean).
          if accounts = [] \<and> rows = JNull then Inr (True, clean)
          else (case rows of
             JList vs \<Rightarrow>
               bnd (owners_ok (cumulative_ok K I a at) accounts (remdups (map ac_jti accounts)) vs) (\<lambda>holds.
               Inr (holds, clean \<and> holds))
           | _ \<Rightarrow> Inr (False, False)))
      | _ \<Rightarrow> Inr (False, False))"

definition cumulative_check ::
  "crypto \<Rightarrow> interp \<Rightarrow> authority_admission \<Rightarrow> instant \<Rightarrow> json \<Rightarrow> delegation_claims \<Rightarrow> delegation_claims list
    \<Rightarrow> (pystr, json) dict \<Rightarrow> (pystr, json) dict \<Rightarrow> exc + bool \<times> bool" where
  "cumulative_check K I a at version leaf parents receipt evidence =
     (let rows = get evidence (lit ''cumulative_status'')
      in if consumption_version version then accounts_cumulative_ok K I a at (leaf # parents) receipt rows
         else bnd (leaf_cumulative_ok K I a at leaf rows) (\<lambda>holds. Inr (holds, holds)))"

section \<open>The verification\<close>

definition retained_credentials ::
  "crypto \<Rightarrow> interp \<Rightarrow> (pystr \<Rightarrow> pystr) \<Rightarrow> authority_request \<Rightarrow> authority_admission \<Rightarrow> bool \<Rightarrow> (pystr, json) dict \<Rightarrow> exc + bool" where
  "retained_credentials K I nfkc q a foreign receipt =
     bnd (verify_receipt_credentials K I nfkc
         \<lparr>cq_printed = aq_printed q, cq_roots = claims_obj a ''credential_trust_roots'',
           cq_registration_keys = get (ad_claims a) (lit ''credential_registration_public_keys''),
           cq_escalation = aq_escalation q, cq_audience = Some (aq_ledger q), cq_admission_roots = None,
           cq_foreign = (if foreign then Some a else None)\<rparr> receipt) (\<lambda>c. Inr (rc_valid c))"

text \<open>The checks after the admitted path, with those passed before it.\<close>

definition authority_of_path ::
  "crypto \<Rightarrow> interp \<Rightarrow> (pystr \<Rightarrow> pystr) \<Rightarrow> authority_request \<Rightarrow> authority_admission \<Rightarrow> instant \<Rightarrow> json \<Rightarrow> bool
    \<Rightarrow> (pystr, json) dict \<Rightarrow> (pystr, json) dict \<Rightarrow> retained_path \<Rightarrow> authority_check list \<Rightarrow> bool
    \<Rightarrow> exc + execution_authority" where
  "authority_of_path K I nfkc q a at version foreign receipt evidence p passed faultless =
     bnd (retained_credentials K I nfkc q a foreign receipt) (\<lambda>credentials.
     let passed = passed @ [Delegation_Path] @ check_if credentials Retained_Credentials
     in bnd (parse_delegation K I (claims_obj a ''credential_trust_roots'') (rp_leaf p)) (\<lambda>parsed.
       case parsed of
         None \<Rightarrow> stopped passed
       | Some leaf \<Rightarrow>
           let linked = (case get evidence (lit ''request_envelope'') of
               JObj request \<Rightarrow> links_match I receipt evidence p request | _ \<Rightarrow> False)
           in bnd (holder_holds K I q a at foreign leaf receipt evidence) (\<lambda>holder.
              bnd (path_statuses K I q a at leaf p) (\<lambda>(revocation, parents).
              bnd (cumulative_check K I a at version leaf parents receipt evidence) (\<lambda>(cumulative, unbroken).
              let passed = passed @ check_if linked Request_Artifact_Binding @ check_if holder Holder_Request
                  @ check_if revocation Revocation_Status @ check_if cumulative Cumulative_Status
              in Inr \<lparr>ea_valid = (faultless \<and> unbroken \<and> set passed = set authority_checks), ea_passed = passed\<rparr>)))))"

definition authority_of_admission ::
  "crypto \<Rightarrow> interp \<Rightarrow> (pystr \<Rightarrow> pystr) \<Rightarrow> authority_request \<Rightarrow> authority_admission \<Rightarrow> instant \<Rightarrow> json
    \<Rightarrow> (pystr, json) dict \<Rightarrow> (pystr, json) dict \<Rightarrow> (pystr, json) dict \<Rightarrow> authority_check list
    \<Rightarrow> exc + execution_authority" where
  "authority_of_admission K I nfkc q a at version receipt evidence d passed =
     (let passed = passed @ admission_checks I q a version d receipt evidence
      in bnd (foreign_evidence K I nfkc a at receipt evidence) (\<lambda>standing.
         case standing of
           None \<Rightarrow> stopped passed
         | Some foreign \<Rightarrow>
             bnd (retained_path_of receipt d) (\<lambda>path.
             case path of
               None \<Rightarrow> stopped passed
             | Some p \<Rightarrow>
                 bnd (path_admitted K I a at d p) (\<lambda>admitted.
                 if \<not> admitted then stopped passed
                 else authority_of_path K I nfkc q a at version foreign receipt evidence p passed
                   (admission_serves_version version a d)))))"

definition floor_ok :: "json \<Rightarrow> bool" where
  "floor_ok v = natural v"

definition verify_execution_authority ::
  "crypto \<Rightarrow> interp \<Rightarrow> (pystr \<Rightarrow> pystr) \<Rightarrow> authority_request \<Rightarrow> json \<Rightarrow> exc + execution_authority" where
  "verify_execution_authority K I nfkc q v =
     (if \<not> floor_ok (aq_floor q) then stopped []
      else case v of
        JObj receipt \<Rightarrow>
          (case get receipt (lit ''evidence'') of
             JObj evidence \<Rightarrow>
               (let version = get evidence (lit ''schema_version'');
                    profiled = check_if (get evidence (lit ''execution_profile'') = JStr (lit ''live'')) Profile
                in bnd (one_of [''5'', ''6''] version) (\<lambda>known.
                   if \<not> known then stopped []
                   else bnd (receipt_moment receipt) (\<lambda>moment.
                     case moment of
                       None \<Rightarrow> stopped profiled
                     | Some at \<Rightarrow>
                         let timed = profiled @ [Receipt_Time]; d = obj_or_empty (get evidence (lit ''authority_admission''))
                         in case some_text (get d (lit ''artifact'')) of
                              None \<Rightarrow> stopped timed
                            | Some token \<Rightarrow>
                                (case verify_authority_admission K I nfkc (aq_roots q) (aq_domain q) (aq_ledger q) (at, Some 0)
                                    (aq_minimum q) (aq_previous q) token of
                                   None \<Rightarrow> stopped timed
                                 | Some a \<Rightarrow>
                                     authority_of_admission K I nfkc q a at version receipt evidence d timed))))
           | _ \<Rightarrow> stopped [])
      | _ \<Rightarrow> stopped [])"

end
