(* ===== verification/Admission_Facts.thy ===== *)
theory Admission_Facts
  imports Execution_Authority
begin

text \<open>
  What the verifiers of an admission and of an admitted path accept.
\<close>

section \<open>The admission\<close>

lemma validate_admission_iff:
  "validate_authority_admission_claims K I nfkc d = Inr (from, until) \<longleftrightarrow>
    shape_ok K I nfkc d = Inr True \<and> aware_moment (get d (lit ''nbf'')) = Inr from
    \<and> aware_moment (get d (lit ''exp'')) = Inr until \<and> from \<le> until"
  by (auto simp: validate_authority_admission_claims_def raise_simps)

text \<open>The admission that a token states, without the caller's expectations.\<close>

definition states_admission ::
  "crypto \<Rightarrow> interp \<Rightarrow> (pystr \<Rightarrow> pystr) \<Rightarrow> trust_roots \<Rightarrow> pystr \<Rightarrow> authority_admission \<Rightarrow> bool" where
  "states_admission K I nfkc roots token a \<longleftrightarrow>
     signed_by K I roots admission_context [lit ''ed25519''] token (ad_claims a)
     \<and> shape_ok K I nfkc (ad_claims a) = Inr True
     \<and> aware_moment (get (ad_claims a) (lit ''nbf'')) = Inr (ad_nbf a)
     \<and> aware_moment (get (ad_claims a) (lit ''exp'')) = Inr (ad_exp a) \<and> ad_nbf a \<le> ad_exp a
     \<and> hash_object I (JObj (map (\<lambda>k. (lit k, get (ad_claims a) (lit k))) (configuration_fields (ad_claims a)))) = Inr (ad_trust_hash a)
     \<and> (\<exists>bytes. utf8_encode token = Some bytes \<and> ad_hash a = sha256_hex I bytes)"

lemma admission_from_claims_iff:
  "admission_from_claims K I nfkc domain ledger at minimum previous token d = Inr (Some a) \<longleftrightarrow>
    (\<exists>from until trust_hash bytes. validate_authority_admission_claims K I nfkc d = Inr (from, until)
      \<and> hash_object I (JObj (map (\<lambda>k. (lit k, get d (lit k))) (configuration_fields d))) = Inr trust_hash
      \<and> utf8_encode token = Some bytes \<and> from \<le> at \<and> at \<le> until
      \<and> get d (lit ''domain_id'') = JStr domain \<and> get d (lit ''ledger_id'') = JStr ledger
      \<and> \<not> int_of (get d (lit ''version'')) < int_of minimum
      \<and> (previous = JNull \<or> py_eq (get d (lit ''previous_admission_hash'')) previous)
      \<and> a = \<lparr>ad_claims = d, ad_hash = sha256_hex I bytes, ad_trust_hash = trust_hash, ad_nbf = from, ad_exp = until\<rparr>)"
  unfolding admission_from_claims_def by (auto simp: raise_simps)

lemma signed_roots: "signed_by K I roots context schemes token d \<Longrightarrow> token \<noteq> [] \<and> roots \<noteq> []"
  by (auto simp: signed_by_def split_token_def root_record_def)

text \<open>
  An authority admission is returned exactly if the token states it under an Ed25519 root of the
  caller, with a well-formed shape, a window that covers the comparison time, the caller's domain and
  ledger, a version no lower than the caller's floor and, where the caller names one, the accepted
  predecessor.
\<close>
theorem authority_admission_iff:
  "verify_authority_admission K I nfkc roots domain ledger at minimum previous token = Some a \<longleftrightarrow>
    states_admission K I nfkc roots token a \<and> clean_text domain \<and> clean_text ledger
    \<and> (\<exists>wall off floor. at = (wall, Some off) \<and> ad_nbf a \<le> wall - off \<and> wall - off \<le> ad_exp a
        \<and> minimum = JInt floor \<and> floor > 0 \<and> floor \<le> int_of (get (ad_claims a) (lit ''version'')))
    \<and> get (ad_claims a) (lit ''domain_id'') = JStr domain \<and> get (ad_claims a) (lit ''ledger_id'') = JStr ledger
    \<and> (previous = JNull \<or> py_eq (get (ad_claims a) (lit ''previous_admission_hash'')) previous)"
  (is "?l \<longleftrightarrow> ?r")
proof (cases "(\<exists>wall off. at = (wall, Some off)) \<and> (\<exists>floor. minimum = JInt floor \<and> floor > 0)")
  case True
  then obtain wall off floor where at: "at = (wall, Some off)" "minimum = JInt floor" "floor > 0" by blast
  have "?l \<longleftrightarrow> token \<noteq> [] \<and> roots \<noteq> [] \<and> clean_text domain \<and> clean_text ledger
      \<and> (\<exists>d. verify_slip K I roots admission_context [lit ''ed25519''] token = Some d
          \<and> admission_from_claims K I nfkc domain ledger (wall - off) minimum previous token d = Inr (Some a))"
    using at by (auto simp: verify_authority_admission_def positive_integer_def split: option.splits sum.splits)
  also have "\<dots> \<longleftrightarrow> ?r"
    unfolding verify_slip_signed admission_from_claims_iff validate_admission_iff states_admission_def
    using at by (cases a) (auto dest: signed_roots)
  finally show ?thesis .
next
  case False
  have n: "\<not> ?r" using False by auto
  have "\<not> ?l"
  proof
    assume ?l
    then have p: "positive_integer minimum" "snd at \<noteq> None"
      by (cases at; auto simp: verify_authority_admission_def split: if_splits option.splits)+
    then have "\<exists>floor. minimum = JInt floor \<and> floor > 0"
      by (auto simp: positive_integer_def split: json.splits)
    moreover have "\<exists>wall off. at = (wall, Some off)" using p(2) by (cases at) auto
    ultimately show False using False by blast
  qed
  with n show ?thesis by blast
qed

section \<open>The admitted path\<close>

definition origin_admitted ::
  "crypto \<Rightarrow> interp \<Rightarrow> authority_admission \<Rightarrow> (pystr, pybytes) dict \<Rightarrow> pystr \<Rightarrow> pystr \<Rightarrow> bool" where
  "origin_admitted K I a files token h \<longleftrightarrow>
     (\<exists>bytes grant result. token \<noteq> [] \<and> utf8_encode token = Some bytes \<and> h = sha256_hex I bytes
        \<and> JStr h \<in> set (admitted_hashes a)
        \<and> parse_delegation K I (claims_obj a ''credential_trust_roots'') token = Inr (Some grant)
        \<and> opt_json strs (aud grant) = JList [get (ad_claims a) (lit ''enforcement_point_id'')]
        \<and> map_of files (lit ''grant.slip'') = Some bytes
        \<and> verify_ratification_bundle K I (mapping_source files) (claims_obj a ''credential_trust_roots'')
            (claims_obj a ''revocation_attestation_public_keys'')
            (get (ad_claims a) (lit ''credential_registration_public_keys'')) = Inr result
        \<and> bundle_ok result)"

lemma admitted_origin_iff: "verify_admitted_origin K I token files a = Inr (Origin_Valid h) \<longleftrightarrow> origin_admitted K I a files token h"
  unfolding verify_admitted_origin_def origin_admitted_def Let_def
  by (auto simp: raise_simps split: if_splits option.splits)

text \<open>Every token of the path carries the one signer and, at a Git door, covers the admitted ref.\<close>

definition token_admitted ::
  "crypto \<Rightarrow> interp \<Rightarrow> trust_roots \<Rightarrow> pystr \<Rightarrow> pystr option \<Rightarrow> pystr \<Rightarrow> bool" where
  "token_admitted K I roots signer git_ref token \<longleftrightarrow>
     verified_slip_signer_id K I token roots = Some signer
     \<and> (case git_ref of
          None \<Rightarrow> True
        | Some ref \<Rightarrow> \<exists>c. parse_delegation K I roots token = Inr (Some c) \<and> git_ref_is_covered (JStr ref) (scope_paths c) = Inr True)"

lemma ref_step:
  "bnd parsed (\<lambda>claim. case claim of None \<Rightarrow> Inr (Origin_Refused h' Git_Ref_Not_Covered)
      | Some c \<Rightarrow> bnd (git_ref_is_covered (JStr ref) (scope_paths c)) (\<lambda>covered.
          if covered then rest else Inr (Origin_Refused h' Git_Ref_Not_Covered))) = Inr (Origin_Valid h) \<longleftrightarrow>
    (\<exists>c. parsed = Inr (Some c) \<and> git_ref_is_covered (JStr ref) (scope_paths c) = Inr True) \<and> rest = Inr (Origin_Valid h)"
  unfolding bnd_option by (auto simp: bnd_Inr_iff split: if_splits)

lemma path_signers_step:
  assumes "case known of None \<Rightarrow> True | Some c \<Rightarrow> parse_delegation K I roots t = Inr (Some c)"
  shows "path_signers K I roots signer git_ref origin ((t, known) # ts) = Inr (Origin_Valid h) \<longleftrightarrow>
    token_admitted K I roots signer git_ref t \<and> path_signers K I roots signer git_ref origin ts = Inr (Origin_Valid h)"
proof -
  have p: "(case known of Some c \<Rightarrow> Inr (Some c) | None \<Rightarrow> parse_delegation K I roots t) = parse_delegation K I roots t"
    using assms by (cases known) auto
  show ?thesis
    unfolding path_signers.simps Let_def p ref_step token_admitted_def
    by (cases "verified_slip_signer_id K I t roots"; cases git_ref) (auto simp: ref_step)
qed

lemma path_signers_iff:
  "list_all (\<lambda>(t, known). case known of None \<Rightarrow> True | Some c \<Rightarrow> parse_delegation K I roots t = Inr (Some c)) ts \<Longrightarrow>
    path_signers K I roots signer git_ref origin ts = Inr (Origin_Valid h) \<longleftrightarrow>
      origin = Origin_Valid h \<and> list_all (\<lambda>(t, known). token_admitted K I roots signer git_ref t) ts"
proof (induction ts)
  case (Cons x ts)
  obtain t known where x: "x = (t, known)" by (cases x)
  from Cons show ?case unfolding x list.pred_inject prod.case by (subst path_signers_step) auto
qed simp

lemma origin_step:
  "bnd r (\<lambda>origin. case origin of Origin_Valid g \<Rightarrow> f g origin | Origin_Refused g c \<Rightarrow> Inr origin) = Inr (Origin_Valid h) \<longleftrightarrow>
    (\<exists>g. r = Inr (Origin_Valid g) \<and> f g (Origin_Valid g) = Inr (Origin_Valid h))"
  by (cases r) (auto split: origin_verification.splits)

lemma depth_simps [simp]:
  "chain_valid (accepted_result c ps ss)" "chain_valid (r\<lparr>depth_exceeded := b\<rparr>) = chain_valid r"
  by (simp_all add: accepted_result_def)

lemma chain_within_depth:
  "(\<exists>r. validate_delegation_chain (chain_at K I roots t) leaf ts = Inr r \<and> chain_valid r \<and> \<not> depth_exceeded r) \<longleftrightarrow>
    chain_depth leaf \<le> int max_verification_chain_depth
    \<and> (ts = [] \<or> chain_depth leaf \<le> max_depth leaf)
    \<and> (\<exists>qs. list_all2 (\<lambda>t q. parse_delegation K I roots t = Inr (Some q)) ts qs
        \<and> chain_to_root (chain_at K I roots t) 0 leaf qs)"
proof -
  have e: "(chain_at K I roots t)\<lparr>rule_version := chain_rule_version\<rparr> = chain_at K I roots t"
      "parse_parent (chain_at K I roots t) = parse_delegation K I roots"
    by (simp_all add: chain_at_def)
  show ?thesis
    unfolding validate_delegation_chain_def e conj_assoc [symmetric] walk_accepts by (auto simp: e)
qed

text \<open>
  C2: A path is admitted exactly if its leaf is a current signed delegation whose chain narrows to a
  root within the depth limits, its last token is a grant that the admission lists, addressed to its
  enforcement point alone and backed by a verified ratification bundle that holds the same bytes, and
  every token of the path carries the one Ed25519 signer of that grant and, at a Git door, covers the
  admitted ref.
\<close>
theorem admitted_path_iff:
  "verify_admitted_path K I token parents files a at = Inr (Origin_Valid h) \<longleftrightarrow>
    (\<exists>wall off roots leaf qs signer. at = (wall, Some off) \<and> token \<noteq> [] \<and> [] \<notin> set parents
      \<and> get (ad_claims a) (lit ''credential_trust_roots'') = JObj roots
      \<and> parse_delegation K I roots token = Inr (Some leaf) \<and> nbf leaf \<le> wall - off \<and> wall - off \<le> exp_at leaf
      \<and> chain_depth leaf \<le> int max_verification_chain_depth \<and> (parents = [] \<or> chain_depth leaf \<le> max_depth leaf)
      \<and> list_all2 (\<lambda>t q. parse_delegation K I roots t = Inr (Some q)) parents qs
      \<and> chain_to_root (chain_at K I roots (wall - off)) 0 leaf qs
      \<and> origin_admitted K I a files (last (token # parents)) h
      \<and> verified_slip_signer_id K I (last (token # parents)) roots = Some signer \<and> starts_with signer ed25519_prefix
      \<and> list_all (token_admitted K I roots signer (admitted_git_ref a)) (token # parents))"
  (is "?l \<longleftrightarrow> ?r")
proof (cases "\<exists>wall off roots leaf. at = (wall, Some off) \<and> token \<noteq> [] \<and> [] \<notin> set parents
    \<and> get (ad_claims a) (lit ''credential_trust_roots'') = JObj roots \<and> parse_delegation K I roots token = Inr (Some leaf)
    \<and> nbf leaf \<le> wall - off \<and> wall - off \<le> exp_at leaf")
  case False
  have "\<not> ?l"
    using False by (auto simp: verify_admitted_path_def bnd_option split: prod.splits option.splits if_splits json.splits)
  moreover have "\<not> ?r" using False by blast
  ultimately show ?thesis by blast
next
  case True
  then obtain wall off roots leaf where c: "at = (wall, Some off)" "token \<noteq> []" "[] \<notin> set parents"
      "get (ad_claims a) (lit ''credential_trust_roots'') = JObj roots" "parse_delegation K I roots token = Inr (Some leaf)"
      "nbf leaf \<le> wall - off" "wall - off \<le> exp_at leaf" by blast
  define final where "final = (if parents = [] then token else last parents)"
  have last: "final = last (token # parents)" by (simp add: final_def)
  define steps where "steps = (token, Some leaf) # map (\<lambda>t. (t, None)) parents"
  have signers: "path_signers K I roots signer (admitted_git_ref a) origin steps = Inr (Origin_Valid h) \<longleftrightarrow>
      origin = Origin_Valid h \<and> list_all (token_admitted K I roots signer (admitted_git_ref a)) (token # parents)" for signer origin
    unfolding steps_def by (subst path_signers_iff) (auto simp: c(5) list_all_iff)
  have unfolded: "verify_admitted_path K I token parents files a at =
    bnd (validate_delegation_chain (chain_at K I roots (wall - off)) leaf parents) (\<lambda>chain.
      if \<not> chain_valid chain \<or> depth_exceeded chain then Inr (Origin_Refused None (chain_failure_code (chain_reason chain)))
      else bnd (verify_admitted_origin K I final files a) (\<lambda>origin. case origin of
          Origin_Refused h c \<Rightarrow> Inr origin
        | Origin_Valid h \<Rightarrow> (case verified_slip_signer_id K I final roots of
            None \<Rightarrow> Inr (Origin_Refused (Some h) Delegation_Signature_Invalid)
          | Some signer \<Rightarrow>
              if \<not> starts_with signer ed25519_prefix then Inr (Origin_Refused (Some h) Delegation_Signature_Invalid)
              else path_signers K I roots signer (admitted_git_ref a) origin steps)))"
    using c unfolding verify_admitted_path_def final_def steps_def Let_def by (simp del: path_signers.simps)
  have stop: "bnd r (\<lambda>chain. if \<not> chain_valid chain \<or> depth_exceeded chain then Inr (Origin_Refused None (f chain)) else t)
      = Inr (Origin_Valid h) \<longleftrightarrow> (\<exists>chain. r = Inr chain \<and> chain_valid chain \<and> \<not> depth_exceeded chain) \<and> t = Inr (Origin_Valid h)"
    for r :: "exc + chain_result" and f t
    by (cases r) auto
  have "?l \<longleftrightarrow> (\<exists>chain. validate_delegation_chain (chain_at K I roots (wall - off)) leaf parents = Inr chain
      \<and> chain_valid chain \<and> \<not> depth_exceeded chain)
    \<and> (\<exists>signer. verify_admitted_origin K I final files a = Inr (Origin_Valid h)
        \<and> verified_slip_signer_id K I final roots = Some signer \<and> starts_with signer ed25519_prefix
        \<and> list_all (token_admitted K I roots signer (admitted_git_ref a)) (token # parents))"
    unfolding unfolded stop origin_step by (auto simp: signers split: if_splits option.splits)
  then show ?thesis
    unfolding chain_within_depth admitted_origin_iff last using c by auto
qed

end
