(* ===== verification/Status_Facts.thy ===== *)
theory Status_Facts
  imports Execution_Authority "HOL-Library.Multiset"
begin

text \<open>
  What the status checks of a sealed decision accept: a revocation status that is signed, unrevoked
  and within the smallest of its bounds on both sides of the decision, and cumulative rows that match
  the required accounts one to one.
\<close>

section \<open>Freshness\<close>

definition representable :: "instant \<Rightarrow> bool" where
  "representable t \<longleftrightarrow> 0 \<le> t \<and> t \<le> max_instant"

lemma shifted_iff [raise_simps]: "shifted wall us = Inr t \<longleftrightarrow> representable t \<and> t = wall + us"
  by (auto simp: shifted_def representable_def)

lemma milliseconds_iff [raise_simps]:
  "milliseconds n = Inr us \<longleftrightarrow> \<bar>n div 86400000\<bar> \<le> max_timedelta_days \<and> us = n * 1000"
  by (auto simp: milliseconds_def)

text \<open>A comparison time within \<open>delta\<close> of the decision and of the check before it.\<close>

definition within_window :: "instant \<times> int \<Rightarrow> int \<Rightarrow> instant \<Rightarrow> instant \<Rightarrow> bool" where
  "within_window at delta checked comparison \<longleftrightarrow>
     list_all representable [fst at - delta, fst at + delta, checked + delta]
     \<and> \<bar>comparison - (fst at - snd at)\<bar> \<le> delta \<and> checked \<le> comparison \<and> comparison \<le> checked + delta"

lemma covers_moment_iff: "covers_moment at delta checked comparison = Inr True \<longleftrightarrow> within_window at delta checked comparison"
  unfolding covers_moment_def within_window_def
  by (cases at) (auto simp: raise_simps split: if_splits)

section \<open>Revocation statuses\<close>

lemma bnd_conj: "bnd r (\<lambda>x. Inr (x \<and> P)) = Inr True \<longleftrightarrow> r = Inr True \<and> P"
  by (cases r) auto

definition status_limit :: "int \<Rightarrow> int option \<Rightarrow> int" where
  "status_limit admission_limit grant_limit =
     min admission_limit (case grant_limit of None \<Rightarrow> admission_limit | Some g \<Rightarrow> g)"

lemma status_fresh_iff:
  "status_fresh at admission_limit grant_limit d s = Inr True \<longleftrightarrow>
    (\<exists>stated comparison. freshness_bound_ms s = Some stated \<and> comparison_time at d = Inr (Some comparison)
      \<and> \<bar>min stated (status_limit admission_limit grant_limit) div 86400000\<bar> \<le> max_timedelta_days
      \<and> within_window at (min stated (status_limit admission_limit grant_limit) * 1000) (checked_at s) comparison
      \<and> fst at - snd at - checked_at s \<le> min stated (status_limit admission_limit grant_limit) * 1000)"
  by (cases "freshness_bound_ms s")
    (auto simp: status_fresh_def status_limit_def Let_def bnd_option bnd_conj covers_moment_iff bnd_Inr_iff [of "milliseconds n" for n]
      milliseconds_iff)

lemma status_read_raises: "raises_only {KeyError, TypeError, ValueError, OverflowError} (status_from_evidence d)"
  unfolding status_from_evidence_def parse_dt_def
  by (auto intro!: raises_intros simp: Let_def split: option.splits)

text \<open>
  C4: A revocation status is accepted for a sealed decision exactly if its retained form reads as an
  unrevoked status of this identifier from an available source, attested under the key of its root,
  whose epoch is no lower than the floor, and which was checked before the comparison time, with
  the comparison time and the decision within the smallest of the stated, the admitted and the
  granted bound.
\<close>
theorem revocation_status_iff:
  "verify_revocation_status K I roots at admission_limit grant_limit floor ident raw = Inr True \<longleftrightarrow>
    (\<exists>d s key stated comparison e delta. raw = JObj d
      \<and> status_from_evidence (dict_del (lit ''freshness_evaluated_at'') d) = Inr s
      \<and> get d (lit ''jti'') = JStr ident \<and> \<not> is_revoked s \<and> \<not> ends_with (status_source s) (lit ''_unavailable'')
      \<and> status_public_key roots (status_root s) = Some key \<and> verify_revocation_attestation K I s ident key
      \<and> revocation_epoch s = Some e \<and> floor \<le> e
      \<and> freshness_bound_ms s = Some stated \<and> comparison_time at d = Inr (Some comparison)
      \<and> delta = min stated (status_limit admission_limit grant_limit) * 1000
      \<and> \<bar>delta div 86400000000\<bar> \<le> max_timedelta_days
      \<and> within_window at delta (checked_at s) comparison \<and> fst at - snd at - checked_at s \<le> delta)"
  (is "?ok = Inr True \<longleftrightarrow> ?spec")
proof (cases raw)
  case (JObj d)
  let ?d = "dict_del (lit ''freshness_evaluated_at'') d"
  have g: "get ?d (lit ''jti'') = get d (lit ''jti'')"
    by (simp add: get_def)
  have days: "n * 1000 div 86400000000 = n div 86400000" for n :: int
    by simp
  show ?thesis
  proof (cases "status_from_evidence ?d")
    case (Inl e)
    then show ?thesis
      using JObj raises_onlyD [OF status_read_raises Inl] by (auto simp: verify_revocation_status_def)
  next
    case (Inr s)
    then show ?thesis
      unfolding verify_revocation_status_def JObj json.simps Let_def g days
      by (auto simp: status_signed_def bnd_conj status_fresh_iff not_less split: option.splits)
  qed
qed (simp_all add: verify_revocation_status_def)

section \<open>Cumulative rows\<close>

text \<open>A row that stands for the account of a bound.\<close>

definition row_accounts ::
  "crypto \<Rightarrow> interp \<Rightarrow> (pystr, json) dict \<Rightarrow> instant \<times> int \<Rightarrow> int \<Rightarrow> pystr option \<Rightarrow> pystr \<Rightarrow> json \<Rightarrow> expected_bound \<Rightarrow> bool"
where
  "row_accounts K I roots at age_limit entry_hash ident v b \<longleftrightarrow>
     (\<exists>shown payload att. row_parts v = Some (shown, payload, att) \<and> get payload (lit ''jti'') = JStr ident
        \<and> bound_matches payload entry_hash b \<and> row_repeats shown payload \<and> row_signed K I roots payload att
        \<and> get payload (lit ''admissible'') = JBool True \<and> row_fresh at age_limit shown payload = Inr True)"

lemma dyadic_int_unique: "dyadic_eq a (m, 0) \<Longrightarrow> dyadic_eq a (n, 0) \<Longrightarrow> m = n"
  by (cases a) (auto simp: dyadic_eq_def Let_def)

lemma py_eq_int_unique: "py_eq v (JInt m) \<Longrightarrow> py_eq v (JInt n) \<Longrightarrow> m = n"
  by (cases "(v, JInt m)" rule: py_eq.cases) (auto dest: dyadic_int_unique split: option.splits)

lemma has_key_get: "get d k = JStr t \<Longrightarrow> has_key d k"
  by (auto simp: get_def has_key_def set_keys split: option.splits)

lemma bound_matches_unique: "bound_matches p h b \<Longrightarrow> bound_matches p h c \<Longrightarrow> b = c"
  by (cases b; cases c)
    (auto simp: bound_matches_def dest: py_eq_int_unique has_key_get split: option.splits)

lemma take_bound_Some: "take_bound P bs = Some rest \<Longrightarrow> \<exists>b. P b \<and> mset bs = add_mset b (mset rest)"
proof (induction bs arbitrary: rest)
  case (Cons b bs)
  show ?case
  proof (cases "P b")
    case False
    then obtain rest' where r: "take_bound P bs = Some rest'" "rest = b # rest'"
      using Cons.prems by auto
    then show ?thesis using Cons.IH [OF r(1)] by auto
  qed (use Cons.prems in auto)
qed simp

lemma take_bound_None: "take_bound P bs = None \<longleftrightarrow> (\<forall>b \<in> set bs. \<not> P b)"
  by (induction bs) auto

lemma take_bound_match:
  assumes "bound_matches p h b" "b \<in> set bs"
  obtains rest where "take_bound (bound_matches p h) bs = Some rest" "mset bs = add_mset b (mset rest)"
  using assms take_bound_None [of "bound_matches p h" bs] take_bound_Some [of "bound_matches p h" bs] bound_matches_unique
  by (metis option.exhaust)

lemma cumulative_rows_match:
  "cumulative_rows_ok K I roots at age_limit h ident vs unmatched = Inr True \<longleftrightarrow>
    (\<exists>bs. mset bs \<subseteq># mset unmatched \<and> list_all2 (row_accounts K I roots at age_limit h ident) vs bs)"
proof (induction vs arbitrary: unmatched)
  case (Cons v vs)
  let ?R = "row_accounts K I roots at age_limit h ident"
  show ?case
  proof
    assume "cumulative_rows_ok K I roots at age_limit h ident (v # vs) unmatched = Inr True"
    then obtain shown payload att rest where row: "row_parts v = Some (shown, payload, att)"
        "get payload (lit ''jti'') = JStr ident" "take_bound (bound_matches payload h) unmatched = Some rest"
        "row_repeats shown payload" "row_signed K I roots payload att" "get payload (lit ''admissible'') = JBool True"
        "row_fresh at age_limit shown payload = Inr True"
        "cumulative_rows_ok K I roots at age_limit h ident vs rest = Inr True"
      by (auto simp: raise_simps split: option.splits if_splits)
    obtain b where b: "bound_matches payload h b" "mset unmatched = add_mset b (mset rest)"
      using take_bound_Some [OF row(3)] by blast
    obtain bs where bs: "mset bs \<subseteq># mset rest" "list_all2 ?R vs bs"
      using Cons.IH row(8) by blast
    have "?R v b" using row b(1) by (auto simp: row_accounts_def)
    then have "list_all2 ?R (v # vs) (b # bs)" using bs(2) by simp
    moreover have "mset (b # bs) \<subseteq># mset unmatched" using bs(1) b(2) by simp
    ultimately show "\<exists>bs. mset bs \<subseteq># mset unmatched \<and> list_all2 ?R (v # vs) bs" by blast
  next
    assume "\<exists>bs. mset bs \<subseteq># mset unmatched \<and> list_all2 ?R (v # vs) bs"
    then obtain b bs where bs: "mset (b # bs) \<subseteq># mset unmatched" "?R v b" "list_all2 ?R vs bs"
      by (auto simp: list_all2_Cons1)
    then obtain shown payload att where row: "row_parts v = Some (shown, payload, att)" "bound_matches payload h b"
        "get payload (lit ''jti'') = JStr ident" "row_repeats shown payload" "row_signed K I roots payload att"
        "get payload (lit ''admissible'') = JBool True" "row_fresh at age_limit shown payload = Inr True"
      by (auto simp: row_accounts_def)
    have "b \<in> set unmatched" using mset_subset_eqD [OF bs(1), of b] by simp
    then obtain rest where rest: "take_bound (bound_matches payload h) unmatched = Some rest" "mset unmatched = add_mset b (mset rest)"
      using take_bound_match row(2) by blast
    have "cumulative_rows_ok K I roots at age_limit h ident vs rest = Inr True"
      using Cons.IH bs(1,3) rest(2) by auto
    then show "cumulative_rows_ok K I roots at age_limit h ident (v # vs) unmatched = Inr True"
      using row rest(1) by simp
  qed
qed simp

text \<open>
  C3: The cumulative rows are accepted exactly if they match the required accounts one to one: some
  ordering of the required accounts gives each row an account of its own kind, unit, window and
  scope, and each row repeats a payload that is signed under its root, admissible and fresh at the
  decision.
\<close>
theorem cumulative_rows_iff:
  "verify_cumulative_rows K I roots at age_limit entry_hash expected ident rows = Inr True \<longleftrightarrow>
    (\<exists>vs bs. rows = JList vs \<and> mset bs = mset expected
      \<and> list_all2 (row_accounts K I roots at age_limit entry_hash ident) vs bs)"
proof (cases rows)
  case (JList vs)
  let ?R = "row_accounts K I roots at age_limit entry_hash ident"
  have "length vs = length expected \<and> mset bs \<subseteq># mset expected \<longleftrightarrow> mset bs = mset expected" if "list_all2 ?R vs bs" for bs
    using list_all2_lengthD [OF that] mset_subset_size [of "mset bs" "mset expected"] size_mset
    by (metis nat_neq_iff subset_mset.le_imp_less_or_eq subset_mset.order_refl)
  then show ?thesis
    using cumulative_rows_match [of K I roots at age_limit entry_hash ident vs expected]
    by (auto simp: verify_cumulative_rows_def JList)
qed (simp_all add: verify_cumulative_rows_def)

end
