(* ===== verification/Credential_Facts.thy ===== *)
theory Credential_Facts
  imports Status_Facts
begin

text \<open>
  What the verifiers of a foreign dispatch and of the retained credentials of a receipt accept.
\<close>

section \<open>The one point\<close>

definition point_answers ::
  "crypto \<Rightarrow> interp \<Rightarrow> json \<Rightarrow> pystr \<times> json \<Rightarrow> foreign_candidate \<Rightarrow> bool" where
  "point_answers K I token x c \<longleftrightarrow>
     snd x = JObj (fc_point c) \<and> get (fc_point c) (lit ''public_key'') = JStr (fc_key c)
     \<and> verify_dispatch K I (Inl (fc_key c)) token = Inr (fc_claims c)
     \<and> get (fc_claims c) (lit ''enforcement_point_id'') = JStr (fst x)"

text \<open>A point that has no key, whose key does not verify the token, or whose identifier the token does not state.\<close>

definition point_silent :: "crypto \<Rightarrow> interp \<Rightarrow> json \<Rightarrow> pystr \<times> json \<Rightarrow> bool" where
  "point_silent K I token x \<longleftrightarrow>
     (\<forall>point key. snd x = JObj point \<longrightarrow> get point (lit ''public_key'') = JStr key \<longrightarrow>
        (case verify_dispatch K I (Inl key) token of
           Inl e \<Rightarrow> e \<in> {TypeError, ValueError} | Inr d \<Rightarrow> get d (lit ''enforcement_point_id'') \<noteq> JStr (fst x)))"

lemma candidates_step:
  "point_candidates K I token (x # xs) = Inr cs \<longleftrightarrow>
    (point_silent K I token x \<and> point_candidates K I token xs = Inr cs)
    \<or> (\<exists>c cs'. point_answers K I token x c \<and> point_candidates K I token xs = Inr cs' \<and> cs = c # cs')"
proof (cases "\<exists>point key. snd x = JObj point \<and> get point (lit ''public_key'') = JStr key")
  case False
  obtain ident v where x: "x = (ident, v)" by (cases x)
  have "\<not> point_answers K I token x c" for c using False by (auto simp: point_answers_def)
  moreover have "point_silent K I token x" using False by (auto simp: point_silent_def)
  ultimately show ?thesis using False by (auto simp: x split: json.splits)
next
  case True
  then obtain point key where v: "snd x = JObj point" "get point (lit ''public_key'') = JStr key" by blast
  obtain ident where x: "x = (ident, JObj point)" using v(1) by (cases x) auto
  show ?thesis
  proof (cases "verify_dispatch K I (Inl key) token")
    case (Inl e)
    then show ?thesis using v by (auto simp: x point_answers_def point_silent_def)
  next
    case (Inr d)
    let ?new = "\<lparr>fc_point = point, fc_key = key, fc_claims = d\<rparr>"
    have a: "point_answers K I token x c \<longleftrightarrow> get d (lit ''enforcement_point_id'') = JStr ident \<and> c = ?new" for c
      using v Inr by (cases c) (auto simp: x point_answers_def)
    have s: "point_silent K I token x \<longleftrightarrow> get d (lit ''enforcement_point_id'') \<noteq> JStr ident"
      using v Inr by (simp add: x point_silent_def)
    have "point_candidates K I token (x # xs) =
        bnd (point_candidates K I token xs) (\<lambda>found. Inr (if get d (lit ''enforcement_point_id'') = JStr ident then ?new # found else found))"
      using v Inr by (simp add: x)
    then show ?thesis unfolding a s by (cases "get d (lit ''enforcement_point_id'') = JStr ident") (auto simp: bnd_Inr_iff)
  qed
qed

lemma no_candidates: "point_candidates K I token xs = Inr [] \<longleftrightarrow> list_all (point_silent K I token) xs"
proof (induction xs)
  case (Cons x xs)
  then show ?case by (subst candidates_step) auto
qed simp

lemma split_off:
  "(P x \<and> (\<exists>us y ws. xs = us @ y # ws \<and> Q y \<and> list_all P (us @ ws))) \<or> (Q x \<and> list_all P xs) \<longleftrightarrow>
    (\<exists>us y ws. x # xs = us @ y # ws \<and> Q y \<and> list_all P (us @ ws))" (is "?l \<longleftrightarrow> ?r")
proof
  assume ?l
  then show ?r
  proof
    assume "P x \<and> (\<exists>us y ws. xs = us @ y # ws \<and> Q y \<and> list_all P (us @ ws))"
    then obtain us y ws where "P x" "xs = us @ y # ws" "Q y" "list_all P (us @ ws)" by blast
    then have "x # xs = (x # us) @ y # ws \<and> Q y \<and> list_all P ((x # us) @ ws)" by simp
    then show ?r by blast
  next
    assume "Q x \<and> list_all P xs"
    then have "x # xs = [] @ x # xs \<and> Q x \<and> list_all P ([] @ xs)" by simp
    then show ?r by blast
  qed
next
  assume ?r
  then obtain us y ws where u: "x # xs = us @ y # ws" "Q y" "list_all P (us @ ws)" by blast
  then show ?l by (cases us) auto
qed

lemma one_candidate:
  "point_candidates K I token xs = Inr [c] \<longleftrightarrow>
    (\<exists>others x rest. xs = others @ x # rest \<and> point_answers K I token x c \<and> list_all (point_silent K I token) (others @ rest))"
proof (induction xs)
  case (Cons x xs)
  have "point_candidates K I token (x # xs) = Inr [c] \<longleftrightarrow>
      (point_silent K I token x \<and> point_candidates K I token xs = Inr [c])
      \<or> (point_answers K I token x c \<and> list_all (point_silent K I token) xs)"
    by (subst candidates_step) (simp add: no_candidates)
  also have "\<dots> \<longleftrightarrow> (\<exists>others y rest. x # xs = others @ y # rest \<and> point_answers K I token y c
      \<and> list_all (point_silent K I token) (others @ rest))"
    unfolding Cons.IH by (rule split_off)
  finally show ?case .
qed simp

section \<open>The foreign dispatch\<close>

text \<open>A verification that returns a dispatch, through the sequencing of its steps.\<close>

definition gives :: "exc + foreign_dispatch option \<Rightarrow> foreign_dispatch \<Rightarrow> bool" where
  "gives r v \<longleftrightarrow> r = Inr (Some v)"

lemma gives_simps:
  "\<not> gives (Inr None) v" "gives (Inr (Some w)) v \<longleftrightarrow> w = v"
  "gives (Inr (if b then Some w else None)) v \<longleftrightarrow> b \<and> w = v"
  "gives (bnd r f) v \<longleftrightarrow> (\<exists>x. r = Inr x \<and> gives (f x) v)"
  "gives (case opt of None \<Rightarrow> Inr None | Some y \<Rightarrow> g y) v \<longleftrightarrow> (\<exists>y. opt = Some y \<and> gives (g y) v)"
  "gives (if b then Inr None else t) v \<longleftrightarrow> \<not> b \<and> gives t v"
  by (auto simp: gives_def bnd_Inr_iff split: option.splits)

lemma statuses_hold_iff:
  "length idents = length vs \<Longrightarrow>
    statuses_hold check idents vs = Inr True \<longleftrightarrow> list_all2 (\<lambda>ident v. check ident v = Inr True) idents vs"
  by (induction idents vs rule: list_induct2) (auto simp: bnd_Inr_iff split: if_splits)

definition foreign_status_roots :: "foreign_candidate \<Rightarrow> (pystr, json) dict" where
  "foreign_status_roots c = (case get (fc_point c) (lit ''revocation_trust_roots'') of JObj d \<Rightarrow> d | _ \<Rightarrow> [])"

definition foreign_unrevoked :: "crypto \<Rightarrow> interp \<Rightarrow> foreign_candidate \<Rightarrow> instant \<times> int \<Rightarrow> json \<Rightarrow> bool" where
  "foreign_unrevoked K I c at statuses \<longleftrightarrow>
     (\<exists>jtis epoch age vs. dispatch_revocation_identity (fc_claims c) = Inr (Some (jtis, epoch)) \<and> statuses = JList vs
        \<and> dispatch_max_revocation_age_ms (fc_claims c) = Inr age
        \<and> list_all2 (\<lambda>j v. verify_revocation_status K I (foreign_status_roots c) at
            (int_of (get (fc_point c) (lit ''max_revocation_age_ms''))) age epoch (text_of j) v = Inr True) jtis vs
        \<and> sorted (List.map_filter stated_epoch (List.map_filter as_obj vs)))"

lemma foreign_statuses_iff: "foreign_statuses_hold K I c at statuses = Inr True \<longleftrightarrow> foreign_unrevoked K I c at statuses"
proof (cases "\<exists>jtis epoch vs. dispatch_revocation_identity (fc_claims c) = Inr (Some (jtis, epoch)) \<and> statuses = JList vs
    \<and> length vs = length jtis")
  case False
  then have "\<not> foreign_unrevoked K I c at statuses"
    by (auto simp: foreign_unrevoked_def dest: list_all2_lengthD)
  moreover have "foreign_statuses_hold K I c at statuses \<noteq> Inr True"
    using False by (auto simp: foreign_statuses_hold_def bnd_Inr_iff split: option.splits prod.splits json.splits if_splits)
  ultimately show ?thesis by blast
next
  case True
  then obtain jtis epoch vs where c: "dispatch_revocation_identity (fc_claims c) = Inr (Some (jtis, epoch))" "statuses = JList vs"
      "length vs = length jtis" by blast
  show ?thesis
    unfolding foreign_statuses_hold_def foreign_unrevoked_def foreign_status_roots_def
    by (auto simp: c bnd_Inr_iff Let_def statuses_hold_iff epoch_regression_iff list_all2_map1 split: if_splits)
qed

lemma holds_step:
  "(\<exists>h. foreign_statuses_hold K I c at statuses = Inr h \<and> h \<and> P) \<longleftrightarrow> foreign_unrevoked K I c at statuses \<and> P"
  using foreign_statuses_iff [of K I c at statuses] by auto

lemma true_step: "(\<exists>x. r = Inr x \<and> \<not> \<not> x \<and> Q) \<longleftrightarrow> r = Inr True \<and> Q" "(\<exists>x. r = Inr x \<and> \<not> \<not> (x \<and> P) \<and> Q) \<longleftrightarrow> r = Inr True \<and> P \<and> Q"
  by auto

text \<open>The claims of the dispatch are those of the point, for the customer-delete profile.\<close>

definition point_joined :: "foreign_candidate \<Rightarrow> bool" where
  "point_joined c \<longleftrightarrow>
     py_eq (get (fc_claims c) (lit ''domain_id'')) (get (fc_point c) (lit ''domain_id''))
     \<and> py_eq (get (fc_claims c) (lit ''ledger_id'')) (get (fc_point c) (lit ''ledger_id''))
     \<and> py_eq (get (fc_claims c) (lit ''resource_id'')) (get (fc_point c) (lit ''resource_id''))
     \<and> py_eq (get (fc_claims c) (lit ''resource_binding_hash'')) (get (fc_point c) (lit ''resource_binding_hash''))
     \<and> get (fc_claims c) (lit ''profile'') = JStr (lit ''customer-delete/1'')
     \<and> get (fc_point c) (lit ''profile'') = JStr (lit ''customer-delete/1'')
     \<and> lit ''foreign_dependency'' \<notin> set (keys (fc_claims c))"

text \<open>An admission of version 5 holds the dispatch to the hash of the point's consent chain.\<close>

definition consent_joined :: "interp \<Rightarrow> authority_admission \<Rightarrow> foreign_candidate \<Rightarrow> bool" where
  "consent_joined I a c \<longleftrightarrow>
     get (ad_claims a) (lit ''schema_version'') = JInt 5 \<longrightarrow>
       (\<exists>h. counterparty_consent_hash I (get (fc_point c) (lit ''consent_delegation_token''))
            (get (fc_point c) (lit ''consent_parent_delegation_tokens'')) = Inr h
          \<and> get (fc_claims c) (lit ''counterparty_consent_hash'') = JStr h)"

text \<open>A's point is the actor of B's request, of the decision and of the consumed operation.\<close>

definition actor_joined ::
  "interp \<Rightarrow> foreign_candidate \<Rightarrow> (pystr, json) dict \<Rightarrow> (pystr, json) dict \<Rightarrow> bool" where
  "actor_joined I c receipt request \<longleftrightarrow>
     (\<exists>key actor consumption operation name. from_hex (fc_key c) = Some key \<and> name = JStr (lit ''ed25519:'' @ fc_key c)
        \<and> get request (lit ''actor'') = JObj actor \<and> get actor (lit ''id'') = name
        \<and> get (case get receipt (lit ''decision'') of JObj d \<Rightarrow> d | _ \<Rightarrow> receipt) (lit ''actor_id'') = name
        \<and> get receipt (lit ''consumption'') = JObj consumption \<and> get consumption (lit ''operation'') = JObj operation
        \<and> get operation (lit ''actor_key_fingerprint'') = JStr (sha256_hex I key))"

text \<open>B's request carries A's token, its operation and the consent tokens of the point.\<close>

definition tokens_joined :: "foreign_candidate \<Rightarrow> pystr \<Rightarrow> (pystr, json) dict \<Rightarrow> bool" where
  "tokens_joined c token request \<longleftrightarrow>
     get request (lit ''foreign_dispatch'') = JStr token \<and> get request (lit ''adapter_id'') = JStr (lit ''http'')
     \<and> py_eq (get request (lit ''operation_id'')) (get (fc_claims c) (lit ''operation_id''))
     \<and> py_eq (get request (lit ''delegation_token'')) (get (fc_point c) (lit ''consent_delegation_token''))
     \<and> py_eq (get request (lit ''parent_delegation_tokens'')) (get (fc_point c) (lit ''consent_parent_delegation_tokens''))"

text \<open>The action, its object, the arguments of the call and the dispatch name one deletion at the admitted destination.\<close>

definition action_joined ::
  "interp \<Rightarrow> authority_admission \<Rightarrow> foreign_candidate \<Rightarrow> (pystr, json) dict \<Rightarrow> (pystr, json) dict \<Rightarrow> bool" where
  "action_joined I a c receipt arguments \<longleftrightarrow>
     (\<exists>action target binding place.
        get receipt (lit ''action'') = JObj action \<and> get receipt (lit ''object'') = JObj target
        \<and> get (ad_claims a) (lit ''resource_binding'') = JObj binding
        \<and> place = JStr (py_str I (get binding (lit ''downstream_url'')) @ py_str I (get binding (lit ''downstream_path'')))
        \<and> get binding (lit ''adapter_id'') = JStr (lit ''http'')
        \<and> set (keys arguments) = lit ` {''customer_id'', ''destination'', ''route''}
        \<and> get arguments (lit ''destination'') = place \<and> get target (lit ''id'') = place \<and> get (fc_claims c) (lit ''action_path'') = place
        \<and> py_eq (get arguments (lit ''route'')) (get binding (lit ''downstream_path''))
        \<and> py_eq (get (fc_claims c) (lit ''customer_id'')) (get arguments (lit ''customer_id''))
        \<and> get action (lit ''type'') = JStr (lit ''delete'') \<and> get (fc_claims c) (lit ''action_type'') = JStr (lit ''delete'')
        \<and> get action (lit ''boundary'') = JStr (lit ''network_egress'')
        \<and> get (fc_claims c) (lit ''action_boundary'') = JStr (lit ''network_egress'')
        \<and> get target (lit ''domain'') = JStr (lit ''http'') \<and> get (fc_claims c) (lit ''action_domain'') = JStr (lit ''http''))"

text \<open>The dispatch states the hash of the call and the two ends of its window.\<close>

definition payload_joined :: "interp \<Rightarrow> foreign_candidate \<Rightarrow> (pystr, json) dict \<Rightarrow> instant \<Rightarrow> instant \<Rightarrow> bool" where
  "payload_joined I c call from until \<longleftrightarrow>
     (\<exists>bytes. payload_bytes I (JObj call) = Inr bytes \<and> get (fc_claims c) (lit ''payload_hash'') = JStr (sha256_hex I bytes))
     \<and> aware_moment (get (fc_claims c) (lit ''authorized_at'')) = Inr from
     \<and> aware_moment (get (fc_claims c) (lit ''not_after'')) = Inr until"

text \<open>
  The context that the request carries is retained by its hash and approved, under the one root that
  the point selects, for this dispatch, operation, payload, destination and consent.
\<close>

definition context_joined ::
  "crypto \<Rightarrow> interp \<Rightarrow> (pystr \<Rightarrow> pystr) \<Rightarrow> authority_admission \<Rightarrow> foreign_candidate \<Rightarrow> (pystr, json) dict
    \<Rightarrow> (pystr, json) dict \<Rightarrow> pystr \<Rightarrow> instant \<Rightarrow> instant \<times> int \<Rightarrow> bool" where
  "context_joined K I nfkc a c hashes request token_hash until at \<longleftrightarrow>
     (\<exists>context artefact bytes operation selector root_object native why descriptor binding destination consent approved.
        get request (lit ''counterparty_context'') = JObj context \<and> set (keys context) = lit ` {''artifact'', ''operation_hash''}
        \<and> get context (lit ''artifact'') = JStr artefact \<and> utf8_encode artefact = Some bytes
        \<and> get hashes (lit ''counterparty_context_hash'') = JStr (sha256_hex I bytes)
        \<and> get context (lit ''operation_hash'') = operation \<and> hex_text 64 operation
        \<and> get (fc_point c) (lit ''counterparty_context_approval_trust_root_id'') = JStr selector
        \<and> get (claims_obj a ''credential_trust_roots'') selector = JObj root_object
        \<and> get request (lit ''context'') = JObj native \<and> get native (lit ''justification'') = JStr why \<and> why \<noteq> [] \<and> strip why = why
        \<and> counterparty_foreign_descriptor_hash I (JObj (fc_claims c)) = Inr descriptor
        \<and> resource_binding_hash nfkc I (get (ad_claims a) (lit ''resource_binding'')) = Inr binding
        \<and> counterparty_destination_hash I (get (ad_claims a) (lit ''domain_id'')) (get (ad_claims a) (lit ''ledger_id''))
            (get (ad_claims a) (lit ''enforcement_point_id'')) (JStr binding) = Inr destination
        \<and> counterparty_consent_hash I (get (fc_point c) (lit ''consent_delegation_token''))
            (get (fc_point c) (lit ''consent_parent_delegation_tokens'')) = Inr consent
        \<and> verify_counterparty_context K I [(selector, JObj root_object)]
            (JStr token_hash, JStr descriptor, operation, get (fc_claims c) (lit ''payload_hash''), JStr destination, JStr consent)
            (JStr why) (until, Some 0) (fst at, Some (snd at)) artefact = Inr approved)"

definition candidate_joined ::
  "crypto \<Rightarrow> interp \<Rightarrow> (pystr \<Rightarrow> pystr) \<Rightarrow> authority_admission \<Rightarrow> instant \<times> int \<Rightarrow> (pystr, json) dict \<Rightarrow> (pystr, json) dict
    \<Rightarrow> (pystr, json) dict \<Rightarrow> pystr \<Rightarrow> pystr \<Rightarrow> instant \<Rightarrow> foreign_candidate \<Rightarrow> bool" where
  "candidate_joined K I nfkc a at receipt evidence hashes token token_hash until c \<longleftrightarrow>
     point_joined c \<and> consent_joined I a c
     \<and> (\<exists>request call arguments from.
          get evidence (lit ''request_envelope'') = JObj request \<and> get request (lit ''call'') = JObj call
        \<and> get call (lit ''name'') = JStr (lit ''customer.delete'') \<and> get call (lit ''arguments'') = JObj arguments
        \<and> tokens_joined c token request \<and> actor_joined I c receipt request \<and> action_joined I a c receipt arguments
        \<and> payload_joined I c call from until \<and> from \<le> fst at - snd at \<and> fst at - snd at \<le> until
        \<and> context_joined K I nfkc a c hashes request token_hash until at)"

lemma point_joined_iff: "\<not> (has_key (fc_claims c) (lit ''foreign_dependency'') \<or> \<not> point_joins c) \<longleftrightarrow> point_joined c"
  by (auto simp: point_joins_def point_joined_def has_key_def customer_delete_profile_def)

lemma consent_joined_iff: "consent_joins I a c = Inr True \<longleftrightarrow> consent_joined I a c"
  by (auto simp: consent_joins_def consent_joined_def point_consent_hash_def admission_version_def admission_schema_version_def bnd_Inr_iff)

lemma request_call_iff:
  "request_call request = Some (call, arguments) \<longleftrightarrow> get request (lit ''call'') = JObj call
    \<and> get call (lit ''name'') = JStr (lit ''customer.delete'') \<and> get call (lit ''arguments'') = JObj arguments"
  by (auto simp: request_call_def split: json.splits)

lemma actor_joined_iff:
  "from_hex (fc_key c) = Some key \<and> request_actor_joins I c key receipt request \<longleftrightarrow>
    actor_joined I c receipt request \<and> from_hex (fc_key c) = Some key"
proof -
  have obj: "(case v of JObj d \<Rightarrow> P d | _ \<Rightarrow> False) \<longleftrightarrow> (\<exists>d. v = JObj d \<and> P d)" for v P
    by (cases v) auto
  show ?thesis
    unfolding request_actor_joins_def actor_joined_def Let_def obj receipt_decision_def ed25519_prefix_def by auto
qed

lemma tokens_joined_iff: "request_token_joins c token request \<longleftrightarrow> tokens_joined c token request"
  by (simp add: request_token_joins_def tokens_joined_def)

lemma action_joined_iff:
  "action_joined I a c receipt arguments \<longleftrightarrow>
    (\<exists>action target binding. get receipt (lit ''action'') = JObj action \<and> get receipt (lit ''object'') = JObj target
      \<and> get (ad_claims a) (lit ''resource_binding'') = JObj binding \<and> action_joins I c binding action target arguments)"
  by (auto simp: action_joined_def action_joins_def destination_text_def keys_exact_iff Let_def)

lemma bound_request_iff:
  "from_hex (fc_key c) = Some key \<and> bound_request I a c key token receipt evidence = Some (request, call) \<longleftrightarrow>
    from_hex (fc_key c) = Some key \<and> get evidence (lit ''request_envelope'') = JObj request
    \<and> (\<exists>arguments. get request (lit ''call'') = JObj call \<and> get call (lit ''name'') = JStr (lit ''customer.delete'')
        \<and> get call (lit ''arguments'') = JObj arguments \<and> tokens_joined c token request \<and> actor_joined I c receipt request
        \<and> action_joined I a c receipt arguments)"
proof -
  have "bound_request I a c key token receipt evidence = Some (request, call) \<longleftrightarrow>
    get evidence (lit ''request_envelope'') = JObj request
    \<and> (\<exists>arguments. request_call request = Some (call, arguments) \<and> request_token_joins c token request
        \<and> request_actor_joins I c key receipt request \<and> action_joined I a c receipt arguments)"
    unfolding bound_request_def action_joined_iff by (auto split: json.splits option.splits if_splits)
  then show ?thesis
    using actor_joined_iff [of c key I receipt request] unfolding request_call_iff tokens_joined_iff by blast
qed

lemma payload_joined_iff: "dispatch_timing I c call = Inr (Some (from, until)) \<longleftrightarrow> payload_joined I c call from until"
proof -
  have "(case r of Inr window \<Rightarrow> Inr (Some window) | Inl e \<Rightarrow> if e \<in> E then Inr None else Inl e) = Inr (Some w) \<longleftrightarrow> r = Inr w"
    for r :: "exc + instant \<times> instant" and E w
    by (cases r) auto
  then show ?thesis
    unfolding dispatch_timing_def payload_joined_def by (auto simp: raise_simps)
qed

lemma succeeds_iff: "succeeds_but E r = Inr True \<longleftrightarrow> (\<exists>x. r = Inr x)"
  by (auto simp: succeeds_but_def split: sum.splits)

lemma slip_text_iff: "slip_text v = Inr s \<longleftrightarrow> v = JStr s"
  by (auto simp: slip_text_def split: json.splits)

lemma retained_context_iff:
  "retained_context a c hashes request hashed = Some x \<longleftrightarrow>
    (\<exists>context selector native. get request (lit ''counterparty_context'') = JObj context
      \<and> get (fc_point c) (lit selector_key) = JStr selector \<and> get request (lit ''context'') = JObj native
      \<and> set (keys context) = lit ` {''artifact'', ''operation_hash''}
      \<and> get hashes (lit ''counterparty_context_hash'') = opt_json JStr hashed
      \<and> (\<exists>root_object. get (claims_obj a ''credential_trust_roots'') selector = JObj root_object)
      \<and> canonical_text (get native (lit ''justification'')) \<and> (\<exists>s. get context (lit ''operation_hash'') = JStr s)
      \<and> x = \<lparr>fx_artifact = get context (lit ''artifact''), fx_operation_hash = get context (lit ''operation_hash''),
          fx_selector = selector, fx_root = get (claims_obj a ''credential_trust_roots'') selector,
          fx_justification = get native (lit ''justification'')\<rparr>)"
proof -
  have some: "as_obj v \<noteq> None \<longleftrightarrow> (\<exists>d. v = JObj d)" "as_str v \<noteq> None \<longleftrightarrow> (\<exists>s. v = JStr s)" for v
    by (cases v; simp)+
  show ?thesis
    unfolding retained_context_def Let_def some keys_exact_iff by (auto split: json.splits)
qed

lemma context_joined_iff:
  "(\<exists>hashed x. context_artifact_hash I (get request (lit ''counterparty_context'')) = Inr hashed
      \<and> retained_context a c hashes request hashed = Some x
      \<and> context_verifies K I nfkc a c token_hash x until (fst at, Some (snd at)) = Inr True) \<longleftrightarrow>
    context_joined K I nfkc a c hashes request token_hash until at" (is "?l \<longleftrightarrow> ?r")
proof
  assume ?l
  then obtain hashed ctx selector native root_object s where h:
      "context_artifact_hash I (JObj ctx) = Inr hashed" "get request (lit ''counterparty_context'') = JObj ctx"
      "get (fc_point c) (lit selector_key) = JStr selector" "get request (lit ''context'') = JObj native"
      "set (keys ctx) = lit ` {''artifact'', ''operation_hash''}"
      "get hashes (lit ''counterparty_context_hash'') = opt_json JStr hashed"
      "get (claims_obj a ''credential_trust_roots'') selector = JObj root_object"
      "canonical_text (get native (lit ''justification''))" "get ctx (lit ''operation_hash'') = JStr s"
      "context_verifies K I nfkc a c token_hash \<lparr>fx_artifact = get ctx (lit ''artifact''),
          fx_operation_hash = get ctx (lit ''operation_hash''), fx_selector = selector,
          fx_root = get (claims_obj a ''credential_trust_roots'') selector,
          fx_justification = get native (lit ''justification'')\<rparr> until (fst at, Some (snd at)) = Inr True"
    unfolding retained_context_iff by auto
  from h(10) obtain artefact where a: "get ctx (lit ''artifact'') = JStr artefact"
    unfolding context_verifies_def Let_def succeeds_iff by (auto simp: raise_simps slip_text_iff)
  with h(1) obtain bs where b: "utf8_encode artefact = Some bs" "hashed = Some (sha256_hex I bs)"
    by (auto simp: context_artifact_hash_def raise_simps)
  obtain why where w: "get native (lit ''justification'') = JStr why" "why \<noteq> []" "strip why = why"
    using h(8) by (auto simp: canonical_text_def split: json.splits)
  show ?r
    unfolding context_joined_def
    using h a b w by (auto simp: context_verifies_def Let_def succeeds_iff raise_simps slip_text_iff selector_key_def point_consent_hash_def)
next
  assume ?r
  then obtain ctx artefact bs operation selector root_object native why descriptor binding destination consent approved where h:
      "get request (lit ''counterparty_context'') = JObj ctx" "set (keys ctx) = lit ` {''artifact'', ''operation_hash''}"
      "get ctx (lit ''artifact'') = JStr artefact" "utf8_encode artefact = Some bs"
      "get hashes (lit ''counterparty_context_hash'') = JStr (sha256_hex I bs)"
      "get ctx (lit ''operation_hash'') = operation" "hex_text 64 operation"
      "get (fc_point c) (lit ''counterparty_context_approval_trust_root_id'') = JStr selector"
      "get (claims_obj a ''credential_trust_roots'') selector = JObj root_object"
      "get request (lit ''context'') = JObj native" "get native (lit ''justification'') = JStr why" "why \<noteq> []" "strip why = why"
      and v: "counterparty_foreign_descriptor_hash I (JObj (fc_claims c)) = Inr descriptor"
      "resource_binding_hash nfkc I (get (ad_claims a) (lit ''resource_binding'')) = Inr binding"
      "counterparty_destination_hash I (get (ad_claims a) (lit ''domain_id'')) (get (ad_claims a) (lit ''ledger_id''))
            (get (ad_claims a) (lit ''enforcement_point_id'')) (JStr binding) = Inr destination"
      "counterparty_consent_hash I (get (fc_point c) (lit ''consent_delegation_token''))
            (get (fc_point c) (lit ''consent_parent_delegation_tokens'')) = Inr consent"
      "verify_counterparty_context K I [(selector, JObj root_object)]
            (JStr token_hash, JStr descriptor, operation, get (fc_claims c) (lit ''payload_hash''), JStr destination, JStr consent)
            (JStr why) (until, Some 0) (fst at, Some (snd at)) artefact = Inr approved"
    unfolding context_joined_def by (elim exE conjE) (rule that; assumption)
  let ?x = "\<lparr>fx_artifact = JStr artefact, fx_operation_hash = operation, fx_selector = selector, fx_root = JObj root_object,
      fx_justification = JStr why\<rparr>"
  have "\<exists>s. operation = JStr s" using h(7) by (cases operation) (simp_all add: hex_text_def)
  then have "retained_context a c hashes request (Some (sha256_hex I bs)) = Some ?x"
    unfolding retained_context_iff using h by (simp add: selector_key_def canonical_text_def)
  moreover have "context_artifact_hash I (get request (lit ''counterparty_context'')) = Inr (Some (sha256_hex I bs))"
    using h by (simp add: context_artifact_hash_def)
  moreover have "context_verifies K I nfkc a c token_hash ?x until (fst at, Some (snd at)) = Inr True"
    unfolding context_verifies_def Let_def succeeds_iff
    using h(7) v by (auto simp: raise_simps slip_text_iff point_consent_hash_def)
  ultimately show ?l by blast
qed

lemma candidate_iff:
  "gives (candidate_verifies K I nfkc a at receipt evidence hashes token token_hash statuses c) r \<longleftrightarrow>
    fd_hash r = token_hash
    \<and> candidate_joined K I nfkc a at receipt evidence hashes token token_hash (fd_not_after r) c
    \<and> foreign_unrevoked K I c at statuses
    \<and> (fd_consent_checked r \<longleftrightarrow> get (ad_claims a) (lit ''schema_version'') = JInt 5)"
proof -
  have "gives (candidate_verifies K I nfkc a at receipt evidence hashes token token_hash statuses c) r \<longleftrightarrow>
    point_joined c \<and> consent_joined I a c
    \<and> (\<exists>key request call from until. (from_hex (fc_key c) = Some key
          \<and> bound_request I a c key token receipt evidence = Some (request, call))
        \<and> dispatch_timing I c call = Inr (Some (from, until))
        \<and> (\<exists>hashed x. context_artifact_hash I (get request (lit ''counterparty_context'')) = Inr hashed
            \<and> retained_context a c hashes request hashed = Some x
            \<and> context_verifies K I nfkc a c token_hash x until (fst at, Some (snd at)) = Inr True)
        \<and> from \<le> fst at - snd at \<and> fst at - snd at \<le> until \<and> foreign_unrevoked K I c at statuses
        \<and> \<lparr>fd_hash = token_hash, fd_not_after = until,
            fd_consent_checked = (admission_version a = JInt admission_schema_version)\<rparr> = r)"
    unfolding candidate_verifies_def gives_simps split_paired_Ex prod.case true_step holds_step point_joined_iff [symmetric]
      consent_joined_iff [symmetric] expect_Inr_iff
    by (auto; blast)
  also have "\<dots> \<longleftrightarrow> fd_hash r = token_hash
    \<and> candidate_joined K I nfkc a at receipt evidence hashes token token_hash (fd_not_after r) c
    \<and> foreign_unrevoked K I c at statuses
    \<and> (fd_consent_checked r \<longleftrightarrow> get (ad_claims a) (lit ''schema_version'') = JInt 5)"
    unfolding bound_request_iff payload_joined_iff context_joined_iff candidate_joined_def admission_version_def
      admission_schema_version_def
    by (cases r) (auto simp: actor_joined_def; blast)
  finally show ?thesis .
qed

text \<open>
  The dispatch is retained with its statuses and the admitted counterparty points, for an admission of
  version 4 or 5, and named by its hash.
\<close>

definition dispatch_retained ::
  "interp \<Rightarrow> authority_admission \<Rightarrow> (pystr, json) dict \<Rightarrow> pystr \<Rightarrow> json \<Rightarrow> (pystr, json) dict \<Rightarrow> (pystr, json) dict
    \<Rightarrow> pystr \<Rightarrow> bool" where
  "dispatch_retained I a evidence token statuses hashes points token_hash \<longleftrightarrow>
     (py_eq (get (ad_claims a) (lit ''schema_version'')) (JInt 4) \<or> py_eq (get (ad_claims a) (lit ''schema_version'')) (JInt 5))
     \<and> (\<exists>shown bytes. get evidence (lit ''foreign_dispatch'') = JObj shown
          \<and> set (keys shown) = lit ` {''artifact'', ''revocation_statuses'', ''trusted_counterparty_points''}
          \<and> get shown (lit ''artifact'') = JStr token \<and> token \<noteq> [] \<and> utf8_encode token = Some bytes
          \<and> token_hash = sha256_hex I bytes \<and> get shown (lit ''revocation_statuses'') = statuses
          \<and> same_json I (get shown (lit ''trusted_counterparty_points'')) (JObj points))
     \<and> get (ad_claims a) (lit ''trusted_counterparty_points'') = JObj points
     \<and> get evidence (lit ''hashes'') = JObj hashes \<and> get hashes (lit ''foreign_dispatch_hash'') = JStr token_hash
     \<and> get evidence (lit ''actor_proof'') = JNull"

lemma dispatch_retained_iff:
  "dispatch_retained I a evidence token statuses hashes points token_hash \<longleftrightarrow>
    among counterparty_schema_versions (admission_version a)
    \<and> admitted_foreign I a evidence = Some (JStr token, statuses, hashes, points)
    \<and> (\<exists>bytes. utf8_encode token = Some bytes \<and> token \<noteq> [] \<and> token_hash = sha256_hex I bytes
        \<and> get hashes (lit ''foreign_dispatch_hash'') = JStr (sha256_hex I bytes))"
  unfolding dispatch_retained_def admitted_foreign_def among_def counterparty_schema_versions_def admission_version_def
    keys_exact_iff
  by (auto split: json.splits if_splits)

text \<open>
  C6: A dispatch of organisation A is accepted at B exactly if it is retained with the admitted points,
  one admitted point alone verifies the token and is named by it, the dispatch nests no other and
  joins that point, its consent chain, the canonical request of B, its payload and its actor, the
  retained context is approved under the selected root, the decision lies in the window of the
  dispatch, and every identifier has a verified status whose epochs never fall.
\<close>
theorem foreign_dispatch_iff:
  "verify_foreign_dispatch K I nfkc a at receipt = Inr (Some r) \<longleftrightarrow>
    (\<exists>wall off evidence token statuses hashes points others x rest c.
       at = (wall, Some off) \<and> get receipt (lit ''evidence'') = JObj evidence
       \<and> dispatch_retained I a evidence token statuses hashes points (fd_hash r)
       \<and> points = others @ x # rest \<and> point_answers K I (JStr token) x c
       \<and> list_all (point_silent K I (JStr token)) (others @ rest)
       \<and> candidate_joined K I nfkc a (wall, off) receipt evidence hashes token (fd_hash r) (fd_not_after r) c
       \<and> foreign_unrevoked K I c (wall, off) statuses
       \<and> (fd_consent_checked r = (get (ad_claims a) (lit ''schema_version'') = JInt 5)))"
proof (cases "\<exists>wall off evidence token statuses hashes points. at = (wall, Some off) \<and> get receipt (lit ''evidence'') = JObj evidence
    \<and> among counterparty_schema_versions (admission_version a)
    \<and> admitted_foreign I a evidence = Some (JStr token, statuses, hashes, points)")
  case False
  then have "\<not> gives (verify_foreign_dispatch K I nfkc a at receipt) r"
    by (auto simp: verify_foreign_dispatch_def gives_simps split: prod.splits option.splits json.splits)
  then show ?thesis using False unfolding gives_def dispatch_retained_iff by blast
next
  case True
  then obtain wall off evidence token statuses hashes points where c: "at = (wall, Some off)"
      "get receipt (lit ''evidence'') = JObj evidence" "among counterparty_schema_versions (admission_version a)"
      "admitted_foreign I a evidence = Some (JStr token, statuses, hashes, points)" by blast
  have one: "gives (case found of [c] \<Rightarrow> f c | _ \<Rightarrow> Inr None) r \<longleftrightarrow> (\<exists>c. found = [c] \<and> gives (f c) r)" for found f
    by (auto simp: gives_simps split: list.splits)
  have unfolded: "verify_foreign_dispatch K I nfkc a at receipt =
    bnd (expect ValueError (utf8_encode token)) (\<lambda>bytes.
      if token = [] \<or> get hashes (lit ''foreign_dispatch_hash'') \<noteq> JStr (sha256_hex I bytes) then Inr None
      else bnd (point_candidates K I (JStr token) points) (\<lambda>found.
        case found of
          [c] \<Rightarrow> candidate_verifies K I nfkc a (wall, off) receipt evidence hashes token (sha256_hex I bytes) statuses c
        | _ \<Rightarrow> Inr None))"
    by (simp add: verify_foreign_dispatch_def c Let_def)
  have found: "gives (verify_foreign_dispatch K I nfkc a at receipt) r \<longleftrightarrow>
    dispatch_retained I a evidence token statuses hashes points (fd_hash r)
    \<and> (\<exists>c. point_candidates K I (JStr token) points = Inr [c]
       \<and> candidate_joined K I nfkc a (wall, off) receipt evidence hashes token (fd_hash r) (fd_not_after r) c
       \<and> foreign_unrevoked K I c (wall, off) statuses
       \<and> (fd_consent_checked r = (get (ad_claims a) (lit ''schema_version'') = JInt 5)))"
    unfolding unfolded gives_simps one candidate_iff expect_Inr_iff dispatch_retained_iff using c by auto
  have same: "dispatch_retained I a evidence t s h ps z \<Longrightarrow> t = token \<and> s = statuses \<and> h = hashes \<and> ps = points" for t s h ps z
    using c(4) unfolding dispatch_retained_iff by simp
  show ?thesis (is "_ \<longleftrightarrow> ?r")
  proof
    assume "verify_foreign_dispatch K I nfkc a at receipt = Inr (Some r)"
    then show ?r using found c(1,2) unfolding gives_def one_candidate by blast
  next
    assume ?r
    then obtain wall' off' evidence' token' statuses' hashes' points' others x rest d where r:
        "at = (wall', Some off')" "get receipt (lit ''evidence'') = JObj evidence'"
        "dispatch_retained I a evidence' token' statuses' hashes' points' (fd_hash r)" "points' = others @ x # rest"
        "point_answers K I (JStr token') x d" "list_all (point_silent K I (JStr token')) (others @ rest)"
        "candidate_joined K I nfkc a (wall', off') receipt evidence' hashes' token' (fd_hash r) (fd_not_after r) d"
        "foreign_unrevoked K I d (wall', off') statuses'"
        "fd_consent_checked r = (get (ad_claims a) (lit ''schema_version'') = JInt 5)"
      by (elim exE conjE) (rule that; assumption)
    have eq: "wall' = wall" "off' = off" "evidence' = evidence" using r(1,2) c(1,2) by auto
    with r(3) same have "token' = token" "statuses' = statuses" "hashes' = hashes" "points' = points" by auto
    with r eq show "verify_foreign_dispatch K I nfkc a at receipt = Inr (Some r)"
      using found unfolding gives_def one_candidate by blast
  qed
qed

section \<open>Retained artefacts\<close>

text \<open>The decision of a receipt is its nested record, unless that is absent or empty.\<close>

definition sealed_decision :: "(pystr, json) dict \<Rightarrow> (pystr, json) dict" where
  "sealed_decision receipt =
     (case get receipt (lit ''decision'') of JObj d \<Rightarrow> if d = [] then receipt else d | _ \<Rightarrow> receipt)"

lemma sealed_decision_eq: "credential_decision receipt = sealed_decision receipt"
  by (auto simp: credential_decision_def sealed_decision_def obj_or_empty_def Let_def split: json.splits)

text \<open>
  A block retains an artefact and describes it truly: its scheme, its class, its context and its trust
  root; a P-256 artefact is signed under a registration that holds at the time.
\<close>

definition artefact_retained ::
  "crypto \<Rightarrow> interp \<Rightarrow> trust_roots \<Rightarrow> json \<Rightarrow> instant \<Rightarrow> pystr \<Rightarrow> (pystr, json) dict \<Rightarrow> pystr \<Rightarrow> bool" where
  "artefact_retained K I roots registration_keys at context block token \<longleftrightarrow>
     (\<exists>evidence scheme named.
        evidence = (if lit ''artifact'' \<in> set (keys block) then block
          else case get block (lit ''credential_evidence'') of JObj nested \<Rightarrow> nested | _ \<Rightarrow> [])
        \<and> get evidence (lit ''artifact'') = JStr token \<and> token \<noteq> []
        \<and> verified_slip_scheme token = Some scheme \<and> scheme \<in> {lit ''ed25519'', lit ''p256''}
        \<and> named = opt_json JStr (verified_slip_trust_root_id I token)
        \<and> get evidence (lit ''scheme'') = JStr scheme
        \<and> get evidence (lit ''proof_class'') = JStr (lit ''public_key_verifiable'')
        \<and> get evidence (lit ''verification_context'') = JStr context
        \<and> get evidence (lit ''trust_root_id'') = named \<and> get block (lit ''trust_root_id'') = named
        \<and> (scheme = lit ''p256'' \<longrightarrow> (\<forall>root_id. verified_slip_trust_root_id I token = Some root_id \<longrightarrow>
             check_registration K I roots registration_keys at root_id = Inr True)))"

lemma retained_artifact_iff:
  "retained_artifact K I roots ks at context block = Inr (Some token, True) \<longleftrightarrow> artefact_retained K I roots ks at context block token"
proof -
  have e: "evidence_block block = (if lit ''artifact'' \<in> set (keys block) then block
      else case get block (lit ''credential_evidence'') of JObj nested \<Rightarrow> nested | _ \<Rightarrow> [])"
    by (simp add: evidence_block_def has_key_def obj_or_empty_def)
  have t: "some_text v = Some token \<longleftrightarrow> v = JStr token \<and> token \<noteq> []" for v
    by (auto simp: some_text_def split: json.splits)
  have "retained_artifact K I roots ks at context block = Inr (Some token, True) \<longleftrightarrow>
      some_text (get (evidence_block block) (lit ''artifact'')) = Some token \<and> labels_match I context block token
      \<and> (case (verified_slip_scheme token, verified_slip_trust_root_id I token) of
          (Some scheme, Some root_id) \<Rightarrow> scheme \<noteq> lit ''p256'' \<or> check_registration K I roots ks at root_id = Inr True
        | _ \<Rightarrow> True)"
    by (auto simp: retained_artifact_def bnd_Inr_iff split: option.splits if_splits)
  then show ?thesis
    unfolding artefact_retained_def labels_match_def Let_def e t
    by (cases "verified_slip_scheme token"; cases "verified_slip_trust_root_id I token") auto
qed

lemma artifacts_iff:
  "(\<exists>found. each (\<lambda>v. retained_artifact K I roots ks at context (g v)) entries = Inr found \<and> list_all snd found
      \<and> tokens = List.map_filter fst found \<and> length tokens = length entries) \<longleftrightarrow>
    list_all2 (\<lambda>v t. artefact_retained K I roots ks at context (g v) t) entries tokens"
proof (induction entries arbitrary: tokens)
  case (Cons v vs)
  have shorter: "length (List.map_filter fst found) \<le> length found" for found :: "(pystr option \<times> bool) list"
    by (induction found) (auto simp: List.map_filter_simps split: option.splits)
  show ?case
  proof
    assume "\<exists>found. each (\<lambda>v. retained_artifact K I roots ks at context (g v)) (v # vs) = Inr found \<and> list_all snd found
      \<and> tokens = List.map_filter fst found \<and> length tokens = length (v # vs)"
    then obtain r found where f: "retained_artifact K I roots ks at context (g v) = Inr r"
        "each (\<lambda>v. retained_artifact K I roots ks at context (g v)) vs = Inr found" "snd r" "list_all snd found"
        "tokens = List.map_filter fst (r # found)" "length tokens = Suc (length vs)"
      by (auto simp: bnd_Inr_iff)
    have len: "length found = length vs" using f(2) each_Inr_length by blast
    obtain t where t: "r = (Some t, True)"
      using f(3,5,6) shorter [of found] len by (cases r) (auto simp: List.map_filter_simps split: option.splits)
    have "list_all2 (\<lambda>v t. artefact_retained K I roots ks at context (g v) t) vs (List.map_filter fst found)"
      using f t by (intro Cons.IH [THEN iffD1]) (auto simp: List.map_filter_simps)
    then show "list_all2 (\<lambda>v t. artefact_retained K I roots ks at context (g v) t) (v # vs) tokens"
      using f t by (simp add: List.map_filter_simps retained_artifact_iff)
  next
    assume "list_all2 (\<lambda>v t. artefact_retained K I roots ks at context (g v) t) (v # vs) tokens"
    then obtain t ts where t: "tokens = t # ts" "artefact_retained K I roots ks at context (g v) t"
        "list_all2 (\<lambda>v t. artefact_retained K I roots ks at context (g v) t) vs ts"
      by (auto simp: list_all2_Cons1)
    then obtain found where "each (\<lambda>v. retained_artifact K I roots ks at context (g v)) vs = Inr found" "list_all snd found"
        "ts = List.map_filter fst found" "length ts = length vs"
      using Cons.IH by blast
    then show "\<exists>found. each (\<lambda>v. retained_artifact K I roots ks at context (g v)) (v # vs) = Inr found \<and> list_all snd found
      \<and> tokens = List.map_filter fst found \<and> length tokens = length (v # vs)"
      using t by (intro exI [of _ "(Some t, True) # found"]) (simp add: retained_artifact_iff [symmetric] List.map_filter_simps)
  qed
qed (auto simp: List.map_filter_simps)

section \<open>Retained credentials\<close>

definition chain_retained ::
  "crypto \<Rightarrow> interp \<Rightarrow> trust_roots \<Rightarrow> json \<Rightarrow> instant \<Rightarrow> (pystr, json) dict \<Rightarrow> delegation_claims \<Rightarrow> bool" where
  "chain_retained K I roots registration_keys at delegation leaf \<longleftrightarrow>
     (\<exists>entries parents chain. get delegation (lit ''credential_chain'') = JList entries
        \<and> chain_depth leaf \<le> int max_verification_chain_depth \<and> length entries \<le> max_verification_chain_depth
        \<and> list_all2 (\<lambda>v t. artefact_retained K I roots registration_keys at slip_context_delegation (obj_or_empty v) t) entries parents
        \<and> replay_delegation_chain (chain_at K I roots at) (recorded_chain_rule_version delegation) leaf parents = Inr chain
        \<and> supported chain \<and> chain_valid chain)"

lemma replayed_chain_iff:
  "replayed_chain K I roots ks at delegation leaf = Inr (True, True) \<longleftrightarrow> chain_retained K I roots ks at delegation leaf"
proof (cases "get delegation (lit ''credential_chain'')")
  case (JList entries)
  have "replayed_chain K I roots ks at delegation leaf = Inr (True, True) \<longleftrightarrow>
      chain_depth leaf \<le> int max_verification_chain_depth \<and> length entries \<le> max_verification_chain_depth
      \<and> (\<exists>parents chain. (\<exists>found. each (\<lambda>v. retained_artifact K I roots ks at slip_context_delegation (obj_or_empty v)) entries = Inr found
          \<and> list_all snd found \<and> parents = List.map_filter fst found \<and> length parents = length entries)
        \<and> replay_delegation_chain (chain_at K I roots at) (recorded_chain_rule_version delegation) leaf parents = Inr chain
        \<and> supported chain \<and> chain_valid chain)"
    unfolding replayed_chain_def JList json.simps Let_def
    by (auto simp: bnd_Inr_iff split: if_splits)
  then show ?thesis unfolding artifacts_iff chain_retained_def JList by auto
qed (simp_all add: replayed_chain_def chain_retained_def)

lemma found_step:
  "(\<And>clean. g clean \<noteq> Y) \<Longrightarrow> bnd r (\<lambda>(found, clean). case found of None \<Rightarrow> Inr (g clean) | Some t \<Rightarrow> f clean t) = Inr Y \<longleftrightarrow>
    (\<exists>t clean. r = Inr (Some t, clean) \<and> f clean t = Inr Y)"
  by (cases r) (auto split: option.splits)

lemma has_credential_iff: "\<not> has_credential block \<longleftrightarrow> {lit ''artifact'', lit ''credential_evidence''} \<inter> set (keys block) = {}"
  by (auto simp: has_credential_def has_key_def)

definition delegation_retained ::
  "crypto \<Rightarrow> interp \<Rightarrow> trust_roots \<Rightarrow> json \<Rightarrow> instant \<Rightarrow> (pystr, json) dict \<Rightarrow> bool" where
  "delegation_retained K I roots registration_keys at receipt \<longleftrightarrow>
     get receipt (lit ''delegation'') = JNull
     \<or> (\<exists>delegation. get receipt (lit ''delegation'') = JObj delegation
         \<and> ({lit ''artifact'', lit ''credential_evidence''} \<inter> set (keys delegation) = {}
            \<or> (\<exists>token leaf. artefact_retained K I roots registration_keys at slip_context_delegation delegation token
                \<and> parse_delegation K I roots token = Inr (Some leaf)
                \<and> chain_retained K I roots registration_keys at delegation leaf)))"

lemma delegation_iff:
  "verify_delegation K I roots ks at receipt = Inr (True, True) \<longleftrightarrow> delegation_retained K I roots ks at receipt"
proof -
  have block: "verify_delegation_block K I roots ks at d = Inr (True, True) \<longleftrightarrow>
      \<not> has_credential d \<or> (\<exists>token leaf. artefact_retained K I roots ks at slip_context_delegation d token
        \<and> parse_delegation K I roots token = Inr (Some leaf) \<and> chain_retained K I roots ks at d leaf)" for d
    unfolding verify_delegation_block_def retained_artifact_iff [symmetric] replayed_chain_iff [symmetric]
    by (cases "has_credential d") (simp_all add: found_step bnd_option, auto simp: bnd_Inr_iff ex_bool_eq)
  show ?thesis
    by (cases "get receipt (lit ''delegation'')") (auto simp: verify_delegation_def delegation_retained_def block has_credential_iff)
qed

text \<open>
  A retained approval covers the time of the decision and binds its request, and the escalation it names
  was one of the same request.
\<close>

definition approval_bound ::
  "(pystr, json) dict \<Rightarrow> (pystr, json) dict \<Rightarrow> (pystr, json) dict \<Rightarrow> instant \<Rightarrow> approval_claims \<Rightarrow> bool" where
  "approval_bound decision approval escalation at claims \<longleftrightarrow>
     get decision (lit ''request_fingerprint'') = JStr (ap_request_fingerprint claims)
     \<and> get approval (lit ''escalation_record_hash'') = JStr (ap_escalation_record_hash claims)
     \<and> ap_nbf claims \<le> at \<and> at \<le> ap_exp claims
     \<and> get escalation (lit ''record_hash'') = JStr (ap_escalation_record_hash claims)
     \<and> (\<exists>outcome. (case get escalation (lit ''decision'') of JObj d \<Rightarrow> get d (lit ''outcome'') | v \<Rightarrow> v) = JStr outcome
          \<and> ascii_lower outcome = lit ''escalate'')
     \<and> py_eq (get escalation (lit ''request_fingerprint'')) (JStr (ap_request_fingerprint claims))"

definition approval_retained ::
  "crypto \<Rightarrow> interp \<Rightarrow> trust_roots \<Rightarrow> json \<Rightarrow> instant \<Rightarrow> (pystr, json) dict option \<Rightarrow> (pystr, json) dict \<Rightarrow> bool" where
  "approval_retained K I roots registration_keys at escalation receipt \<longleftrightarrow>
     get receipt (lit ''approval'') = JNull
     \<or> (\<exists>approval. get receipt (lit ''approval'') = JObj approval
         \<and> ({lit ''artifact'', lit ''credential_evidence''} \<inter> set (keys approval) = {}
            \<or> (\<exists>token claims e. artefact_retained K I roots registration_keys at slip_context_approval approval token
                \<and> parse_approval K I roots token = Inr (Some claims) \<and> escalation = Some e
                \<and> approval_bound (sealed_decision receipt) approval e at claims)))"

lemma approval_bound_iff:
  "approval_binds decision approval at claims \<and> escalation_link e claims (get decision (lit ''request_fingerprint'')) \<longleftrightarrow>
    approval_bound decision approval e at claims"
proof -
  have "names_escalation v \<longleftrightarrow> (\<exists>s. v = JStr s \<and> ascii_lower s = lit ''escalate'')" for v
    by (auto simp: names_escalation_def split: json.splits)
  then show ?thesis by (auto simp: approval_binds_def escalation_link_def approval_bound_def)
qed

lemma approval_iff:
  "verify_approval K I roots ks at escalation receipt = Inr (True, True, True) \<longleftrightarrow>
    approval_retained K I roots ks at escalation receipt"
proof -
  have block: "verify_approval_block K I roots ks at escalation receipt d = Inr (True, True, True) \<longleftrightarrow>
      \<not> has_credential d \<or> (\<exists>token claims e. artefact_retained K I roots ks at slip_context_approval d token
        \<and> parse_approval K I roots token = Inr (Some claims) \<and> escalation = Some e
        \<and> approval_bound (sealed_decision receipt) d e at claims)" for d
    unfolding verify_approval_block_def retained_artifact_iff [symmetric] Let_def approval_bound_iff [symmetric] sealed_decision_eq
    by (cases escalation) (simp_all add: found_step bnd_option, auto)
  show ?thesis
    by (cases "get receipt (lit ''approval'')")
      (auto simp: verify_approval_def approval_retained_def block has_credential_iff)
qed

text \<open>The holder proof that the receipt retains, or the absence of any.\<close>

definition proof_retained ::
  "crypto \<Rightarrow> interp \<Rightarrow> credential_request \<Rightarrow> instant \<Rightarrow> (pystr, json) dict \<Rightarrow> (pystr, json) dict \<Rightarrow> bool" where
  "proof_retained K I q at receipt evidence \<longleftrightarrow>
     (let decision = sealed_decision receipt;
          fingerprint = get decision (lit ''actor_key_fingerprint''); nonce = get decision (lit ''actor_proof_nonce'')
      in get evidence (lit ''actor_proof'') = JNull \<and> fingerprint = JNull \<and> nonce = JNull
         \<or> (\<exists>carried actor. get evidence (lit ''actor_proof'') = JObj carried
              \<and> verify_actor_proof K I
                  (JObj [(lit ''actor_id'', get decision (lit ''actor_id'')), (lit ''actor_proof'', JObj carried)]) (JObj (cq_roots q))
                  (str_or_empty (cq_printed q) I (get carried (lit ''request_hash'')))
                  (case cq_audience q of Some s \<Rightarrow> s | None \<Rightarrow> str_or_empty (cq_printed q) I (get carried (lit ''audience'')))
                  at default_freshness_seconds (cq_registration_keys q) = Inr (Inr actor)
              \<and> fingerprint = JStr (ap_key_fingerprint actor) \<and> nonce = JStr (ap_nonce actor)))"

lemma actor_step:
  "bnd r (\<lambda>verdict. Inr (case verdict of Inl refusal \<Rightarrow> False | Inr actor \<Rightarrow> P actor)) = Inr True \<longleftrightarrow>
    (\<exists>actor. r = Inr (Inr actor) \<and> P actor)"
proof (cases r)
  case (Inr v)
  then show ?thesis by (cases v) auto
qed simp

lemma actor_iff:
  "verify_retained_actor_proof (cq_printed q) K I (cq_roots q) (cq_registration_keys q) (cq_audience q) at receipt = Inr True \<longleftrightarrow>
    proof_retained K I q at receipt (obj_or_empty (get receipt (lit ''evidence'')))"
  unfolding verify_retained_actor_proof_def proof_retained_def Let_def sealed_decision_eq
  by (cases "get (obj_or_empty (get receipt (lit ''evidence''))) (lit ''actor_proof'')") (simp_all add: actor_step)

text \<open>A's dispatch stands for the holder proof exactly if the caller admits one and the receipt retains it.\<close>

definition foreign_checked ::
  "crypto \<Rightarrow> interp \<Rightarrow> (pystr \<Rightarrow> pystr) \<Rightarrow> authority_admission option \<Rightarrow> instant \<Rightarrow> (pystr, json) dict \<Rightarrow> (pystr, json) dict
    \<Rightarrow> bool \<Rightarrow> bool" where
  "foreign_checked K I nfkc admission at receipt evidence foreign \<longleftrightarrow>
     (if get evidence (lit ''foreign_dispatch'') = JNull \<or> admission = None then \<not> foreign
      else foreign \<and> (\<exists>a v. admission = Some a \<and> verify_foreign_dispatch K I nfkc a (at, Some 0) receipt = Inr (Some v)))"

lemma foreign_checked_iff:
  "foreign_standing K I nfkc admission at receipt evidence = Inr (Some foreign) \<longleftrightarrow>
    foreign_checked K I nfkc admission at receipt evidence foreign"
  by (cases admission) (auto simp: foreign_standing_def foreign_checked_def bnd_Inr_iff split: option.splits)

text \<open>A proof is due from schema 5 on and in live receipts; beside A's dispatch there is none.\<close>

definition proof_due :: "(pystr, json) dict \<Rightarrow> bool \<Rightarrow> bool" where
  "proof_due evidence foreign \<longleftrightarrow>
     (if foreign then get evidence (lit ''actor_proof'') = JNull
      else if get evidence (lit ''schema_version'') \<in> {JStr (lit ''5''), JStr (lit ''6'')}
          \<or> get evidence (lit ''execution_profile'') = JStr (lit ''live'')
        then \<exists>d. get evidence (lit ''actor_proof'') = JObj d else True)"

lemma proof_due_iff: "proof_presence_ok evidence foreign \<longleftrightarrow> proof_due evidence foreign"
proof -
  have "as_obj v \<noteq> None \<longleftrightarrow> (\<exists>d. v = JObj d)" for v by (cases v) auto
  then show ?thesis by (auto simp: proof_presence_ok_def proof_due_def)
qed

text \<open>An admission the caller asks for verifies at the decision and admits the retained origin.\<close>

definition origin_established ::
  "crypto \<Rightarrow> interp \<Rightarrow> (pystr \<Rightarrow> pystr) \<Rightarrow> trust_roots option \<Rightarrow> instant \<Rightarrow> (pystr, json) dict \<Rightarrow> bool" where
  "origin_established K I nfkc admission_roots at evidence \<longleftrightarrow>
     (\<forall>roots. admission_roots = Some roots \<longrightarrow> get evidence (lit ''schema_version'') \<in> {JStr (lit ''5''), JStr (lit ''6'')} \<longrightarrow>
       (\<exists>d token domain ledger a h. get evidence (lit ''authority_admission'') = JObj d
          \<and> get d (lit ''artifact'') = JStr token \<and> get d (lit ''domain_id'') = JStr domain \<and> get d (lit ''ledger_id'') = JStr ledger
          \<and> verify_authority_admission K I nfkc roots domain ledger (at, Some 0) (get d (lit ''minimum_version''))
              (get d (lit ''expected_previous_hash'')) token = Some a
          \<and> h \<in> set (admitted_hashes a) \<and> py_eq (get d (lit ''origin_grant_hash'')) h))"

lemma origin_established_iff:
  "origin_admission K I nfkc admission_roots at evidence \<noteq> Failed \<longleftrightarrow> origin_established K I nfkc admission_roots at evidence"
proof -
  have obj: "get (obj_or_empty v) k = JStr s \<longleftrightarrow> (\<exists>d. v = JObj d \<and> get d k = JStr s)" for v k s
    by (auto simp: obj_or_empty_def split: json.splits)
  show ?thesis
  proof (cases "\<exists>d token domain ledger. get evidence (lit ''authority_admission'') = JObj d \<and> get d (lit ''artifact'') = JStr token
      \<and> get d (lit ''domain_id'') = JStr domain \<and> get d (lit ''ledger_id'') = JStr ledger")
    case True
    then show ?thesis
      unfolding origin_admission_def origin_established_def
      by (cases admission_roots) (auto simp: obj_or_empty_def list_ex_iff split: option.splits if_splits)
  next
    case False
    then show ?thesis
      unfolding origin_admission_def origin_established_def Let_def
      by (cases admission_roots) (auto simp: obj split: json.splits)
  qed
qed

lemma checked_credentials_iff:
  "(\<exists>r. checked_credentials K I nfkc q at foreign receipt = Inr r \<and> rc_valid r) \<longleftrightarrow>
    (foreign \<or> proof_retained K I q at receipt (obj_or_empty (get receipt (lit ''evidence''))))
    \<and> delegation_retained K I (cq_roots q) (cq_registration_keys q) at receipt
    \<and> approval_retained K I (cq_roots q) (cq_registration_keys q) at (cq_escalation q) receipt
    \<and> origin_admission K I nfkc (cq_admission_roots q) at (obj_or_empty (get receipt (lit ''evidence''))) \<noteq> Failed"
  (is "_ \<longleftrightarrow> (foreign \<or> ?proof) \<and> _")
proof -
  define actor where "actor = (if foreign then Inr True
      else verify_retained_actor_proof (cq_printed q) K I (cq_roots q) (cq_registration_keys q) (cq_audience q) at receipt)"
  have a: "actor = Inr True \<longleftrightarrow> foreign \<or> ?proof"
    by (simp add: actor_def actor_iff)
  have step: "(\<exists>r. bnd x f = Inr r \<and> rc_valid r) \<longleftrightarrow> (\<exists>y. x = Inr y \<and> (\<exists>r. f y = Inr r \<and> rc_valid r))"
      "(\<exists>r. Inr v = (Inr r :: exc + receipt_credentials) \<and> rc_valid r) \<longleftrightarrow> rc_valid v"
    for x :: "exc + 'x" and f v
    by (auto simp: bnd_Inr_iff)
  show ?thesis
    unfolding a [symmetric] delegation_iff [symmetric] approval_iff [symmetric] checked_credentials_def Let_def
      actor_def [symmetric] step split_paired_Ex prod.case receipt_credentials.simps
    by (auto simp: ex_bool_eq)
qed

text \<open>
  C5: The retained credentials of a receipt are valid exactly if its version, profile and time can be
  read, a holder proof is there where one is due (or A's dispatch verifies in its place), a retained
  proof verifies and is the one the decision summarises, the delegation artefacts are the ones
  their blocks describe and replay to a valid chain under the recorded rule, the approval binds the
  decision to its escalation, and a retained admission the caller asks for is established.
\<close>
theorem receipt_credentials_iff:
  "(\<exists>r. verify_receipt_credentials K I nfkc q receipt = Inr r \<and> rc_valid r) \<longleftrightarrow>
    (\<exists>evidence at foreign. evidence = (case get receipt (lit ''evidence'') of JObj d \<Rightarrow> d | _ \<Rightarrow> [])
       \<and> (cq_registration_keys q = JNull \<or> (\<exists>ks. cq_registration_keys q = JObj ks))
       \<and> get evidence (lit ''schema_version'') \<in> JStr ` lit ` {''3'', ''4'', ''5'', ''6''}
       \<and> get evidence (lit ''execution_profile'')
           \<in> {JNull, JStr (lit ''live''), JStr (lit ''simulation''), JStr (lit ''nonconsequential'')}
       \<and> (\<exists>s. get (sealed_decision receipt) (lit ''evaluated_at'') = JStr s \<and> parse_dt (replace_z s) = Inr at)
       \<and> foreign_checked K I nfkc (cq_foreign q) at receipt evidence foreign
       \<and> proof_due evidence foreign
       \<and> (foreign \<or> proof_retained K I q at receipt evidence)
       \<and> delegation_retained K I (cq_roots q) (cq_registration_keys q) at receipt
       \<and> approval_retained K I (cq_roots q) (cq_registration_keys q) at (cq_escalation q) receipt
       \<and> origin_established K I nfkc (cq_admission_roots q) at evidence)"
proof -
  let ?evidence = "obj_or_empty (get receipt (lit ''evidence''))"
  have time: "receipt_time receipt ?evidence = Inr (Some at) \<longleftrightarrow>
      get ?evidence (lit ''schema_version'') \<in> JStr ` lit ` set supported_evidence_schema_versions
      \<and> get ?evidence (lit ''execution_profile'')
           \<in> {JNull, JStr (lit ''live''), JStr (lit ''simulation''), JStr (lit ''nonconsequential'')}
      \<and> credential_time receipt = Inr at" for at
  proof -
    have p: "profile_ok v = Inr True \<longleftrightarrow> v \<in> {JNull, JStr (lit ''live''), JStr (lit ''simulation''), JStr (lit ''nonconsequential'')}" for v
      by (auto simp: profile_ok_def one_of_def unhashable_def)
    have o: "one_of supported_evidence_schema_versions v = Inr True \<longleftrightarrow> v \<in> JStr ` lit ` set supported_evidence_schema_versions" for v
      by (auto simp: one_of_def unhashable_def)
    have s: "bnd r (\<lambda>b. if \<not> b then Inr None else t) = Inr (Some at) \<longleftrightarrow> r = Inr True \<and> t = Inr (Some at)"
      for r :: "exc + bool" and t by (cases r) auto
    have c: "readable_time receipt = Inr (Some at) \<longleftrightarrow> credential_time receipt = Inr at"
      by (auto simp: readable_time_def split: sum.splits)
    show ?thesis unfolding receipt_time_def s p o c by (rule refl)
  qed
  have u: "\<not> rc_valid unverified" by (simp add: unverified_def)
  have accepted: "(\<exists>r. verify_receipt_credentials K I nfkc q receipt = Inr r \<and> rc_valid r) \<longleftrightarrow>
      (cq_registration_keys q = JNull \<or> (\<exists>ks. cq_registration_keys q = JObj ks))
      \<and> (\<exists>at foreign. receipt_time receipt ?evidence = Inr (Some at)
          \<and> foreign_standing K I nfkc (cq_foreign q) at receipt ?evidence = Inr (Some foreign)
          \<and> proof_presence_ok ?evidence foreign
          \<and> (\<exists>r. checked_credentials K I nfkc q at foreign receipt = Inr r \<and> rc_valid r))"
    unfolding verify_receipt_credentials_def Let_def
    by (auto simp: bnd_option u split: if_splits)
  have moment: "credential_time receipt = Inr at \<longleftrightarrow>
      (\<exists>s. get (sealed_decision receipt) (lit ''evaluated_at'') = JStr s \<and> parse_dt (replace_z s) = Inr at)" for at
    by (auto simp: credential_time_def sealed_decision_eq raise_simps)
  have versions: "JStr ` lit ` set supported_evidence_schema_versions = JStr ` lit ` {''3'', ''4'', ''5'', ''6''}"
    by (simp add: supported_evidence_schema_versions_def evidence_schema_version_def)
  have one: "(\<exists>evidence at foreign. evidence = e \<and> A \<and> P evidence \<and> Q evidence \<and> T at \<and> R evidence at foreign) \<longleftrightarrow>
      A \<and> (\<exists>at foreign. (P e \<and> Q e \<and> T at) \<and> R e at foreign)" for e :: "(pystr, json) dict" and A P Q T R
    by auto
  have empty: "(case get receipt (lit ''evidence'') of JObj d \<Rightarrow> d | _ \<Rightarrow> []) = ?evidence" by (simp add: obj_or_empty_def)
  show ?thesis
    unfolding accepted time moment versions checked_credentials_iff foreign_checked_iff proof_due_iff origin_established_iff empty
    by (rule one [of "?evidence" "cq_registration_keys q = JNull \<or> (\<exists>ks. cq_registration_keys q = JObj ks)", symmetric])
qed

end
