(* ===== verification/Authority_Facts.thy ===== *)
theory Authority_Facts
  imports Status_Facts
begin

text \<open>
  What \<open>verify_execution_authority\<close> accepts. The contract is stated over the fields of the receipt and of
  the signed admission and over the verifiers that the function calls (admission, path, dispatch,
  credentials, actor proof, one revocation status, one set of cumulative rows); it shares none of the
  steps of the function itself.
\<close>

section \<open>The twelve checks\<close>

lemma every_check: "c \<in> set authority_checks"
  by (cases c) (simp_all add: authority_checks_def)

lemma all_checks: "(\<forall>c. P c) \<longleftrightarrow> list_all P authority_checks"
  using every_check by (auto simp: list_all_iff)

lemma in_check_if [simp]: "c \<in> set (check_if b d) \<longleftrightarrow> b \<and> c = d"
  by (auto simp: check_if_def)

lemma passed_all: "set passed = set authority_checks \<longleftrightarrow> list_all (\<lambda>c. c \<in> set passed) authority_checks"
  using every_check by (auto simp: list_all_iff)

text \<open>A valid result of a step, through the sequencing of steps.\<close>

definition valid_result :: "exc + execution_authority \<Rightarrow> bool" where
  "valid_result r \<longleftrightarrow> (\<exists>v. r = Inr v \<and> ea_valid v)"

lemma valid_result_simps:
  "\<not> valid_result (stopped passed)" "valid_result (Inr v) \<longleftrightarrow> ea_valid v" "\<not> valid_result (Inl e)"
  "valid_result (bnd r f) \<longleftrightarrow> (\<exists>x. r = Inr x \<and> valid_result (f x))"
  "valid_result (case opt of None \<Rightarrow> stopped passed | Some y \<Rightarrow> g y) \<longleftrightarrow> (\<exists>y. opt = Some y \<and> valid_result (g y))"
  "valid_result (if b then stopped passed else t) \<longleftrightarrow> \<not> b \<and> valid_result t"
  by (auto simp: valid_result_def stopped_def bnd_Inr_iff split: option.splits)

lemma ex_true: "(\<exists>x. r = Inr x \<and> x \<and> Q) \<longleftrightarrow> r = Inr True \<and> Q"
  by auto


section \<open>The retained admission\<close>

text \<open>The block of the receipt repeats the signed admission and what the caller expects of it.\<close>

definition repeats_admission :: "authority_request \<Rightarrow> authority_admission \<Rightarrow> json \<Rightarrow> (pystr, json) dict \<Rightarrow> bool" where
  "repeats_admission q a version d \<longleftrightarrow>
     set (keys d) = lit ` ({''artifact'', ''admission_hash'', ''trust_configuration_hash'', ''domain_id'', ''ledger_id'',
         ''enforcement_point_id'', ''minimum_version'', ''expected_previous_hash'', ''revocation_epoch_floor'',
         ''origin_grant_hash'', ''origin_artifacts'', ''verification_configuration'', ''resource_binding''}
       \<union> (if version = JStr (lit ''6'') then {''max_actor_proof_age_seconds''} else {}))
     \<and> get d (lit ''admission_hash'') = JStr (ad_hash a)
     \<and> get d (lit ''trust_configuration_hash'') = JStr (ad_trust_hash a)
     \<and> get d (lit ''domain_id'') = JStr (aq_domain q) \<and> get d (lit ''ledger_id'') = JStr (aq_ledger q)
     \<and> get d (lit ''enforcement_point_id'') = get (ad_claims a) (lit ''enforcement_point_id'')
     \<and> py_eq (get d (lit ''minimum_version'')) (aq_minimum q)
     \<and> py_eq (get d (lit ''expected_previous_hash'')) (aq_previous q)
     \<and> py_eq (get d (lit ''revocation_epoch_floor'')) (aq_floor q)"

text \<open>Only an admission of version 2 or later serves a receipt of schema 6, which repeats its proof age.\<close>

definition serves_schema :: "authority_admission \<Rightarrow> json \<Rightarrow> (pystr, json) dict \<Rightarrow> bool" where
  "serves_schema a version d \<longleftrightarrow>
     version = JStr (lit ''6'') \<longrightarrow>
       (\<exists>n \<in> {2, 3, 4, 5}. py_eq (get (ad_claims a) (lit ''schema_version'')) (JInt n))
       \<and> py_eq (get d (lit ''max_actor_proof_age_seconds'')) (get (ad_claims a) (lit ''max_actor_proof_age_seconds''))"

text \<open>The trust configuration, key by key; counterparty points belong to it from version 4 on.\<close>

definition repeats_configuration :: "interp \<Rightarrow> authority_admission \<Rightarrow> (pystr, json) dict \<Rightarrow> bool" where
  "repeats_configuration I a d \<longleftrightarrow>
     (\<exists>c. get d (lit ''verification_configuration'') = JObj c
        \<and> (let names = [''credential_trust_roots'', ''credential_registration_public_keys'',
              ''revocation_attestation_public_keys'', ''cumulative_attestation_public_keys'']
            @ (if \<exists>n \<in> {4, 5}. py_eq (get (ad_claims a) (lit ''schema_version'')) (JInt n)
               then [''trusted_counterparty_points''] else [])
          in set (keys c) = lit ` set names \<and> list_all (\<lambda>k. same_json I (get (ad_claims a) (lit k)) (get c (lit k))) names))"

text \<open>The adapters that the receipt and its native request name, and the one of the admitted resource binding.\<close>

definition adapter_named :: "(pystr, json) dict \<Rightarrow> (pystr, json) dict \<Rightarrow> pystr \<Rightarrow> bool" where
  "adapter_named receipt evidence adapter \<longleftrightarrow> adapter \<noteq> []
     \<and> (let named = {get receipt (lit ''adapter_id'')}
          \<union> {v. \<exists>e. get evidence (lit ''request_envelope'') = JObj e \<and> v = get e (lit ''adapter_id'')}
        in JStr adapter \<in> named \<and> named \<subseteq> {JStr adapter, JNull})"

definition repeats_binding ::
  "interp \<Rightarrow> authority_admission \<Rightarrow> (pystr, json) dict \<Rightarrow> (pystr, json) dict \<Rightarrow> (pystr, json) dict \<Rightarrow> bool" where
  "repeats_binding I a d receipt evidence \<longleftrightarrow>
     (\<exists>adapter. adapter_named receipt evidence adapter
        \<and> get (claims_obj a ''resource_binding'') (lit ''adapter_id'') = JStr adapter)
     \<and> same_json I (get d (lit ''resource_binding'')) (get (ad_claims a) (lit ''resource_binding''))"

lemma retained_adapter_iff: "retained_request_adapter receipt evidence = Some adapter \<longleftrightarrow> adapter_named receipt evidence adapter"
  by (auto simp: retained_request_adapter_def adapter_named_def Let_def nonempty_str_iff split: json.splits list.splits if_splits)

lemma case_some: "(case r of None \<Rightarrow> False | Some x \<Rightarrow> P x) \<longleftrightarrow> (\<exists>x. r = Some x \<and> P x)"
  by (cases r) auto

lemma admission_block_iff:
  "admission_summary_matches q a d \<and> admission_fields_match version d \<and> admission_serves_version version a d
     \<and> configuration_matches I a d \<and> binding_matches I a d receipt evidence \<longleftrightarrow>
   repeats_admission q a version d \<and> serves_schema a version d \<and> repeats_configuration I a d
     \<and> repeats_binding I a d receipt evidence"
proof -
  have f: "admission_summary_matches q a d \<and> admission_fields_match version d \<longleftrightarrow> repeats_admission q a version d"
    unfolding admission_summary_matches_def admission_fields_match_def repeats_admission_def keys_exact_iff
      admission_point_def consumption_version_def
    by (auto simp: retained_admission_fields_def)
  have v: "admission_serves_version version a d \<longleftrightarrow> serves_schema a version d"
    by (simp add: admission_serves_version_def serves_schema_def consumption_version_def among_def admission_schema_version_def admission_version_def)
  have c: "configuration_matches I a d \<longleftrightarrow> repeats_configuration I a d"
  proof -
    have n: "configuration_fields (ad_claims a) = [''credential_trust_roots'', ''credential_registration_public_keys'',
              ''revocation_attestation_public_keys'', ''cumulative_attestation_public_keys'']
            @ (if \<exists>n \<in> {4, 5}. py_eq (get (ad_claims a) (lit ''schema_version'')) (JInt n)
               then [''trusted_counterparty_points''] else [])"
      by (simp add: configuration_fields_def trust_configuration_fields_def root_fields_def among_def counterparty_schema_versions_def)
    show ?thesis
      unfolding configuration_matches_def repeats_configuration_def admission_configuration_matches_def keys_exact_iff n
        Let_def set_map
      by (cases "get d (lit ''verification_configuration'')") simp_all
  qed
  have b: "binding_matches I a d receipt evidence \<longleftrightarrow> repeats_binding I a d receipt evidence"
    unfolding binding_matches_def repeats_binding_def case_some retained_adapter_iff by blast
  show ?thesis unfolding f [symmetric] v c b by blast
qed

section \<open>The foreign dispatch and the path\<close>

text \<open>A's dispatch is retained with its hash or not at all, and where it is, it verifies and no proof is beside it.\<close>

definition dispatch_stands ::
  "crypto \<Rightarrow> interp \<Rightarrow> (pystr \<Rightarrow> pystr) \<Rightarrow> authority_admission \<Rightarrow> instant \<Rightarrow> (pystr, json) dict \<Rightarrow> (pystr, json) dict
    \<Rightarrow> bool \<Rightarrow> bool" where
  "dispatch_stands K I nfkc a at receipt evidence foreign \<longleftrightarrow>
     (foreign \<longleftrightarrow> get evidence (lit ''foreign_dispatch'') \<noteq> JNull)
     \<and> (foreign \<longleftrightarrow> (\<exists>hashes. get evidence (lit ''hashes'') = JObj hashes \<and> get hashes (lit ''foreign_dispatch_hash'') \<noteq> JNull))
     \<and> (foreign \<longrightarrow> (\<exists>v. verify_foreign_dispatch K I nfkc a (at, Some 0) receipt = Inr (Some v))
          \<and> get evidence (lit ''actor_proof'') = JNull)"

lemma foreign_evidence_iff:
  "foreign_evidence K I nfkc a at receipt evidence = Inr (Some foreign) \<longleftrightarrow>
    dispatch_stands K I nfkc a at receipt evidence foreign"
proof -
  have hashed: "get (obj_or_empty v) k \<noteq> JNull \<longleftrightarrow> (\<exists>d. v = JObj d \<and> get d k \<noteq> JNull)" for v k
    by (auto simp: obj_or_empty_def split: json.splits)
  show ?thesis
    unfolding foreign_evidence_def dispatch_stands_def Let_def hashed
    by (auto simp: bnd_Inr_iff)
qed

text \<open>A block states its artefact, on a nested record of credential evidence if it has one.\<close>

definition carries_artefact :: "json \<Rightarrow> pystr \<Rightarrow> bool" where
  "carries_artefact v token \<longleftrightarrow> token \<noteq> []
     \<and> (\<exists>block. v = JObj block
          \<and> get (case get block (lit ''credential_evidence'') of JObj nested \<Rightarrow> nested | _ \<Rightarrow> block) (lit ''artifact'') = JStr token)"

lemma some_text_iff: "some_text v = Some s \<longleftrightarrow> v = JStr s \<and> s \<noteq> []"
  by (auto simp: some_text_def split: json.splits)

lemma evidence_artifact_iff: "evidence_artifact block = Some token \<longleftrightarrow> carries_artefact (JObj block) token"
  by (auto simp: evidence_artifact_def carries_artefact_def some_text_iff)

lemma entry_artifact_iff: "entry_artifact v = Some token \<longleftrightarrow> carries_artefact v token"
  by (cases v) (auto simp: entry_artifact_def evidence_artifact_iff carries_artefact_def)

lemma entry_artifact_none: "entry_artifact v = None \<longleftrightarrow> (\<nexists>token. carries_artefact v token)"
  using entry_artifact_iff by (metis not_None_eq)

text \<open>The files of the origin, each a text under a name, as their UTF-8 bytes.\<close>

definition origin_files :: "json \<Rightarrow> (pystr, pybytes) dict \<Rightarrow> bool" where
  "origin_files v files \<longleftrightarrow>
     (\<exists>artefacts. v = JObj artefacts \<and> artefacts \<noteq> []
        \<and> list_all2 (\<lambda>(name, value) (name', bytes). name' = name \<and> name \<noteq> []
            \<and> (\<exists>s. value = JStr s \<and> utf8_encode s = Some bytes)) artefacts files)"

lemma artifact_files_iff:
  "artifact_files artefacts = Inr (Some files) \<longleftrightarrow>
    list_all2 (\<lambda>(name, value) (name', bytes). name' = name \<and> name \<noteq> []
      \<and> (\<exists>s. value = JStr s \<and> utf8_encode s = Some bytes)) artefacts files"
proof (induction artefacts arbitrary: files rule: artifact_files.induct)
  case (2 name v rest)
  show ?case
    using 2 by (cases files) (auto simp: bnd_Inr_iff expect_Inr_iff split: json.splits)
qed auto

lemma artifact_bytes_iff: "artifact_bytes v = Inr (Some files) \<longleftrightarrow> origin_files v files"
  by (cases v) (auto simp: artifact_bytes_def origin_files_def artifact_files_iff)

text \<open>The leaf and the parents with their blocks, and the origin of the path, admitted and named by its hash.\<close>

definition path_retained ::
  "crypto \<Rightarrow> interp \<Rightarrow> authority_admission \<Rightarrow> instant \<Rightarrow> (pystr, json) dict \<Rightarrow> (pystr, json) dict \<Rightarrow> (pystr, json) dict
    \<Rightarrow> json list \<Rightarrow> pystr \<Rightarrow> pystr list \<Rightarrow> (pystr, pybytes) dict \<Rightarrow> bool" where
  "path_retained K I a at receipt d delegation entries token parents files \<longleftrightarrow>
     get receipt (lit ''delegation'') = JObj delegation \<and> get delegation (lit ''credential_chain'') = JList entries
     \<and> carries_artefact (JObj delegation) token \<and> list_all2 carries_artefact entries parents
     \<and> origin_files (get d (lit ''origin_artifacts'')) files
     \<and> (\<exists>h. verify_admitted_path K I token parents files a (at, Some 0) = Inr (Origin_Valid h)
          \<and> get d (lit ''origin_grant_hash'') = JStr h)"

lemma those_iff: "those (map f vs) = Some ts \<longleftrightarrow> list_all2 (\<lambda>v t. f v = Some t) vs ts"
  by (induction vs arbitrary: ts) (auto simp: list_all2_Cons1 split: option.splits)

abbreviation path_of :: "(pystr, json) dict \<Rightarrow> json list \<Rightarrow> pystr \<Rightarrow> pystr list \<Rightarrow> (pystr, pybytes) dict \<Rightarrow> retained_path" where
  "path_of delegation entries token parents files \<equiv> \<lparr>rp_leaf = token, rp_parents = parents, rp_entries = entries,
     rp_status = get delegation (lit ''revocation_status''), rp_files = files\<rparr>"

lemma retained_path_of_iff:
  "retained_path_of receipt d = Inr (Some p) \<longleftrightarrow>
    (\<exists>delegation entries token parents files. get receipt (lit ''delegation'') = JObj delegation
      \<and> get delegation (lit ''credential_chain'') = JList entries \<and> carries_artefact (JObj delegation) token
      \<and> list_all2 carries_artefact entries parents \<and> origin_files (get d (lit ''origin_artifacts'')) files
      \<and> p = path_of delegation entries token parents files)"
proof (cases "\<exists>delegation entries. get receipt (lit ''delegation'') = JObj delegation
    \<and> get delegation (lit ''credential_chain'') = JList entries")
  case True
  then obtain delegation entries where c: "get receipt (lit ''delegation'') = JObj delegation"
      "get delegation (lit ''credential_chain'') = JList entries" by blast
  have block: "evidence_artifact block = entry_artifact (JObj block)" for block by (simp add: entry_artifact_def)
  have files: "bnd r (\<lambda>x. Inr (case (l, ps, x) of (Some leaf, Some ps, Some fs) \<Rightarrow> Some (f leaf ps fs) | _ \<Rightarrow> None)) = Inr (Some p)
      \<longleftrightarrow> (\<exists>leaf qs fs. l = Some leaf \<and> ps = Some qs \<and> r = Inr (Some fs) \<and> p = f leaf qs fs)" for l ps r f
  proof (cases r)
    case (Inr x)
    then show ?thesis by (cases l; cases ps; cases x) auto
  qed simp
  show ?thesis
    unfolding retained_path_of_def entry_artifact_iff [symmetric] those_iff [symmetric] artifact_bytes_iff [symmetric] block
      c json.case json.inject files by (auto simp: c)
next
  case False
  then show ?thesis by (auto simp: retained_path_of_def split: json.splits)
qed

lemma path_admitted_iff:
  "path_admitted K I a at d (path_of delegation entries token parents files) = Inr True \<longleftrightarrow>
    (\<exists>h. verify_admitted_path K I token parents files a (at, Some 0) = Inr (Origin_Valid h)
      \<and> get d (lit ''origin_grant_hash'') = JStr h)"
proof (cases "verify_admitted_path K I token parents files a (at, Some 0)")
  case (Inr origin)
  then show ?thesis by (cases origin) (auto simp: path_admitted_def)
qed (simp add: path_admitted_def)

lemma ex_image5: "(\<exists>p. (\<exists>v w x y z. C v w x y z \<and> p = f v w x y z) \<and> Q p) \<longleftrightarrow> (\<exists>v w x y z. C v w x y z \<and> Q (f v w x y z))"
  by blast

lemma retained_path_iff:
  "(\<exists>p. retained_path_of receipt d = Inr (Some p) \<and> path_admitted K I a at d p = Inr True \<and> P p) \<longleftrightarrow>
    (\<exists>delegation entries token parents files. path_retained K I a at receipt d delegation entries token parents files
      \<and> P (path_of delegation entries token parents files))"
proof -
  note join = ex_image5 [of "\<lambda>delegation entries token parents files. get receipt (lit ''delegation'') = JObj delegation
        \<and> get delegation (lit ''credential_chain'') = JList entries \<and> carries_artefact (JObj delegation) token
        \<and> list_all2 carries_artefact entries parents \<and> origin_files (get d (lit ''origin_artifacts'')) files"
      path_of "\<lambda>p. path_admitted K I a at d p = Inr True \<and> P p", unfolded path_admitted_iff conj_assoc]
  show ?thesis unfolding retained_path_of_iff path_retained_def conj_assoc by (rule join)
qed

section \<open>The request and its holder\<close>

text \<open>The holder and the shape of a native request, whose proof may be carried in two places.\<close>

definition native_formed :: "(pystr, json) dict \<Rightarrow> bool" where
  "native_formed request \<longleftrightarrow>
     (\<exists>actor call name. get request (lit ''actor'') = JObj actor \<and> get request (lit ''call'') = JObj call
        \<and> get call (lit ''name'') = JStr name
        \<and> (get call (lit ''arguments'') = JNull \<or> (\<exists>arguments. get call (lit ''arguments'') = JObj arguments)))
     \<or> (\<exists>ident carried. native_holder request = (ident, Some carried, True)
          \<and> has_key request (lit ''authority_envelope_version''))"

definition decided_by :: "(pystr, json) dict \<Rightarrow> pystr \<Rightarrow> bool" where
  "decided_by receipt actor \<longleftrightarrow>
     get (case get receipt (lit ''decision'') of JObj d \<Rightarrow> d | _ \<Rightarrow> receipt) (lit ''actor_id'') = JStr actor"

text \<open>
  The native request, in either of its forms, repeats the retained tokens, the tool and the arguments
  of the receipt; a proof it carries is the retained one without the request hash.
\<close>

definition tokens_repeated ::
  "interp \<Rightarrow> (pystr, json) dict \<Rightarrow> pystr \<Rightarrow> pystr list \<Rightarrow> pystr option \<Rightarrow> json \<Rightarrow> (pystr, json) dict \<Rightarrow> bool" where
  "tokens_repeated I request token parents approval tool arguments \<longleftrightarrow>
     (tool = JNull \<or> (\<exists>s. tool = JStr s))
     \<and> (if has_key request (lit ''authority_envelope_version'')
        then \<exists>delegation approved own. get request (lit ''delegation'') = JObj delegation
          \<and> get request (lit ''approval'') = JObj approved \<and> get request (lit ''arguments'') = JObj own
          \<and> get delegation (lit ''raw_token'') = JStr token \<and> get delegation (lit ''parent_tokens'') = strs parents
          \<and> get approved (lit ''raw_token'') = opt_json JStr approval \<and> get request (lit ''tool_name'') = tool
          \<and> same_json I (JObj own) (JObj arguments)
        else \<exists>call name. get request (lit ''call'') = JObj call \<and> get call (lit ''name'') = JStr name
          \<and> strip name \<noteq> [] \<and> get request (lit ''delegation_token'') = JStr token
          \<and> (if has_key request (lit ''parent_delegation_tokens'')
             then get request (lit ''parent_delegation_tokens'') = strs parents else parents = [])
          \<and> get request (lit ''approval_token'') = opt_json JStr approval \<and> JStr (strip name) = tool
          \<and> (\<exists>own. (get call (lit ''arguments'') = JNull \<and> own = [] \<or> get call (lit ''arguments'') = JObj own)
             \<and> same_json I (JObj own) (JObj arguments)))"

definition proof_repeated :: "interp \<Rightarrow> (pystr, json) dict \<Rightarrow> json \<Rightarrow> bool" where
  "proof_repeated I request retained \<longleftrightarrow>
     (\<forall>ident carried. native_holder request = (ident, carried, True) \<longrightarrow>
        (\<exists>own shown. carried = Some own \<and> retained = JObj shown
           \<and> same_json I (JObj own) (JObj (dict_del (lit ''request_hash'') shown))))"

lemma text_or_null_iff: "text_or_null v \<longleftrightarrow> v = JNull \<or> (\<exists>s. v = JStr s)"
  by (cases v) (auto simp: text_or_null_def)

lemma strs_texts: "list_all (\<lambda>p. as_str p \<noteq> None) (map JStr ps)"
  by (induction ps) auto

lemma checked_links_iff:
  assumes "text_or_null tool'"
  shows "(\<exists>links. checked_links leaf parents approval tool arguments = Some links \<and> rl_leaf links = JStr t
      \<and> rl_parents links = map JStr ps \<and> rl_approval links = opt_json JStr appr \<and> rl_tool links = tool'
      \<and> P (rl_arguments links)) \<longleftrightarrow>
    leaf = JStr t \<and> parents = strs ps \<and> approval = opt_json JStr appr \<and> tool = tool'
      \<and> (\<exists>own. arguments = JObj own \<and> P own)"
proof -
  have a: "text_or_null (opt_json JStr appr)" by (cases appr) (auto simp: text_or_null_iff)
  have t: "text_or_null (JStr t)" by (simp add: text_or_null_iff)
  show ?thesis
    unfolding checked_links_def strs_def
    using assms strs_texts [of ps] a t by (cases parents; cases arguments) auto
qed

text \<open>The two forms of a native request: an authority envelope, or an ingress call.\<close>

lemma envelope_links:
  assumes "has_key request (lit ''authority_envelope_version'')"
  shows "(\<exists>links. native_request_links request = Some links \<and> Q links) \<longleftrightarrow>
    (\<exists>delegation approved own. get request (lit ''delegation'') = JObj delegation \<and> get request (lit ''approval'') = JObj approved
      \<and> get request (lit ''arguments'') = JObj own
      \<and> (\<exists>links. checked_links (get delegation (lit ''raw_token'')) (get delegation (lit ''parent_tokens''))
          (get approved (lit ''raw_token'')) (get request (lit ''tool_name'')) (JObj own) = Some links \<and> Q links))"
  using assms unfolding native_request_links_def enveloped_links_def by (auto split: json.splits)

lemma call_links:
  assumes "\<not> has_key request (lit ''authority_envelope_version'')"
  shows "(\<exists>links. native_request_links request = Some links \<and> Q links) \<longleftrightarrow>
    (\<exists>call name. get request (lit ''call'') = JObj call \<and> get call (lit ''name'') = JStr name \<and> strip name \<noteq> []
      \<and> (\<exists>links. checked_links (get request (lit ''delegation_token''))
          (if has_key request (lit ''parent_delegation_tokens'') then get request (lit ''parent_delegation_tokens'') else JList [])
          (get request (lit ''approval_token'')) (JStr (strip name))
          (if get call (lit ''arguments'') = JNull then JObj [] else get call (lit ''arguments'')) = Some links \<and> Q links))"
  using assms unfolding native_request_links_def ingress_links_def native_ingress_text_def Let_def by (auto split: json.splits)

lemma binding_iff:
  "request_binding_matches I request actor (Some token) parents approval tool arguments retained \<longleftrightarrow>
    fst (native_holder request) = JStr actor \<and> proof_matches I request retained
    \<and> tokens_repeated I request token parents approval tool arguments"
proof -
  have split: "request_binding_matches I request actor (Some token) parents approval tool arguments retained \<longleftrightarrow>
      fst (native_holder request) = JStr actor \<and> proof_matches I request retained \<and> text_or_null tool
      \<and> (\<exists>links. native_request_links request = Some links \<and> rl_leaf links = JStr token \<and> rl_parents links = map JStr parents
          \<and> rl_approval links = opt_json JStr approval \<and> rl_tool links = tool
          \<and> same_json I (JObj (rl_arguments links)) (JObj arguments))"
    unfolding request_binding_matches_def case_some opt_json_simps by blast
  have parents_or_none: "(if b then v else JList []) = strs parents \<longleftrightarrow> (if b then v = strs parents else parents = [])" for b v
    by (auto simp: strs_def)
  have object_or_none: "(if v = JNull then JObj [] else v) = JObj own \<longleftrightarrow> v = JNull \<and> own = [] \<or> v = JObj own" for v own
    by auto
  consider "\<not> text_or_null tool" | (envelope) "text_or_null tool" "has_key request (lit ''authority_envelope_version'')"
    | (call) "text_or_null tool" "\<not> has_key request (lit ''authority_envelope_version'')" by blast
  then show ?thesis
  proof cases
    case 1
    then show ?thesis unfolding split tokens_repeated_def text_or_null_iff [symmetric] by simp
  next
    case envelope
    note links = envelope_links [OF envelope(2)] checked_links_iff [OF envelope(1), where P = "\<lambda>own. same_json I (JObj own) (JObj arguments)"]
    show ?thesis
      unfolding split links tokens_repeated_def text_or_null_iff [symmetric] if_P [OF envelope(2)] json.inject by simp
  next
    case call
    note links = call_links [OF call(2)] checked_links_iff [OF call(1), where P = "\<lambda>own. same_json I (JObj own) (JObj arguments)"]
    show ?thesis
      unfolding split links tokens_repeated_def text_or_null_iff [symmetric] if_not_P [OF call(2)] parents_or_none object_or_none
        json.inject
      by (rule refl)
  qed
qed

lemma proof_matches_iff: "proof_matches I request (as_obj v) \<longleftrightarrow> proof_repeated I request v"
proof (cases "native_holder request")
  case (fields ident carried carries)
  then show ?thesis
    by (cases v) (auto simp: proof_matches_def proof_repeated_def split: option.splits)
qed

text \<open>The leaf's subject decided and made the request, and proved it unless A's dispatch stands in its place.\<close>

definition request_held ::
  "crypto \<Rightarrow> interp \<Rightarrow> authority_request \<Rightarrow> authority_admission \<Rightarrow> instant \<Rightarrow> bool \<Rightarrow> (pystr, json) dict \<Rightarrow> (pystr, json) dict
    \<Rightarrow> delegation_claims \<Rightarrow> (pystr, json) dict \<Rightarrow> bool" where
  "request_held K I q a at foreign receipt evidence leaf request \<longleftrightarrow>
     native_formed request \<and> decided_by receipt (sub leaf) \<and> fst (native_holder request) = JStr (sub leaf)
     \<and> (foreign \<or>
         (\<exists>shown h actor. get evidence (lit ''actor_proof'') = JObj shown
           \<and> actor_proof_request_hash I request = Inr h \<and> get shown (lit ''request_hash'') = JStr h
           \<and> verify_actor_proof K I (JObj [(lit ''actor_id'', JStr (sub leaf)), (lit ''actor_proof'', JObj shown)])
               (get (ad_claims a) (lit ''credential_trust_roots'')) h (aq_ledger q) at
               (int_of (get (ad_claims a) (lit ''max_actor_proof_age_seconds'')))
               (get (ad_claims a) (lit ''credential_registration_public_keys'')) = Inr (Inr actor)))"

text \<open>The native request repeats what the receipt retains.\<close>

definition request_repeats ::
  "interp \<Rightarrow> (pystr, json) dict \<Rightarrow> (pystr, json) dict \<Rightarrow> pystr \<Rightarrow> pystr list \<Rightarrow> (pystr, json) dict \<Rightarrow> bool" where
  "request_repeats I receipt evidence token parents request \<longleftrightarrow>
     proof_repeated I request (get evidence (lit ''actor_proof''))
     \<and> (\<exists>arguments approval.
          (if has_key receipt (lit ''arguments'') then get receipt (lit ''arguments'') = JObj arguments else arguments = [])
        \<and> (case approval of Some t \<Rightarrow> carries_artefact (get receipt (lit ''approval'')) t
           | None \<Rightarrow> \<not> (\<exists>t. carries_artefact (get receipt (lit ''approval'')) t))
        \<and> tokens_repeated I request token parents approval (get receipt (lit ''tool_name'')) arguments)"

lemma native_shape_iff: "native_shape request \<longleftrightarrow> native_formed request"
  unfolding native_shape_def native_formed_def
  by (cases "get request (lit ''actor'')"; cases "get request (lit ''call'')"; cases "native_holder request")
    (auto split: json.splits)

lemma decided_iff: "decision_actor receipt = JStr s \<longleftrightarrow> decided_by receipt s"
  by (simp add: decision_actor_def receipt_decision_def decided_by_def)

lemma subject_iff:
  "subject_holds receipt leaf request \<longleftrightarrow>
    native_formed request \<and> decided_by receipt (sub leaf) \<and> fst (native_holder request) = JStr (sub leaf)"
  by (simp add: subject_holds_def native_shape_iff decided_iff)

lemma approval_artefact_iff:
  "(case entry_artifact v of Some t \<Rightarrow> P (Some t) | None \<Rightarrow> P None) \<longleftrightarrow>
    (\<exists>appr. (case appr of Some t \<Rightarrow> carries_artefact v t | None \<Rightarrow> \<not> (\<exists>t. carries_artefact v t)) \<and> P appr)"
  unfolding entry_artifact_iff [symmetric] by (cases "entry_artifact v") (auto split: option.splits)

lemma links_iff:
  assumes "decided_by receipt s" "fst (native_holder request) = JStr s"
  shows "links_match I receipt evidence p request \<longleftrightarrow> request_repeats I receipt evidence (rp_leaf p) (rp_parents p) request"
proof -
  have s: "text_of (decision_actor receipt) = s" using assms(1) unfolding decided_iff [symmetric] by (simp add: text_of_def)
  define appr where "appr = entry_artifact (get receipt (lit ''approval''))"
  have approved: "(\<exists>t. (case t of Some x \<Rightarrow> carries_artefact (get receipt (lit ''approval'')) x
           | None \<Rightarrow> \<not> (\<exists>t. carries_artefact (get receipt (lit ''approval'')) t)) \<and> P t) \<longleftrightarrow> P appr" for P
    unfolding approval_artefact_iff [symmetric] appr_def [symmetric] by (cases appr) auto
  have arguments: "(case (if b then v else JObj []) of JObj d \<Rightarrow> P d | _ \<Rightarrow> False) \<longleftrightarrow>
      (\<exists>d. (if b then v = JObj d else d = []) \<and> P d)" for b v P
    by (cases v) auto
  show ?thesis
    unfolding links_match_def arguments binding_iff s request_repeats_def proof_matches_iff appr_def [symmetric]
    using assms(2) approved by auto
qed

lemma holder_iff:
  assumes "proof_repeated I request (get evidence (lit ''actor_proof''))" "get evidence (lit ''request_envelope'') = JObj request"
  shows "holder_holds K I q a at foreign leaf receipt evidence = Inr True \<longleftrightarrow>
    request_held K I q a at foreign receipt evidence leaf request"
proof (cases "subject_holds receipt leaf request")
  case False
  then show ?thesis
    using assms(2) by (auto simp: holder_holds_def request_held_def subject_iff split: json.splits)
next
  case True
  have verdict: "bnd r (\<lambda>verdict. Inr (P \<and> (case verdict of Inl refusal \<Rightarrow> False | Inr actor \<Rightarrow> True))) = Inr True \<longleftrightarrow>
      P \<and> (\<exists>actor. r = Inr (Inr actor))" for r :: "exc + actor_refusal + actor_identity" and P
  proof (cases r)
    case (Inr v)
    then show ?thesis by (cases v) auto
  qed simp
  have carried: "carried_matches I shown request" if "get evidence (lit ''actor_proof'') = JObj shown" for shown
    using assms(1) that
    by (cases "native_holder request") (auto simp: carried_matches_def proof_repeated_def)
  have actor: "decision_actor receipt = JStr (sub leaf)" using True by (simp add: subject_holds_def)
  show ?thesis
  proof (cases "get evidence (lit ''actor_proof'')")
    case (JObj shown)
    then show ?thesis
      using True True [unfolded subject_iff] assms(2) carried
      by (auto simp: holder_holds_def request_held_def holder_proved_def actor verdict
          bnd_Inr_iff [of "actor_proof_request_hash I request"])
  qed (use True True [unfolded subject_iff] assms(2) in \<open>auto simp: holder_holds_def request_held_def\<close>)
qed

section \<open>The statuses of the path\<close>

text \<open>
  Every grant of the path, the leaf first, has a status that verifies under the admitted keys, bounds
  and epoch floor, and the epochs they state do not fall.
\<close>

definition path_unrevoked ::
  "crypto \<Rightarrow> interp \<Rightarrow> authority_request \<Rightarrow> authority_admission \<Rightarrow> instant \<Rightarrow> (pystr, json) dict \<Rightarrow> json list
    \<Rightarrow> delegation_claims list \<Rightarrow> bool" where
  "path_unrevoked K I q a at delegation entries path \<longleftrightarrow>
     (\<exists>statuses. statuses = get delegation (lit ''revocation_status'')
          # map (\<lambda>v. case v of JObj entry \<Rightarrow> get entry (lit ''revocation_status'') | _ \<Rightarrow> JNull) entries
        \<and> list_all2 (\<lambda>g v. verify_revocation_status K I (claims_obj a ''revocation_attestation_public_keys'') (at, 0)
            (int_of (get (ad_claims a) (lit ''max_revocation_age_ms''))) (max_revocation_age_ms g) (int_of (aq_floor q))
            (jti g) v = Inr True) path statuses
        \<and> sorted (List.map_filter stated_epoch (List.map_filter as_obj statuses)))"

lemma parent_statuses_iff:
  "parent_statuses_ok check vs cs = Inr True \<longleftrightarrow> list_all2 (\<lambda>v c. check c (entry_status v) = Inr True) vs cs"
  by (induction check vs cs rule: parent_statuses_ok.induct) (auto simp: bnd_Inr_iff split: if_splits)

lemma path_statuses_iff:
  "path_statuses K I q a at leaf p = Inr (True, parents) \<longleftrightarrow>
    (\<exists>chain. validate_delegation_chain (chain_at K I (claims_obj a ''credential_trust_roots'') at) leaf (rp_parents p) = Inr chain
      \<and> parents = parent_claims chain)
    \<and> (\<exists>statuses. statuses = rp_status p # map entry_status (rp_entries p)
        \<and> list_all2 (\<lambda>g v. grant_status_ok K I q a at g v = Inr True) (leaf # parents) statuses
        \<and> sorted (List.map_filter stated_epoch (List.map_filter as_obj statuses)))"
proof -
  have flip: "list_all2 (\<lambda>v c. Q c (f v)) vs cs \<longleftrightarrow> list_all2 Q cs (map f vs)" for Q :: "'c \<Rightarrow> 'd \<Rightarrow> bool" and f :: "'v \<Rightarrow> 'd" and vs cs
    by (auto simp: list_all2_map2 list_all2_conv_all_nth)
  have gate: "bnd r (\<lambda>ok. if \<not> ok then Inr (False, x) else t) = Inr (True, y) \<longleftrightarrow> r = Inr True \<and> t = Inr (True, y)"
    for r :: "exc + bool" and t x y
    by (cases r) auto
  have walked: "bnd r (\<lambda>chain. f chain) = Inr y \<longleftrightarrow> (\<exists>chain. r = Inr chain \<and> f chain = Inr y)" for r :: "exc + chain_result" and f y
    by (rule bnd_Inr_iff)
  have last: "bnd r (\<lambda>regressed. Inr (regressed = None, x)) = Inr (True, y) \<longleftrightarrow> r = Inr None \<and> x = y"
    for r :: "exc + 'r option" and x y
    by (cases r) auto
  show ?thesis
    unfolding path_statuses_def gate walked last parent_statuses_iff epoch_regression_iff list.rel_inject list.map
      flip [of "\<lambda>g v. grant_status_ok K I q a at g v = Inr True" entry_status]
    by auto
qed

lemma entry_status_eq: "entry_status = (\<lambda>v. case v of JObj entry \<Rightarrow> get entry (lit ''revocation_status'') | _ \<Rightarrow> JNull)"
  by (rule ext) (auto simp: entry_status_def obj_or_empty_def split: json.splits)

lemma statuses_iff:
  "path_statuses K I q a at leaf \<lparr>rp_leaf = token, rp_parents = tokens, rp_entries = entries,
      rp_status = get delegation (lit ''revocation_status''), rp_files = files\<rparr> = Inr (True, parents) \<longleftrightarrow>
    (\<exists>chain. validate_delegation_chain (chain_at K I (claims_obj a ''credential_trust_roots'') at) leaf tokens = Inr chain
      \<and> parents = parent_claims chain) \<and> path_unrevoked K I q a at delegation entries (leaf # parents)"
  unfolding path_statuses_iff path_unrevoked_def entry_status_eq grant_status_ok_def status_roots_def retained_path.simps
  by (rule refl)

section \<open>The accounts\<close>

text \<open>The rows whose signed payload names an owner.\<close>

definition owned_by :: "pystr \<Rightarrow> json \<Rightarrow> bool" where
  "owned_by ident v \<longleftrightarrow>
     (\<exists>row payload. v = JObj row \<and> get row (lit ''signed_payload'') = JObj payload \<and> get payload (lit ''jti'') = JStr ident)"

text \<open>
  The rows of an owner are the statuses of exactly its accounts; those that the whole entry shares
  are kept under one scope identifier.
\<close>

definition owner_met ::
  "crypto \<Rightarrow> interp \<Rightarrow> authority_admission \<Rightarrow> instant \<Rightarrow> account_row list \<Rightarrow> json list \<Rightarrow> pystr \<Rightarrow> bool" where
  "owner_met K I a at accounts rows ident \<longleftrightarrow>
     (\<exists>own scope_id. own = filter (\<lambda>r. ac_jti r = ident) accounts
        \<and> (if \<exists>r \<in> set own. ac_scope r = Some (lit ''entry'')
           then \<forall>r \<in> set own. ac_scope r = Some (lit ''entry'') \<longrightarrow> ac_scope_id r = scope_id else scope_id = None)
        \<and> verify_cumulative_rows K I (claims_obj a ''cumulative_attestation_public_keys'') (at, 0)
            (int_of (get (ad_claims a) (lit ''max_cumulative_age_ms''))) scope_id
            (map (\<lambda>r. (ac_kind r, ac_unit r, ac_duration r, ac_scope r)) own) ident (JList (filter (owned_by ident) rows)) = Inr True)"

definition accounts_met ::
  "crypto \<Rightarrow> interp \<Rightarrow> authority_admission \<Rightarrow> instant \<Rightarrow> delegation_claims list \<Rightarrow> (pystr, json) dict \<Rightarrow> json \<Rightarrow> bool" where
  "accounts_met K I a at path receipt rows \<longleftrightarrow>
     (\<exists>action action_type boundary accounts.
        get (case get receipt (lit ''decision'') of JObj d \<Rightarrow> d | _ \<Rightarrow> receipt) (lit ''action'') = JObj action
        \<and> get action (lit ''type'') = JStr action_type \<and> get action (lit ''boundary'') = JStr boundary
        \<and> required_account_bounds path action_type boundary = Inr accounts
        \<and> (accounts = [] \<and> rows = JNull
           \<or> (\<exists>vs. rows = JList vs \<and> (\<forall>ident \<in> ac_jti ` set accounts. owner_met K I a at accounts vs ident)
               \<and> (\<forall>v \<in> set vs. \<exists>ident \<in> ac_jti ` set accounts. owned_by ident v))))"

text \<open>Under schema 5 the windowed bounds of the leaf are the accounts.\<close>

definition leaf_met ::
  "crypto \<Rightarrow> interp \<Rightarrow> authority_admission \<Rightarrow> instant \<Rightarrow> delegation_claims \<Rightarrow> json \<Rightarrow> bool" where
  "leaf_met K I a at leaf rows \<longleftrightarrow>
     (\<exists>windowed. windowed = concat (map (\<lambda>b. case bd_window b of None \<Rightarrow> []
            | Some w \<Rightarrow> [(bd_kind b, bd_unit b, snd w, bd_aggregation b)]) (bounds leaf))
        \<and> (windowed = [] \<and> rows = JNull
           \<or> verify_cumulative_rows K I (claims_obj a ''cumulative_attestation_public_keys'') (at, 0)
               (int_of (get (ad_claims a) (lit ''max_cumulative_age_ms''))) (authority_entry_hash leaf) windowed (jti leaf) rows
             = Inr True))"

lemma owned_iff: "row_owner v = JStr ident \<longleftrightarrow> owned_by ident v"
  by (auto simp: row_owner_def owned_by_def obj_or_empty_def split: json.splits)

text \<open>The scope identifiers of a group are at most one exactly if one identifier serves all of them.\<close>

lemma one_scope:
  "length (entry_scope_ids rows) \<le> 1 \<and> P (case entry_scope_ids rows of [] \<Rightarrow> None | s # _ \<Rightarrow> s) \<longleftrightarrow>
    (\<exists>s. (if \<exists>r \<in> set rows. ac_scope r = Some (lit ''entry'')
          then \<forall>r \<in> set rows. ac_scope r = Some (lit ''entry'') \<longrightarrow> ac_scope_id r = s else s = None) \<and> P s)"
proof -
  let ?ids = "entry_scope_ids rows"
  have ids: "s \<in> set ?ids \<longleftrightarrow> (\<exists>r \<in> set rows. ac_scope r = Some (lit ''entry'') \<and> ac_scope_id r = s)" for s
    by (auto simp: entry_scope_ids_def)
  have "distinct ?ids" by (simp add: entry_scope_ids_def)
  consider "?ids = []" | s where "?ids = [s]" | s t ss where "?ids = s # t # ss" by (metis neq_Nil_conv)
  then show ?thesis
  proof cases
    case 1
    then have "\<not> (\<exists>r \<in> set rows. ac_scope r = Some (lit ''entry''))" using ids by auto
    then show ?thesis using 1 by simp
  next
    case (2 s)
    then have "\<exists>r \<in> set rows. ac_scope r = Some (lit ''entry'') \<and> ac_scope_id r = s" using ids [of s] by simp
    moreover have "\<forall>r \<in> set rows. ac_scope r = Some (lit ''entry'') \<longrightarrow> ac_scope_id r = s"
      using ids 2 by (metis empty_iff empty_set set_ConsD)
    ultimately show ?thesis using 2 by auto
  next
    case (3 s t ss)
    then have "s \<noteq> t" "\<exists>r \<in> set rows. ac_scope r = Some (lit ''entry'') \<and> ac_scope_id r = s"
        "\<exists>r \<in> set rows. ac_scope r = Some (lit ''entry'') \<and> ac_scope_id r = t"
      using ids [of s] ids [of t] \<open>distinct ?ids\<close> by auto
    then show ?thesis using 3 by auto
  qed
qed

definition group_checked ::
  "(pystr option \<Rightarrow> expected_bound list \<Rightarrow> pystr \<Rightarrow> json \<Rightarrow> exc + bool) \<Rightarrow> account_row list \<Rightarrow> json list \<Rightarrow> pystr \<Rightarrow> bool" where
  "group_checked check accounts rows ident \<longleftrightarrow>
     (let group = filter (\<lambda>r. ac_jti r = ident) accounts; scope_ids = entry_scope_ids group
      in length scope_ids \<le> 1
         \<and> check (case scope_ids of [] \<Rightarrow> None | s # _ \<Rightarrow> s) (map account_expectation group) ident
             (JList (filter (\<lambda>v. row_owner v = JStr ident) rows)) = Inr True)"

lemma group_iff: "group_checked (cumulative_ok K I a at) accounts rows ident \<longleftrightarrow> owner_met K I a at accounts rows ident"
proof -
  let ?own = "filter (\<lambda>r. ac_jti r = ident) accounts"
  have row: "account_expectation = (\<lambda>r. (ac_kind r, ac_unit r, ac_duration r, ac_scope r))"
    by (rule ext) (simp add: account_expectation_def)
  show ?thesis
    using one_scope [of ?own "\<lambda>s. cumulative_ok K I a at s (map account_expectation ?own) ident (JList (filter (owned_by ident) rows)) = Inr True"]
    unfolding group_checked_def owner_met_def Let_def owned_iff row cumulative_ok_def by simp
qed

lemma owners_ok_iff:
  "distinct idents \<Longrightarrow> owners_ok check accounts idents rows = Inr True \<longleftrightarrow>
    list_all (group_checked check accounts rows) idents \<and> list_all (\<lambda>v. row_owner v \<in> JStr ` set idents) rows"
proof (induction idents arbitrary: rows)
  case Nil
  then show ?case by (auto simp: list_all_iff)
next
  case (Cons ident idents)
  let ?rest = "filter (\<lambda>v. row_owner v \<noteq> JStr ident) rows"
  have same: "filter (\<lambda>v. row_owner v = JStr j) ?rest = filter (\<lambda>v. row_owner v = JStr j) rows" if "j \<in> set idents" for j
    using that Cons.prems by (auto intro!: filter_cong)
  have met: "list_all (group_checked check accounts ?rest) idents \<longleftrightarrow> list_all (group_checked check accounts rows) idents"
    using same by (auto simp: list_all_iff group_checked_def Let_def)
  have "owners_ok check accounts (ident # idents) rows = Inr True \<longleftrightarrow>
    group_checked check accounts rows ident \<and> owners_ok check accounts idents ?rest = Inr True"
    by (auto simp: group_checked_def Let_def bnd_Inr_iff split: if_splits)
  then show ?case
    using Cons met by (auto simp: list_all_iff)
qed

lemma expected_iff:
  "expected_accounts path action = Inr accounts \<longleftrightarrow>
    (\<exists>action_type boundary. get action (lit ''type'') = JStr action_type \<and> get action (lit ''boundary'') = JStr boundary
      \<and> required_account_bounds path action_type boundary = Inr accounts)"
  by (auto simp: expected_accounts_def get_def bnd_Inr_iff expect_Inr_iff as_Some_iff split: option.splits)

lemma accounts_iff: "accounts_cumulative_ok K I a at path receipt rows = Inr (True, True) \<longleftrightarrow> accounts_met K I a at path receipt rows"
proof (cases "get (receipt_decision receipt) (lit ''action'')")
  case (JObj action)
  have owners: "bnd (owners_ok (cumulative_ok K I a at) accounts (remdups (map ac_jti accounts)) vs) (\<lambda>holds. Inr (holds, holds)) = Inr (True, True)
      \<longleftrightarrow> (\<forall>ident \<in> ac_jti ` set accounts. owner_met K I a at accounts vs ident)
        \<and> (\<forall>v \<in> set vs. \<exists>ident \<in> ac_jti ` set accounts. owned_by ident v)" for accounts vs
    using owners_ok_iff [of "remdups (map ac_jti accounts)" "cumulative_ok K I a at" accounts vs]
    unfolding group_iff by (auto simp: bnd_Inr_iff list_all_iff owned_iff [symmetric])
  have met: "accounts_met K I a at path receipt rows \<longleftrightarrow> (\<exists>accounts. expected_accounts path action = Inr accounts
        \<and> (accounts = [] \<and> rows = JNull
           \<or> (\<exists>vs. rows = JList vs \<and> (\<forall>ident \<in> ac_jti ` set accounts. owner_met K I a at accounts vs ident)
               \<and> (\<forall>v \<in> set vs. \<exists>ident \<in> ac_jti ` set accounts. owned_by ident v))))"
    using JObj unfolding accounts_met_def expected_iff receipt_decision_def by auto
  show ?thesis
  proof (cases "expected_accounts path action")
    case (Inl e)
    then show ?thesis
      using JObj unfolding met by (auto simp: accounts_cumulative_ok_def bnd_Inr_iff split: json.splits if_splits)
  next
    case (Inr accounts)
    then show ?thesis
      using JObj unfolding met by (cases rows) (auto simp: accounts_cumulative_ok_def owners)
  qed
qed (auto simp: accounts_cumulative_ok_def accounts_met_def receipt_decision_def)

lemma leaf_bounds_eq: "leaf_bounds leaf = concat (map (\<lambda>b. case bd_window b of None \<Rightarrow> []
            | Some w \<Rightarrow> [(bd_kind b, bd_unit b, snd w, bd_aggregation b)]) (bounds leaf))"
proof -
  have "List.map_filter (\<lambda>b. map_option (g b) (f b)) bs = concat (map (\<lambda>b. case f b of None \<Rightarrow> [] | Some w \<Rightarrow> [g b w]) bs)" for f g bs
    by (induction bs) (auto simp: List.map_filter_simps split: option.splits)
  then show ?thesis by (simp add: leaf_bounds_def)
qed

lemma leaf_iff: "leaf_cumulative_ok K I a at leaf rows = Inr True \<longleftrightarrow> leaf_met K I a at leaf rows"
  unfolding leaf_cumulative_ok_def leaf_met_def leaf_bounds_eq [symmetric] cumulative_ok_def by auto

definition cumulative_met ::
  "crypto \<Rightarrow> interp \<Rightarrow> authority_admission \<Rightarrow> instant \<Rightarrow> json \<Rightarrow> delegation_claims list \<Rightarrow> (pystr, json) dict \<Rightarrow> json \<Rightarrow> bool" where
  "cumulative_met K I a at version path receipt rows \<longleftrightarrow>
     (if version = JStr (lit ''6'') then accounts_met K I a at path receipt rows else leaf_met K I a at (hd path) rows)"

lemma cumulative_iff:
  "cumulative_check K I a at version leaf parents receipt evidence = Inr (True, True) \<longleftrightarrow>
    cumulative_met K I a at version (leaf # parents) receipt (get evidence (lit ''cumulative_status''))"
  by (auto simp: cumulative_check_def cumulative_met_def consumption_version_def Let_def accounts_iff leaf_iff [symmetric] bnd_Inr_iff)

section \<open>The path\<close>

text \<open>What is left to check on an admitted path: credentials, request, holder, statuses and accounts.\<close>

definition path_authorises ::
  "crypto \<Rightarrow> interp \<Rightarrow> (pystr \<Rightarrow> pystr) \<Rightarrow> authority_request \<Rightarrow> authority_admission \<Rightarrow> instant \<Rightarrow> json \<Rightarrow> bool
    \<Rightarrow> (pystr, json) dict \<Rightarrow> (pystr, json) dict \<Rightarrow> (pystr, json) dict \<Rightarrow> json list \<Rightarrow> pystr \<Rightarrow> pystr list \<Rightarrow> bool" where
  "path_authorises K I nfkc q a at version foreign receipt evidence delegation entries token tokens \<longleftrightarrow>
     (\<exists>c. verify_receipt_credentials K I nfkc
         \<lparr>cq_printed = aq_printed q, cq_roots = claims_obj a ''credential_trust_roots'',
           cq_registration_keys = get (ad_claims a) (lit ''credential_registration_public_keys''),
           cq_escalation = aq_escalation q, cq_audience = Some (aq_ledger q), cq_admission_roots = None,
           cq_foreign = (if foreign then Some a else None)\<rparr> receipt = Inr c \<and> rc_valid c)
     \<and> (\<exists>leaf chain request.
          parse_delegation K I (claims_obj a ''credential_trust_roots'') token = Inr (Some leaf)
        \<and> get evidence (lit ''request_envelope'') = JObj request
        \<and> request_held K I q a at foreign receipt evidence leaf request
        \<and> request_repeats I receipt evidence token tokens request
        \<and> validate_delegation_chain (chain_at K I (claims_obj a ''credential_trust_roots'') at) leaf tokens = Inr chain
        \<and> path_unrevoked K I q a at delegation entries (leaf # parent_claims chain)
        \<and> cumulative_met K I a at version (leaf # parent_claims chain) receipt (get evidence (lit ''cumulative_status'')))"

definition earlier_checks :: "authority_check list" where
  "earlier_checks = [Profile, Receipt_Time, Admission_Evidence, Enforcement_Point_Binding, Configuration, Resource_Binding]"

lemma credentials_iff:
  "retained_credentials K I nfkc q a foreign receipt = Inr True \<longleftrightarrow>
    (\<exists>c. verify_receipt_credentials K I nfkc
         \<lparr>cq_printed = aq_printed q, cq_roots = claims_obj a ''credential_trust_roots'',
           cq_registration_keys = get (ad_claims a) (lit ''credential_registration_public_keys''),
           cq_escalation = aq_escalation q, cq_audience = Some (aq_ledger q), cq_admission_roots = None,
           cq_foreign = (if foreign then Some a else None)\<rparr> receipt = Inr c \<and> rc_valid c)"
  by (auto simp: retained_credentials_def bnd_Inr_iff)

lemma request_iff:
  "(case get evidence (lit ''request_envelope'') of JObj request \<Rightarrow> links_match I receipt evidence p request | _ \<Rightarrow> False)
      \<and> holder_holds K I q a at foreign leaf receipt evidence = Inr True \<longleftrightarrow>
    (\<exists>request. get evidence (lit ''request_envelope'') = JObj request
      \<and> request_held K I q a at foreign receipt evidence leaf request
      \<and> request_repeats I receipt evidence (rp_leaf p) (rp_parents p) request)"
proof (cases "get evidence (lit ''request_envelope'')")
  case (JObj request)
  show ?thesis
  proof (cases "decided_by receipt (sub leaf) \<and> fst (native_holder request) = JStr (sub leaf)")
    case True
    then have l: "links_match I receipt evidence p request \<longleftrightarrow> request_repeats I receipt evidence (rp_leaf p) (rp_parents p) request"
      using links_iff by blast
    show ?thesis
    proof (cases "proof_repeated I request (get evidence (lit ''actor_proof''))")
      case True
      then show ?thesis using l JObj holder_iff by auto
    next
      case False
      then show ?thesis using l JObj by (auto simp: request_repeats_def)
    qed
  next
    case False
    then have "\<not> request_held K I q a at foreign receipt evidence leaf request" "\<not> subject_holds receipt leaf request"
      by (auto simp: request_held_def subject_iff)
    then show ?thesis using JObj by (auto simp: holder_holds_def split: json.splits)
  qed
qed simp_all

lemma authority_of_path_iff:
  assumes "set passed \<subseteq> set earlier_checks"
  shows "valid_result (authority_of_path K I nfkc q a at version foreign receipt evidence
      \<lparr>rp_leaf = token, rp_parents = tokens, rp_entries = entries,
        rp_status = get delegation (lit ''revocation_status''), rp_files = files\<rparr> passed faultless) \<longleftrightarrow>
    faultless \<and> list_all (\<lambda>c. c \<in> set passed) earlier_checks
    \<and> path_authorises K I nfkc q a at version foreign receipt evidence delegation entries token tokens"
  (is "valid_result (authority_of_path K I nfkc q a at version foreign receipt evidence ?p passed faultless) \<longleftrightarrow> _")
proof -
  have later: "c \<notin> set passed" if "c \<in> {Delegation_Path, Retained_Credentials, Request_Artifact_Binding, Holder_Request,
      Revocation_Status, Cumulative_Status}" for c
    using assms that by (auto simp: earlier_checks_def)
  have all: "set (passed @ [Delegation_Path] @ check_if credentials Retained_Credentials @ check_if linked Request_Artifact_Binding
      @ check_if holder Holder_Request @ check_if revocation Revocation_Status @ check_if cumulative Cumulative_Status)
      = set authority_checks \<longleftrightarrow> list_all (\<lambda>c. c \<in> set passed) earlier_checks \<and> credentials \<and> linked \<and> holder \<and> revocation \<and> cumulative"
    for credentials linked holder revocation cumulative
    unfolding passed_all by (simp add: later authority_checks_def earlier_checks_def) blast
  define linked where "linked = (case get evidence (lit ''request_envelope'') of
      JObj request \<Rightarrow> links_match I receipt evidence ?p request | _ \<Rightarrow> False)"
  have "valid_result (authority_of_path K I nfkc q a at version foreign receipt evidence ?p passed faultless) \<longleftrightarrow>
    faultless \<and> list_all (\<lambda>c. c \<in> set passed) earlier_checks \<and> retained_credentials K I nfkc q a foreign receipt = Inr True
    \<and> (\<exists>leaf parents. parse_delegation K I (claims_obj a ''credential_trust_roots'') token = Inr (Some leaf)
        \<and> (linked \<and> holder_holds K I q a at foreign leaf receipt evidence = Inr True)
        \<and> path_statuses K I q a at leaf ?p = Inr (True, parents)
        \<and> cumulative_check K I a at version leaf parents receipt evidence = Inr (True, True))"
    unfolding authority_of_path_def Let_def append_assoc linked_def [symmetric] valid_result_simps split_paired_Ex prod.case
      execution_authority.simps retained_path.simps all
    by (auto simp: ex_bool_eq)
  also have "\<dots> \<longleftrightarrow> faultless \<and> list_all (\<lambda>c. c \<in> set passed) earlier_checks
    \<and> path_authorises K I nfkc q a at version foreign receipt evidence delegation entries token tokens"
    unfolding linked_def request_iff statuses_iff cumulative_iff credentials_iff path_authorises_def retained_path.simps
    by (auto; blast)
  finally show ?thesis .
qed

section \<open>The receipt\<close>

lemma authority_of_admission_iff:
  "valid_result (authority_of_admission K I nfkc q a at version receipt evidence d (check_if live Profile @ [Receipt_Time])) \<longleftrightarrow>
    live \<and> repeats_admission q a version d \<and> serves_schema a version d \<and> repeats_configuration I a d
    \<and> repeats_binding I a d receipt evidence
    \<and> (\<exists>foreign delegation entries token tokens files. dispatch_stands K I nfkc a at receipt evidence foreign
        \<and> path_retained K I a at receipt d delegation entries token tokens files
        \<and> path_authorises K I nfkc q a at version foreign receipt evidence delegation entries token tokens)"
proof -
  let ?passed = "(check_if live Profile @ [Receipt_Time]) @ admission_checks I q a version d receipt evidence"
  have sub: "set ?passed \<subseteq> set earlier_checks"
    by (auto simp: earlier_checks_def admission_checks_def)
  define block where "block \<longleftrightarrow> repeats_admission q a version d \<and> serves_schema a version d \<and> repeats_configuration I a d
    \<and> repeats_binding I a d receipt evidence"
  have all: "admission_serves_version version a d \<and> list_all (\<lambda>c. c \<in> set ?passed) earlier_checks \<and> Q \<longleftrightarrow> live \<and> block \<and> Q" for Q
    unfolding block_def admission_block_iff [symmetric]
    by (auto simp: earlier_checks_def admission_checks_def admission_summary_matches_def)
  have "valid_result (authority_of_admission K I nfkc q a at version receipt evidence d (check_if live Profile @ [Receipt_Time])) \<longleftrightarrow>
    (\<exists>foreign. dispatch_stands K I nfkc a at receipt evidence foreign
      \<and> (\<exists>p. retained_path_of receipt d = Inr (Some p) \<and> path_admitted K I a at d p = Inr True
        \<and> valid_result (authority_of_path K I nfkc q a at version foreign receipt evidence p ?passed (admission_serves_version version a d))))"
    unfolding authority_of_admission_def Let_def valid_result_simps not_not ex_true foreign_evidence_iff [symmetric]
    by (auto; blast)
  also have "\<dots> \<longleftrightarrow> live \<and> block \<and> (\<exists>foreign delegation entries token tokens files.
      dispatch_stands K I nfkc a at receipt evidence foreign
        \<and> path_retained K I a at receipt d delegation entries token tokens files
        \<and> path_authorises K I nfkc q a at version foreign receipt evidence delegation entries token tokens)"
    unfolding retained_path_iff authority_of_path_iff [OF sub] all by blast
  finally show ?thesis unfolding block_def by blast
qed

text \<open>
  C1: The retained receipt proves live authority exactly if it is a live schema-5 or schema-6 record
  whose admission verifies for the caller; that repeats this admission, its configuration and its
  resource binding; whose path is admitted; whose credentials are valid; whose native request repeats
  the retained tokens and is made and proved by the subject of the leaf (or stands on A's dispatch);
  for whose leaf and every parent a verified revocation status is retained, with epochs that do not
  fall; and whose cumulative rows are those of every required account and no other.
\<close>
theorem execution_authority_iff:
  "(\<exists>r. verify_execution_authority K I nfkc q v = Inr r \<and> ea_valid r) \<longleftrightarrow>
    (\<exists>receipt evidence version at d token a foreign delegation entries leaf_token tokens files.
       (\<exists>floor. aq_floor q = JInt floor \<and> 0 \<le> floor) \<and> v = JObj receipt \<and> get receipt (lit ''evidence'') = JObj evidence
       \<and> version = get evidence (lit ''schema_version'') \<and> version \<in> {JStr (lit ''5''), JStr (lit ''6'')}
       \<and> get evidence (lit ''execution_profile'') = JStr (lit ''live'')
       \<and> aware_moment (get (case get receipt (lit ''decision'') of JObj x \<Rightarrow> x | _ \<Rightarrow> receipt) (lit ''evaluated_at'')) = Inr at
       \<and> get evidence (lit ''authority_admission'') = JObj d \<and> get d (lit ''artifact'') = JStr token \<and> token \<noteq> []
       \<and> verify_authority_admission K I nfkc (aq_roots q) (aq_domain q) (aq_ledger q) (at, Some 0) (aq_minimum q)
           (aq_previous q) token = Some a
       \<and> repeats_admission q a version d \<and> serves_schema a version d \<and> repeats_configuration I a d
       \<and> repeats_binding I a d receipt evidence
       \<and> dispatch_stands K I nfkc a at receipt evidence foreign
       \<and> path_retained K I a at receipt d delegation entries leaf_token tokens files
       \<and> path_authorises K I nfkc q a at version foreign receipt evidence delegation entries leaf_token tokens)"
  (is "?l \<longleftrightarrow> ?r")
proof (cases "\<exists>receipt evidence. natural (aq_floor q) \<and> v = JObj receipt \<and> get receipt (lit ''evidence'') = JObj evidence")
  case False
  then have "\<not> valid_result (verify_execution_authority K I nfkc q v)"
    by (auto simp: verify_execution_authority_def floor_ok_def valid_result_simps split: json.splits)
  then show ?thesis using False by (auto simp: valid_result_def natural_def)
next
  case True
  then obtain receipt evidence where c: "natural (aq_floor q)" "v = JObj receipt" "get receipt (lit ''evidence'') = JObj evidence"
    by blast
  let ?version = "get evidence (lit ''schema_version'')" and ?d = "obj_or_empty (get evidence (lit ''authority_admission''))"
  have version: "one_of [''5'', ''6''] ?version = Inr True \<longleftrightarrow> ?version \<in> {JStr (lit ''5''), JStr (lit ''6'')}"
    by (auto simp: one_of_def unhashable_def)
  have token: "some_text (get ?d (lit ''artifact'')) = Some token \<longleftrightarrow>
      (\<exists>d. get evidence (lit ''authority_admission'') = JObj d \<and> get d (lit ''artifact'') = JStr token \<and> token \<noteq> [])" for token
    by (auto simp: some_text_iff obj_or_empty_def split: json.splits)
  have moment: "receipt_moment receipt = Inr (Some at) \<longleftrightarrow>
      aware_moment (get (case get receipt (lit ''decision'') of JObj x \<Rightarrow> x | _ \<Rightarrow> receipt) (lit ''evaluated_at'')) = Inr at" for at
    by (auto simp: receipt_moment_def moment_or_none_def receipt_decision_def split: sum.splits)
  have floor: "\<exists>floor. aq_floor q = JInt floor \<and> 0 \<le> floor"
    using c(1) by (auto simp: natural_def split: json.splits)
  have "?l \<longleftrightarrow> valid_result (verify_execution_authority K I nfkc q v)" by (simp add: valid_result_def)
  also have "\<dots> \<longleftrightarrow> ?version \<in> {JStr (lit ''5''), JStr (lit ''6'')}
    \<and> (\<exists>at token a. receipt_moment receipt = Inr (Some at) \<and> some_text (get ?d (lit ''artifact'')) = Some token
      \<and> verify_authority_admission K I nfkc (aq_roots q) (aq_domain q) (aq_ledger q) (at, Some 0) (aq_minimum q) (aq_previous q) token = Some a
      \<and> valid_result (authority_of_admission K I nfkc q a at ?version receipt evidence ?d
          (check_if (get evidence (lit ''execution_profile'') = JStr (lit ''live'')) Profile @ [Receipt_Time])))"
    unfolding verify_execution_authority_def floor_ok_def Let_def c json.simps valid_result_simps not_not ex_true version
    using c(1) by auto
  also have "\<dots> \<longleftrightarrow> ?r"
    unfolding authority_of_admission_iff token moment using c floor by (auto simp: obj_or_empty_def; blast)
  finally show ?thesis .
qed

end
