(* ===== verification/Spec2Isabelle.thy ===== *)
theory Spec2Isabelle
  imports Checkpoint Receipt_Links Revocation_Fence Consumption Ratification_Bundle Actor_Proof Behavioural Foreign_Facts Admission_Facts Credential_Facts Authority_Facts
begin

text \<open>
  Verification of \<open>ambit_verify\<close>, the Python verifier of Ambit ledgers and evidence.
\<close>

end
